(* ===== verification/Prelude.thy ===== *)
theory Prelude
  imports Main "HOL-Library.Word" "HOL-Library.Code_Target_Numeral"
begin

text \<open>
  The vocabulary every component shares.

  \<^item> Go functions that may panic return a value of type \<open>'a go\<close>: \<open>Inl\<close> of what stopped them, or
    \<open>Inr\<close> of the result. A Go result \<open>(T, error)\<close> is \<open>'a res\<close>, \<open>Inl\<close> of the error or \<open>Inr\<close> of
    the value. A function with both is of type \<open>'a res go\<close>. \<open>go_bind\<close> sequences either of them.
  \<^item> A Go \<open>string\<close> is a sequence of bytes, which is what HOL's \<open>string\<close> (a list of 8-bit
    characters) is; a Go \<open>byte\<close> is an \<open>8 word\<close>.
  \<^item> Error values keep the constant part of the text they are built from; the values that
    \<open>fmt.Errorf\<close> splices in are left out.
\<close>

section \<open>Panics, errors and their sequencing\<close>

text \<open>\<open>NoFuel\<close> is not a Go panic: it marks a model function that ran out of its fuel
  argument. Each fuelled function comes with a lemma that it does not happen.\<close>

datatype go_exc = Panic string | NoFuel

datatype go_error = Err string

type_synonym 'a go = "go_exc + 'a"
type_synonym 'a res = "go_error + 'a"

definition go_bind :: "'e + 'a \<Rightarrow> ('a \<Rightarrow> 'e + 'b) \<Rightarrow> 'e + 'b" where
  "go_bind m f = (case m of Inl e \<Rightarrow> Inl e | Inr x \<Rightarrow> f x)"

lemma go_bind_simps [simp]:
  "go_bind (Inl e) f = Inl e"
  "go_bind (Inr x) f = f x"
  by (simp_all add: go_bind_def)

lemma go_bind_cong [fundef_cong]:
  assumes "m = m'" and "\<And>x. m' = Inr x \<Longrightarrow> f x = g x"
  shows "go_bind m f = go_bind m' g"
  using assms by (cases m') auto

lemma go_bind_Inr_iff: "go_bind m f = Inr y \<longleftrightarrow> (\<exists>x. m = Inr x \<and> f x = Inr y)"
  by (cases m) auto

lemma go_bind_Inl_iff: "go_bind m f = Inl e \<longleftrightarrow> m = Inl e \<or> (\<exists>x. m = Inr x \<and> f x = Inl e)"
  by (cases m) auto

lemma go_bind_InrE:
  assumes "go_bind m f = Inr y"
  obtains x where "m = Inr x" and "f x = Inr y"
  using assms by (auto simp: go_bind_Inr_iff)

lemma go_bind_assoc: "go_bind (go_bind m f) g = go_bind m (\<lambda>x. go_bind (f x) g)"
  by (cases m) simp_all

lemma go_bind_Inr [simp]: "go_bind m Inr = m"
  by (cases m) simp_all

text \<open>\<open>go_all P m\<close>: if \<open>m\<close> does not panic, its result satisfies \<open>P\<close>.\<close>

definition go_all :: "('a \<Rightarrow> bool) \<Rightarrow> 'e + 'a \<Rightarrow> bool" where
  "go_all P m = (case m of Inl e \<Rightarrow> True | Inr x \<Rightarrow> P x)"

lemma go_all_simps [simp]: "go_all P (Inl e)" "go_all P (Inr x) \<longleftrightarrow> P x"
  by (simp_all add: go_all_def)

lemma go_all_bind [simp]: "go_all P (go_bind m f) \<longleftrightarrow> go_all (\<lambda>x. go_all P (f x)) m"
  by (cases m) simp_all

lemma go_all_any: "(\<And>x. P x) \<Longrightarrow> go_all P m"
  by (cases m) simp_all

lemma go_all_mono: "go_all Q m \<Longrightarrow> (\<And>x. Q x \<Longrightarrow> P x) \<Longrightarrow> go_all P m"
  by (cases m) simp_all

lemma go_all_InrD: "go_all P m \<Longrightarrow> m = Inr x \<Longrightarrow> P x"
  by simp

definition panics :: "'a go \<Rightarrow> bool" where
  "panics m \<longleftrightarrow> (\<exists>s. m = Inl (Panic s))"

lemma panics_simps [simp]:
  "panics (Inl (Panic s))"
  "\<not> panics (Inr x)"
  "\<not> panics (Inl NoFuel)"
  by (simp_all add: panics_def)

text \<open>Functions that never report a lack of fuel are collected in \<open>fuel_free\<close>.\<close>

named_theorems fuel_free

definition fuel_ok :: "'a go \<Rightarrow> bool" where
  "fuel_ok m \<longleftrightarrow> m \<noteq> Inl NoFuel"

lemma fuel_ok_simps [simp]: "fuel_ok (Inr x)" "fuel_ok (Inl (Panic s))" "\<not> fuel_ok (Inl NoFuel)"
  by (simp_all add: fuel_ok_def)

lemma fuel_ok_bind:
  assumes "fuel_ok m" and "\<And>x. m = Inr x \<Longrightarrow> fuel_ok (f x)"
  shows "fuel_ok (go_bind m f)"
  using assms by (cases m) (auto simp: fuel_ok_def)

lemma fuel_ok_if: "(P \<Longrightarrow> fuel_ok x) \<Longrightarrow> (\<not> P \<Longrightarrow> fuel_ok y) \<Longrightarrow> fuel_ok (if P then x else y)"
  by simp

lemma fuel_ok_cases:
  assumes "fuel_ok m"
  obtains (ok) x where "m = Inr x" | (panic) s where "m = Inl (Panic s)"
proof (cases m)
  case (Inl e)
  then show thesis using assms panic by (cases e) auto
next
  case (Inr x)
  then show thesis by (rule ok)
qed

text \<open>A loop that appends the results of a fallible body.\<close>

fun go_map :: "('a \<Rightarrow> 'e + 'b) \<Rightarrow> 'a list \<Rightarrow> 'e + 'b list" where
  "go_map f [] = Inr []"
| "go_map f (x # xs) = go_bind (f x) (\<lambda>y. go_bind (go_map f xs) (\<lambda>ys. Inr (y # ys)))"

lemma go_map_cong [fundef_cong]:
  assumes "xs = ys" and "\<And>x. x \<in> set ys \<Longrightarrow> f x = g x"
  shows "go_map f xs = go_map g ys"
  unfolding assms(1) using assms(2) by (induction ys) simp_all

lemma go_map_Inr_iff:
  "go_map f xs = Inr ys \<longleftrightarrow> list_all2 (\<lambda>x y. f x = Inr y) xs ys"
  by (induction xs arbitrary: ys) (auto simp: go_bind_Inr_iff list_all2_Cons1)

lemma go_map_all_Inr: "(\<And>x. x \<in> set xs \<Longrightarrow> f x = Inr (g x)) \<Longrightarrow> go_map f xs = Inr (map g xs)"
  by (induction xs) simp_all

section \<open>Bytes and strings\<close>

type_synonym byte = "8 word"

definition byte_of_char :: "char \<Rightarrow> byte" where
  "byte_of_char c = word_of_nat (of_char c)"

definition char_of_byte :: "byte \<Rightarrow> char" where
  "char_of_byte b = char_of (unat b)"

lemma unat_byte_of_char [simp]: "unat (byte_of_char c) = of_char c"
proof -
  have "of_char c < (256::nat)" by (rule nat_of_char_less_256)
  then show ?thesis by (simp add: byte_of_char_def unat_of_nat take_bit_nat_eq_self)
qed

lemma char_of_byte_of_char [simp]: "char_of_byte (byte_of_char c) = c"
  by (simp add: char_of_byte_def)

lemma byte_of_char_of_byte [simp]: "byte_of_char (char_of_byte b) = b"
proof -
  have "unat b < 256" using unsigned_less [where ?'a = nat, of b] by simp
  then show ?thesis by (simp add: byte_of_char_def char_of_byte_def)
qed

lemma unat_byte_less [simp]: "unat (b :: byte) < 256"
  using unsigned_less [where ?'a = nat, of b] by simp

definition bytes_of_string :: "string \<Rightarrow> byte list" where
  "bytes_of_string s = map byte_of_char s"

definition string_of_bytes :: "byte list \<Rightarrow> string" where
  "string_of_bytes bs = map char_of_byte bs"

lemma length_bytes_of_string [simp]: "length (bytes_of_string s) = length s"
  by (simp add: bytes_of_string_def)

lemma string_of_bytes_of_string [simp]: "string_of_bytes (bytes_of_string s) = s"
  by (simp add: bytes_of_string_def string_of_bytes_def comp_def)

section \<open>Big-endian integers\<close>

text \<open>\<open>byte(bits >> (8*i))\<close> for \<open>i\<close> from \<open>n - 1\<close> down to 0, as the encoders write it, and the
  reading of \<open>encoding/binary.BigEndian\<close>.\<close>

definition be_bytes :: "nat \<Rightarrow> 64 word \<Rightarrow> byte list" where
  "be_bytes n w = map (\<lambda>i. ucast (drop_bit (8 * i) w)) (rev [0..<n])"

definition be_uint :: "byte list \<Rightarrow> nat" where
  "be_uint bs = foldl (\<lambda>a b. a * 256 + unat b) 0 bs"

lemma length_be_bytes [simp]: "length (be_bytes n w) = n"
  by (simp add: be_bytes_def)

lemma be_bytes_Suc: "be_bytes (Suc n) w = ucast (drop_bit (8 * n) w) # be_bytes n w"
  by (simp add: be_bytes_def)

lemma foldl_be: "foldl (\<lambda>a b. a * 256 + unat (b :: byte)) k bs = k * 256 ^ length bs + be_uint bs"
proof (induction bs arbitrary: k)
  case Nil
  then show ?case by (simp add: be_uint_def)
next
  case (Cons b bs)
  have "be_uint (b # bs) = unat b * 256 ^ length bs + be_uint bs"
    using Cons.IH [of "unat b"] by (simp add: be_uint_def)
  then show ?case using Cons.IH [of "k * 256 + unat b"] by (simp add: algebra_simps)
qed

lemma be_uint_Nil [simp]: "be_uint [] = 0"
  by (simp add: be_uint_def)

lemma be_uint_Cons: "be_uint (b # bs) = unat b * 256 ^ length bs + be_uint bs"
  using foldl_be [of "unat b" bs] by (simp add: be_uint_def)

lemma be_uint_bound: "be_uint bs < 256 ^ length bs"
proof (induction bs)
  case (Cons b bs)
  have "Suc (unat b) \<le> 256" using unat_byte_less [of b] by linarith
  then have "Suc (unat b) * 256 ^ length bs \<le> 256 * 256 ^ length bs" by (rule mult_le_mono1)
  then have "be_uint (b # bs) < 256 * 256 ^ length bs"
    using Cons unfolding be_uint_Cons mult_Suc by linarith
  then show ?case by simp
qed simp

lemma unat_drop_bit: "unat (drop_bit k (w :: 64 word)) = unat w div 2 ^ k"
  unfolding unat_drop_bit_eq by (rule drop_bit_eq_div)

lemma unat_ucast_drop_bit: "unat (ucast (drop_bit k (w :: 64 word)) :: byte) = unat w div 2 ^ k mod 256"
  unfolding unsigned_ucast_eq unat_drop_bit by (simp add: take_bit_eq_mod)

lemma be_uint_be_bytes: "be_uint (be_bytes n w) = unat w mod 256 ^ n"
proof (induction n)
  case 0
  then show ?case by (simp add: be_bytes_def)
next
  case (Suc n)
  have p: "(2::nat) ^ (8 * n) = 256 ^ n" by (simp add: power_mult)
  have "be_uint (be_bytes (Suc n) w) = unat w div 256 ^ n mod 256 * 256 ^ n + unat w mod 256 ^ n"
    by (simp add: be_bytes_Suc be_uint_Cons Suc unat_ucast_drop_bit p)
  also have "\<dots> = unat w mod (256 ^ n * 256)"
    by (simp add: mod_mult2_eq)
  finally show ?case by (simp add: mult.commute)
qed

section \<open>Slices\<close>

text \<open>\<open>s[lo:hi]\<close> of a Go slice, where \<open>hi\<close> within the length is checked by the caller.\<close>

definition slice :: "nat \<Rightarrow> nat \<Rightarrow> 'a list \<Rightarrow> 'a list" where
  "slice lo hi xs = take (hi - lo) (drop lo xs)"

definition go_slice :: "'a list \<Rightarrow> nat \<Rightarrow> nat \<Rightarrow> 'a list go" where
  "go_slice xs lo hi =
     (if lo \<le> hi \<and> hi \<le> length xs then Inr (slice lo hi xs)
      else Inl (Panic ''slice bounds out of range''))"

definition go_index :: "'a list \<Rightarrow> nat \<Rightarrow> 'a go" where
  "go_index xs i =
     (if i < length xs then Inr (xs ! i) else Inl (Panic ''index out of range''))"

lemma length_slice [simp]: "hi \<le> length xs \<Longrightarrow> length (slice lo hi xs) = hi - lo"
  by (simp add: slice_def)

lemma slice_append: "slice (length xs) (length xs + length ys) (xs @ ys @ zs) = ys"
  by (simp add: slice_def)

lemma go_slice_append [simp]:
  "lo = length xs \<Longrightarrow> hi = length xs + length ys \<Longrightarrow> go_slice (xs @ ys @ zs) lo hi = Inr ys"
  by (simp add: go_slice_def slice_append)

lemma go_index_append [simp]: "i = length xs \<Longrightarrow> go_index (xs @ y # ys) i = Inr y"
  by (simp add: go_index_def)

lemma go_index_fuel_ok [fuel_free]: "fuel_ok (go_index xs i)"
  by (simp add: go_index_def)

lemma go_slice_fuel_ok [fuel_free]: "fuel_ok (go_slice xs lo hi)"
  by (simp add: go_slice_def)

lemma go_map_fuel_ok: "(\<And>x. x \<in> set xs \<Longrightarrow> fuel_ok (f x)) \<Longrightarrow> fuel_ok (go_map f xs)"
  by (induction xs) (auto intro!: fuel_ok_bind)

end
