(* ===== verification/Go_Base.thy ===== *)
theory Go_Base
  imports Prelude
begin

text \<open>
  What the source uses of the Go language and its standard library: decimal formatting
  (\<open>fmt.Sprintf("%d")\<close>), the runes of a string (\<open>for _, ch := range s\<close>), \<open>unicode.IsSpace\<close>,
  \<open>strconv.ParseInt(v, 0, 0)\<close> on strings that start with \<open>0b\<close>, and the conversions between
  integers, \<open>float32\<close> and \<open>float64\<close>. A float is the \<open>64 word\<close> (or \<open>32 word\<close>) of its IEEE 754 bits.
\<close>

section \<open>Decimal formatting\<close>

definition digit_char :: "nat \<Rightarrow> char" where
  "digit_char d = char_of (48 + d)"

fun dec_nat :: "nat \<Rightarrow> string" where
  "dec_nat n = (if n < 10 then [digit_char n] else dec_nat (n div 10) @ [digit_char (n mod 10)])"

declare dec_nat.simps [simp del]

definition dec :: "int \<Rightarrow> string" where
  "dec i = (if i < 0 then CHR ''-'' # dec_nat (nat (- i)) else dec_nat (nat i))"

definition undec :: "string \<Rightarrow> nat" where
  "undec s = foldl (\<lambda>a c. 10 * a + (of_char c - 48)) 0 s"

lemma of_char_digit_char: "d < 10 \<Longrightarrow> of_char (digit_char d) = (48 + d :: nat)"
  by (simp add: digit_char_def)

lemma undec_dec_nat: "undec (dec_nat n) = n"
proof (induction n rule: dec_nat.induct)
  case (1 n)
  show ?case
  proof (cases "n < 10")
    case True
    then show ?thesis by (subst dec_nat.simps) (simp add: undec_def of_char_digit_char)
  next
    case False
    with 1 have "undec (dec_nat (n div 10)) = n div 10" by simp
    with False show ?thesis
      by (subst dec_nat.simps) (simp add: undec_def of_char_digit_char)
  qed
qed

lemma dec_nat_inj: "dec_nat m = dec_nat n \<longleftrightarrow> m = n"
  using undec_dec_nat by metis

lemma dec_nat_digits: "c \<in> set (dec_nat n) \<Longrightarrow> 48 \<le> (of_char c :: nat) \<and> (of_char c :: nat) < 58"
proof (induction n rule: dec_nat.induct)
  case (1 n)
  then show ?case
    by (subst (asm) (2) dec_nat.simps) (auto simp: of_char_digit_char split: if_splits)
qed

lemma dec_nat_not_Nil [simp]: "dec_nat n \<noteq> []"
  by (subst dec_nat.simps) simp

lemma minus_not_digit: "CHR ''-'' \<notin> set (dec_nat n)"
  using dec_nat_digits [of "CHR ''-''" n] by auto

lemma dec_inj: "dec i = dec j \<longleftrightarrow> i = j"
proof
  assume eq: "dec i = dec j"
  have m: "CHR ''-'' # s \<noteq> dec_nat n" for s n
  proof
    assume "CHR ''-'' # s = dec_nat n"
    then have "CHR ''-'' \<in> set (dec_nat n)" by (metis list.set_intros(1))
    with minus_not_digit show False by blast
  qed
  then have m': "dec_nat n \<noteq> CHR ''-'' # s" for s n by metis
  show "i = j"
    using eq m m' by (auto simp: dec_def dec_nat_inj split: if_splits)
qed simp

section \<open>Runes\<close>

text \<open>UTF-8 decoding as \<open>range\<close> over a string does it: a byte that starts no valid encoding yields
  the replacement rune \<open>U+FFFD\<close> and is skipped alone. \<open>rune_at\<close> gives the rune and the number of
  bytes it takes.\<close>

definition cont :: "nat \<Rightarrow> bool" where
  "cont b \<longleftrightarrow> 128 \<le> b \<and> b < 192"

definition rune_at :: "nat list \<Rightarrow> nat \<times> nat" where
  "rune_at bs = (case bs of
      [] \<Rightarrow> (65533, 1)
    | b0 # r \<Rightarrow>
       if b0 < 128 then (b0, 1)
       else if 194 \<le> b0 \<and> b0 < 224 \<and> 1 \<le> length r \<and> cont (r ! 0)
         then ((b0 - 192) * 64 + (r ! 0 - 128), 2)
       else if 224 \<le> b0 \<and> b0 < 240 \<and> 2 \<le> length r \<and> cont (r ! 0) \<and> cont (r ! 1)
          \<and> (b0 = 224 \<longrightarrow> 160 \<le> r ! 0) \<and> (b0 = 237 \<longrightarrow> r ! 0 < 160)
         then ((b0 - 224) * 4096 + (r ! 0 - 128) * 64 + (r ! 1 - 128), 3)
       else if 240 \<le> b0 \<and> b0 < 245 \<and> 3 \<le> length r \<and> cont (r ! 0) \<and> cont (r ! 1) \<and> cont (r ! 2)
          \<and> (b0 = 240 \<longrightarrow> 144 \<le> r ! 0) \<and> (b0 = 244 \<longrightarrow> r ! 0 < 144)
         then ((b0 - 240) * 262144 + (r ! 0 - 128) * 4096 + (r ! 1 - 128) * 64 + (r ! 2 - 128), 4)
       else (65533, 1))"

lemma rune_at_step: "0 < snd (rune_at bs)"
  by (auto simp: rune_at_def split: list.split)

function runes_of :: "nat list \<Rightarrow> nat list" where
  "runes_of bs = (if bs = [] then [] else fst (rune_at bs) # runes_of (drop (snd (rune_at bs)) bs))"
  by pat_completeness auto
termination
proof (relation "measure length")
  show "(drop (snd (rune_at bs)) bs, bs) \<in> measure length" if "bs \<noteq> []" for bs
    using that rune_at_step [of bs] by simp
qed simp

declare runes_of.simps [simp del]

definition runes :: "string \<Rightarrow> nat list" where
  "runes s = runes_of (map of_char s)"

lemma runes_of_Nil [simp]: "runes_of [] = []"
  by (simp add: runes_of.simps)

lemma runes_of_ascii_Cons: "b < 128 \<Longrightarrow> runes_of (b # bs) = b # runes_of bs"
  by (simp add: runes_of.simps [of "b # bs"] rune_at_def)

lemma runes_of_ascii: "(\<And>b. b \<in> set bs \<Longrightarrow> b < 128) \<Longrightarrow> runes_of bs = bs"
  by (induction bs) (simp_all add: runes_of_ascii_Cons)

lemma rune_at_high: "128 \<le> b \<Longrightarrow> 128 \<le> fst (rune_at (b # bs))"
  by (auto simp: rune_at_def cont_def)

text \<open>A string is ASCII byte for byte exactly when it is ASCII rune for rune.\<close>

lemma runes_of_ascii_iff: "(\<forall>r \<in> set (runes_of bs). r \<le> 127) \<longleftrightarrow> (\<forall>b \<in> set bs. b < 128)"
proof
  assume "\<forall>r \<in> set (runes_of bs). r \<le> 127"
  then show "\<forall>b \<in> set bs. b < 128"
  proof (induction bs)
    case (Cons b bs)
    have "b < 128"
    proof (rule ccontr)
      assume "\<not> b < 128"
      then have "128 \<le> fst (rune_at (b # bs))" by (simp add: rune_at_high)
      moreover have "fst (rune_at (b # bs)) \<in> set (runes_of (b # bs))"
        by (subst runes_of.simps) simp
      ultimately show False using Cons.prems by fastforce
    qed
    with Cons show ?case by (simp add: runes_of_ascii_Cons)
  qed simp
qed (auto simp: runes_of_ascii)

definition ascii_string :: "string \<Rightarrow> bool" where
  "ascii_string s \<longleftrightarrow> (\<forall>c \<in> set s. (of_char c :: nat) < 128)"

lemma runes_ascii_iff: "(\<forall>r \<in> set (runes s). r \<le> 127) \<longleftrightarrow> ascii_string s"
  by (simp add: runes_def runes_of_ascii_iff ascii_string_def)

lemma runes_ascii: "ascii_string s \<Longrightarrow> runes s = map of_char s"
  unfolding runes_def ascii_string_def by (rule runes_of_ascii) auto

definition rune_is_space :: "nat \<Rightarrow> bool" where
  "rune_is_space r \<longleftrightarrow> r \<in> {9, 10, 11, 12, 13, 32, 133, 160, 5760, 8232, 8233, 8239, 8287, 12288}
     \<or> (8192 \<le> r \<and> r \<le> 8202)"

section \<open>Integers written in binary\<close>

text \<open>\<open>strconv.ParseInt(v, 0, 0)\<close> of a string that starts with \<open>0b\<close>, the error dropped: zero on a
  syntax error, the largest \<open>int64\<close> when the value does not fit. Underscores may stand after the
  prefix and between digits.\<close>

fun parse_bits :: "nat \<Rightarrow> string \<Rightarrow> nat option" where
  "parse_bits n [] = Some n"
| "parse_bits n (c # cs) =
     (if c = CHR ''_'' then parse_bits n cs
      else if c \<noteq> CHR ''0'' \<and> c \<noteq> CHR ''1'' then None
      else if 2 ^ 63 \<le> n then Some (2 ^ 64)
      else parse_bits (2 * n + (if c = CHR ''1'' then 1 else 0)) cs)"

fun underscores_ok :: "bool \<Rightarrow> string \<Rightarrow> bool" where
  "underscores_ok after_digit [] = after_digit"
| "underscores_ok after_digit (c # cs) =
     (if c = CHR ''_'' then after_digit \<and> underscores_ok False cs else underscores_ok True cs)"

definition parse_int_0b :: "string \<Rightarrow> int" where
  "parse_int_0b v = (let ds = drop 2 v in
     if ds = [] then 0
     else case parse_bits 0 ds of
        None \<Rightarrow> 0
      | Some n \<Rightarrow>
         if 2 ^ 64 \<le> n then 2 ^ 63 - 1
         else if \<not> underscores_ok True ds then 0
         else if 2 ^ 63 \<le> n then 2 ^ 63 - 1 else int n)"

section \<open>Floating point\<close>

text \<open>The position of the highest set bit, and division by \<open>2 ^ k\<close> rounded to nearest, ties to
  even.\<close>

fun high_bit :: "nat \<Rightarrow> nat" where
  "high_bit n = (if n \<le> 1 then 0 else Suc (high_bit (n div 2)))"

declare high_bit.simps [simp del]

definition round_shift :: "nat \<Rightarrow> nat \<Rightarrow> nat" where
  "round_shift n k =
     (let q = n div 2 ^ k; r = n mod 2 ^ k in
      if 2 ^ k < 2 * r \<or> (2 ^ k = 2 * r \<and> odd q) then Suc q else q)"

definition f64_of_nat :: "nat \<Rightarrow> nat" where
  "f64_of_nat n =
     (if n = 0 then 0
      else let l = high_bit n in
        (l + 1022) * 2 ^ 52 + (if l \<le> 52 then n * 2 ^ (52 - l) else round_shift n (l - 52)))"

definition f64_of_int :: "int \<Rightarrow> 64 word" where
  "f64_of_int i = word_of_nat ((if i < 0 then 2 ^ 63 else 0) + f64_of_nat (nat \<bar>i\<bar>))"

text \<open>The magnitude of a \<open>float32\<close> (its bits less the sign) as a \<open>float64\<close>, and back.\<close>

definition widen_mag :: "nat \<Rightarrow> nat" where
  "widen_mag w =
     (let e = w div 2 ^ 23; m = w mod 2 ^ 23 in
      if e = 255 then 2047 * 2 ^ 52 + m * 2 ^ 29
      else if e = 0 then
        (if m = 0 then 0 else (high_bit m + 873) * 2 ^ 52 + m * 2 ^ (52 - high_bit m))
      else (e + 896) * 2 ^ 52 + m * 2 ^ 29)"

definition narrow_mag :: "nat \<Rightarrow> nat" where
  "narrow_mag v =
     (let e = v div 2 ^ 52; m = v mod 2 ^ 52 in
      if e = 2047 then 255 * 2 ^ 23 + (if m = 0 then 0 else 2 ^ 22)
      else if 897 \<le> e then
        min (255 * 2 ^ 23) ((e - 897) * 2 ^ 23 + round_shift (2 ^ 52 + m) 29)
      else round_shift (if e = 0 then m else 2 ^ 52 + m) (926 - max e 1))"

definition f64_of_f32 :: "32 word \<Rightarrow> 64 word" where
  "f64_of_f32 w = word_of_nat (unat w div 2 ^ 31 * 2 ^ 63 + widen_mag (unat w mod 2 ^ 31))"

definition f32_of_f64 :: "64 word \<Rightarrow> 32 word" where
  "f32_of_f64 v = word_of_nat (unat v div 2 ^ 63 * 2 ^ 31 + narrow_mag (unat v mod 2 ^ 63))"

definition f64_finite :: "64 word \<Rightarrow> bool" where
  "f64_finite v \<longleftrightarrow> unat v mod 2 ^ 63 div 2 ^ 52 < 2047"

definition f64_is_zero :: "64 word \<Rightarrow> bool" where
  "f64_is_zero v \<longleftrightarrow> unat v mod 2 ^ 63 = 0"

definition max_float64 :: nat where
  "max_float64 = 2047 * 2 ^ 52 - 1"

definition max_float32 :: nat where
  "max_float32 = 1150 * 2 ^ 52 + (2 ^ 23 - 1) * 2 ^ 29"

lemma high_bit_bounds: "0 < n \<Longrightarrow> 2 ^ high_bit n \<le> n \<and> n < 2 * 2 ^ high_bit n"
proof (induction n rule: high_bit.induct)
  case (1 n)
  show ?case
  proof (cases "n \<le> 1")
    case True
    then have "n = 1" using 1 by simp
    then show ?thesis by (subst (1 2) high_bit.simps) simp
  next
    case False
    then have ih: "2 ^ high_bit (n div 2) \<le> n div 2 \<and> n div 2 < 2 * 2 ^ high_bit (n div 2)"
      using 1 by auto
    have "high_bit n = Suc (high_bit (n div 2))" using False by (subst high_bit.simps) simp
    with ih show ?thesis by (simp, linarith)
  qed
qed

lemma round_shift_exact: "round_shift (n * 2 ^ k) k = n"
  by (simp add: round_shift_def)

lemma round_shift_le: "round_shift n k \<le> Suc (n div 2 ^ k)"
  by (simp add: round_shift_def Let_def)

lemma round_shift_bound:
  assumes "n \<le> c * 2 ^ k"
  shows "round_shift n k \<le> c"
proof (cases "n = c * 2 ^ k")
  case True
  then show ?thesis by (simp add: round_shift_exact)
next
  case False
  then have "n div 2 ^ k < c" using assms by (simp add: less_mult_imp_div_less)
  then show ?thesis using round_shift_le [of n k] by linarith
qed

lemma round_shift_zero [simp]: "round_shift 0 k = 0"
  by (simp add: round_shift_def)

lemma unat_word_of_nat_less: "n < 2 ^ LENGTH('a::len) \<Longrightarrow> unat (word_of_nat n :: 'a word) = n"
  by (simp add: unat_of_nat take_bit_nat_eq_self)

lemma div_mod_split: "y < d \<Longrightarrow> (x * d + y) div d = x \<and> (x * d + y) mod d = (y :: nat)"
  by simp

lemma narrow_widen_mag:
  assumes "w < 255 * 2 ^ 23"
  shows "narrow_mag (widen_mag w) = w"
proof -
  define e where "e = w div 2 ^ 23"
  define m where "m = w mod 2 ^ 23"
  have w: "w = e * 2 ^ 23 + m" by (simp add: e_def m_def)
  have m: "m < 2 ^ 23" by (simp add: m_def)
  have e: "e < 255" using assms by (simp add: e_def less_mult_imp_div_less)
  consider "e = 0" "m = 0" | "e = 0" "0 < m" | "0 < e" by blast
  then show ?thesis
  proof cases
    case 1
    then show ?thesis by (simp add: w narrow_mag_def widen_mag_def)
  next
    case 2
    define l where "l = high_bit m"
    have b: "2 ^ l \<le> m" "m < 2 * 2 ^ l" using high_bit_bounds [of m] 2 by (auto simp: l_def)
    have l: "l < 23"
    proof (rule ccontr)
      assume "\<not> l < 23"
      then have "(2::nat) ^ 23 \<le> 2 ^ l" by (intro power_increasing) auto
      with b m show False by linarith
    qed
    then have p: "(2::nat) ^ 52 = 2 ^ l * 2 ^ (52 - l)" by (simp flip: power_add)
    define r where "r = m * 2 ^ (52 - l) - 2 ^ 52"
    have ge: "2 ^ 52 \<le> m * 2 ^ (52 - l)" unfolding p using b by simp
    have lt: "m * 2 ^ (52 - l) < 2 * 2 ^ 52" unfolding p using b by (simp add: mult.assoc [symmetric])
    have r: "2 ^ 52 + r = m * 2 ^ (52 - l)" "r < 2 ^ 52" using ge lt by (simp_all add: r_def)
    have "widen_mag w = (l + 874) * 2 ^ 52 + r"
      unfolding widen_mag_def Let_def e_def [symmetric] m_def [symmetric]
      using 2 m r(1) by (simp add: l_def [symmetric])
    then have "widen_mag w div 2 ^ 52 = l + 874 \<and> widen_mag w mod 2 ^ 52 = r"
      using div_mod_split [OF r(2)] by metis
    then have "narrow_mag (widen_mag w) = round_shift (m * 2 ^ (52 - l)) (52 - l)"
      using l r(1) by (simp add: narrow_mag_def)
    with 2 show ?thesis by (simp add: round_shift_exact w)
  next
    case 3
    have r: "m * 2 ^ 29 < 2 ^ 52" using m by simp
    have "widen_mag w = (e + 896) * 2 ^ 52 + m * 2 ^ 29"
      unfolding widen_mag_def Let_def e_def [symmetric] m_def [symmetric] using 3 e by simp
    then have d: "widen_mag w div 2 ^ 52 = e + 896 \<and> widen_mag w mod 2 ^ 52 = m * 2 ^ 29"
      using div_mod_split [OF r] by metis
    have "2 ^ 52 + m * 2 ^ 29 = (2 ^ 23 + m) * 2 ^ 29" by simp
    then have rs: "round_shift (2 ^ 52 + m * 2 ^ 29) 29 = 2 ^ 23 + m"
      using round_shift_exact by metis
    have "(e - 1) * 2 ^ 23 + (2 ^ 23 + m) = w" using 3 by (cases e) (simp_all add: w)
    with d rs 3 e assms show ?thesis by (simp add: narrow_mag_def)
  qed
qed

lemma narrow_mag_finite:
  assumes "v \<le> max_float32"
  shows "narrow_mag v < 255 * 2 ^ 23"
proof -
  define e where "e = v div 2 ^ 52"
  define m where "m = v mod 2 ^ 52"
  have v: "v = e * 2 ^ 52 + m" and m: "m < 2 ^ 52" by (simp_all add: e_def m_def)
  have e: "e \<le> 1150" using assms v m by (simp add: max_float32_def)
  show ?thesis
  proof (cases "897 \<le> e")
    case True
    have rs: "round_shift (2 ^ 52 + m) 29 \<le> 2 ^ 24"
      using round_shift_le [of "2 ^ 52 + m" 29] m by simp
    consider "e = 1150" | "e \<le> 1149" using e by linarith
    then have "(e - 897) * 2 ^ 23 + round_shift (2 ^ 52 + m) 29 < 255 * 2 ^ 23"
    proof cases
      case 1
      then have "m \<le> (2 ^ 23 - 1) * 2 ^ 29" using assms v by (simp add: max_float32_def)
      then have "round_shift (2 ^ 52 + m) 29 \<le> 2 ^ 24 - 1"
        by (intro round_shift_bound) simp
      with 1 show ?thesis by simp
    next
      case 2
      then have "(e - 897) * 2 ^ 23 \<le> 252 * (2 ^ 23 :: nat)" by simp
      with rs show ?thesis by simp
    qed
    then show ?thesis unfolding narrow_mag_def Let_def e_def [symmetric] m_def [symmetric]
      using True e by simp
  next
    case False
    let ?n = "if e = 0 then m else 2 ^ 52 + m" and ?k = "926 - max e 1"
    have "30 \<le> ?k" using False by simp
    then have "(2::nat) ^ 30 \<le> 2 ^ ?k" by (intro power_increasing) auto
    then have "?n div 2 ^ ?k \<le> ?n div 2 ^ 30" by (intro div_le_mono2) auto
    moreover have "?n < 2 ^ 23 * 2 ^ 30" using m by simp
    then have "?n div 2 ^ 30 < 2 ^ 23" by (rule less_mult_imp_div_less)
    ultimately have "round_shift ?n ?k \<le> Suc (2 ^ 23)" using round_shift_le [of ?n ?k] by linarith
    moreover have "narrow_mag v = round_shift ?n ?k"
      unfolding narrow_mag_def Let_def e_def [symmetric] m_def [symmetric] using False by simp
    ultimately show ?thesis by simp
  qed
qed

lemma widen_mag_le:
  assumes "w < 255 * 2 ^ 23"
  shows "widen_mag w \<le> max_float32"
proof -
  define e where "e = w div 2 ^ 23"
  define m where "m = w mod 2 ^ 23"
  have m: "m \<le> 2 ^ 23 - 1" by (simp add: m_def)
  have e: "e \<le> 254" using assms unfolding e_def by simp
  consider "e = 0" "m = 0" | "e = 0" "0 < m" | "0 < e" by blast
  then show ?thesis
  proof cases
    case 1
    then show ?thesis by (simp add: widen_mag_def e_def m_def)
  next
    case 2
    define l where "l = high_bit m"
    have b: "2 ^ l \<le> m" "m < 2 * 2 ^ l" using high_bit_bounds [of m] 2 by (auto simp: l_def)
    have l: "l < 23"
    proof (rule ccontr)
      assume "\<not> l < 23"
      then have "(2::nat) ^ 23 \<le> 2 ^ l" by (intro power_increasing) auto
      with b m show False by simp
    qed
    have "m * 2 ^ (52 - l) \<le> 2 * 2 ^ l * 2 ^ (52 - l)" using b by (intro mult_le_mono1) simp
    also have "\<dots> = 2 * 2 ^ 52" using l by (simp flip: power_add)
    finally have "m * 2 ^ (52 - l) \<le> 2 * 2 ^ 52" .
    moreover have "widen_mag w = (l + 873) * 2 ^ 52 + m * 2 ^ (52 - l)"
      unfolding widen_mag_def Let_def e_def [symmetric] m_def [symmetric]
      using 2 by (simp add: l_def)
    ultimately show ?thesis using l by (simp add: max_float32_def)
  next
    case 3
    have "widen_mag w = (e + 896) * 2 ^ 52 + m * 2 ^ 29"
      unfolding widen_mag_def Let_def e_def [symmetric] m_def [symmetric] using 3 e by simp
    then show ?thesis using e m by (simp add: max_float32_def)
  qed
qed

text \<open>Rounding to single precision and back stays in range, and a second rounding is exact.\<close>

lemma f32_of_f64_parts:
  assumes "unat v mod 2 ^ 63 \<le> max_float32"
  shows "unat (f32_of_f64 v) = unat v div 2 ^ 63 * 2 ^ 31 + narrow_mag (unat v mod 2 ^ 63)"
proof -
  have s: "unat v div 2 ^ 63 < 2" using unsigned_less [where ?'a = nat, of v] by simp
  have n: "narrow_mag (unat v mod 2 ^ 63) < 2 ^ 31" using narrow_mag_finite [OF assms] by simp
  have "unat v div 2 ^ 63 * 2 ^ 31 + narrow_mag (unat v mod 2 ^ 63) < 2 ^ 32" using s n by simp
  then show ?thesis unfolding f32_of_f64_def by (intro unat_word_of_nat_less) simp
qed

lemma f64_of_f32_parts:
  assumes "unat w mod 2 ^ 31 < 255 * 2 ^ 23"
  shows "unat (f64_of_f32 w) = unat w div 2 ^ 31 * 2 ^ 63 + widen_mag (unat w mod 2 ^ 31)"
    and "unat (f64_of_f32 w) mod 2 ^ 63 = widen_mag (unat w mod 2 ^ 31)"
    and "unat (f64_of_f32 w) div 2 ^ 63 = unat w div 2 ^ 31"
proof -
  have s: "unat w div 2 ^ 31 < 2" using unsigned_less [where ?'a = nat, of w] by simp
  have n: "widen_mag (unat w mod 2 ^ 31) < 2 ^ 63"
    using widen_mag_le [OF assms] by (simp add: max_float32_def)
  have "unat w div 2 ^ 31 * 2 ^ 63 + widen_mag (unat w mod 2 ^ 31) < 2 ^ 64" using s n by simp
  then show u: "unat (f64_of_f32 w) = unat w div 2 ^ 31 * 2 ^ 63 + widen_mag (unat w mod 2 ^ 31)"
    unfolding f64_of_f32_def by (intro unat_word_of_nat_less) simp
  show "unat (f64_of_f32 w) mod 2 ^ 63 = widen_mag (unat w mod 2 ^ 31)"
    and "unat (f64_of_f32 w) div 2 ^ 63 = unat w div 2 ^ 31"
    using div_mod_split [OF n] unfolding u by metis+
qed

lemma f32_of_f64_of_f32:
  assumes "unat w mod 2 ^ 31 < 255 * 2 ^ 23"
  shows "f32_of_f64 (f64_of_f32 w) = w"
proof -
  have "unat (f64_of_f32 w) div 2 ^ 63 * 2 ^ 31 + narrow_mag (unat (f64_of_f32 w) mod 2 ^ 63) = unat w"
    unfolding f64_of_f32_parts(2,3) [OF assms] narrow_widen_mag [OF assms] by simp
  then show ?thesis by (simp add: f32_of_f64_def)
qed

lemma f32_of_f64_finite:
  assumes "unat v mod 2 ^ 63 \<le> max_float32"
  shows "unat (f32_of_f64 v) mod 2 ^ 31 < 255 * 2 ^ 23"
proof -
  have n: "narrow_mag (unat v mod 2 ^ 63) < 255 * 2 ^ 23" by (rule narrow_mag_finite [OF assms])
  then have "narrow_mag (unat v mod 2 ^ 63) < 2 ^ 31" by simp
  from div_mod_split [OF this] n show ?thesis unfolding f32_of_f64_parts [OF assms] by metis
qed

end
