(* ===== verification/Item_Node.thy ===== *)
theory Item_Node
  imports Go_Base
begin

text \<open>
  The SECS-II data items of \<open>lib-secs2-hsms-go/pkg/ast\<close> (\<open>interface.go\<close>, \<open>ascii.go\<close>,
  \<open>binary.go\<close>, \<open>boolean.go\<close>, \<open>float.go\<close>, \<open>int.go\<close>, \<open>uint.go\<close>, \<open>list.go\<close>): the node structs,
  their factories with the representation check each of them ends in, and the accessors of the
  \<open>ItemNode\<close> interface. \<open>item\<close> is the interface with its implementations as constructors.

  A Go value of type \<open>interface{}\<close> is a \<open>goval\<close>. The map \<open>variables\<close> of a node (variable name to
  position) is an association list in insertion order; the order in which Go walks such a map is
  unspecified, and here only decides which panic message comes first when several apply. An
  \<open>int64\<close>, \<open>uint64\<close> or \<open>float64\<close> is a \<open>64 word\<close>; \<open>int\<close> values of a binary item and sizes are \<open>int\<close>.
\<close>

section \<open>Types\<close>

type_synonym vars = "(string \<times> nat) list"

record ascii_node =
  an_value :: string
  an_name :: string
  an_min :: int
  an_max :: int
  an_isValue :: bool
  an_symbol :: string

record binary_node =
  bn_values :: "int list"
  bn_variables :: vars
  bn_symbol :: string

record boolean_node =
  tn_values :: "bool list"
  tn_variables :: vars
  tn_symbol :: string

record float_node =
  fn_byteSize :: int
  fn_values :: "64 word list"
  fn_variables :: vars
  fn_symbol :: string

record int_node =
  in_byteSize :: int
  in_values :: "64 word list"
  in_variables :: vars
  in_symbol :: string

record uint_node =
  un_byteSize :: int
  un_values :: "64 word list"
  un_variables :: vars
  un_symbol :: string

datatype item =
    EmptyNode
  | ANode ascii_node
  | BNode binary_node
  | TNode boolean_node
  | FNode float_node
  | INode int_node
  | UNode uint_node
  | LNode (ln_values: "item list") (ln_variables: vars) (ln_symbol: string)

datatype goval =
    VNil
  | VInt "64 word" | VInt8 "8 word" | VInt16 "16 word" | VInt32 "32 word" | VInt64 "64 word"
  | VUint "64 word" | VUint8 "8 word" | VUint16 "16 word" | VUint32 "32 word" | VUint64 "64 word"
  | VFloat32 "32 word" | VFloat64 "64 word"
  | VBool bool
  | VString string
  | VItem item

section \<open>Variable names\<close>

text \<open>The regular expressions \<open>^[A-Za-z_]\w*(\[\d+\])*$\<close> and \<open>^\.{3}(\[\d+\])?$\<close>.\<close>

definition is_digit :: "char \<Rightarrow> bool" where
  "is_digit c \<longleftrightarrow> (48::nat) \<le> of_char c \<and> of_char c \<le> (57::nat)"

definition is_letter :: "char \<Rightarrow> bool" where
  "is_letter c \<longleftrightarrow> ((65::nat) \<le> of_char c \<and> of_char c \<le> (90::nat))
     \<or> ((97::nat) \<le> of_char c \<and> of_char c \<le> (122::nat)) \<or> c = CHR ''_''"

definition one_index :: "string \<Rightarrow> string option" where
  "one_index s = (case s of
      [] \<Rightarrow> None
    | c # r \<Rightarrow>
        if c = CHR ''['' \<and> takeWhile is_digit r \<noteq> [] then
          (case dropWhile is_digit r of
             [] \<Rightarrow> None
           | d # r' \<Rightarrow> if d = CHR '']'' then Some r' else None)
        else None)"

lemma one_index_shorter: "one_index s = Some r \<Longrightarrow> length r < length s"
proof -
  assume "one_index s = Some r"
  then obtain c t d where s: "s = c # t" and d: "dropWhile is_digit t = d # r"
    by (auto simp: one_index_def split: list.splits if_splits)
  have "length (dropWhile is_digit t) \<le> length t" by (rule length_dropWhile_le)
  with s d show ?thesis by simp
qed

function many_indices :: "string \<Rightarrow> bool" where
  "many_indices s = (s = [] \<or> (case one_index s of None \<Rightarrow> False | Some r \<Rightarrow> many_indices r))"
  by pat_completeness auto
termination by (relation "measure length") (auto intro: one_index_shorter)

declare many_indices.simps [simp del]

definition isValidVarName :: "string \<Rightarrow> bool" where
  "isValidVarName name = (case name of
      [] \<Rightarrow> False
    | c # r \<Rightarrow> is_letter c \<and> many_indices (dropWhile (\<lambda>d. is_letter d \<or> is_digit d) r))"

definition isEllipsis :: "string \<Rightarrow> bool" where
  "isEllipsis name \<longleftrightarrow> take 3 name = ''...''
     \<and> (drop 3 name = [] \<or> one_index (drop 3 name) = Some [])"

definition getVariableNames :: "vars \<Rightarrow> string list" where
  "getVariableNames vars = map fst (sort_key snd vars)"

section \<open>Sizes and header bytes\<close>

definition MAX_BYTE_SIZE :: int where
  "MAX_BYTE_SIZE = 2 ^ 24 - 1"

definition byte_per_value :: "string \<Rightarrow> int option" where
  "byte_per_value = map_of [
     (''list'', 1), (''binary'', 1), (''boolean'', 1), (''ascii'', 1),
     (''i8'', 8), (''i1'', 1), (''i2'', 2), (''i4'', 4), (''f8'', 8), (''f4'', 4),
     (''u8'', 8), (''u1'', 1), (''u2'', 2), (''u4'', 4)]"

definition getDataByteLength :: "string \<Rightarrow> int \<Rightarrow> int" where
  "getDataByteLength typ count =
     count * (case byte_per_value typ of Some n \<Rightarrow> n | None \<Rightarrow> 0)"

definition format_code :: "string \<Rightarrow> int option" where
  "format_code = map_of [
     (''list'', 0), (''binary'', 8), (''boolean'', 9), (''ascii'', 16),
     (''i8'', 24), (''i1'', 25), (''i2'', 26), (''i4'', 28), (''f8'', 32), (''f4'', 36),
     (''u8'', 40), (''u1'', 41), (''u2'', 42), (''u4'', 44)]"

definition getHeaderBytes :: "string \<Rightarrow> int \<Rightarrow> byte list res" where
  "getHeaderBytes typ count =
     (let n = getDataByteLength typ count;
          b = [word_of_int (n div 2 ^ 16), word_of_int (n div 2 ^ 8), word_of_int n] :: byte list;
          lengthBytes = (if b ! 0 = 0 then (if b ! 1 = 0 then drop 2 b else drop 1 b) else b);
          code = (case format_code typ of Some c \<Rightarrow> c | None \<Rightarrow> 0)
      in if MAX_BYTE_SIZE < n then Inl (Err ''size limit exceeded'')
         else Inr (word_of_int (code * 4 + int (length lengthBytes)) # lengthBytes))"

section \<open>Accessors\<close>

fun Type :: "item \<Rightarrow> string" where
  "Type EmptyNode = ''empty''"
| "Type (ANode n) = an_symbol n"
| "Type (BNode n) = bn_symbol n"
| "Type (TNode n) = tn_symbol n"
| "Type (FNode n) = fn_symbol n"
| "Type (INode n) = in_symbol n"
| "Type (UNode n) = un_symbol n"
| "Type (LNode vs vars s) = s"

fun Size :: "item \<Rightarrow> int" where
  "Size EmptyNode = 0"
| "Size (ANode n) = (if \<not> an_isValue n then - 1 else int (length (an_value n)))"
| "Size (BNode n) = int (length (bn_values n))"
| "Size (TNode n) = int (length (tn_values n))"
| "Size (FNode n) = int (length (fn_values n))"
| "Size (INode n) = int (length (in_values n))"
| "Size (UNode n) = int (length (un_values n))"
| "Size (LNode vs vars s) = int (length vs)"

definition FillInStringLength :: "ascii_node \<Rightarrow> int \<times> int" where
  "FillInStringLength n = (if an_isValue n then (- 2, - 2) else (an_min n, an_max n))"

text \<open>The name of the variable at a position; the zero value \<open>""\<close> of the Go map when there is none.\<close>

definition variablesSwapKeyValue :: "vars \<Rightarrow> nat \<Rightarrow> string" where
  "variablesSwapKeyValue vars i = (case find (\<lambda>(n, p). p = i) vars of Some (n, p) \<Rightarrow> n | None \<Rightarrow> [])"

fun Variables :: "item \<Rightarrow> string list"
and Variables_from :: "vars \<Rightarrow> nat \<Rightarrow> item list \<Rightarrow> string list" where
  "Variables EmptyNode = []"
| "Variables (ANode n) = (if an_isValue n then [] else [an_name n])"
| "Variables (BNode n) = getVariableNames (bn_variables n)"
| "Variables (TNode n) = getVariableNames (tn_variables n)"
| "Variables (FNode n) = getVariableNames (fn_variables n)"
| "Variables (INode n) = getVariableNames (in_variables n)"
| "Variables (UNode n) = getVariableNames (un_variables n)"
| "Variables (LNode vs vars s) = Variables_from vars 0 vs"
| "Variables_from vars i [] = []"
| "Variables_from vars i (v # vs) =
     (if v = EmptyNode then [variablesSwapKeyValue vars i] else Variables v)
       @ Variables_from vars (Suc i) vs"

datatype node_values =
    VsString string
  | VsInts "int list"
  | VsBools "bool list"
  | VsFloats "64 word list"
  | VsInt64s "64 word list"
  | VsUint64s "64 word list"
  | VsItems "item list"

fun Values :: "item \<Rightarrow> node_values" where
  "Values EmptyNode = VsString []"
| "Values (ANode n) = VsString (an_value n)"
| "Values (BNode n) = VsInts (bn_values n)"
| "Values (TNode n) = VsBools (tn_values n)"
| "Values (FNode n) = VsFloats (fn_values n)"
| "Values (INode n) = VsInt64s (in_values n)"
| "Values (UNode n) = VsUint64s (un_values n)"
| "Values (LNode vs vars s) = VsItems vs"

text \<open>\<open>Get\<close> of a list walks down one index per argument; of any other node it only accepts none.
  The loop of \<open>ListNode.Get\<close> tests \<open>Type() != "list"\<close> before the type assertion.\<close>

fun get_loop :: "item \<Rightarrow> int list \<Rightarrow> item res" where
  "get_loop node [] = Inr node"
| "get_loop node (i # is) =
     (case node of
        LNode vs vars s \<Rightarrow>
          if s \<noteq> ''list'' then Inl (Err ''not list'')
          else if i < 0 \<or> int (length vs) \<le> i then Inl (Err ''index out of bounds error'')
          else get_loop (vs ! nat i) is
      | _ \<Rightarrow> Inl (Err ''not list''))"

definition Get :: "item \<Rightarrow> int list \<Rightarrow> item res" where
  "Get node indices = (case node of
      LNode vs vars s \<Rightarrow> get_loop node indices
    | _ \<Rightarrow> if indices = [] then Inr node else Inl (Err ''not list''))"

end
