(* ===== verification/Item_Factory.thy ===== *)
theory Item_Factory
  imports Item_Node
begin

text \<open>
  The factories of the data items (\<open>NewASCIINode\<close>, \<open>NewBinaryNode\<close>, \<open>NewBooleanNode\<close>,
  \<open>NewFloatNode\<close>, \<open>NewIntNode\<close>, \<open>NewUintNode\<close>, \<open>NewListNode\<close>) with the \<open>checkRep\<close> of each node
  type, \<open>FillVariables\<close> of the leaf nodes, and the representation invariant \<open>rep_ok\<close> that the
  comments of the structs state. A panic of the source is \<open>Inl (Panic _)\<close>.
\<close>

section \<open>The loops the factories share\<close>

text \<open>The loop over the arguments: \<open>conv\<close> is the type switch of one node type and classifies an
  argument as a value or a variable name. A variable takes the position of its argument and leaves
  the zero value there.\<close>

fun collect :: "(goval \<Rightarrow> ('a + string) go) \<Rightarrow> 'a \<Rightarrow> nat \<Rightarrow> vars \<Rightarrow> goval list \<Rightarrow> ('a list \<times> vars) go" where
  "collect conv zero i vs [] = Inr ([], vs)"
| "collect conv zero i vs (v # rest) = go_bind (conv v) (\<lambda>c. case c of
      Inl x \<Rightarrow> go_bind (collect conv zero (Suc i) vs rest) (\<lambda>(xs, vs'). Inr (x # xs, vs'))
    | Inr name \<Rightarrow>
        if map_of vs name \<noteq> None then Inl (Panic ''duplicated variable name found'')
        else go_bind (collect conv zero (Suc i) (vs @ [(name, i)]) rest)
               (\<lambda>(xs, vs'). Inr (zero # xs, vs')))"

text \<open>The loop of the \<open>checkRep\<close> methods over the variable map.\<close>

fun check_variables :: "('a \<Rightarrow> bool) \<Rightarrow> 'a list \<Rightarrow> vars \<Rightarrow> nat list \<Rightarrow> unit go" where
  "check_variables is_zero xs [] visited = Inr ()"
| "check_variables is_zero xs ((name, pos) # rest) visited = go_bind (go_index xs pos) (\<lambda>v.
      if \<not> is_zero v then Inl (Panic ''value in variable position isn't a zero-value'')
      else if \<not> isValidVarName name then Inl (Panic ''invalid variable name'')
      else if pos \<in> set visited then Inl (Panic ''variable position is not unique'')
      else if \<not> pos < length xs then Inl (Panic ''variable position overflow'')
      else check_variables is_zero xs rest (pos # visited))"

definition size_limit :: "string \<Rightarrow> 'a list \<Rightarrow> unit go" where
  "size_limit typ xs =
     (if MAX_BYTE_SIZE < getDataByteLength typ (int (length xs))
      then Inl (Panic ''item node size limit exceeded'') else Inr ())"

definition check_all :: "('a \<Rightarrow> bool) \<Rightarrow> string \<Rightarrow> 'a list \<Rightarrow> unit go" where
  "check_all ok msg xs = (if list_all ok xs then Inr () else Inl (Panic msg))"

fun check_each :: "('a \<Rightarrow> unit go) \<Rightarrow> 'a list \<Rightarrow> unit go" where
  "check_each f [] = Inr ()"
| "check_each f (x # xs) = go_bind (f x) (\<lambda>_. check_each f xs)"

section \<open>ASCII\<close>

definition ascii_checkRep :: "ascii_node \<Rightarrow> unit go" where
  "ascii_checkRep n =
     (if an_isValue n then
        (if an_name n \<noteq> [] \<or> an_min n \<noteq> 0 \<or> an_max n \<noteq> 0
         then Inl (Panic ''value and variable should not be used at the same time'')
         else check_all (\<lambda>r. r \<le> 127) ''encountered non-ASCII character'' (runes (an_value n)))
      else if an_value n \<noteq> [] then Inl (Panic ''value and variable should not be used at the same time'')
      else if \<not> isValidVarName (an_name n) then Inl (Panic ''invalid variable name'')
      else if an_min n < 0 \<or> an_max n < - 1 then Inl (Panic ''invalid fill-in string length'')
      else if an_max n \<noteq> - 1 \<and> an_max n < an_min n then Inl (Panic ''invalid fill-in string length'')
      else Inr ())"

definition NewASCIINode :: "string \<Rightarrow> item go" where
  "NewASCIINode str =
     (if MAX_BYTE_SIZE < getDataByteLength ''ascii'' (int (length str))
      then Inl (Panic ''string length limit exceeded'')
      else let node = \<lparr>an_value = str, an_name = [], an_min = 0, an_max = 0, an_isValue = True,
                       an_symbol = ''ascii''\<rparr>
           in go_bind (ascii_checkRep node) (\<lambda>_. Inr (ANode node)))"

definition NewASCIINodeVariable :: "string \<Rightarrow> int \<Rightarrow> int \<Rightarrow> item go" where
  "NewASCIINodeVariable name minLength maxLength =
     (let node = \<lparr>an_value = [], an_name = name, an_min = minLength, an_max = maxLength,
                  an_isValue = False, an_symbol = []\<rparr>
      in go_bind (ascii_checkRep node) (\<lambda>_. Inr (ANode node)))"

definition ascii_FillVariables :: "ascii_node \<Rightarrow> (string \<rightharpoonup> goval) \<Rightarrow> item go" where
  "ascii_FillVariables n fill =
     (if an_isValue n then Inr (ANode n)
      else case fill (an_name n) of
        None \<Rightarrow> Inr (ANode n)
      | Some (VString s) \<Rightarrow>
          if int (length s) < an_min n then Inl (Panic ''fill-in string length overflow'')
          else if an_max n \<noteq> - 1 \<and> an_max n < int (length s)
            then Inl (Panic ''fill-in string length overflow'')
          else NewASCIINode s
      | Some _ \<Rightarrow> Inl (Panic ''fill-in value has invalid type for ASCIINode''))"

section \<open>Binary and Boolean\<close>

definition binary_value :: "goval \<Rightarrow> (int + string) go" where
  "binary_value v = (case v of
      VInt w \<Rightarrow> Inr (Inl (sint w))
    | VUint8 w \<Rightarrow> Inr (Inl (uint w))
    | VInt8 w \<Rightarrow> Inr (Inl (sint w))
    | VString s \<Rightarrow> if take 2 s = ''0b'' then Inr (Inl (parse_int_0b s)) else Inr (Inr s)
    | _ \<Rightarrow> Inl (Panic ''input argument contains invalid type for BinaryNode''))"

definition binary_checkRep :: "binary_node \<Rightarrow> unit go" where
  "binary_checkRep n =
     go_bind (check_all (\<lambda>v. 0 \<le> v \<and> v < 256) ''value overflow'' (bn_values n)) (\<lambda>_.
       check_variables (\<lambda>v. v = 0) (bn_values n) (bn_variables n) [])"

definition NewBinaryNode :: "goval list \<Rightarrow> item go" where
  "NewBinaryNode vs =
     go_bind (size_limit ''binary'' vs) (\<lambda>_.
     go_bind (collect binary_value 0 0 [] vs) (\<lambda>(xs, vars).
       let node = \<lparr>bn_values = xs, bn_variables = vars, bn_symbol = ''binary''\<rparr>
       in go_bind (binary_checkRep node) (\<lambda>_. Inr (BNode node))))"

definition boolean_value :: "goval \<Rightarrow> (bool + string) go" where
  "boolean_value v = (case v of
      VBool b \<Rightarrow> Inr (Inl b)
    | VString s \<Rightarrow> Inr (Inr s)
    | _ \<Rightarrow> Inl (Panic ''input argument contains invalid type for BooleanNode''))"

definition boolean_checkRep :: "boolean_node \<Rightarrow> unit go" where
  "boolean_checkRep n = check_variables Not (tn_values n) (tn_variables n) []"

definition NewBooleanNode :: "goval list \<Rightarrow> item go" where
  "NewBooleanNode vs =
     go_bind (size_limit ''boolean'' vs) (\<lambda>_.
     go_bind (collect boolean_value False 0 [] vs) (\<lambda>(xs, vars).
       let node = \<lparr>tn_values = xs, tn_variables = vars, tn_symbol = ''boolean''\<rparr>
       in go_bind (boolean_checkRep node) (\<lambda>_. Inr (TNode node))))"

section \<open>Floats\<close>

definition float_value :: "goval \<Rightarrow> (64 word + string) go" where
  "float_value v = (case v of
      VInt w \<Rightarrow> Inr (Inl (f64_of_int (sint w)))
    | VInt8 w \<Rightarrow> Inr (Inl (f64_of_int (sint w)))
    | VInt16 w \<Rightarrow> Inr (Inl (f64_of_int (sint w)))
    | VInt32 w \<Rightarrow> Inr (Inl (f64_of_int (sint w)))
    | VInt64 w \<Rightarrow> Inr (Inl (f64_of_int (sint w)))
    | VUint w \<Rightarrow> Inr (Inl (f64_of_int (uint w)))
    | VUint8 w \<Rightarrow> Inr (Inl (f64_of_int (uint w)))
    | VUint16 w \<Rightarrow> Inr (Inl (f64_of_int (uint w)))
    | VUint32 w \<Rightarrow> Inr (Inl (f64_of_int (uint w)))
    | VUint64 w \<Rightarrow> Inr (Inl (f64_of_int (uint w)))
    | VFloat32 w \<Rightarrow> Inr (Inl (f64_of_f32 w))
    | VFloat64 w \<Rightarrow> Inr (Inl w)
    | VString s \<Rightarrow> Inr (Inr s)
    | _ \<Rightarrow> Inl (Panic ''input argument contains invalid type for FloatNode''))"

definition float_check_value :: "int \<Rightarrow> 64 word \<Rightarrow> unit go" where
  "float_check_value byteSize v =
     (if \<not> f64_finite v then Inl (Panic ''invalid value'')
      else if \<not> unat v mod 2 ^ 63 \<le> (if byteSize = 4 then max_float32 else max_float64)
        then Inl (Panic ''value overflow'')
      else Inr ())"

definition float_checkRep :: "float_node \<Rightarrow> unit go" where
  "float_checkRep n =
     (if fn_byteSize n \<noteq> 4 \<and> fn_byteSize n \<noteq> 8 then Inl (Panic ''invalid byte size'')
      else go_bind (check_each (float_check_value (fn_byteSize n)) (fn_values n))
             (\<lambda>_. check_variables f64_is_zero (fn_values n) (fn_variables n) []))"

definition NewFloatNode :: "int \<Rightarrow> goval list \<Rightarrow> item go" where
  "NewFloatNode byteSize vs =
     go_bind (size_limit (''f'' @ dec byteSize) vs) (\<lambda>_.
     go_bind (collect float_value 0 0 [] vs) (\<lambda>(xs, vars).
       let node = \<lparr>fn_byteSize = byteSize, fn_values = xs, fn_variables = vars,
                   fn_symbol = ''f'' @ dec byteSize\<rparr>
       in go_bind (float_checkRep node) (\<lambda>_. Inr (FNode node))))"

section \<open>Integers\<close>

definition int_value :: "goval \<Rightarrow> (64 word + string) go" where
  "int_value v = (case v of
      VInt w \<Rightarrow> Inr (Inl w)
    | VInt8 w \<Rightarrow> Inr (Inl (scast w))
    | VInt16 w \<Rightarrow> Inr (Inl (scast w))
    | VInt32 w \<Rightarrow> Inr (Inl (scast w))
    | VInt64 w \<Rightarrow> Inr (Inl w)
    | VUint w \<Rightarrow> Inr (Inl w)
    | VUint8 w \<Rightarrow> Inr (Inl (ucast w))
    | VUint16 w \<Rightarrow> Inr (Inl (ucast w))
    | VUint32 w \<Rightarrow> Inr (Inl (ucast w))
    | VUint64 w \<Rightarrow> if 2 ^ 63 - 1 < uint w then Inl (Panic ''value overflow'') else Inr (Inl w)
    | VString s \<Rightarrow> Inr (Inr s)
    | _ \<Rightarrow> Inl (Panic ''input argument contains invalid type for IntNode''))"

definition int_fits :: "int \<Rightarrow> 64 word \<Rightarrow> bool" where
  "int_fits byteSize v \<longleftrightarrow>
     - (2 ^ nat (byteSize * 8 - 1)) \<le> sint v \<and> sint v \<le> 2 ^ nat (byteSize * 8 - 1) - 1"

definition int_checkRep :: "int_node \<Rightarrow> unit go" where
  "int_checkRep n =
     (if in_byteSize n \<noteq> 1 \<and> in_byteSize n \<noteq> 2 \<and> in_byteSize n \<noteq> 4 \<and> in_byteSize n \<noteq> 8
      then Inl (Panic ''invalid byte size'')
      else go_bind (check_all (int_fits (in_byteSize n)) ''value overflow'' (in_values n))
             (\<lambda>_. check_variables (\<lambda>v. v = 0) (in_values n) (in_variables n) []))"

definition NewIntNode :: "int \<Rightarrow> goval list \<Rightarrow> item go" where
  "NewIntNode byteSize vs =
     go_bind (size_limit (''i'' @ dec byteSize) vs) (\<lambda>_.
     go_bind (collect int_value 0 0 [] vs) (\<lambda>(xs, vars).
       let node = \<lparr>in_byteSize = byteSize, in_values = xs, in_variables = vars,
                   in_symbol = ''i'' @ dec byteSize\<rparr>
       in go_bind (int_checkRep node) (\<lambda>_. Inr (INode node))))"

definition uint_value :: "goval \<Rightarrow> (64 word + string) go" where
  "uint_value v = (case v of
      VInt w \<Rightarrow> Inr (Inl w)
    | VInt8 w \<Rightarrow> Inr (Inl (scast w))
    | VInt16 w \<Rightarrow> Inr (Inl (scast w))
    | VInt32 w \<Rightarrow> Inr (Inl (scast w))
    | VInt64 w \<Rightarrow> Inr (Inl w)
    | VUint w \<Rightarrow> Inr (Inl w)
    | VUint8 w \<Rightarrow> Inr (Inl (ucast w))
    | VUint16 w \<Rightarrow> Inr (Inl (ucast w))
    | VUint32 w \<Rightarrow> Inr (Inl (ucast w))
    | VUint64 w \<Rightarrow> Inr (Inl w)
    | VString s \<Rightarrow> Inr (Inr s)
    | _ \<Rightarrow> Inl (Panic ''input argument contains invalid type for UintNode''))"

definition uint_fits :: "int \<Rightarrow> 64 word \<Rightarrow> bool" where
  "uint_fits byteSize v \<longleftrightarrow> v \<le> push_bit (nat (byteSize * 8)) 1 - 1"

definition uint_checkRep :: "uint_node \<Rightarrow> unit go" where
  "uint_checkRep n =
     (if un_byteSize n \<noteq> 1 \<and> un_byteSize n \<noteq> 2 \<and> un_byteSize n \<noteq> 4 \<and> un_byteSize n \<noteq> 8
      then Inl (Panic ''invalid byte size'')
      else go_bind (check_all (uint_fits (un_byteSize n)) ''value overflow'' (un_values n))
             (\<lambda>_. check_variables (\<lambda>v. v = 0) (un_values n) (un_variables n) []))"

definition NewUintNode :: "int \<Rightarrow> goval list \<Rightarrow> item go" where
  "NewUintNode byteSize vs =
     go_bind (size_limit (''u'' @ dec byteSize) vs) (\<lambda>_.
     go_bind (collect uint_value 0 0 [] vs) (\<lambda>(xs, vars).
       let node = \<lparr>un_byteSize = byteSize, un_values = xs, un_variables = vars,
                   un_symbol = ''u'' @ dec byteSize\<rparr>
       in go_bind (uint_checkRep node) (\<lambda>_. Inr (UNode node))))"

section \<open>Lists\<close>

definition list_value :: "goval \<Rightarrow> (item + string) go" where
  "list_value v = (case v of
      VItem n \<Rightarrow> Inr (Inl n)
    | VString s \<Rightarrow> Inr (Inr s)
    | _ \<Rightarrow> Inl (Panic ''input argument contains invalid type for ListNode''))"

fun list_check_variables :: "item list \<Rightarrow> vars \<Rightarrow> bool \<Rightarrow> nat list \<Rightarrow> unit go" where
  "list_check_variables xs [] ellipsisExist visited = Inr ()"
| "list_check_variables xs ((name, pos) # rest) ellipsisExist visited =
     go_bind (go_index xs pos) (\<lambda>v.
       if v \<noteq> EmptyNode then Inl (Panic ''value in variable position isn't a zero-value'')
       else if \<not> isValidVarName name \<and> isEllipsis name \<and> pos = 0
         then Inl (Panic ''ellipsis shouldn't be the first item in ListNode'')
       else if \<not> isValidVarName name \<and> isEllipsis name \<and> ellipsisExist
         then Inl (Panic ''multiple ellipsis is not supported'')
       else if \<not> isValidVarName name \<and> \<not> isEllipsis name
         then Inl (Panic ''invalid variable name'')
       else if pos \<in> set visited then Inl (Panic ''variable position is not unique'')
       else if \<not> pos < length xs then Inl (Panic ''variable position overflow'')
       else list_check_variables xs rest (ellipsisExist \<or> \<not> isValidVarName name) (pos # visited))"

definition list_checkRep :: "item list \<Rightarrow> vars \<Rightarrow> unit go" where
  "list_checkRep xs vars =
     go_bind (list_check_variables xs vars False []) (\<lambda>_.
       if distinct (Variables (LNode xs vars ''list'')) then Inr ()
       else Inl (Panic ''duplicated variable name found in child item node''))"

definition NewListNode :: "goval list \<Rightarrow> item go" where
  "NewListNode vs =
     go_bind (size_limit ''list'' vs) (\<lambda>_.
     go_bind (collect list_value EmptyNode 0 [] vs) (\<lambda>(xs, vars).
       go_bind (list_checkRep xs vars) (\<lambda>_. Inr (LNode xs vars ''list''))))"

section \<open>Filling the variables of a leaf\<close>

text \<open>The values of the node, boxed again, with each variable's position set to its fill-in value,
  or to its name when there is none; and whether there was any.\<close>

fun fill_positions :: "(string \<rightharpoonup> goval) \<Rightarrow> vars \<Rightarrow> goval list \<Rightarrow> bool \<Rightarrow> goval list \<times> bool" where
  "fill_positions fill [] xs createNew = (xs, createNew)"
| "fill_positions fill ((name, pos) # rest) xs createNew = (case fill name of
      Some v \<Rightarrow> fill_positions fill rest (xs[pos := v]) True
    | None \<Rightarrow> fill_positions fill rest (xs[pos := VString name]) createNew)"

definition fill_leaf ::
  "item \<Rightarrow> vars \<Rightarrow> goval list \<Rightarrow> (goval list \<Rightarrow> item go) \<Rightarrow> (string \<rightharpoonup> goval) \<Rightarrow> item go" where
  "fill_leaf node vars xs new fill =
     (if vars = [] then Inr node
      else case fill_positions fill vars xs False of
        (ys, createNew) \<Rightarrow> if \<not> createNew then Inr node else new ys)"

definition binary_FillVariables :: "binary_node \<Rightarrow> (string \<rightharpoonup> goval) \<Rightarrow> item go" where
  "binary_FillVariables n = fill_leaf (BNode n) (bn_variables n)
     (map (\<lambda>v. VInt (word_of_int v)) (bn_values n)) NewBinaryNode"

definition boolean_FillVariables :: "boolean_node \<Rightarrow> (string \<rightharpoonup> goval) \<Rightarrow> item go" where
  "boolean_FillVariables n = fill_leaf (TNode n) (tn_variables n)
     (map VBool (tn_values n)) NewBooleanNode"

definition float_FillVariables :: "float_node \<Rightarrow> (string \<rightharpoonup> goval) \<Rightarrow> item go" where
  "float_FillVariables n = fill_leaf (FNode n) (fn_variables n)
     (map VFloat64 (fn_values n)) (NewFloatNode (fn_byteSize n))"

definition int_FillVariables :: "int_node \<Rightarrow> (string \<rightharpoonup> goval) \<Rightarrow> item go" where
  "int_FillVariables n = fill_leaf (INode n) (in_variables n)
     (map VInt64 (in_values n)) (NewIntNode (in_byteSize n))"

definition uint_FillVariables :: "uint_node \<Rightarrow> (string \<rightharpoonup> goval) \<Rightarrow> item go" where
  "uint_FillVariables n = fill_leaf (UNode n) (un_variables n)
     (map VUint64 (un_values n)) (NewUintNode (un_byteSize n))"

section \<open>The representation invariant\<close>

text \<open>What the comments on the structs ask of the variables of a node: names and positions are
  unique, positions are in range, the value in a variable's position is the zero value, and the
  name adheres to the naming rule; of a list also that all names in it are unique, at any depth.\<close>

definition vars_ok :: "(string \<Rightarrow> bool) \<Rightarrow> ('a \<Rightarrow> bool) \<Rightarrow> 'a list \<Rightarrow> vars \<Rightarrow> bool" where
  "vars_ok good_name is_zero xs vs \<longleftrightarrow>
     distinct (map fst vs) \<and> distinct (map snd vs) \<and>
     list_all (\<lambda>(name, pos). pos < length xs \<and> is_zero (xs ! pos) \<and> good_name name) vs"

text \<open>The first item of a list is not an ellipsis, and it has at most one.\<close>

definition ellipses_ok :: "vars \<Rightarrow> bool" where
  "ellipses_ok vs \<longleftrightarrow> (\<forall>(name, pos) \<in> set vs. isEllipsis name \<longrightarrow> 0 < pos)
     \<and> length (filter (\<lambda>(name, pos). isEllipsis name) vs) \<le> 1"

lemma ellipses_ok_Nil [simp]: "ellipses_ok []"
  by (simp add: ellipses_ok_def)

fun rep_ok :: "item \<Rightarrow> bool" where
  "rep_ok EmptyNode = True"
| "rep_ok (ANode n) =
     (if an_isValue n then
        an_name n = [] \<and> an_min n = 0 \<and> an_max n = 0 \<and> ascii_string (an_value n)
        \<and> an_symbol n = ''ascii'' \<and> int (length (an_value n)) \<le> MAX_BYTE_SIZE
      else an_value n = [] \<and> isValidVarName (an_name n) \<and> 0 \<le> an_min n
        \<and> (an_max n = - 1 \<or> an_min n \<le> an_max n))"
| "rep_ok (BNode n) =
     (list_all (\<lambda>v. 0 \<le> v \<and> v < 256) (bn_values n) \<and> bn_symbol n = ''binary''
      \<and> vars_ok isValidVarName (\<lambda>v. v = 0) (bn_values n) (bn_variables n)
      \<and> int (length (bn_values n)) \<le> MAX_BYTE_SIZE)"
| "rep_ok (TNode n) =
     (vars_ok isValidVarName Not (tn_values n) (tn_variables n) \<and> tn_symbol n = ''boolean''
      \<and> int (length (tn_values n)) \<le> MAX_BYTE_SIZE)"
| "rep_ok (FNode n) =
     ((fn_byteSize n = 4 \<or> fn_byteSize n = 8) \<and> fn_symbol n = ''f'' @ dec (fn_byteSize n)
      \<and> list_all (\<lambda>v. f64_finite v \<and> (fn_byteSize n = 4 \<longrightarrow> unat v mod 2 ^ 63 \<le> max_float32)) (fn_values n)
      \<and> vars_ok isValidVarName f64_is_zero (fn_values n) (fn_variables n)
      \<and> fn_byteSize n * int (length (fn_values n)) \<le> MAX_BYTE_SIZE)"
| "rep_ok (INode n) =
     (in_byteSize n \<in> {1, 2, 4, 8} \<and> in_symbol n = ''i'' @ dec (in_byteSize n)
      \<and> list_all (int_fits (in_byteSize n)) (in_values n)
      \<and> vars_ok isValidVarName (\<lambda>v. v = 0) (in_values n) (in_variables n)
      \<and> in_byteSize n * int (length (in_values n)) \<le> MAX_BYTE_SIZE)"
| "rep_ok (UNode n) =
     (un_byteSize n \<in> {1, 2, 4, 8} \<and> un_symbol n = ''u'' @ dec (un_byteSize n)
      \<and> list_all (uint_fits (un_byteSize n)) (un_values n)
      \<and> vars_ok isValidVarName (\<lambda>v. v = 0) (un_values n) (un_variables n)
      \<and> un_byteSize n * int (length (un_values n)) \<le> MAX_BYTE_SIZE)"
| "rep_ok (LNode xs vs s) =
     (s = ''list'' \<and> (\<forall>x \<in> set xs. rep_ok x)
      \<and> vars_ok (\<lambda>n. isValidVarName n \<or> isEllipsis n) (\<lambda>v. v = EmptyNode) xs vs
      \<and> ellipses_ok vs
      \<and> distinct (Variables (LNode xs vs s))
      \<and> int (length xs) \<le> MAX_BYTE_SIZE)"

section \<open>The factories establish it\<close>

lemma collect_ConsE:
  assumes "collect conv z i vs (a # args) = Inr (xs, vs')"
  obtains (val) x ys where "conv a = Inr (Inl x)" and "xs = x # ys"
      and "collect conv z (Suc i) vs args = Inr (ys, vs')"
    | (var) name ys where "conv a = Inr (Inr name)" and "map_of vs name = None" and "xs = z # ys"
      and "collect conv z (Suc i) (vs @ [(name, i)]) args = Inr (ys, vs')"
proof -
  from assms obtain c where c: "conv a = Inr c" by (auto simp: go_bind_Inr_iff)
  show thesis
  proof (cases c)
    case (Inl x)
    with assms c show thesis by (auto simp: go_bind_Inr_iff intro: val)
  next
    case (Inr name)
    with assms c show thesis by (auto simp: go_bind_Inr_iff split: if_splits intro: var)
  qed
qed

lemma collect_length: "collect conv z i vs args = Inr (xs, vs') \<Longrightarrow> length xs = length args"
proof (induction args arbitrary: i vs xs)
  case (Cons a args)
  from Cons.prems show ?case by (cases rule: collect_ConsE) (auto dest: Cons.IH)
qed simp

lemma collect_distinct_gen:
  "collect conv z i vs args = Inr (xs, vs') \<Longrightarrow> distinct (map fst vs) \<Longrightarrow> distinct (map fst vs')"
proof (induction args arbitrary: i vs xs)
  case (Cons a args)
  from Cons.prems(1) show ?case
  proof (cases rule: collect_ConsE)
    case (val x ys)
    with Cons show ?thesis by blast
  next
    case (var name ys)
    then have "distinct (map fst (vs @ [(name, i)]))"
      using Cons.prems(2) by (auto simp: map_of_eq_None_iff)
    with Cons.IH [OF var(4)] show ?thesis by blast
  qed
qed simp

lemma collect_distinct: "collect conv z i [] args = Inr (xs, vs') \<Longrightarrow> distinct (map fst vs')"
  by (erule collect_distinct_gen) simp

lemma collect_facts:
  "collect conv z 0 [] args = Inr (xs, vs') \<Longrightarrow> distinct (map fst vs') \<and> length xs = length args"
  by (simp add: collect_length collect_distinct)

lemma check_variables_iff:
  "check_variables z xs vs visited = Inr () \<longleftrightarrow>
     list_all (\<lambda>(name, pos). pos < length xs \<and> z (xs ! pos) \<and> isValidVarName name) vs
     \<and> distinct (map snd vs) \<and> set (map snd vs) \<inter> set visited = {}"
  by (induction z xs vs visited rule: check_variables.induct)
     (auto simp: go_bind_Inr_iff go_index_def)

lemma list_check_variables_sound:
  "list_check_variables xs vs el visited = Inr () \<Longrightarrow>
     list_all (\<lambda>(name, pos). pos < length xs \<and> xs ! pos = EmptyNode
       \<and> (isValidVarName name \<or> isEllipsis name)) vs
     \<and> distinct (map snd vs) \<and> set (map snd vs) \<inter> set visited = {}"
  by (induction xs vs el visited rule: list_check_variables.induct)
     (auto simp: go_bind_Inr_iff go_index_def split: if_splits)

lemma valid_not_ellipsis: "isValidVarName name \<Longrightarrow> \<not> isEllipsis name"
proof -
  have "\<not> is_letter (CHR ''.'')" by code_simp
  then show "isValidVarName name \<Longrightarrow> ?thesis" by (auto simp: isValidVarName_def isEllipsis_def split: list.splits)
qed

lemma list_check_variables_ellipses:
  "list_check_variables xs vs el visited = Inr () \<Longrightarrow>
     ellipses_ok vs \<and> (el \<longrightarrow> filter (\<lambda>(name, pos). isEllipsis name) vs = [])"
  by (induction xs vs el visited rule: list_check_variables.induct)
     (auto simp: ellipses_ok_def go_bind_Inr_iff go_index_def dest: valid_not_ellipsis split: if_splits)

lemma check_all_iff: "check_all ok msg xs = Inr () \<longleftrightarrow> list_all ok xs"
  by (simp add: check_all_def)

lemma check_each_iff: "check_each f xs = Inr () \<longleftrightarrow> list_all (\<lambda>x. f x = Inr ()) xs"
  by (induction xs) (auto simp: go_bind_Inr_iff)

lemma size_limit_iff:
  "size_limit typ xs = Inr () \<longleftrightarrow> getDataByteLength typ (int (length xs)) \<le> MAX_BYTE_SIZE"
  by (auto simp: size_limit_def)

lemma dec_byte_size [simp]:
  "dec 1 = ''1''" "dec 2 = ''2''" "dec 4 = ''4''" "dec 8 = ''8''"
  by code_simp+

lemma data_byte_length [simp]:
  "getDataByteLength ''list'' n = n" "getDataByteLength ''binary'' n = n"
  "getDataByteLength ''boolean'' n = n" "getDataByteLength ''ascii'' n = n"
  "getDataByteLength ''i1'' n = n" "getDataByteLength ''i2'' n = 2 * n"
  "getDataByteLength ''i4'' n = 4 * n" "getDataByteLength ''i8'' n = 8 * n"
  "getDataByteLength ''u1'' n = n" "getDataByteLength ''u2'' n = 2 * n"
  "getDataByteLength ''u4'' n = 4 * n" "getDataByteLength ''u8'' n = 8 * n"
  "getDataByteLength ''f4'' n = 4 * n" "getDataByteLength ''f8'' n = 8 * n"
  by (simp_all add: getDataByteLength_def byte_per_value_def)

lemmas factory_simps = go_bind_Inr_iff size_limit_iff check_all_iff check_each_iff
  check_variables_iff Let_def split_beta

lemma NewASCIINode_rep_ok: "NewASCIINode s = Inr it \<Longrightarrow> rep_ok it"
  by (auto simp: NewASCIINode_def ascii_checkRep_def factory_simps list_all_iff runes_ascii_iff
    split: if_splits)

lemma NewASCIINodeVariable_rep_ok: "NewASCIINodeVariable s lo hi = Inr it \<Longrightarrow> rep_ok it"
  by (auto simp: NewASCIINodeVariable_def ascii_checkRep_def factory_simps split: if_splits)

lemma NewBinaryNode_rep_ok: "NewBinaryNode args = Inr it \<Longrightarrow> rep_ok it"
  by (auto simp: NewBinaryNode_def binary_checkRep_def factory_simps vars_ok_def
    dest: collect_facts)

lemma NewBooleanNode_rep_ok: "NewBooleanNode args = Inr it \<Longrightarrow> rep_ok it"
  by (auto simp: NewBooleanNode_def boolean_checkRep_def factory_simps vars_ok_def
    dest: collect_facts)

lemma NewFloatNode_rep_ok: "NewFloatNode b args = Inr it \<Longrightarrow> rep_ok it"
  by (auto simp: NewFloatNode_def float_checkRep_def float_check_value_def factory_simps vars_ok_def
    list_all_iff split: if_splits dest: collect_facts)

lemma NewIntNode_rep_ok: "NewIntNode b args = Inr it \<Longrightarrow> rep_ok it"
  by (auto simp: NewIntNode_def int_checkRep_def factory_simps vars_ok_def
    split: if_splits dest: collect_facts)

lemma NewUintNode_rep_ok: "NewUintNode b args = Inr it \<Longrightarrow> rep_ok it"
  by (auto simp: NewUintNode_def uint_checkRep_def factory_simps vars_ok_def
    split: if_splits dest: collect_facts)

lemma list_value_Inl [simp]: "list_value a = Inr (Inl x) \<longleftrightarrow> a = VItem x"
  by (cases a) (auto simp: list_value_def)

lemma collect_items:
  "collect list_value EmptyNode i vs args = Inr (xs, vs') \<Longrightarrow> x \<in> set xs \<Longrightarrow>
     x = EmptyNode \<or> VItem x \<in> set args"
proof (induction args arbitrary: i vs xs)
  case (Cons a args)
  from Cons.prems(1) show ?case
    by (cases rule: collect_ConsE) (use Cons.IH Cons.prems(2) in auto)
qed simp

lemma NewListNode_rep_ok:
  assumes "NewListNode args = Inr it" and kids: "\<And>x. VItem x \<in> set args \<Longrightarrow> rep_ok x"
  shows "rep_ok it"
proof -
  from assms(1) obtain xs vs where c: "collect list_value EmptyNode 0 [] args = Inr (xs, vs)"
    and r: "list_checkRep xs vs = Inr ()" and it: "it = LNode xs vs ''list''"
    and n: "int (length args) \<le> MAX_BYTE_SIZE"
    by (auto simp: NewListNode_def factory_simps)
  from r have v: "list_check_variables xs vs False [] = Inr ()"
    and d: "distinct (Variables it)"
    by (auto simp: list_checkRep_def it factory_simps split: if_splits)
  have "\<forall>x \<in> set xs. rep_ok x" using collect_items [OF c] kids by fastforce
  then show ?thesis
    using collect_facts [OF c] list_check_variables_sound [OF v] list_check_variables_ellipses [OF v] d n
    by (simp add: it vars_ok_def)
qed

lemmas factories_rep_ok = NewASCIINode_rep_ok NewASCIINodeVariable_rep_ok NewBinaryNode_rep_ok
  NewBooleanNode_rep_ok NewFloatNode_rep_ok NewIntNode_rep_ok NewUintNode_rep_ok

lemma fill_leaf_rep_ok:
  assumes "fill_leaf node vs xs new fill = Inr it" and "rep_ok node"
    and "\<And>ys. new ys = Inr it \<Longrightarrow> rep_ok it"
  shows "rep_ok it"
  using assms by (auto simp: fill_leaf_def split: if_splits prod.splits)

lemma leaf_FillVariables_rep_ok:
  "ascii_FillVariables a fill = Inr it \<Longrightarrow> rep_ok (ANode a) \<Longrightarrow> rep_ok it"
  "binary_FillVariables b fill = Inr it \<Longrightarrow> rep_ok (BNode b) \<Longrightarrow> rep_ok it"
  "boolean_FillVariables t fill = Inr it \<Longrightarrow> rep_ok (TNode t) \<Longrightarrow> rep_ok it"
  "float_FillVariables f fill = Inr it \<Longrightarrow> rep_ok (FNode f) \<Longrightarrow> rep_ok it"
  "int_FillVariables n fill = Inr it \<Longrightarrow> rep_ok (INode n) \<Longrightarrow> rep_ok it"
  "uint_FillVariables u fill = Inr it \<Longrightarrow> rep_ok (UNode u) \<Longrightarrow> rep_ok it"
  subgoal
    by (auto simp: ascii_FillVariables_def simp del: rep_ok.simps
      split: if_splits option.splits goval.splits dest: factories_rep_ok)
  subgoal unfolding binary_FillVariables_def by (erule fill_leaf_rep_ok) (auto dest: NewBinaryNode_rep_ok)
  subgoal unfolding boolean_FillVariables_def by (erule fill_leaf_rep_ok) (auto dest: NewBooleanNode_rep_ok)
  subgoal unfolding float_FillVariables_def by (erule fill_leaf_rep_ok) (auto dest: NewFloatNode_rep_ok)
  subgoal unfolding int_FillVariables_def by (erule fill_leaf_rep_ok) (auto dest: NewIntNode_rep_ok)
  subgoal unfolding uint_FillVariables_def by (erule fill_leaf_rep_ok) (auto dest: NewUintNode_rep_ok)
  done

section \<open>When the factories succeed\<close>

lemma collect_plain:
  assumes "\<And>a. a \<in> set args \<Longrightarrow> conv a = Inr (Inl (f a))"
  shows "collect conv z i vs args = Inr (map f args, vs)"
  using assms by (induction args arbitrary: i) simp_all

lemma NewASCIINode_ok:
  assumes "ascii_string s" and "int (length s) \<le> MAX_BYTE_SIZE"
  shows "NewASCIINode s = Inr (ANode \<lparr>an_value = s, an_name = [], an_min = 0, an_max = 0,
           an_isValue = True, an_symbol = ''ascii''\<rparr>)"
  using assms
  by (auto simp: NewASCIINode_def ascii_checkRep_def check_all_def Let_def list_all_iff runes_ascii_iff)

lemma NewASCIINode_panics:
  assumes "\<not> ascii_string s \<or> MAX_BYTE_SIZE < int (length s)"
  shows "panics (NewASCIINode s)"
  using assms runes_ascii_iff [of s]
  by (auto simp: NewASCIINode_def ascii_checkRep_def check_all_def Let_def list_all_iff)

lemma NewBinaryNode_ok:
  assumes "\<And>a. a \<in> set args \<Longrightarrow> binary_value a = Inr (Inl (f a))"
    and "\<And>a. a \<in> set args \<Longrightarrow> 0 \<le> f a \<and> f a < 256"
    and "int (length args) \<le> MAX_BYTE_SIZE"
  shows "NewBinaryNode args = Inr (BNode \<lparr>bn_values = map f args, bn_variables = [], bn_symbol = ''binary''\<rparr>)"
proof -
  have "list_all (\<lambda>v. 0 \<le> v \<and> v < 256) (map f args)" using assms(2) by (auto simp: list_all_iff)
  then show ?thesis
    using assms(3) collect_plain [OF assms(1)]
    by (simp add: NewBinaryNode_def binary_checkRep_def size_limit_def check_all_def)
qed

lemma NewBooleanNode_ok:
  assumes "int (length bs) \<le> MAX_BYTE_SIZE"
  shows "NewBooleanNode (map VBool bs) =
           Inr (TNode \<lparr>tn_values = bs, tn_variables = [], tn_symbol = ''boolean''\<rparr>)"
proof -
  have "collect boolean_value False 0 [] (map VBool bs) = Inr (map (\<lambda>v. case v of VBool b \<Rightarrow> b) (map VBool bs), [])"
    by (rule collect_plain) (auto simp: boolean_value_def)
  then show ?thesis
    using assms by (simp add: NewBooleanNode_def boolean_checkRep_def size_limit_def comp_def)
qed

lemma NewFloatNode_ok:
  assumes "b = 4 \<or> b = 8" and "\<And>a. a \<in> set args \<Longrightarrow> float_value a = Inr (Inl (f a))"
    and "\<And>a. a \<in> set args \<Longrightarrow> float_check_value b (f a) = Inr ()"
    and "b * int (length args) \<le> MAX_BYTE_SIZE"
  shows "NewFloatNode b args = Inr (FNode \<lparr>fn_byteSize = b, fn_values = map f args, fn_variables = [],
           fn_symbol = ''f'' @ dec b\<rparr>)"
proof -
  have "check_each (float_check_value b) (map f args) = Inr ()"
    using assms(3) by (auto simp: check_each_iff list_all_iff)
  then show ?thesis
    using assms(1,4) collect_plain [OF assms(2)]
    by (auto simp: NewFloatNode_def float_checkRep_def size_limit_def)
qed

lemma NewIntNode_ok:
  assumes "b \<in> {1, 2, 4, 8}" and "\<And>a. a \<in> set args \<Longrightarrow> int_value a = Inr (Inl (f a))"
    and "\<And>a. a \<in> set args \<Longrightarrow> int_fits b (f a)"
    and "b * int (length args) \<le> MAX_BYTE_SIZE"
  shows "NewIntNode b args = Inr (INode \<lparr>in_byteSize = b, in_values = map f args, in_variables = [],
           in_symbol = ''i'' @ dec b\<rparr>)"
proof -
  have "check_all (int_fits b) ''value overflow'' (map f args) = Inr ()"
    using assms(3) by (auto simp: check_all_def list_all_iff)
  then show ?thesis
    using assms(1,4) collect_plain [OF assms(2)]
    by (auto simp: NewIntNode_def int_checkRep_def size_limit_def)
qed

lemma NewUintNode_ok:
  assumes "b \<in> {1, 2, 4, 8}" and "\<And>a. a \<in> set args \<Longrightarrow> uint_value a = Inr (Inl (f a))"
    and "\<And>a. a \<in> set args \<Longrightarrow> uint_fits b (f a)"
    and "b * int (length args) \<le> MAX_BYTE_SIZE"
  shows "NewUintNode b args = Inr (UNode \<lparr>un_byteSize = b, un_values = map f args, un_variables = [],
           un_symbol = ''u'' @ dec b\<rparr>)"
proof -
  have "check_all (uint_fits b) ''value overflow'' (map f args) = Inr ()"
    using assms(3) by (auto simp: check_all_def list_all_iff)
  then show ?thesis
    using assms(1,4) collect_plain [OF assms(2)]
    by (auto simp: NewUintNode_def uint_checkRep_def size_limit_def)
qed

lemma NewListNode_ok:
  assumes "int (length xs) \<le> MAX_BYTE_SIZE" and "distinct (Variables (LNode xs [] ''list''))"
  shows "NewListNode (map VItem xs) = Inr (LNode xs [] ''list'')"
proof -
  have "collect list_value EmptyNode 0 [] (map VItem xs) =
          Inr (map (\<lambda>v. case v of VItem x \<Rightarrow> x) (map VItem xs), [])"
    by (rule collect_plain) (auto simp: list_value_def)
  then show ?thesis
    using assms by (simp add: NewListNode_def list_checkRep_def size_limit_def comp_def)
qed

text \<open>Two empty items in one list, neither of them a variable, clash on the name \<open>""\<close> that
  \<open>Variables\<close> reports for both.\<close>

lemma Variables_from_empties:
  "i < length xs \<Longrightarrow> xs ! i = EmptyNode \<Longrightarrow> [] \<in> set (Variables_from [] k xs)"
proof (induction xs arbitrary: i k)
  case (Cons x xs)
  then show ?case by (cases i) (auto simp: variablesSwapKeyValue_def)
qed simp

lemma two_empty_items_clash:
  assumes "i < j" and "j < length xs" and "xs ! i = EmptyNode" and "xs ! j = EmptyNode"
  shows "\<not> distinct (Variables_from [] k xs)"
  using assms
proof (induction xs arbitrary: i j k)
  case (Cons x xs)
  show ?case
  proof (cases i)
    case 0
    then have x: "x = EmptyNode" using Cons.prems by simp
    obtain j' where "j = Suc j'" using Cons.prems(1) by (cases j) auto
    then have "[] \<in> set (Variables_from [] (Suc k) xs)"
      using Cons.prems by (intro Variables_from_empties [of j']) auto
    then show ?thesis using x by (simp add: variablesSwapKeyValue_def)
  next
    case (Suc i')
    then obtain j' where "j = Suc j'" using Cons.prems(1) by (cases j) auto
    then have "\<not> distinct (Variables_from [] (Suc k) xs)"
      using Suc Cons.prems by (intro Cons.IH [of i' j']) auto
    then show ?thesis by simp
  qed
qed simp

lemma NewListNode_two_empties_panics:
  assumes "i < j" and "j < length xs" and "xs ! i = EmptyNode" and "xs ! j = EmptyNode"
  shows "panics (NewListNode (map VItem xs))"
proof -
  have "collect list_value EmptyNode 0 [] (map VItem xs) =
          Inr (map (\<lambda>v. case v of VItem x \<Rightarrow> x) (map VItem xs), [])"
    by (rule collect_plain) (auto simp: list_value_def)
  moreover have "\<not> distinct (Variables (LNode xs [] ''list''))"
    using two_empty_items_clash [OF assms] by simp
  ultimately show ?thesis
    by (auto simp: NewListNode_def list_checkRep_def size_limit_def comp_def)
qed

section \<open>The factories use no fuel\<close>

lemma collect_fuel_ok: "(\<And>v. fuel_ok (conv v)) \<Longrightarrow> fuel_ok (collect conv z i vs args)"
  by (induction args arbitrary: i vs) (auto intro!: fuel_ok_bind fuel_ok_if split: sum.split)

lemma check_variables_fuel_ok: "fuel_ok (check_variables z xs vs visited)"
  by (induction z xs vs visited rule: check_variables.induct)
     (auto intro!: fuel_ok_bind intro: fuel_free)

lemma list_check_variables_fuel_ok: "fuel_ok (list_check_variables xs vs el visited)"
  by (induction xs vs el visited rule: list_check_variables.induct)
     (auto intro!: fuel_ok_bind intro: fuel_free)

lemma check_fuel_ok:
  "fuel_ok (size_limit t ys)" "fuel_ok (check_all p msg xs)"
  "(\<And>x. fuel_ok (f x)) \<Longrightarrow> fuel_ok (check_each f xs)"
  by (simp_all add: size_limit_def check_all_def) (induction xs, auto intro!: fuel_ok_bind)

lemma value_fuel_ok:
  "fuel_ok (binary_value v)" "fuel_ok (boolean_value v)" "fuel_ok (float_value v)"
  "fuel_ok (int_value v)" "fuel_ok (uint_value v)" "fuel_ok (list_value v)"
  by (cases v; simp add: binary_value_def boolean_value_def float_value_def int_value_def
      uint_value_def list_value_def)+

lemmas factory_fuel_rules = fuel_ok_bind collect_fuel_ok check_variables_fuel_ok
  list_check_variables_fuel_ok check_fuel_ok value_fuel_ok

lemma factories_fuel_ok [fuel_free]:
  "fuel_ok (NewASCIINode s)" "fuel_ok (NewBinaryNode args)" "fuel_ok (NewBooleanNode args)"
  "fuel_ok (NewFloatNode b args)" "fuel_ok (NewIntNode b args)" "fuel_ok (NewUintNode b args)"
  "fuel_ok (NewListNode args)"
  subgoal by (auto simp: NewASCIINode_def ascii_checkRep_def Let_def intro!: factory_fuel_rules)
  subgoal by (auto simp: NewBinaryNode_def binary_checkRep_def Let_def intro!: factory_fuel_rules)
  subgoal by (auto simp: NewBooleanNode_def boolean_checkRep_def Let_def intro!: factory_fuel_rules)
  subgoal by (auto simp: NewFloatNode_def float_checkRep_def float_check_value_def Let_def
        intro!: factory_fuel_rules)
  subgoal by (auto simp: NewIntNode_def int_checkRep_def Let_def intro!: factory_fuel_rules)
  subgoal by (auto simp: NewUintNode_def uint_checkRep_def Let_def intro!: factory_fuel_rules)
  subgoal by (auto simp: NewListNode_def list_checkRep_def Let_def intro!: factory_fuel_rules)
  done

lemma NewASCIINodeVariable_fuel_ok: "fuel_ok (NewASCIINodeVariable name lo hi)"
  by (auto simp: NewASCIINodeVariable_def ascii_checkRep_def Let_def intro!: factory_fuel_rules)

end
