(* ===== verification/Item_Encode.thy ===== *)
theory Item_Encode
  imports Item_Factory
begin

text \<open>
  \<open>ToBytes\<close> of the data items: the SECS-II encoding (format byte, one to three length bytes, data)
  that each node type of \<open>lib-secs2-hsms-go/pkg/ast\<close> writes. The lemmas give the layout of the
  header bytes, the length of every encoding, and that an item has an encoding exactly when it
  has no variable left.
\<close>

section \<open>The encoders\<close>

definition with_header :: "string \<Rightarrow> int \<Rightarrow> byte list \<Rightarrow> byte list" where
  "with_header typ count payload =
     (case getHeaderBytes typ count of Inl e \<Rightarrow> [] | Inr h \<Rightarrow> h @ payload)"

definition ascii_ToBytes :: "ascii_node \<Rightarrow> byte list" where
  "ascii_ToBytes n =
     (if \<not> an_isValue n then []
      else with_header ''ascii'' (Size (ANode n)) (map word_of_nat (runes (an_value n))))"

definition binary_ToBytes :: "binary_node \<Rightarrow> byte list" where
  "binary_ToBytes n =
     (if bn_variables n \<noteq> [] then []
      else with_header ''binary'' (Size (BNode n)) (map word_of_int (bn_values n)))"

definition boolean_ToBytes :: "boolean_node \<Rightarrow> byte list" where
  "boolean_ToBytes n =
     (if tn_variables n \<noteq> [] then []
      else with_header ''boolean'' (Size (TNode n)) (map (\<lambda>b. if b then 1 else 0) (tn_values n)))"

definition float_ToBytes :: "float_node \<Rightarrow> byte list" where
  "float_ToBytes n =
     (if fn_variables n \<noteq> [] then []
      else with_header (''f'' @ dec (fn_byteSize n)) (Size (FNode n))
        (if fn_byteSize n = 4
         then concat (map (\<lambda>v. be_bytes 4 (ucast (f32_of_f64 v))) (fn_values n))
         else concat (map (be_bytes 8) (fn_values n))))"

definition int_ToBytes :: "int_node \<Rightarrow> byte list" where
  "int_ToBytes n =
     (if in_variables n \<noteq> [] then []
      else with_header (''i'' @ dec (in_byteSize n)) (Size (INode n))
        (concat (map (be_bytes (nat (in_byteSize n))) (in_values n))))"

definition uint_ToBytes :: "uint_node \<Rightarrow> byte list" where
  "uint_ToBytes n =
     (if un_variables n \<noteq> [] then []
      else with_header (''u'' @ dec (un_byteSize n)) (Size (UNode n))
        (concat (map (be_bytes (nat (un_byteSize n))) (un_values n))))"

text \<open>A list encodes its items in turn and gives up with the empty encoding at the first item that
  has an empty one.\<close>

fun ToBytes :: "item \<Rightarrow> byte list"
and items_ToBytes :: "byte list \<Rightarrow> item list \<Rightarrow> byte list" where
  "ToBytes EmptyNode = []"
| "ToBytes (ANode n) = ascii_ToBytes n"
| "ToBytes (BNode n) = binary_ToBytes n"
| "ToBytes (TNode n) = boolean_ToBytes n"
| "ToBytes (FNode n) = float_ToBytes n"
| "ToBytes (INode n) = int_ToBytes n"
| "ToBytes (UNode n) = uint_ToBytes n"
| "ToBytes (LNode xs vs s) =
     (if vs \<noteq> [] then []
      else case getHeaderBytes ''list'' (int (length xs)) of
             Inl e \<Rightarrow> []
           | Inr h \<Rightarrow> items_ToBytes h xs)"
| "items_ToBytes result [] = result"
| "items_ToBytes result (x # xs) =
     (let childResult = ToBytes x in
      if childResult = [] then [] else items_ToBytes (result @ childResult) xs)"

section \<open>Header bytes\<close>

definition length_bytes_count :: "int \<Rightarrow> nat" where
  "length_bytes_count n = (if n < 2 ^ 8 then 1 else if n < 2 ^ 16 then 2 else 3)"

lemma word_of_int_byte_0_iff: "(word_of_int n :: byte) = 0 \<longleftrightarrow> n mod 256 = 0"
proof -
  have "(word_of_int n :: byte) = 0 \<longleftrightarrow> uint (word_of_int n :: byte) = 0"
    by (simp only: unsigned_eq_0_iff)
  also have "uint (word_of_int n :: byte) = n mod 256"
    by (simp add: uint_word_of_int)
  finally show ?thesis .
qed

lemma unat_byte_of_int: "0 \<le> n \<Longrightarrow> unat (word_of_int n :: byte) = nat n mod 256"
  by (simp add: unsigned_of_int take_bit_eq_mod nat_mod_distrib)

lemma unat_word_of_int_less: "0 \<le> n \<Longrightarrow> n < 2 ^ 64 \<Longrightarrow> unat (word_of_int n :: 64 word) = nat n"
  by (simp add: unsigned_of_int take_bit_eq_mod)

lemma getHeaderBytes_eq:
  assumes "0 \<le> getDataByteLength typ count" and "getDataByteLength typ count \<le> MAX_BYTE_SIZE"
    and "format_code typ = Some code"
  defines "n \<equiv> getDataByteLength typ count"
  shows "getHeaderBytes typ count = Inr (word_of_int (code * 4 + int (length_bytes_count n))
           # be_bytes (length_bytes_count n) (word_of_int n))"
proof -
  have n: "0 \<le> n" "n < 2 ^ 24" using assms(1,2) by (simp_all add: n_def MAX_BYTE_SIZE_def)
  have u: "unat (word_of_int n :: 64 word) = nat n"
    using n by (simp add: unat_word_of_int_less)
  have b: "ucast (drop_bit k (word_of_int n :: 64 word)) = (word_of_int (n div 2 ^ k) :: byte)" for k
    by (rule unsigned_word_eqI [where 'a = nat])
       (use n(1) in \<open>simp add: unat_ucast_drop_bit u unat_byte_of_int nat_div_distrib
         pos_imp_zdiv_nonneg_iff
         nat_mod_distrib nat_power_eq\<close>)
  have z: "n div 2 ^ 16 mod 256 = 0 \<longleftrightarrow> n < 2 ^ 16" using n by auto
  have z2: "n div 2 ^ 8 mod 256 = 0 \<longleftrightarrow> n < 2 ^ 8" if "n < 2 ^ 16" using n that by auto
  have up: "be_bytes (Suc 0) w = [ucast w]" "be_bytes 2 w = [ucast (drop_bit 8 w), ucast w]"
    "be_bytes 3 w = [ucast (drop_bit 16 w), ucast (drop_bit 8 w), ucast w]" for w
    by (simp_all add: be_bytes_def upt_rec)
  show ?thesis
    using assms(1-3) z z2 n b [of 0] b [of 8] b [of 16] unfolding n_def
    by (auto simp: getHeaderBytes_def Let_def length_bytes_count_def
        word_of_int_byte_0_iff up MAX_BYTE_SIZE_def)
qed

lemma getHeaderBytes_cases:
  obtains (fits) h where "getHeaderBytes typ count = Inr h" and "h \<noteq> []"
      and "getDataByteLength typ count \<le> MAX_BYTE_SIZE"
    | (exceeds) "getHeaderBytes typ count = Inl (Err ''size limit exceeded'')"
      and "MAX_BYTE_SIZE < getDataByteLength typ count"
  by (cases "getDataByteLength typ count \<le> MAX_BYTE_SIZE")
     (auto simp: getHeaderBytes_def Let_def)

lemma with_header_nonempty:
  "getDataByteLength typ count \<le> MAX_BYTE_SIZE \<Longrightarrow> with_header typ count p \<noteq> []"
  by (cases rule: getHeaderBytes_cases [of "typ" count]) (auto simp: with_header_def)

section \<open>An item has an encoding exactly when it has no variable\<close>

lemma items_ToBytes_eq:
  "items_ToBytes r xs = (if \<forall>x \<in> set xs. ToBytes x \<noteq> [] then r @ concat (map ToBytes xs) else [])"
proof (induction xs arbitrary: r)
  case (Cons x xs)
  show ?case by (simp add: Let_def Cons.IH)
qed simp

lemma getVariableNames_Nil [simp]: "getVariableNames vs = [] \<longleftrightarrow> vs = []"
  by (simp add: getVariableNames_def) (metis length_0_conv length_sort)

lemma Variables_from_eq_Nil:
  "Variables_from vs i xs = [] \<longleftrightarrow> (\<forall>x \<in> set xs. x \<noteq> EmptyNode \<and> Variables x = [])"
  by (induction xs arbitrary: i) auto

lemma vars_ok_position:
  "vars_ok g z xs ((n, p) # vs) \<Longrightarrow> \<exists>x \<in> set xs. z x"
  by (auto simp: vars_ok_def)

lemma ToBytes_empty_iff:
  "rep_ok it \<Longrightarrow> it \<noteq> EmptyNode \<Longrightarrow> ToBytes it = [] \<longleftrightarrow> Variables it \<noteq> []"
proof (induction it)
  case (ANode n)
  then show ?case by (auto simp: ascii_ToBytes_def with_header_nonempty split: if_splits)
next
  case (BNode n)
  then show ?case by (auto simp: binary_ToBytes_def with_header_nonempty)
next
  case (TNode n)
  then show ?case by (auto simp: boolean_ToBytes_def with_header_nonempty)
next
  case (FNode n)
  then show ?case by (auto simp: float_ToBytes_def with_header_nonempty)
next
  case (INode n)
  then show ?case by (auto simp: int_ToBytes_def with_header_nonempty)
next
  case (UNode n)
  then show ?case by (auto simp: uint_ToBytes_def with_header_nonempty)
next
  case (LNode xs vs s)
  show ?case
  proof (cases vs)
    case Nil
    have "getDataByteLength ''list'' (int (length xs)) \<le> MAX_BYTE_SIZE" using LNode.prems by simp
    then obtain h where h: "getHeaderBytes ''list'' (int (length xs)) = Inr h" "h \<noteq> []"
      by (cases rule: getHeaderBytes_cases [of "''list''" "int (length xs)"]) auto
    have "ToBytes x = [] \<longleftrightarrow> x = EmptyNode \<or> Variables x \<noteq> []" if "x \<in> set xs" for x
      using that LNode by (cases "x = EmptyNode") auto
    then show ?thesis
      using Nil h by (auto simp: items_ToBytes_eq Variables_from_eq_Nil)
  next
    case (Cons v vs')
    then obtain x where "x \<in> set xs" "x = EmptyNode"
      using LNode.prems vars_ok_position by (cases v) fastforce
    then have "Variables_from vs 0 xs \<noteq> []" by (auto simp: Variables_from_eq_Nil)
    with Cons show ?thesis by simp
  qed
qed simp

end
