(* ===== verification/Hsms_Message.thy ===== *)
theory Hsms_Message
  imports Item_Encode
begin

text \<open>
  The HSMS messages of \<open>lib-secs2-hsms-go/pkg/ast\<close>: the SECS-II data message (\<open>ast.go\<close>) and the
  ten-byte control message (\<open>hsms.go\<close>). \<open>hsms_message\<close> is the interface \<open>HSMSMessage\<close> with its two
  implementations; a control message is the bytes of its header.
\<close>

section \<open>Data messages\<close>

record data_message =
  dm_name :: string
  dm_stream :: int
  dm_function :: int
  dm_waitBit :: int
  dm_direction :: string
  dm_dataItem :: item
  dm_sessionID :: int
  dm_systemBytes :: "byte list"

definition checkRep :: "data_message \<Rightarrow> unit go" where
  "checkRep m =
     (if \<not> list_all (\<lambda>r. \<not> rune_is_space r) (runes (dm_name m))
        then Inl (Panic ''message name shouldn't contain whitespaces'')
      else if \<not> (0 \<le> dm_stream m \<and> dm_stream m < 128) then Inl (Panic ''stream code out of range'')
      else if \<not> (0 \<le> dm_function m \<and> dm_function m < 256) then Inl (Panic ''function code out of range'')
      else if dm_waitBit m = 1 \<and> dm_function m mod 2 = 0
        then Inl (Panic ''wait bit = true is not valid for reply message'')
      else if \<not> (0 \<le> dm_waitBit m \<and> dm_waitBit m \<le> 2) then Inl (Panic ''invalid wait bit'')
      else if \<not> (- 1 \<le> dm_sessionID m \<and> dm_sessionID m < 65536) then Inl (Panic ''session id out of range'')
      else if length (dm_systemBytes m) \<noteq> 4 then Inl (Panic ''system bytes length is not 4'')
      else if dm_direction m \<noteq> ''H->E'' \<and> dm_direction m \<noteq> ''H<-E'' \<and> dm_direction m \<noteq> ''H<->E''
        then Inl (Panic ''invalid direction'')
      else Inr ())"

definition checked :: "data_message \<Rightarrow> data_message go" where
  "checked m = go_bind (checkRep m) (\<lambda>_. Inr m)"

definition systemBytesCopy :: "byte list \<Rightarrow> byte list" where
  "systemBytesCopy bs = take 4 (bs @ replicate 4 0)"

definition NewDataMessage ::
  "string \<Rightarrow> int \<Rightarrow> int \<Rightarrow> int \<Rightarrow> string \<Rightarrow> item \<Rightarrow> data_message go" where
  "NewDataMessage name stream function waitBit direction dataItem =
     checked \<lparr>dm_name = name, dm_stream = stream, dm_function = function, dm_waitBit = waitBit,
       dm_direction = direction, dm_dataItem = dataItem, dm_sessionID = - 1,
       dm_systemBytes = [0, 0, 0, 0]\<rparr>"

definition NewHSMSDataMessage ::
  "string \<Rightarrow> int \<Rightarrow> int \<Rightarrow> int \<Rightarrow> string \<Rightarrow> item \<Rightarrow> int \<Rightarrow> byte list \<Rightarrow> data_message go" where
  "NewHSMSDataMessage name stream function waitBit direction dataItem sessionID systemBytes =
     (if waitBit \<noteq> 0 \<and> waitBit \<noteq> 1
        then Inl (Panic ''wait bit should be 0 or 1 when creating HSMS convertible message'')
      else if sessionID = - 1
        then Inl (Panic ''sessionID should be in range of [0, 65535) when creating HSMS convertible message'')
      else if Variables dataItem \<noteq> []
        then Inl (Panic ''data item should not contain variables when creating HSMS convertible message'')
      else checked \<lparr>dm_name = name, dm_stream = stream, dm_function = function, dm_waitBit = waitBit,
        dm_direction = direction, dm_dataItem = dataItem, dm_sessionID = sessionID,
        dm_systemBytes = systemBytesCopy systemBytes\<rparr>)"

definition WaitBit :: "data_message \<Rightarrow> string go" where
  "WaitBit m =
     (if dm_waitBit m = 0 then Inr ''false''
      else if dm_waitBit m = 1 then Inr ''true''
      else if dm_waitBit m = 2 then Inr ''optional''
      else Inl (Panic ''rep invariant broken''))"

definition SetWaitBit :: "data_message \<Rightarrow> bool \<Rightarrow> data_message go" where
  "SetWaitBit m waitBit =
     (if dm_waitBit m \<noteq> 2 then Inr m
      else checked (m\<lparr>dm_waitBit := (if waitBit then 1 else 0)\<rparr>))"

definition SetSessionIDAndSystemBytes :: "data_message \<Rightarrow> int \<Rightarrow> byte list \<Rightarrow> data_message go" where
  "SetSessionIDAndSystemBytes m sessionID systemBytes =
     checked (m\<lparr>dm_sessionID := sessionID, dm_systemBytes := systemBytesCopy systemBytes\<rparr>)"

definition Header :: "data_message \<Rightarrow> string" where
  "Header m =
     ''S'' @ dec (dm_stream m) @ ''F'' @ dec (dm_function m)
     @ (if dm_waitBit m = 1 then '' W'' else if dm_waitBit m = 2 then '' [W]'' else [])
     @ '' '' @ dm_direction m
     @ (if dm_name m \<noteq> [] then '' '' @ dm_name m else [])"

subsection \<open>Reading values out of the body\<close>

text \<open>The getters with a trailing element index slice off the last index first, which panics when
  there is none; the element index itself is not checked against the data.\<close>

definition GetAscii :: "data_message \<Rightarrow> int list \<Rightarrow> string res go" where
  "GetAscii m indices = (case Get (dm_dataItem m) indices of
      Inl e \<Rightarrow> Inr (Inl e)
    | Inr node \<Rightarrow>
       if Type node = ''ascii'' then
         (case Values node of
            VsString s \<Rightarrow> Inr (Inr s)
          | _ \<Rightarrow> Inl (Panic ''interface conversion''))
       else Inr (Inl (Err ''not ascii'')))"

definition go_at :: "'a list \<Rightarrow> int \<Rightarrow> 'a go" where
  "go_at xs i = (if 0 \<le> i \<and> i < int (length xs) then Inr (xs ! nat i)
                 else Inl (Panic ''index out of range''))"

definition get_parent :: "data_message \<Rightarrow> int list \<Rightarrow> item res go" where
  "get_parent m indices =
     (if indices = [] then Inl (Panic ''slice bounds out of range'')
      else Inr (Get (dm_dataItem m) (butlast indices)))"

definition GetByte :: "data_message \<Rightarrow> int list \<Rightarrow> byte res go" where
  "GetByte m indices = go_bind (get_parent m indices) (\<lambda>r. case r of
      Inl e \<Rightarrow> Inr (Inl e)
    | Inr node \<Rightarrow>
       if Type node = ''binary'' then
         (case Values node of
            VsInts xs \<Rightarrow> go_bind (go_at xs (last indices)) (\<lambda>v. Inr (Inr (word_of_int v)))
          | _ \<Rightarrow> Inl (Panic ''interface conversion''))
       else Inr (Inl (Err ''not binary'')))"

definition GetBoolean :: "data_message \<Rightarrow> int list \<Rightarrow> bool res go" where
  "GetBoolean m indices = go_bind (get_parent m indices) (\<lambda>r. case r of
      Inl e \<Rightarrow> Inr (Inl e)
    | Inr node \<Rightarrow>
       if Type node = ''boolean'' then
         (case Values node of
            VsBools xs \<Rightarrow> go_bind (go_at xs (last indices)) (\<lambda>v. Inr (Inr v))
          | _ \<Rightarrow> Inl (Panic ''interface conversion''))
       else Inr (Inl (Err ''not boolean'')))"

definition GetFloat :: "data_message \<Rightarrow> int list \<Rightarrow> 64 word res go" where
  "GetFloat m indices = go_bind (get_parent m indices) (\<lambda>r. case r of
      Inl e \<Rightarrow> Inr (Inl e)
    | Inr node \<Rightarrow>
       go_bind (go_slice (Type node) 0 1) (\<lambda>t.
         if t = ''f'' then
           (case Values node of
              VsFloats xs \<Rightarrow> go_bind (go_at xs (last indices)) (\<lambda>v. Inr (Inr v))
            | _ \<Rightarrow> Inl (Panic ''interface conversion''))
         else Inr (Inl (Err ''not float''))))"

definition GetInt :: "data_message \<Rightarrow> int list \<Rightarrow> 64 word res go" where
  "GetInt m indices = go_bind (get_parent m indices) (\<lambda>r. case r of
      Inl e \<Rightarrow> Inr (Inl e)
    | Inr node \<Rightarrow>
       go_bind (go_slice (Type node) 0 1) (\<lambda>t.
         if t = ''i'' then
           (case Values node of
              VsInt64s xs \<Rightarrow> go_bind (go_at xs (last indices)) (\<lambda>v. Inr (Inr v))
            | _ \<Rightarrow> Inl (Panic ''interface conversion''))
         else Inr (Inl (Err ''not int''))))"

subsection \<open>The HSMS bytes of a data message\<close>

definition DataMessage_ToBytes :: "data_message \<Rightarrow> byte list go" where
  "DataMessage_ToBytes m = go_bind (WaitBit m) (\<lambda>w.
     if w = ''optional'' \<or> Variables (dm_dataItem m) \<noteq> [] \<or> dm_sessionID m = - 1 then Inr []
     else
       let itemBytes = ToBytes (dm_dataItem m);
           msgLength = word_of_nat (length itemBytes + 10) :: 32 word;
           headerByte2 = dm_stream m + (if w = ''true'' then 128 else 0)
       in Inr (be_bytes 4 (ucast msgLength)
            @ [word_of_int (dm_sessionID m div 256), word_of_int (dm_sessionID m)]
            @ [word_of_int headerByte2, word_of_int (dm_function m)]
            @ [0, 0]
            @ take 4 (dm_systemBytes m)
            @ itemBytes))"

section \<open>Control messages\<close>

datatype hsms_message = DataMsg data_message | CtrlMsg "byte list"

definition CtrlType :: "byte list \<Rightarrow> string" where
  "CtrlType h =
     (if h ! 4 \<noteq> 0 then ''undefined''
      else if h ! 5 = 1 then ''select.req''
      else if h ! 5 = 2 then ''select.rsp''
      else if h ! 5 = 3 then ''deselect.req''
      else if h ! 5 = 4 then ''deselect.rsp''
      else if h ! 5 = 5 then ''linktest.req''
      else if h ! 5 = 6 then ''linktest.rsp''
      else if h ! 5 = 7 then ''reject.req''
      else if h ! 5 = 9 then ''separate.req''
      else ''undefined'')"

fun MsgType :: "hsms_message \<Rightarrow> string" where
  "MsgType (DataMsg m) = ''data message''"
| "MsgType (CtrlMsg h) = CtrlType h"

definition CtrlToBytes :: "byte list \<Rightarrow> byte list" where
  "CtrlToBytes h = [0, 0, 0, 10] @ h"

fun MsgToBytes :: "hsms_message \<Rightarrow> byte list go" where
  "MsgToBytes (DataMsg m) = DataMessage_ToBytes m"
| "MsgToBytes (CtrlMsg h) = Inr (CtrlToBytes h)"

fun MsgSystemBytes :: "hsms_message \<Rightarrow> byte list" where
  "MsgSystemBytes (DataMsg m) = dm_systemBytes m"
| "MsgSystemBytes (CtrlMsg h) = slice 6 10 h"

definition CtrlSessionID :: "byte list \<Rightarrow> 16 word" where
  "CtrlSessionID h = or (push_bit 8 (ucast (h ! 0))) (ucast (h ! 1))"

definition CtrlStatus :: "byte list \<Rightarrow> byte" where
  "CtrlStatus h = h ! 3"

text \<open>The copy loop of \<open>NewHSMSControlMessage\<close> stops at \<open>i > 10\<close>, one past the ten bytes of the
  copy, so an eleventh header byte is written out of range.\<close>

definition NewHSMSControlMessage :: "byte list \<Rightarrow> hsms_message go" where
  "NewHSMSControlMessage header =
     (if 10 < length header then Inl (Panic ''index out of range'')
      else Inr (CtrlMsg (header @ replicate (10 - length header) 0)))"

text \<open>The factories index \<open>systemBytes[0]\<close> to \<open>systemBytes[3]\<close>.\<close>

definition with_system :: "byte list \<Rightarrow> (byte list \<Rightarrow> 'a) \<Rightarrow> 'a go" where
  "with_system sb f =
     (if length sb < 4 then Inl (Panic ''index out of range'') else Inr (f (take 4 sb)))"

definition session_bytes :: "16 word \<Rightarrow> byte list" where
  "session_bytes sid = [ucast (drop_bit 8 sid), ucast sid]"

definition NewHSMSMessageSelectReq :: "16 word \<Rightarrow> byte list \<Rightarrow> hsms_message go" where
  "NewHSMSMessageSelectReq sid sb =
     with_system sb (\<lambda>s. CtrlMsg (session_bytes sid @ [0, 0, 0, 1] @ s))"

definition NewHSMSMessageSelectRsp :: "hsms_message \<Rightarrow> byte \<Rightarrow> hsms_message go" where
  "NewHSMSMessageSelectRsp req status = (case req of
      CtrlMsg h \<Rightarrow>
        if CtrlType h \<noteq> ''select.req'' then Inl (Panic ''expected select.req message'')
        else Inr (CtrlMsg ([h ! 0, h ! 1, 0, status, 0, 2] @ slice 6 10 h))
    | DataMsg m \<Rightarrow> Inl (Panic ''expected select.req message''))"

definition NewHSMSMessageDeselectReq :: "16 word \<Rightarrow> byte list \<Rightarrow> hsms_message go" where
  "NewHSMSMessageDeselectReq sid sb =
     with_system sb (\<lambda>s. CtrlMsg (session_bytes sid @ [0, 0, 0, 3] @ s))"

definition NewHSMSMessageDeselectRsp :: "hsms_message \<Rightarrow> byte \<Rightarrow> hsms_message go" where
  "NewHSMSMessageDeselectRsp req status = (case req of
      CtrlMsg h \<Rightarrow>
        if CtrlType h \<noteq> ''deselect.req'' then Inl (Panic ''expected deselect.req message'')
        else Inr (CtrlMsg ([h ! 0, h ! 1, 0, status, 0, 4] @ slice 6 10 h))
    | DataMsg m \<Rightarrow> Inl (Panic ''expected deselect.req message''))"

definition NewHSMSMessageLinktestReq :: "byte list \<Rightarrow> hsms_message go" where
  "NewHSMSMessageLinktestReq sb = with_system sb (\<lambda>s. CtrlMsg ([255, 255, 0, 0, 0, 5] @ s))"

definition NewHSMSMessageLinktestRsp :: "hsms_message \<Rightarrow> hsms_message go" where
  "NewHSMSMessageLinktestRsp req = (case req of
      CtrlMsg h \<Rightarrow>
        if CtrlType h \<noteq> ''linktest.req'' then Inl (Panic ''expected linktest.req message'')
        else Inr (CtrlMsg ([255, 255, 0, 0, 0, 6] @ slice 6 10 h))
    | DataMsg m \<Rightarrow> Inl (Panic ''expected linktest.req message''))"

definition NewHSMSMessageRejectReq ::
  "16 word \<Rightarrow> byte \<Rightarrow> byte \<Rightarrow> byte list \<Rightarrow> byte \<Rightarrow> hsms_message go" where
  "NewHSMSMessageRejectReq sid pType sType sb reasonCode =
     with_system sb (\<lambda>s. CtrlMsg (session_bytes sid
       @ [if reasonCode = 2 then pType else sType, reasonCode, 0, 7] @ s))"

text \<open>\<open>NewHSMSMessageRejectReqFromMsg\<close> compares with the type name \<open>"Reject.req"\<close>; were it passed,
  a data message would dereference the nil result of the failed type assertion.\<close>

definition NewHSMSMessageRejectReqFromMsg :: "hsms_message \<Rightarrow> byte \<Rightarrow> hsms_message go" where
  "NewHSMSMessageRejectReqFromMsg msg reasonCode =
     (if MsgType msg \<noteq> ''Reject.req'' then Inl (Panic ''expected Reject.req message'')
      else case msg of
        DataMsg m \<Rightarrow> Inl (Panic ''nil pointer dereference'')
      | CtrlMsg h \<Rightarrow>
          Inr (CtrlMsg ([h ! 0, h ! 1, if reasonCode = 2 then h ! 4 else h ! 5, reasonCode, 0, 7]
            @ slice 0 4 h)))"

definition NewHSMSMessageSeparateReq :: "16 word \<Rightarrow> byte list \<Rightarrow> hsms_message go" where
  "NewHSMSMessageSeparateReq sid sb =
     with_system sb (\<lambda>s. CtrlMsg (session_bytes sid @ [0, 0, 0, 9] @ s))"

section \<open>Lemmas\<close>

lemma checked_Inr_iff: "checked m = Inr m' \<longleftrightarrow> m' = m \<and> checkRep m = Inr ()"
  by (auto simp: checked_def go_bind_Inr_iff)

lemma checkRep_Inr_iff:
  "checkRep m = Inr () \<longleftrightarrow>
     list_all (\<lambda>r. \<not> rune_is_space r) (runes (dm_name m))
     \<and> 0 \<le> dm_stream m \<and> dm_stream m < 128 \<and> 0 \<le> dm_function m \<and> dm_function m < 256
     \<and> \<not> (dm_waitBit m = 1 \<and> dm_function m mod 2 = 0)
     \<and> 0 \<le> dm_waitBit m \<and> dm_waitBit m \<le> 2
     \<and> - 1 \<le> dm_sessionID m \<and> dm_sessionID m < 65536
     \<and> length (dm_systemBytes m) = 4
     \<and> dm_direction m \<in> {''H->E'', ''H<-E'', ''H<->E''}"
  by (auto simp: checkRep_def)

lemma length_systemBytesCopy [simp]: "length (systemBytesCopy bs) = 4"
  by (simp add: systemBytesCopy_def)

lemma systemBytesCopy_id [simp]: "length bs = 4 \<Longrightarrow> systemBytesCopy bs = bs"
  by (simp add: systemBytesCopy_def)

lemma message_constructors_rep:
  "NewDataMessage n s f w d i = Inr m \<Longrightarrow> checkRep m = Inr ()"
  "NewHSMSDataMessage n s f w d i sid sb = Inr m \<Longrightarrow> checkRep m = Inr ()"
  "SetWaitBit m0 b = Inr m \<Longrightarrow> checkRep m0 = Inr () \<Longrightarrow> checkRep m = Inr ()"
  "SetSessionIDAndSystemBytes m0 sid sb = Inr m \<Longrightarrow> checkRep m = Inr ()"
  by (auto simp: NewDataMessage_def NewHSMSDataMessage_def SetWaitBit_def
    SetSessionIDAndSystemBytes_def checked_Inr_iff split: if_splits)

text \<open>A message is sendable when its wait bit is settled, its session id is set and its body has no
  variable left.\<close>

definition sendable :: "data_message \<Rightarrow> bool" where
  "sendable m \<longleftrightarrow> dm_waitBit m \<noteq> 2 \<and> dm_sessionID m \<noteq> - 1 \<and> Variables (dm_dataItem m) = []"

definition header_byte2 :: "data_message \<Rightarrow> byte" where
  "header_byte2 m = word_of_int (dm_stream m + 128 * dm_waitBit m)"

definition message_header :: "data_message \<Rightarrow> byte list" where
  "message_header m =
     [word_of_int (dm_sessionID m div 256), word_of_int (dm_sessionID m), header_byte2 m,
      word_of_int (dm_function m), 0, 0] @ dm_systemBytes m"

lemma length_message_header [simp]: "checkRep m = Inr () \<Longrightarrow> length (message_header m) = 10"
  by (simp add: message_header_def checkRep_Inr_iff)

lemma DataMessage_ToBytes_eq:
  assumes "checkRep m = Inr ()"
  shows "DataMessage_ToBytes m = Inr (if sendable m
    then be_bytes 4 (ucast (word_of_nat (length (ToBytes (dm_dataItem m)) + 10) :: 32 word))
      @ message_header m @ ToBytes (dm_dataItem m)
    else [])"
proof -
  have "dm_waitBit m = 0 \<or> dm_waitBit m = 1 \<or> dm_waitBit m = 2" and "length (dm_systemBytes m) = 4"
    using assms by (auto simp: checkRep_Inr_iff)
  then show ?thesis
    by (auto simp: DataMessage_ToBytes_def WaitBit_def sendable_def message_header_def
      header_byte2_def Let_def)
qed

lemma MsgType_not_Reject: "MsgType msg \<noteq> ''Reject.req''"
  by (cases msg) (simp_all add: CtrlType_def)

lemma list_10_cases:
  assumes "length h = 10"
  obtains a b c d e f g i j k where "h = [a, b, c, d, e, f, g, i, j, k]"
  using assms by (auto simp: eval_nat_numeral length_Suc_conv)

end
