(* ===== verification/Hsms_Parser.thy ===== *)
theory Hsms_Parser
  imports Hsms_Message
begin

text \<open>
  The HSMS decoder \<open>lib-secs2-hsms-go/pkg/parser/hsms/parser.go\<close>: \<open>Parse\<close> with the message length,
  the header, and the recursive descent over the message text.

  A Go slice expression is bounded by the capacity of the slice it is taken from, not by its
  length. The parser's input is therefore a \<open>buffer\<close>: the bytes the parser is given and the bytes
  that follow them in the same allocation. \<open>p.input[i]\<close> (\<open>buf_index\<close>) is bounded by the length,
  \<open>p.input[lo:hi]\<close> (\<open>buf_slice\<close>) by the capacity.

  The recursion of \<open>parseMessageText\<close> is bounded by a fuel argument that counts nesting levels. Each
  level reads at least one byte below the length, so the length of the input, which \<open>Parse\<close>
  supplies, is enough: \<open>parseMessageText_fuel\<close>.
\<close>

section \<open>The buffer\<close>

record buffer =
  buf_len :: "byte list"
  buf_spare :: "byte list"

definition buf_index :: "buffer \<Rightarrow> nat \<Rightarrow> byte go" where
  "buf_index b i = go_index (buf_len b) i"

definition buf_slice :: "buffer \<Rightarrow> nat \<Rightarrow> nat \<Rightarrow> byte list go" where
  "buf_slice b lo hi = go_slice (buf_len b @ buf_spare b) lo hi"

section \<open>The message text\<close>

text \<open>What \<open>parseMessageText\<close> leaves: the item, \<open>ok\<close>, and the new \<open>pos\<close>.\<close>

type_synonym parsed = "item \<times> bool \<times> nat"

text \<open>\<open>length += int(b << shift)\<close> with \<open>b\<close> a byte: the shift is done in eight bits.\<close>

definition parse_length :: "byte list \<Rightarrow> nat" where
  "parse_length bs =
     sum_list (map (\<lambda>(i, b). unat (push_bit ((length bs - i - 1) * 8) b)) (enumerate 0 bs))"

definition failed :: "nat \<Rightarrow> parsed go" where
  "failed pos = Inr (EmptyNode, False, pos)"

definition succeed :: "item go \<Rightarrow> nat \<Rightarrow> parsed go" where
  "succeed it pos = go_bind it (\<lambda>n. Inr (n, True, pos))"

text \<open>The values of \<open>n\<close> consecutive groups of \<open>size\<close> bytes, each turned into a Go value.\<close>

definition parse_values :: "(nat \<Rightarrow> goval go) \<Rightarrow> nat \<Rightarrow> goval list go" where
  "parse_values f n = go_map f [0..<n]"

definition parseFloat :: "buffer \<Rightarrow> nat \<Rightarrow> nat \<Rightarrow> nat \<Rightarrow> parsed go" where
  "parseFloat b pos byteSize len =
     (if len mod byteSize \<noteq> 0 then failed pos
      else go_bind (parse_values (\<lambda>i.
             go_bind (buf_slice b (pos + byteSize * i) (pos + byteSize * (i + 1))) (\<lambda>bs.
               Inr (if byteSize = 4 then VFloat32 (word_of_nat (be_uint bs))
                    else VFloat64 (word_of_nat (be_uint bs))))) (len div byteSize))
             (\<lambda>vs. succeed (NewFloatNode (int byteSize) vs) (pos + len)))"

definition parseInt :: "buffer \<Rightarrow> nat \<Rightarrow> nat \<Rightarrow> nat \<Rightarrow> parsed go" where
  "parseInt b pos byteSize len =
     (if len mod byteSize \<noteq> 0 then failed pos
      else go_bind (parse_values (\<lambda>i.
             if byteSize = 1 then go_bind (buf_index b (pos + i)) (\<lambda>v. Inr (VInt8 v))
             else go_bind (buf_slice b (pos + byteSize * i) (pos + byteSize * (i + 1))) (\<lambda>bs.
               Inr (if byteSize = 2 then VInt16 (word_of_nat (be_uint bs))
                    else if byteSize = 4 then VInt32 (word_of_nat (be_uint bs))
                    else VInt64 (word_of_nat (be_uint bs))))) (len div byteSize))
             (\<lambda>vs. succeed (NewIntNode (int byteSize) vs) (pos + len)))"

definition parseUint :: "buffer \<Rightarrow> nat \<Rightarrow> nat \<Rightarrow> nat \<Rightarrow> parsed go" where
  "parseUint b pos byteSize len =
     (if len mod byteSize \<noteq> 0 then failed pos
      else go_bind (parse_values (\<lambda>i.
             if byteSize = 1 then go_bind (buf_index b (pos + i)) (\<lambda>v. Inr (VUint8 v))
             else go_bind (buf_slice b (pos + byteSize * i) (pos + byteSize * (i + 1))) (\<lambda>bs.
               Inr (if byteSize = 2 then VUint16 (word_of_nat (be_uint bs))
                    else if byteSize = 4 then VUint32 (word_of_nat (be_uint bs))
                    else VUint64 (word_of_nat (be_uint bs))))) (len div byteSize))
             (\<lambda>vs. succeed (NewUintNode (int byteSize) vs) (pos + len)))"

text \<open>\<open>str += string(v)\<close> for a byte \<open>v\<close> appends the UTF-8 encoding of the rune \<open>v\<close>.\<close>

definition utf8_of_byte :: "byte \<Rightarrow> string" where
  "utf8_of_byte v =
     (if unat v < 128 then [char_of_byte v]
      else [char_of (192 + unat v div 64), char_of (128 + unat v mod 64)])"

text \<open>The loop over the items of a list; it stops at the first one that is not ok.\<close>

fun parse_items :: "(nat \<Rightarrow> parsed go) \<Rightarrow> nat \<Rightarrow> nat \<Rightarrow> (item list \<times> bool \<times> nat) go" where
  "parse_items p 0 pos = Inr ([], True, pos)"
| "parse_items p (Suc n) pos = go_bind (p pos) (\<lambda>(x, ok, pos').
      if \<not> ok then Inr ([], False, pos')
      else go_bind (parse_items p n pos') (\<lambda>(xs, ok', pos'').
        Inr (x # xs, ok', pos'')))"

definition parse_list :: "(nat \<Rightarrow> parsed go) \<Rightarrow> nat \<Rightarrow> nat \<Rightarrow> parsed go" where
  "parse_list p n pos = go_bind (parse_items p n pos) (\<lambda>(xs, ok, pos').
     if \<not> ok then failed pos' else succeed (NewListNode (map VItem xs)) pos')"

definition parse_leaf :: "buffer \<Rightarrow> byte \<Rightarrow> nat \<Rightarrow> nat \<Rightarrow> parsed go" where
  "parse_leaf b formatCode len pos =
     (if formatCode = 16 then
        go_bind (buf_slice b pos (pos + len)) (\<lambda>bs.
          succeed (NewASCIINode (concat (map utf8_of_byte bs))) (pos + len))
      else if formatCode = 8 then
        go_bind (buf_slice b pos (pos + len)) (\<lambda>bs.
          succeed (NewBinaryNode (map VUint8 bs)) (pos + len))
      else if formatCode = 9 then
        go_bind (buf_slice b pos (pos + len)) (\<lambda>bs.
          succeed (NewBooleanNode (map (\<lambda>v. VBool (v \<noteq> 0)) bs)) (pos + len))
      else if formatCode = 36 then parseFloat b pos 4 len
      else if formatCode = 32 then parseFloat b pos 8 len
      else if formatCode = 25 then parseInt b pos 1 len
      else if formatCode = 26 then parseInt b pos 2 len
      else if formatCode = 28 then parseInt b pos 4 len
      else if formatCode = 24 then parseInt b pos 8 len
      else if formatCode = 41 then parseUint b pos 1 len
      else if formatCode = 42 then parseUint b pos 2 len
      else if formatCode = 44 then parseUint b pos 4 len
      else if formatCode = 40 then parseUint b pos 8 len
      else failed pos)"

text \<open>One call of \<open>parseMessageText\<close>; \<open>p\<close> is the recursive call.\<close>

definition parse_item :: "(nat \<Rightarrow> parsed go) \<Rightarrow> buffer \<Rightarrow> nat \<Rightarrow> nat \<Rightarrow> parsed go" where
  "parse_item p b msgLength pos =
     (if msgLength = 10 then Inr (EmptyNode, True, pos)
      else go_bind (buf_index b pos) (\<lambda>c.
        let formatCode = drop_bit 2 c; lengthBytesCount = unat (and c 3) in
        if lengthBytesCount = 0 then failed pos
        else go_bind (buf_slice b (pos + 1) (pos + 1 + lengthBytesCount)) (\<lambda>lengthBytes.
          let len = parse_length lengthBytes; pos' = pos + 1 + lengthBytesCount in
          if formatCode = 0 then parse_list p len pos'
          else parse_leaf b formatCode len pos')))"

fun parseMessageText :: "nat \<Rightarrow> buffer \<Rightarrow> nat \<Rightarrow> nat \<Rightarrow> parsed go" where
  "parseMessageText 0 b msgLength pos = Inl NoFuel"
| "parseMessageText (Suc fuel) b msgLength pos =
     parse_item (parseMessageText fuel b msgLength) b msgLength pos"

section \<open>The message\<close>

text \<open>\<open>parseMessage\<close> returns the message it stored, if any, and \<open>ok\<close>.\<close>

definition parseMessage :: "buffer \<Rightarrow> nat \<Rightarrow> (hsms_message option \<times> bool) go" where
  "parseMessage b msgLength =
     go_bind (buf_slice b 4 14) (\<lambda>h.
       if h ! 4 \<noteq> 0 then Inr (None, False)
       else if h ! 5 = 0 then
         let stream = uint (and (h ! 2) 127);
             function = uint (h ! 3);
             waitBit = uint (drop_bit 7 (h ! 2));
             sessionID = int (be_uint (take 2 h));
             systemBytes = slice 6 10 h
         in go_bind (parseMessageText (Suc (length (buf_len b))) b msgLength 14) (\<lambda>(dataItem, ok, pos).
              if \<not> ok then Inr (None, False)
              else go_bind (NewHSMSDataMessage [] stream function waitBit ''H<->E'' dataItem sessionID systemBytes)
                     (\<lambda>m. Inr (Some (DataMsg m), True)))
       else if h ! 5 \<in> {1, 2, 3, 4, 5, 6, 7, 9} then
         go_bind (NewHSMSControlMessage h) (\<lambda>m. Inr (Some m, True))
       else Inr (None, False))"

definition parseMessageLength :: "buffer \<Rightarrow> nat option" where
  "parseMessageLength b =
     (if length (buf_len b) < 14 then None
      else let n = be_uint (take 4 (buf_len b)) in
        if length (buf_len b) - 4 = n then Some n else None)"

text \<open>\<open>Parse\<close> with its deferred \<open>recover\<close>: a panic leaves \<open>ok = false\<close> and the zero message. Running
  out of fuel is kept apart.\<close>

definition Parse_go :: "buffer \<Rightarrow> (hsms_message option \<times> bool) go" where
  "Parse_go b = (case parseMessageLength b of
      None \<Rightarrow> Inr (None, False)
    | Some n \<Rightarrow> parseMessage b n)"

definition Parse :: "buffer \<Rightarrow> hsms_message option \<times> bool" where
  "Parse b = (case Parse_go b of Inl e \<Rightarrow> (None, False) | Inr r \<Rightarrow> r)"

section \<open>Termination: the fuel is enough\<close>

lemma leaf_fuel_ok:
  "fuel_ok (parse_leaf b c len pos)"
  by (auto simp: parse_leaf_def parseFloat_def parseInt_def parseUint_def failed_def succeed_def
      parse_values_def buf_slice_def buf_index_def
      intro!: fuel_ok_bind go_map_fuel_ok intro: fuel_free)

lemma succeed_fuel_ok: "fuel_ok it \<Longrightarrow> fuel_ok (succeed it pos)"
  by (auto simp: succeed_def intro!: fuel_ok_bind)

lemma parse_items_fuel_ok:
  assumes "\<And>q. pos \<le> q \<Longrightarrow> fuel_ok (p q)" and "\<And>q x ok q'. p q = Inr (x, ok, q') \<Longrightarrow> q \<le> q'"
  shows "fuel_ok (parse_items p n pos)"
  using assms(1)
proof (induction n arbitrary: pos)
  case (Suc n)
  have "fuel_ok (p pos)" by (rule Suc.prems) simp
  moreover have "fuel_ok (parse_items p n q)" if "p pos = Inr (x, ok, q)" for x ok q
  proof (rule Suc.IH)
    fix q' assume "q \<le> q'"
    moreover have "pos \<le> q" using that by (rule assms(2))
    ultimately show "fuel_ok (p q')" using Suc.prems by simp
  qed
  ultimately show ?case by (auto intro!: fuel_ok_bind)
qed simp

lemma parse_items_pos:
  assumes "\<And>q x ok q'. p q = Inr (x, ok, q') \<Longrightarrow> q \<le> q'"
  shows "parse_items p n pos = Inr (xs, ok, pos') \<Longrightarrow> pos \<le> pos'"
proof (induction n arbitrary: pos xs)
  case (Suc n)
  then obtain x ok1 q where p: "p pos = Inr (x, ok1, q)"
    and r: "(\<not> ok1 \<and> pos' = q) \<or> (\<exists>ys. parse_items p n q = Inr (ys, ok, pos'))"
    by (auto simp: go_bind_Inr_iff split: if_splits)
  from p have "pos \<le> q" by (rule assms)
  with r Suc.IH show ?case by fastforce
qed simp

lemma leaf_pos: "parse_leaf b c len pos = Inr (x, ok, pos') \<Longrightarrow> pos \<le> pos'"
  by (auto simp: parse_leaf_def parseFloat_def parseInt_def parseUint_def failed_def succeed_def
      go_bind_Inr_iff split: if_splits)

lemma buf_fuel_ok [fuel_free]: "fuel_ok (buf_index b i)" "fuel_ok (buf_slice b lo hi)"
  by (simp_all add: buf_index_def buf_slice_def fuel_free)

lemma parse_item_cases:
  obtains (empty) "n = 10" and "parse_item p b n pos = Inr (EmptyNode, True, pos)"
    | (panic) s where "parse_item p b n pos = Inl (Panic s)"
    | (fail) "parse_item p b n pos = failed pos"
    | (list) len k where "pos < length (buf_len b)" and "0 < k"
        and "parse_item p b n pos = parse_list p len (pos + 1 + k)"
    | (leaf) c len k where "pos < length (buf_len b)" and "0 < k"
        and "parse_item p b n pos = parse_leaf b c len (pos + 1 + k)"
proof (cases "n = 10")
  case True
  then show thesis using empty by (simp add: parse_item_def)
next
  case False
  from buf_fuel_ok(1) [of b pos] show thesis
  proof (cases rule: fuel_ok_cases)
    case (panic s)
    then show thesis using False that(2) by (simp add: parse_item_def)
  next
    case (ok c)
    define k where "k = unat (and c 3)"
    have lt: "pos < length (buf_len b)"
      using ok by (simp add: buf_index_def go_index_def split: if_splits)
    show thesis
    proof (cases "k = 0")
      case True
      then show thesis using False ok fail by (simp add: parse_item_def k_def)
    next
      case k: False
      from buf_fuel_ok(2) [of b "pos + 1" "pos + 1 + k"] show thesis
      proof (cases rule: fuel_ok_cases)
        case (panic s)
        then show thesis using False ok k that(2) by (simp add: parse_item_def k_def)
      next
        case lb: (ok lb)
        have "parse_item p b n pos =
            (if drop_bit 2 c = 0 then parse_list p (parse_length lb) (pos + 1 + k)
             else parse_leaf b (drop_bit 2 c) (parse_length lb) (pos + 1 + k))"
          using False ok k lb by (simp add: parse_item_def k_def Let_def)
        then show thesis using list [of k] leaf [of k] lt k by (cases "drop_bit 2 c = 0") auto
      qed
    qed
  qed
qed

lemma parse_list_pos:
  assumes "\<And>q x ok q'. p q = Inr (x, ok, q') \<Longrightarrow> q \<le> q'"
    and "parse_list p n pos = Inr (x, ok, pos')"
  shows "pos \<le> pos'"
proof -
  obtain xs ok' where "parse_items p n pos = Inr (xs, ok', pos')"
    using assms(2) by (auto simp: parse_list_def go_bind_Inr_iff failed_def succeed_def split: if_splits)
  with assms(1) show ?thesis by (rule parse_items_pos)
qed

lemma parseMessageText_pos:
  "parseMessageText fuel b n pos = Inr (x, ok, pos') \<Longrightarrow> pos \<le> pos'"
proof (induction fuel arbitrary: pos x ok pos')
  case (Suc fuel)
  show ?case
  proof (cases rule: parse_item_cases [of n "parseMessageText fuel b n" b pos])
    case (list len k)
    then have "pos + 1 + k \<le> pos'" using Suc.prems parse_list_pos [OF Suc.IH] by simp
    then show ?thesis by simp
  next
    case (leaf c len k)
    then have "pos + 1 + k \<le> pos'" using Suc.prems leaf_pos by simp
    then show ?thesis by simp
  qed (use Suc.prems in \<open>auto simp: failed_def\<close>)
qed simp

lemma parseMessageText_fuel:
  "length (buf_len b) - pos < fuel \<Longrightarrow> fuel_ok (parseMessageText fuel b n pos)"
proof (induction fuel arbitrary: pos)
  case (Suc fuel)
  show ?case
  proof (cases rule: parse_item_cases [of n "parseMessageText fuel b n" b pos])
    case (list len k)
    have "fuel_ok (parse_items (parseMessageText fuel b n) len (pos + 1 + k))"
    proof (rule parse_items_fuel_ok)
      fix q assume "pos + 1 + k \<le> q"
      then have "length (buf_len b) - q < fuel" using list Suc.prems by linarith
      then show "fuel_ok (parseMessageText fuel b n q)" by (rule Suc.IH)
    qed (rule parseMessageText_pos)
    then show ?thesis
      by (auto simp: list parse_list_def failed_def succeed_def intro!: fuel_ok_bind intro: fuel_free)
  qed (simp_all add: failed_def leaf_fuel_ok)
qed simp

lemma checkRep_fuel_ok [fuel_free]: "fuel_ok (checkRep m)"
  by (simp add: checkRep_def)

lemma NewHSMSDataMessage_fuel_ok [fuel_free]:
  "fuel_ok (NewHSMSDataMessage n s f w d i sid sb)"
  by (auto simp: NewHSMSDataMessage_def checked_def intro!: fuel_ok_bind intro: fuel_free)

lemma parseMessage_fuel_ok: "fuel_ok (parseMessage b n)"
proof -
  have t: "fuel_ok (parseMessageText (Suc (length (buf_len b))) b n 14)"
    by (rule parseMessageText_fuel) simp
  show ?thesis
    by (auto simp: parseMessage_def Let_def NewHSMSControlMessage_def
        simp del: parseMessageText.simps intro!: fuel_ok_bind t fuel_free)
qed

end
