(* ===== verification/Hsms_Roundtrip.thy ===== *)
theory Hsms_Roundtrip
  imports Hsms_Parser
begin

text \<open>
  The decoder against the encoder: an item whose data take at most 255 bytes at every level, and a
  message that carries one, decode to what was encoded, whatever bytes surround them in the buffer.
  \<open>short_item\<close> is that bound; \<open>canon\<close> rounds the values of a four-byte float item to single
  precision, which is what its encoding keeps.
\<close>

section \<open>Short items and their canonical form\<close>

fun short_item :: "item \<Rightarrow> bool" where
  "short_item EmptyNode = True"
| "short_item (ANode n) = (length (an_value n) < 256)"
| "short_item (BNode n) = (length (bn_values n) < 256)"
| "short_item (TNode n) = (length (tn_values n) < 256)"
| "short_item (FNode n) = (fn_byteSize n * int (length (fn_values n)) < 256)"
| "short_item (INode n) = (in_byteSize n * int (length (in_values n)) < 256)"
| "short_item (UNode n) = (un_byteSize n * int (length (un_values n)) < 256)"
| "short_item (LNode xs vs s) = (length xs < 256 \<and> (\<forall>x \<in> set xs. short_item x))"

fun canon :: "item \<Rightarrow> item" where
  "canon (FNode n) = FNode (if fn_byteSize n = 4
     then n\<lparr>fn_values := map (\<lambda>v. f64_of_f32 (f32_of_f64 v)) (fn_values n)\<rparr> else n)"
| "canon (LNode xs vs s) = LNode (map canon xs) vs s"
| "canon it = it"

section \<open>Reading a header and a group of bytes\<close>

definition header_codes :: "int set" where
  "header_codes = {0, 8, 9, 16, 24, 25, 26, 28, 32, 36, 40, 41, 42, 44}"

lemma format_byte:
  assumes "code \<in> header_codes"
  shows "drop_bit 2 (word_of_int (code * 4 + 1) :: byte) = word_of_int code"
    and "unat (and (word_of_int (code * 4 + 1)) 3 :: byte) = 1"
  using assms by (auto simp: header_codes_def)

lemma parse_length_1 [simp]: "parse_length [w] = unat w"
  by (simp add: parse_length_def)

lemma short_header:
  assumes "format_code typ = Some code" and "getDataByteLength typ count = int n" and "n < 256"
  shows "getHeaderBytes typ count = Inr [word_of_int (code * 4 + 1), word_of_nat n]"
proof -
  have "getHeaderBytes typ count = Inr (word_of_int (code * 4 + int (length_bytes_count (int n)))
           # be_bytes (length_bytes_count (int n)) (word_of_int (int n)))"
    unfolding assms(2) [symmetric] using assms by (intro getHeaderBytes_eq) (simp_all add: MAX_BYTE_SIZE_def)
  moreover have "length_bytes_count (int n) = 1" using assms(3) by (simp add: length_bytes_count_def)
  moreover have "(ucast (word_of_nat n :: 64 word) :: byte) = word_of_nat n"
    by (rule unsigned_word_eqI [where 'a = nat])
       (use assms(3) in \<open>simp add: unsigned_ucast_eq unat_word_of_nat_less take_bit_nat_eq_self\<close>)
  then have "be_bytes 1 (word_of_int (int n)) = [word_of_nat n]"
    by (simp add: be_bytes_def)
  ultimately show ?thesis by simp
qed

lemma parse_item_header:
  assumes b: "buf_len b = pre @ [word_of_int (code * 4 + 1), word_of_nat n] @ rest"
    and code: "code \<in> header_codes" and n: "n < 256" and "msgLength \<noteq> 10"
  shows "parse_item p b msgLength (length pre) =
    (if code = 0 then parse_list p n (length pre + 2)
     else parse_leaf b (word_of_int code) n (length pre + 2))"
proof -
  have i: "buf_index b (length pre) = Inr (word_of_int (code * 4 + 1))"
    by (simp add: buf_index_def b)
  have "buf_slice b (length pre + 1) (length pre + 2) = Inr [word_of_nat n]"
    using go_slice_append [of "length pre + 1" "pre @ [word_of_int (code * 4 + 1)]" "length pre + 2"
        "[word_of_nat n]" "rest @ buf_spare b"]
    by (simp add: buf_slice_def b)
  moreover have "unat (word_of_nat n :: byte) = n" using n by (simp add: unat_word_of_nat_less)
  moreover have "word_of_int code = (0::byte) \<longleftrightarrow> code = 0"
    using code by (auto simp: header_codes_def)
  ultimately show ?thesis
    using assms(4) i format_byte [OF code] by (simp add: parse_item_def)
qed

lemma length_concat_groups:
  "(\<And>w. w \<in> set ws \<Longrightarrow> length (enc w) = k) \<Longrightarrow> length (concat (map enc ws)) = k * length ws"
  by (induction ws) simp_all

lemma group_slice:
  assumes b: "buf_len b = pre @ concat (map enc ws) @ post" and i: "i < length ws"
    and k: "\<And>w. length (enc w) = k"
  shows "buf_slice b (length pre + k * i) (length pre + k * (i + 1)) = Inr (enc (ws ! i))"
proof -
  let ?a = "concat (map enc (take i ws))" and ?z = "concat (map enc (drop (Suc i) ws))"
  have "ws = take i ws @ ws ! i # drop (Suc i) ws" using i by (rule id_take_nth_drop)
  then have "concat (map enc ws) = ?a @ enc (ws ! i) @ ?z"
    by (metis concat.simps(2) concat_append list.simps(9) map_append)
  moreover have "length ?a = k * i" using i k by (simp add: length_concat_groups)
  ultimately show ?thesis
    using go_slice_append [of "length pre + k * i" "pre @ ?a" "length pre + k * (i + 1)" "enc (ws ! i)"
        "?z @ post @ buf_spare b"] k [of "ws ! i"]
    by (simp add: buf_slice_def b)
qed

lemma payload_slice:
  assumes "buf_len b = pre @ bs @ post"
  shows "buf_slice b (length pre) (length pre + length bs) = Inr bs"
  using go_slice_append [of "length pre" pre "length pre + length bs" bs "post @ buf_spare b"]
  by (simp add: buf_slice_def assms)

lemma payload_index:
  assumes "buf_len b = pre @ bs @ post" and "i < length bs"
  shows "buf_index b (length pre + i) = Inr (bs ! i)"
  using assms by (simp add: buf_index_def go_index_def nth_append)

section \<open>The values that come back\<close>

lemma word_of_nat_mod:
  "(word_of_nat (unat (w :: 64 word) mod 2 ^ LENGTH('b::len)) :: 'b word) = ucast w"
  by (rule unsigned_word_eqI [where 'a = nat]) (simp add: unsigned_ucast_eq unat_of_nat take_bit_eq_mod)

lemma scast_ucast:
  fixes w :: "64 word"
  assumes "LENGTH('b::len) \<le> 64"
    and "- (2 ^ (LENGTH('b) - 1)) \<le> sint w" and "sint w < 2 ^ (LENGTH('b) - 1)"
  shows "scast (ucast w :: 'b word) = w"
proof (rule signed_word_eqI [where 'a = int])
  have "sint (ucast w :: 'b word) = signed_take_bit (LENGTH('b) - 1) (uint w)"
    by (simp add: signed_ucast_eq)
  also have "\<dots> = signed_take_bit (LENGTH('b) - 1) (sint w)"
    using assms(1) by (simp add: uint_sint signed_take_bit_take_bit)
  also have "\<dots> = sint w"
    using assms(2,3) by (simp add: signed_take_bit_int_eq_self_iff)
  finally have s: "sint (ucast w :: 'b word) = sint w" .
  have "sint (scast (ucast w :: 'b word) :: 64 word) = signed_take_bit 63 (sint w)"
    using signed_scast_eq [where ?'a = int and ?'c = 64, of "ucast w :: 'b word"] s by simp
  also have "\<dots> = sint w"
    using sint_greater_eq [of w] sint_less [of w] by (simp add: signed_take_bit_int_eq_self_iff)
  finally show "sint (scast (ucast w :: 'b word) :: 64 word) = sint w" .
qed

lemma ucast_ucast:
  fixes w :: "64 word"
  assumes "unat w < 2 ^ LENGTH('b::len)"
  shows "ucast (ucast w :: 'b word) = w"
proof (rule unsigned_word_eqI [where 'a = nat])
  have "unat w < 2 ^ LENGTH(64)" by (rule unsigned_less)
  then show "unat (ucast (ucast w :: 'b word) :: 64 word) = unat w"
    unfolding unsigned_ucast_eq [where ?'a = nat] using assms(1)
    by (simp only: take_bit_nat_eq_self)
qed

section \<open>Leaves\<close>

lemma leaf_roundtrip:
  assumes it: "ToBytes it = [word_of_int (code * 4 + 1), word_of_nat k] @ payload"
    and "length payload = k" and "k < 256" and "code \<in> header_codes" and "code \<noteq> 0"
    and "msgLength \<noteq> 10"
    and leaf: "\<And>pre post. buf_len b = pre @ payload @ post \<Longrightarrow>
      parse_leaf b (word_of_int code) k (length pre) = Inr (x, True, length pre + k)"
    and b: "buf_len b = pre @ ToBytes it @ post"
  shows "parse_item p b msgLength (length pre) = Inr (x, True, length pre + length (ToBytes it))"
proof -
  let ?pre = "pre @ [word_of_int (code * 4 + 1), word_of_nat k]"
  have "buf_len b = ?pre @ payload @ post" by (simp add: b it)
  from leaf [OF this] have "parse_leaf b (word_of_int code) k (length pre + 2)
      = Inr (x, True, length pre + 2 + k)" by simp
  moreover have "buf_len b = pre @ [word_of_int (code * 4 + 1), word_of_nat k] @ payload @ post"
    by (simp add: b it)
  note parse_item_header [OF this assms(4,3,6)]
  ultimately show ?thesis using assms(2,5) by (simp add: it)
qed

lemma utf8_ascii: "ascii_string s \<Longrightarrow> concat (map utf8_of_byte (map word_of_nat (runes s))) = s"
  by (simp add: runes_ascii ascii_string_def)
     (induction s, auto simp: utf8_of_byte_def unat_word_of_nat_less char_of_byte_def)

lemma ascii_leaf:
  assumes "ascii_string s" and "length s < 256"
    and b: "buf_len b = pre @ map word_of_nat (runes s) @ post"
  shows "parse_leaf b 16 (length s) (length pre) =
    Inr (ANode \<lparr>an_value = s, an_name = [], an_min = 0, an_max = 0, an_isValue = True,
      an_symbol = ''ascii''\<rparr>, True, length pre + length s)"
  using payload_slice [OF b] assms(1,2) utf8_ascii [OF assms(1)]
  by (simp add: parse_leaf_def succeed_def NewASCIINode_ok MAX_BYTE_SIZE_def runes_ascii
      del: map_map)

lemma binary_leaf:
  assumes "list_all (\<lambda>v. 0 \<le> v \<and> v < 256) xs" and "length xs < 256"
    and b: "buf_len b = pre @ map word_of_int xs @ post"
  shows "parse_leaf b 8 (length xs) (length pre) =
    Inr (BNode \<lparr>bn_values = xs, bn_variables = [], bn_symbol = ''binary''\<rparr>, True, length pre + length xs)"
proof -
  have "NewBinaryNode (map VUint8 (map word_of_int xs)) = Inr (BNode \<lparr>bn_values =
      map (\<lambda>v. case v of VUint8 w \<Rightarrow> uint w) (map VUint8 (map word_of_int xs)), bn_variables = [],
      bn_symbol = ''binary''\<rparr>)"
  proof (rule NewBinaryNode_ok)
    fix a assume "a \<in> set (map VUint8 (map word_of_int xs))"
    then obtain w where "a = VUint8 w" by auto
    then show "binary_value a = Inr (Inl (case a of VUint8 w \<Rightarrow> uint w))"
      and "0 \<le> (case a of VUint8 w \<Rightarrow> uint w) \<and> (case a of VUint8 w \<Rightarrow> uint w) < 256"
      using uint_lt2p [of w] by (simp_all add: binary_value_def)
  qed (use assms(2) in \<open>simp add: MAX_BYTE_SIZE_def\<close>)
  moreover have "map (\<lambda>v. case v of VUint8 w \<Rightarrow> uint w) (map VUint8 (map word_of_int xs)) = xs"
    using assms(1) by (induction xs) (simp_all add: uint_word_of_int)
  ultimately show ?thesis
    using payload_slice [OF b] by (simp add: parse_leaf_def succeed_def comp_def)
qed

lemma boolean_leaf:
  assumes "length xs < 256" and b: "buf_len b = pre @ map (\<lambda>b. if b then 1 else 0) xs @ post"
  shows "parse_leaf b 9 (length xs) (length pre) =
    Inr (TNode \<lparr>tn_values = xs, tn_variables = [], tn_symbol = ''boolean''\<rparr>, True, length pre + length xs)"
proof -
  have "map (\<lambda>v. VBool (v \<noteq> 0)) (map (\<lambda>b. if b then 1 else 0 :: byte) xs) = map VBool xs" by auto
  then show ?thesis
    using payload_slice [OF b] assms(1) NewBooleanNode_ok [of xs]
    by (simp add: parse_leaf_def succeed_def MAX_BYTE_SIZE_def del: map_map)
qed

text \<open>The groups of the sized items: \<open>g\<close> is what the parser makes of one group.\<close>

lemma parse_values_groups:
  assumes "\<And>i. i < length ws \<Longrightarrow> f i = Inr (g (ws ! i))"
  shows "parse_values f (length ws) = Inr (map g ws)"
proof -
  have "parse_values f (length ws) = Inr (map (\<lambda>i. g (ws ! i)) [0..<length ws])"
    unfolding parse_values_def by (rule go_map_all_Inr) (simp add: assms)
  also have "map (\<lambda>i. g (ws ! i)) [0..<length ws] = map g (map ((!) ws) [0..<length ws])" by simp
  finally show ?thesis by (simp add: map_nth)
qed

lemma be_1 [simp]: "be_bytes (Suc 0) w = [ucast w]"
  by (simp add: be_bytes_def)

lemma pow_256:
  "(256::nat) ^ 2 = 2 ^ LENGTH(16)" "(256::nat) ^ 4 = 2 ^ LENGTH(32)" "(256::nat) ^ 8 = 2 ^ LENGTH(64)"
  by simp_all

definition int_of_group :: "nat \<Rightarrow> 64 word \<Rightarrow> goval" where
  "int_of_group k w = (if k = 1 then VInt8 (ucast w) else if k = 2 then VInt16 (ucast w)
     else if k = 4 then VInt32 (ucast w) else VInt64 w)"

definition uint_of_group :: "nat \<Rightarrow> 64 word \<Rightarrow> goval" where
  "uint_of_group k w = (if k = 1 then VUint8 (ucast w) else if k = 2 then VUint16 (ucast w)
     else if k = 4 then VUint32 (ucast w) else VUint64 w)"

lemma word_of_be_uint:
  "(word_of_nat (be_uint (be_bytes 2 w)) :: 16 word) = ucast w"
  "(word_of_nat (be_uint (be_bytes 4 w)) :: 32 word) = ucast w"
  "(word_of_nat (be_uint (be_bytes 8 w)) :: 64 word) = w"
  unfolding be_uint_be_bytes pow_256 word_of_nat_mod by simp_all

lemma int_group_read:
  assumes b: "buf_len b = pre @ concat (map (be_bytes k) ws) @ post" and k: "k \<in> {1, 2, 4, 8}"
    and i: "i < length ws"
  shows "(if k = 1 then go_bind (buf_index b (length pre + i)) (\<lambda>v. Inr (VInt8 v))
     else go_bind (buf_slice b (length pre + k * i) (length pre + k * (i + 1))) (\<lambda>bs.
       Inr (if k = 2 then VInt16 (word_of_nat (be_uint bs))
            else if k = 4 then VInt32 (word_of_nat (be_uint bs))
            else VInt64 (word_of_nat (be_uint bs))))) = Inr (int_of_group k (ws ! i))"
    and "(if k = 1 then go_bind (buf_index b (length pre + i)) (\<lambda>v. Inr (VUint8 v))
     else go_bind (buf_slice b (length pre + k * i) (length pre + k * (i + 1))) (\<lambda>bs.
       Inr (if k = 2 then VUint16 (word_of_nat (be_uint bs))
            else if k = 4 then VUint32 (word_of_nat (be_uint bs))
            else VUint64 (word_of_nat (be_uint bs))))) = Inr (uint_of_group k (ws ! i))"
proof -
  have s: "buf_slice b (length pre + k * i) (length pre + k * (i + 1)) = Inr (be_bytes k (ws ! i))"
    by (rule group_slice [OF b i]) simp
  have x: "buf_index b (length pre + i) = Inr (ucast (ws ! i))" if "k = 1"
  proof -
    have c: "concat (map (be_bytes k) ws) = map ucast ws" using that by (induction ws) simp_all
    then show ?thesis using payload_index [OF b [unfolded c], of i] i by simp
  qed
  show "(if k = 1 then go_bind (buf_index b (length pre + i)) (\<lambda>v. Inr (VInt8 v))
     else go_bind (buf_slice b (length pre + k * i) (length pre + k * (i + 1))) (\<lambda>bs.
       Inr (if k = 2 then VInt16 (word_of_nat (be_uint bs))
            else if k = 4 then VInt32 (word_of_nat (be_uint bs))
            else VInt64 (word_of_nat (be_uint bs))))) = Inr (int_of_group k (ws ! i))"
    using s x k by (auto simp: int_of_group_def word_of_be_uint)
  show "(if k = 1 then go_bind (buf_index b (length pre + i)) (\<lambda>v. Inr (VUint8 v))
     else go_bind (buf_slice b (length pre + k * i) (length pre + k * (i + 1))) (\<lambda>bs.
       Inr (if k = 2 then VUint16 (word_of_nat (be_uint bs))
            else if k = 4 then VUint32 (word_of_nat (be_uint bs))
            else VUint64 (word_of_nat (be_uint bs))))) = Inr (uint_of_group k (ws ! i))"
    using s x k by (auto simp: uint_of_group_def word_of_be_uint)
qed

lemma len_div: "0 < k \<Longrightarrow> k * n div k = (n :: nat) \<and> k * n mod k = 0"
  by simp

lemma int_group_value:
  assumes "k \<in> {1, 2, 4, 8}" and "int_fits (int k) w"
  shows "int_value (int_of_group k w) = Inr (Inl w)"
  using assms scast_ucast [where 'b = 8, of w] scast_ucast [where 'b = 16, of w]
    scast_ucast [where 'b = 32, of w]
  by (auto simp: int_fits_def int_value_def int_of_group_def)

lemma uint_fits_iff:
  assumes "k \<in> {1, 2, 4, 8}"
  shows "uint_fits (int k) w \<longleftrightarrow> unat w < 2 ^ (8 * k)"
proof -
  have "unat w < 2 ^ 64" using unsigned_less [where ?'a = nat, of w] by simp
  then show ?thesis
    using assms by (auto simp: uint_fits_def word_le_nat_alt)
qed

lemma uint_group_value:
  assumes "k \<in> {1, 2, 4, 8}" and "uint_fits (int k) w"
  shows "uint_value (uint_of_group k w) = Inr (Inl w)"
proof -
  have "unat w < 2 ^ (8 * k)" using assms uint_fits_iff by blast
  then show ?thesis
    using assms(1) ucast_ucast [where 'b = 8, of w] ucast_ucast [where 'b = 16, of w]
      ucast_ucast [where 'b = 32, of w]
    by (auto simp: uint_value_def uint_of_group_def)
qed

lemma int_leaf:
  assumes k: "k \<in> {1, 2, 4, 8}" and fits: "list_all (int_fits (int k)) ws"
    and len: "k * length ws < 256" and b: "buf_len b = pre @ concat (map (be_bytes k) ws) @ post"
  shows "parseInt b (length pre) k (k * length ws) =
    Inr (INode \<lparr>in_byteSize = int k, in_values = ws, in_variables = [], in_symbol = ''i'' @ dec (int k)\<rparr>,
      True, length pre + k * length ws)"
proof -
  have "parse_values (\<lambda>i. if k = 1 then go_bind (buf_index b (length pre + i)) (\<lambda>v. Inr (VInt8 v))
     else go_bind (buf_slice b (length pre + k * i) (length pre + k * (i + 1))) (\<lambda>bs.
       Inr (if k = 2 then VInt16 (word_of_nat (be_uint bs))
            else if k = 4 then VInt32 (word_of_nat (be_uint bs))
            else VInt64 (word_of_nat (be_uint bs))))) (length ws) = Inr (map (int_of_group k) ws)"
    by (rule parse_values_groups) (rule int_group_read(1) [OF b k])
  moreover
  let ?f = "\<lambda>a. case int_value a of Inr (Inl w) \<Rightarrow> w"
  have v: "int_value (int_of_group k w) = Inr (Inl w)" if "w \<in> set ws" for w
    using int_group_value [OF k] fits that by (simp add: list_all_iff)
  have "NewIntNode (int k) (map (int_of_group k) ws) = Inr (INode \<lparr>in_byteSize = int k,
      in_values = map ?f (map (int_of_group k) ws), in_variables = [], in_symbol = ''i'' @ dec (int k)\<rparr>)"
  proof (rule NewIntNode_ok)
    show "int k * int (length (map (int_of_group k) ws)) \<le> MAX_BYTE_SIZE"
      using len by (simp add: MAX_BYTE_SIZE_def flip: of_nat_mult)
  qed (use k v fits in \<open>auto simp: list_all_iff\<close>)
  moreover have "map ?f (map (int_of_group k) ws) = ws" using v by (induction ws) auto
  ultimately show ?thesis
    using k by (auto simp: parseInt_def succeed_def)
qed

lemma uint_leaf:
  assumes k: "k \<in> {1, 2, 4, 8}" and fits: "list_all (uint_fits (int k)) ws"
    and len: "k * length ws < 256" and b: "buf_len b = pre @ concat (map (be_bytes k) ws) @ post"
  shows "parseUint b (length pre) k (k * length ws) =
    Inr (UNode \<lparr>un_byteSize = int k, un_values = ws, un_variables = [], un_symbol = ''u'' @ dec (int k)\<rparr>,
      True, length pre + k * length ws)"
proof -
  have "parse_values (\<lambda>i. if k = 1 then go_bind (buf_index b (length pre + i)) (\<lambda>v. Inr (VUint8 v))
     else go_bind (buf_slice b (length pre + k * i) (length pre + k * (i + 1))) (\<lambda>bs.
       Inr (if k = 2 then VUint16 (word_of_nat (be_uint bs))
            else if k = 4 then VUint32 (word_of_nat (be_uint bs))
            else VUint64 (word_of_nat (be_uint bs))))) (length ws) = Inr (map (uint_of_group k) ws)"
    by (rule parse_values_groups) (rule int_group_read(2) [OF b k])
  moreover
  let ?f = "\<lambda>a. case uint_value a of Inr (Inl w) \<Rightarrow> w"
  have v: "uint_value (uint_of_group k w) = Inr (Inl w)" if "w \<in> set ws" for w
    using uint_group_value [OF k] fits that by (simp add: list_all_iff)
  have "NewUintNode (int k) (map (uint_of_group k) ws) = Inr (UNode \<lparr>un_byteSize = int k,
      un_values = map ?f (map (uint_of_group k) ws), un_variables = [], un_symbol = ''u'' @ dec (int k)\<rparr>)"
  proof (rule NewUintNode_ok)
    show "int k * int (length (map (uint_of_group k) ws)) \<le> MAX_BYTE_SIZE"
      using len by (simp add: MAX_BYTE_SIZE_def flip: of_nat_mult)
  qed (use k v fits in \<open>auto simp: list_all_iff\<close>)
  moreover have "map ?f (map (uint_of_group k) ws) = ws" using v by (induction ws) auto
  ultimately show ?thesis
    using k by (auto simp: parseUint_def succeed_def)
qed

definition float_enc :: "nat \<Rightarrow> 64 word \<Rightarrow> byte list" where
  "float_enc k v = (if k = 4 then be_bytes 4 (ucast (f32_of_f64 v)) else be_bytes 8 v)"

definition float_canon :: "nat \<Rightarrow> 64 word \<Rightarrow> 64 word" where
  "float_canon k v = (if k = 4 then f64_of_f32 (f32_of_f64 v) else v)"

definition float_of_group :: "nat \<Rightarrow> 64 word \<Rightarrow> goval" where
  "float_of_group k v = (if k = 4 then VFloat32 (f32_of_f64 v) else VFloat64 v)"

lemma f64_finite_max32: "unat v mod 2 ^ 63 \<le> max_float32 \<Longrightarrow> f64_finite v"
proof -
  assume a: "unat v mod 2 ^ 63 \<le> max_float32"
  have "max_float32 < 2047 * 2 ^ 52" by (simp add: max_float32_def)
  with a have "unat v mod 2 ^ 63 < 2047 * 2 ^ 52" by linarith
  then show ?thesis unfolding f64_finite_def by (rule less_mult_imp_div_less)
qed

lemma f64_finite_max64: "f64_finite v \<Longrightarrow> unat v mod 2 ^ 63 \<le> max_float64"
proof -
  assume "f64_finite v"
  then have "unat v mod 2 ^ 63 div 2 ^ 52 < 2047" by (simp add: f64_finite_def)
  then have "unat v mod 2 ^ 63 < 2047 * 2 ^ 52" by (simp add: div_less_iff_less_mult)
  then show ?thesis by (simp add: max_float64_def)
qed

lemma float_canon_ok:
  assumes "k \<in> {4, 8}" and "f64_finite v" and "k = 4 \<longrightarrow> unat v mod 2 ^ 63 \<le> max_float32"
  shows "float_check_value (int k) (float_canon k v) = Inr ()"
proof (cases "k = 4")
  case True
  let ?w = "f32_of_f64 v"
  have w: "unat ?w mod 2 ^ 31 < 255 * 2 ^ 23" using assms(3) True f32_of_f64_finite by blast
  have "unat (f64_of_f32 ?w) mod 2 ^ 63 \<le> max_float32"
    unfolding f64_of_f32_parts(2) [OF w] by (rule widen_mag_le [OF w])
  with True show ?thesis
    using f64_finite_max32 [of "f64_of_f32 ?w"] by (simp add: float_check_value_def float_canon_def)
next
  case False
  with assms f64_finite_max64 [of v] show ?thesis
    by (auto simp: float_check_value_def float_canon_def)
qed

lemma float_group_read:
  assumes b: "buf_len b = pre @ concat (map (float_enc k) ws) @ post" and k: "k \<in> {4, 8}"
    and i: "i < length ws"
  shows "go_bind (buf_slice b (length pre + k * i) (length pre + k * (i + 1))) (\<lambda>bs.
       Inr (if k = 4 then VFloat32 (word_of_nat (be_uint bs)) else VFloat64 (word_of_nat (be_uint bs))))
     = Inr (float_of_group k (ws ! i))"
proof -
  have "length (float_enc k w) = k" for w using k by (auto simp: float_enc_def)
  then have s: "buf_slice b (length pre + k * i) (length pre + k * (i + 1)) = Inr (float_enc k (ws ! i))"
    by (rule group_slice [OF b i])
  have "(ucast (ucast (w :: 32 word) :: 64 word) :: 32 word) = w" for w
  proof (rule unsigned_word_eqI [where 'a = nat])
    have "unat w < 2 ^ LENGTH(32)" by (rule unsigned_less)
    then show "unat (ucast (ucast w :: 64 word) :: 32 word) = unat w"
      unfolding unsigned_ucast_eq [where ?'a = nat] by (simp add: take_bit_nat_eq_self)
  qed
  with s k show ?thesis by (auto simp: float_of_group_def float_enc_def word_of_be_uint)
qed

lemma float_leaf:
  assumes k: "k \<in> {4, 8}" and fin: "list_all f64_finite ws"
    and rng: "list_all (\<lambda>v. k = 4 \<longrightarrow> unat v mod 2 ^ 63 \<le> max_float32) ws"
    and len: "k * length ws < 256" and b: "buf_len b = pre @ concat (map (float_enc k) ws) @ post"
  shows "parseFloat b (length pre) k (k * length ws) =
    Inr (FNode \<lparr>fn_byteSize = int k, fn_values = map (float_canon k) ws, fn_variables = [],
      fn_symbol = ''f'' @ dec (int k)\<rparr>, True, length pre + k * length ws)"
proof -
  have "parse_values (\<lambda>i.
     go_bind (buf_slice b (length pre + k * i) (length pre + k * (i + 1))) (\<lambda>bs.
       Inr (if k = 4 then VFloat32 (word_of_nat (be_uint bs))
            else VFloat64 (word_of_nat (be_uint bs))))) (length ws) = Inr (map (float_of_group k) ws)"
    by (rule parse_values_groups) (rule float_group_read [OF b k])
  moreover
  let ?f = "\<lambda>a. case float_value a of Inr (Inl w) \<Rightarrow> w"
  have v: "float_value (float_of_group k w) = Inr (Inl (float_canon k w))" for w
    by (simp add: float_value_def float_of_group_def float_canon_def)
  have "NewFloatNode (int k) (map (float_of_group k) ws) = Inr (FNode \<lparr>fn_byteSize = int k,
      fn_values = map ?f (map (float_of_group k) ws), fn_variables = [], fn_symbol = ''f'' @ dec (int k)\<rparr>)"
  proof (rule NewFloatNode_ok)
    show "int k = 4 \<or> int k = 8" using k by auto
    show "float_check_value (int k) (?f a) = Inr ()" if "a \<in> set (map (float_of_group k) ws)" for a
    proof -
      from that obtain w where "w \<in> set ws" and a: "a = float_of_group k w" by auto
      then show ?thesis using float_canon_ok [OF k, of w] fin rng v by (simp add: list_all_iff)
    qed
    show "int k * int (length (map (float_of_group k) ws)) \<le> MAX_BYTE_SIZE"
      using len by (simp add: MAX_BYTE_SIZE_def flip: of_nat_mult)
  qed (auto simp: v)
  moreover have "map ?f (map (float_of_group k) ws) = map (float_canon k) ws" by (simp add: v)
  ultimately show ?thesis using k by (auto simp: parseFloat_def succeed_def)
qed

section \<open>Items\<close>

lemma codes:
  "format_code ''list'' = Some 0" "format_code ''binary'' = Some 8" "format_code ''boolean'' = Some 9"
  "format_code ''ascii'' = Some 16"
  "format_code ''i1'' = Some 25" "format_code ''i2'' = Some 26" "format_code ''i4'' = Some 28"
  "format_code ''i8'' = Some 24" "format_code ''u1'' = Some 41" "format_code ''u2'' = Some 42"
  "format_code ''u4'' = Some 44" "format_code ''u8'' = Some 40"
  "format_code ''f4'' = Some 36" "format_code ''f8'' = Some 32"
  by (simp_all add: format_code_def)

lemma short_with_header:
  assumes "format_code typ = Some code" and "getDataByteLength typ count = int n" and "n < 256"
  shows "with_header typ count p = [word_of_int (code * 4 + 1), word_of_nat n] @ p"
  by (simp add: with_header_def short_header [OF assms])

text \<open>The leaf cases: the encoding is the two header bytes and the data, and the decoder's reading of
  the data is one of the leaf lemmas.\<close>

definition reads_as :: "buffer \<Rightarrow> nat \<Rightarrow> item \<Rightarrow> item \<Rightarrow> bool" where
  "reads_as b msgLength it x \<longleftrightarrow> (\<forall>p pre post. buf_len b = pre @ ToBytes it @ post \<longrightarrow>
     parse_item p b msgLength (length pre) = Inr (x, True, length pre + length (ToBytes it)))"

lemma reads_as_leaf:
  assumes "ToBytes it = with_header typ count payload" and "format_code typ = Some code"
    and "getDataByteLength typ count = int k" and "k < 256" and "length payload = k"
    and "code \<in> header_codes" and "code \<noteq> 0" and "msgLength \<noteq> 10"
    and "\<And>pre post. buf_len b = pre @ payload @ post \<Longrightarrow>
      parse_leaf b (word_of_int code) k (length pre) = Inr (x, True, length pre + k)"
  shows "reads_as b msgLength it x"
proof -
  have it: "ToBytes it = [word_of_int (code * 4 + 1), word_of_nat k] @ payload"
    unfolding assms(1) by (rule short_with_header [OF assms(2,3,4)])
  show ?thesis
    unfolding reads_as_def using leaf_roundtrip [OF it assms(5,4,6,7,8), of b x] assms(9) by blast
qed

lemma reads_as_ascii:
  assumes "rep_ok (ANode n)" and "Variables (ANode n) = []" and "short_item (ANode n)" and "msgLength \<noteq> 10"
  shows "reads_as b msgLength (ANode n) (canon (ANode n))"
proof -
  have v: "an_isValue n" using assms(2) by (simp split: if_splits)
  have a: "ascii_string (an_value n)" using assms(1) v by simp
  have n: "\<lparr>an_value = an_value n, an_name = [], an_min = 0, an_max = 0, an_isValue = True,
      an_symbol = ''ascii''\<rparr> = n" using assms(1) v by simp
  show ?thesis
  proof (rule reads_as_leaf [where code = 16])
    show "ToBytes (ANode n) = with_header ''ascii'' (int (length (an_value n)))
        (map word_of_nat (runes (an_value n)))" using v by (simp add: ascii_ToBytes_def)
    show "parse_leaf b (word_of_int 16) (length (an_value n)) (length pre) =
        Inr (canon (ANode n), True, length pre + length (an_value n))"
      if "buf_len b = pre @ map word_of_nat (runes (an_value n)) @ post" for pre post
      using ascii_leaf [OF a _ that] assms(3) n by simp
  qed (use a assms(3,4) in \<open>simp_all add: codes header_codes_def runes_ascii\<close>)
qed

lemma reads_as_binary:
  assumes "rep_ok (BNode n)" and "Variables (BNode n) = []" and "short_item (BNode n)" and "msgLength \<noteq> 10"
  shows "reads_as b msgLength (BNode n) (canon (BNode n))"
proof -
  have n: "\<lparr>bn_values = bn_values n, bn_variables = [], bn_symbol = ''binary''\<rparr> = n"
    using assms(1,2) by simp
  show ?thesis
  proof (rule reads_as_leaf [where code = 8])
    show "ToBytes (BNode n) = with_header ''binary'' (int (length (bn_values n)))
        (map word_of_int (bn_values n))" using assms(2) by (simp add: binary_ToBytes_def)
    show "parse_leaf b (word_of_int 8) (length (bn_values n)) (length pre) =
        Inr (canon (BNode n), True, length pre + length (bn_values n))"
      if "buf_len b = pre @ map word_of_int (bn_values n) @ post" for pre post
      using binary_leaf [OF _ _ that] assms(1,3) n by simp
  qed (use assms(3,4) in \<open>simp_all add: codes header_codes_def\<close>)
qed

lemma reads_as_boolean:
  assumes "rep_ok (TNode n)" and "Variables (TNode n) = []" and "short_item (TNode n)" and "msgLength \<noteq> 10"
  shows "reads_as b msgLength (TNode n) (canon (TNode n))"
proof -
  have n: "\<lparr>tn_values = tn_values n, tn_variables = [], tn_symbol = ''boolean''\<rparr> = n"
    using assms(1,2) by simp
  show ?thesis
  proof (rule reads_as_leaf [where code = 9])
    show "ToBytes (TNode n) = with_header ''boolean'' (int (length (tn_values n)))
        (map (\<lambda>b. if b then 1 else 0) (tn_values n))" using assms(2) by (simp add: boolean_ToBytes_def)
    show "parse_leaf b (word_of_int 9) (length (tn_values n)) (length pre) =
        Inr (canon (TNode n), True, length pre + length (tn_values n))"
      if "buf_len b = pre @ map (\<lambda>b. if b then 1 else 0) (tn_values n) @ post" for pre post
      using boolean_leaf [OF _ that] assms(3) n by simp
  qed (use assms(3,4) in \<open>simp_all add: codes header_codes_def\<close>)
qed

lemma byte_size_nat: "s \<in> {1, 2, 4, 8} \<Longrightarrow> \<exists>k \<in> {1, 2, 4, 8}. s = int k"
  by auto

definition int_code :: "nat \<Rightarrow> int" where
  "int_code k = (if k = 1 then 25 else if k = 2 then 26 else if k = 4 then 28 else 24)"

definition uint_code :: "nat \<Rightarrow> int" where
  "uint_code k = (if k = 1 then 41 else if k = 2 then 42 else if k = 4 then 44 else 40)"

definition float_code :: "nat \<Rightarrow> int" where
  "float_code k = (if k = 4 then 36 else 32)"

lemma sized_codes:
  assumes "k \<in> {1, 2, 4, 8}"
  shows "format_code (''i'' @ dec (int k)) = Some (int_code k)"
    and "format_code (''u'' @ dec (int k)) = Some (uint_code k)"
    and "getDataByteLength (''i'' @ dec (int k)) (int n) = int (k * n)"
    and "getDataByteLength (''u'' @ dec (int k)) (int n) = int (k * n)"
    and "int_code k \<in> header_codes" and "int_code k \<noteq> 0"
    and "uint_code k \<in> header_codes" and "uint_code k \<noteq> 0"
    and "parse_leaf b (word_of_int (int_code k)) len pos = parseInt b pos k len"
    and "parse_leaf b (word_of_int (uint_code k)) len pos = parseUint b pos k len"
  using assms by (auto simp: codes int_code_def uint_code_def header_codes_def parse_leaf_def)

lemma float_codes:
  assumes "k \<in> {4, 8}"
  shows "format_code (''f'' @ dec (int k)) = Some (float_code k)"
    and "getDataByteLength (''f'' @ dec (int k)) (int n) = int (k * n)"
    and "float_code k \<in> header_codes" and "float_code k \<noteq> 0"
    and "parse_leaf b (word_of_int (float_code k)) len pos = parseFloat b pos k len"
  using assms by (auto simp: codes float_code_def header_codes_def parse_leaf_def)

lemma reads_as_int:
  assumes "rep_ok (INode n)" and "Variables (INode n) = []" and "short_item (INode n)" and "msgLength \<noteq> 10"
  shows "reads_as b msgLength (INode n) (canon (INode n))"
proof -
  have "in_byteSize n \<in> {1, 2, 4, 8}" using assms(1) by simp
  from byte_size_nat [OF this] obtain k where k: "k \<in> {1, 2, 4, 8}" "in_byteSize n = int k" ..
  let ?ws = "in_values n"
  have n: "\<lparr>in_byteSize = int k, in_values = ?ws, in_variables = [], in_symbol = ''i'' @ dec (int k)\<rparr> = n"
    using assms(1,2) k(2) by simp
  have len: "k * length ?ws < 256" using assms(3) k(2) by (simp flip: of_nat_mult)
  have fits: "list_all (int_fits (int k)) ?ws" using assms(1) k(2) by simp
  show ?thesis
  proof (rule reads_as_leaf)
    show "ToBytes (INode n) = with_header (''i'' @ dec (int k)) (int (length ?ws)) (concat (map (be_bytes k) ?ws))"
      using assms(2) k(2) by (simp add: int_ToBytes_def)
    show "length (concat (map (be_bytes k) ?ws)) = k * length ?ws" by (rule length_concat_groups) simp
    show "parse_leaf b (word_of_int (int_code k)) (k * length ?ws) (length pre)
        = Inr (canon (INode n), True, length pre + k * length ?ws)"
      if "buf_len b = pre @ concat (map (be_bytes k) ?ws) @ post" for pre post
      using int_leaf [OF k(1) fits len that] n by (simp add: sized_codes [OF k(1)])
  qed (rule sized_codes [OF k(1)] len assms(4))+
qed

lemma reads_as_uint:
  assumes "rep_ok (UNode n)" and "Variables (UNode n) = []" and "short_item (UNode n)" and "msgLength \<noteq> 10"
  shows "reads_as b msgLength (UNode n) (canon (UNode n))"
proof -
  have "un_byteSize n \<in> {1, 2, 4, 8}" using assms(1) by simp
  from byte_size_nat [OF this] obtain k where k: "k \<in> {1, 2, 4, 8}" "un_byteSize n = int k" ..
  let ?ws = "un_values n"
  have n: "\<lparr>un_byteSize = int k, un_values = ?ws, un_variables = [], un_symbol = ''u'' @ dec (int k)\<rparr> = n"
    using assms(1,2) k(2) by simp
  have len: "k * length ?ws < 256" using assms(3) k(2) by (simp flip: of_nat_mult)
  have fits: "list_all (uint_fits (int k)) ?ws" using assms(1) k(2) by simp
  show ?thesis
  proof (rule reads_as_leaf)
    show "ToBytes (UNode n) = with_header (''u'' @ dec (int k)) (int (length ?ws)) (concat (map (be_bytes k) ?ws))"
      using assms(2) k(2) by (simp add: uint_ToBytes_def)
    show "length (concat (map (be_bytes k) ?ws)) = k * length ?ws" by (rule length_concat_groups) simp
    show "parse_leaf b (word_of_int (uint_code k)) (k * length ?ws) (length pre)
        = Inr (canon (UNode n), True, length pre + k * length ?ws)"
      if "buf_len b = pre @ concat (map (be_bytes k) ?ws) @ post" for pre post
      using uint_leaf [OF k(1) fits len that] n by (simp add: sized_codes [OF k(1)])
  qed (rule sized_codes [OF k(1)] len assms(4))+
qed

lemma reads_as_float:
  assumes "rep_ok (FNode n)" and "Variables (FNode n) = []" and "short_item (FNode n)" and "msgLength \<noteq> 10"
  shows "reads_as b msgLength (FNode n) (canon (FNode n))"
proof -
  obtain k where k: "k \<in> {4, 8}" "fn_byteSize n = int k"
    using assms(1) that [of 4] that [of 8] by auto
  let ?ws = "fn_values n"
  have len: "k * length ?ws < 256" using assms(3) k(2) by (simp flip: of_nat_mult)
  have fin: "list_all f64_finite ?ws" and
    rng: "list_all (\<lambda>v. k = 4 \<longrightarrow> unat v mod 2 ^ 63 \<le> max_float32) ?ws"
    using assms(1) k(2) by (simp_all add: list_all_iff)
  have c: "canon (FNode n) = FNode \<lparr>fn_byteSize = int k, fn_values = map (float_canon k) ?ws,
      fn_variables = [], fn_symbol = ''f'' @ dec (int k)\<rparr>"
    using assms(1,2) k by (cases n) (auto simp: float_canon_def [abs_def])
  show ?thesis
  proof (rule reads_as_leaf)
    show "ToBytes (FNode n) = with_header (''f'' @ dec (int k)) (int (length ?ws)) (concat (map (float_enc k) ?ws))"
      using assms(2) k by (auto simp: float_ToBytes_def float_enc_def [abs_def])
    show "length (concat (map (float_enc k) ?ws)) = k * length ?ws"
      by (rule length_concat_groups) (use k(1) in \<open>auto simp: float_enc_def\<close>)
    show "parse_leaf b (word_of_int (float_code k)) (k * length ?ws) (length pre)
        = Inr (canon (FNode n), True, length pre + k * length ?ws)"
      if "buf_len b = pre @ concat (map (float_enc k) ?ws) @ post" for pre post
      using float_leaf [OF k(1) fin rng len that] c by (simp add: float_codes [OF k(1)])
  qed (rule float_codes [OF k(1)] len assms(4))+
qed

lemma canon_Variables: "Variables it = [] \<Longrightarrow> it \<noteq> EmptyNode \<Longrightarrow>
    canon it \<noteq> EmptyNode \<and> Variables (canon it) = []"
proof (induction it)
  case (LNode xs vs s)
  then have "\<forall>x \<in> set xs. x \<noteq> EmptyNode \<and> Variables x = []" by (simp add: Variables_from_eq_Nil)
  with LNode.IH show ?case by (simp add: Variables_from_eq_Nil)
qed auto

lemma list_without_variables:
  assumes "rep_ok (LNode xs vs s)" and "Variables (LNode xs vs s) = []"
  shows "vs = []" and "\<And>x. x \<in> set xs \<Longrightarrow> rep_ok x \<and> x \<noteq> EmptyNode \<and> Variables x = []"
proof -
  have n: "\<forall>x \<in> set xs. x \<noteq> EmptyNode \<and> Variables x = []"
    using assms(2) by (simp add: Variables_from_eq_Nil)
  then show "\<And>x. x \<in> set xs \<Longrightarrow> rep_ok x \<and> x \<noteq> EmptyNode \<and> Variables x = []"
    using assms(1) by auto
  show "vs = []"
  proof (cases vs)
    case (Cons v vs')
    then have "vars_ok (\<lambda>n. isValidVarName n \<or> isEllipsis n) (\<lambda>v. v = EmptyNode) xs ((fst v, snd v) # vs')"
      using assms(1) by simp
    from vars_ok_position [OF this] n show ?thesis by blast
  qed
qed

lemma list_ToBytes:
  assumes "rep_ok (LNode xs vs s)" and "Variables (LNode xs vs s) = []" and "length xs < 256"
  shows "ToBytes (LNode xs vs s) =
    [word_of_int (0 * 4 + 1), word_of_nat (length xs)] @ concat (map ToBytes xs)"
proof -
  have "ToBytes x \<noteq> []" if "x \<in> set xs" for x
    using list_without_variables(2) [OF assms(1,2) that] ToBytes_empty_iff by blast
  then show ?thesis
    using list_without_variables(1) [OF assms(1,2)] assms(3)
      short_header [OF codes(1), of "int (length xs)" "length xs"]
    by (simp add: items_ToBytes_eq)
qed

lemma parse_items_roundtrip:
  assumes "\<And>x pre post. x \<in> set xs \<Longrightarrow> buf_len b = pre @ ToBytes x @ post \<Longrightarrow>
      p (length pre) = Inr (canon x, True, length pre + length (ToBytes x))"
    and "buf_len b = pre @ concat (map ToBytes xs) @ post"
  shows "parse_items p (length xs) (length pre) =
    Inr (map canon xs, True, length pre + length (concat (map ToBytes xs)))"
  using assms
proof (induction xs arbitrary: pre)
  case (Cons x xs)
  have x: "p (length pre) = Inr (canon x, True, length pre + length (ToBytes x))"
    using Cons.prems(1) [of x pre "concat (map ToBytes xs) @ post"] Cons.prems(2) by simp
  have "parse_items p (length xs) (length (pre @ ToBytes x)) =
      Inr (map canon xs, True, length (pre @ ToBytes x) + length (concat (map ToBytes xs)))"
    by (rule Cons.IH) (use Cons.prems in auto)
  then show ?case using x by (simp add: add.assoc)
qed simp

lemma item_roundtrip:
  assumes "rep_ok it" and "Variables it = []" and "it \<noteq> EmptyNode" and "short_item it"
    and "msgLength \<noteq> 10" and "buf_len b = pre @ ToBytes it @ post" and "length (ToBytes it) \<le> fuel"
  shows "parseMessageText fuel b msgLength (length pre) =
    Inr (canon it, True, length pre + length (ToBytes it))"
  using assms
proof (induction it arbitrary: fuel pre post)
  case (LNode xs vs s)
  have n: "length xs < 256" using LNode.prems(4) by simp
  have e: "ToBytes (LNode xs vs s) =
      [word_of_int (0 * 4 + 1), word_of_nat (length xs)] @ concat (map ToBytes xs)"
    by (rule list_ToBytes [OF LNode.prems(1,2) n])
  then obtain f where f: "fuel = Suc f" and lf: "length (concat (map ToBytes xs)) \<le> f"
    using LNode.prems(7) unfolding e by (cases fuel) auto
  let ?h = "[word_of_int (0 * 4 + 1), word_of_nat (length xs)] :: byte list"
  have b: "buf_len b = pre @ ?h @ concat (map ToBytes xs) @ post"
    using LNode.prems(6) unfolding e by simp
  have b': "buf_len b = (pre @ ?h) @ concat (map ToBytes xs) @ post" using b by simp
  have "parse_items (parseMessageText f b msgLength) (length xs) (length (pre @ ?h)) =
      Inr (map canon xs, True, length (pre @ ?h) + length (concat (map ToBytes xs)))"
  proof (rule parse_items_roundtrip [OF _ b'])
    fix x pre' post' assume x: "x \<in> set xs" and "buf_len b = pre' @ ToBytes x @ post'"
    moreover have "length (ToBytes x) \<le> f"
      using lf x by (induction xs) auto
    moreover note list_without_variables(2) [OF LNode.prems(1,2) x]
    ultimately show "parseMessageText f b msgLength (length pre') =
        Inr (canon x, True, length pre' + length (ToBytes x))"
      using LNode.IH [OF x] LNode.prems(4,5) by simp
  qed
  moreover have "NewListNode (map VItem (map canon xs)) = Inr (LNode (map canon xs) [] ''list'')"
  proof (rule NewListNode_ok)
    have "\<forall>x \<in> set (map canon xs). x \<noteq> EmptyNode \<and> Variables x = []"
      using list_without_variables(2) [OF LNode.prems(1,2)] canon_Variables by auto
    then have "Variables (LNode (map canon xs) [] ''list'') = []"
      by (simp only: Variables.simps Variables_from_eq_Nil)
    then show "distinct (Variables (LNode (map canon xs) [] ''list''))" by simp
  qed (use n in \<open>simp add: MAX_BYTE_SIZE_def\<close>)
  ultimately have "parse_list (parseMessageText f b msgLength) (length xs) (length pre + 2) =
      Inr (LNode (map canon xs) [] ''list'', True, length pre + 2 + length (concat (map ToBytes xs)))"
    by (simp add: parse_list_def succeed_def)
  moreover have "canon (LNode xs vs s) = LNode (map canon xs) [] ''list''"
    using list_without_variables(1) [OF LNode.prems(1,2)] LNode.prems(1) by simp
  ultimately show ?case
    using parse_item_header [OF b _ n LNode.prems(5), of "parseMessageText f b msgLength"]
    unfolding e by (simp add: f header_codes_def)
next
  case EmptyNode
  then show ?case by simp
next
  case (ANode n)
  then show ?case using reads_as_ascii [of n msgLength b] ToBytes_empty_iff [of "ANode n"]
    by (cases fuel) (auto simp: reads_as_def simp del: ToBytes.simps)
next
  case (BNode n)
  then show ?case using reads_as_binary [of n msgLength b] ToBytes_empty_iff [of "BNode n"]
    by (cases fuel) (auto simp: reads_as_def simp del: ToBytes.simps)
next
  case (TNode n)
  then show ?case using reads_as_boolean [of n msgLength b] ToBytes_empty_iff [of "TNode n"]
    by (cases fuel) (auto simp: reads_as_def simp del: ToBytes.simps)
next
  case (FNode n)
  then show ?case using reads_as_float [of n msgLength b] ToBytes_empty_iff [of "FNode n"]
    by (cases fuel) (auto simp: reads_as_def simp del: ToBytes.simps canon.simps)
next
  case (INode n)
  then show ?case using reads_as_int [of n msgLength b] ToBytes_empty_iff [of "INode n"]
    by (cases fuel) (auto simp: reads_as_def simp del: ToBytes.simps)
next
  case (UNode n)
  then show ?case using reads_as_uint [of n msgLength b] ToBytes_empty_iff [of "UNode n"]
    by (cases fuel) (auto simp: reads_as_def simp del: ToBytes.simps)
qed

section \<open>Messages\<close>

definition frame :: "byte list \<Rightarrow> byte list \<Rightarrow> byte list" where
  "frame h body = be_bytes 4 (ucast (word_of_nat (length body + 10) :: 32 word)) @ h @ body"

lemma be_uint_length_word:
  assumes "n < 2 ^ 32"
  shows "be_uint (be_bytes 4 (ucast (word_of_nat n :: 32 word))) = n"
proof -
  have "unat (ucast (word_of_nat n :: 32 word) :: 64 word) = n"
    unfolding unsigned_ucast_eq [where ?'a = nat]
    using assms by (simp add: unat_word_of_nat_less take_bit_nat_eq_self)
  then show ?thesis using assms by (simp add: be_uint_be_bytes)
qed

lemma parse_frame_length:
  assumes "length h = 10" and "length body + 10 < 2 ^ 32"
  shows "parseMessageLength \<lparr>buf_len = frame h body, buf_spare = sp\<rparr> = Some (length body + 10)"
proof -
  have "be_uint (take 4 (frame h body)) = length body + 10"
    using be_uint_length_word [OF assms(2)] by (simp add: frame_def)
  then show ?thesis using assms(1) by (simp add: parseMessageLength_def frame_def)
qed

lemma frame_header:
  assumes "length h = 10"
  shows "buf_slice \<lparr>buf_len = frame h body, buf_spare = sp\<rparr> 4 14 = Inr h"
  using go_slice_append [of 4 "be_bytes 4 w" 14 h "body @ sp" for w] assms
  by (simp add: buf_slice_def frame_def)

lemma Parse_frame:
  assumes h: "length h = 10" and len: "length body + 10 < 2 ^ 32" and t: "h ! 4 = 0" "h ! 5 = 0"
    and body: "parseMessageText (Suc (length (frame h body))) \<lparr>buf_len = frame h body, buf_spare = sp\<rparr>
      (length body + 10) 14 = Inr (x, True, pos)"
    and m: "NewHSMSDataMessage [] (uint (and (h ! 2) 127)) (uint (h ! 3)) (uint (drop_bit 7 (h ! 2)))
      ''H<->E'' x (int (be_uint (take 2 h))) (slice 6 10 h) = Inr m"
  shows "Parse \<lparr>buf_len = frame h body, buf_spare = sp\<rparr> = (Some (DataMsg m), True)"
  using body m t
  by (simp add: Parse_def Parse_go_def parse_frame_length [OF h len] parseMessage_def
      frame_header [OF h] Let_def del: parseMessageText.simps)

lemma Parse_control_frame:
  assumes h: "length h = 10" and t: "h ! 4 = 0" "h ! 5 \<in> {1, 2, 3, 4, 5, 6, 7, 9}"
  shows "Parse \<lparr>buf_len = CtrlToBytes h, buf_spare = sp\<rparr> = (Some (CtrlMsg h), True)"
proof -
  have "CtrlToBytes h = frame h []" by (simp add: CtrlToBytes_def frame_def be_bytes_def upt_rec)
  moreover have "h ! 5 \<noteq> 0" using t(2) by auto
  ultimately show ?thesis
    using t parse_frame_length [OF h, of "[]" sp]
    by (simp add: Parse_def Parse_go_def parseMessage_def frame_header [OF h] NewHSMSControlMessage_def h)
qed

lemma session_bytes_read:
  assumes "0 \<le> s" and "s < 65536"
  shows "int (be_uint [word_of_int (s div 256), word_of_int s]) = s"
proof -
  have "be_uint [word_of_int (s div 256), word_of_int s] = nat (s div 256) mod 256 * 256 + nat s mod 256"
    using assms by (simp add: be_uint_Cons unat_byte_of_int pos_imp_zdiv_nonneg_iff)
  also have "nat (s div 256) = nat s div 256" using assms by (simp add: nat_div_distrib)
  also have "nat s div 256 mod 256 = nat s div 256" using assms by simp
  finally show ?thesis using assms by simp
qed

lemma header_byte2_read:
  assumes "0 \<le> st" and "st < 128" and "w = 0 \<or> w = 1"
  shows "uint (and (word_of_int (st + 128 * w) :: byte) 127) = st"
    and "uint (drop_bit 7 (word_of_int (st + 128 * w) :: byte)) = w"
proof -
  have u: "uint (word_of_int (st + 128 * w) :: byte) = st + 128 * w"
    unfolding uint_word_of_int using assms by auto
  have "(127::byte) = mask 7" by (simp add: mask_eq_exp_minus_1)
  then have a: "and (v :: byte) 127 = take_bit 7 v" for v by (simp only: take_bit_eq_mask)
  have f: "uint (and (v :: byte) 127) = uint v mod 128" for v
    unfolding a unsigned_take_bit_eq by (simp add: take_bit_eq_mod)
  show "uint (and (word_of_int (st + 128 * w) :: byte) 127) = st"
    unfolding f u using assms by auto
  have g: "uint (drop_bit 7 (v :: byte)) = uint v div 128" for v
    unfolding uint_nat unat_drop_bit_eq drop_bit_eq_div by (simp add: uint_div_distrib)
  show "uint (drop_bit 7 (word_of_int (st + 128 * w) :: byte)) = w"
    unfolding g u using assms by auto
qed

lemma message_header_read:
  assumes "checkRep m = Inr ()" and "sendable m"
  defines "h \<equiv> message_header m"
  shows "h ! 4 = 0" and "h ! 5 = 0" and "uint (and (h ! 2) 127) = dm_stream m"
    and "uint (h ! 3) = dm_function m" and "uint (drop_bit 7 (h ! 2)) = dm_waitBit m"
    and "int (be_uint (take 2 h)) = dm_sessionID m" and "slice 6 10 h = dm_systemBytes m"
proof -
  have r: "0 \<le> dm_stream m" "dm_stream m < 128" "0 \<le> dm_function m" "dm_function m < 256"
    "dm_waitBit m = 0 \<or> dm_waitBit m = 1" "0 \<le> dm_sessionID m" "dm_sessionID m < 65536"
    "length (dm_systemBytes m) = 4"
    using assms(1,2) by (auto simp: checkRep_Inr_iff sendable_def)
  show "h ! 4 = 0" "h ! 5 = 0" by (simp_all add: h_def message_header_def)
  show "uint (and (h ! 2) 127) = dm_stream m" "uint (drop_bit 7 (h ! 2)) = dm_waitBit m"
    using header_byte2_read [OF r(1,2,5)] by (simp_all add: h_def message_header_def header_byte2_def)
  show "uint (h ! 3) = dm_function m"
    using r by (simp add: h_def message_header_def uint_word_of_int)
  show "int (be_uint (take 2 h)) = dm_sessionID m"
    using session_bytes_read [OF r(6,7)] by (simp add: h_def message_header_def numeral_2_eq_2)
  show "slice 6 10 h = dm_systemBytes m"
    using r(8) by (simp add: h_def message_header_def slice_def eval_nat_numeral)
qed

definition received :: "data_message \<Rightarrow> item \<Rightarrow> data_message" where
  "received m x = m\<lparr>dm_name := [], dm_direction := ''H<->E'', dm_dataItem := x\<rparr>"

lemma NewHSMSDataMessage_received:
  assumes "checkRep m = Inr ()" and "sendable m" and "Variables x = []"
  shows "NewHSMSDataMessage [] (dm_stream m) (dm_function m) (dm_waitBit m) ''H<->E'' x
    (dm_sessionID m) (dm_systemBytes m) = Inr (received m x)"
proof -
  let ?m = "received m x"
  have "checkRep ?m = Inr ()"
    using assms(1) by (simp add: checkRep_Inr_iff received_def runes_def)
  moreover have "\<lparr>dm_name = [], dm_stream = dm_stream m, dm_function = dm_function m,
      dm_waitBit = dm_waitBit m, dm_direction = ''H<->E'', dm_dataItem = x,
      dm_sessionID = dm_sessionID m, dm_systemBytes = systemBytesCopy (dm_systemBytes m)\<rparr> = ?m"
    using assms(1) by (cases m) (simp add: received_def checkRep_Inr_iff)
  moreover have "dm_waitBit m = 0 \<or> dm_waitBit m = 1" "dm_sessionID m \<noteq> - 1"
    using assms(1,2) by (auto simp: checkRep_Inr_iff sendable_def)
  ultimately show ?thesis using assms(3) by (auto simp: NewHSMSDataMessage_def checked_def)
qed

lemma Parse_message:
  assumes "checkRep m = Inr ()" and "sendable m" and "Variables x = []"
    and "length body + 10 < 2 ^ 32"
    and "parseMessageText (Suc (length (frame (message_header m) body)))
      \<lparr>buf_len = frame (message_header m) body, buf_spare = sp\<rparr> (length body + 10) 14 = Inr (x, True, pos)"
  shows "Parse \<lparr>buf_len = frame (message_header m) body, buf_spare = sp\<rparr> =
    (Some (DataMsg (received m x)), True)"
  by (rule Parse_frame [OF _ assms(4) _ _ assms(5)])
     (use assms(1-3) in \<open>simp_all add: message_header_read NewHSMSDataMessage_received\<close>)

lemma frame_split: "frame h body = (be_bytes 4 (ucast (word_of_nat (length body + 10) :: 32 word)) @ h) @ body @ []"
  by (simp add: frame_def)

lemma Parse_ToBytes_gen:
  assumes "checkRep m = Inr ()" and "sendable m" and "rep_ok (dm_dataItem m)"
    and "short_item (dm_dataItem m)" and "length (ToBytes (dm_dataItem m)) + 10 < 2 ^ 32"
  shows "Parse \<lparr>buf_len = frame (message_header m) (ToBytes (dm_dataItem m)), buf_spare = sp\<rparr> =
    (Some (DataMsg (received m (canon (dm_dataItem m)))), True)"
proof (cases "dm_dataItem m = EmptyNode")
  case True
  show ?thesis
    by (rule Parse_message [OF assms(1,2) _ assms(5)]) (simp_all add: True parse_item_def)
next
  case False
  let ?x = "dm_dataItem m"
  have v: "Variables ?x = []" using assms(2) by (simp add: sendable_def)
  then have ne: "ToBytes ?x \<noteq> []" using ToBytes_empty_iff [OF assms(3) False] by simp
  let ?f = "frame (message_header m) (ToBytes ?x)"
  have "parseMessageText (Suc (length ?f)) \<lparr>buf_len = ?f, buf_spare = sp\<rparr> (length (ToBytes ?x) + 10)
      (length (be_bytes 4 (ucast (word_of_nat (length (ToBytes ?x) + 10) :: 32 word)) @ message_header m))
      = Inr (canon ?x, True, length (be_bytes 4 (ucast (word_of_nat (length (ToBytes ?x) + 10) :: 32 word))
          @ message_header m) + length (ToBytes ?x))"
    by (rule item_roundtrip [OF assms(3) v False assms(4), where post = "[]"])
       (use ne in \<open>simp_all add: frame_def\<close>)
  then show ?thesis
    using canon_Variables [OF v False] assms(1)
    by (intro Parse_message [OF assms(1,2) _ assms(5)]) (simp_all del: parseMessageText.simps)
qed

lemma ToBytes_frame:
  assumes "checkRep m = Inr ()" and "sendable m"
  shows "DataMessage_ToBytes m = Inr (frame (message_header m) (ToBytes (dm_dataItem m)))"
  using DataMessage_ToBytes_eq [OF assms(1)] assms(2) by (simp add: frame_def)

section \<open>Text the decoder gets wrong\<close>

text \<open>Shifting a byte left by 8 or 16 leaves nothing of it, so only the last length byte counts.\<close>

lemma parse_length_last:
  assumes "bs \<noteq> []"
  shows "parse_length bs = unat (last bs)"
proof -
  obtain ys y where bs: "bs = ys @ [y]" using assms by (cases bs rule: rev_cases) auto
  have z: "push_bit k (b :: byte) = 0" if "8 \<le> k" for k b
    using that by (intro bit_eqI) (auto simp: bit_simps)
  have "map (\<lambda>(i, b). unat (push_bit ((length bs - i - 1) * 8) b)) (enumerate 0 ys) =
      map (\<lambda>_. 0) (enumerate 0 ys)"
  proof (rule map_cong [OF refl])
    fix p assume "p \<in> set (enumerate 0 ys)"
    then have "8 \<le> (length bs - fst p - 1) * 8" by (auto simp: bs in_set_enumerate_eq)
    then show "(case p of (i, b) \<Rightarrow> unat (push_bit ((length bs - i - 1) * 8) b)) = 0"
      using z by (simp add: split_beta)
  qed
  then show ?thesis
    by (simp add: parse_length_def bs enumerate_append_eq sum_list_0)
qed

definition ascii_item :: "string \<Rightarrow> item" where
  "ascii_item s = ANode \<lparr>an_value = s, an_name = [], an_min = 0, an_max = 0, an_isValue = True,
    an_symbol = ''ascii''\<rparr>"

text \<open>The text of an ASCII item, read from wherever the slice points.\<close>

lemma ascii_read:
  assumes "ascii_string s" and "length s < 256" and "msgLength \<noteq> 10"
    and c: "buf_index b pos = Inr c" "drop_bit 2 c = 16" "and c 3 = k" "0 < unat k"
    and lb: "buf_slice b (pos + 1) (pos + 1 + unat k) = Inr lb" "parse_length lb = length s"
    and sl: "buf_slice b (pos + 1 + unat k) (pos + 1 + unat k + length s) = Inr (bytes_of_string s)"
  shows "parse_item p b msgLength pos = Inr (ascii_item s, True, pos + 1 + unat k + length s)"
proof -
  have "concat (map utf8_of_byte (bytes_of_string s)) = s"
    using assms(1) by (induction s) (auto simp: bytes_of_string_def ascii_string_def utf8_of_byte_def)
  then have "parse_leaf b 16 (length s) (pos + 1 + unat k) =
      Inr (ascii_item s, True, pos + 1 + unat k + length s)"
    using sl assms(1,2) by (simp add: ascii_item_def parse_leaf_def succeed_def NewASCIINode_ok MAX_BYTE_SIZE_def)
  then show ?thesis
    using assms(3) c lb by (simp add: parse_item_def)
qed

lemma ascii_item_simps [simp]:
  "Variables (ascii_item s) = []" "ascii_item s \<noteq> EmptyNode"
  "rep_ok (ascii_item s) \<longleftrightarrow> ascii_string s \<and> int (length s) \<le> MAX_BYTE_SIZE"
  by (simp_all add: ascii_item_def)

lemma long_ascii_ToBytes:
  assumes "ascii_string s" and "256 \<le> length s" and "int (length s) \<le> MAX_BYTE_SIZE"
  obtains k where "k = 2 \<or> k = 3"
    and "ToBytes (ascii_item s) = word_of_int (64 + int k) # be_bytes k (word_of_nat (length s))
      @ bytes_of_string s"
proof -
  let ?k = "length_bytes_count (int (length s))"
  have "getHeaderBytes ''ascii'' (int (length s)) = Inr (word_of_int (16 * 4 + int ?k)
      # be_bytes ?k (word_of_int (int (length s))))"
    using getHeaderBytes_eq [of "''ascii''" "int (length s)" 16] assms(3) by (simp add: codes)
  moreover have "map word_of_nat (runes s) = bytes_of_string s"
    using assms(1) by (simp add: runes_ascii bytes_of_string_def byte_of_char_def [abs_def] comp_def)
  ultimately have "ToBytes (ascii_item s) = word_of_int (64 + int ?k) # be_bytes ?k (word_of_nat (length s))
      @ bytes_of_string s"
    by (simp add: ascii_item_def ascii_ToBytes_def with_header_def)
  moreover have "?k = 2 \<or> ?k = 3" using assms(2) by (simp add: length_bytes_count_def)
  ultimately show thesis using that by blast
qed

lemma Parse_long_ascii:
  assumes "checkRep m = Inr ()" and "sendable m" and it: "dm_dataItem m = ascii_item s"
    and "ascii_string s" and "256 \<le> length s" and max: "int (length s) \<le> MAX_BYTE_SIZE"
  shows "Parse \<lparr>buf_len = frame (message_header m) (ToBytes (dm_dataItem m)), buf_spare = sp\<rparr> =
    (Some (DataMsg (received m (ascii_item (take (length s mod 256) s)))), True)"
proof -
  obtain k where k: "k = 2 \<or> k = 3"
    and e: "ToBytes (ascii_item s) = word_of_int (64 + int k) # be_bytes k (word_of_nat (length s))
      @ bytes_of_string s"
    using long_ascii_ToBytes [OF assms(4,5,6)] by blast
  let ?body = "ToBytes (ascii_item s)"
  let ?b = "\<lparr>buf_len = frame (message_header m) ?body, buf_spare = sp\<rparr>"
  let ?t = "take (length s mod 256) s"
  define pre where "pre = be_bytes 4 (ucast (word_of_nat (length ?body + 10) :: 32 word)) @ message_header m"
  have lp: "length pre = 14" using assms(1) by (simp add: pre_def)
  have b: "buf_len ?b = pre @ word_of_int (64 + int k) # be_bytes k (word_of_nat (length s)) @ bytes_of_string s"
    by (simp add: frame_def e pre_def)
  have len: "length ?body + 10 < 2 ^ 32" using max k by (auto simp: e MAX_BYTE_SIZE_def)
  have lt: "length ?t = length s mod 256" by simp
  have lb: "parse_length (be_bytes k (word_of_nat (length s))) = length ?t"
  proof -
    obtain j where j: "k = Suc j" using k by auto
    have "last (be_bytes k w) = ucast w" for w
      by (simp add: j be_bytes_def last_map last_rev hd_map del: upt_Suc)
    moreover have "be_bytes k (word_of_nat (length s)) \<noteq> []" by (simp add: j be_bytes_Suc)
    moreover have "unat (ucast (word_of_nat (length s) :: 64 word) :: byte) = length s mod 256"
      using max unat_ucast_drop_bit [of 0 "word_of_nat (length s)"]
      by (simp add: unat_word_of_nat_less MAX_BYTE_SIZE_def)
    ultimately show ?thesis by (simp add: parse_length_last)
  qed
  have sl: "buf_slice ?b (14 + 1 + k) (14 + 1 + k + length ?t) = Inr (bytes_of_string ?t)"
  proof -
    have "bytes_of_string s = bytes_of_string ?t @ bytes_of_string (drop (length s mod 256) s)"
      by (simp add: bytes_of_string_def flip: map_append)
    then show ?thesis
      using payload_slice [of ?b "pre @ word_of_int (64 + int k) # be_bytes k (word_of_nat (length s))"
          "bytes_of_string ?t"] b lp by simp
  qed
  have c: "drop_bit 2 (word_of_int (64 + int k) :: byte) = 16"
    "and (word_of_int (64 + int k) :: byte) 3 = word_of_nat k" "unat (word_of_nat k :: byte) = k"
    using k by auto
  have "parse_item p ?b (length ?body + 10) 14 = Inr (ascii_item ?t, True, 14 + 1 + unat (word_of_nat k :: byte) + length ?t)" for p
  proof (rule ascii_read)
    show "ascii_string ?t" using assms(4) by (auto simp: ascii_string_def dest: in_set_takeD)
    show "buf_index ?b 14 = Inr (word_of_int (64 + int k))"
      using payload_index [of ?b pre "[word_of_int (64 + int k)]" _ 0] b lp by simp
    show "buf_slice ?b (14 + 1) (14 + 1 + unat (word_of_nat k :: byte)) = Inr (be_bytes k (word_of_nat (length s)))"
      using payload_slice [of ?b "pre @ [word_of_int (64 + int k)]" "be_bytes k (word_of_nat (length s))"]
        b lp c(3) by simp
    show "length ?body + 10 \<noteq> 10" by (simp add: e)
    show "length ?t < 256" by simp
    show "0 < unat (word_of_nat k :: byte)" using c(3) k by auto
    show "buf_slice ?b (14 + 1 + unat (word_of_nat k :: byte)) (14 + 1 + unat (word_of_nat k :: byte) + length ?t)
        = Inr (bytes_of_string ?t)" using sl c(3) by simp
  qed (rule c lb)+
  then show ?thesis
    unfolding it by (intro Parse_message [OF assms(1,2) _ len]) simp_all
qed

end
