(* ===== verification/Secs_Codec.thy ===== *)
theory Secs_Codec
  imports Hsms_Roundtrip
begin

text \<open>
  The framing of HSMS messages on a byte stream, \<open>codec/secs2.go\<close>: \<open>Receive\<close> reads the four length
  bytes, the message, and parses it; \<open>Send\<close> writes bytes. The state holds what the connection will
  still deliver before it ends, what was written to it, and the backing array of \<open>bodyBuf\<close>, which
  the codec keeps and reuses: a message shorter than an earlier one is read into the front of it and
  the parser gets a slice whose capacity covers the rest.

  The locale \<open>framing\<close> is the contract the link layer needs of a codec: one \<open>Receive\<close> on a stream that
  starts with the encoding of a message yields that message and leaves the stream behind it. Its
  lemma is about any number of messages in a row.
\<close>

section \<open>The codec\<close>

record codec_state =
  cs_input :: "byte list"
  cs_output :: "byte list"
  cs_bodyBuf :: "byte list"

definition new_codec :: "byte list \<Rightarrow> codec_state" where
  "new_codec inp = \<lparr>cs_input = inp, cs_output = [], cs_bodyBuf = []\<rparr>"

text \<open>\<open>io.ReadFull\<close> of \<open>n\<close> bytes: what was read, and whether it was all of them.\<close>

definition ReadFull :: "nat \<Rightarrow> codec_state \<Rightarrow> byte list \<times> bool \<times> codec_state" where
  "ReadFull n c = (take n (cs_input c), n \<le> length (cs_input c), c\<lparr>cs_input := drop n (cs_input c)\<rparr>)"

text \<open>Its error when the bytes end before: the end of the input at once or in between.\<close>

definition read_error :: "byte list \<Rightarrow> go_error" where
  "read_error bs = Err (if bs = [] then ''EOF'' else ''unexpected EOF'')"

text \<open>\<open>copy_into dst i bs\<close> writes \<open>bs\<close> at position \<open>i\<close> of \<open>dst\<close>.\<close>

definition copy_into :: "byte list \<Rightarrow> nat \<Rightarrow> byte list \<Rightarrow> byte list" where
  "copy_into dst i bs = take i dst @ bs @ drop (i + length bs) dst"

text \<open>\<open>bodyBuf\<close> for a message of \<open>required\<close> bytes: reallocated when its capacity is too small.\<close>

definition grow_bodyBuf :: "byte list \<Rightarrow> nat \<Rightarrow> byte list" where
  "grow_bodyBuf buf required = (if length buf < required then replicate required 0 else buf)"

definition Receive :: "codec_state \<Rightarrow> hsms_message res \<times> codec_state" where
  "Receive c = (case ReadFull 4 c of (headBuf, ok, c1) \<Rightarrow>
     if \<not> ok then (Inl (read_error headBuf), c1)
     else let msgLength = be_uint headBuf in
       if msgLength < 10 then (Inl (Err ''message format error''), c1)
       else
         let required = msgLength + 4;
             buf1 = copy_into (grow_bodyBuf (cs_bodyBuf c1) required) 0 headBuf
         in case ReadFull msgLength c1 of (body, ok2, c2) \<Rightarrow>
           let buf2 = copy_into buf1 4 body; c3 = c2\<lparr>cs_bodyBuf := buf2\<rparr> in
           if \<not> ok2 then (Inl (read_error body), c3)
           else case Parse \<lparr>buf_len = take required buf2, buf_spare = drop required buf2\<rparr> of
               (Some msg, True) \<Rightarrow> (Inr msg, c3)
             | _ \<Rightarrow> (Inl (Err ''message parsing error''), c3))"

text \<open>\<open>Send\<close> takes any Go value and accepts a byte slice only; \<open>None\<close> stands for any other type.\<close>

definition Send :: "byte list option \<Rightarrow> codec_state \<Rightarrow> unit res \<times> codec_state" where
  "Send msg c = (case msg of
      None \<Rightarrow> (Inl (Err ''message format error''), c)
    | Some b \<Rightarrow> (Inr (), c\<lparr>cs_output := cs_output c @ b\<rparr>))"

section \<open>The contract of a codec\<close>

locale framing =
  fixes encode :: "'m \<Rightarrow> byte list"
    and receive :: "'s \<Rightarrow> 'r \<times> 's"
    and pending :: "'s \<Rightarrow> byte list"
    and sound :: "'m \<Rightarrow> bool"
    and view :: "'m \<Rightarrow> 'r"
  assumes receive_one: "sound m \<Longrightarrow> pending s = encode m @ rest \<Longrightarrow>
      fst (receive s) = view m \<and> pending (snd (receive s)) = rest"
begin

fun receive_all :: "nat \<Rightarrow> 's \<Rightarrow> 'r list \<times> 's" where
  "receive_all 0 s = ([], s)"
| "receive_all (Suc n) s = (case receive s of (r, s') \<Rightarrow>
     case receive_all n s' of (rs, s'') \<Rightarrow> (r # rs, s''))"

lemma receive_all_stream:
  assumes "\<And>m. m \<in> set ms \<Longrightarrow> sound m" and "pending s = concat (map encode ms) @ rest"
  shows "fst (receive_all (length ms) s) = map view ms
    \<and> pending (snd (receive_all (length ms) s)) = rest"
  using assms
proof (induction ms arbitrary: s)
  case (Cons m ms)
  have one: "fst (receive s) = view m"
    "pending (snd (receive s)) = concat (map encode ms) @ rest"
    using receive_one [of m s "concat (map encode ms) @ rest"] Cons.prems by simp_all
  then show ?case
    using Cons.IH [of "snd (receive s)"] Cons.prems(1) by (simp add: split_beta)
qed simp

end

section \<open>The messages the codec delivers\<close>

definition transmissible :: "hsms_message \<Rightarrow> bool" where
  "transmissible msg = (case msg of
      DataMsg m \<Rightarrow> checkRep m = Inr () \<and> sendable m \<and> rep_ok (dm_dataItem m) \<and> short_item (dm_dataItem m)
        \<and> length (ToBytes (dm_dataItem m)) + 10 < 2 ^ 32
    | CtrlMsg h \<Rightarrow> length h = 10 \<and> h ! 4 = 0 \<and> h ! 5 \<in> {1, 2, 3, 4, 5, 6, 7, 9})"

definition arrives_as :: "hsms_message \<Rightarrow> hsms_message" where
  "arrives_as msg = (case msg of
      DataMsg m \<Rightarrow> DataMsg (received m (canon (dm_dataItem m)))
    | CtrlMsg h \<Rightarrow> CtrlMsg h)"

definition wire_bytes :: "hsms_message \<Rightarrow> byte list" where
  "wire_bytes msg = (case MsgToBytes msg of Inr b \<Rightarrow> b | Inl e \<Rightarrow> [])"

lemma wire_frame:
  assumes "transmissible msg"
  obtains h body where "wire_bytes msg = frame h body" and "length h = 10"
    and "length body + 10 < 2 ^ 32"
    and "\<And>sp. Parse \<lparr>buf_len = frame h body, buf_spare = sp\<rparr> = (Some (arrives_as msg), True)"
proof (cases msg)
  case (DataMsg m)
  then have m: "checkRep m = Inr ()" "sendable m" "rep_ok (dm_dataItem m)"
    "short_item (dm_dataItem m)" "length (ToBytes (dm_dataItem m)) + 10 < 2 ^ 32"
    using assms by (simp_all add: transmissible_def)
  show thesis
  proof (rule that)
    show "wire_bytes msg = frame (message_header m) (ToBytes (dm_dataItem m))"
      by (simp add: wire_bytes_def DataMsg ToBytes_frame [OF m(1,2)])
    show "Parse \<lparr>buf_len = frame (message_header m) (ToBytes (dm_dataItem m)), buf_spare = sp\<rparr> =
        (Some (arrives_as msg), True)" for sp
      by (simp add: arrives_as_def DataMsg Parse_ToBytes_gen [OF m])
  qed (use m in simp_all)
next
  case (CtrlMsg h)
  then have h: "length h = 10" "h ! 4 = 0" "h ! 5 \<in> {1, 2, 3, 4, 5, 6, 7, 9}"
    using assms by (simp_all add: transmissible_def)
  have f: "CtrlToBytes h = frame h []" by (simp add: CtrlToBytes_def frame_def be_bytes_def upt_rec)
  show thesis
  proof (rule that)
    show "wire_bytes msg = frame h []" by (simp add: wire_bytes_def CtrlMsg f)
    show "Parse \<lparr>buf_len = frame h [], buf_spare = sp\<rparr> = (Some (arrives_as msg), True)" for sp
      using Parse_control_frame [OF h, of sp] by (simp add: arrives_as_def CtrlMsg f)
  qed (use h in simp_all)
qed

section \<open>Receiving a frame\<close>

lemma Receive_steps:
  assumes "ReadFull 4 c = (hb, True, c1)" and "be_uint hb = n" and "10 \<le> n"
    and "ReadFull n c1 = (body, True, c2)"
    and "copy_into (copy_into (grow_bodyBuf (cs_bodyBuf c1) (n + 4)) 0 hb) 4 body = buf2"
  shows "Receive c = (case Parse \<lparr>buf_len = take (n + 4) buf2, buf_spare = drop (n + 4) buf2\<rparr> of
      (Some msg, True) \<Rightarrow> (Inr msg, c2\<lparr>cs_bodyBuf := buf2\<rparr>)
    | _ \<Rightarrow> (Inl (Err ''message parsing error''), c2\<lparr>cs_bodyBuf := buf2\<rparr>))"
  using assms(1-4) unfolding assms(5) [symmetric] by (simp add: Receive_def Let_def)

lemma Receive_frame:
  assumes "length h = 10" and "length body + 10 < 2 ^ 32" and "cs_input c = frame h body @ rest"
  shows "\<exists>sp. (length (cs_bodyBuf c) < length (frame h body) \<longrightarrow> sp = [])
      \<and> (length (frame h body) \<le> length (cs_bodyBuf c) \<longrightarrow> sp = drop (length (frame h body)) (cs_bodyBuf c))
      \<and> Receive c = (case Parse \<lparr>buf_len = frame h body, buf_spare = sp\<rparr> of
           (Some msg, True) \<Rightarrow> (Inr msg, c\<lparr>cs_input := rest, cs_bodyBuf := frame h body @ sp\<rparr>)
         | _ \<Rightarrow> (Inl (Err ''message parsing error''), c\<lparr>cs_input := rest, cs_bodyBuf := frame h body @ sp\<rparr>))"
proof -
  let ?lb = "be_bytes 4 (ucast (word_of_nat (length body + 10) :: 32 word))"
  let ?f = "frame h body"
  have f: "?f = ?lb @ h @ body" by (simp add: frame_def)
  have n: "be_uint ?lb = length body + 10" by (rule be_uint_length_word [OF assms(2)])
  have lf: "length ?f = length body + 14" using assms(1) by (simp add: frame_def)
  define buf where "buf = grow_bodyBuf (cs_bodyBuf c) (length body + 14)"
  have lbuf: "length body + 14 \<le> length buf" by (simp add: buf_def grow_bodyBuf_def)
  let ?sp = "drop (length body + 14) buf"
  have cp: "copy_into (copy_into buf 0 ?lb) 4 (h @ body) = ?f @ ?sp"
    using assms(1) by (simp add: copy_into_def f add.commute)
  have r1: "ReadFull 4 c = (?lb, True, c\<lparr>cs_input := h @ body @ rest\<rparr>)"
    using assms(3) by (simp add: ReadFull_def f)
  have r2: "ReadFull (length body + 10) (c\<lparr>cs_input := h @ body @ rest\<rparr>) =
      (h @ body, True, c\<lparr>cs_input := rest\<rparr>)"
    using assms(1) by (simp add: ReadFull_def)
  have "copy_into (copy_into (grow_bodyBuf (cs_bodyBuf (c\<lparr>cs_input := h @ body @ rest\<rparr>))
      (length body + 10 + 4)) 0 ?lb) 4 (h @ body) = ?f @ ?sp"
    using cp unfolding buf_def by (simp add: add.commute)
  from Receive_steps [OF r1 n _ r2 this]
  have r: "Receive c = (case Parse \<lparr>buf_len = take (length body + 14) (?f @ ?sp),
        buf_spare = drop (length body + 14) (?f @ ?sp)\<rparr> of
      (Some msg, True) \<Rightarrow> (Inr msg, c\<lparr>cs_input := rest, cs_bodyBuf := ?f @ ?sp\<rparr>)
    | _ \<Rightarrow> (Inl (Err ''message parsing error''), c\<lparr>cs_input := rest, cs_bodyBuf := ?f @ ?sp\<rparr>))"
    by (simp add: add.assoc)
  have "take (length body + 14) (?f @ ?sp) = ?f" "drop (length body + 14) (?f @ ?sp) = ?sp"
    using lf by simp_all
  with r show ?thesis
    using lf by (intro exI [of _ ?sp]) (auto simp: buf_def grow_bodyBuf_def)
qed

lemma Receive_transmissible:
  assumes "transmissible msg" and "cs_input c = wire_bytes msg @ rest"
  shows "fst (Receive c) = Inr (arrives_as msg) \<and> cs_input (snd (Receive c)) = rest"
proof -
  obtain h body where w: "wire_bytes msg = frame h body" "length h = 10" "length body + 10 < 2 ^ 32"
    and p: "\<And>sp. Parse \<lparr>buf_len = frame h body, buf_spare = sp\<rparr> = (Some (arrives_as msg), True)"
    using wire_frame [OF assms(1)] by blast
  obtain sp where "Receive c = (case Parse \<lparr>buf_len = frame h body, buf_spare = sp\<rparr> of
      (Some msg, True) \<Rightarrow> (Inr msg, c\<lparr>cs_input := rest, cs_bodyBuf := frame h body @ sp\<rparr>)
    | _ \<Rightarrow> (Inl (Err ''message parsing error''), c\<lparr>cs_input := rest, cs_bodyBuf := frame h body @ sp\<rparr>))"
    using Receive_frame [OF w(2,3)] assms(2) unfolding w(1) by metis
  then show ?thesis by (simp add: p)
qed

interpretation secs: framing wire_bytes Receive cs_input transmissible "\<lambda>m. Inr (arrives_as m)"
  by unfold_locales (rule Receive_transmissible)

end
