(* ===== verification/Codec_Properties.thy ===== *)
theory Codec_Properties
  imports Secs_Codec
begin

text \<open>
  The properties of the message layer: items, messages, the encoder, the decoder and the framing.
  The lemmas before them are about what the decoder accepts and about the bytes a short message
  leaves in the receive buffer.
\<close>

section \<open>What the decoder accepts is well formed\<close>

lemma leaf_rep_ok: "parse_leaf b c len pos = Inr (x, True, pos') \<Longrightarrow> rep_ok x"
  by (auto simp: parse_leaf_def parseFloat_def parseInt_def parseUint_def failed_def succeed_def
      go_bind_Inr_iff simp del: rep_ok.simps split: if_splits dest: factories_rep_ok)

lemma parse_items_all:
  assumes "\<And>q x q'. p q = Inr (x, True, q') \<Longrightarrow> P x"
  shows "parse_items p n pos = Inr (xs, True, pos') \<Longrightarrow> \<forall>x \<in> set xs. P x"
proof (induction n arbitrary: pos xs)
  case (Suc n)
  then obtain x q ys where "p pos = Inr (x, True, q)" "parse_items p n q = Inr (ys, True, pos')"
    "xs = x # ys"
    by (auto simp: go_bind_Inr_iff split: if_splits)
  with Suc.IH assms show ?case by auto
qed simp

lemma parseMessageText_rep_ok:
  "parseMessageText fuel b n pos = Inr (x, True, pos') \<Longrightarrow> rep_ok x"
proof (induction fuel arbitrary: pos x pos')
  case (Suc fuel)
  show ?case
  proof (cases rule: parse_item_cases [of n "parseMessageText fuel b n" b pos])
    case (list len k)
    then obtain xs q where i: "parse_items (parseMessageText fuel b n) len (pos + 1 + k) = Inr (xs, True, q)"
      and l: "NewListNode (map VItem xs) = Inr x"
      using Suc.prems by (auto simp: parse_list_def go_bind_Inr_iff failed_def succeed_def split: if_splits)
    have "\<forall>y \<in> set xs. rep_ok y" using parse_items_all [OF Suc.IH i] .
    then show ?thesis by (intro NewListNode_rep_ok [OF l]) auto
  next
    case (leaf c len k)
    then show ?thesis using Suc.prems leaf_rep_ok by simp
  qed (use Suc.prems in \<open>auto simp: failed_def\<close>)
qed simp

lemma NewHSMSDataMessage_sendable:
  "NewHSMSDataMessage n s f w d i sid sb = Inr m \<Longrightarrow> sendable m \<and> dm_dataItem m = i"
  by (auto simp: NewHSMSDataMessage_def sendable_def checked_Inr_iff split: if_splits)

lemma parseMessage_results:
  assumes "parseMessage b n = Inr r"
  shows "r = (None, False)
    \<or> (\<exists>m. r = (Some (DataMsg m), True) \<and> checkRep m = Inr () \<and> sendable m \<and> rep_ok (dm_dataItem m))
    \<or> (\<exists>h. r = (Some (CtrlMsg h), True) \<and> length h = 10 \<and> h ! 4 = 0 \<and> h ! 5 \<in> {1, 2, 3, 4, 5, 6, 7, 9})"
proof -
  obtain h where h: "buf_slice b 4 14 = Inr h" using assms by (auto simp: parseMessage_def go_bind_Inr_iff)
  have lh: "length h = 10" using h by (auto simp: buf_slice_def go_slice_def split: if_splits)
  consider "h ! 4 \<noteq> 0" | "h ! 4 = 0" "h ! 5 = 0" | "h ! 4 = 0" "h ! 5 \<noteq> 0" by blast
  then show ?thesis
  proof cases
    case 1
    then show ?thesis using assms h by (simp add: parseMessage_def)
  next
    case 2
    let ?new = "\<lambda>x. NewHSMSDataMessage [] (uint (and (h ! 2) 127)) (uint (h ! 3)) (uint (drop_bit 7 (h ! 2)))
        ''H<->E'' x (int (be_uint (take 2 h))) (slice 6 10 h)"
    from 2 obtain x ok pos where t: "parseMessageText (Suc (length (buf_len b))) b n 14 = Inr (x, ok, pos)"
      and r: "if ok then \<exists>m. ?new x = Inr m \<and> r = (Some (DataMsg m), True) else r = (None, False)"
      using assms h
      by (auto simp: parseMessage_def go_bind_Inr_iff simp del: parseMessageText.simps split: if_splits)
    show ?thesis
    proof (cases ok)
      case True
      then obtain m where "?new x = Inr m" and r': "r = (Some (DataMsg m), True)" using r by auto
      moreover have "rep_ok x" using parseMessageText_rep_ok [OF t [unfolded eqTrueI [OF True]]] .
      ultimately show ?thesis
        using NewHSMSDataMessage_sendable message_constructors_rep(2) by auto
    qed (use r in simp)
  next
    case 3
    then have "if h ! 5 \<in> {1, 2, 3, 4, 5, 6, 7, 9} then r = (Some (CtrlMsg h), True) else r = (None, False)"
      using assms h lh by (auto simp: parseMessage_def NewHSMSControlMessage_def split: if_splits)
    then show ?thesis using 3 lh by (auto split: if_splits)
  qed
qed

lemma Parse_go_results:
  assumes "Parse_go b = Inr r"
  shows "r = (None, False)
    \<or> (\<exists>m. r = (Some (DataMsg m), True) \<and> checkRep m = Inr () \<and> sendable m \<and> rep_ok (dm_dataItem m))
    \<or> (\<exists>h. r = (Some (CtrlMsg h), True) \<and> length h = 10 \<and> h ! 4 = 0 \<and> h ! 5 \<in> {1, 2, 3, 4, 5, 6, 7, 9})"
  using assms parseMessage_results by (auto simp: Parse_go_def split: option.splits)

section \<open>Bytes left over in the receive buffer\<close>

lemma Receive_stale:
  assumes m: "checkRep m = Inr ()" "sendable m"
    and s: "ascii_string s" "s \<noteq> []" "length s < 256"
    and left: "take (length s) (drop 16 (cs_bodyBuf c)) = bytes_of_string s"
    and inp: "cs_input c = frame (message_header m) [65, word_of_nat (length s)] @ rest"
  shows "fst (Receive c) = Inr (DataMsg (received m (ascii_item s)))"
proof -
  let ?f = "frame (message_header m) [65, word_of_nat (length s)]"
  have lh: "length (message_header m) = 10" using m(1) by simp
  have lf: "length ?f = 16" using lh by (simp add: frame_def)
  have "length s = length (take (length s) (drop 16 (cs_bodyBuf c)))" unfolding left by simp
  then have lc: "16 + length s \<le> length (cs_bodyBuf c)" using s(2) by (cases s) auto
  obtain sp where sp: "length ?f \<le> length (cs_bodyBuf c) \<longrightarrow> sp = drop (length ?f) (cs_bodyBuf c)"
    and r: "Receive c = (case Parse \<lparr>buf_len = ?f, buf_spare = sp\<rparr> of
      (Some msg, True) \<Rightarrow> (Inr msg, c\<lparr>cs_input := rest, cs_bodyBuf := ?f @ sp\<rparr>)
    | _ \<Rightarrow> (Inl (Err ''message parsing error''), c\<lparr>cs_input := rest, cs_bodyBuf := ?f @ sp\<rparr>))"
    using Receive_frame [OF lh _ inp] by auto
  have "sp = drop 16 (cs_bodyBuf c)" using sp lc lf by simp
  then have sps: "sp = bytes_of_string s @ drop (length s) sp"
    using left append_take_drop_id [of "length s" "drop 16 (cs_bodyBuf c)"] by metis
  let ?b = "\<lparr>buf_len = ?f, buf_spare = sp\<rparr>"
  let ?pre = "be_bytes 4 (ucast (word_of_nat (length [65 :: byte, word_of_nat (length s)] + 10) :: 32 word))
    @ message_header m"
  have f: "?f = ?pre @ [65] @ [word_of_nat (length s)]" and lp: "length ?pre = 14"
    using lh by (simp_all add: frame_def)
  have "parse_item p ?b (length [65 :: byte, word_of_nat (length s)] + 10) 14 =
      Inr (ascii_item s, True, 14 + 1 + unat (1::byte) + length s)" for p
  proof (rule ascii_read [OF s(1,3)])
    show "buf_index ?b 14 = Inr 65"
      using payload_index [of ?b ?pre "[65]" _ 0] f lp by simp
    show "buf_slice ?b (14 + 1) (14 + 1 + unat (1::byte)) = Inr [word_of_nat (length s)]"
      using payload_slice [of ?b "?pre @ [65]" "[word_of_nat (length s)]" "[]"] f lp by simp
    show "parse_length [word_of_nat (length s)] = length s"
      using s(3) by (simp add: unat_word_of_nat_less)
    show "buf_slice ?b (14 + 1 + unat (1::byte)) (14 + 1 + unat (1::byte) + length s) = Inr (bytes_of_string s)"
      using go_slice_append [of 16 ?f "16 + length s" "bytes_of_string s" "drop (length s) sp"] sps lf
      by (simp add: buf_slice_def)
  qed simp_all
  then have "Parse ?b = (Some (DataMsg (received m (ascii_item s))), True)"
    by (intro Parse_message [OF m]) simp_all
  with r show ?thesis by simp
qed

section \<open>Properties\<close>

text \<open>Claim C1. Framing round trip: messages sent one after the other on a connection are received
  one by one in the same order, whatever the state of the receive buffer and whatever bytes follow
  them. The messages are control messages with a header of the standard, and data messages that can be sent
  (session id set, wait bit decided, no variables, fewer than 2^32 bytes) and none of whose items has more
  than 255 data bytes or, for a list, 255 elements: a longer item is decoded with its length modulo 256
  (\<open>long_text_is_cut\<close> below), so its message does not survive. A data message arrives without its name, with
  direction \<open>H<->E\<close> and with four-byte floats rounded to single precision, and is otherwise unchanged.\<close>

theorem messages_arrive_in_order:
  assumes "list_all transmissible msgs" and "cs_input c = concat (map wire_bytes msgs) @ rest"
  shows "fst (secs.receive_all (length msgs) c) = map (\<lambda>m. Inr (arrives_as m)) msgs
    \<and> cs_input (snd (secs.receive_all (length msgs) c)) = rest"
  using secs.receive_all_stream [of msgs c rest] assms by (simp add: list_all_iff)

definition sample_message :: data_message where
  "sample_message = \<lparr>dm_name = ''Ack'', dm_stream = 1, dm_function = 14, dm_waitBit = 0,
     dm_direction = ''H<-E'',
     dm_dataItem = LNode [BNode \<lparr>bn_values = [0], bn_variables = [], bn_symbol = ''binary''\<rparr>,
       LNode [ascii_item ''MDLN'', UNode \<lparr>un_byteSize = 2, un_values = [513], un_variables = [],
         un_symbol = ''u2''\<rparr>] [] ''list''] [] ''list'',
     dm_sessionID = 10, dm_systemBytes = [0, 0, 0, 7]\<rparr>"

definition sample_select :: "byte list" where
  "sample_select = [0, 10, 0, 0, 0, 1, 0, 0, 0, 9]"

lemma sample_transmissible:
  "transmissible (DataMsg sample_message)" "transmissible (CtrlMsg sample_select)"
  by code_simp+

theorem messages_arrive_in_order_witness:
  "fst (secs.receive_all 2 (new_codec (wire_bytes (DataMsg sample_message)
     @ wire_bytes (CtrlMsg sample_select) @ [1, 2])))
   = [Inr (arrives_as (DataMsg sample_message)), Inr (CtrlMsg sample_select)]"
  using messages_arrive_in_order [of "[DataMsg sample_message, CtrlMsg sample_select]"
      "new_codec (wire_bytes (DataMsg sample_message) @ wire_bytes (CtrlMsg sample_select) @ [1, 2])" "[1, 2]"]
    sample_transmissible
  by (simp add: new_codec_def arrives_as_def numeral_2_eq_2)

text \<open>Claim C15. Decoding is total and safe: \<open>Parse\<close> returns on every buffer (the bound on the nesting
  it is given is never reached), and a data message it reports as parsed satisfies the
  representation invariant of messages, is complete enough to be sent, and carries an item that
  satisfies the invariant of items.\<close>

theorem Parse_sound:
  "Parse_go b \<noteq> Inl NoFuel \<and>
   (case Parse b of
      (Some (DataMsg m), True) \<Rightarrow> checkRep m = Inr () \<and> sendable m \<and> rep_ok (dm_dataItem m)
    | (Some (CtrlMsg h), True) \<Rightarrow> length h = 10 \<and> h ! 4 = 0 \<and> h ! 5 \<in> {1, 2, 3, 4, 5, 6, 7, 9}
    | (Some _, False) \<Rightarrow> False
    | (None, ok) \<Rightarrow> \<not> ok)"
proof -
  have fuel: "fuel_ok (Parse_go b)"
    by (simp add: Parse_go_def parseMessage_fuel_ok split: option.split)
  show ?thesis
  proof (cases "Parse_go b")
    case (Inl e)
    then show ?thesis using fuel by (auto simp: Parse_def fuel_ok_def)
  next
    case (Inr r)
    then show ?thesis using Parse_go_results [OF Inr] by (auto simp: Parse_def)
  qed
qed

text \<open>An item that satisfies the representation invariant has a SECS-II encoding exactly
  when it has no variable left to fill, at any depth.\<close>

theorem encodes_iff_no_variables:
  assumes "rep_ok it" and "it \<noteq> EmptyNode"
  shows "ToBytes it \<noteq> [] \<longleftrightarrow> Variables it = []"
  using ToBytes_empty_iff [OF assms] by blast

definition sample_template :: item where
  "sample_template = LNode [ascii_item ''A'', EmptyNode] [(''x'', 1)] ''list''"

theorem encodes_iff_no_variables_witness:
  "rep_ok sample_template \<and> Variables sample_template = [''x''] \<and> ToBytes sample_template = []"
proof -
  have r: "rep_ok sample_template" and v: "Variables sample_template = [''x'']" by code_simp+
  have "sample_template \<noteq> EmptyNode" by (simp add: sample_template_def)
  from encodes_iff_no_variables [OF r this] v have "ToBytes sample_template = []" by simp
  with r v show ?thesis by blast
qed

text \<open>Claim C40. Every factory that returns establishes the representation invariant the comments on
  the node structs state (values in range, variable names valid and unique, positions unique, in
  range and holding the zero value, size limit), and \<open>NewListNode\<close> that of a list from children that satisfy
  it: also that the first item is no ellipsis, that there is at most one ellipsis, and that no name occurs twice
  in the list, at any depth.\<close>

theorem factories_establish_rep:
  "(\<forall>s it. NewASCIINode s = Inr it \<longrightarrow> rep_ok it)
   \<and> (\<forall>s lo hi it. NewASCIINodeVariable s lo hi = Inr it \<longrightarrow> rep_ok it)
   \<and> (\<forall>args it. NewBinaryNode args = Inr it \<or> NewBooleanNode args = Inr it \<longrightarrow> rep_ok it)
   \<and> (\<forall>b args it. NewFloatNode b args = Inr it \<or> NewIntNode b args = Inr it
        \<or> NewUintNode b args = Inr it \<longrightarrow> rep_ok it)
   \<and> (\<forall>args it. NewListNode args = Inr it \<and> (\<forall>x. VItem x \<in> set args \<longrightarrow> rep_ok x) \<longrightarrow> rep_ok it)"
  by (intro conjI allI impI; (elim disjE conjE)?)
     (auto dest: factories_rep_ok intro: NewListNode_rep_ok simp del: rep_ok.simps)

theorem factories_establish_rep_witness:
  "\<exists>it. NewIntNode 2 [VString ''speed'', VInt (- 300)] = Inr it \<and> rep_ok it
     \<and> Variables it = [''speed'']"
proof -
  let ?it = "INode \<lparr>in_byteSize = 2, in_values = [0, - 300], in_variables = [(''speed'', 0)],
    in_symbol = ''i2''\<rparr>"
  have n: "NewIntNode 2 [VString ''speed'', VInt (- 300)] = Inr ?it" by code_simp
  have "Variables ?it = [''speed'']" by code_simp
  with n factories_establish_rep show ?thesis by blast
qed

text \<open>The header of an item that fits the size limit is the format byte, with the number of
  length bytes in its two low bits, followed by the data length in big-endian order in the fewest
  bytes that hold it (one for an empty item).\<close>

theorem header_bytes_layout:
  assumes "format_code typ = Some code" and "code \<in> header_codes"
    and "0 \<le> getDataByteLength typ count" and "getDataByteLength typ count \<le> MAX_BYTE_SIZE"
  shows "\<exists>c lb. getHeaderBytes typ count = Inr (c # lb)
    \<and> drop_bit 2 c = word_of_int code \<and> unat (and c 3) = length lb
    \<and> int (be_uint lb) = getDataByteLength typ count
    \<and> (length lb = 1 \<or> 256 ^ (length lb - 1) \<le> be_uint lb) \<and> length lb \<le> 3"
proof -
  let ?n = "getDataByteLength typ count"
  let ?k = "length_bytes_count ?n"
  let ?c = "word_of_int (code * 4 + int ?k) :: byte"
  let ?lb = "be_bytes ?k (word_of_int ?n)"
  have k: "?k = 1 \<or> ?k = 2 \<or> ?k = 3" by (simp add: length_bytes_count_def)
  have n: "unat (word_of_int ?n :: 64 word) = nat ?n"
    using assms(3,4) by (intro unat_word_of_int_less) (simp_all add: MAX_BYTE_SIZE_def)
  have up: "nat ?n < 256 ^ ?k" and lo: "?k = 1 \<or> 256 ^ (?k - 1) \<le> nat ?n"
    using assms(3,4) by (auto simp: length_bytes_count_def MAX_BYTE_SIZE_def)
  have b: "be_uint ?lb = nat ?n" using up by (simp add: be_uint_be_bytes n)
  have "drop_bit 2 ?c = word_of_int code \<and> unat (and ?c 3) = ?k"
    using assms(2) k by (elim disjE) (auto simp: header_codes_def)
  then show ?thesis
    using getHeaderBytes_eq [OF assms(3,4,1)] b lo assms(3) k
    by (intro exI [of _ ?c] exI [of _ ?lb]) auto
qed

theorem header_bytes_layout_witness:
  "\<exists>c lb. getHeaderBytes ''u2'' 200 = Inr (c # lb) \<and> be_uint lb = 400 \<and> length lb = 2"
proof -
  have "\<exists>c lb. getHeaderBytes ''u2'' 200 = Inr (c # lb)
    \<and> drop_bit 2 c = word_of_int 42 \<and> unat (and c 3) = length lb
    \<and> int (be_uint lb) = getDataByteLength ''u2'' 200
    \<and> (length lb = 1 \<or> 256 ^ (length lb - 1) \<le> be_uint lb) \<and> length lb \<le> 3"
    by (rule header_bytes_layout) (simp_all add: codes header_codes_def MAX_BYTE_SIZE_def)
  moreover have "getHeaderBytes ''u2'' 200 = Inr [170, 1, 144]" by code_simp
  moreover have "be_uint [1, 144] = 400" by code_simp
  ultimately show ?thesis by auto
qed

text \<open>The length bytes are added up in eight bits: a message whose body is one ASCII item
  of 256 characters or more is reported as parsed, with the text cut to its length modulo 256.\<close>

theorem long_text_is_cut:
  assumes "checkRep m = Inr ()" and "sendable m" and "dm_dataItem m = ascii_item s"
    and "ascii_string s" and "256 \<le> length s" and "int (length s) \<le> MAX_BYTE_SIZE"
  shows "\<exists>bs. DataMessage_ToBytes m = Inr bs \<and> (\<forall>sp. Parse \<lparr>buf_len = bs, buf_spare = sp\<rparr> =
    (Some (DataMsg (received m (ascii_item (take (length s mod 256) s)))), True))"
  using ToBytes_frame [OF assms(1,2)] Parse_long_ascii [OF assms] by blast

definition long_message :: data_message where
  "long_message = sample_message\<lparr>dm_dataItem := ascii_item (replicate 256 CHR ''A'')\<rparr>"

theorem long_text_is_cut_witness:
  "\<exists>bs. DataMessage_ToBytes long_message = Inr bs \<and> Parse \<lparr>buf_len = bs, buf_spare = []\<rparr> =
    (Some (DataMsg (received long_message (ascii_item []))), True)"
proof -
  have "checkRep long_message = Inr ()" by code_simp
  moreover have "sendable long_message" by code_simp
  moreover have "dm_dataItem long_message = ascii_item (replicate 256 CHR ''A'')"
    by (simp add: long_message_def)
  moreover have "ascii_string (replicate 256 CHR ''A'')" by (simp add: ascii_string_def)
  ultimately show ?thesis
    using long_text_is_cut [of long_message "replicate 256 CHR ''A''"] by (auto simp: MAX_BYTE_SIZE_def)
qed

text \<open>Claim C37. The receive buffer is reused and the parser slices it up to its capacity: a 16-byte
  message that announces an ASCII item of \<open>n\<close> bytes without sending them is accepted, and its text
  is what an earlier, longer message left at offset 16 of the buffer.\<close>

theorem earlier_message_leaks:
  assumes "checkRep m = Inr ()" and "sendable m"
    and "ascii_string s" and "s \<noteq> []" and "length s < 256"
    and "take (length s) (drop 16 (cs_bodyBuf c)) = bytes_of_string s"
    and "cs_input c = frame (message_header m) [65, word_of_nat (length s)] @ rest"
  shows "fst (Receive c) = Inr (DataMsg (received m (ascii_item s)))"
  by (rule Receive_stale [OF assms])

definition secret_message :: data_message where
  "secret_message = sample_message\<lparr>dm_dataItem := ascii_item ''PIN4711''\<rparr>"

definition after_secret :: codec_state where
  "after_secret = snd (Receive (new_codec (wire_bytes (DataMsg secret_message)
     @ frame (message_header sample_message) [65, 7])))"

theorem earlier_message_leaks_witness:
  "fst (Receive after_secret) = Inr (DataMsg (received sample_message (ascii_item ''PIN4711'')))"
proof (rule earlier_message_leaks [where rest = "[]"])
  show "checkRep sample_message = Inr ()" "sendable sample_message" by code_simp+
  show "take (length ''PIN4711'') (drop 16 (cs_bodyBuf after_secret)) = bytes_of_string ''PIN4711''"
    by code_simp
  have "cs_input after_secret = frame (message_header sample_message) [65, 7]" by code_simp
  then show "cs_input after_secret =
      frame (message_header sample_message) [65, word_of_nat (length ''PIN4711'')] @ []" by simp
qed (simp_all add: ascii_string_def)

definition answers :: "string \<Rightarrow> string \<Rightarrow> byte list \<Rightarrow> (byte list \<Rightarrow> bool) \<Rightarrow> hsms_message go \<Rightarrow> bool" where
  "answers req rsp h extra result = (case result of
      Inr (CtrlMsg r) \<Rightarrow> CtrlType h = req \<and> CtrlType r = rsp \<and> length r = 10
        \<and> MsgSystemBytes (CtrlMsg r) = MsgSystemBytes (CtrlMsg h) \<and> extra r
    | Inr (DataMsg m) \<Rightarrow> False
    | Inl e \<Rightarrow> CtrlType h \<noteq> req)"

text \<open>The answers to control requests: \<open>select.rsp\<close>, \<open>deselect.rsp\<close> and \<open>linktest.rsp\<close>
  are built for a request of the matching type only (any other message panics), keep its system
  bytes, and the first two keep its session id and carry the status.\<close>

theorem control_answers:
  assumes "length h = 10"
  shows "answers ''select.req'' ''select.rsp'' h
      (\<lambda>r. CtrlSessionID r = CtrlSessionID h \<and> CtrlStatus r = st) (NewHSMSMessageSelectRsp (CtrlMsg h) st)
    \<and> answers ''deselect.req'' ''deselect.rsp'' h
      (\<lambda>r. CtrlSessionID r = CtrlSessionID h \<and> CtrlStatus r = st) (NewHSMSMessageDeselectRsp (CtrlMsg h) st)
    \<and> answers ''linktest.req'' ''linktest.rsp'' h
      (\<lambda>r. CtrlSessionID r = 65535) (NewHSMSMessageLinktestRsp (CtrlMsg h))"
proof -
  obtain a b c d e f g i j k where h: "h = [a, b, c, d, e, f, g, i, j, k]"
    using assms by (rule list_10_cases)
  show ?thesis
    by (simp add: h answers_def NewHSMSMessageSelectRsp_def NewHSMSMessageDeselectRsp_def
        NewHSMSMessageLinktestRsp_def slice_def CtrlSessionID_def CtrlStatus_def CtrlType_def)
qed

theorem control_answers_witness:
  "\<exists>r. NewHSMSMessageSelectRsp (CtrlMsg sample_select) 1 = Inr (CtrlMsg r)
    \<and> CtrlSessionID r = 10 \<and> CtrlStatus r = 1"
proof -
  have "length sample_select = 10" by (simp add: sample_select_def)
  from control_answers [OF this, of 1]
  have a: "answers ''select.req'' ''select.rsp'' sample_select
      (\<lambda>r. CtrlSessionID r = CtrlSessionID sample_select \<and> CtrlStatus r = 1)
      (NewHSMSMessageSelectRsp (CtrlMsg sample_select) 1)" by blast
  have "CtrlType sample_select = ''select.req''" "CtrlSessionID sample_select = 10" by code_simp+
  with a show ?thesis by (auto simp: answers_def split: sum.splits hsms_message.splits)
qed

text \<open>\<open>NewHSMSMessageRejectReqFromMsg\<close> never builds a reject message: it asks for a message
  whose type reads \<open>Reject.req\<close>, which no message has, so every call panics.\<close>

theorem reject_from_message_panics: "panics (NewHSMSMessageRejectReqFromMsg msg reasonCode)"
  by (simp add: NewHSMSMessageRejectReqFromMsg_def MsgType_not_Reject)

end
