(* ===== verification/S9_Errors.thy ===== *)
theory S9_Errors
  imports Hsms_Roundtrip
begin

text \<open>
  Stream 9 error messages: the builders of \<open>hsms/error_messages.go\<close>, and the decisions of
  \<open>hsms/protocol_s9_helpers.go\<close> that do not depend on the connection: which streams are known and the
  ten header bytes an S9F9 carries. What sends them is in the protocol theory.
\<close>

section \<open>The messages\<close>

definition S9_message :: "int \<Rightarrow> item \<Rightarrow> byte list \<Rightarrow> data_message go" where
  "S9_message function body systemBytes = NewHSMSDataMessage [] 9 function 0 ''H<-E'' body 0 systemBytes"

definition BuildS9F1 :: "byte \<Rightarrow> byte list \<Rightarrow> data_message go" where
  "BuildS9F1 unrecognizedDeviceID systemBytes =
     go_bind (NewBinaryNode [VInt (ucast unrecognizedDeviceID)]) (\<lambda>body. S9_message 1 body systemBytes)"

definition BuildS9F3 :: "byte \<Rightarrow> byte list \<Rightarrow> data_message go" where
  "BuildS9F3 unrecognizedStream systemBytes =
     go_bind (NewBinaryNode [VInt (ucast unrecognizedStream)]) (\<lambda>body. S9_message 3 body systemBytes)"

definition BuildS9F5 :: "byte \<Rightarrow> byte list \<Rightarrow> data_message go" where
  "BuildS9F5 unrecognizedFunction systemBytes =
     go_bind (NewBinaryNode [VInt (ucast unrecognizedFunction)]) (\<lambda>body. S9_message 5 body systemBytes)"

definition BuildS9F7 :: "byte list \<Rightarrow> data_message go" where
  "BuildS9F7 systemBytes = go_bind (NewListNode []) (\<lambda>body. S9_message 7 body systemBytes)"

definition BuildS9F9 :: "byte list \<Rightarrow> byte list \<Rightarrow> data_message go" where
  "BuildS9F9 sHeader systemBytes =
     go_bind (NewBinaryNode (map VUint8 sHeader)) (\<lambda>body. S9_message 9 body systemBytes)"

definition BuildS9F11 :: "byte list \<Rightarrow> data_message go" where
  "BuildS9F11 systemBytes = go_bind (NewListNode []) (\<lambda>body. S9_message 11 body systemBytes)"

definition BuildS9F13 :: "byte list \<Rightarrow> data_message go" where
  "BuildS9F13 systemBytes = go_bind (NewListNode []) (\<lambda>body. S9_message 13 body systemBytes)"

section \<open>Error information\<close>

record s9_error_info =
  ErrorCode :: int
  ErrorText :: string
  OriginalMessage :: "data_message option"
  s9_SystemBytes :: "byte list"

definition NewS9ErrorInfo :: "int \<Rightarrow> string \<Rightarrow> data_message option \<Rightarrow> byte list \<Rightarrow> s9_error_info" where
  "NewS9ErrorInfo errorCode errorText originalMsg systemBytes =
     \<lparr>ErrorCode = errorCode, ErrorText = errorText, OriginalMessage = originalMsg,
      s9_SystemBytes = systemBytes\<rparr>"

definition s9_error_text :: "int \<Rightarrow> string" where
  "s9_error_text function =
     (if function = 1 then ''Unrecognized Device ID''
      else if function = 3 then ''Unrecognized Stream''
      else if function = 5 then ''Unrecognized Function''
      else if function = 7 then ''Illegal Data''
      else if function = 9 then ''Transaction Timer Timeout''
      else if function = 11 then ''Data Too Long''
      else if function = 13 then ''Conversation Timeout''
      else ''Unknown S9 Error'')"

definition s9_callback_info :: "data_message \<Rightarrow> s9_error_info" where
  "s9_callback_info msg =
     \<lparr>ErrorCode = dm_function msg, ErrorText = s9_error_text (dm_function msg),
      OriginalMessage = None, s9_SystemBytes = dm_systemBytes msg\<rparr>"

section \<open>Decisions\<close>

definition isKnownStream :: "int \<Rightarrow> bool" where
  "isKnownStream stream \<longleftrightarrow>
     stream \<in> set [1, 2, 3, 4, 5, 6, 7, 8, 9, 10, 12, 13, 14, 15, 16, 17, 21]"

text \<open>The message \<open>sendS9ErrorForUnrecognized\<close> builds; \<open>None\<close> for a stream 9 message.\<close>

definition s9_for_unrecognized :: "data_message \<Rightarrow> data_message option go" where
  "s9_for_unrecognized m =
     (if dm_stream m = 9 then Inr None
      else go_bind
        (if \<not> isKnownStream (dm_stream m) then BuildS9F3 (word_of_int (dm_stream m)) (dm_systemBytes m)
         else BuildS9F5 (word_of_int (dm_function m)) (dm_systemBytes m))
        (\<lambda>s9. Inr (Some s9)))"

text \<open>The header that \<open>sendS9F9TransactionTimeout\<close> rebuilds.\<close>

definition s9f9_header :: "data_message \<Rightarrow> byte list go" where
  "s9f9_header m = go_bind (WaitBit m) (\<lambda>w.
     let session = dm_sessionID m;
         stream = word_of_int (dm_stream m) :: byte;
         stream' = (if w = ''true'' then or stream 128 else stream)
     in Inr ([word_of_int (session div 256), word_of_int session, stream', word_of_int (dm_function m), 0, 0]
          @ (if 4 \<le> length (dm_systemBytes m) then take 4 (dm_systemBytes m) else replicate 4 0)))"

section \<open>Lemmas\<close>

definition binary_item :: "byte list \<Rightarrow> item" where
  "binary_item bs = BNode \<lparr>bn_values = map uint bs, bn_variables = [], bn_symbol = ''binary''\<rparr>"

lemma NewBinaryNode_bytes:
  assumes "length bs < 256"
  shows "NewBinaryNode (map VUint8 bs) = Inr (binary_item bs)"
proof -
  have "NewBinaryNode (map VUint8 bs) = Inr (BNode \<lparr>bn_values = map (\<lambda>a. case a of VUint8 w \<Rightarrow> uint w | _ \<Rightarrow> 0) (map VUint8 bs),
      bn_variables = [], bn_symbol = ''binary''\<rparr>)"
    by (rule NewBinaryNode_ok)
       (use assms uint_bounded [where 'a = 8] in \<open>auto simp: binary_value_def MAX_BYTE_SIZE_def\<close>)
  then show ?thesis by (simp add: binary_item_def comp_def)
qed

lemma NewBinaryNode_byte: "NewBinaryNode [VInt (ucast (b :: byte))] = Inr (binary_item [b])"
proof -
  have v: "sint (ucast b :: 64 word) = uint b"
  proof -
    have "uint (ucast b :: 64 word) = uint b" by (simp add: unsigned_ucast_eq [where ?'a = int] take_bit_int_eq_self_iff) (use uint_bounded [of b] in simp)
    moreover have "signed_take_bit 63 (uint b) = uint b"
    proof (rule signed_take_bit_int_eq_self)
      have "- (2 ^ 63) \<le> (0 :: int)" by simp
      also have "0 \<le> uint b" by simp
      finally show "- (2 ^ 63) \<le> uint b" .
      show "uint b < 2 ^ 63" using uint_bounded [of b] by simp
    qed
    ultimately show ?thesis by (simp add: sint_uint)
  qed
  have "NewBinaryNode [VInt (ucast b)] = Inr (BNode \<lparr>bn_values = map (\<lambda>_. uint b) [VInt (ucast b)],
      bn_variables = [], bn_symbol = ''binary''\<rparr>)"
    by (rule NewBinaryNode_ok)
       (use v uint_bounded [of b] in \<open>auto simp: binary_value_def MAX_BYTE_SIZE_def\<close>)
  then show ?thesis by (simp add: binary_item_def)
qed

lemma binary_item_simps [simp]:
  "Variables (binary_item bs) = []" "rep_ok (binary_item bs) \<longleftrightarrow> int (length bs) \<le> MAX_BYTE_SIZE"
  using uint_bounded [where 'a = 8]
  by (auto simp: binary_item_def getVariableNames_def vars_ok_def list_all_iff)

lemma ToBytes_binary_item:
  assumes "length bs < 256"
  shows "ToBytes (binary_item bs) = [33, word_of_nat (length bs)] @ bs"
proof -
  have "getDataByteLength ''binary'' (int (length bs)) = int (length bs)" by simp
  then show ?thesis
    using assms by (simp add: binary_item_def binary_ToBytes_def short_with_header codes comp_def)
qed

lemma S9_message_ok:
  assumes "1 \<le> f" and "f < 256" and "f mod 2 = 1" and "Variables body = []"
  shows "S9_message f body sb = Inr \<lparr>dm_name = [], dm_stream = 9, dm_function = f, dm_waitBit = 0,
    dm_direction = ''H<-E'', dm_dataItem = body, dm_sessionID = 0, dm_systemBytes = systemBytesCopy sb\<rparr>"
  using assms
  by (simp add: S9_message_def NewHSMSDataMessage_def checked_def checkRep_def runes_def)

text \<open>The bytes of an error message whose session and system bytes have been set.\<close>

definition s9_frame :: "byte \<Rightarrow> byte list \<Rightarrow> int \<Rightarrow> byte list \<Rightarrow> byte list" where
  "s9_frame f text sid sb =
     frame ([word_of_int (sid div 256), word_of_int sid, 9, f, 0, 0] @ sb) text"

lemma S9_finished:
  assumes "S9_message f body sb0 = Inr m" and "1 \<le> f" and "f < 256" and "f mod 2 = 1" and "Variables body = []"
    and "0 \<le> sid" and "sid < 65536" and "length sb = 4"
  shows "\<exists>m'. SetSessionIDAndSystemBytes m sid sb = Inr m' \<and> SetWaitBit m' False = Inr m'
    \<and> DataMessage_ToBytes m' = Inr (s9_frame (word_of_int f) (ToBytes body) sid sb)"
proof -
  let ?m = "m\<lparr>dm_sessionID := sid, dm_systemBytes := sb\<rparr>"
  have m: "m = \<lparr>dm_name = [], dm_stream = 9, dm_function = f, dm_waitBit = 0,
    dm_direction = ''H<-E'', dm_dataItem = body, dm_sessionID = 0, dm_systemBytes = systemBytesCopy sb0\<rparr>"
    using assms S9_message_ok by simp
  have rep: "checkRep ?m = Inr ()" using assms by (simp add: m checkRep_def runes_def)
  moreover have "sendable ?m" using assms by (simp add: m sendable_def)
  ultimately have "DataMessage_ToBytes ?m = Inr (s9_frame (word_of_int f) (ToBytes body) sid sb)"
    using ToBytes_frame by (simp add: s9_frame_def message_header_def header_byte2_def m)
  then show ?thesis
    using rep assms(8) by (intro exI [of _ ?m]) (simp add: SetSessionIDAndSystemBytes_def checked_def SetWaitBit_def m)
qed

lemma BuildS9F3_eq: "BuildS9F3 b sb = S9_message 3 (binary_item [b]) sb"
  and BuildS9F5_eq: "BuildS9F5 b sb = S9_message 5 (binary_item [b]) sb"
  and BuildS9F1_eq: "BuildS9F1 b sb = S9_message 1 (binary_item [b]) sb"
  by (simp_all add: BuildS9F1_def BuildS9F3_def BuildS9F5_def NewBinaryNode_byte)

lemma BuildS9F9_eq: "length h < 256 \<Longrightarrow> BuildS9F9 h sb = S9_message 9 (binary_item h) sb"
  by (simp add: BuildS9F9_def NewBinaryNode_bytes)

lemma stream_wait_byte:
  assumes "0 \<le> s" and "s < 128"
  shows "or (word_of_int s :: byte) 128 = word_of_int (s + 128)"
proof -
  obtain k where k: "s = int k" "k < 128" using assms by (metis nat_0_le nat_less_iff zero_order(1) of_nat_numeral)
  have "or (word_of_nat k :: byte) 128 = word_of_nat (k + 128)" if "k \<in> set [0..<128]" for k
    using that by (auto simp: upt_rec numeral_eq_Suc) 
  then show ?thesis using k by simp
qed

text \<open>The header an S9F9 carries is the header that was sent.\<close>

lemma s9f9_header_sent:
  assumes "checkRep m = Inr ()" and "dm_waitBit m \<noteq> 2"
  shows "s9f9_header m = Inr (message_header m)"
proof -
  have m: "0 \<le> dm_stream m" "dm_stream m < 128" "length (dm_systemBytes m) = 4"
    "dm_waitBit m = 0 \<or> dm_waitBit m = 1"
    using assms by (auto simp: checkRep_Inr_iff)
  then show ?thesis
    using stream_wait_byte [OF m(1,2)]
    by (auto simp: s9f9_header_def WaitBit_def Let_def message_header_def header_byte2_def)
qed

end
