(* ===== verification/Conn_Fsm.thy ===== *)
theory Conn_Fsm
  imports Prelude
begin

text \<open>
  The HSMS connection state machine, \<open>hsms/connectionStateMachine.go\<close>. Its transitions are run by the
  package \<open>looplab/fsm\<close>, which is not part of the repository: \<open>fsm\<close> is a parameter that takes the
  table of transitions, the current state and an event, and gives the error of \<open>Event\<close> (or none) and
  the state afterwards. \<open>fsm_documented\<close> is its documented behaviour: an event that the table lists
  for the current state leads to the destination of that entry without an error, any other event is
  an error and changes nothing. \<open>table_fire\<close> is a function that behaves so.
\<close>

type_synonym fsm_table = "(string \<times> string list \<times> string) list"

type_synonym fsm_event = "fsm_table \<Rightarrow> string \<Rightarrow> string \<Rightarrow> unit res \<times> string"

definition StateNotConnected :: string where
  "StateNotConnected = ''NOT-CONNECTED''"

definition StateConnected :: string where
  "StateConnected = ''CONNECTED''"

definition StateConnectedNotSelected :: string where
  "StateConnectedNotSelected = StateConnected @ ''_'' @ ''NOT-SELECTED''"

definition StateConnectedSelected :: string where
  "StateConnectedSelected = StateConnected @ ''_'' @ ''SELECTED''"

definition connection_table :: fsm_table where
  "connection_table =
     [(''connect'', [StateNotConnected], StateConnectedNotSelected),
      (''disconnect'', [StateConnectedNotSelected, StateConnectedSelected], StateNotConnected),
      (''select'', [StateConnectedNotSelected], StateConnectedSelected),
      (''deselect'', [StateConnectedSelected], StateConnectedNotSelected),
      (''timeoutT7'', [StateConnectedNotSelected], StateNotConnected)]"

fun table_dst :: "fsm_table \<Rightarrow> string \<Rightarrow> string \<Rightarrow> string option" where
  "table_dst [] current event = None"
| "table_dst ((name, src, dst) # t) current event =
     (if name = event \<and> current \<in> set src then Some dst else table_dst t current event)"

definition fsm_documented :: "fsm_event \<Rightarrow> bool" where
  "fsm_documented fsm \<longleftrightarrow> (\<forall>t current event. case table_dst t current event of
      Some dst \<Rightarrow> fsm t current event = (Inr (), dst)
    | None \<Rightarrow> (\<exists>e. fsm t current event = (Inl e, current)))"

definition table_fire :: fsm_event where
  "table_fire t current event = (case table_dst t current event of
      Some dst \<Rightarrow> (Inr (), dst)
    | None \<Rightarrow> (Inl (Err ''event inappropriate in current state''), current))"

lemma table_fire_documented: "fsm_documented table_fire"
  by (simp add: fsm_documented_def table_fire_def split: option.splits)

lemma state_names_distinct [simp]:
  "StateNotConnected \<noteq> StateConnectedNotSelected" "StateNotConnected \<noteq> StateConnectedSelected"
  "StateConnectedNotSelected \<noteq> StateConnectedSelected"
  "StateConnectedNotSelected \<noteq> StateNotConnected" "StateConnectedSelected \<noteq> StateNotConnected"
  "StateConnectedSelected \<noteq> StateConnectedNotSelected"
  by (simp_all add: StateNotConnected_def StateConnectedNotSelected_def StateConnectedSelected_def
      StateConnected_def)

text \<open>The entries of the table, as facts about a documented \<open>fsm\<close>.\<close>

lemma connection_dst:
  "table_dst connection_table s ''connect'' =
     (if s = StateNotConnected then Some StateConnectedNotSelected else None)"
  "table_dst connection_table s ''disconnect'' =
     (if s = StateConnectedNotSelected \<or> s = StateConnectedSelected then Some StateNotConnected else None)"
  "table_dst connection_table s ''select'' =
     (if s = StateConnectedNotSelected then Some StateConnectedSelected else None)"
  "table_dst connection_table s ''deselect'' =
     (if s = StateConnectedSelected then Some StateConnectedNotSelected else None)"
  "table_dst connection_table s ''timeoutT7'' =
     (if s = StateConnectedNotSelected then Some StateNotConnected else None)"
  by (simp_all add: connection_table_def)

lemma table_dst_sound:
  "table_dst t s ev = Some d \<Longrightarrow> \<exists>src. (ev, src, d) \<in> set t \<and> s \<in> set src"
  by (induction t s ev rule: table_dst.induct) (auto split: if_splits)

lemma fsm_Some:
  assumes "fsm_documented fsm" and "table_dst t s ev = Some d"
  shows "fsm t s ev = (Inr (), d)"
  using assms(1) [unfolded fsm_documented_def, rule_format, of t s ev] assms(2) by simp

lemma fsm_None:
  assumes "fsm_documented fsm" and "table_dst t s ev = None"
  shows "\<exists>e. fsm t s ev = (Inl e, s)"
  using assms(1) [unfolded fsm_documented_def, rule_format, of t s ev] assms(2) by simp

section \<open>Control codes\<close>

definition ControlStatusAccepted :: byte where
  "ControlStatusAccepted = 0"

definition ControlStatusDenied :: byte where
  "ControlStatusDenied = 1"

definition RejectReasonBusyOrAlreadyActive :: byte where
  "RejectReasonBusyOrAlreadyActive = 2"

definition RejectReasonNotReady :: byte where
  "RejectReasonNotReady = 4"

end
