(* ===== verification/Secs_Timeout.thy ===== *)
theory Secs_Timeout
  imports Prelude
begin

text \<open>
  The timeouts and the reconnection settings, \<open>hsms/SecsTimeout.go\<close> and
  \<open>hsms/reconnection_config.go\<close>, and the arithmetic of \<open>hsms/reconnection.go\<close>. The getters and setters
  of the source are the selectors and updates of the record.
\<close>

record secs_timeout =
  linktest :: int
  t3ReplyTimeout :: int
  t5ConnSeparateTimeout :: int
  t6ControlTransTimeout :: int
  t7NotSelectTimeout :: int
  t8NetworkIntercharTimeout :: int
  maxReconnectAttempts :: int
  reconnectBackoffBase :: int
  reconnectBackoffMax :: int
  autoReconnect :: bool
  deviceID :: int

definition NewSecsTimeout :: secs_timeout where
  "NewSecsTimeout = \<lparr>linktest = 10, t3ReplyTimeout = 45, t5ConnSeparateTimeout = 10,
     t6ControlTransTimeout = 5, t7NotSelectTimeout = 10, t8NetworkIntercharTimeout = 45,
     maxReconnectAttempts = 10, reconnectBackoffBase = 2, reconnectBackoffMax = 60,
     autoReconnect = True, deviceID = 0\<rparr>"

text \<open>The delay in seconds. The source computes \<open>base * 2^(attempts - 1)\<close> as a \<open>float64\<close>, which is
  exact for the values of the settings up to the point where it exceeds \<open>max\<close>, compares, and
  truncates towards zero; a power of two with a negative exponent divides.\<close>

definition calculateBackoffDelay :: "secs_timeout \<Rightarrow> int \<Rightarrow> int" where
  "calculateBackoffDelay t reconnectAttempts =
     (let base = reconnectBackoffBase t; mx = reconnectBackoffMax t;
          num = base * 2 ^ nat (reconnectAttempts - 1);
          den = 2 ^ nat (1 - reconnectAttempts)
      in if mx * den < num then mx else sgn num * (abs num div den))"

lemma backoff_attempt:
  assumes "1 \<le> n"
  shows "calculateBackoffDelay t n = min (reconnectBackoffBase t * 2 ^ nat (n - 1)) (reconnectBackoffMax t)"
proof -
  have "sgn x * (\<bar>x\<bar> div 1) = x" for x :: int by (simp add: sgn_mult_abs)
  then show ?thesis
    using assms by (simp add: calculateBackoffDelay_def Let_def min_def del: abs_mult)
qed

text \<open>What \<open>startConnectThread\<close> does after one failed attempt to connect of an enabled active
  protocol: the new attempt counter and the delay before the next attempt, or \<open>None\<close> to stop.\<close>

definition after_connect_failure :: "secs_timeout \<Rightarrow> int \<Rightarrow> int \<times> int option" where
  "after_connect_failure t reconnectAttempts =
     (if \<not> autoReconnect t then (reconnectAttempts, None)
      else
        let n = reconnectAttempts + 1; maxAttempts = maxReconnectAttempts t in
        if 0 < maxAttempts \<and> maxAttempts < n then (0, None)
        else (n, Some (calculateBackoffDelay t n)))"

text \<open>The delays of a thread that never connects, for at most \<open>fuel\<close> attempts, and whether the thread
  stopped by itself.\<close>

fun failing_delays :: "nat \<Rightarrow> secs_timeout \<Rightarrow> int \<Rightarrow> int list \<times> bool" where
  "failing_delays 0 t n = ([], False)"
| "failing_delays (Suc fuel) t n = (case after_connect_failure t n of
      (n', None) \<Rightarrow> ([], True)
    | (n', Some d) \<Rightarrow> (case failing_delays fuel t n' of (ds, stop) \<Rightarrow> (d # ds, stop)))"

lemma failing_delays_limit:
  assumes "autoReconnect t" and "0 < maxReconnectAttempts t" and "0 \<le> n" and "n \<le> maxReconnectAttempts t"
    and "k = nat (maxReconnectAttempts t - n)" and "k < fuel"
  shows "failing_delays fuel t n =
    (map (\<lambda>i. calculateBackoffDelay t (n + int i + 1)) [0..<k], True)"
  using assms(3-6)
proof (induction k arbitrary: n fuel)
  case 0
  then obtain f where "fuel = Suc f" by (cases fuel) auto
  with 0 assms(1,2) show ?case by (simp add: after_connect_failure_def Let_def)
next
  case (Suc k)
  then obtain f where f: "fuel = Suc f" by (cases fuel) auto
  have "failing_delays f t (n + 1) =
      (map (\<lambda>i. calculateBackoffDelay t (n + 1 + int i + 1)) [0..<k], True)"
    using Suc.prems f by (intro Suc.IH) auto
  moreover have "after_connect_failure t n = (n + 1, Some (calculateBackoffDelay t (n + 1)))"
    using assms(1,2) Suc.prems by (auto simp: after_connect_failure_def Let_def)
  ultimately show ?case
    by (simp add: f upt_conv_Cons map_Suc_upt [symmetric] comp_def algebra_simps del: upt_Suc)
qed

lemma failing_delays_unlimited:
  assumes "autoReconnect t" and "maxReconnectAttempts t \<le> 0"
  shows "snd (failing_delays fuel t n) = False \<and> length (fst (failing_delays fuel t n)) = fuel"
proof (induction fuel arbitrary: n)
  case (Suc fuel)
  show ?case
    using assms Suc.IH [of "n + 1"]
    by (auto simp: after_connect_failure_def Let_def split: prod.splits)
qed simp

section \<open>Properties\<close>

text \<open>Claim C38. A connect thread that cannot connect gives up: with automatic reconnection and a limit
  of \<open>m\<close> attempts it sleeps exactly \<open>m\<close> times, the \<open>i\<close>-th time for the smaller of
  \<open>base * 2^(i - 1)\<close> and the maximum, and stops after attempt \<open>m + 1\<close>; the delays never decrease and
  never exceed the maximum. Without a limit it never stops.\<close>

theorem reconnect_gives_up:
  assumes "autoReconnect t" and "0 < m" and "0 \<le> reconnectBackoffBase t"
  shows "fst (failing_delays (Suc m) (t\<lparr>maxReconnectAttempts := int m\<rparr>) 0) =
      map (\<lambda>i. min (reconnectBackoffBase t * 2 ^ i) (reconnectBackoffMax t)) [0..<m]
    \<and> snd (failing_delays (Suc m) (t\<lparr>maxReconnectAttempts := int m\<rparr>) 0)
    \<and> sorted (fst (failing_delays (Suc m) (t\<lparr>maxReconnectAttempts := int m\<rparr>) 0))
    \<and> (\<forall>d \<in> set (fst (failing_delays (Suc m) (t\<lparr>maxReconnectAttempts := int m\<rparr>) 0)).
         d \<le> reconnectBackoffMax t)
    \<and> \<not> snd (failing_delays fuel (t\<lparr>maxReconnectAttempts := 0\<rparr>) n)"
proof -
  let ?t = "t\<lparr>maxReconnectAttempts := int m\<rparr>"
  let ?ds = "map (\<lambda>i. min (reconnectBackoffBase t * 2 ^ i) (reconnectBackoffMax t)) [0..<m]"
  have "calculateBackoffDelay ?t (int i + 1) = min (reconnectBackoffBase t * 2 ^ i) (reconnectBackoffMax t)" for i
    using backoff_attempt [of "int i + 1" ?t] by simp
  then have "failing_delays (Suc m) ?t 0 = (?ds, True)"
    using failing_delays_limit [of ?t 0 m "Suc m"] assms(1,2) by simp
  moreover have mono: "reconnectBackoffBase t * 2 ^ i \<le> reconnectBackoffBase t * 2 ^ j" if "i < j" for i j
    using that assms(3) by (intro mult_left_mono power_increasing) auto
  have "sorted ?ds"
    unfolding sorted_map
    by (rule sorted_wrt_mono_rel [of "[0..<m]" "(<)"])
       (auto simp: sorted_wrt_upt intro: min.coboundedI1 mono)
  moreover have "\<not> snd (failing_delays fuel (t\<lparr>maxReconnectAttempts := 0\<rparr>) n)"
    using failing_delays_unlimited [of "t\<lparr>maxReconnectAttempts := 0\<rparr>" fuel n] assms(1) by simp
  ultimately show ?thesis using \<open>sorted ?ds\<close> by auto
qed

theorem reconnect_gives_up_witness:
  "fst (failing_delays 11 (NewSecsTimeout\<lparr>maxReconnectAttempts := int 10\<rparr>) 0) =
     [2, 4, 8, 16, 32, 60, 60, 60, 60, 60]
   \<and> snd (failing_delays 11 (NewSecsTimeout\<lparr>maxReconnectAttempts := int 10\<rparr>) 0)"
proof -
  have "autoReconnect NewSecsTimeout" "0 \<le> reconnectBackoffBase NewSecsTimeout" by code_simp+
  with reconnect_gives_up [of NewSecsTimeout 10] show ?thesis
    by (simp add: NewSecsTimeout_def upt_rec)
qed

end
