(* ===== verification/Registry.thy ===== *)
theory Registry
  imports Prelude
begin

text \<open>
  Two interfaces that several components provide and others rely on: a keyed registry (session
  managers, reply queues, message handlers) and a first-in first-out queue (the reply queue). Each
  is a locale whose assumptions are the laws the clients use; the interpretations stand in the
  theories of the providers.
\<close>

section \<open>Keyed registries\<close>

text \<open>\<open>ok k v s\<close> says when \<open>put\<close> of \<open>v\<close> under \<open>k\<close> is taken up.\<close>

locale registry =
  fixes get :: "'s \<Rightarrow> 'k \<Rightarrow> 'v option"
    and put :: "'k \<Rightarrow> 'v \<Rightarrow> 's \<Rightarrow> 's"
    and del :: "'k \<Rightarrow> 's \<Rightarrow> 's"
    and inv :: "'s \<Rightarrow> bool"
    and ok :: "'k \<Rightarrow> 'v \<Rightarrow> 's \<Rightarrow> bool"
  assumes get_put: "inv s \<Longrightarrow> ok k v s \<Longrightarrow> get (put k v s) j = (if j = k then Some v else get s j)"
    and get_del: "inv s \<Longrightarrow> get (del k s) j = (if j = k then None else get s j)"
    and inv_put: "inv s \<Longrightarrow> ok k v s \<Longrightarrow> inv (put k v s)"
    and inv_del: "inv s \<Longrightarrow> inv (del k s)"
    and ok_put: "inv s \<Longrightarrow> ok k v s \<Longrightarrow> ok j w s \<Longrightarrow> ok j w (put k v s)"
    and ok_del: "inv s \<Longrightarrow> ok k v s \<Longrightarrow> ok k v (del j s)"
begin

lemma put_overwrites:
  assumes "inv s" and "ok k v s" and "ok k w s"
  shows "get (put k w (put k v s)) j = get (put k w s) j"
  using assms by (simp add: get_put inv_put ok_put)

lemma put_del:
  assumes "inv s" and "ok k v s" and "get s k = None"
  shows "get (del k (put k v s)) j = get s j"
  using assms by (simp add: get_put get_del inv_put)

text \<open>After any sequence of \<open>put\<close>s the value under a key is the last one put there.\<close>

lemma puts_last_wins:
  assumes "inv s" and "\<And>k v. (k, v) \<in> set kvs \<Longrightarrow> ok k v s"
  shows "inv (fold (\<lambda>(k, v). put k v) kvs s)
    \<and> get (fold (\<lambda>(k, v). put k v) kvs s) j =
        (case map_of (rev kvs) j of None \<Rightarrow> get s j | Some v \<Rightarrow> Some v)"
  using assms
proof (induction kvs arbitrary: s)
  case (Cons p kvs)
  obtain k v where p: "p = (k, v)" by force
  have okp: "ok k v s" using Cons.prems(2) p by simp
  have "inv (put k v s)" using Cons.prems(1) okp by (rule inv_put)
  moreover have "ok k' v' (put k v s)" if "(k', v') \<in> set kvs" for k' v'
    using that Cons.prems okp by (intro ok_put) auto
  ultimately show ?case
    using Cons.IH [of "put k v s"] Cons.prems(1) okp
    by (auto simp: p get_put map_add_def split: option.splits)
qed simp

lemma dels_gone:
  assumes "inv s"
  shows "inv (fold del ks s) \<and> get (fold del ks s) j = (if j \<in> set ks then None else get s j)"
  using assms by (induction ks arbitrary: s) (auto simp: get_del inv_del)

end

section \<open>First-in first-out queues\<close>

locale fifo =
  fixes enq :: "'a \<Rightarrow> 'q \<Rightarrow> 'q"
    and deq :: "'q \<Rightarrow> ('a \<times> 'q) option"
    and elems :: "'q \<Rightarrow> 'a list"
  assumes elems_enq: "elems (enq x q) = elems q @ [x]"
    and deq_None: "deq q = None \<longleftrightarrow> elems q = []"
    and deq_Some: "deq q = Some (x, q') \<Longrightarrow> elems q = x # elems q'"
begin

lemma deq_oldest:
  assumes "elems q = x # xs"
  shows "\<exists>q'. deq q = Some (x, q') \<and> elems q' = xs"
proof (cases "deq q")
  case None
  then show ?thesis using assms deq_None by simp
next
  case (Some p)
  then obtain y q' where "deq q = Some (y, q')" by (cases p) auto
  with deq_Some [OF this] assms show ?thesis by simp
qed

fun drain :: "nat \<Rightarrow> 'q \<Rightarrow> 'a list" where
  "drain 0 q = []"
| "drain (Suc n) q = (case deq q of None \<Rightarrow> [] | Some (x, q') \<Rightarrow> x # drain n q')"

lemma elems_enqs: "elems (fold enq xs q) = elems q @ xs"
  by (induction xs arbitrary: q) (simp_all add: elems_enq)

lemma drain_elems: "drain (length (elems q)) q = elems q"
proof (induction "elems q" arbitrary: q)
  case Nil
  then show ?case by simp
next
  case (Cons x xs)
  obtain q' where q': "deq q = Some (x, q')" "elems q' = xs"
    using deq_oldest [of q x xs] Cons.hyps(2) by auto
  with Cons show ?case by (metis drain.simps(2) length_Cons option.case(2) prod.case)
qed

lemma drain_enqs: "elems q = [] \<Longrightarrow> drain (length xs) (fold enq xs q) = xs"
  using drain_elems [of "fold enq xs q"] by (simp add: elems_enqs)

end

section \<open>Registries that keep their order\<close>

text \<open>A registry to which values are only added, each under its own key and once; it remembers the
  order of registration. \<open>allowed\<close> is the condition under which it takes anything.\<close>

locale ordered_registry =
  fixes get :: "'s \<Rightarrow> 'k \<Rightarrow> 'v option"
    and order :: "'s \<Rightarrow> 'k list"
    and key :: "'v \<Rightarrow> 'k"
    and register :: "'v option \<Rightarrow> 's \<Rightarrow> unit res \<times> 's"
    and allowed :: "'s \<Rightarrow> bool"
  assumes register_new: "allowed s \<Longrightarrow> get s (key v) = None \<Longrightarrow>
      fst (register (Some v) s) = Inr () \<and> allowed (snd (register (Some v) s)) \<and>
      get (snd (register (Some v) s)) = (get s)(key v \<mapsto> v) \<and>
      order (snd (register (Some v) s)) = order s @ [key v]"
    and register_refused: "\<not> allowed s \<or> get s (key v) \<noteq> None \<Longrightarrow>
      \<exists>e. register (Some v) s = (Inl e, s)"
    and register_nil: "\<exists>e. register None s = (Inl e, s)"
begin

definition in_order :: "'s \<Rightarrow> bool" where
  "in_order s \<longleftrightarrow> distinct (order s) \<and> dom (get s) = set (order s) \<and>
     (\<forall>k v. get s k = Some v \<longrightarrow> key v = k)"

lemma register_in_order:
  assumes "in_order s"
  shows "in_order (snd (register x s))"
proof (cases x)
  case None
  then show ?thesis using assms register_nil [of s] by auto
next
  case (Some v)
  show ?thesis
  proof (cases "allowed s \<and> get s (key v) = None")
    case True
    then have "key v \<notin> set (order s)" using assms by (auto simp: in_order_def)
    then show ?thesis
      using True assms register_new [of s v] Some by (auto simp: in_order_def dom_def split: if_splits)
  next
    case False
    then show ?thesis using assms register_refused [of s v] Some by auto
  qed
qed

text \<open>The first value registered under a key stays.\<close>

lemma register_keeps:
  assumes "get s k = Some v"
  shows "get (snd (register x s)) k = Some v"
proof (cases x)
  case None
  then show ?thesis using assms register_nil [of s] by auto
next
  case (Some w)
  then show ?thesis
    using assms register_new [of s w] register_refused [of s w]
    by (cases "allowed s \<and> get s (key w) = None") auto
qed

lemma register_order: "\<exists>ks. order (snd (register x s)) = order s @ ks"
proof (cases x)
  case None
  then show ?thesis using register_nil [of s] by auto
next
  case (Some w)
  then show ?thesis
    using register_new [of s w] register_refused [of s w]
    by (cases "allowed s \<and> get s (key w) = None") auto
qed

text \<open>Registering values with different keys in turn lists exactly them, in that order.\<close>

lemma register_all:
  assumes "allowed s" and "distinct (map key vs)" and "\<And>v. v \<in> set vs \<Longrightarrow> get s (key v) = None"
  shows "order (fold (\<lambda>v s. snd (register (Some v) s)) vs s) = order s @ map key vs
    \<and> (\<forall>v \<in> set vs. get (fold (\<lambda>v s. snd (register (Some v) s)) vs s) (key v) = Some v)
    \<and> (\<forall>k. k \<notin> key ` set vs \<longrightarrow> get (fold (\<lambda>v s. snd (register (Some v) s)) vs s) k = get s k)"
  using assms
proof (induction vs arbitrary: s)
  case (Cons v vs)
  let ?s = "snd (register (Some v) s)"
  have new: "allowed ?s" "get ?s = (get s)(key v \<mapsto> v)" "order ?s = order s @ [key v]"
    using register_new [of s v] Cons.prems by auto
  have "get ?s (key w) = None" if "w \<in> set vs" for w
    using that Cons.prems new(2) by (auto simp: image_iff)
  then have IH: "order (fold (\<lambda>v s. snd (register (Some v) s)) vs ?s) = order ?s @ map key vs
    \<and> (\<forall>v \<in> set vs. get (fold (\<lambda>v s. snd (register (Some v) s)) vs ?s) (key v) = Some v)
    \<and> (\<forall>k. k \<notin> key ` set vs \<longrightarrow> get (fold (\<lambda>v s. snd (register (Some v) s)) vs ?s) k = get ?s k)"
    using Cons.prems new(1) by (intro Cons.IH) auto
  moreover have "key v \<notin> key ` set vs" using Cons.prems by simp
  ultimately show ?case using new by simp
qed simp

end

end
