(* ===== verification/Deque_Queue.thy ===== *)
theory Deque_Queue
  imports Registry
begin

text \<open>
  The reply queue \<open>utils/queue.go\<close>. Its container lists the items front to back: \<open>Put\<close> pushes at the
  front, \<open>Get\<close> removes at the back. The first section is the container on its own, an instance of
  the locale \<open>fifo\<close>. The second is one \<open>Get\<close> running against any number of \<open>Put\<close>s, as steps between
  the points where the mutex is free: \<open>Put\<close> inserts under the lock and, after unlocking, signals on
  an unbuffered channel if a receiver is waiting there at that moment; \<open>Get\<close> checks under the lock,
  unlocks, and only then starts to wait for the signal or the deadline.
\<close>

section \<open>The container\<close>

definition Put :: "'a \<Rightarrow> 'a list \<Rightarrow> 'a list" where
  "Put x container = x # container"

definition try_get :: "'a list \<Rightarrow> ('a \<times> 'a list) option" where
  "try_get container = (if container = [] then None else Some (last container, butlast container))"

interpretation dq: fifo Put try_get rev
proof
  show "rev (Put x q) = rev q @ [x]" for x :: 'a and q by (simp add: Put_def)
  show "try_get q = None \<longleftrightarrow> rev q = []" for q :: "'a list" by (simp add: try_get_def)
  show "try_get q = Some (x, q') \<Longrightarrow> rev q = x # rev q'" for x :: 'a and q q'
    by (cases q rule: rev_cases) (auto simp: try_get_def split: if_splits)
qed

section \<open>A waiting Get and concurrent Puts\<close>

datatype 'a getter = Idle | Checking | Unlocked | Waiting | Returned 'a | TimedOut

record 'a deque_run =
  dr_container :: "'a list"
  dr_getter :: "'a getter"
  dr_notifiers :: nat
  dr_puts :: "'a list"

definition deque_start :: "'a deque_run" where
  "deque_start = \<lparr>dr_container = [], dr_getter = Idle, dr_notifiers = 0, dr_puts = []\<rparr>"

inductive deque_step :: "'a deque_run \<Rightarrow> 'a deque_run \<Rightarrow> bool" where
  get_lock: "dr_getter s = Idle \<Longrightarrow> deque_step s (s\<lparr>dr_getter := Checking\<rparr>)"
| get_found: "dr_getter s = Checking \<Longrightarrow> try_get (dr_container s) = Some (x, c) \<Longrightarrow>
    deque_step s (s\<lparr>dr_getter := Returned x, dr_container := c\<rparr>)"
| get_empty: "dr_getter s = Checking \<Longrightarrow> dr_container s = [] \<Longrightarrow>
    deque_step s (s\<lparr>dr_getter := Unlocked\<rparr>)"
| get_late: "dr_getter s = Checking \<Longrightarrow> dr_container s = [] \<Longrightarrow>
    deque_step s (s\<lparr>dr_getter := TimedOut\<rparr>)"
| get_wait: "dr_getter s = Unlocked \<Longrightarrow> deque_step s (s\<lparr>dr_getter := Waiting\<rparr>)"
| get_expire: "dr_getter s = Waiting \<Longrightarrow> deque_step s (s\<lparr>dr_getter := TimedOut\<rparr>)"
| put_insert: "dr_getter s \<noteq> Checking \<Longrightarrow>
    deque_step s (s\<lparr>dr_container := Put x (dr_container s), dr_notifiers := Suc (dr_notifiers s),
      dr_puts := dr_puts s @ [x]\<rparr>)"
| put_signal: "dr_notifiers s = Suc n \<Longrightarrow> dr_getter s = Waiting \<Longrightarrow>
    deque_step s (s\<lparr>dr_notifiers := n, dr_getter := Checking\<rparr>)"
| put_drop: "dr_notifiers s = Suc n \<Longrightarrow> dr_getter s \<noteq> Waiting \<Longrightarrow>
    deque_step s (s\<lparr>dr_notifiers := n\<rparr>)"

inductive_simps deque_step_simps: "deque_step s t"

inductive deque_reach :: "'a deque_run \<Rightarrow> bool" where
  start: "deque_reach deque_start"
| step: "deque_reach s \<Longrightarrow> deque_step s t \<Longrightarrow> deque_reach t"

text \<open>What has been put is what was returned followed by what is still in the container.\<close>

definition taken :: "'a getter \<Rightarrow> 'a list" where
  "taken g = (case g of Returned x \<Rightarrow> [x] | _ \<Rightarrow> [])"

lemma taken_simps [simp]:
  "taken Idle = []" "taken Checking = []" "taken Unlocked = []" "taken Waiting = []"
  "taken (Returned x) = [x]" "taken TimedOut = []"
  by (simp_all add: taken_def)

definition deque_inv :: "'a deque_run \<Rightarrow> bool" where
  "deque_inv s \<longleftrightarrow> dr_puts s = taken (dr_getter s) @ rev (dr_container s)"

lemma deque_inv_step: "deque_step s t \<Longrightarrow> deque_inv s \<Longrightarrow> deque_inv t"
proof (induction rule: deque_step.induct)
  case (get_found s x c)
  then have "rev (dr_container s) = x # rev c" by (intro dq.deq_Some)
  with get_found show ?case by (simp add: deque_inv_def)
qed (simp_all add: deque_inv_def Put_def)

lemma deque_reach_inv: "deque_reach s \<Longrightarrow> deque_inv s"
proof (induction rule: deque_reach.induct)
  case start
  show ?case by (simp add: deque_inv_def deque_start_def)
qed (rule deque_inv_step)

text \<open>A waiting \<open>Get\<close> whose signal was dropped: the item is there, nobody will signal it.\<close>

definition missed :: "'a deque_run \<Rightarrow> bool" where
  "missed s \<longleftrightarrow> dr_getter s = Waiting \<and> dr_container s \<noteq> [] \<and> dr_notifiers s = 0"

lemma missed_step:
  assumes "missed s" and "deque_step s t"
  shows "t = s\<lparr>dr_getter := TimedOut\<rparr> \<or> (\<exists>x. dr_puts t = dr_puts s @ [x])"
  using assms(2,1) by (cases rule: deque_step.cases) (auto simp: missed_def)

definition missed_run :: "'a \<Rightarrow> 'a deque_run" where
  "missed_run x = \<lparr>dr_container = [x], dr_getter = Waiting, dr_notifiers = 0, dr_puts = [x]\<rparr>"

lemma missed_run_reachable: "deque_reach (missed_run x)"
proof -
  let ?s1 = "\<lparr>dr_container = [], dr_getter = Checking, dr_notifiers = 0, dr_puts = []\<rparr>"
  let ?s2 = "?s1\<lparr>dr_getter := Unlocked\<rparr>"
  let ?s3 = "\<lparr>dr_container = [x], dr_getter = Unlocked, dr_notifiers = 1, dr_puts = [x]\<rparr>"
  let ?s4 = "?s3\<lparr>dr_notifiers := 0\<rparr>"
  have "deque_reach ?s1"
    using deque_reach.step [OF deque_reach.start get_lock] by (simp add: deque_start_def)
  then have "deque_reach ?s2" by (rule deque_reach.step) (rule get_empty; simp)
  moreover have "deque_step ?s2 ?s3" using put_insert [of ?s2 x] by (simp add: Put_def)
  ultimately have "deque_reach ?s3" by (rule deque_reach.step)
  then have "deque_reach ?s4" by (rule deque_reach.step) (rule put_drop; simp)
  moreover have "deque_step ?s4 (missed_run x)"
    using get_wait [of ?s4] by (simp add: missed_run_def)
  ultimately show ?thesis by (rule deque_reach.step)
qed

text \<open>A \<open>Get\<close> that looks at a container with an item returns the oldest one: the only other step
  is the end of a \<open>Put\<close> whose signal nobody awaits. A \<open>Get\<close> that waits while a \<open>Put\<close> has still to
  signal cannot lose that signal: it is woken, or its deadline passes first, or another item comes.\<close>

lemma checking_step:
  assumes "deque_step s t" and "dr_getter s = Checking" and "dr_container s \<noteq> []"
  shows "dr_getter t = Returned (last (dr_container s)) \<and> dr_container t = butlast (dr_container s)
    \<or> dr_getter t = Checking \<and> dr_container t = dr_container s \<and> dr_puts t = dr_puts s"
  using assms by (cases rule: deque_step.cases) (auto simp: try_get_def split: if_splits)

lemma checking_returns:
  assumes "dr_getter s = Checking" and "dr_container s \<noteq> []"
  shows "deque_step s (s\<lparr>dr_getter := Returned (last (dr_container s)),
    dr_container := butlast (dr_container s)\<rparr>)"
  using assms by (intro get_found) (simp_all add: try_get_def)

lemma checking_oldest:
  assumes "deque_reach s" and "dr_getter s = Checking" and "dr_puts s \<noteq> []"
  shows "dr_container s \<noteq> []" and "last (dr_container s) = hd (dr_puts s)"
  using deque_reach_inv [OF assms(1)] assms(2,3) by (simp_all add: deque_inv_def hd_rev)

lemma signalled_step:
  assumes "deque_step s t" and "dr_getter s = Waiting" and "0 < dr_notifiers s"
  shows "dr_getter t \<in> {Checking, TimedOut} \<and> dr_container t = dr_container s
    \<or> dr_getter t = Waiting \<and> 0 < dr_notifiers t \<and> (\<exists>x. dr_container t = Put x (dr_container s))"
  using assms by (cases rule: deque_step.cases) auto

section \<open>Properties\<close>

text \<open>Claim C26. Items leave the reply queue in the order they were put, and a \<open>Get\<close> that returns
  under concurrent \<open>Put\<close>s returns the first item that was put, losing none of the others. A \<open>Get\<close>
  that looks at the queue while an item is in it can return the first one and does nothing else,
  whatever its deadline. A \<open>Get\<close> that waits while a \<open>Put\<close> has still to signal can be woken by it, and
  until it is woken or its deadline passes the signal stays outstanding. (It is not claimed that every
  \<open>Get\<close> with an item in the queue returns: \<open>lost_wakeup\<close> below is the run where the signal came
  before the wait.)\<close>

theorem queue_is_fifo:
  "dq.drain (length xs) (fold Put xs []) = (xs :: 'a list)
   \<and> (\<forall>(s :: 'a deque_run) x. deque_reach s \<and> dr_getter s = Returned x \<longrightarrow> dr_puts s = x # rev (dr_container s))
   \<and> (\<forall>s :: 'a deque_run. deque_reach s \<and> dr_getter s = Checking \<and> dr_puts s \<noteq> [] \<longrightarrow>
        (\<exists>t. deque_step s t \<and> dr_getter t = Returned (hd (dr_puts s)))
        \<and> (\<forall>t. deque_step s t \<longrightarrow> dr_getter t = Returned (hd (dr_puts s))
              \<or> dr_getter t = Checking \<and> dr_puts t = dr_puts s))
   \<and> (\<forall>s :: 'a deque_run. deque_reach s \<and> dr_getter s = Waiting \<and> 0 < dr_notifiers s \<longrightarrow>
        deque_step s (s\<lparr>dr_notifiers := dr_notifiers s - 1, dr_getter := Checking\<rparr>)
        \<and> (\<forall>t. deque_step s t \<longrightarrow> dr_getter t \<in> {Checking, TimedOut}
              \<or> dr_getter t = Waiting \<and> 0 < dr_notifiers t))"
proof (intro conjI allI impI; (elim conjE)?)
  show "dq.drain (length xs) (fold Put xs []) = xs"
    using dq.drain_enqs [of "[]" xs] by simp
  fix s :: "'a deque_run" and x assume "deque_reach s" "dr_getter s = Returned x"
  then show "dr_puts s = x # rev (dr_container s)"
    using deque_reach_inv [of s] by (simp add: deque_inv_def)
next
  fix s :: "'a deque_run" assume s: "deque_reach s" "dr_getter s = Checking" "dr_puts s \<noteq> []"
  show "\<exists>t. deque_step s t \<and> dr_getter t = Returned (hd (dr_puts s))"
  proof (intro exI conjI)
    show "deque_step s (s\<lparr>dr_getter := Returned (last (dr_container s)),
        dr_container := butlast (dr_container s)\<rparr>)"
      by (rule checking_returns [OF s(2) checking_oldest(1) [OF s]])
  qed (simp add: checking_oldest(2) [OF s])
  fix t assume "deque_step s t"
  from checking_step [OF this s(2) checking_oldest(1) [OF s]] checking_oldest(2) [OF s]
  show "dr_getter t = Returned (hd (dr_puts s)) \<or> dr_getter t = Checking \<and> dr_puts t = dr_puts s"
    by auto
next
  fix s :: "'a deque_run" assume s: "dr_getter s = Waiting" "0 < dr_notifiers s"
  then show "deque_step s (s\<lparr>dr_notifiers := dr_notifiers s - 1, dr_getter := Checking\<rparr>)"
    by (intro put_signal) simp_all
  fix t assume "deque_step s t"
  from signalled_step [OF this s]
  show "dr_getter t \<in> {Checking, TimedOut} \<or> dr_getter t = Waiting \<and> 0 < dr_notifiers t" by blast
qed

theorem queue_is_fifo_witness:
  "\<exists>s. deque_reach s \<and> dr_getter s = Returned (7::nat) \<and> dr_puts s = [7]"
proof -
  let ?s1 = "\<lparr>dr_container = [7], dr_getter = Idle, dr_notifiers = 1, dr_puts = [7::nat]\<rparr>"
  let ?s2 = "?s1\<lparr>dr_getter := Checking\<rparr>"
  let ?s3 = "?s1\<lparr>dr_getter := Returned 7, dr_container := []\<rparr>"
  have "deque_reach ?s1"
    using deque_reach.step [OF deque_reach.start put_insert [of deque_start 7]]
    by (simp add: deque_start_def Put_def)
  then have "deque_reach ?s2" by (rule deque_reach.step) (rule get_lock; simp)
  moreover have "deque_step ?s2 ?s3" using get_found [of ?s2 7 "[]"] by (simp add: try_get_def)
  ultimately have r: "deque_reach ?s3" by (rule deque_reach.step)
  from queue_is_fifo [where xs = "[]"] r have "dr_puts ?s3 = 7 # rev (dr_container ?s3)" by force
  with r show ?thesis by (intro exI [of _ ?s3]) simp
qed

text \<open>Lost wake-up: an item put between the moment \<open>Get\<close> releases the lock and the moment
  it starts to wait is not signalled. The state in which \<open>Get\<close> waits while the item is in the queue
  and no signal is outstanding is reachable, and unless another item is put the only step from it
  is the time-out.\<close>

theorem lost_wakeup:
  "deque_reach (missed_run x) \<and> missed (missed_run x)
   \<and> (\<forall>t. deque_step (missed_run x) t \<longrightarrow>
        (dr_getter t = TimedOut \<and> dr_container t = [x]) \<or> (\<exists>y. dr_puts t = [x, y]))"
proof -
  have m: "missed (missed_run x)" by (simp add: missed_def missed_run_def)
  have "(dr_getter t = TimedOut \<and> dr_container t = [x]) \<or> (\<exists>y. dr_puts t = [x, y])"
    if "deque_step (missed_run x) t" for t
    using missed_step [OF m that] by (auto simp: missed_run_def)
  then have "\<forall>t. deque_step (missed_run x) t \<longrightarrow>
      (dr_getter t = TimedOut \<and> dr_container t = [x]) \<or> (\<exists>y. dr_puts t = [x, y])" by simp
  then show ?thesis using m missed_run_reachable by simp
qed

theorem lost_wakeup_witness:
  "\<exists>t. deque_step (missed_run (3::nat)) t \<and> dr_getter t = TimedOut \<and> dr_container t = [3]"
proof -
  let ?t = "(missed_run (3::nat))\<lparr>dr_getter := TimedOut\<rparr>"
  have s: "deque_step (missed_run 3) ?t" by (rule get_expire) (simp add: missed_run_def)
  with lost_wakeup [of "3::nat"] have "dr_getter ?t = TimedOut \<and> dr_container ?t = [3] \<or>
      (\<exists>y. dr_puts ?t = [3, y])" by blast
  then have "dr_getter ?t = TimedOut \<and> dr_container ?t = [3]" by (simp add: missed_run_def)
  with s show ?thesis by blast
qed

end
