(* ===== verification/Link_Session.thy ===== *)
theory Link_Session
  imports Registry "HOL-Library.AList"
begin

text \<open>
  The link layer: \<open>session.go\<close>, \<open>manager.go\<close> and \<open>channel.go\<close>. A session owns a codec and an optional
  send channel; the manager keeps the sessions of a server in 32 maps chosen by the session id; a
  channel groups sessions under keys and removes a session when it closes.

  A session is a value of the record \<open>session\<close> over the state \<open>'c\<close> of its codec; sending is a
  parameter, since a session takes any codec. A pointer to a session is its id. The callbacks a
  session runs when it closes are those of channels, so a callback is the channel (a number) and the
  key it was put under; \<open>closeMutex\<close>, \<open>sendMutex\<close> and \<open>recvMutex\<close> make each operation one step.
  \<open>WaitGroup\<close> is its counter.
\<close>

section \<open>Sessions\<close>

record ('m, 'c) session =
  ss_id :: nat
  ss_codec :: 'c
  ss_sendChan :: "'m list option"
  ss_chanCap :: nat
  ss_closed :: bool
  ss_callbacks :: "(nat \<times> nat) list"

definition newSession :: "nat \<Rightarrow> 'c \<Rightarrow> nat \<Rightarrow> ('m, 'c) session" where
  "newSession sid codec sendChanSize =
     \<lparr>ss_id = sid, ss_codec = codec, ss_sendChan = (if 0 < sendChanSize then Some [] else None),
      ss_chanCap = sendChanSize, ss_closed = False, ss_callbacks = []\<rparr>"

text \<open>\<open>Close\<close> closes the codec the first time and reports \<open>SessionClosedError\<close> afterwards. The callbacks
  run in a goroutine of their own: \<open>invokeCloseCallbacks\<close> gives them in their order.\<close>

definition Session_Close :: "('c \<Rightarrow> unit res \<times> 'c) \<Rightarrow> ('m, 'c) session \<Rightarrow> unit res \<times> ('m, 'c) session" where
  "Session_Close codec_close s =
     (if ss_closed s then (Inl (Err ''Session Closed''), s)
      else case codec_close (ss_codec s) of
        (r, c) \<Rightarrow> (r, s\<lparr>ss_closed := True, ss_codec := c\<rparr>))"

definition invokeCloseCallbacks :: "('m, 'c) session \<Rightarrow> (nat \<times> nat) list" where
  "invokeCloseCallbacks s = ss_callbacks s"

definition Session_Receive ::
  "('c \<Rightarrow> 'r res \<times> 'c) \<Rightarrow> ('c \<Rightarrow> unit res \<times> 'c) \<Rightarrow> ('m, 'c) session \<Rightarrow> 'r res \<times> ('m, 'c) session" where
  "Session_Receive codec_receive codec_close s = (case codec_receive (ss_codec s) of
      (Inr msg, c) \<Rightarrow> (Inr msg, s\<lparr>ss_codec := c\<rparr>)
    | (Inl e, c) \<Rightarrow> (Inl e, snd (Session_Close codec_close (s\<lparr>ss_codec := c\<rparr>))))"

definition Session_Send ::
  "('m \<Rightarrow> 'c \<Rightarrow> unit res \<times> 'c) \<Rightarrow> ('c \<Rightarrow> unit res \<times> 'c) \<Rightarrow> 'm \<Rightarrow> ('m, 'c) session
     \<Rightarrow> unit res \<times> ('m, 'c) session" where
  "Session_Send codec_send codec_close msg s = (case ss_sendChan s of
      None \<Rightarrow>
        if ss_closed s then (Inl (Err ''Session Closed''), s)
        else (case codec_send msg (ss_codec s) of
            (Inr u, c) \<Rightarrow> (Inr (), s\<lparr>ss_codec := c\<rparr>)
          | (Inl e, c) \<Rightarrow> (Inl e, snd (Session_Close codec_close (s\<lparr>ss_codec := c\<rparr>))))
    | Some q \<Rightarrow>
        if ss_closed s then (Inl (Err ''Session Closed''), s)
        else if length q < ss_chanCap s then (Inr (), s\<lparr>ss_sendChan := Some (q @ [msg])\<rparr>)
        else (Inl (Err ''Session Blocked''), snd (Session_Close codec_close s)))"

text \<open>One round of \<open>sendLoop\<close> on a non-empty channel; \<open>None\<close> when there is nothing to receive.\<close>

definition sendLoop_step ::
  "('m \<Rightarrow> 'c \<Rightarrow> unit res \<times> 'c) \<Rightarrow> ('c \<Rightarrow> unit res \<times> 'c) \<Rightarrow> ('m, 'c) session
     \<Rightarrow> ('m, 'c) session option" where
  "sendLoop_step codec_send codec_close s = (case ss_sendChan s of
      Some (msg # q) \<Rightarrow> (case codec_send msg (ss_codec s) of
          (Inr u, c) \<Rightarrow> Some (s\<lparr>ss_codec := c, ss_sendChan := Some q\<rparr>)
        | (Inl e, c) \<Rightarrow>
            Some (snd (Session_Close codec_close (s\<lparr>ss_codec := c, ss_sendChan := Some q\<rparr>))))
    | _ \<Rightarrow> None)"

definition AddCloseCallback :: "nat \<Rightarrow> nat \<Rightarrow> ('m, 'c) session \<Rightarrow> ('m, 'c) session" where
  "AddCloseCallback handler key s =
     (if ss_closed s then s else s\<lparr>ss_callbacks := ss_callbacks s @ [(handler, key)]\<rparr>)"

fun remove_callback :: "nat \<Rightarrow> nat \<Rightarrow> (nat \<times> nat) list \<Rightarrow> (nat \<times> nat) list" where
  "remove_callback handler key [] = []"
| "remove_callback handler key (c # cs) =
     (if c = (handler, key) then cs else c # remove_callback handler key cs)"

definition RemoveCloseCallback :: "nat \<Rightarrow> nat \<Rightarrow> ('m, 'c) session \<Rightarrow> ('m, 'c) session" where
  "RemoveCloseCallback handler key s =
     (if ss_closed s then s else s\<lparr>ss_callbacks := remove_callback handler key (ss_callbacks s)\<rparr>)"

section \<open>The manager\<close>

record shard =
  sh_sessions :: "nat list"
  sh_disposed :: bool

record manager =
  mg_shards :: "shard list"
  mg_wait :: int
  mg_disposed :: bool
  mg_closed :: "nat list"

definition sessionMapNum :: nat where
  "sessionMapNum = 32"

definition NewManager :: manager where
  "NewManager = \<lparr>mg_shards = replicate sessionMapNum \<lparr>sh_sessions = [], sh_disposed = False\<rparr>,
     mg_wait = 0, mg_disposed = False, mg_closed = []\<rparr>"

abbreviation shard_of :: "nat \<Rightarrow> manager \<Rightarrow> shard" where
  "shard_of sid m \<equiv> mg_shards m ! (sid mod sessionMapNum)"

definition GetSession :: "manager \<Rightarrow> nat \<Rightarrow> nat option" where
  "GetSession m sid = (if sid \<in> set (sh_sessions (shard_of sid m)) then Some sid else None)"

text \<open>\<open>mg_closed\<close> records the sessions the manager closes. A session id is put once: ids come from a
  counter that only grows; putting an id again would overwrite the entry.\<close>

definition putSession :: "nat \<Rightarrow> manager \<Rightarrow> manager" where
  "putSession sid m =
     (let i = sid mod sessionMapNum; sh = mg_shards m ! i in
      if sh_disposed sh then m\<lparr>mg_closed := mg_closed m @ [sid]\<rparr>
      else m\<lparr>mg_shards := (mg_shards m)[i := sh\<lparr>sh_sessions := List.insert sid (sh_sessions sh)\<rparr>],
             mg_wait := mg_wait m + 1\<rparr>)"

definition delSession :: "nat \<Rightarrow> manager \<Rightarrow> manager" where
  "delSession sid m =
     (let i = sid mod sessionMapNum; sh = mg_shards m ! i in
      if sid \<in> set (sh_sessions sh)
      then m\<lparr>mg_shards := (mg_shards m)[i := sh\<lparr>sh_sessions := remove1 sid (sh_sessions sh)\<rparr>],
             mg_wait := mg_wait m - 1\<rparr>
      else m)"

text \<open>\<open>Dispose\<close> up to the wait for the counter to reach zero. Closing a session starts its
  \<open>delSession\<close> in another goroutine, which the held lock of the map delays.\<close>

fun dispose_shards :: "shard list \<Rightarrow> shard list \<times> nat list" where
  "dispose_shards [] = ([], [])"
| "dispose_shards (sh # shs) = (case dispose_shards shs of
      (shs', ids) \<Rightarrow> (sh\<lparr>sh_disposed := True\<rparr> # shs', sh_sessions sh @ ids))"

definition Dispose :: "manager \<Rightarrow> manager" where
  "Dispose m =
     (if mg_disposed m then m
      else case dispose_shards (mg_shards m) of
        (shs, ids) \<Rightarrow> m\<lparr>mg_shards := shs, mg_disposed := True, mg_closed := mg_closed m @ ids\<rparr>)"

subsection \<open>The invariant, and the manager as a registry\<close>

definition stored :: "manager \<Rightarrow> nat list" where
  "stored m = concat (map sh_sessions (mg_shards m))"

definition shards_ok :: "manager \<Rightarrow> bool" where
  "shards_ok m \<longleftrightarrow> length (mg_shards m) = sessionMapNum
     \<and> (\<forall>i < sessionMapNum. distinct (sh_sessions (mg_shards m ! i))
          \<and> (\<forall>sid \<in> set (sh_sessions (mg_shards m ! i)). sid mod sessionMapNum = i))"

definition manager_ok :: "manager \<Rightarrow> bool" where
  "manager_ok m \<longleftrightarrow> shards_ok m \<and> mg_wait m = int (length (stored m))"

lemma shard_index [simp]: "sid mod sessionMapNum < sessionMapNum"
  by (simp add: sessionMapNum_def)

lemma NewManager_ok: "manager_ok NewManager"
  by (simp add: manager_ok_def shards_ok_def NewManager_def stored_def)

lemma length_concat_update:
  assumes "i < length xs"
  shows "length (concat (map f (xs[i := y]))) + length (f (xs ! i)) = length (concat (map f xs)) + length (f y)"
  using assms
proof (induction xs arbitrary: i)
  case (Cons x xs)
  then show ?case by (cases i) auto
qed simp

lemma nth_shard_update:
  assumes "shards_ok m"
  shows "(mg_shards m)[sid mod sessionMapNum := sh] ! (j mod sessionMapNum) =
    (if j mod sessionMapNum = sid mod sessionMapNum then sh else shard_of j m)"
  using assms by (simp add: shards_ok_def nth_list_update)

text \<open>Replacing the shard of an id by one that holds ids of that shard only keeps the maps right.\<close>

lemma shards_ok_update:
  assumes "shards_ok m" and "distinct (sh_sessions sh)"
    and "set (sh_sessions sh) \<subseteq> insert sid (set (sh_sessions (shard_of sid m)))"
  shows "shards_ok (m\<lparr>mg_shards := (mg_shards m)[sid mod sessionMapNum := sh]\<rparr>)"
  unfolding shards_ok_def
proof (intro conjI allI impI)
  show "length (mg_shards (m\<lparr>mg_shards := (mg_shards m)[sid mod sessionMapNum := sh]\<rparr>)) = sessionMapNum"
    using assms(1) by (simp add: shards_ok_def)
  fix i assume i: "i < sessionMapNum"
  show "distinct (sh_sessions (mg_shards (m\<lparr>mg_shards := (mg_shards m)[sid mod sessionMapNum := sh]\<rparr>) ! i))"
    using assms(1,2) i by (cases "i = sid mod sessionMapNum") (simp_all add: shards_ok_def)
  show "\<forall>j \<in> set (sh_sessions (mg_shards (m\<lparr>mg_shards := (mg_shards m)[sid mod sessionMapNum := sh]\<rparr>) ! i)).
      j mod sessionMapNum = i"
  proof (cases "i = sid mod sessionMapNum")
    case True
    have "j mod sessionMapNum = sid mod sessionMapNum" if "j \<in> set (sh_sessions sh)" for j
    proof -
      from that assms(3) have "j = sid \<or> j \<in> set (sh_sessions (shard_of sid m))" by blast
      moreover have "\<forall>j \<in> set (sh_sessions (shard_of sid m)). j mod sessionMapNum = sid mod sessionMapNum"
        using assms(1) by (simp add: shards_ok_def)
      ultimately show ?thesis by blast
    qed
    with True assms(1) show ?thesis by (simp add: shards_ok_def)
  next
    case False
    then show ?thesis using assms(1) i by (simp add: shards_ok_def)
  qed
qed

lemma shards_ok_fields: "mg_shards m' = mg_shards m \<Longrightarrow> shards_ok m' \<longleftrightarrow> shards_ok m"
  by (simp add: shards_ok_def)

lemma shards_distinct: "shards_ok m \<Longrightarrow> distinct (sh_sessions (shard_of sid m))"
  by (simp add: shards_ok_def)

text \<open>The two operations replace one shard.\<close>

lemma mg_shards_put:
  "\<not> sh_disposed (shard_of sid m) \<Longrightarrow> mg_shards (putSession sid m) = (mg_shards m)[sid mod sessionMapNum :=
      (shard_of sid m)\<lparr>sh_sessions := List.insert sid (sh_sessions (shard_of sid m))\<rparr>]"
  by (simp add: putSession_def Let_def)

lemma mg_shards_put_disposed: "sh_disposed (shard_of sid m) \<Longrightarrow> mg_shards (putSession sid m) = mg_shards m"
  by (simp add: putSession_def Let_def)

lemma mg_shards_del:
  "sid \<in> set (sh_sessions (shard_of sid m)) \<Longrightarrow> mg_shards (delSession sid m) = (mg_shards m)[sid mod sessionMapNum :=
      (shard_of sid m)\<lparr>sh_sessions := remove1 sid (sh_sessions (shard_of sid m))\<rparr>]"
  by (simp add: delSession_def Let_def)

lemma putSession_shards:
  assumes "shards_ok m"
  shows "shards_ok (putSession sid m)"
proof (cases "sh_disposed (shard_of sid m)")
  case True
  show ?thesis using shards_ok_fields [OF mg_shards_put_disposed [OF True]] assms by blast
next
  case False
  let ?sh = "(shard_of sid m)\<lparr>sh_sessions := List.insert sid (sh_sessions (shard_of sid m))\<rparr>"
  have "shards_ok (m\<lparr>mg_shards := (mg_shards m)[sid mod sessionMapNum := ?sh]\<rparr>)"
    by (rule shards_ok_update [OF assms]) (use shards_distinct [OF assms] in auto)
  moreover have "mg_shards (putSession sid m) = mg_shards (m\<lparr>mg_shards := (mg_shards m)[sid mod sessionMapNum := ?sh]\<rparr>)"
    using mg_shards_put [OF False] by simp
  ultimately show ?thesis using shards_ok_fields by blast
qed

lemma delSession_shards:
  assumes "shards_ok m"
  shows "shards_ok (delSession sid m)"
proof (cases "sid \<in> set (sh_sessions (shard_of sid m))")
  case True
  let ?sh = "(shard_of sid m)\<lparr>sh_sessions := remove1 sid (sh_sessions (shard_of sid m))\<rparr>"
  have "shards_ok (m\<lparr>mg_shards := (mg_shards m)[sid mod sessionMapNum := ?sh]\<rparr>)"
    by (rule shards_ok_update [OF assms])
       (use shards_distinct [OF assms] in \<open>auto dest: notin_set_remove1\<close>)
  moreover have "mg_shards (delSession sid m) = mg_shards (m\<lparr>mg_shards := (mg_shards m)[sid mod sessionMapNum := ?sh]\<rparr>)"
    using mg_shards_del [OF True] by simp
  ultimately show ?thesis using shards_ok_fields by blast
qed (use assms in \<open>simp add: delSession_def\<close>)

lemma putSession_ok:
  assumes "manager_ok m" and "GetSession m sid = None"
  shows "manager_ok (putSession sid m)"
proof (cases "sh_disposed (shard_of sid m)")
  case True
  then show ?thesis
    using assms(1) putSession_shards [of m sid] by (simp add: putSession_def Let_def manager_ok_def stored_def)
next
  case False
  let ?i = "sid mod sessionMapNum"
  let ?sh = "(shard_of sid m)\<lparr>sh_sessions := List.insert sid (sh_sessions (shard_of sid m))\<rparr>"
  have l: "?i < length (mg_shards m)" using assms(1) by (simp add: manager_ok_def shards_ok_def)
  have "sid \<notin> set (sh_sessions (shard_of sid m))"
    using assms(2) by (simp add: GetSession_def split: if_splits)
  then have "length (sh_sessions ?sh) = length (sh_sessions (shard_of sid m)) + 1"
    by (simp add: List.insert_def)
  then have "length (concat (map sh_sessions ((mg_shards m)[?i := ?sh]))) = length (stored m) + 1"
    using length_concat_update [OF l, of sh_sessions ?sh] unfolding stored_def by linarith
  then show ?thesis
    using assms(1) False putSession_shards [of m sid]
    by (simp add: putSession_def Let_def manager_ok_def stored_def)
qed

lemma delSession_ok:
  assumes "manager_ok m"
  shows "manager_ok (delSession sid m)"
proof (cases "sid \<in> set (sh_sessions (shard_of sid m))")
  case True
  let ?i = "sid mod sessionMapNum"
  let ?sh = "(shard_of sid m)\<lparr>sh_sessions := remove1 sid (sh_sessions (shard_of sid m))\<rparr>"
  have l: "?i < length (mg_shards m)" using assms by (simp add: manager_ok_def shards_ok_def)
  have "0 < length (sh_sessions (shard_of sid m))" using True by (cases "sh_sessions (shard_of sid m)") auto
  then have "length (sh_sessions (shard_of sid m)) = length (sh_sessions ?sh) + 1"
    using True by (simp add: length_remove1)
  then have "length (concat (map sh_sessions ((mg_shards m)[?i := ?sh]))) + 1 = length (stored m)"
    using length_concat_update [OF l, of sh_sessions ?sh] unfolding stored_def by linarith
  then show ?thesis
    using assms True delSession_shards [of m sid]
    by (simp add: delSession_def Let_def manager_ok_def stored_def)
qed (use assms in \<open>simp add: delSession_def\<close>)

lemma shards_put:
  assumes "shards_ok m" and "\<not> sh_disposed (shard_of sid m)"
  shows "shard_of j (putSession sid m) =
    (if j mod sessionMapNum = sid mod sessionMapNum
     then (shard_of sid m)\<lparr>sh_sessions := List.insert sid (sh_sessions (shard_of sid m))\<rparr>
     else shard_of j m)"
  by (simp only: mg_shards_put [OF assms(2)] nth_shard_update [OF assms(1)])

lemma shards_del:
  assumes "shards_ok m"
  shows "shard_of j (delSession sid m) =
    (if j mod sessionMapNum = sid mod sessionMapNum
     then (shard_of sid m)\<lparr>sh_sessions := remove1 sid (sh_sessions (shard_of sid m))\<rparr>
     else shard_of j m)"
proof (cases "sid \<in> set (sh_sessions (shard_of sid m))")
  case True
  then show ?thesis by (simp only: mg_shards_del nth_shard_update [OF assms])
next
  case False
  then have "delSession sid m = m" by (simp only: delSession_def Let_def if_False)
  moreover have "(shard_of sid m)\<lparr>sh_sessions := remove1 sid (sh_sessions (shard_of sid m))\<rparr> = shard_of sid m"
    using False by (simp add: remove1_idem)
  ultimately show ?thesis by metis
qed

lemma GetSession_put:
  assumes "shards_ok m" and "\<not> sh_disposed (shard_of sid m)"
  shows "GetSession (putSession sid m) j = (if j = sid then Some sid else GetSession m j)"
proof (cases "j mod sessionMapNum = sid mod sessionMapNum")
  case True
  then have same: "shard_of j m = shard_of sid m" by (rule arg_cong)
  show ?thesis
    unfolding GetSession_def shards_put [OF assms] same using True by auto
next
  case False
  then have "j \<noteq> sid" by auto
  with False show ?thesis unfolding GetSession_def shards_put [OF assms] by simp
qed

lemma GetSession_del:
  assumes "shards_ok m"
  shows "GetSession (delSession sid m) j = (if j = sid then None else GetSession m j)"
proof (cases "j mod sessionMapNum = sid mod sessionMapNum")
  case True
  then have same: "shard_of j m = shard_of sid m" by (rule arg_cong)
  show ?thesis
    unfolding GetSession_def shards_del [OF assms] same
    using True shards_distinct [OF assms, of sid] by auto
next
  case False
  then have "j \<noteq> sid" by auto
  with False show ?thesis unfolding GetSession_def shards_del [OF assms] by simp
qed

lemma disposed_put:
  assumes "shards_ok m" and "\<not> sh_disposed (shard_of sid m)"
  shows "sh_disposed (shard_of j (putSession sid m)) \<longleftrightarrow> sh_disposed (shard_of j m)"
proof (cases "j mod sessionMapNum = sid mod sessionMapNum")
  case True
  then have same: "shard_of j m = shard_of sid m" by (rule arg_cong)
  show ?thesis unfolding shards_put [OF assms] same using True by auto
next
  case False
  then show ?thesis unfolding shards_put [OF assms] by simp
qed

lemma disposed_del:
  assumes "shards_ok m"
  shows "sh_disposed (shard_of j (delSession sid m)) \<longleftrightarrow> sh_disposed (shard_of j m)"
proof (cases "j mod sessionMapNum = sid mod sessionMapNum")
  case True
  then have same: "shard_of j m = shard_of sid m" by (rule arg_cong)
  show ?thesis unfolding shards_del [OF assms] same using True by auto
next
  case False
  then show ?thesis unfolding shards_del [OF assms] by simp
qed

text \<open>Until it is disposed, the manager is a registry of its sessions under their ids.\<close>

interpretation mgr: registry GetSession "\<lambda>k v. putSession k" delSession shards_ok
  "\<lambda>k v m. v = k \<and> \<not> sh_disposed (shard_of k m)"
proof (unfold_locales, goal_cases)
  case (1 m k v j) then show ?case using GetSession_put [of m k j] by auto
next
  case (2 m k j) then show ?case by (rule GetSession_del)
next
  case (3 m k v) then show ?case using putSession_shards by auto
next
  case (4 m k) then show ?case by (rule delSession_shards)
next
  case (5 m k v j w) then show ?case using disposed_put [of m k j] by metis
next
  case (6 m k v j) then show ?case using disposed_del [of m j k] by metis
qed

definition Manager_NewSession ::
  "'c \<Rightarrow> nat \<Rightarrow> nat \<Rightarrow> manager \<Rightarrow> ('m, 'c) session \<times> nat \<times> manager" where
  "Manager_NewSession codec sendChanSize globalSessionId m =
     (let sid = globalSessionId + 1 in
      (newSession sid codec sendChanSize, sid, putSession sid m))"

lemma dispose_shards_conv:
  "dispose_shards shs = (map (sh_disposed_update (\<lambda>_. True)) shs, concat (map sh_sessions shs))"
  by (induction shs) simp_all

lemma Dispose_shards:
  assumes "shards_ok m"
  shows "shards_ok (Dispose m)"
proof (cases "mg_disposed m")
  case False
  then have "mg_shards (Dispose m) = map (sh_disposed_update (\<lambda>_. True)) (mg_shards m)"
    by (simp add: Dispose_def dispose_shards_conv)
  then show ?thesis using assms by (simp only: shards_ok_def length_map) simp
qed (use assms in \<open>simp add: Dispose_def\<close>)

lemma Dispose_stored: "stored (Dispose m) = stored m"
  by (simp add: Dispose_def dispose_shards_conv stored_def o_def)

lemma Dispose_ok:
  assumes "manager_ok m"
  shows "manager_ok (Dispose m)"
proof -
  have "mg_wait (Dispose m) = mg_wait m"
    by (simp add: Dispose_def dispose_shards_conv)
  then show ?thesis
    using assms Dispose_shards unfolding manager_ok_def Dispose_stored by metis
qed

lemma delSessions_ok: "manager_ok m \<Longrightarrow> manager_ok (fold delSession ids m)"
  by (induction ids arbitrary: m) (simp_all add: delSession_ok)

lemma stored_in_GetSession:
  assumes "shards_ok m" and "sid \<in> set (stored m)"
  shows "GetSession m sid = Some sid"
proof -
  obtain i where i: "i < length (mg_shards m)" "sid \<in> set (sh_sessions (mg_shards m ! i))"
    using assms(2) unfolding stored_def by (auto simp: in_set_conv_nth [of _ "mg_shards m"])
  then have "sid mod sessionMapNum = i" using assms(1) unfolding shards_ok_def by metis
  with i(2) show ?thesis by (simp only: GetSession_def if_True)
qed

lemma GetSession_in_stored:
  assumes "shards_ok m" and "GetSession m sid \<noteq> None"
  shows "sid \<in> set (stored m)"
proof -
  have "sid \<in> set (sh_sessions (shard_of sid m))" using assms(2) by (simp add: GetSession_def split: if_splits)
  moreover have "shard_of sid m \<in> set (mg_shards m)" using assms(1) by (simp add: shards_ok_def)
  ultimately show ?thesis unfolding stored_def by auto
qed

section \<open>Channels\<close>

text \<open>The sessions of the process by id, and the channels by number; the map of a channel is an
  association list with distinct keys, whose order the operations do not show.\<close>

record ('m, 'c) world =
  w_sessions :: "nat \<Rightarrow> ('m, 'c) session"
  w_channels :: "nat \<Rightarrow> (nat \<times> nat) list"

abbreviation upd_session :: "nat \<Rightarrow> (('m, 'c) session \<Rightarrow> ('m, 'c) session) \<Rightarrow> ('m, 'c) world \<Rightarrow> ('m, 'c) world" where
  "upd_session sid f w \<equiv> w\<lparr>w_sessions := (w_sessions w)(sid := f (w_sessions w sid))\<rparr>"

definition Channel_Len :: "nat \<Rightarrow> ('m, 'c) world \<Rightarrow> nat" where
  "Channel_Len ch w = length (w_channels w ch)"

definition Channel_Get :: "('m, 'c) world \<Rightarrow> nat \<times> nat \<Rightarrow> nat option" where
  "Channel_Get w = (\<lambda>(ch, key). map_of (w_channels w ch) key)"

definition channel_remove :: "nat \<Rightarrow> nat \<Rightarrow> nat \<Rightarrow> ('m, 'c) world \<Rightarrow> ('m, 'c) world" where
  "channel_remove ch key sid w =
     (let w' = upd_session sid (RemoveCloseCallback ch key) w in
      w'\<lparr>w_channels := (w_channels w')(ch := AList.delete key (w_channels w' ch))\<rparr>)"

definition Channel_Put :: "nat \<times> nat \<Rightarrow> nat \<Rightarrow> ('m, 'c) world \<Rightarrow> ('m, 'c) world" where
  "Channel_Put = (\<lambda>(ch, key) sid w.
     (let w1 = (case Channel_Get w (ch, key) of Some old \<Rightarrow> channel_remove ch key old w | None \<Rightarrow> w);
          w2 = upd_session sid (AddCloseCallback ch key) w1 in
      w2\<lparr>w_channels := (w_channels w2)(ch := AList.update key sid (w_channels w2 ch))\<rparr>))"

definition Channel_Remove :: "nat \<times> nat \<Rightarrow> ('m, 'c) world \<Rightarrow> bool \<times> ('m, 'c) world" where
  "Channel_Remove = (\<lambda>(ch, key) w. case Channel_Get w (ch, key) of
      Some sid \<Rightarrow> (True, channel_remove ch key sid w)
    | None \<Rightarrow> (False, w))"



text \<open>Closing a session sets its flag; the goroutine that runs the callbacks comes later.\<close>

definition close_flag :: "nat \<Rightarrow> ('m, 'c) world \<Rightarrow> ('m, 'c) world" where
  "close_flag sid w = upd_session sid (\<lambda>s. s\<lparr>ss_closed := True\<rparr>) w"

definition run_callbacks :: "nat \<Rightarrow> ('m, 'c) world \<Rightarrow> ('m, 'c) world" where
  "run_callbacks sid w =
     fold (\<lambda>c w. snd (Channel_Remove c w)) (invokeCloseCallbacks (w_sessions w sid)) w"

lemma Channel_Get_remove:
  "Channel_Get (channel_remove ch key sid w) c = (if c = (ch, key) then None else Channel_Get w c)"
  by (cases c) (auto simp: Channel_Get_def channel_remove_def Let_def delete_conv')

lemma Channel_Get_Put:
  "Channel_Get (Channel_Put c sid w) d = (if d = c then Some sid else Channel_Get w d)"
proof (cases c; cases d)
  fix ch key ch' key' assume c: "c = (ch, key)" and d: "d = (ch', key')"
  let ?w1 = "case Channel_Get w (ch, key) of Some old \<Rightarrow> channel_remove ch key old w | None \<Rightarrow> w"
  have "Channel_Get ?w1 e = (if e = (ch, key) then None else Channel_Get w e)" for e
    by (auto simp: Channel_Get_remove split: option.splits)
  moreover have "Channel_Get (Channel_Put c sid w) d = (if d = c then Some sid else Channel_Get ?w1 d)"
    by (auto simp: c d Channel_Put_def Let_def Channel_Get_def update_conv')
  ultimately show ?thesis using c d by auto
qed

interpretation chan: registry Channel_Get Channel_Put "\<lambda>c w. snd (Channel_Remove c w)"
  "\<lambda>_. True" "\<lambda>_ _ _. True"
  by unfold_locales
     (auto simp: Channel_Get_Put Channel_Remove_def Channel_Get_remove split: option.splits prod.splits)

text \<open>Every open session in a channel has the callback that removes it.\<close>

definition channels_ok :: "('m, 'c) world \<Rightarrow> bool" where
  "channels_ok w \<longleftrightarrow> (\<forall>c sid. Channel_Get w c = Some sid \<and> \<not> ss_closed (w_sessions w sid)
     \<longrightarrow> c \<in> set (ss_callbacks (w_sessions w sid)))"

lemma remove_callback_keeps: "c \<in> set cs \<Longrightarrow> c \<noteq> (h, k) \<Longrightarrow> c \<in> set (remove_callback h k cs)"
  by (induction h k cs rule: remove_callback.induct) auto

lemma closed_channel_remove [simp]:
  "ss_closed (w_sessions (channel_remove ch key old w) sid) \<longleftrightarrow> ss_closed (w_sessions w sid)"
  by (simp add: channel_remove_def Let_def RemoveCloseCallback_def)

lemma callbacks_channel_remove:
  "c \<noteq> (ch, key) \<Longrightarrow> c \<in> set (ss_callbacks (w_sessions w sid)) \<Longrightarrow>
   c \<in> set (ss_callbacks (w_sessions (channel_remove ch key old w) sid))"
  by (auto simp: channel_remove_def Let_def RemoveCloseCallback_def remove_callback_keeps)

lemma channel_remove_ok: "channels_ok w \<Longrightarrow> channels_ok (channel_remove ch key sid w)"
  unfolding channels_ok_def by (auto simp: Channel_Get_remove callbacks_channel_remove split: if_splits)

lemma Channel_Put_ok:
  assumes "channels_ok w"
  shows "channels_ok (Channel_Put c sid w)"
proof -
  obtain ch key where c: "c = (ch, key)" by force
  define w1 where "w1 = (case Channel_Get w (ch, key) of Some old \<Rightarrow> channel_remove ch key old w | None \<Rightarrow> w)"
  have w1: "channels_ok w1"
    using assms by (auto simp: w1_def channel_remove_ok split: option.splits)
  have get1: "Channel_Get w1 d = Channel_Get w d" if "d \<noteq> c" for d
    using that by (auto simp: w1_def Channel_Get_remove c split: option.splits)
  have sess: "w_sessions (Channel_Put c sid w) = (w_sessions w1)(sid := AddCloseCallback ch key (w_sessions w1 sid))"
    by (simp add: c Channel_Put_def Let_def w1_def)
  show ?thesis
    unfolding channels_ok_def
  proof (intro allI impI)
    fix d s
    assume h: "Channel_Get (Channel_Put c sid w) d = Some s \<and> \<not> ss_closed (w_sessions (Channel_Put c sid w) s)"
    then have open1: "\<not> ss_closed (w_sessions w1 s)"
      by (auto simp: sess AddCloseCallback_def split: if_splits)
    show "d \<in> set (ss_callbacks (w_sessions (Channel_Put c sid w) s))"
    proof (cases "d = c")
      case True
      with h have "s = sid" by (simp add: Channel_Get_Put)
      with True open1 show ?thesis unfolding sess by (simp add: c AddCloseCallback_def)
    next
      case False
      with h have "Channel_Get w1 d = Some s" by (simp add: Channel_Get_Put get1)
      with w1 open1 have "d \<in> set (ss_callbacks (w_sessions w1 s))" unfolding channels_ok_def by blast
      then show ?thesis by (auto simp: sess AddCloseCallback_def)
    qed
  qed
qed

lemma Channel_Get_close_flag [simp]: "Channel_Get (close_flag sid w) = Channel_Get w"
  by (simp add: Channel_Get_def close_flag_def)

lemma run_callbacks_Get:
  "Channel_Get (run_callbacks sid w) c =
     (if c \<in> set (ss_callbacks (w_sessions w sid)) then None else Channel_Get w c)"
  using chan.dels_gone [where s = w and ks = "ss_callbacks (w_sessions w sid)" and j = c]
  by (simp add: run_callbacks_def invokeCloseCallbacks_def)

section \<open>Closing and the channels, interleaved\<close>















lemma closed_stays [simp]:
  "ss_closed (w_sessions (Channel_Put c sid w) s) \<longleftrightarrow> ss_closed (w_sessions w s)"
  "ss_closed (w_sessions (snd (Channel_Remove c w)) s) \<longleftrightarrow> ss_closed (w_sessions w s)"
  "ss_closed (w_sessions (fold (\<lambda>(key, sid). channel_remove ch key sid) es w) s) \<longleftrightarrow> ss_closed (w_sessions w s)"
  subgoal by (cases c) (simp add: Channel_Put_def Let_def AddCloseCallback_def split: option.split)
  subgoal by (cases c) (simp add: Channel_Remove_def split: option.split)
  subgoal by (induction es arbitrary: w) (simp_all add: split_beta)
  done



section \<open>Properties\<close>

text \<open>Disposing the manager ends: whatever sessions it holds, once every session that
  \<open>Dispose\<close> closes has run its \<open>delSession\<close>, in any order and with any others, the counter \<open>Dispose\<close>
  waits for is zero and no session is found any more; a session put afterwards is closed at once and
  not registered.\<close>

theorem dispose_drains:
  assumes "manager_ok m" and "\<not> mg_disposed m" and "set (mg_closed (Dispose m)) \<subseteq> set ids"
  shows "mg_wait (fold delSession ids (Dispose m)) = 0
    \<and> GetSession (fold delSession ids (Dispose m)) j = None
    \<and> mg_shards (putSession sid (Dispose m)) = mg_shards (Dispose m)
    \<and> mg_closed (putSession sid (Dispose m)) = mg_closed (Dispose m) @ [sid]"
proof -
  let ?d = "Dispose m"
  let ?e = "fold delSession ids ?d"
  have ok: "manager_ok ?d" using assms(1) by (rule Dispose_ok)
  then have ok': "manager_ok ?e" by (rule delSessions_ok)
  have sh: "shards_ok ?d" "shards_ok ?e" using ok ok' by (simp_all only: manager_ok_def)
  have "set (stored ?d) \<subseteq> set ids"
    using assms(2,3) by (simp add: Dispose_stored) (simp add: Dispose_def dispose_shards_conv stored_def)
  then have none: "GetSession ?e k = None" for k
    using mgr.dels_gone [where s = ?d and ks = ids and j = k, OF sh(1)] GetSession_in_stored [OF sh(1), of k]
    by (cases "GetSession ?d k") (auto split: if_splits)
  then have "stored ?e = []" using stored_in_GetSession [OF sh(2)] by (metis last_in_set option.distinct(1))
  then have "mg_wait ?e = 0" using ok' by (simp only: manager_ok_def list.size of_nat_0)
  moreover have "sh_disposed (shard_of sid ?d)"
    using assms(1,2) by (simp add: Dispose_def dispose_shards_conv manager_ok_def shards_ok_def)
  ultimately show ?thesis using none by (simp add: putSession_def Let_def)
qed

theorem dispose_drains_witness:
  "mg_wait (fold delSession [33, 1] (Dispose (putSession 33 (putSession 1 NewManager)))) = 0
   \<and> GetSession (fold delSession [33, 1] (Dispose (putSession 33 (putSession 1 NewManager)))) 33 = None
   \<and> mg_shards (putSession 65 (Dispose (putSession 33 (putSession 1 NewManager))))
       = mg_shards (Dispose (putSession 33 (putSession 1 NewManager)))
   \<and> mg_closed (putSession 65 (Dispose (putSession 33 (putSession 1 NewManager))))
       = mg_closed (Dispose (putSession 33 (putSession 1 NewManager))) @ [65]"
proof (rule dispose_drains)
  have "GetSession NewManager 1 = None" "GetSession (putSession 1 NewManager) 33 = None"
    by code_simp+
  then show "manager_ok (putSession 33 (putSession 1 NewManager))"
    by (intro putSession_ok NewManager_ok)
  show "\<not> mg_disposed (putSession 33 (putSession 1 NewManager))" by code_simp
  show "set (mg_closed (Dispose (putSession 33 (putSession 1 NewManager)))) \<subseteq> set [33, 1]"
    by code_simp
qed


text \<open>A callback can remove the wrong session: when a session has closed but its callbacks
  have not run yet, putting another session under its key in the channel leaves the old callback in
  place, and that callback then removes the new, open session from the channel. A session that is put
  when it is closed already is never removed by its own callbacks.\<close>

theorem stale_callback_removes_successor:
  assumes "channels_ok w" and "Channel_Get w c = Some old" and "\<not> ss_closed (w_sessions w old)"
    and "\<not> ss_closed (w_sessions w new)" and "new \<noteq> old"
    and "ss_closed (w_sessions w dead)" and "d \<notin> set (ss_callbacks (w_sessions w dead))"
    and "Channel_Get w d = None"
  shows "Channel_Get (Channel_Put c new (close_flag old w)) c = Some new
    \<and> \<not> ss_closed (w_sessions (Channel_Put c new (close_flag old w)) new)
    \<and> Channel_Get (run_callbacks old (Channel_Put c new (close_flag old w))) c = None
    \<and> Channel_Get (run_callbacks dead (Channel_Put d dead w)) d = Some dead"
proof -
  obtain ch key where c: "c = (ch, key)" by force
  obtain ch' key' where d: "d = (ch', key')" by force
  let ?w = "Channel_Put c new (close_flag old w)"
  have "c \<in> set (ss_callbacks (w_sessions w old))"
    using assms(1-3) unfolding channels_ok_def by blast
  then have cb: "c \<in> set (ss_callbacks (w_sessions ?w old))"
    using assms(2,5)
    by (simp add: c Channel_Put_def Let_def close_flag_def channel_remove_def RemoveCloseCallback_def
        Channel_Get_def)
  have "\<not> ss_closed (w_sessions ?w new)"
    using assms(2,4,5)
    by (simp add: c Channel_Put_def Let_def close_flag_def channel_remove_def RemoveCloseCallback_def
        Channel_Get_def AddCloseCallback_def)
  moreover have "d \<notin> set (ss_callbacks (w_sessions (Channel_Put d dead w) dead))"
    using assms(6-8) by (simp add: d Channel_Put_def Let_def AddCloseCallback_def)
  ultimately show ?thesis using cb by (simp add: run_callbacks_Get Channel_Get_Put)
qed

definition sample_world :: "(nat, nat) world" where
  "sample_world = Channel_Put (0, 7) 1
     \<lparr>w_sessions = (\<lambda>i. (newSession i 0 0)\<lparr>ss_closed := (i = 9)\<rparr>), w_channels = (\<lambda>_. [])\<rparr>"

lemma sample_world_ok: "channels_ok sample_world"
  unfolding sample_world_def by (rule Channel_Put_ok) (simp add: channels_ok_def Channel_Get_def)




theorem stale_callback_removes_successor_witness:
  "Channel_Get (Channel_Put (0, 7) 2 (close_flag 1 sample_world)) (0, 7) = Some 2
   \<and> \<not> ss_closed (w_sessions (Channel_Put (0, 7) 2 (close_flag 1 sample_world)) 2)
   \<and> Channel_Get (run_callbacks 1 (Channel_Put (0, 7) 2 (close_flag 1 sample_world))) (0, 7) = None
   \<and> Channel_Get (run_callbacks 9 (Channel_Put (0, 8) 9 sample_world)) (0, 8) = Some 9"
  by (rule stale_callback_removes_successor [OF sample_world_ok]) (code_simp)+

end
