(* ===== verification/Hsms_Protocol.thy ===== *)
theory Hsms_Protocol
  imports S9_Errors Conn_Fsm Secs_Timeout Deque_Queue Link_Session
begin

text \<open>
  The HSMS protocol object, \<open>hsms/protocol.go\<close> with \<open>hsms/connection.go\<close>,
  \<open>hsms/protocol_s9_helpers.go\<close> and \<open>hsms/reconnection.go\<close>, as one record and its operations.

  Each operation is a step of the goroutine that runs it. A panic in any goroutine ends the process,
  so an operation that can panic yields \<open>Inl (Panic _)\<close>. An operation that blocks is split at the
  point where it waits: \<open>sendSelectReq\<close> and its like register a reply queue and send, what follows
  the wait is \<open>control_reply\<close>; \<open>SendAndWait\<close> and \<open>Disable\<close> are split in the same way. A system id is
  not used again while a request with it is waiting, so the queue a request holds is the one
  registered under its id. Goroutines that are started are counted in \<open>hp_connectThreads\<close> (\<open>go
  startConnectThread\<close>) and \<open>hp_selectThreads\<close> (the goroutine of \<open>onStateConnect\<close>).

  Sessions are those of the link layer with an unbuffered connection that keeps what was written and
  may be broken. A message handler is a function of the message and of the state \<open>'a\<close> of the
  application that registered it; it may panic. Logging is left out: it writes to a log and changes
  nothing else. \<open>fsm\<close> is the state machine package of the connection theory.
\<close>

section \<open>State\<close>

record tcp =
  tcp_out :: "byte list list"
  tcp_broken :: bool

type_synonym link_session = "(byte list, tcp) session"

definition tcp_send :: "byte list \<Rightarrow> tcp \<Rightarrow> unit res \<times> tcp" where
  "tcp_send bs c = (if tcp_broken c then (Inl (Err ''write''), c)
     else (Inr (), c\<lparr>tcp_out := tcp_out c @ [bs]\<rparr>))"

definition tcp_close :: "tcp \<Rightarrow> unit res \<times> tcp" where
  "tcp_close c = (Inr (), c)"

type_synonym 'a handler = "data_message \<Rightarrow> 'a \<Rightarrow> data_message option res go \<times> 'a"

record 'a hsms_protocol =
  hp_active :: bool
  hp_sessionID :: int
  hp_enabled :: bool
  hp_connected :: bool
  hp_systemCounter :: "32 word"
  hp_timeouts :: secs_timeout
  hp_state :: string
  hp_connection :: "nat option"
  hc_sessionID :: int
  hp_sessions :: "nat \<Rightarrow> link_session"
  hp_systemQueues :: "32 word \<Rightarrow> hsms_message list option"
  hp_connectThreadRunning :: bool
  hp_handlers :: "string \<Rightarrow> 'a handler option"
  hp_defaultHandler :: "'a handler option"
  hp_linktestTimer :: bool
  hp_disconnectFlg :: bool
  hp_t7Timer :: bool
  hp_server :: "nat list option"
  hp_reconnectAttempts :: int
  hp_OnS9Error :: bool
  hp_connectThreads :: nat
  hp_selectThreads :: nat
  hp_s9Calls :: "s9_error_info list"
  hp_app :: 'a

definition NewHsmsProtocol :: "bool \<Rightarrow> int \<Rightarrow> 32 word \<Rightarrow> 'a \<Rightarrow> 'a hsms_protocol" where
  "NewHsmsProtocol active sessionID rand app =
     \<lparr>hp_active = active, hp_sessionID = sessionID, hp_enabled = False, hp_connected = False,
      hp_systemCounter = rand, hp_timeouts = NewSecsTimeout, hp_state = StateNotConnected,
      hp_connection = None, hc_sessionID = sessionID,
      hp_sessions = (\<lambda>i. newSession i \<lparr>tcp_out = [], tcp_broken = False\<rparr> 0),
      hp_systemQueues = (\<lambda>_. None), hp_connectThreadRunning = False, hp_handlers = (\<lambda>_. None),
      hp_defaultHandler = None, hp_linktestTimer = False, hp_disconnectFlg = False, hp_t7Timer = False,
      hp_server = None, hp_reconnectAttempts = 0, hp_OnS9Error = False, hp_connectThreads = 0,
      hp_selectThreads = 0, hp_s9Calls = [], hp_app = app\<rparr>"

text \<open>What has been written to a session.\<close>

abbreviation written :: "'a hsms_protocol \<Rightarrow> nat \<Rightarrow> byte list list" where
  "written p i \<equiv> tcp_out (ss_codec (hp_sessions p i))"

section \<open>The connection\<close>

definition connection_Send :: "byte list \<Rightarrow> 'a hsms_protocol \<Rightarrow> (unit res \<times> 'a hsms_protocol) go" where
  "connection_Send msg p = (case hp_connection p of
      None \<Rightarrow> Inl (Panic ''nil pointer dereference'')
    | Some i \<Rightarrow> (case Session_Send tcp_send tcp_close msg (hp_sessions p i) of
        (r, s) \<Rightarrow> Inr (r, p\<lparr>hp_sessions := (hp_sessions p)(i := s)\<rparr>)))"

definition HsmsConnection_Send :: "byte list \<Rightarrow> 'a hsms_protocol \<Rightarrow> (unit res \<times> 'a hsms_protocol) go" where
  "HsmsConnection_Send msg p =
     (if hp_connection p = None then Inr (Inl (Err ''hsms: connection not established''), p)
      else connection_Send msg p)"

definition session_close :: "nat \<Rightarrow> 'a hsms_protocol \<Rightarrow> 'a hsms_protocol" where
  "session_close i p =
     p\<lparr>hp_sessions := (hp_sessions p)(i := snd (Session_Close tcp_close (hp_sessions p i)))\<rparr>"

definition HsmsConnection_Close :: "'a hsms_protocol \<Rightarrow> 'a hsms_protocol" where
  "HsmsConnection_Close p = (case hp_connection p of None \<Rightarrow> p | Some i \<Rightarrow> session_close i p)"

definition SetSession :: "nat option \<Rightarrow> 'a hsms_protocol \<Rightarrow> 'a hsms_protocol" where
  "SetSession s p = p\<lparr>hp_connection := s\<rparr>"

text \<open>The control responses and rejects: build, write, only log a failure to write.\<close>

definition send_control :: "hsms_message go \<Rightarrow> 'a hsms_protocol \<Rightarrow> 'a hsms_protocol go" where
  "send_control msg p = go_bind msg (\<lambda>m. go_bind (MsgToBytes m) (\<lambda>b.
     go_bind (connection_Send b p) (\<lambda>(r, p'). Inr p')))"

definition sendSelectRsp :: "hsms_message \<Rightarrow> byte \<Rightarrow> 'a hsms_protocol \<Rightarrow> 'a hsms_protocol go" where
  "sendSelectRsp message status = send_control (NewHSMSMessageSelectRsp message status)"

definition sendDeselectRsp :: "hsms_message \<Rightarrow> byte \<Rightarrow> 'a hsms_protocol \<Rightarrow> 'a hsms_protocol go" where
  "sendDeselectRsp message status = send_control (NewHSMSMessageDeselectRsp message status)"

definition sendLinkTestRsp :: "hsms_message \<Rightarrow> 'a hsms_protocol \<Rightarrow> 'a hsms_protocol go" where
  "sendLinkTestRsp message = send_control (NewHSMSMessageLinktestRsp message)"

definition sendReject :: "hsms_message \<Rightarrow> byte \<Rightarrow> 'a hsms_protocol \<Rightarrow> 'a hsms_protocol go" where
  "sendReject message reason = send_control (NewHSMSMessageRejectReqFromMsg message reason)"

section \<open>System ids and reply queues\<close>

definition encodeSystemID :: "32 word \<Rightarrow> byte list" where
  "encodeSystemID num = be_bytes 4 (ucast num)"

text \<open>\<open>num > (2<<32)-1\<close> compares a 32-bit value, so the reset is never taken; the counter wraps by
  itself.\<close>

definition getNextSystemCounter :: "'a hsms_protocol \<Rightarrow> 32 word \<times> 'a hsms_protocol" where
  "getNextSystemCounter p =
     (let num = uint (hp_systemCounter p + 1);
          p' = p\<lparr>hp_systemCounter := hp_systemCounter p + 1\<rparr>;
          p'' = (if 2 * 2 ^ 32 - 1 < num then p'\<lparr>hp_systemCounter := 0\<rparr> else p')
      in (word_of_int num, p''))"

definition createQueue :: "32 word \<Rightarrow> 'a hsms_protocol \<Rightarrow> 'a hsms_protocol" where
  "createQueue systemID p = p\<lparr>hp_systemQueues := (hp_systemQueues p)(systemID := Some [])\<rparr>"

definition fetchQueue :: "'a hsms_protocol \<Rightarrow> 32 word \<Rightarrow> hsms_message list option" where
  "fetchQueue p systemID = hp_systemQueues p systemID"

definition removeQueue :: "32 word \<Rightarrow> 'a hsms_protocol \<Rightarrow> 'a hsms_protocol" where
  "removeQueue systemID p = p\<lparr>hp_systemQueues := (hp_systemQueues p)(systemID := None)\<rparr>"

definition set_queue :: "32 word \<Rightarrow> hsms_message list \<Rightarrow> 'a hsms_protocol \<Rightarrow> 'a hsms_protocol" where
  "set_queue systemID q p = p\<lparr>hp_systemQueues := (hp_systemQueues p)(systemID := Some q)\<rparr>"

text \<open>\<open>if queue, ok := p.fetchQueue(systemID); ok \{ queue.Put(message) \}\<close>\<close>

definition queue_reply :: "32 word \<Rightarrow> hsms_message \<Rightarrow> 'a hsms_protocol \<Rightarrow> 'a hsms_protocol" where
  "queue_reply systemID message p = (case fetchQueue p systemID of
      Some q \<Rightarrow> set_queue systemID (Put message q) p
    | None \<Rightarrow> p)"

definition systemID_of :: "hsms_message \<Rightarrow> 32 word go" where
  "systemID_of message =
     (if length (MsgSystemBytes message) < 4 then Inl (Panic ''index out of range'')
      else Inr (word_of_nat (be_uint (take 4 (MsgSystemBytes message)))))"

text \<open>A control request up to the wait for its answer: the id, and the error when it was not written
  (the deferred \<open>removeQueue\<close> has then run).\<close>

definition control_request ::
  "(byte list \<Rightarrow> hsms_message go) \<Rightarrow> 'a hsms_protocol \<Rightarrow> ((32 word \<times> unit res) \<times> 'a hsms_protocol) go" where
  "control_request mk p = (case getNextSystemCounter p of (systemID, p1) \<Rightarrow>
     let p2 = createQueue systemID p1 in
     go_bind (mk (encodeSystemID systemID)) (\<lambda>m. go_bind (MsgToBytes m) (\<lambda>b.
     go_bind (connection_Send b p2) (\<lambda>(r, p3). case r of
        Inl e \<Rightarrow> Inr ((systemID, Inl e), removeQueue systemID p3)
      | Inr _ \<Rightarrow> Inr ((systemID, Inr ()), p3)))))"

definition sendLinktestReq :: "'a hsms_protocol \<Rightarrow> ((32 word \<times> unit res) \<times> 'a hsms_protocol) go" where
  "sendLinktestReq = control_request NewHSMSMessageLinktestReq"

definition sendSelectReq :: "'a hsms_protocol \<Rightarrow> ((32 word \<times> unit res) \<times> 'a hsms_protocol) go" where
  "sendSelectReq p = control_request (NewHSMSMessageSelectReq (word_of_int (hp_sessionID p))) p"

definition sendDeselectReq :: "'a hsms_protocol \<Rightarrow> ((32 word \<times> unit res) \<times> 'a hsms_protocol) go" where
  "sendDeselectReq p = control_request (NewHSMSMessageDeselectReq (word_of_int (hp_sessionID p))) p"

text \<open>After the wait: \<open>queue.Get\<close> finds the oldest answer or has timed out, and the queue goes. (A \<open>Get\<close> that
  has missed the signal of a \<open>Put\<close> (\<open>Deque_Queue\<close>) times out with the answer in the queue. The
  deferred \<open>removeQueue\<close> then drops the answer, so this is the time-out on an empty queue: the step relation
  of \<open>Protocol_Properties\<close> has a step that empties a queue.)\<close>

definition queue_get :: "32 word \<Rightarrow> 'a hsms_protocol \<Rightarrow> hsms_message option" where
  "queue_get systemID p = (case fetchQueue p systemID of
      None \<Rightarrow> None
    | Some q \<Rightarrow> (case try_get q of None \<Rightarrow> None | Some (m, q') \<Rightarrow> Some m))"

definition control_reply :: "32 word \<Rightarrow> 'a hsms_protocol \<Rightarrow> unit res \<times> 'a hsms_protocol" where
  "control_reply systemID p = (case queue_get systemID p of
      None \<Rightarrow> (Inl (Err ''timeout''), removeQueue systemID p)
    | Some (DataMsg m) \<Rightarrow> (Inl (Err ''unexpected control response''), removeQueue systemID p)
    | Some (CtrlMsg h) \<Rightarrow>
        (if CtrlStatus h \<noteq> ControlStatusAccepted then Inl (Err ''returned status'') else Inr (),
         removeQueue systemID p))"

section \<open>Timers and the callbacks of the state machine\<close>

definition clearDisconnectFlag :: "'a hsms_protocol \<Rightarrow> 'a hsms_protocol" where
  "clearDisconnectFlag p = p\<lparr>hp_disconnectFlg := False\<rparr>"

definition stopLinktestTimer :: "'a hsms_protocol \<Rightarrow> 'a hsms_protocol" where
  "stopLinktestTimer p = (if hp_linktestTimer p then p\<lparr>hp_disconnectFlg := True\<rparr> else p)"

text \<open>\<open>startLinktestTimer\<close> up to the wait for the first answer, and its end. \<open>time.NewTicker\<close> panics
  for an interval that is not positive.\<close>

definition startLinktestTimer :: "'a hsms_protocol \<Rightarrow> ((32 word \<times> unit res) \<times> 'a hsms_protocol) go" where
  "startLinktestTimer p =
     (if linktest (hp_timeouts p) \<le> 0 then Inl (Panic ''non-positive interval for NewTicker'')
      else sendLinktestReq (clearDisconnectFlag (p\<lparr>hp_linktestTimer := True\<rparr>)))"

definition end_linktest :: "'a hsms_protocol \<Rightarrow> 'a hsms_protocol option" where
  "end_linktest p = (if hp_disconnectFlg p then Some (p\<lparr>hp_disconnectFlg := False, hp_linktestTimer := False\<rparr>)
     else None)"

definition startT7Timer :: "'a hsms_protocol \<Rightarrow> 'a hsms_protocol" where
  "startT7Timer p = (if t7NotSelectTimeout (hp_timeouts p) \<le> 0 then p else p\<lparr>hp_t7Timer := True\<rparr>)"

definition stopT7Timer :: "'a hsms_protocol \<Rightarrow> 'a hsms_protocol" where
  "stopT7Timer p = p\<lparr>hp_t7Timer := False\<rparr>"

definition spawn_connectThread :: "'a hsms_protocol \<Rightarrow> 'a hsms_protocol" where
  "spawn_connectThread p =
     (if hp_connectThreadRunning p then p
      else p\<lparr>hp_connectThreadRunning := True, hp_connectThreads := hp_connectThreads p + 1\<rparr>)"

definition onStateConnectedNotSelected :: "'a hsms_protocol \<Rightarrow> 'a hsms_protocol" where
  "onStateConnectedNotSelected p = startT7Timer p"

definition onStateSelect :: "'a hsms_protocol \<Rightarrow> 'a hsms_protocol" where
  "onStateSelect p = stopT7Timer p"

definition onStateDisconnect :: "'a hsms_protocol \<Rightarrow> 'a hsms_protocol" where
  "onStateDisconnect p =
     (let p1 = stopT7Timer (stopLinktestTimer (p\<lparr>hp_connected := False\<rparr>)) in
      if hp_enabled p1 then spawn_connectThread p1 else p1)"

definition onStateConnect :: "'a hsms_protocol \<Rightarrow> 'a hsms_protocol" where
  "onStateConnect p = p\<lparr>hp_selectThreads := hp_selectThreads p + 1\<rparr>"

definition leave_state :: "string \<Rightarrow> 'a hsms_protocol \<Rightarrow> 'a hsms_protocol" where
  "leave_state s p = (if s = StateNotConnected then onStateConnect p else p)"

definition enter_state :: "string \<Rightarrow> 'a hsms_protocol \<Rightarrow> 'a hsms_protocol" where
  "enter_state s p =
     (if s = StateNotConnected then onStateDisconnect p
      else if s = StateConnectedNotSelected then onStateConnectedNotSelected p
      else if s = StateConnectedSelected then onStateSelect p
      else p)"

text \<open>An event of the connection state: the callback of the state it leaves, the new state, the
  callback of the state it enters.\<close>

definition conn_event :: "fsm_event \<Rightarrow> string \<Rightarrow> 'a hsms_protocol \<Rightarrow> 'a hsms_protocol" where
  "conn_event fsm event p = (case fsm connection_table (hp_state p) event of
      (Inl e, s) \<Rightarrow> p
    | (Inr u, s) \<Rightarrow> enter_state s ((leave_state (hp_state p) p)\<lparr>hp_state := s\<rparr>))"

definition T7_expire :: "fsm_event \<Rightarrow> 'a hsms_protocol \<Rightarrow> 'a hsms_protocol" where
  "T7_expire fsm p =
     HsmsConnection_Close (conn_event fsm ''timeoutT7'' (stopLinktestTimer (p\<lparr>hp_connected := False\<rparr>)))"

text \<open>Setting \<open>connected\<close> and the connect event are two statements of the connect thread or the receiver. They
  are one step here: between them the protocol counts as connected in NOT-CONNECTED, where the other
  goroutines do not send (\<open>ensureReady\<close> asks for SELECTED) and there is no receiver yet.\<close>

definition OnConnectionEstablished :: "fsm_event \<Rightarrow> 'a hsms_protocol \<Rightarrow> 'a hsms_protocol" where
  "OnConnectionEstablished fsm p = conn_event fsm ''connect'' (p\<lparr>hp_connected := True\<rparr>)"

text \<open>The goroutine of \<open>onStateConnect\<close>: an active protocol selects first (\<open>select_thread\<close> up to the
  wait), then, while enabled, the link test starts.\<close>

definition select_thread :: "'a hsms_protocol \<Rightarrow> ((32 word \<times> unit res) option \<times> 'a hsms_protocol) go" where
  "select_thread p =
     (if hp_active p then go_bind (sendSelectReq p) (\<lambda>(r, p'). Inr (Some r, p')) else Inr (None, p))"

definition select_thread_linktest :: "'a hsms_protocol \<Rightarrow> 'a hsms_protocol go" where
  "select_thread_linktest p =
     (if \<not> hp_enabled p then Inr p else go_bind (startLinktestTimer p) (\<lambda>(r, p'). Inr p'))"

definition resetReconnectionState :: "'a hsms_protocol \<Rightarrow> 'a hsms_protocol" where
  "resetReconnectionState p = p\<lparr>hp_reconnectAttempts := 0\<rparr>"

section \<open>Control messages\<close>

definition select_accepted :: "fsm_event \<Rightarrow> hsms_message \<Rightarrow> 'a hsms_protocol \<Rightarrow> 'a hsms_protocol go" where
  "select_accepted fsm message p =
     (if \<not> hp_connected p then sendReject message RejectReasonNotReady p
      else go_bind (sendSelectRsp message ControlStatusAccepted p) (\<lambda>p'. Inr (conn_event fsm ''select'' p')))"

definition handle_select_req :: "fsm_event \<Rightarrow> byte list \<Rightarrow> 'a hsms_protocol \<Rightarrow> 'a hsms_protocol go" where
  "handle_select_req fsm h p =
     (let message = CtrlMsg h; receivedSession = CtrlSessionID h;
          expectedSession = word_of_int (hp_sessionID p) :: 16 word
      in if receivedSession = expectedSession \<or> receivedSession = 0xFFFF
           then select_accepted fsm message p
         else if expectedSession = 0 \<or> expectedSession = 0xFFFF
           then select_accepted fsm message
             (p\<lparr>hp_sessionID := uint receivedSession, hc_sessionID := uint receivedSession\<rparr>)
         else go_bind (sendSelectRsp message ControlStatusDenied p) (\<lambda>p1.
           Inr (conn_event fsm ''disconnect'' ((HsmsConnection_Close p1)\<lparr>hp_connected := False\<rparr>))))"

definition handle_select_rsp :: "fsm_event \<Rightarrow> 32 word \<Rightarrow> byte list \<Rightarrow> 'a hsms_protocol \<Rightarrow> 'a hsms_protocol" where
  "handle_select_rsp fsm systemID h p =
     (let p1 = queue_reply systemID (CtrlMsg h) p in
      if CtrlStatus h \<noteq> ControlStatusAccepted
        then HsmsConnection_Close (conn_event fsm ''disconnect'' (p1\<lparr>hp_connected := False\<rparr>))
      else conn_event fsm ''select'' p1)"

definition handle_separate :: "fsm_event \<Rightarrow> 'a hsms_protocol \<Rightarrow> 'a hsms_protocol" where
  "handle_separate fsm p =
     SetSession None (HsmsConnection_Close (conn_event fsm ''disconnect''
       ((stopLinktestTimer p)\<lparr>hp_connected := False\<rparr>)))"

text \<open>The type switch of \<open>handleHsmsRequests\<close>. A data message is of none of the control types and
  falls to the last case.\<close>

definition handleHsmsRequests :: "fsm_event \<Rightarrow> hsms_message \<Rightarrow> 'a hsms_protocol \<Rightarrow> 'a hsms_protocol go" where
  "handleHsmsRequests fsm message p = go_bind (systemID_of message) (\<lambda>systemID.
     case message of
       DataMsg m \<Rightarrow> Inr (queue_reply systemID message p)
     | CtrlMsg h \<Rightarrow>
         if CtrlType h = ''select.req'' then handle_select_req fsm h p
         else if CtrlType h = ''select.rsp'' then Inr (handle_select_rsp fsm systemID h p)
         else if CtrlType h = ''deselect.req'' then
           (if \<not> hp_connected p then sendReject message RejectReasonNotReady p
            else go_bind (sendDeselectRsp message ControlStatusAccepted p) (\<lambda>p'.
              Inr (conn_event fsm ''deselect'' p')))
         else if CtrlType h = ''deselect.rsp'' then
           Inr (queue_reply systemID message (conn_event fsm ''deselect'' p))
         else if CtrlType h = ''linktest.req'' then
           (if \<not> hp_connected p then sendReject message RejectReasonNotReady p
            else sendLinkTestRsp message p)
         else if CtrlType h = ''separate.req'' then Inr (handle_separate fsm p)
         else Inr (queue_reply systemID message p))"

section \<open>Data messages\<close>

definition pad2 :: "int \<Rightarrow> string" where
  "pad2 n = (if length (dec n) < 2 then (if n < 0 then dec n else CHR ''0'' # dec n) else dec n)"

definition streamFunctionKey :: "int \<Rightarrow> int \<Rightarrow> string" where
  "streamFunctionKey stream function = ''S'' @ pad2 stream @ ''F'' @ pad2 function"

definition RegisterHandler :: "int \<Rightarrow> int \<Rightarrow> 'a handler option \<Rightarrow> 'a hsms_protocol \<Rightarrow> 'a hsms_protocol" where
  "RegisterHandler stream function handler p =
     (let key = streamFunctionKey stream function in
      case handler of
        None \<Rightarrow> p\<lparr>hp_handlers := (hp_handlers p)(key := None)\<rparr>
      | Some f \<Rightarrow> p\<lparr>hp_handlers := (hp_handlers p)(key := Some f)\<rparr>)"

definition RegisterDefaultHandler :: "'a handler option \<Rightarrow> 'a hsms_protocol \<Rightarrow> 'a hsms_protocol" where
  "RegisterDefaultHandler handler p = p\<lparr>hp_defaultHandler := handler\<rparr>"

definition lookupHandler :: "'a hsms_protocol \<Rightarrow> int \<Rightarrow> int \<Rightarrow> 'a handler option" where
  "lookupHandler p stream function = hp_handlers p (streamFunctionKey stream function)"

text \<open>\<open>settle w m\<close>: a wait bit that is still optional becomes \<open>w\<close>.\<close>

definition settle :: "bool \<Rightarrow> data_message \<Rightarrow> data_message go" where
  "settle w m = go_bind (WaitBit m) (\<lambda>b. if b = ''optional'' then SetWaitBit m w else Inr m)"

definition invokeHandler :: "'a handler \<Rightarrow> data_message \<Rightarrow> 'a hsms_protocol \<Rightarrow> 'a hsms_protocol go" where
  "invokeHandler handler msg p = (case handler msg (hp_app p) of (res, app) \<Rightarrow>
     let p1 = p\<lparr>hp_app := app\<rparr> in
     go_bind res (\<lambda>r. case r of
        Inl e \<Rightarrow> Inr p1
      | Inr None \<Rightarrow> Inr p1
      | Inr (Some response) \<Rightarrow>
          go_bind (SetSessionIDAndSystemBytes response (hp_sessionID p1) (dm_systemBytes msg)) (\<lambda>r1.
          go_bind (settle False r1) (\<lambda>r2.
          go_bind (DataMessage_ToBytes r2) (\<lambda>b.
          go_bind (HsmsConnection_Send b p1) (\<lambda>(e, p2). Inr p2))))))"

text \<open>Sending an error message: its session and system bytes, no wait bit, and its bytes.\<close>

definition send_s9 :: "data_message \<Rightarrow> byte list \<Rightarrow> 'a hsms_protocol \<Rightarrow> 'a hsms_protocol go" where
  "send_s9 s9 systemBytes p =
     go_bind (SetSessionIDAndSystemBytes s9 (hp_sessionID p) systemBytes) (\<lambda>m1.
     go_bind (SetWaitBit m1 False) (\<lambda>m2.
     go_bind (DataMessage_ToBytes m2) (\<lambda>b.
     go_bind (HsmsConnection_Send b p) (\<lambda>(e, p'). Inr p'))))"

definition sendS9ErrorForUnrecognized :: "data_message \<Rightarrow> 'a hsms_protocol \<Rightarrow> 'a hsms_protocol go" where
  "sendS9ErrorForUnrecognized message p = go_bind (s9_for_unrecognized message) (\<lambda>s.
     case s of None \<Rightarrow> Inr p | Some s9 \<Rightarrow> send_s9 s9 (dm_systemBytes message) p)"

definition sendS9F7IllegalData :: "byte list \<Rightarrow> 'a hsms_protocol \<Rightarrow> 'a hsms_protocol go" where
  "sendS9F7IllegalData systemBytes p = go_bind (BuildS9F7 systemBytes) (\<lambda>s9. send_s9 s9 systemBytes p)"

definition sendS9F11DataTooLong :: "byte list \<Rightarrow> 'a hsms_protocol \<Rightarrow> 'a hsms_protocol go" where
  "sendS9F11DataTooLong systemBytes p = go_bind (BuildS9F11 systemBytes) (\<lambda>s9. send_s9 s9 systemBytes p)"

definition sendS9F9TransactionTimeout :: "data_message \<Rightarrow> 'a hsms_protocol \<Rightarrow> 'a hsms_protocol go" where
  "sendS9F9TransactionTimeout originalMsg p = go_bind (s9f9_header originalMsg) (\<lambda>headerBytes.
     go_bind (BuildS9F9 headerBytes []) (\<lambda>s9.
       case getNextSystemCounter p of (systemID, p1) \<Rightarrow> send_s9 s9 (encodeSystemID systemID) p1))"

definition triggerS9ErrorCallback :: "data_message \<Rightarrow> 'a hsms_protocol \<Rightarrow> 'a hsms_protocol" where
  "triggerS9ErrorCallback msg p =
     (if hp_OnS9Error p then p\<lparr>hp_s9Calls := hp_s9Calls p @ [s9_callback_info msg]\<rparr> else p)"

definition handleDataMessage :: "data_message \<Rightarrow> 'a hsms_protocol \<Rightarrow> 'a hsms_protocol go" where
  "handleDataMessage message p =
     (let p1 = (if dm_stream message = 9 then triggerS9ErrorCallback message p else p) in
      case lookupHandler p1 (dm_stream message) (dm_function message) of
        Some handler \<Rightarrow> invokeHandler handler message p1
      | None \<Rightarrow> (case hp_defaultHandler p1 of
            Some handler \<Rightarrow> invokeHandler handler message p1
          | None \<Rightarrow> sendS9ErrorForUnrecognized message p1))"

section \<open>The receiver\<close>

text \<open>\<open>OnConnectionEstablishedAndStartReceiver\<close> up to its loop: \<open>False\<close> when it returns at once
  because a passive protocol still has an open session.\<close>

definition start_receiver :: "fsm_event \<Rightarrow> nat \<Rightarrow> 'a hsms_protocol \<Rightarrow> bool \<times> 'a hsms_protocol" where
  "start_receiver fsm i p =
     (if hp_active p then (True, OnConnectionEstablished fsm p)
      else case hp_connection p of
        None \<Rightarrow> (True, OnConnectionEstablished fsm (SetSession (Some i) p))
      | Some j \<Rightarrow>
          if \<not> ss_closed (hp_sessions p j) then (False, session_close i p)
          else (True, OnConnectionEstablished fsm (SetSession (Some i) p)))"

definition activeConnect :: "fsm_event \<Rightarrow> nat \<Rightarrow> 'a hsms_protocol \<Rightarrow> bool \<times> 'a hsms_protocol" where
  "activeConnect fsm i p = start_receiver fsm i (SetSession (Some i) p)"

text \<open>\<open>passiveConnect\<close> serves one connection and then stops its server, which closes the session.\<close>

definition passive_accept :: "fsm_event \<Rightarrow> nat \<Rightarrow> 'a hsms_protocol \<Rightarrow> bool \<times> 'a hsms_protocol" where
  "passive_accept fsm i p = start_receiver fsm i (p\<lparr>hp_server := Some [i]\<rparr>)"

definition passive_done :: "nat \<Rightarrow> 'a hsms_protocol \<Rightarrow> 'a hsms_protocol" where
  "passive_done i p = session_close i (if hp_server p = Some [i] then p\<lparr>hp_server := None\<rparr> else p)"

definition receive_failed :: "fsm_event \<Rightarrow> 'a hsms_protocol \<Rightarrow> 'a hsms_protocol" where
  "receive_failed fsm p =
     (let p1 = stopLinktestTimer (p\<lparr>hp_connected := False\<rparr>) in
      if hp_state p1 \<noteq> StateNotConnected then conn_event fsm ''disconnect'' p1 else p1)"

definition receive_data :: "data_message \<Rightarrow> 'a hsms_protocol \<Rightarrow> 'a hsms_protocol go" where
  "receive_data m p =
     (if hp_state p \<noteq> StateConnectedSelected then Inr p
      else go_bind (systemID_of (DataMsg m)) (\<lambda>systemID.
        case fetchQueue p systemID of
          Some q \<Rightarrow> Inr (set_queue systemID (Put (DataMsg m) q) p)
        | None \<Rightarrow> handleDataMessage m p))"

text \<open>One round of the loop on what \<open>connection.Receive\<close> returned; the flag says whether the loop goes
  on. The loop tests \<open>enabled\<close> before each \<open>Receive\<close>.\<close>

definition receive_step :: "fsm_event \<Rightarrow> hsms_message res \<Rightarrow> 'a hsms_protocol \<Rightarrow> (bool \<times> 'a hsms_protocol) go" where
  "receive_step fsm rsp p = (case rsp of
      Inl e \<Rightarrow> Inr (False, receive_failed fsm p)
    | Inr (CtrlMsg h) \<Rightarrow> go_bind (handleHsmsRequests fsm (CtrlMsg h) p) (\<lambda>p'. Inr (hp_enabled p', p'))
    | Inr (DataMsg m) \<Rightarrow> go_bind (receive_data m p) (\<lambda>p'. Inr (hp_enabled p', p')))"

text \<open>The deferred function.\<close>

definition receiver_exit :: "nat \<Rightarrow> 'a hsms_protocol \<Rightarrow> 'a hsms_protocol" where
  "receiver_exit i p =
     (let p1 = session_close i p in if hp_connection p1 = Some i then SetSession None p1 else p1)"

text \<open>The connect thread after an attempt: an active protocol that could not connect sleeps for the
  delay or ends (\<open>None\<close>); after a connection has come and gone, or a passive one has been served or
  could not listen, it goes on while the protocol is enabled.\<close>

definition connect_attempt_failed :: "'a hsms_protocol \<Rightarrow> int option \<times> 'a hsms_protocol" where
  "connect_attempt_failed p =
     (if \<not> hp_enabled p then (None, p\<lparr>hp_connectThreadRunning := False\<rparr>)
      else if \<not> hp_active p then (Some 1, p)
      else case after_connect_failure (hp_timeouts p) (hp_reconnectAttempts p) of
        (n, None) \<Rightarrow> (None, p\<lparr>hp_reconnectAttempts := n, hp_connectThreadRunning := False\<rparr>)
      | (n, Some d) \<Rightarrow> (Some d, p\<lparr>hp_reconnectAttempts := n\<rparr>))"

definition connect_attempt_done :: "'a hsms_protocol \<Rightarrow> int option \<times> 'a hsms_protocol" where
  "connect_attempt_done p =
     (let p1 = (if hp_active p then resetReconnectionState p else p) in
      if \<not> hp_enabled p1 then (None, p1\<lparr>hp_connectThreadRunning := False\<rparr>)
      else (Some (if hp_active p1 then t5ConnSeparateTimeout (hp_timeouts p1) else 0), p1))"

section \<open>The operations of the user\<close>

definition Enable :: "'a hsms_protocol \<Rightarrow> 'a hsms_protocol" where
  "Enable p = (if hp_enabled p then p else spawn_connectThread (p\<lparr>hp_enabled := True\<rparr>))"

text \<open>\<open>Disable\<close> of an active protocol waits for the answer to a deselect request when it is selected.
  \<open>Disable_begin\<close> ends at that wait with the id of the request, or runs through.\<close>

definition Disable_separate :: "bool \<Rightarrow> 'a hsms_protocol \<Rightarrow> 'a hsms_protocol go" where
  "Disable_separate open p =
     go_bind (if open then (case getNextSystemCounter p of (systemID, p1) \<Rightarrow>
         go_bind (NewHSMSMessageSeparateReq (word_of_int (hp_sessionID p1)) (encodeSystemID systemID)) (\<lambda>sep.
         go_bind (MsgToBytes sep) (\<lambda>b. go_bind (HsmsConnection_Send b p1) (\<lambda>(e, p2). Inr p2))))
       else Inr p)
     (\<lambda>p'. Inr (HsmsConnection_Close (p'\<lparr>hp_disconnectFlg := True\<rparr>)))"

definition Disable_begin :: "'a hsms_protocol \<Rightarrow> (32 word option \<times> 'a hsms_protocol) go" where
  "Disable_begin p =
     (if \<not> hp_enabled p then Inr (None, p)
      else let p1 = (stopT7Timer (stopLinktestTimer (p\<lparr>hp_enabled := False\<rparr>)))\<lparr>hp_connected := False\<rparr> in
      if hp_active p1 then
        (let open = (case hp_connection p1 of None \<Rightarrow> False | Some i \<Rightarrow> \<not> ss_closed (hp_sessions p1 i)) in
         if open \<and> hp_state p1 = StateConnectedSelected then
           go_bind (sendDeselectReq p1) (\<lambda>((systemID, r), p2). case r of
              Inr u \<Rightarrow> Inr (Some systemID, p2)
            | Inl e \<Rightarrow> go_bind (Disable_separate True p2) (\<lambda>p3. Inr (None, p3)))
         else go_bind (Disable_separate open p1) (\<lambda>p2. Inr (None, p2)))
      else (case hp_server p1 of
          None \<Rightarrow> Inr (None, p1)
        | Some ids \<Rightarrow> Inr (None, (fold session_close ids p1)\<lparr>hp_server := None\<rparr>)))"

definition Disable_after_deselect :: "32 word \<Rightarrow> 'a hsms_protocol \<Rightarrow> 'a hsms_protocol go" where
  "Disable_after_deselect systemID p = Disable_separate True (snd (control_reply systemID p))"

definition ensureReady :: "bool \<Rightarrow> 'a hsms_protocol \<Rightarrow> unit res" where
  "ensureReady requireSelected p =
     (if \<not> hp_connected p \<or> hp_connection p = None then Inl (Err ''hsms: connection not established'')
      else if requireSelected \<and> hp_state p \<noteq> StateConnectedSelected
        then Inl (Err ''hsms: connection not selected'')
      else Inr ())"

definition SendDataMessage :: "data_message option \<Rightarrow> 'a hsms_protocol \<Rightarrow> (unit res \<times> 'a hsms_protocol) go" where
  "SendDataMessage message p = (case message of
      None \<Rightarrow> Inr (Inl (Err ''hsms: nil message''), p)
    | Some m \<Rightarrow> (case ensureReady True p of
        Inl e \<Rightarrow> Inr (Inl e, p)
      | Inr _ \<Rightarrow> (case getNextSystemCounter p of (systemID, p1) \<Rightarrow>
          go_bind (SetSessionIDAndSystemBytes m (hp_sessionID p1) (encodeSystemID systemID)) (\<lambda>m1.
          go_bind (settle False m1) (\<lambda>m2.
          go_bind (DataMessage_ToBytes m2) (\<lambda>b. HsmsConnection_Send b p1))))))"

text \<open>\<open>SendAndWait\<close> up to the wait for the reply: the id and the message that was sent.\<close>

definition SendAndWait_begin ::
  "data_message option \<Rightarrow> 'a hsms_protocol \<Rightarrow> ((32 word \<times> data_message) res \<times> 'a hsms_protocol) go" where
  "SendAndWait_begin message p = (case message of
      None \<Rightarrow> Inr (Inl (Err ''hsms: nil message''), p)
    | Some m \<Rightarrow> (case ensureReady True p of
        Inl e \<Rightarrow> Inr (Inl e, p)
      | Inr _ \<Rightarrow> (case getNextSystemCounter p of (systemID, p1) \<Rightarrow>
          let p2 = createQueue systemID p1 in
          go_bind (SetSessionIDAndSystemBytes m (hp_sessionID p2) (encodeSystemID systemID)) (\<lambda>m1.
          go_bind (settle True m1) (\<lambda>outgoing.
          go_bind (DataMessage_ToBytes outgoing) (\<lambda>b.
          go_bind (HsmsConnection_Send b p2) (\<lambda>(r, p3). case r of
              Inl e \<Rightarrow> Inr (Inl e, removeQueue systemID p3)
            | Inr u \<Rightarrow> Inr (Inr (systemID, outgoing), p3))))))))"

definition SendAndWait_end ::
  "32 word \<Rightarrow> data_message \<Rightarrow> 'a hsms_protocol \<Rightarrow> (data_message res \<times> 'a hsms_protocol) go" where
  "SendAndWait_end systemID outgoing p = (case queue_get systemID p of
      None \<Rightarrow> go_bind (sendS9F9TransactionTimeout outgoing p) (\<lambda>p'.
        Inr (Inl (Err ''T3 timeout''), removeQueue systemID p'))
    | Some (DataMsg m) \<Rightarrow> Inr (Inr m, removeQueue systemID p)
    | Some (CtrlMsg h) \<Rightarrow> Inr (Inl (Err ''hsms: unexpected response type''), removeQueue systemID p))"

definition SendResponse ::
  "data_message option \<Rightarrow> byte list \<Rightarrow> 'a hsms_protocol \<Rightarrow> (unit res \<times> 'a hsms_protocol) go" where
  "SendResponse message systemBytes p = (case message of
      None \<Rightarrow> Inr (Inl (Err ''hsms: nil message''), p)
    | Some m \<Rightarrow> (case ensureReady True p of
        Inl e \<Rightarrow> Inr (Inl e, p)
      | Inr _ \<Rightarrow>
          go_bind (SetSessionIDAndSystemBytes m (hp_sessionID p) systemBytes) (\<lambda>m1.
          go_bind (settle False m1) (\<lambda>m2.
          go_bind (DataMessage_ToBytes m2) (\<lambda>b. HsmsConnection_Send b p)))))"

end
