(* ===== verification/Protocol_Frames.thy ===== *)
theory Protocol_Frames
  imports Hsms_Protocol
begin

text \<open>
  What the sending operations of the HSMS protocol leave alone. A view of the protocol is a function of
  its state that does not look at the sessions, the system counter, the reply queues and the flag
  that ends the link test; no sending operation changes it. The two views that are used are the state
  of the connection and the state of the application.
\<close>

lemma any_bind: "(\<And>x. go_all P (f x)) \<Longrightarrow> go_all P (go_bind m f)"
  unfolding go_all_bind by (rule go_all_any)

lemma getNextSystemCounter_eq:
  "getNextSystemCounter p = (hp_systemCounter p + 1, p\<lparr>hp_systemCounter := hp_systemCounter p + 1\<rparr>)"
proof -
  have "uint (hp_systemCounter p + 1) < 2 ^ 32" using uint_bounded [of "hp_systemCounter p + 1"] by simp
  then have "\<not> 2 * 2 ^ 32 - 1 < uint (hp_systemCounter p + 1)" by simp
  then show ?thesis unfolding getNextSystemCounter_def Let_def by simp
qed

locale protocol_view =
  fixes V :: "'a hsms_protocol \<Rightarrow> 'v"
  assumes V_sessions [simp]: "V (p\<lparr>hp_sessions := ss\<rparr>) = V p"
    and V_counter [simp]: "V (p\<lparr>hp_systemCounter := c\<rparr>) = V p"
    and V_queues [simp]: "V (p\<lparr>hp_systemQueues := q\<rparr>) = V p"
    and V_flag [simp]: "V (p\<lparr>hp_disconnectFlg := b\<rparr>) = V p"
begin

lemma V_queue_ops [simp]:
  "V (createQueue k p) = V p" "V (removeQueue k p) = V p" "V (set_queue k qs p) = V p"
  "V (queue_reply k m p) = V p" "V (session_close i p) = V p" "V (HsmsConnection_Close p) = V p"
  by (simp_all add: createQueue_def removeQueue_def set_queue_def queue_reply_def session_close_def
      HsmsConnection_Close_def split: option.split)

lemma view_connection_Send: "go_all (\<lambda>x. V (snd x) = V p) (connection_Send b p)"
  by (simp add: connection_Send_def split: option.split prod.split)

lemma view_HsmsConnection_Send: "go_all (\<lambda>x. V (snd x) = V p) (HsmsConnection_Send b p)"
  by (auto simp: HsmsConnection_Send_def intro: view_connection_Send)

lemma view_send_control: "go_all (\<lambda>p'. V p' = V p) (send_control msg p)"
  unfolding send_control_def go_all_bind
  by (rule go_all_any, rule go_all_any, rule go_all_mono [OF view_connection_Send]) auto

lemma view_control_request: "go_all (\<lambda>x. V (snd x) = V p) (control_request mk p)"
  unfolding control_request_def getNextSystemCounter_eq prod.case Let_def go_all_bind
  by (rule go_all_any, rule go_all_any, rule go_all_mono [OF view_connection_Send]) (auto split: sum.split)

lemma view_send_s9: "go_all (\<lambda>p'. V p' = V p) (send_s9 s9 sb p)"
  unfolding send_s9_def go_all_bind
  by (rule go_all_any, rule go_all_any, rule go_all_any, rule go_all_mono [OF view_HsmsConnection_Send]) auto

lemma view_unrecognized: "go_all (\<lambda>p'. V p' = V p) (sendS9ErrorForUnrecognized m p)"
  unfolding sendS9ErrorForUnrecognized_def go_all_bind
  by (rule go_all_any) (auto split: option.split intro: view_send_s9)

lemma view_SendDataMessage: "go_all (\<lambda>x. V (snd x) = V p) (SendDataMessage mo p)"
  unfolding SendDataMessage_def getNextSystemCounter_eq prod.case
  using view_HsmsConnection_Send [of "p\<lparr>hp_systemCounter := hp_systemCounter p + 1\<rparr>"]
  by (simp split: option.split sum.split) (auto intro!: go_all_any)

lemma view_SendResponse: "go_all (\<lambda>x. V (snd x) = V p) (SendResponse mo sb p)"
  unfolding SendResponse_def
  using view_HsmsConnection_Send [of p]
  by (simp split: option.split sum.split) (auto intro!: go_all_any)

lemma view_SendAndWait_begin: "go_all (\<lambda>x. V (snd x) = V p) (SendAndWait_begin mo p)"
proof -
  let ?k = "hp_systemCounter p + 1"
  let ?p = "createQueue ?k (p\<lparr>hp_systemCounter := ?k\<rparr>)"
  have w: "go_all (\<lambda>x. V (snd x) = V p) (go_bind (HsmsConnection_Send b ?p) (\<lambda>(r, p3). case r of
      Inl e \<Rightarrow> Inr (Inl e, removeQueue ?k p3) | Inr u \<Rightarrow> Inr (Inr (?k, out), p3)))" for b out
    unfolding go_all_bind
    by (rule go_all_mono [OF view_HsmsConnection_Send]) (auto split: sum.split)
  have "go_all (\<lambda>x. V (snd x) = V p) (go_bind m1 (\<lambda>m1. go_bind (f m1) (\<lambda>out. go_bind (g out) (\<lambda>b.
      go_bind (HsmsConnection_Send b ?p) (\<lambda>(r, p3). case r of
      Inl e \<Rightarrow> Inr (Inl e, removeQueue ?k p3) | Inr u \<Rightarrow> Inr (Inr (?k, out), p3))))))"
    for m1 and f :: "data_message \<Rightarrow> data_message go" and g
    by (rule any_bind, rule any_bind, rule any_bind, rule w)
  then show ?thesis
    unfolding SendAndWait_begin_def getNextSystemCounter_eq prod.case Let_def
    by (simp split: option.split sum.split del: go_all_bind)
qed

lemma view_SendAndWait_end: "go_all (\<lambda>x. V (snd x) = V p) (SendAndWait_end k out p)"
proof -
  have "go_all (\<lambda>p'. V p' = V p) (sendS9F9TransactionTimeout out p)"
    unfolding sendS9F9TransactionTimeout_def getNextSystemCounter_eq prod.case go_all_bind
    by (rule go_all_any, rule go_all_any, rule go_all_mono [OF view_send_s9]) simp
  then have "go_all (\<lambda>x. V (snd x) = V p) (go_bind (sendS9F9TransactionTimeout out p)
      (\<lambda>p'. Inr (Inl (Err ''T3 timeout'') :: data_message res, removeQueue k p')))"
    unfolding go_all_bind by (rule go_all_mono) simp
  then show ?thesis
    unfolding SendAndWait_end_def by (simp split: option.split hsms_message.split del: go_all_bind)
qed

lemma view_separate: "go_all (\<lambda>p'. V p' = V p) (Disable_separate open p)"
proof -
  have w: "go_all (\<lambda>p'. V p' = V p)
      (go_bind (HsmsConnection_Send b (p\<lparr>hp_systemCounter := c\<rparr>)) (\<lambda>(e, p2). Inr p2))" for b c
    unfolding go_all_bind by (rule go_all_mono [OF view_HsmsConnection_Send]) auto
  show ?thesis
    unfolding Disable_separate_def getNextSystemCounter_eq prod.case go_all_bind [of _ "if _ then _ else _"]
    by (cases "open") (auto simp del: go_all_bind intro!: any_bind w)
qed

end

section \<open>The two views\<close>

text \<open>The part of the state that the connection state machine and its timer are about.\<close>

definition core :: "'a hsms_protocol \<Rightarrow> string \<times> bool \<times> bool" where
  "core p = (hp_state p, hp_t7Timer p, hp_connected p)"

interpretation core_view: protocol_view core
  by unfold_locales (simp_all add: core_def)

interpretation app_view: protocol_view hp_app
  by unfold_locales simp_all

end
