(* ===== verification/Protocol_Properties.thy ===== *)
theory Protocol_Properties
  imports Protocol_Frames Secs_Codec
begin

text \<open>
  The properties of the HSMS protocol object. The first section follows a message to the wire; the
  second shows that the reply queues and the handler table are registries; the third has the step
  relation of the whole protocol with its invariant. The properties come last.
\<close>

section \<open>Writing to the connection\<close>

definition link_up :: "'a hsms_protocol \<Rightarrow> nat \<Rightarrow> bool" where
  "link_up p i \<longleftrightarrow> hp_connection p = Some i \<and> \<not> ss_closed (hp_sessions p i)
     \<and> ss_sendChan (hp_sessions p i) = None \<and> \<not> tcp_broken (ss_codec (hp_sessions p i))"

definition wrote :: "nat \<Rightarrow> byte list \<Rightarrow> 'a hsms_protocol \<Rightarrow> 'a hsms_protocol" where
  "wrote i b p = p\<lparr>hp_sessions := (hp_sessions p)(i :=
     (hp_sessions p i)\<lparr>ss_codec := (ss_codec (hp_sessions p i))\<lparr>tcp_out := written p i @ [b]\<rparr>\<rparr>)\<rparr>"

lemma connection_Send_up: "link_up p i \<Longrightarrow> connection_Send b p = Inr (Inr (), wrote i b p)"
  by (simp add: link_up_def connection_Send_def Session_Send_def tcp_send_def wrote_def)

lemma HsmsConnection_Send_up: "link_up p i \<Longrightarrow> HsmsConnection_Send b p = Inr (Inr (), wrote i b p)"
  using connection_Send_up by (auto simp: HsmsConnection_Send_def link_up_def)

lemma send_control_up:
  "link_up p i \<Longrightarrow> msg = Inr (CtrlMsg h) \<Longrightarrow> send_control msg p = Inr (wrote i (CtrlToBytes h) p)"
  by (simp add: send_control_def connection_Send_up)

lemma wrote_simps [simp]:
  "hp_state (wrote i b p) = hp_state p" "hp_connected (wrote i b p) = hp_connected p"
  "hp_t7Timer (wrote i b p) = hp_t7Timer p" "hp_connection (wrote i b p) = hp_connection p"
  "hp_sessionID (wrote i b p) = hp_sessionID p" "hp_enabled (wrote i b p) = hp_enabled p"
  "hp_app (wrote i b p) = hp_app p" "hp_systemQueues (wrote i b p) = hp_systemQueues p"
  "hp_timeouts (wrote i b p) = hp_timeouts p" "hp_active (wrote i b p) = hp_active p"
  "hp_systemCounter (wrote i b p) = hp_systemCounter p"
  "written (wrote i b p) i = written p i @ [b]"
  "link_up (wrote i b p) j \<longleftrightarrow> link_up p j"
  by (auto simp: wrote_def link_up_def)

lemma link_up_fields [simp]:
  "link_up (p\<lparr>hp_systemCounter := c\<rparr>) i \<longleftrightarrow> link_up p i"
  "link_up (p\<lparr>hp_systemQueues := q\<rparr>) i \<longleftrightarrow> link_up p i"
  "link_up (p\<lparr>hp_app := a\<rparr>) i \<longleftrightarrow> link_up p i"
  "link_up (p\<lparr>hp_s9Calls := c9\<rparr>) i \<longleftrightarrow> link_up p i"
  "link_up (p\<lparr>hp_sessionID := x\<rparr>) i \<longleftrightarrow> link_up p i"
  "link_up (p\<lparr>hc_sessionID := y\<rparr>) i \<longleftrightarrow> link_up p i"
  by (simp_all add: link_up_def)

lemma encodeSystemID_simps [simp]:
  "length (encodeSystemID n) = 4" "word_of_nat (be_uint (encodeSystemID n)) = n"
proof -
  show "length (encodeSystemID n) = 4" by (simp add: encodeSystemID_def)
  have "unat (ucast n :: 64 word) = unat n"
    unfolding unsigned_ucast_eq [where ?'a = nat]
    by (simp add: take_bit_nat_eq_self_iff) (use unsigned_less [of n, where ?'a = nat] in simp)
  then have "be_uint (encodeSystemID n) = unat n mod 2 ^ 32"
    by (simp add: encodeSystemID_def be_uint_be_bytes)
  then show "word_of_nat (be_uint (encodeSystemID n)) = n"
    using unsigned_less [of n, where ?'a = nat] by simp
qed

section \<open>Registries\<close>

interpretation queues: registry fetchQueue "\<lambda>k v. set_queue k v" removeQueue "\<lambda>_. True" "\<lambda>_ _ _. True"
  by unfold_locales (simp_all add: fetchQueue_def set_queue_def removeQueue_def)

text \<open>The key of a stream and a function.\<close>

lemma pad2_digits: "0 \<le> n \<Longrightarrow> CHR ''F'' \<notin> set (pad2 n)"
  using dec_nat_digits [of "CHR ''F''" "nat n"] by (auto simp: pad2_def dec_def split: if_splits)

lemma undec_zero: "undec (CHR ''0'' # s) = undec s"
  by (simp add: undec_def)

lemma pad2_inj:
  assumes "0 \<le> m" and "0 \<le> n" and "pad2 m = pad2 n"
  shows "m = n"
proof -
  have "undec (pad2 k) = nat k" if "0 \<le> k" for k
    using that by (auto simp: pad2_def dec_def undec_zero undec_dec_nat)
  then show ?thesis using assms by (metis eq_nat_nat_iff)
qed

lemma append_at_mark: "x @ c # y = x' @ c # y' \<Longrightarrow> c \<notin> set x \<Longrightarrow> c \<notin> set x' \<Longrightarrow> x = x' \<and> y = y'"
proof (induction x arbitrary: x')
  case Nil
  then show ?case by (cases x') auto
next
  case (Cons a x)
  then show ?case by (cases x') auto
qed

lemma streamFunctionKey_inj:
  assumes "0 \<le> s" and "0 \<le> f" and "0 \<le> s'" and "0 \<le> f'"
  shows "streamFunctionKey s f = streamFunctionKey s' f' \<longleftrightarrow> s = s' \<and> f = f'"
proof
  assume "streamFunctionKey s f = streamFunctionKey s' f'"
  then have "pad2 s @ CHR ''F'' # pad2 f = pad2 s' @ CHR ''F'' # pad2 f'"
    by (simp add: streamFunctionKey_def)
  from append_at_mark [OF this] show "s = s' \<and> f = f'"
    using assms pad2_digits pad2_inj by blast
qed simp

text \<open>The handlers under pairs of natural numbers.\<close>

definition handler_at :: "'a hsms_protocol \<Rightarrow> nat \<times> nat \<Rightarrow> 'a handler option" where
  "handler_at p k = lookupHandler p (int (fst k)) (int (snd k))"

definition register_at :: "nat \<times> nat \<Rightarrow> 'a handler option \<Rightarrow> 'a hsms_protocol \<Rightarrow> 'a hsms_protocol" where
  "register_at k h p = RegisterHandler (int (fst k)) (int (snd k)) h p"

lemma handler_at_register:
  "handler_at (register_at k h p) j = (if j = k then h else handler_at p j)"
  by (cases j; cases k)
     (auto simp: handler_at_def register_at_def lookupHandler_def RegisterHandler_def Let_def
       streamFunctionKey_inj split: option.splits)

interpretation handlers: registry handler_at "\<lambda>k h. register_at k (Some h)" "\<lambda>k. register_at k None"
  "\<lambda>_. True" "\<lambda>_ _ _. True"
  by unfold_locales (simp_all add: handler_at_register)

section \<open>Steps of the whole protocol, and its invariant\<close>

text \<open>The environment dials and breaks connections (\<open>network\<close>) and chooses which goroutine runs. \<open>wakeup_lost\<close>
  is a \<open>Get\<close> that missed the signal for what is in its queue and will time out.\<close>

inductive hsms_step :: "fsm_event \<Rightarrow> 'a hsms_protocol \<Rightarrow> 'a hsms_protocol \<Rightarrow> bool" for fsm where
  enable: "hsms_step fsm p (Enable p)"
| disable: "Disable_begin p = Inr (w, p') \<Longrightarrow> hsms_step fsm p p'"
| disable_rest: "Disable_after_deselect k p = Inr p' \<Longrightarrow> hsms_step fsm p p'"
| network: "hsms_step fsm p (p\<lparr>hp_sessions := ss\<rparr>)"
| connect_active: "hp_active p \<Longrightarrow> hsms_step fsm p (snd (activeConnect fsm i p))"
| connect_passive: "\<not> hp_active p \<Longrightarrow> hsms_step fsm p (snd (passive_accept fsm i p))"
| connect_fail: "hsms_step fsm p (snd (connect_attempt_failed p))"
| connect_done: "hsms_step fsm p (snd (connect_attempt_done p))"
| serve_done: "hsms_step fsm p (passive_done i p)"
| receive: "receive_step fsm rsp p = Inr (go_on, p') \<Longrightarrow> hsms_step fsm p p'"
| receive_exit: "hsms_step fsm p (receiver_exit i p)"
| t7: "hp_t7Timer p \<Longrightarrow> hsms_step fsm p (T7_expire fsm p)"
| select_start: "select_thread p = Inr (r, p') \<Longrightarrow> hsms_step fsm p p'"
| answer: "hsms_step fsm p (snd (control_reply k p))"
| linktest_start: "select_thread_linktest p = Inr p' \<Longrightarrow> hsms_step fsm p p'"
| linktest_tick: "sendLinktestReq p = Inr (r, p') \<Longrightarrow> hsms_step fsm p p'"
| linktest_end: "end_linktest p = Some p' \<Longrightarrow> hsms_step fsm p p'"
| send: "SendDataMessage m p = Inr (r, p') \<Longrightarrow> hsms_step fsm p p'"
| call: "SendAndWait_begin m p = Inr (rc, p') \<Longrightarrow> hsms_step fsm p p'"
| return: "SendAndWait_end k out p = Inr (rr, p') \<Longrightarrow> hsms_step fsm p p'"
| respond: "SendResponse m sb p = Inr (r, p') \<Longrightarrow> hsms_step fsm p p'"
| register: "hsms_step fsm p (RegisterHandler s f h p)"
| register_default: "hsms_step fsm p (RegisterDefaultHandler h p)"
| configure: "hsms_step fsm p (p\<lparr>hp_timeouts := t\<rparr>)"
| wakeup_lost: "fetchQueue p k = Some q \<Longrightarrow> hsms_step fsm p (set_queue k [] p)"

inductive hsms_reach :: "fsm_event \<Rightarrow> 'a hsms_protocol \<Rightarrow> bool" for fsm where
  init: "hsms_reach fsm (NewHsmsProtocol active sid rand app)"
| step: "hsms_reach fsm p \<Longrightarrow> hsms_step fsm p p' \<Longrightarrow> hsms_reach fsm p'"

definition state_ok :: "'a hsms_protocol \<Rightarrow> bool" where
  "state_ok p \<longleftrightarrow> hp_state p \<in> {StateNotConnected, StateConnectedNotSelected, StateConnectedSelected}
     \<and> (hp_t7Timer p \<longrightarrow> hp_state p = StateConnectedNotSelected)"

definition proto_ok :: "'a hsms_protocol \<Rightarrow> bool" where
  "proto_ok p \<longleftrightarrow> state_ok p \<and> (hp_connected p \<longrightarrow> hp_state p \<noteq> StateNotConnected)"

lemma core_ok: "core p' = core p \<Longrightarrow> proto_ok p' \<longleftrightarrow> proto_ok p"
  by (simp add: core_def proto_ok_def state_ok_def)

lemmas core_send_control = core_view.view_send_control
lemmas core_control_request = core_view.view_control_request
lemmas core_HsmsConnection_Send = core_view.view_HsmsConnection_Send
lemmas core_send_s9 = core_view.view_send_s9
lemmas core_unrecognized = core_view.view_unrecognized
lemmas core_SendDataMessage = core_view.view_SendDataMessage
lemmas core_SendResponse = core_view.view_SendResponse
lemmas core_SendAndWait_begin = core_view.view_SendAndWait_begin
lemmas core_SendAndWait_end = core_view.view_SendAndWait_end
lemmas core_separate = core_view.view_separate

lemma core_counter [simp]:
  "core (p\<lparr>hp_systemCounter := c\<rparr>) = core p" "core (createQueue k p) = core p"
  by (simp_all add: core_def createQueue_def)

lemma core_removeQueue [simp]: "core (removeQueue k p) = core p"
  by (simp add: core_def removeQueue_def)

lemma core_simps [simp]:
  "core (session_close i p) = core p" "core (HsmsConnection_Close p) = core p"
  "core (SetSession c p) = core p" "core (set_queue k q p) = core p" "core (removeQueue k p) = core p"
  "core (queue_reply k m p) = core p" "core (snd (control_reply k p)) = core p"
  "core (stopLinktestTimer p) = core p" "core (p\<lparr>hp_sessions := ss\<rparr>) = core p"
  "core (p\<lparr>hp_app := a\<rparr>) = core p" "core (receiver_exit i p) = core p"
  "core (RegisterHandler st f h p) = core p" "core (RegisterDefaultHandler d p) = core p"
  "core (p\<lparr>hp_timeouts := t\<rparr>) = core p" "core (passive_done i p) = core p"
  "core (snd (connect_attempt_failed p)) = core p" "core (snd (connect_attempt_done p)) = core p"
  "core (triggerS9ErrorCallback dm p) = core p" "core (Enable p) = core p"
  "core (p\<lparr>hp_sessionID := x, hc_sessionID := y\<rparr>) = core p"
  by (simp_all add: core_def session_close_def HsmsConnection_Close_def SetSession_def set_queue_def
      removeQueue_def queue_reply_def control_reply_def stopLinktestTimer_def receiver_exit_def
      RegisterHandler_def RegisterDefaultHandler_def passive_done_def triggerS9ErrorCallback_def
      connect_attempt_failed_def connect_attempt_done_def resetReconnectionState_def
      Enable_def spawn_connectThread_def Let_def split: option.splits hsms_message.splits prod.splits)

lemma core_invokeHandler: "go_all (\<lambda>p'. core p' = core p) (invokeHandler hdl m p)"
proof (cases "hdl m (hp_app p)")
  case (Pair res app)
  show ?thesis
    unfolding invokeHandler_def Pair prod.case Let_def go_all_bind
  proof (rule go_all_any)
    fix r
    show "go_all (\<lambda>p'. core p' = core p) (case r of Inl e \<Rightarrow> Inr (p\<lparr>hp_app := app\<rparr>)
        | Inr None \<Rightarrow> Inr (p\<lparr>hp_app := app\<rparr>)
        | Inr (Some response) \<Rightarrow>
            go_bind (SetSessionIDAndSystemBytes response (hp_sessionID (p\<lparr>hp_app := app\<rparr>)) (dm_systemBytes m)) (\<lambda>r1.
            go_bind (settle False r1) (\<lambda>r2.
            go_bind (DataMessage_ToBytes r2) (\<lambda>b.
            go_bind (HsmsConnection_Send b (p\<lparr>hp_app := app\<rparr>)) (\<lambda>(e, p2). Inr p2)))))"
    proof (cases r)
      case (Inr ro)
      then show ?thesis
      proof (cases ro)
        case (Some response)
        show ?thesis
          unfolding Inr Some sum.case option.case go_all_bind
          by (rule go_all_any, rule go_all_any, rule go_all_any,
              rule go_all_mono [OF core_HsmsConnection_Send]) auto
      qed simp
    qed simp
  qed
qed

lemma core_handleDataMessage: "go_all (\<lambda>p'. core p' = core p) (handleDataMessage m p)"
proof -
  have "go_all (\<lambda>p'. core p' = core p) (invokeHandler hdl m (triggerS9ErrorCallback m p))" for hdl
    using core_invokeHandler [of "triggerS9ErrorCallback m p"] by simp
  moreover have "go_all (\<lambda>p'. core p' = core p) (sendS9ErrorForUnrecognized m (triggerS9ErrorCallback m p))"
    using core_unrecognized [of "triggerS9ErrorCallback m p"] by simp
  ultimately show ?thesis
    unfolding handleDataMessage_def Let_def
    by (auto split: option.split intro: core_invokeHandler core_unrecognized)
qed

lemma core_receive_data: "go_all (\<lambda>p'. core p' = core p) (receive_data m p)"
proof (cases "hp_state p = StateConnectedSelected")
  case True
  then show ?thesis
    unfolding receive_data_def
    by (simp only: simp_thms if_False go_all_bind)
       (rule go_all_any, auto split: option.split intro: core_handleDataMessage)
qed (simp add: receive_data_def)

text \<open>The operations of the user end in one write.\<close>

text \<open>The events. Whatever event comes in whatever state, the state stays one of the three and the
  timer only runs in CONNECTED_NOT-SELECTED.\<close>

lemma enter_state_core:
  "core (enter_state StateNotConnected p) = (hp_state p, False, False)"
  "core (enter_state StateConnectedNotSelected p) =
     (hp_state p, hp_t7Timer p \<or> 0 < t7NotSelectTimeout (hp_timeouts p), hp_connected p)"
  "core (enter_state StateConnectedSelected p) = (hp_state p, False, hp_connected p)"
  by (simp_all add: enter_state_def core_def onStateDisconnect_def onStateSelect_def
      onStateConnectedNotSelected_def startT7Timer_def stopT7Timer_def stopLinktestTimer_def
      spawn_connectThread_def Let_def)

lemma leave_state_fields [simp]:
  "hp_state (leave_state s p) = hp_state p" "hp_t7Timer (leave_state s p) = hp_t7Timer p"
  "hp_connected (leave_state s p) = hp_connected p" "hp_timeouts (leave_state s p) = hp_timeouts p"
  by (simp_all add: leave_state_def onStateConnect_def)

lemma conn_event_dst:
  assumes "fsm_documented fsm" and "table_dst connection_table (hp_state p) ev = Some d"
  shows "conn_event fsm ev p = enter_state d ((leave_state (hp_state p) p)\<lparr>hp_state := d\<rparr>)"
  by (simp add: conn_event_def fsm_Some [OF assms])

lemma conn_event_stay:
  assumes "fsm_documented fsm" and "table_dst connection_table (hp_state p) ev = None"
  shows "conn_event fsm ev p = p"
  using fsm_None [OF assms] by (auto simp: conn_event_def)

lemma table_states:
  "table_dst connection_table s ev = Some d \<Longrightarrow>
   d \<in> {StateNotConnected, StateConnectedNotSelected, StateConnectedSelected}"
  by (drule table_dst_sound) (auto simp: connection_table_def)

lemma core_fields: "core p = (s, t, c) \<Longrightarrow> hp_state p = s \<and> hp_t7Timer p = t \<and> hp_connected p = c"
  by (simp add: core_def)

lemma conn_event_state_ok:
  assumes "fsm_documented fsm" and "state_ok p"
  shows "state_ok (conn_event fsm ev p)"
proof (cases "table_dst connection_table (hp_state p) ev")
  case None
  show ?thesis using assms(2) by (simp add: conn_event_stay [OF assms(1) None])
next
  case (Some d)
  have e: "conn_event fsm ev p = enter_state d ((leave_state (hp_state p) p)\<lparr>hp_state := d\<rparr>)"
    by (rule conn_event_dst [OF assms(1) Some])
  from table_states [OF Some] show ?thesis
    unfolding e by (auto simp: state_ok_def core_fields [OF enter_state_core(1)] core_fields [OF enter_state_core(2)]
        core_fields [OF enter_state_core(3)])
qed

lemma conn_event_connected:
  assumes "fsm_documented fsm" and "state_ok p"
    and "hp_connected p \<Longrightarrow> hp_state p \<noteq> StateNotConnected \<or> ev = ''connect''"
  shows "proto_ok (conn_event fsm ev p)"
proof (cases "table_dst connection_table (hp_state p) ev")
  case None
  then have "ev = ''connect'' \<Longrightarrow> hp_state p \<noteq> StateNotConnected" by (auto simp: connection_dst)
  then show ?thesis using conn_event_stay [OF assms(1) None] assms(2,3) by (auto simp: proto_ok_def)
next
  case (Some d)
  have e: "conn_event fsm ev p = enter_state d ((leave_state (hp_state p) p)\<lparr>hp_state := d\<rparr>)"
    by (rule conn_event_dst [OF assms(1) Some])
  have "hp_connected (conn_event fsm ev p) \<longrightarrow> hp_state (conn_event fsm ev p) \<noteq> StateNotConnected"
    using table_states [OF Some] unfolding e
    by (auto simp: core_fields [OF enter_state_core(1)] core_fields [OF enter_state_core(2)]
        core_fields [OF enter_state_core(3)])
  then show ?thesis using conn_event_state_ok [OF assms(1,2)] by (simp add: proto_ok_def)
qed

text \<open>\<open>event_ok\<close>: the shape in which the handlers run an event.\<close>

lemma event_ok:
  assumes "fsm_documented fsm" and "proto_ok p" and "core q = core p \<or> core q = (hp_state p, hp_t7Timer p, False)"
  shows "proto_ok (conn_event fsm ev q)"
  using assms(2,3) by (intro conn_event_connected [OF assms(1)]) (auto simp: core_def proto_ok_def state_ok_def)

lemma core_disconnected [simp]: "core (q\<lparr>hp_connected := False\<rparr>) = (fst (core q), fst (snd (core q)), False)"
  by (simp add: core_def)

lemma core_parts: "fst (core p) = hp_state p" "fst (snd (core p)) = hp_t7Timer p"
  by (simp_all add: core_def)

lemma handleHsmsRequests_ok:
  assumes "fsm_documented fsm" and ok: "proto_ok p"
  shows "go_all proto_ok (handleHsmsRequests fsm msg p)"
proof -
  note ev = event_ok [OF assms]
  have same: "proto_ok q" if "core q = core p" for q using core_ok [OF that] ok by blast
  have ctl: "go_all proto_ok (send_control m q)" if "core q = core p" for m q
    by (rule go_all_mono [OF core_send_control]) (use that same in auto)
  have ctlev: "go_all (\<lambda>x. proto_ok (conn_event fsm e x)) (send_control m q)" if "core q = core p" for m q e
    by (rule go_all_mono [OF core_send_control]) (use that ev in auto)
  have acc: "go_all proto_ok (select_accepted fsm m q)" if "core q = core p" for m q
    using that by (simp add: select_accepted_def sendReject_def sendSelectRsp_def ctl ctlev)
  have sel: "go_all proto_ok (handle_select_req fsm h p)" for h
    unfolding handle_select_req_def Let_def
    by (auto simp: acc sendSelectRsp_def intro!: go_all_mono [OF core_send_control]
        intro!: ev simp: core_parts)
  have rsp: "proto_ok (handle_select_rsp fsm k h p)" for k h
    by (auto simp: handle_select_rsp_def Let_def core_ok [OF core_simps(2)] core_parts intro!: ev)
  have sep: "proto_ok (handle_separate fsm p)"
    by (auto simp: handle_separate_def core_ok [OF core_simps(2)] core_ok [OF core_simps(3)] core_parts intro!: ev)
  show ?thesis
    unfolding handleHsmsRequests_def go_all_bind
    by (rule go_all_any)
       (auto simp: sel rsp sep same ctl ctlev sendReject_def sendDeselectRsp_def sendLinkTestRsp_def
         core_ok [OF core_simps(6)] intro!: ev split: hsms_message.split)
qed

lemma receive_step_ok:
  assumes "fsm_documented fsm" and ok: "proto_ok p"
  shows "go_all (\<lambda>x. proto_ok (snd x)) (receive_step fsm rsp p)"
proof -
  have f: "proto_ok (receive_failed fsm p)"
  proof -
    let ?q = "stopLinktestTimer (p\<lparr>hp_connected := False\<rparr>)"
    have "core ?q = (hp_state p, hp_t7Timer p, False)" by (simp add: core_parts)
    then have "proto_ok (conn_event fsm ''disconnect'' ?q)" "proto_ok ?q"
      using event_ok [OF assms] ok by (auto simp: core_def proto_ok_def state_ok_def)
    then show ?thesis by (simp add: receive_failed_def Let_def)
  qed
  have d: "go_all proto_ok (receive_data m p)" for m
    by (rule go_all_mono [OF core_receive_data]) (use core_ok ok in blast)
  show ?thesis
    unfolding receive_step_def
    by (auto simp: f split: sum.split hsms_message.split
        intro: go_all_mono [OF handleHsmsRequests_ok [OF assms]] go_all_mono [OF d])
qed

lemma start_ok:
  assumes "fsm_documented fsm" and ok: "proto_ok p"
  shows "proto_ok (snd (start_receiver fsm i p))" "proto_ok (snd (activeConnect fsm i p))"
    "proto_ok (snd (passive_accept fsm i p))"
proof -
  have est: "proto_ok (OnConnectionEstablished fsm q)" if "core q = core p" for q
    unfolding OnConnectionEstablished_def
    using that ok by (intro conn_event_connected [OF assms(1)]) (auto simp: core_def proto_ok_def state_ok_def)
  have st: "proto_ok (snd (start_receiver fsm i q))" if "core q = core p" for q
    using that ok core_ok by (auto simp: start_receiver_def est core_ok [OF core_simps(1)] split: option.split)
  show "proto_ok (snd (start_receiver fsm i p))" "proto_ok (snd (activeConnect fsm i p))"
    by (simp_all add: st activeConnect_def)
  have "core (p\<lparr>hp_server := Some [i]\<rparr>) = core p" by (simp add: core_def)
  then show "proto_ok (snd (passive_accept fsm i p))" by (simp add: st passive_accept_def)
qed

lemma Disable_begin_ok:
  assumes ok: "proto_ok p"
  shows "go_all (\<lambda>x. proto_ok (snd x)) (Disable_begin p)"
proof (cases "hp_enabled p")
  case True
  define p1 where "p1 = (stopT7Timer (stopLinktestTimer (p\<lparr>hp_enabled := False\<rparr>)))\<lparr>hp_connected := False\<rparr>"
  have p1: "proto_ok p1"
    using ok by (simp add: p1_def proto_ok_def state_ok_def stopT7Timer_def stopLinktestTimer_def)
  have same: "proto_ok q" if "core q = core p1" for q using core_ok [OF that] p1 by blast
  have sep: "go_all proto_ok (Disable_separate b q)" if "proto_ok q" for b q
    by (rule go_all_mono [OF core_separate]) (use that core_ok in blast)
  have fold: "proto_ok (fold session_close ids q)" if "proto_ok q" for ids q
    using that by (induction ids arbitrary: q) (simp_all add: core_ok [OF core_simps(1)])
  have fin: "proto_ok (q\<lparr>hp_server := None\<rparr>)" if "proto_ok q" for q
    using that by (simp add: proto_ok_def state_ok_def)
  have des: "go_all (\<lambda>x. proto_ok (snd x)) (go_bind (sendDeselectReq p1) (\<lambda>((systemID, r), p2). case r of
      Inr u \<Rightarrow> Inr (Some systemID, p2)
    | Inl e \<Rightarrow> go_bind (Disable_separate True p2) (\<lambda>p3. Inr (None, p3))))"
    unfolding go_all_bind sendDeselectReq_def
    by (rule go_all_mono [OF core_control_request])
       (auto simp: same split: sum.split intro: go_all_mono [OF sep [OF same]])
  show ?thesis
    using True des
    unfolding Disable_begin_def p1_def [symmetric] Let_def
    by (auto simp: p1 fin fold split: option.split intro: go_all_mono [OF sep [OF p1]])
qed (use ok in \<open>simp add: Disable_begin_def\<close>)

lemma step_ok:
  assumes fsm: "fsm_documented fsm" and ok: "proto_ok p" and "hsms_step fsm p p'"
  shows "proto_ok p'"
proof -
  have same: "proto_ok q" if "core q = core p" for q using core_ok [OF that] ok by blast
  have lt: "go_all (\<lambda>x. core (snd x) = core p) (sendLinktestReq q)" if "core q = core p" for q
    by (rule go_all_mono [OF core_control_request [of q NewHSMSMessageLinktestReq, folded sendLinktestReq_def]])
       (use that in simp)
  from assms(3) show ?thesis
  proof cases
    case (disable w)
    with go_all_InrD [OF Disable_begin_ok [OF ok]] show ?thesis by simp
  next
    case (disable_rest k)
    then have "core p' = core (snd (control_reply k p))"
      using go_all_InrD [OF core_separate] unfolding Disable_after_deselect_def by blast
    then show ?thesis by (intro same) simp
  next
    case (receive rsp go_on)
    from go_all_InrD [OF receive_step_ok [OF fsm ok] receive] show ?thesis by simp
  next
    case t7
    have "proto_ok (conn_event fsm ''timeoutT7'' (stopLinktestTimer (p\<lparr>hp_connected := False\<rparr>)))"
      by (rule event_ok [OF fsm ok]) (simp add: core_parts)
    then show ?thesis by (simp add: t7 T7_expire_def core_ok [OF core_simps(2)])
  next
    case (select_start r)
    then have "core p' = core p"
      using go_all_InrD [OF core_control_request [of p "NewHSMSMessageSelectReq (word_of_int (hp_sessionID p))"]]
      by (auto simp: select_thread_def sendSelectReq_def go_bind_Inr_iff split: if_splits)
    then show ?thesis by (rule same)
  next
    case linktest_start
    moreover have "core (clearDisconnectFlag (p\<lparr>hp_linktestTimer := True\<rparr>)) = core p"
      by (simp add: clearDisconnectFlag_def core_def)
    ultimately have "core p' = core p"
      using go_all_InrD [OF lt]
      by (fastforce simp: select_thread_linktest_def startLinktestTimer_def go_bind_Inr_iff split: if_splits)
    then show ?thesis by (rule same)
  next
    case (linktest_tick r)
    then show ?thesis using go_all_InrD [OF lt] same by fastforce
  next
    case linktest_end
    then have "core p' = core p" by (auto simp: end_linktest_def core_def split: if_splits)
    then show ?thesis by (rule same)
  next
    case (send m r)
    with go_all_InrD [OF core_SendDataMessage] show ?thesis by (intro same) fastforce
  next
    case (call m rc)
    with go_all_InrD [OF core_SendAndWait_begin] show ?thesis by (intro same) fastforce
  next
    case (return k out rr)
    with go_all_InrD [OF core_SendAndWait_end] show ?thesis by (intro same) fastforce
  next
    case (respond m sb r)
    with go_all_InrD [OF core_SendResponse] show ?thesis by (intro same) fastforce
  qed (simp_all add: same start_ok [OF fsm ok])
qed

lemma init_ok: "proto_ok (NewHsmsProtocol active sid rand app)"
  by (simp add: proto_ok_def state_ok_def NewHsmsProtocol_def)

section \<open>What an event does\<close>

lemma conn_event_select:
  assumes "fsm_documented fsm" and "hp_state p = StateConnectedNotSelected"
  shows "conn_event fsm ''select'' p = p\<lparr>hp_state := StateConnectedSelected, hp_t7Timer := False\<rparr>"
proof -
  have "table_dst connection_table (hp_state p) ''select'' = Some StateConnectedSelected"
    by (simp add: connection_dst assms(2))
  from conn_event_dst [OF assms(1) this] show ?thesis
    by (simp add: assms(2) leave_state_def enter_state_def onStateSelect_def stopT7Timer_def)
qed

lemma conn_event_deselect:
  assumes "fsm_documented fsm" and "hp_state p = StateConnectedSelected"
  shows "conn_event fsm ''deselect'' p = p\<lparr>hp_state := StateConnectedNotSelected,
    hp_t7Timer := hp_t7Timer p \<or> 0 < t7NotSelectTimeout (hp_timeouts p)\<rparr>"
proof -
  have "table_dst connection_table (hp_state p) ''deselect'' = Some StateConnectedNotSelected"
    by (simp add: connection_dst assms(2))
  from conn_event_dst [OF assms(1) this] show ?thesis
    by (auto simp: assms(2) leave_state_def enter_state_def onStateConnectedNotSelected_def startT7Timer_def)
qed

text \<open>What entering NOT-CONNECTED leaves alone.\<close>

lemma onStateDisconnect_fields [simp]:
  "hp_state (onStateDisconnect p) = hp_state p" "hp_connected (onStateDisconnect p) = False"
  "hp_t7Timer (onStateDisconnect p) = False" "hp_connection (onStateDisconnect p) = hp_connection p"
  "hp_sessions (onStateDisconnect p) = hp_sessions p" "hp_enabled (onStateDisconnect p) = hp_enabled p"
  "hp_sessionID (onStateDisconnect p) = hp_sessionID p" "hp_app (onStateDisconnect p) = hp_app p"
  "hp_enabled p \<Longrightarrow> hp_connectThreadRunning (onStateDisconnect p)"
  by (simp_all add: onStateDisconnect_def stopT7Timer_def stopLinktestTimer_def spawn_connectThread_def Let_def)

lemma conn_event_disconnect:
  assumes "fsm_documented fsm" and "hp_state p = StateConnectedNotSelected \<or> hp_state p = StateConnectedSelected"
  shows "conn_event fsm ''disconnect'' p = onStateDisconnect (p\<lparr>hp_state := StateNotConnected\<rparr>)"
proof -
  have "table_dst connection_table (hp_state p) ''disconnect'' = Some StateNotConnected"
    using assms(2) by (auto simp: connection_dst)
  from conn_event_dst [OF assms(1) this] show ?thesis
    using assms(2) by (auto simp: leave_state_def enter_state_def)
qed

lemma conn_event_T7:
  assumes "fsm_documented fsm" and "hp_state p = StateConnectedNotSelected"
  shows "conn_event fsm ''timeoutT7'' p = onStateDisconnect (p\<lparr>hp_state := StateNotConnected\<rparr>)"
proof -
  have "table_dst connection_table (hp_state p) ''timeoutT7'' = Some StateNotConnected"
    by (simp add: connection_dst assms(2))
  from conn_event_dst [OF assms(1) this] show ?thesis
    by (simp add: assms(2) leave_state_def enter_state_def)
qed

lemma session_close_closed [simp]: "ss_closed (hp_sessions (session_close i p) i)"
  by (simp add: session_close_def Session_Close_def tcp_close_def)

lemma systemID_of_ctrl: "length h = 10 \<Longrightarrow> \<exists>k. systemID_of (CtrlMsg h) = Inr k"
  by (simp add: systemID_of_def)

lemma systemID_of_built [simp]:
  "systemID_of (CtrlMsg (a # b # c # d # e # f # encodeSystemID k)) = Inr k"
  by (simp add: systemID_of_def slice_def numeral_eq_Suc)

section \<open>Requests on a link that is up\<close>

lemma control_request_up:
  assumes "link_up p i" and "mk (encodeSystemID (hp_systemCounter p + 1)) = Inr (CtrlMsg h)"
  shows "control_request mk p = Inr ((hp_systemCounter p + 1, Inr ()),
    wrote i (CtrlToBytes h) (createQueue (hp_systemCounter p + 1) (p\<lparr>hp_systemCounter := hp_systemCounter p + 1\<rparr>)))"
  using assms connection_Send_up [of "createQueue (hp_systemCounter p + 1) (p\<lparr>hp_systemCounter := hp_systemCounter p + 1\<rparr>)" i]
  by (simp add: control_request_def getNextSystemCounter_eq Let_def createQueue_def)

lemma createQueue_simps [simp]:
  "hp_state (createQueue k p) = hp_state p" "hp_connected (createQueue k p) = hp_connected p"
  "hp_t7Timer (createQueue k p) = hp_t7Timer p" "hp_connection (createQueue k p) = hp_connection p"
  "hp_sessionID (createQueue k p) = hp_sessionID p" "hp_enabled (createQueue k p) = hp_enabled p"
  "hp_app (createQueue k p) = hp_app p" "hp_timeouts (createQueue k p) = hp_timeouts p"
  "hp_active (createQueue k p) = hp_active p" "hp_sessions (createQueue k p) = hp_sessions p"
  "fetchQueue (createQueue k p) j = (if j = k then Some [] else fetchQueue p j)"
  "link_up (createQueue k p) i \<longleftrightarrow> link_up p i"
  by (simp_all add: createQueue_def link_up_def fetchQueue_def)

text \<open>\<open>Disable\<close> of a selected active protocol, up to its wait.\<close>

definition disabling :: "nat \<Rightarrow> 'a hsms_protocol \<Rightarrow> 'a hsms_protocol" where
  "disabling i p =
     (let k = hp_systemCounter p + 1;
          p1 = (stopT7Timer (stopLinktestTimer (p\<lparr>hp_enabled := False\<rparr>)))\<lparr>hp_connected := False\<rparr>
      in wrote i (CtrlToBytes (session_bytes (word_of_int (hp_sessionID p)) @ [0, 0, 0, 3] @ encodeSystemID k))
        (createQueue k (p1\<lparr>hp_systemCounter := k\<rparr>)))"

lemma disabling_simps [simp]:
  "hp_state (disabling i p) = hp_state p" "\<not> hp_connected (disabling i p)" "\<not> hp_enabled (disabling i p)"
  "\<not> hp_t7Timer (disabling i p)" "hp_connection (disabling i p) = hp_connection p"
  "hp_timeouts (disabling i p) = hp_timeouts p" "hp_active (disabling i p) = hp_active p"
  "hp_sessionID (disabling i p) = hp_sessionID p"
  "link_up (disabling i p) j \<longleftrightarrow> link_up p j"
  "fetchQueue (disabling i p) (hp_systemCounter p + 1) = Some []"
  by (simp_all add: disabling_def Let_def stopT7Timer_def stopLinktestTimer_def wrote_def link_up_def
      createQueue_def fetchQueue_def)

lemma Disable_begin_selected:
  assumes "hp_active p" and "hp_enabled p" and up: "link_up p i" and "hp_state p = StateConnectedSelected"
  shows "Disable_begin p = Inr (Some (hp_systemCounter p + 1), disabling i p)"
proof -
  let ?p1 = "(stopT7Timer (stopLinktestTimer (p\<lparr>hp_enabled := False\<rparr>)))\<lparr>hp_connected := False\<rparr>"
  have f: "hp_active ?p1" "hp_state ?p1 = StateConnectedSelected" "hp_connection ?p1 = Some i"
    "hp_sessions ?p1 = hp_sessions p" "link_up ?p1 i" "hp_systemCounter ?p1 = hp_systemCounter p"
    "hp_sessionID ?p1 = hp_sessionID p" "\<not> ss_closed (hp_sessions p i)"
    using assms by (simp_all add: stopT7Timer_def stopLinktestTimer_def link_up_def)
  have "sendDeselectReq ?p1 = Inr ((hp_systemCounter p + 1, Inr ()), disabling i p)"
    using control_request_up [OF f(5), of "NewHSMSMessageDeselectReq (word_of_int (hp_sessionID p))"
        "session_bytes (word_of_int (hp_sessionID p)) @ [0, 0, 0, 3] @ encodeSystemID (hp_systemCounter p + 1)"]
    by (simp add: sendDeselectReq_def f disabling_def Let_def NewHSMSMessageDeselectReq_def with_system_def)
  then show ?thesis
    unfolding Disable_begin_def Let_def using assms(2) f by simp
qed

section \<open>Data messages on a link that is up\<close>

definition outgoing :: "int \<Rightarrow> byte list \<Rightarrow> bool \<Rightarrow> data_message \<Rightarrow> data_message" where
  "outgoing sid sb w m = m\<lparr>dm_sessionID := sid, dm_systemBytes := sb,
     dm_waitBit := if dm_waitBit m = 2 then (if w then 1 else 0) else dm_waitBit m\<rparr>"

text \<open>\<open>can_go w m\<close>: setting an open wait bit to \<open>w\<close> keeps the message valid.\<close>

definition can_go :: "bool \<Rightarrow> data_message \<Rightarrow> bool" where
  "can_go w m \<longleftrightarrow> checkRep m = Inr () \<and> (dm_waitBit m = 2 \<and> w \<longrightarrow> odd (dm_function m))"

lemma outgoing_rep:
  assumes "can_go w m" and "0 \<le> sid" and "sid < 65536" and "length sb = 4"
  shows "checkRep (outgoing sid sb w m) = Inr ()" "dm_waitBit (outgoing sid sb w m) \<noteq> 2"
proof -
  have "odd (dm_function m) \<Longrightarrow> dm_function m mod 2 \<noteq> 0" by presburger
  then show "checkRep (outgoing sid sb w m) = Inr ()"
    using assms by (auto simp: can_go_def outgoing_def checkRep_Inr_iff)
  show "dm_waitBit (outgoing sid sb w m) \<noteq> 2" by (simp add: outgoing_def)
qed

lemma prepare_outgoing:
  assumes "can_go w m" and "0 \<le> sid" and "sid < 65536" and "length sb = 4"
  shows "go_bind (SetSessionIDAndSystemBytes m sid sb) (\<lambda>m1. go_bind (settle w m1) f) = f (outgoing sid sb w m)"
proof -
  let ?m1 = "m\<lparr>dm_sessionID := sid, dm_systemBytes := sb\<rparr>"
  have m1: "checkRep ?m1 = Inr ()" using assms by (auto simp: can_go_def checkRep_Inr_iff)
  have "dm_waitBit m = 0 \<or> dm_waitBit m = 1 \<or> dm_waitBit m = 2"
    using m1 by (auto simp: checkRep_Inr_iff)
  moreover have "checkRep (?m1\<lparr>dm_waitBit := if w then 1 else 0\<rparr>) = Inr ()" if "dm_waitBit m = 2"
    using outgoing_rep(1) [OF assms] that by (simp add: outgoing_def)
  ultimately have "settle w ?m1 = Inr (outgoing sid sb w m)"
    by (auto simp: settle_def WaitBit_def SetWaitBit_def checked_def outgoing_def)
  moreover have "SetSessionIDAndSystemBytes m sid sb = Inr ?m1"
    using m1 assms(4) by (simp add: SetSessionIDAndSystemBytes_def checked_def)
  ultimately show ?thesis by simp
qed

lemma bytes_of_rep: "checkRep m = Inr () \<Longrightarrow> DataMessage_ToBytes m = Inr (wire_bytes (DataMsg m))"
  by (simp add: DataMessage_ToBytes_eq wire_bytes_def)

lemma SendAndWait_begin_up:
  assumes "link_up p i" and "hp_connected p" and "hp_state p = StateConnectedSelected"
    and "can_go True m" and "0 \<le> hp_sessionID p" and "hp_sessionID p < 65536"
    and "k = hp_systemCounter p + 1" and "out = outgoing (hp_sessionID p) (encodeSystemID k) True m"
  shows "SendAndWait_begin (Some m) p = Inr (Inr (k, out),
    wrote i (wire_bytes (DataMsg out)) (createQueue k (p\<lparr>hp_systemCounter := k\<rparr>)))"
proof -
  have r: "ensureReady True p = Inr ()" using assms(1-3) by (simp add: ensureReady_def link_up_def)
  have b: "DataMessage_ToBytes out = Inr (wire_bytes (DataMsg out))"
    unfolding assms(8) by (rule bytes_of_rep [OF outgoing_rep(1)]) (use assms in simp_all)
  let ?p2 = "createQueue k (p\<lparr>hp_systemCounter := k\<rparr>)"
  have up: "link_up ?p2 i" using assms(1) by simp
  show ?thesis
    using r b
    by (simp add: SendAndWait_begin_def getNextSystemCounter_eq Let_def assms(7,8) [symmetric]
        prepare_outgoing [OF assms(4-6)] HsmsConnection_Send_up [OF up])
qed

lemma receive_reply:
  assumes "hp_state p = StateConnectedSelected" and "dm_systemBytes r = encodeSystemID k"
    and "fetchQueue p k = Some q"
  shows "receive_step fsm (Inr (DataMsg r)) p = Inr (hp_enabled p, set_queue k (Put (DataMsg r) q) p)"
  using assms by (simp add: receive_step_def receive_data_def systemID_of_def set_queue_def)

lemma SendAndWait_end_reply:
  "fetchQueue p k = Some [DataMsg r] \<Longrightarrow> SendAndWait_end k out p = Inr (Inr r, removeQueue k p)"
  by (simp add: SendAndWait_end_def queue_get_def try_get_def)

text \<open>An error message on a link that is up.\<close>

lemma send_s9_up:
  assumes "link_up p i" and "0 \<le> hp_sessionID p" and "hp_sessionID p < 65536" and "length sb = 4"
    and "S9_message f body sb0 = Inr m" and "1 \<le> f" and "f < 256" and "f mod 2 = 1" and "Variables body = []"
  shows "send_s9 m sb p = Inr (wrote i (s9_frame (word_of_int f) (ToBytes body) (hp_sessionID p) sb) p)"
  using S9_finished [OF assms(5-9) assms(2-4)] HsmsConnection_Send_up [OF assms(1)]
  by (auto simp: send_s9_def)

lemma S9_message_Inr: "1 \<le> f \<Longrightarrow> f < 256 \<Longrightarrow> f mod 2 = 1 \<Longrightarrow> Variables body = [] \<Longrightarrow> \<exists>m. S9_message f body sb = Inr m"
  using S9_message_ok by blast

text \<open>A data message that nobody takes, of a stream other than 9.\<close>

lemma unhandled_written:
  assumes "link_up p i" and "0 \<le> hp_sessionID p" and "hp_sessionID p < 65536"
    and "hp_state p = StateConnectedSelected" and len: "length (dm_systemBytes m) = 4"
    and "fetchQueue p (word_of_nat (be_uint (dm_systemBytes m))) = None"
    and "lookupHandler p (dm_stream m) (dm_function m) = None" and "hp_defaultHandler p = None" and "dm_stream m \<noteq> 9"
  shows "receive_step fsm (Inr (DataMsg m)) p = Inr (hp_enabled p, wrote i
    (s9_frame (if isKnownStream (dm_stream m) then 5 else 3)
      [33, 1, word_of_int (if isKnownStream (dm_stream m) then dm_function m else dm_stream m)]
      (hp_sessionID p) (dm_systemBytes m)) p)"
proof -
  let ?f = "if isKnownStream (dm_stream m) then 5 else (3::int)"
  let ?b = "word_of_int (if isKnownStream (dm_stream m) then dm_function m else dm_stream m) :: byte"
  have f: "1 \<le> ?f" "?f < 256" "?f mod 2 = 1" by simp_all
  obtain s9 where s9: "S9_message ?f (binary_item [?b]) (dm_systemBytes m) = Inr s9"
    using S9_message_Inr [OF f binary_item_simps(1)] by blast
  have "s9_for_unrecognized m = Inr (Some s9)"
    using s9 assms(9) by (simp add: s9_for_unrecognized_def BuildS9F3_eq BuildS9F5_eq split: if_splits)
  moreover have "send_s9 s9 (dm_systemBytes m) p =
      Inr (wrote i (s9_frame (word_of_int ?f) [33, 1, ?b] (hp_sessionID p) (dm_systemBytes m)) p)"
    using send_s9_up [OF assms(1-3) len s9 f] by (simp add: ToBytes_binary_item)
  ultimately have "handleDataMessage m p =
      Inr (wrote i (s9_frame (word_of_int ?f) [33, 1, ?b] (hp_sessionID p) (dm_systemBytes m)) p)"
    using assms(7-9) by (simp add: handleDataMessage_def Let_def sendS9ErrorForUnrecognized_def)
  then show ?thesis using assms(4,6) len by (simp add: receive_step_def receive_data_def systemID_of_def)
qed

section \<open>Properties\<close>

text \<open>Claim C4. In every state the protocol can reach, by any sequence of user operations, received
  messages, connection losses, timer expiries and goroutine steps, the connection state is one of
  NOT-CONNECTED, NOT-SELECTED and SELECTED, the T7 timer runs only in NOT-SELECTED, and the
  protocol does not count as connected while it is NOT-CONNECTED.\<close>

theorem protocol_invariant:
  assumes "fsm_documented fsm" and "hsms_reach fsm p"
  shows "hp_state p \<in> {StateNotConnected, StateConnectedNotSelected, StateConnectedSelected}
    \<and> (hp_t7Timer p \<longrightarrow> hp_state p = StateConnectedNotSelected)
    \<and> (hp_connected p \<longrightarrow> hp_state p \<noteq> StateNotConnected)"
proof -
  from assms(2) have "proto_ok p"
    by induction (simp_all add: init_ok step_ok [OF assms(1)])
  then show ?thesis by (simp add: proto_ok_def state_ok_def)
qed

definition sample_protocol :: "bool \<Rightarrow> string \<Rightarrow> unit hsms_protocol" where
  "sample_protocol active st = (NewHsmsProtocol active 1 41 ())
     \<lparr>hp_enabled := True, hp_connected := True, hp_state := st, hp_connection := Some 0\<rparr>"

lemma sample_protocol_simps [simp]:
  "link_up (sample_protocol a st) 0" "hp_connected (sample_protocol a st)" "hp_enabled (sample_protocol a st)"
  "hp_state (sample_protocol a st) = st" "hp_active (sample_protocol a st) = a"
  "hp_sessionID (sample_protocol a st) = 1" "hp_systemCounter (sample_protocol a st) = 41"
  "hp_timeouts (sample_protocol a st) = NewSecsTimeout" "hp_connection (sample_protocol a st) = Some 0"
  "hp_handlers (sample_protocol a st) k = None" "hp_defaultHandler (sample_protocol a st) = None"
  "hp_systemQueues (sample_protocol a st) q = None" "written (sample_protocol a st) i = []"
  "hp_sessions (sample_protocol a st) i = newSession i \<lparr>tcp_out = [], tcp_broken = False\<rparr> 0"
  by (simp_all add: sample_protocol_def NewHsmsProtocol_def link_up_def newSession_def)

theorem protocol_invariant_witness:
  "hp_state (Enable (NewHsmsProtocol True 1 0 ())) \<in> {StateNotConnected, StateConnectedNotSelected, StateConnectedSelected}"
proof -
  have "hsms_reach table_fire (Enable (NewHsmsProtocol True 1 0 ()))"
    by (rule hsms_reach.step [OF hsms_reach.init hsms_step.enable])
  from protocol_invariant [OF table_fire_documented this] show ?thesis by blast
qed

text \<open>Claim C14. Answering a select request in NOT-SELECTED: when its session id is ours, or the
  wildcard, or ours is unset, the protocol answers with status 0 under the system bytes of the
  request, is SELECTED, stops T7, and adopts the remote id in the last case. Otherwise it answers
  with status 1, closes the session and is NOT-CONNECTED, with a connect thread running again.\<close>

theorem select_handshake:
  assumes "fsm_documented fsm" and "link_up p i" and "hp_connected p" and "hp_enabled p"
    and "hp_state p = StateConnectedNotSelected" and "length h = 10" and "CtrlType h = ''select.req''"
  shows "\<exists>p'. receive_step fsm (Inr (CtrlMsg h)) p = Inr (True, p') \<and>
    (let mine = word_of_int (hp_sessionID p) :: 16 word; remote = CtrlSessionID h;
         answer = \<lambda>status. CtrlToBytes ([h ! 0, h ! 1, 0, status, 0, 2] @ slice 6 10 h)
     in if remote = mine \<or> remote = 0xFFFF \<or> mine = 0 \<or> mine = 0xFFFF
        then hp_state p' = StateConnectedSelected \<and> \<not> hp_t7Timer p' \<and> hp_connected p'
          \<and> written p' i = written p i @ [answer 0]
          \<and> hp_sessionID p' = (if remote = mine \<or> remote = 0xFFFF then hp_sessionID p else uint remote)
        else hp_state p' = StateNotConnected \<and> \<not> hp_connected p' \<and> \<not> hp_t7Timer p'
          \<and> ss_closed (hp_sessions p' i) \<and> hp_connectThreadRunning p'
          \<and> written p' i = written p i @ [answer 1])"
proof -
  let ?mine = "word_of_int (hp_sessionID p) :: 16 word"
  let ?remote = "CtrlSessionID h"
  let ?answer = "\<lambda>status. CtrlToBytes ([h ! 0, h ! 1, 0, status, 0, 2] @ slice 6 10 h)"
  obtain k where k: "systemID_of (CtrlMsg h) = Inr k" using systemID_of_ctrl [OF assms(6)] by blast
  have r: "receive_step fsm (Inr (CtrlMsg h)) p =
      go_bind (handle_select_req fsm h p) (\<lambda>p'. Inr (hp_enabled p', p'))"
    by (simp add: receive_step_def handleHsmsRequests_def k assms(7))
  have rsp: "sendSelectRsp (CtrlMsg h) st q = Inr (wrote i (?answer st) q)" if "link_up q i" for st q
    using that by (simp add: sendSelectRsp_def send_control_up [OF that] NewHSMSMessageSelectRsp_def assms(7))
  have acc: "select_accepted fsm (CtrlMsg h) q =
      Inr ((wrote i (?answer 0) q)\<lparr>hp_state := StateConnectedSelected, hp_t7Timer := False\<rparr>)"
    if "link_up q i" "hp_connected q" "hp_state q = StateConnectedNotSelected" for q
    using that by (simp add: select_accepted_def rsp ControlStatusAccepted_def conn_event_select [OF assms(1)])
  consider "?remote = ?mine \<or> ?remote = 0xFFFF"
    | "\<not> (?remote = ?mine \<or> ?remote = 0xFFFF)" "?mine = 0 \<or> ?mine = 0xFFFF"
    | "\<not> (?remote = ?mine \<or> ?remote = 0xFFFF \<or> ?mine = 0 \<or> ?mine = 0xFFFF)" by argo
  then show ?thesis
  proof cases
    case 1
    then show ?thesis
      using assms acc [OF assms(2,3,5)] by (auto simp: r handle_select_req_def Let_def)
  next
    case 2
    let ?q = "p\<lparr>hp_sessionID := uint ?remote, hc_sessionID := uint ?remote\<rparr>"
    have "written ?q i = written p i" by simp
    with 2 show ?thesis
      using assms acc [of ?q] by (simp add: r handle_select_req_def Let_def)
  next
    case 3
    let ?w = "wrote i (?answer 1) p"
    have st: "hp_state (HsmsConnection_Close ?w) = StateConnectedNotSelected"
      using assms(2,5) by (simp add: HsmsConnection_Close_def link_up_def session_close_def)
    have "hp_connection p = Some i" using assms(2) by (simp add: link_up_def)
    with 3 show ?thesis
      using assms(2-5) st
      by (simp add: r handle_select_req_def Let_def rsp ControlStatusDenied_def
          conn_event_disconnect [OF assms(1)] HsmsConnection_Close_def session_close_def Session_Close_def
          tcp_close_def wrote_def)
  qed
qed

theorem select_handshake_witness:
  "\<exists>p'. receive_step table_fire (Inr (CtrlMsg [0, 1, 0, 0, 0, 1, 0, 0, 0, 5]))
      (sample_protocol False StateConnectedNotSelected) = Inr (True, p')
    \<and> hp_state p' = StateConnectedSelected
    \<and> written p' 0 = [[0, 0, 0, 10, 0, 1, 0, 0, 0, 2, 0, 0, 0, 5]]"
  using select_handshake [OF table_fire_documented, of "sample_protocol False StateConnectedNotSelected" 0
      "[0, 1, 0, 0, 0, 1, 0, 0, 0, 5]"]
  by (auto simp: CtrlType_def CtrlSessionID_def Let_def CtrlToBytes_def slice_def newSession_def)

text \<open>Claim C35. A deselect or link test request that arrives while the protocol does not count as
  connected ends the process: the protocol wants to answer with a reject message, and building one
  panics. It needs no misbehaving peer: \<open>Disable\<close> of a selected active protocol is such a
  moment, from its deselect request on until the receiver stops.\<close>

theorem not_ready_request_panics:
  assumes "length h = 10" and "CtrlType h = ''linktest.req'' \<or> CtrlType h = ''deselect.req''"
    and "hp_active p" and "hp_enabled p" and "link_up p i" and "hp_state p = StateConnectedSelected"
    and "\<not> hp_connected q"
  shows "receive_step fsm (Inr (CtrlMsg h)) q = Inl (Panic ''expected Reject.req message'')
    \<and> (\<exists>systemID p'. Disable_begin p = Inr (Some systemID, p')
        \<and> receive_step fsm (Inr (CtrlMsg h)) p' = Inl (Panic ''expected Reject.req message''))"
proof -
  obtain k where k: "systemID_of (CtrlMsg h) = Inr k" using systemID_of_ctrl [OF assms(1)] by blast
  have panic: "receive_step fsm (Inr (CtrlMsg h)) q = Inl (Panic ''expected Reject.req message'')"
    if "\<not> hp_connected q" for q :: "'b hsms_protocol"
    using assms(2) that
    by (auto simp: receive_step_def handleHsmsRequests_def k sendReject_def send_control_def
        NewHSMSMessageRejectReqFromMsg_def MsgType_not_Reject)
  have panic': "receive_step fsm (Inr (CtrlMsg h)) (disabling i p) = Inl (Panic ''expected Reject.req message'')"
    using assms(2)
    by (auto simp: receive_step_def handleHsmsRequests_def k sendReject_def send_control_def
        NewHSMSMessageRejectReqFromMsg_def MsgType_not_Reject)
  show ?thesis using panic [OF assms(7)] panic' Disable_begin_selected [OF assms(3-6)] by blast
qed

theorem not_ready_request_panics_witness:
  "\<exists>systemID p'. Disable_begin (sample_protocol True StateConnectedSelected) = Inr (Some systemID, p')
    \<and> receive_step table_fire (Inr (CtrlMsg [255, 255, 0, 0, 0, 5, 0, 0, 0, 9])) p'
        = Inl (Panic ''expected Reject.req message'')"
  using not_ready_request_panics [of "[255, 255, 0, 0, 0, 5, 0, 0, 0, 9]" "sample_protocol True StateConnectedSelected" 0
      "NewHsmsProtocol True 1 0 ()" table_fire]
  by (simp add: CtrlType_def) (simp add: NewHsmsProtocol_def)

text \<open>What stays while a disabled protocol is torn down.\<close>

definition stranded :: "nat \<Rightarrow> 'a hsms_protocol \<Rightarrow> 'a hsms_protocol \<Rightarrow> bool" where
  "stranded i p q \<longleftrightarrow> hp_state q = StateConnectedNotSelected \<and> hp_t7Timer q \<and> hp_active q
     \<and> \<not> hp_enabled q \<and> hp_selectThreads q = hp_selectThreads p
     \<and> (\<forall>j. j \<noteq> i \<longrightarrow> hp_sessions q j = hp_sessions p j)"

lemma stranded_reply:
  assumes "hp_active p"
  shows "stranded i p (queue_reply k m ((disabling i p)\<lparr>hp_state := StateConnectedNotSelected, hp_t7Timer := True\<rparr>))"
  using assms
  by (auto simp: stranded_def queue_reply_def set_queue_def disabling_def Let_def wrote_def createQueue_def
      stopT7Timer_def stopLinktestTimer_def split: option.split)

lemma stranded_after:
  assumes "stranded i p q" and "hp_connection q = Some i"
  shows "\<exists>p3. Disable_after_deselect k (receiver_exit i q) = Inr p3 \<and> stranded i p p3"
proof -
  let ?r = "snd (control_reply k (receiver_exit i q))"
  have r: "stranded i p ?r" "hp_connection ?r = None"
    using assms
    by (auto simp: stranded_def control_reply_def removeQueue_def receiver_exit_def session_close_def
        SetSession_def Let_def split: option.split hsms_message.split)
  let ?p3 = "?r\<lparr>hp_systemCounter := hp_systemCounter ?r + 1, hp_disconnectFlg := True\<rparr>"
  have "Disable_after_deselect k (receiver_exit i q) = Inr ?p3"
    using r(2)
    by (simp add: Disable_after_deselect_def Disable_separate_def getNextSystemCounter_eq
        NewHSMSMessageSeparateReq_def with_system_def HsmsConnection_Send_def HsmsConnection_Close_def)
  moreover have "stranded i p ?p3" using r(1) by (simp add: stranded_def)
  ultimately show ?thesis by blast
qed

lemma stranded_reconnect:
  assumes "fsm_documented fsm" and "stranded i p q"
  shows "stranded i p ((Enable q)\<lparr>hp_enabled := False\<rparr>)"
    and "snd (activeConnect fsm j (Enable q)) = (Enable q)\<lparr>hp_connection := Some j, hp_connected := True\<rparr>"
proof -
  show e: "stranded i p ((Enable q)\<lparr>hp_enabled := False\<rparr>)"
    using assms(2) by (simp add: stranded_def Enable_def spawn_connectThread_def)
  let ?q = "(Enable q)\<lparr>hp_connection := Some j, hp_connected := True\<rparr>"
  have "table_dst connection_table (hp_state ?q) ''connect'' = None"
    using e by (simp add: stranded_def connection_dst)
  from conn_event_stay [OF assms(1) this] e
  show "snd (activeConnect fsm j (Enable q)) = ?q"
    by (simp add: activeConnect_def start_receiver_def OnConnectionEstablished_def SetSession_def stranded_def)
qed

lemma T7_expire_closes:
  assumes "fsm_documented fsm" and "hp_state p = StateConnectedNotSelected" and "hp_connection p = Some j"
  shows "ss_closed (hp_sessions (T7_expire fsm p) j)" "hp_state (T7_expire fsm p) = StateNotConnected"
proof -
  let ?q = "stopLinktestTimer (p\<lparr>hp_connected := False\<rparr>)"
  have q: "hp_state ?q = StateConnectedNotSelected" "hp_connection ?q = Some j"
    using assms by (simp_all add: stopLinktestTimer_def)
  show "ss_closed (hp_sessions (T7_expire fsm p) j)" "hp_state (T7_expire fsm p) = StateNotConnected"
    using q by (simp_all add: T7_expire_def conn_event_T7 [OF assms(1)] HsmsConnection_Close_def
        session_close_def Session_Close_def tcp_close_def)
qed

text \<open>Claim C33. Disabling a selected active protocol strands it. When the peer answers the deselect
  request, the receiver stops because the protocol is disabled, without a disconnect event: the
  state stays NOT-SELECTED and the T7 timer, started by that answer, keeps running. Enabling the
  protocol again and connecting then starts no select request, since the connect event is refused,
  and when the old T7 timer fires it closes the new session.\<close>

theorem disable_strands_session:
  assumes "fsm_documented fsm" and "hp_active p" and "hp_enabled p" and "link_up p i"
    and "hp_state p = StateConnectedSelected" and "0 < t7NotSelectTimeout (hp_timeouts p)"
    and "\<not> ss_closed (hp_sessions p j)" and "j \<noteq> i"
  shows "\<exists>k p1 p2 p3. Disable_begin p = Inr (Some k, p1)
    \<and> receive_step fsm (Inr (CtrlMsg ([h0, h1, 0, 0, 0, 4] @ encodeSystemID k))) p1 = Inr (False, p2)
    \<and> Disable_after_deselect k (receiver_exit i p2) = Inr p3
    \<and> hp_state p3 = StateConnectedNotSelected \<and> hp_t7Timer p3
    \<and> (let p4 = snd (activeConnect fsm j (Enable p3)) in
        hp_connected p4 \<and> hp_state p4 = StateConnectedNotSelected \<and> hp_t7Timer p4
        \<and> hp_selectThreads p4 = hp_selectThreads p \<and> written p4 j = written p j
        \<and> \<not> ss_closed (hp_sessions p4 j)
        \<and> ss_closed (hp_sessions (T7_expire fsm p4) j)
        \<and> hp_state (T7_expire fsm p4) = StateNotConnected)"
proof -
  let ?k = "hp_systemCounter p + 1"
  let ?h = "[h0, h1, 0, 0, 0, 4] @ encodeSystemID ?k"
  let ?p1 = "disabling i p"
  have ev: "conn_event fsm ''deselect'' ?p1 = ?p1\<lparr>hp_state := StateConnectedNotSelected, hp_t7Timer := True\<rparr>"
    using conn_event_deselect [OF assms(1), of ?p1] assms(5,6) by simp
  define p2 where "p2 = queue_reply ?k (CtrlMsg ?h) (?p1\<lparr>hp_state := StateConnectedNotSelected, hp_t7Timer := True\<rparr>)"
  have s2: "stranded i p p2" unfolding p2_def by (rule stranded_reply [OF assms(2)])
  have c2: "hp_connection p2 = Some i"
    using assms(4) by (simp add: p2_def queue_reply_def set_queue_def link_up_def split: option.split)
  have r: "receive_step fsm (Inr (CtrlMsg ?h)) ?p1 = Inr (False, p2)"
    using s2 by (simp add: receive_step_def handleHsmsRequests_def CtrlType_def ev p2_def stranded_def)
  obtain p3 where p3: "Disable_after_deselect ?k (receiver_exit i p2) = Inr p3" "stranded i p p3"
    using stranded_after [OF s2 c2] by blast
  let ?p4 = "snd (activeConnect fsm j (Enable p3))"
  have p4: "?p4 = (Enable p3)\<lparr>hp_connection := Some j, hp_connected := True\<rparr>"
    by (rule stranded_reconnect(2) [OF assms(1) p3(2)])
  have e: "hp_state (Enable p3) = StateConnectedNotSelected" "hp_t7Timer (Enable p3)"
    "hp_selectThreads (Enable p3) = hp_selectThreads p" "hp_sessions (Enable p3) j = hp_sessions p j"
    using stranded_reconnect(1) [OF assms(1) p3(2)] assms(8) by (simp_all add: stranded_def)
  have "hp_state p3 = StateConnectedNotSelected \<and> hp_t7Timer p3" using p3(2) by (simp add: stranded_def)
  moreover have "ss_closed (hp_sessions (T7_expire fsm ?p4) j)" "hp_state (T7_expire fsm ?p4) = StateNotConnected"
    using T7_expire_closes [OF assms(1), of ?p4 j] e by (simp_all add: p4)
  ultimately show ?thesis
    unfolding Let_def
    using Disable_begin_selected [OF assms(2-5)] r p3(1) e assms(7)
    by (intro exI [of _ ?k] exI [of _ ?p1] exI [of _ p2] exI [of _ p3] conjI) (simp_all add: p4)
qed

theorem disable_strands_session_witness:
  "\<exists>k p1 p2 p3. Disable_begin (sample_protocol True StateConnectedSelected) = Inr (Some k, p1)
    \<and> receive_step table_fire (Inr (CtrlMsg ([0, 1, 0, 0, 0, 4] @ encodeSystemID k))) p1 = Inr (False, p2)
    \<and> Disable_after_deselect k (receiver_exit 0 p2) = Inr p3
    \<and> hp_state p3 = StateConnectedNotSelected \<and> hp_t7Timer p3
    \<and> (let p4 = snd (activeConnect table_fire 1 (Enable p3)) in
        hp_connected p4 \<and> hp_state p4 = StateConnectedNotSelected \<and> hp_t7Timer p4
        \<and> hp_selectThreads p4 = hp_selectThreads (sample_protocol True StateConnectedSelected)
        \<and> written p4 1 = written (sample_protocol True StateConnectedSelected) 1
        \<and> \<not> ss_closed (hp_sessions p4 1)
        \<and> ss_closed (hp_sessions (T7_expire table_fire p4) 1)
        \<and> hp_state (T7_expire table_fire p4) = StateNotConnected)"
  by (rule disable_strands_session [OF table_fire_documented, of _ 0])
     (simp_all add: NewSecsTimeout_def newSession_def)

text \<open>Claim C10. Replies reach the caller that asked: two calls of \<open>SendAndWait\<close> that are in progress
  together get different system ids, and when the replies arrive in the opposite order each call
  returns its own, no handler runs, and both queues are gone; the two requests were written with
  those system ids.\<close>

theorem replies_are_correlated:
  assumes "link_up p i" and "hp_connected p" and "hp_state p = StateConnectedSelected"
    and "can_go True m1" and "can_go True m2" and "0 \<le> hp_sessionID p" and "hp_sessionID p < 65536"
    and "dm_systemBytes r1 = encodeSystemID (hp_systemCounter p + 1)"
    and "dm_systemBytes r2 = encodeSystemID (hp_systemCounter p + 2)"
  shows "\<exists>k1 k2 out1 out2 p1 p2 p3 p4 p5 p6. k1 \<noteq> k2
    \<and> SendAndWait_begin (Some m1) p = Inr (Inr (k1, out1), p1)
    \<and> SendAndWait_begin (Some m2) p1 = Inr (Inr (k2, out2), p2)
    \<and> receive_step fsm (Inr (DataMsg r2)) p2 = Inr (hp_enabled p, p3)
    \<and> receive_step fsm (Inr (DataMsg r1)) p3 = Inr (hp_enabled p, p4)
    \<and> SendAndWait_end k1 out1 p4 = Inr (Inr r1, p5)
    \<and> SendAndWait_end k2 out2 p5 = Inr (Inr r2, p6)
    \<and> dm_systemBytes out1 = dm_systemBytes r1 \<and> dm_systemBytes out2 = dm_systemBytes r2
    \<and> fetchQueue p6 k1 = None \<and> fetchQueue p6 k2 = None \<and> hp_app p6 = hp_app p
    \<and> written p6 i = written p i @ [wire_bytes (DataMsg out1), wire_bytes (DataMsg out2)]"
proof -
  let ?k1 = "hp_systemCounter p + 1"
  let ?k2 = "hp_systemCounter p + 2"
  let ?out1 = "outgoing (hp_sessionID p) (encodeSystemID ?k1) True m1"
  let ?out2 = "outgoing (hp_sessionID p) (encodeSystemID ?k2) True m2"
  define p1 where "p1 = wrote i (wire_bytes (DataMsg ?out1)) (createQueue ?k1 (p\<lparr>hp_systemCounter := ?k1\<rparr>))"
  define p2 where "p2 = wrote i (wire_bytes (DataMsg ?out2)) (createQueue ?k2 (p1\<lparr>hp_systemCounter := ?k2\<rparr>))"
  let ?p3 = "set_queue ?k2 [DataMsg r2] p2"
  let ?p4 = "set_queue ?k1 [DataMsg r1] ?p3"
  have ne: "?k1 \<noteq> ?k2" by simp
  have b1: "SendAndWait_begin (Some m1) p = Inr (Inr (?k1, ?out1), p1)"
    unfolding p1_def by (rule SendAndWait_begin_up) (use assms in simp_all)
  have p1: "link_up p1 i" "hp_connected p1" "hp_state p1 = StateConnectedSelected" "hp_sessionID p1 = hp_sessionID p"
    "hp_systemCounter p1 = ?k1" "hp_enabled p1 = hp_enabled p" "hp_app p1 = hp_app p"
    "fetchQueue p1 ?k1 = Some []" "written p1 i = written p i @ [wire_bytes (DataMsg ?out1)]"
    using assms(1-3) by (simp_all add: p1_def createQueue_def fetchQueue_def)
  have b2: "SendAndWait_begin (Some m2) p1 = Inr (Inr (?k2, ?out2), p2)"
    unfolding p2_def using p1 assms
    by (intro SendAndWait_begin_up [THEN trans]) (simp_all add: add.assoc)
  have p2: "hp_state p2 = StateConnectedSelected" "hp_enabled p2 = hp_enabled p" "hp_app p2 = hp_app p"
    "fetchQueue p2 ?k1 = Some []" "fetchQueue p2 ?k2 = Some []"
    "written p2 i = written p i @ [wire_bytes (DataMsg ?out1), wire_bytes (DataMsg ?out2)]"
    using p1 ne by (simp_all add: p2_def createQueue_def fetchQueue_def)
  have f: "hp_state ?p3 = StateConnectedSelected" "hp_enabled ?p3 = hp_enabled p" "fetchQueue ?p3 ?k1 = Some []"
    using p2 ne by (simp_all add: set_queue_def fetchQueue_def)
  have r2: "receive_step fsm (Inr (DataMsg r2)) p2 = Inr (hp_enabled p, ?p3)"
    using receive_reply [OF p2(1) assms(9) p2(5)] p2(2) by (simp add: Put_def)
  have r1: "receive_step fsm (Inr (DataMsg r1)) ?p3 = Inr (hp_enabled p, ?p4)"
    using receive_reply [OF f(1) assms(8) f(3)] f(2) by (simp add: Put_def)
  have e1: "SendAndWait_end ?k1 ?out1 ?p4 = Inr (Inr r1, removeQueue ?k1 ?p4)"
    by (rule SendAndWait_end_reply) (simp add: set_queue_def fetchQueue_def)
  have e2: "SendAndWait_end ?k2 ?out2 (removeQueue ?k1 ?p4) = Inr (Inr r2, removeQueue ?k2 (removeQueue ?k1 ?p4))"
    by (rule SendAndWait_end_reply) (simp add: set_queue_def fetchQueue_def removeQueue_def)
  let ?p6 = "removeQueue ?k2 (removeQueue ?k1 ?p4)"
  have q: "fetchQueue ?p6 ?k1 = None" "fetchQueue ?p6 ?k2 = None"
    by (simp_all add: queues.get_del)
  have a: "hp_app ?p6 = hp_app p" and w: "written ?p6 i =
      written p i @ [wire_bytes (DataMsg ?out1), wire_bytes (DataMsg ?out2)]"
    using p2(3,6) by (simp_all add: removeQueue_def set_queue_def)
  have s: "dm_systemBytes ?out1 = dm_systemBytes r1" "dm_systemBytes ?out2 = dm_systemBytes r2"
    using assms(8,9) by (simp_all add: outgoing_def)
  show ?thesis
    by (intro exI conjI) (rule ne b1 b2 r2 r1 e1 e2 s q a w)+
qed

definition sample_request :: data_message where
  "sample_request = \<lparr>dm_name = [], dm_stream = 1, dm_function = 1, dm_waitBit = 2, dm_direction = ''H->E'',
     dm_dataItem = EmptyNode, dm_sessionID = - 1, dm_systemBytes = [0, 0, 0, 0]\<rparr>"

lemma sample_request_ok: "can_go w sample_request" "checkRep (sample_request\<lparr>dm_systemBytes := encodeSystemID k\<rparr>) = Inr ()"
  by (simp_all add: can_go_def sample_request_def checkRep_def runes_def)

theorem replies_are_correlated_witness:
  "\<exists>k1 k2 out1 out2 p1 p2 p3 p4 p5 p6. k1 \<noteq> k2
    \<and> SendAndWait_begin (Some sample_request) (sample_protocol True StateConnectedSelected) = Inr (Inr (k1, out1), p1)
    \<and> SendAndWait_begin (Some sample_request) p1 = Inr (Inr (k2, out2), p2)
    \<and> receive_step table_fire (Inr (DataMsg (sample_request\<lparr>dm_systemBytes := encodeSystemID 43\<rparr>))) p2 = Inr (True, p3)
    \<and> receive_step table_fire (Inr (DataMsg (sample_request\<lparr>dm_systemBytes := encodeSystemID 42\<rparr>))) p3 = Inr (True, p4)
    \<and> SendAndWait_end k1 out1 p4 = Inr (Inr (sample_request\<lparr>dm_systemBytes := encodeSystemID 42\<rparr>), p5)
    \<and> SendAndWait_end k2 out2 p5 = Inr (Inr (sample_request\<lparr>dm_systemBytes := encodeSystemID 43\<rparr>), p6)
    \<and> hp_app p6 = ()"
  using replies_are_correlated [of "sample_protocol True StateConnectedSelected" 0 sample_request sample_request
      "sample_request\<lparr>dm_systemBytes := encodeSystemID 42\<rparr>" "sample_request\<lparr>dm_systemBytes := encodeSystemID 43\<rparr>"
      table_fire]
  by (simp add: sample_request_ok) blast

text \<open>Claim C25. When no reply arrives within T3, \<open>SendAndWait\<close> reports the timeout, drops the queue, and
  writes one S9F9 under a fresh system id; its body is, byte for byte, the header with which the
  request was written.\<close>

theorem timeout_sends_S9F9:
  assumes "link_up p i" and "0 \<le> hp_sessionID p" and "hp_sessionID p < 65536"
    and "fetchQueue p k = Some []" and "checkRep out = Inr ()" and "sendable out"
  shows "\<exists>p'. SendAndWait_end k out p = Inr (Inl (Err ''T3 timeout''), p') \<and> fetchQueue p' k = None
    \<and> written p' i = written p i @ [s9_frame 9 ([33, 10] @ slice 4 14 (wire_bytes (DataMsg out)))
        (hp_sessionID p) (encodeSystemID (hp_systemCounter p + 1))]
    \<and> hp_systemCounter p' = hp_systemCounter p + 1"
proof -
  let ?h = "message_header out"
  let ?p1 = "p\<lparr>hp_systemCounter := hp_systemCounter p + 1\<rparr>"
  have h: "s9f9_header out = Inr ?h" using s9f9_header_sent [OF assms(5)] assms(6) by (simp add: sendable_def)
  have lh: "length ?h = 10" using assms(5) by simp
  have "slice 4 14 (wire_bytes (DataMsg out)) = ?h"
    using lh ToBytes_frame [OF assms(5,6)] by (simp add: wire_bytes_def frame_def slice_def)
  moreover obtain m where m: "S9_message 9 (binary_item ?h) [] = Inr m"
    using S9_message_Inr [of 9 "binary_item ?h" "[]"] by auto
  moreover have "BuildS9F9 ?h [] = Inr m" using m lh by (simp add: BuildS9F9_eq)
  moreover have "send_s9 m (encodeSystemID (hp_systemCounter p + 1)) ?p1 =
      Inr (wrote i (s9_frame 9 ([33, 10] @ ?h) (hp_sessionID p) (encodeSystemID (hp_systemCounter p + 1))) ?p1)"
    using send_s9_up [of ?p1 i "encodeSystemID (hp_systemCounter p + 1)" 9 "binary_item ?h" "[]" m] assms(1-3) m lh
    by (simp add: ToBytes_binary_item)
  ultimately show ?thesis
    using assms(4) h
    by (simp add: SendAndWait_end_def queue_get_def try_get_def sendS9F9TransactionTimeout_def
        getNextSystemCounter_eq queues.get_del) (simp add: removeQueue_def wrote_def)
qed

theorem timeout_sends_S9F9_witness:
  "\<exists>p'. SendAndWait_end 7 (outgoing 1 [0, 0, 0, 7] True sample_request)
      (createQueue 7 (sample_protocol True StateConnectedSelected)) = Inr (Inl (Err ''T3 timeout''), p')"
proof -
  let ?out = "outgoing 1 [0, 0, 0, 7] True sample_request"
  have "checkRep ?out = Inr ()" "sendable ?out"
    by (simp_all add: outgoing_def sample_request_def checkRep_def runes_def sendable_def)
  then show ?thesis
    using timeout_sends_S9F9 [of "createQueue 7 (sample_protocol True StateConnectedSelected)" 0 7 ?out] by auto
qed

text \<open>Claim C24. A data message that no caller waits for and no handler takes is answered, in SELECTED,
  with one error message under its own system bytes: S9F5 with the function when the stream is a
  known one, S9F3 with the stream otherwise. A stream 9 message is never answered; it is reported
  to the error callback with its function code as the error code.\<close>

theorem unhandled_message_answer:
  assumes "link_up p i" and "0 \<le> hp_sessionID p" and "hp_sessionID p < 65536"
    and "hp_state p = StateConnectedSelected" and "checkRep m = Inr ()"
    and "fetchQueue p (word_of_nat (be_uint (dm_systemBytes m))) = None"
    and "lookupHandler p (dm_stream m) (dm_function m) = None" and "hp_defaultHandler p = None"
  shows "\<exists>p'. receive_step fsm (Inr (DataMsg m)) p = Inr (hp_enabled p, p') \<and>
    (if dm_stream m = 9
     then written p' i = written p i
       \<and> (hp_OnS9Error p \<longrightarrow> map ErrorCode (hp_s9Calls p') = map ErrorCode (hp_s9Calls p) @ [dm_function m])
     else written p' i = written p i @
       [if isKnownStream (dm_stream m)
        then s9_frame 5 [33, 1, word_of_int (dm_function m)] (hp_sessionID p) (dm_systemBytes m)
        else s9_frame 3 [33, 1, word_of_int (dm_stream m)] (hp_sessionID p) (dm_systemBytes m)])"
proof -
  have len: "length (dm_systemBytes m) = 4" using assms(5) by (simp add: checkRep_Inr_iff)
  have r: "receive_step fsm (Inr (DataMsg m)) p = go_bind (handleDataMessage m p) (\<lambda>p'. Inr (hp_enabled p', p'))"
    using assms(4,6) len by (simp add: receive_step_def receive_data_def systemID_of_def)
  show ?thesis
  proof (cases "dm_stream m = 9")
    case True
    have "handleDataMessage m p = Inr (triggerS9ErrorCallback m p)"
      using True assms(7,8)
      by (simp add: handleDataMessage_def Let_def lookupHandler_def triggerS9ErrorCallback_def
          sendS9ErrorForUnrecognized_def s9_for_unrecognized_def)
    then show ?thesis using True by (simp add: r triggerS9ErrorCallback_def s9_callback_info_def)
  next
    case False
    then show ?thesis using unhandled_written [OF assms(1-4) len assms(6-8)] by simp
  qed
qed

theorem unhandled_message_answer_witness:
  "\<exists>p'. receive_step table_fire (Inr (DataMsg (sample_request\<lparr>dm_stream := 11\<rparr>)))
      (sample_protocol True StateConnectedSelected) = Inr (True, p')
    \<and> written p' 0 = [s9_frame 3 [33, 1, 11] 1 [0, 0, 0, 0]]"
proof -
  let ?m = "sample_request\<lparr>dm_stream := 11\<rparr>"
  have "checkRep ?m = Inr ()" by (simp add: sample_request_def checkRep_def runes_def)
  then show ?thesis
    using unhandled_message_answer [of "sample_protocol True StateConnectedSelected" 0 ?m table_fire]
    by (simp add: fetchQueue_def lookupHandler_def isKnownStream_def sample_request_def newSession_def)
qed

text \<open>Claim C23. A registered handler gets the messages of its stream and function and of no other: the
  handler under a pair is the one registered last, removing it leaves none, other pairs are
  untouched. Its response goes out once, under the system bytes of the request and the session id of
  the protocol, with an open wait bit cleared.\<close>

theorem handler_dispatch:
  assumes "link_up p i" and "0 \<le> hp_sessionID p" and "hp_sessionID p < 65536"
    and "hp_state p = StateConnectedSelected" and "checkRep m = Inr ()" and "dm_stream m \<noteq> 9"
    and "fetchQueue p (word_of_nat (be_uint (dm_systemBytes m))) = None"
    and "h m (hp_app p) = (Inr (Inr (Some resp)), app)" and "can_go False resp"
    and "0 \<le> s" and "0 \<le> f" and "(s, f) \<noteq> (dm_stream m, dm_function m)"
  shows "\<exists>p'. receive_step fsm (Inr (DataMsg m))
        (RegisterHandler s f g (RegisterHandler (dm_stream m) (dm_function m) (Some h) p)) = Inr (hp_enabled p, p')
      \<and> hp_app p' = app
      \<and> written p' i = written p i @
          [wire_bytes (DataMsg (outgoing (hp_sessionID p) (dm_systemBytes m) False resp))]
      \<and> lookupHandler p' s f = g
      \<and> lookupHandler (RegisterHandler (dm_stream m) (dm_function m) None p') (dm_stream m) (dm_function m) = None"
proof -
  have sf: "0 \<le> dm_stream m" "0 \<le> dm_function m" "length (dm_systemBytes m) = 4"
    using assms(5) by (simp_all add: checkRep_Inr_iff)
  let ?q = "RegisterHandler s f g (RegisterHandler (dm_stream m) (dm_function m) (Some h) p)"
  have look: "lookupHandler (RegisterHandler a b x r) c d = (if c = a \<and> d = b then x else lookupHandler r c d)"
    if "0 \<le> a" "0 \<le> b" "0 \<le> c" "0 \<le> d" for a b c d x and r :: "'a hsms_protocol"
    using that by (auto simp: lookupHandler_def RegisterHandler_def Let_def streamFunctionKey_inj split: option.splits)
  have q: "link_up ?q i" "hp_sessionID ?q = hp_sessionID p" "hp_state ?q = hp_state p" "hp_app ?q = hp_app p"
    "hp_enabled ?q = hp_enabled p" "written ?q i = written p i" "fetchQueue ?q k = fetchQueue p k" for k
    using assms(1) by (simp_all add: RegisterHandler_def Let_def link_up_def fetchQueue_def split: option.splits)
  have hq: "lookupHandler ?q (dm_stream m) (dm_function m) = Some h" "lookupHandler ?q s f = g"
    using assms(10-12) sf by (auto simp: look)
  let ?out = "outgoing (hp_sessionID p) (dm_systemBytes m) False resp"
  let ?p' = "wrote i (wire_bytes (DataMsg ?out)) (?q\<lparr>hp_app := app\<rparr>)"
  have b: "DataMessage_ToBytes ?out = Inr (wire_bytes (DataMsg ?out))"
    using bytes_of_rep [OF outgoing_rep(1) [OF assms(9,2,3) sf(3)]] .
  have up: "link_up (?q\<lparr>hp_app := app\<rparr>) i" using q(1) by simp
  have inv: "invokeHandler h m ?q = Inr ?p'"
    using assms(8) b
    by (simp add: invokeHandler_def q Let_def prepare_outgoing [OF assms(9,2,3) sf(3)] HsmsConnection_Send_up [OF up])
  have "receive_step fsm (Inr (DataMsg m)) ?q = Inr (hp_enabled p, ?p')"
    using assms(4,6,7) sf(3) hq inv
    by (simp add: receive_step_def receive_data_def systemID_of_def q handleDataMessage_def Let_def)
  moreover have "lookupHandler ?p' s f = g" using hq(2) by (simp add: lookupHandler_def wrote_def)
  moreover have "lookupHandler (RegisterHandler (dm_stream m) (dm_function m) None ?p') (dm_stream m) (dm_function m) = None"
    using sf by (simp add: look)
  ultimately show ?thesis using q(6) by (intro exI [of _ ?p']) simp
qed

definition sample_reply :: data_message where
  "sample_reply = sample_request\<lparr>dm_function := 2\<rparr>"

theorem handler_dispatch_witness:
  "\<exists>p'. receive_step table_fire (Inr (DataMsg sample_request))
      (RegisterHandler 1 3 None (RegisterHandler 1 1 (Some (\<lambda>m a. (Inr (Inr (Some sample_reply)), a)))
        (sample_protocol True StateConnectedSelected))) = Inr (True, p')
    \<and> written p' 0 = [wire_bytes (DataMsg (outgoing 1 [0, 0, 0, 0] False sample_reply))]"
proof -
  have "checkRep sample_request = Inr ()" "can_go False sample_reply"
    by (simp_all add: sample_request_def sample_reply_def checkRep_def runes_def can_go_def)
  then show ?thesis
    using handler_dispatch [of "sample_protocol True StateConnectedSelected" 0 sample_request
        "\<lambda>m a. (Inr (Inr (Some sample_reply)), a)" sample_reply "()" 1 3 table_fire None]
    by (auto simp: fetchQueue_def sample_request_def newSession_def)
qed

end
