(* ===== verification/Gem_Control.thy ===== *)
theory Gem_Control
  imports Prelude
begin

text \<open>
  The control state machine of \<open>gem/control_state_machine.go\<close> with all of its operations, and the
  SEMI E30 control state model it implements as an abstract transition relation: what a machine does
  is a transition of the model or leaves it where it is.

  \<open>ControlState\<close> and \<open>OnlineControlMode\<close> are strings in Go: the last constructor stands for any string
  that is none of the constants. The mutex makes each operation one step.
\<close>

section \<open>The machine\<close>

datatype control_state =
    ControlStateInit | ControlStateControl | ControlStateOffline | ControlStateEquipmentOffline
  | ControlStateAttemptOnline | ControlStateHostOffline | ControlStateOnline
  | ControlStateOnlineLocal | ControlStateOnlineRemote | OtherControlState string

datatype online_mode = OnlineModeLocal | OnlineModeRemote | OtherOnlineMode string

record control =
  ct_state :: control_state
  ct_initial :: control_state
  ct_onlineMode :: online_mode

definition isValidInitialControlState :: "control_state \<Rightarrow> bool" where
  "isValidInitialControlState s \<longleftrightarrow> s \<in> {ControlStateEquipmentOffline, ControlStateAttemptOnline,
     ControlStateHostOffline, ControlStateOnline}"

definition isValidOnlineMode :: "online_mode \<Rightarrow> bool" where
  "isValidOnlineMode m \<longleftrightarrow> m \<in> {OnlineModeLocal, OnlineModeRemote}"

definition isOnlineStateLocked :: "control \<Rightarrow> bool" where
  "isOnlineStateLocked sm \<longleftrightarrow>
     ct_state sm \<in> {ControlStateOnline, ControlStateOnlineLocal, ControlStateOnlineRemote}"

definition applyOnlineModeLocked :: "control \<Rightarrow> control" where
  "applyOnlineModeLocked sm =
     (let sm1 = (if isValidOnlineMode (ct_onlineMode sm) then sm else sm\<lparr>ct_onlineMode := OnlineModeRemote\<rparr>)
      in if ct_onlineMode sm1 = OnlineModeLocal then sm1\<lparr>ct_state := ControlStateOnlineLocal\<rparr>
         else sm1\<lparr>ct_state := ControlStateOnlineRemote\<rparr>)"

definition enterOnlineLocked :: "control \<Rightarrow> control" where
  "enterOnlineLocked sm = applyOnlineModeLocked (sm\<lparr>ct_state := ControlStateOnline\<rparr>)"

definition ensureOnlineSubstateLocked :: "control \<Rightarrow> control" where
  "ensureOnlineSubstateLocked sm =
     (if ct_state sm = ControlStateOnline then applyOnlineModeLocked sm else sm)"

definition applyInitialLocked :: "control \<Rightarrow> control" where
  "applyInitialLocked sm =
     (if ct_initial sm = ControlStateOnline then enterOnlineLocked sm
      else if ct_initial sm = ControlStateEquipmentOffline
        then (sm\<lparr>ct_state := ControlStateOffline\<rparr>)\<lparr>ct_state := ControlStateEquipmentOffline\<rparr>
      else if ct_initial sm = ControlStateHostOffline
        then (sm\<lparr>ct_state := ControlStateOffline\<rparr>)\<lparr>ct_state := ControlStateHostOffline\<rparr>
      else (sm\<lparr>ct_state := ControlStateOffline\<rparr>)\<lparr>ct_state := ControlStateAttemptOnline\<rparr>)"

definition Control_Start :: "control \<Rightarrow> control" where
  "Control_Start sm =
     (if ct_state sm \<noteq> ControlStateInit then sm
      else applyInitialLocked (sm\<lparr>ct_state := ControlStateControl\<rparr>))"

definition NewControlStateMachine :: "control_state \<Rightarrow> online_mode \<Rightarrow> control" where
  "NewControlStateMachine initialState initialOnlineMode =
     (let sm = \<lparr>ct_state = ControlStateInit, ct_initial = ControlStateAttemptOnline,
                ct_onlineMode = OnlineModeRemote\<rparr>;
          sm1 = (if isValidInitialControlState initialState then sm\<lparr>ct_initial := initialState\<rparr> else sm);
          sm2 = (if isValidOnlineMode initialOnlineMode then sm1\<lparr>ct_onlineMode := initialOnlineMode\<rparr> else sm1)
      in Control_Start sm2)"

section \<open>The transitions\<close>

text \<open>Each operation yields its error and the machine; an operation that fails may still have moved
  \<open>ONLINE\<close> to its sub-state.\<close>

type_synonym control_op = "control \<Rightarrow> unit res \<times> control"

definition invalidTransition :: control_op where
  "invalidTransition sm = (Inl (Err ''gem: invalid control state transition''), sm)"

definition SwitchOnline :: control_op where
  "SwitchOnline sm =
     (if ct_state sm = ControlStateAttemptOnline then (Inr (), sm)
      else if ct_state sm \<noteq> ControlStateEquipmentOffline then invalidTransition sm
      else (Inr (), sm\<lparr>ct_state := ControlStateAttemptOnline\<rparr>))"

definition SwitchOffline :: control_op where
  "SwitchOffline sm =
     (if \<not> isOnlineStateLocked sm then invalidTransition sm
      else (Inr (), sm\<lparr>ct_state := ControlStateEquipmentOffline\<rparr>))"

definition SwitchOnlineLocal :: control_op where
  "SwitchOnlineLocal sm =
     (if ct_state sm = ControlStateOnlineLocal then (Inr (), sm\<lparr>ct_onlineMode := OnlineModeLocal\<rparr>)
      else let sm1 = ensureOnlineSubstateLocked sm in
        if ct_state sm1 \<noteq> ControlStateOnlineRemote then invalidTransition sm1
        else (Inr (), sm1\<lparr>ct_onlineMode := OnlineModeLocal, ct_state := ControlStateOnlineLocal\<rparr>))"

definition SwitchOnlineRemote :: control_op where
  "SwitchOnlineRemote sm =
     (if ct_state sm = ControlStateOnlineRemote then (Inr (), sm\<lparr>ct_onlineMode := OnlineModeRemote\<rparr>)
      else let sm1 = ensureOnlineSubstateLocked sm in
        if ct_state sm1 \<noteq> ControlStateOnlineLocal then invalidTransition sm1
        else (Inr (), sm1\<lparr>ct_onlineMode := OnlineModeRemote, ct_state := ControlStateOnlineRemote\<rparr>))"

definition AttemptOnlineFailEquipmentOffline :: control_op where
  "AttemptOnlineFailEquipmentOffline sm =
     (if ct_state sm = ControlStateEquipmentOffline then (Inr (), sm)
      else if ct_state sm \<noteq> ControlStateAttemptOnline then invalidTransition sm
      else (Inr (), sm\<lparr>ct_state := ControlStateEquipmentOffline\<rparr>))"

definition AttemptOnlineFailHostOffline :: control_op where
  "AttemptOnlineFailHostOffline sm =
     (if ct_state sm = ControlStateHostOffline then (Inr (), sm)
      else if ct_state sm \<noteq> ControlStateAttemptOnline then invalidTransition sm
      else (Inr (), sm\<lparr>ct_state := ControlStateHostOffline\<rparr>))"

definition AttemptOnlineSuccess :: control_op where
  "AttemptOnlineSuccess sm =
     (if isOnlineStateLocked sm then (Inr (), sm)
      else if ct_state sm \<noteq> ControlStateAttemptOnline then invalidTransition sm
      else (Inr (), enterOnlineLocked sm))"

definition RemoteOffline :: control_op where
  "RemoteOffline sm =
     (if \<not> isOnlineStateLocked sm then invalidTransition sm
      else (Inr (), sm\<lparr>ct_state := ControlStateHostOffline\<rparr>))"

definition RemoteOnline :: control_op where
  "RemoteOnline sm =
     (if ct_state sm \<noteq> ControlStateHostOffline then invalidTransition sm
      else (Inr (), enterOnlineLocked sm))"

section \<open>The control state model of SEMI E30\<close>

text \<open>The five leaf states, and the transitions of the standard by their numbers: 3 the operator
  goes on-line, 4 the attempt fails, 5 it succeeds, 6 the operator goes off-line, 8 and 9 the local
  or remote switch, 10 the host takes the equipment off-line, 11 the host takes it on-line, 12 the
  operator acknowledges the host's off-line. The failure of an attempt leads to either off-line
  state, by configuration.\<close>

datatype e30_state = EquipmentOffline | AttemptOnline | HostOffline | OnlineLocal | OnlineRemote

inductive e30 :: "e30_state \<Rightarrow> nat \<Rightarrow> e30_state \<Rightarrow> bool" where
  e30_3: "e30 EquipmentOffline 3 AttemptOnline"
| e30_4_equipment: "e30 AttemptOnline 4 EquipmentOffline"
| e30_4_host: "e30 AttemptOnline 4 HostOffline"
| e30_5_local: "e30 AttemptOnline 5 OnlineLocal"
| e30_5_remote: "e30 AttemptOnline 5 OnlineRemote"
| e30_6_local: "e30 OnlineLocal 6 EquipmentOffline"
| e30_6_remote: "e30 OnlineRemote 6 EquipmentOffline"
| e30_8: "e30 OnlineLocal 8 OnlineRemote"
| e30_9: "e30 OnlineRemote 9 OnlineLocal"
| e30_10_local: "e30 OnlineLocal 10 HostOffline"
| e30_10_remote: "e30 OnlineRemote 10 HostOffline"
| e30_11_local: "e30 HostOffline 11 OnlineLocal"
| e30_11_remote: "e30 HostOffline 11 OnlineRemote"
| e30_12: "e30 HostOffline 12 EquipmentOffline"

inductive_simps e30_from [simp]:
  "e30 EquipmentOffline n s" "e30 AttemptOnline n s" "e30 HostOffline n s" "e30 OnlineLocal n s"
  "e30 OnlineRemote n s"

text \<open>The leaf state a machine is in.\<close>

fun leaf :: "control_state \<Rightarrow> e30_state option" where
  "leaf ControlStateEquipmentOffline = Some EquipmentOffline"
| "leaf ControlStateAttemptOnline = Some AttemptOnline"
| "leaf ControlStateHostOffline = Some HostOffline"
| "leaf ControlStateOnlineLocal = Some OnlineLocal"
| "leaf ControlStateOnlineRemote = Some OnlineRemote"
| "leaf _ = None"

lemma leaf_iff:
  "leaf s = Some EquipmentOffline \<longleftrightarrow> s = ControlStateEquipmentOffline"
  "leaf s = Some AttemptOnline \<longleftrightarrow> s = ControlStateAttemptOnline"
  "leaf s = Some HostOffline \<longleftrightarrow> s = ControlStateHostOffline"
  "leaf s = Some OnlineLocal \<longleftrightarrow> s = ControlStateOnlineLocal"
  "leaf s = Some OnlineRemote \<longleftrightarrow> s = ControlStateOnlineRemote"
  by (cases s; simp)+

text \<open>A machine is settled when it is in a leaf state, its mode is one of the two and agrees with
  the on-line sub-state.\<close>

definition settled :: "control \<Rightarrow> bool" where
  "settled sm \<longleftrightarrow> leaf (ct_state sm) \<noteq> None \<and> isValidOnlineMode (ct_onlineMode sm)
     \<and> (ct_state sm = ControlStateOnlineLocal \<longrightarrow> ct_onlineMode sm = OnlineModeLocal)
     \<and> (ct_state sm = ControlStateOnlineRemote \<longrightarrow> ct_onlineMode sm = OnlineModeRemote)"

text \<open>An operation implements the transitions \<open>ns\<close>: from a settled machine it ends in one; without
  an error it has taken one of the transitions or none at all, with an error it has changed nothing.\<close>

definition implements :: "nat set \<Rightarrow> control_op \<Rightarrow> bool" where
  "implements ns f \<longleftrightarrow> (\<forall>sm. settled sm \<longrightarrow>
     settled (snd (f sm)) \<and> ct_initial (snd (f sm)) = ct_initial sm \<and>
     (case fst (f sm) of
        Inl e \<Rightarrow> snd (f sm) = sm
      | Inr _ \<Rightarrow> snd (f sm) = sm \<or>
          (\<exists>n \<in> ns. e30 (the (leaf (ct_state sm))) n (the (leaf (ct_state (snd (f sm))))))))"

lemma implementsI:
  assumes "\<And>sm. settled sm \<Longrightarrow> settled (snd (f sm)) \<and> ct_initial (snd (f sm)) = ct_initial sm"
    and "\<And>sm e. settled sm \<Longrightarrow> fst (f sm) = Inl e \<Longrightarrow> snd (f sm) = sm"
    and "\<And>sm. settled sm \<Longrightarrow> fst (f sm) = Inr () \<Longrightarrow> snd (f sm) = sm \<or>
      (\<exists>n \<in> ns. e30 (the (leaf (ct_state sm))) n (the (leaf (ct_state (snd (f sm))))))"
  shows "implements ns f"
  unfolding implements_def using assms by (auto split: sum.split)

lemmas control_defs = SwitchOnline_def SwitchOffline_def SwitchOnlineLocal_def SwitchOnlineRemote_def
  AttemptOnlineFailEquipmentOffline_def AttemptOnlineFailHostOffline_def AttemptOnlineSuccess_def
  RemoteOffline_def RemoteOnline_def invalidTransition_def enterOnlineLocked_def
  applyOnlineModeLocked_def ensureOnlineSubstateLocked_def isOnlineStateLocked_def Let_def

lemma settled_cases:
  assumes "settled sm"
  obtains (equipment) i m where "sm = \<lparr>ct_state = ControlStateEquipmentOffline, ct_initial = i, ct_onlineMode = m\<rparr>"
      "m = OnlineModeLocal \<or> m = OnlineModeRemote"
  | (attempt) i m where "sm = \<lparr>ct_state = ControlStateAttemptOnline, ct_initial = i, ct_onlineMode = m\<rparr>"
      "m = OnlineModeLocal \<or> m = OnlineModeRemote"
  | (host) i m where "sm = \<lparr>ct_state = ControlStateHostOffline, ct_initial = i, ct_onlineMode = m\<rparr>"
      "m = OnlineModeLocal \<or> m = OnlineModeRemote"
  | (local) i where "sm = \<lparr>ct_state = ControlStateOnlineLocal, ct_initial = i, ct_onlineMode = OnlineModeLocal\<rparr>"
  | (remote) i where "sm = \<lparr>ct_state = ControlStateOnlineRemote, ct_initial = i, ct_onlineMode = OnlineModeRemote\<rparr>"
  using assms by (cases sm) (auto simp: settled_def isValidOnlineMode_def elim!: leaf.elims)

lemma control_ops_implement:
  "implements {3} SwitchOnline" "implements {6} SwitchOffline" "implements {9} SwitchOnlineLocal"
  "implements {8} SwitchOnlineRemote" "implements {4} AttemptOnlineFailEquipmentOffline"
  "implements {4} AttemptOnlineFailHostOffline" "implements {5} AttemptOnlineSuccess"
  "implements {10} RemoteOffline" "implements {11} RemoteOnline"
  unfolding implements_def
  by (safe elim!: settled_cases; simp add: control_defs settled_def isValidOnlineMode_def)+

text \<open>One transition of the model, or none.\<close>

definition moves :: "control \<Rightarrow> control \<Rightarrow> bool" where
  "moves sm sm' \<longleftrightarrow> leaf (ct_state sm') = leaf (ct_state sm)
     \<or> (\<exists>n. e30 (the (leaf (ct_state sm))) n (the (leaf (ct_state sm'))))"

lemma moves_refl [simp]: "moves sm sm"
  by (simp add: moves_def)

lemma implements_moves: "implements ns f \<Longrightarrow> settled sm \<Longrightarrow> moves sm (snd (f sm))"
  by (cases "fst (f sm)") (force simp: implements_def moves_def)+

lemma NewControlStateMachine_settled: "settled (NewControlStateMachine s m)"
  by (auto simp: NewControlStateMachine_def Control_Start_def applyInitialLocked_def settled_def
    isValidInitialControlState_def isValidOnlineMode_def control_defs)

end
