(* ===== verification/Gem_Ids.thy ===== *)
theory Gem_Ids
  imports Hsms_Roundtrip
begin

text \<open>
  Identifiers of the GEM layer, \<open>gem/id_utils.go\<close>, and what all of the package shares: reading list
  payloads, the acknowledge codes of \<open>gem/data_items.go\<close> and the device types of \<open>gem/types.go\<close>.

  An identifier (of a variable, report, event, alarm, program) is a number or a text; \<open>id_info\<close> holds
  it in three forms: the Go value the application sees (\<open>uint64\<close> or \<open>string\<close>), the item that is sent,
  and the key of the registries. The item of an \<open>idInfo\<close> made without an error is never nil.
\<close>

section \<open>Device types and acknowledge codes\<close>

type_synonym device_type = int

definition DeviceHost :: device_type where "DeviceHost = 0"
definition DeviceEquipment :: device_type where "DeviceEquipment = 1"

lemma device_types [simp]: "DeviceHost \<noteq> DeviceEquipment" "DeviceEquipment \<noteq> DeviceHost"
  by (simp_all add: DeviceHost_def DeviceEquipment_def)

datatype DRACKCode = DRACKAccept | DRACKInsufficient | DRACKInvalidFormat | DRACKRPTIDRedefined
  | DRACKVIDDoesNotExist

datatype LRACKCode = LRACKAccept | LRACKInsufficient | LRACKInvalidFormat | LRACKCEIDAlreadyLinked
  | LRACKCEIDDoesNotExist | LRACKRPTIDDoesNotExist

datatype ERACKCode = ERACKAccepted | ERACKCEIDUnknown

datatype ECACKCode = ECACKAccepted | ECACKDoesNotExist | ECACKInvalidData | ECACKValidationError

fun DRACK_Int :: "DRACKCode \<Rightarrow> 64 word" where
  "DRACK_Int DRACKAccept = 0" | "DRACK_Int DRACKInsufficient = 1" | "DRACK_Int DRACKInvalidFormat = 2"
| "DRACK_Int DRACKRPTIDRedefined = 3" | "DRACK_Int DRACKVIDDoesNotExist = 4"

fun LRACK_Int :: "LRACKCode \<Rightarrow> 64 word" where
  "LRACK_Int LRACKAccept = 0" | "LRACK_Int LRACKInsufficient = 1" | "LRACK_Int LRACKInvalidFormat = 2"
| "LRACK_Int LRACKCEIDAlreadyLinked = 3" | "LRACK_Int LRACKCEIDDoesNotExist = 4"
| "LRACK_Int LRACKRPTIDDoesNotExist = 5"

fun ERACK_Int :: "ERACKCode \<Rightarrow> 64 word" where
  "ERACK_Int ERACKAccepted = 0" | "ERACK_Int ERACKCEIDUnknown = 1"

fun ECACK_Int :: "ECACKCode \<Rightarrow> 64 word" where
  "ECACK_Int ECACKAccepted = 0" | "ECACK_Int ECACKDoesNotExist = 1" | "ECACK_Int ECACKInvalidData = 2"
| "ECACK_Int ECACKValidationError = 3"

lemma ack_codes_injective:
  "DRACK_Int a = DRACK_Int b \<longleftrightarrow> a = b" "LRACK_Int c = LRACK_Int d \<longleftrightarrow> c = d"
  "ERACK_Int e = ERACK_Int f \<longleftrightarrow> e = f" "ECACK_Int g = ECACK_Int h \<longleftrightarrow> g = h"
  subgoal by (cases a; cases b; simp)
  subgoal by (cases c; cases d; simp)
  subgoal by (cases e; cases f; simp)
  subgoal by (cases g; cases h; simp)
  done

section \<open>Identifiers\<close>

record id_info =
  id_raw :: goval
  id_node :: item
  id_key :: string

text \<open>\<open>byteSizeForUint\<close> skips two bytes: 256 to 65535 are sent in four.\<close>

definition byteSizeForUint :: "64 word \<Rightarrow> int" where
  "byteSizeForUint v = (if v \<le> 0xFF then 1 else if v \<le> 0xFFFFFFFF then 4 else 8)"

definition num_key :: "64 word \<Rightarrow> string" where
  "num_key v = ''N:'' @ dec (uint v)"

definition str_key :: "string \<Rightarrow> string" where
  "str_key s = ''S:'' @ s"

definition newIDInfoFromUint :: "64 word \<Rightarrow> id_info res go" where
  "newIDInfoFromUint v = go_bind (NewUintNode 4 [VUint64 v]) (\<lambda>node.
     Inr (Inr \<lparr>id_raw = VUint64 v, id_node = node, id_key = num_key v\<rparr>))"

definition signed_id :: "'a::len word \<Rightarrow> id_info res go" where
  "signed_id v = (if sint v < 0 then Inr (Inl (Err ''negative identifier not supported''))
     else newIDInfoFromUint (scast v))"

definition newIDInfo :: "goval \<Rightarrow> id_info res go" where
  "newIDInfo value = (case value of
      VUint8 v \<Rightarrow> newIDInfoFromUint (ucast v)
    | VUint16 v \<Rightarrow> newIDInfoFromUint (ucast v)
    | VUint32 v \<Rightarrow> newIDInfoFromUint (ucast v)
    | VUint64 v \<Rightarrow> newIDInfoFromUint v
    | VUint v \<Rightarrow> newIDInfoFromUint v
    | VInt8 v \<Rightarrow> signed_id v
    | VInt16 v \<Rightarrow> signed_id v
    | VInt32 v \<Rightarrow> signed_id v
    | VInt64 v \<Rightarrow> signed_id v
    | VInt v \<Rightarrow> signed_id v
    | VString s \<Rightarrow> go_bind (NewASCIINode s) (\<lambda>node.
        Inr (Inr \<lparr>id_raw = VString s, id_node = node, id_key = str_key s\<rparr>))
    | _ \<Rightarrow> Inr (Inl (Err ''unsupported identifier type'')))"

definition newIDInfoFromNode :: "item option \<Rightarrow> id_info res go" where
  "newIDInfoFromNode n = (case n of
      None \<Rightarrow> Inr (Inl (Err ''nil id node''))
    | Some node \<Rightarrow>
       if Type node = ''ascii'' then
         (case Values node of
            VsString str \<Rightarrow> Inr (Inr \<lparr>id_raw = VString str, id_node = node, id_key = str_key str\<rparr>)
          | _ \<Rightarrow> Inr (Inl (Err ''unexpected ascii value type'')))
       else if Type node \<in> {''u1'', ''u2'', ''u4'', ''u8''} then
         (case Values node of
            VsUint64s (v # vs) \<Rightarrow> Inr (Inr \<lparr>id_raw = VUint64 v, id_node = node, id_key = num_key v\<rparr>)
          | _ \<Rightarrow> Inr (Inl (Err ''invalid unsigned id payload'')))
       else if Type node \<in> {''i1'', ''i2'', ''i4'', ''i8''} then
         (case Values node of
            VsInt64s (v # vs) \<Rightarrow>
              if sint v < 0 then Inr (Inl (Err ''negative identifier not supported''))
              else go_bind (NewUintNode (byteSizeForUint v) [VUint64 v]) (\<lambda>u.
                Inr (Inr \<lparr>id_raw = VUint64 v, id_node = u, id_key = num_key v\<rparr>))
          | _ \<Rightarrow> Inr (Inl (Err ''invalid signed id payload'')))
       else Inr (Inl (Err ''unsupported id node type'')))"

definition keyForRawID :: "goval \<Rightarrow> string res" where
  "keyForRawID i = (case i of
      VUint64 v \<Rightarrow> Inr (num_key v)
    | VString s \<Rightarrow> Inr (str_key s)
    | _ \<Rightarrow> Inl (Err ''unsupported raw id type''))"

text \<open>Two fallible results in a row: a panic or an error ends both.\<close>

definition res_bind :: "'a res go \<Rightarrow> ('a \<Rightarrow> 'b res go) \<Rightarrow> 'b res go" where
  "res_bind m f = go_bind m (\<lambda>r. case r of Inl e \<Rightarrow> Inr (Inl e) | Inr x \<Rightarrow> f x)"

fun res_map :: "('a \<Rightarrow> 'b res go) \<Rightarrow> 'a list \<Rightarrow> 'b list res go" where
  "res_map f [] = Inr (Inr [])"
| "res_map f (x # xs) = res_bind (f x) (\<lambda>y. res_bind (res_map f xs) (\<lambda>ys. Inr (Inr (y # ys))))"

definition ensureIDInfoSlice :: "goval list \<Rightarrow> id_info list res go" where
  "ensureIDInfoSlice values = res_map newIDInfo values"

section \<open>Requests that list identifiers\<close>

text \<open>A request entry is \<open>None\<close> when its identifier could not be read (\<open>idRequest\{ok: false\}\<close>).\<close>

type_synonym id_request = "id_info option"

definition as_list :: "item \<Rightarrow> item list option" where
  "as_list n = (case n of LNode vs vars s \<Rightarrow> Some vs | _ \<Rightarrow> None)"

definition message_body :: "data_message option \<Rightarrow> item res" where
  "message_body msg = (case msg of None \<Rightarrow> Inl (Err ''nil message'') | Some m \<Rightarrow> Get (dm_dataItem m) [])"

definition list_body :: "data_message option \<Rightarrow> item list res" where
  "list_body msg = go_bind (message_body msg) (\<lambda>item. case as_list item of
      None \<Rightarrow> Inl (Err ''expected list payload'') | Some vs \<Rightarrow> Inr vs)"

definition request_of :: "item \<Rightarrow> id_request go" where
  "request_of node = go_bind (newIDInfoFromNode (Some node)) (\<lambda>r. Inr (case r of
      Inl e \<Rightarrow> None | Inr info \<Rightarrow> Some info))"

definition parseIDRequestList :: "data_message option \<Rightarrow> id_request list res go" where
  "parseIDRequestList msg = (case list_body msg of
      Inl e \<Rightarrow> Inr (Inl e)
    | Inr vs \<Rightarrow> go_bind (go_map request_of vs) (\<lambda>rs. Inr (Inr rs)))"

section \<open>Lemmas\<close>

lemma res_bind_simps [simp]:
  "res_bind (Inl e) f = Inl e" "res_bind (Inr (Inl err)) f = Inr (Inl err)"
  "res_bind (Inr (Inr x)) f = f x"
  by (simp_all add: res_bind_def)

lemma res_bind_Inr_iff: "res_bind m f = Inr (Inr y) \<longleftrightarrow> (\<exists>x. m = Inr (Inr x) \<and> f x = Inr (Inr y))"
  by (cases m; simp add: res_bind_def split: sum.split)

lemma res_map_Inr_iff:
  "res_map f xs = Inr (Inr ys) \<longleftrightarrow> list_all2 (\<lambda>x y. f x = Inr (Inr y)) xs ys"
  by (induction xs arbitrary: ys) (auto simp: res_bind_Inr_iff list_all2_Cons1)

lemma res_map_all: "(\<And>x. x \<in> set xs \<Longrightarrow> f x = Inr (Inr (g x))) \<Longrightarrow> res_map f xs = Inr (Inr (map g xs))"
  by (induction xs) simp_all

lemma Get_no_index [simp]: "Get n [] = Inr n"
  by (cases n) (simp_all add: Get_def)

lemma message_body_Some [simp]: "message_body (Some m) = Inr (dm_dataItem m)"
  by (simp add: message_body_def)

text \<open>Keys tell identifiers apart: they are equal exactly for equal numbers and equal texts.\<close>

lemma num_key_inj [simp]: "num_key v = num_key w \<longleftrightarrow> v = w"
  by (auto simp: num_key_def dec_inj intro: word_uint_eqI)

lemma str_key_inj [simp]: "str_key s = str_key t \<longleftrightarrow> s = t"
  by (simp add: str_key_def)

lemma key_kinds [simp]: "num_key v \<noteq> str_key s" "str_key s \<noteq> num_key v"
  by (simp_all add: num_key_def str_key_def)

text \<open>\<open>info_ok\<close>: an \<open>idInfo\<close> whose three forms belong together.\<close>

definition info_ok :: "id_info \<Rightarrow> bool" where
  "info_ok i \<longleftrightarrow> keyForRawID (id_raw i) = Inr (id_key i) \<and> id_node i \<noteq> EmptyNode \<and> rep_ok (id_node i)
     \<and> Variables (id_node i) = []"

lemma uint_fits_4 [simp]: "uint_fits 4 v \<longleftrightarrow> v \<le> 0xFFFFFFFF"
  by (simp add: uint_fits_def push_bit_eq_mult)

lemma uint_fits_byteSize: "uint_fits (byteSizeForUint v) v"
proof -
  have "(0xFFFFFFFFFFFFFFFF :: 64 word) = - 1" by simp
  then have "v \<le> 0xFFFFFFFFFFFFFFFF" by (simp only: word_n1_ge)
  then show ?thesis by (simp add: uint_fits_def byteSizeForUint_def push_bit_eq_mult)
qed

definition id_uint :: "int \<Rightarrow> 64 word \<Rightarrow> item" where
  "id_uint b v = UNode \<lparr>un_byteSize = b, un_values = [v], un_variables = [], un_symbol = ''u'' @ dec b\<rparr>"

lemma NewUintNode_single:
  assumes "b \<in> {1, 2, 4, 8}" and "uint_value a = Inr (Inl v)" and "uint_fits b v"
  shows "NewUintNode b [a] = Inr (id_uint b v)"
proof -
  have "b * int (length [a]) \<le> MAX_BYTE_SIZE" using assms(1) by (auto simp: MAX_BYTE_SIZE_def)
  then show ?thesis
    using NewUintNode_ok [of b "[a]" "\<lambda>_. v"] assms by (simp add: id_uint_def)
qed

lemma NewUintNode_overflow:
  assumes "b \<in> {1, 2, 4, 8}" and "uint_value a = Inr (Inl v)" and "\<not> uint_fits b v"
  shows "panics (NewUintNode b [a])"
proof -
  have "b * int (length [a]) \<le> MAX_BYTE_SIZE" using assms(1) by (auto simp: MAX_BYTE_SIZE_def)
  then show ?thesis
    using assms by (auto simp: NewUintNode_def size_limit_def uint_checkRep_def check_all_def)
qed

lemma byteSizeForUint_in: "byteSizeForUint v \<in> {1, 2, 4, 8}"
  by (simp add: byteSizeForUint_def)

lemma newIDInfoFromUint_ok:
  "v \<le> 0xFFFFFFFF \<Longrightarrow>
     newIDInfoFromUint v = Inr (Inr \<lparr>id_raw = VUint64 v, id_node = id_uint 4 v, id_key = num_key v\<rparr>)"
  by (simp add: newIDInfoFromUint_def NewUintNode_single uint_value_def)

lemma newIDInfoFromUint_panics: "\<not> v \<le> 0xFFFFFFFF \<Longrightarrow> panics (newIDInfoFromUint v)"
  using NewUintNode_overflow [of 4 "VUint64 v" v]
  by (auto simp: newIDInfoFromUint_def uint_value_def panics_def)

lemma newIDInfoFromUint_cases:
  "newIDInfoFromUint v = Inr r \<Longrightarrow> v \<le> 0xFFFFFFFF \<and>
     r = Inr \<lparr>id_raw = VUint64 v, id_node = id_uint 4 v, id_key = num_key v\<rparr>"
  using newIDInfoFromUint_panics [of v] by (cases "v \<le> 0xFFFFFFFF") (auto simp: newIDInfoFromUint_ok)

lemma id_uint_ok [simp]:
  "Type (id_uint b v) = ''u'' @ dec b" "Values (id_uint b v) = VsUint64s [v]"
  "id_uint b v \<noteq> EmptyNode" "Variables (id_uint b v) = []"
  by (simp_all add: id_uint_def getVariableNames_def)

lemma id_uint_rep_ok: "b \<in> {1, 2, 4, 8} \<Longrightarrow> uint_fits b v \<Longrightarrow> rep_ok (id_uint b v)"
  using NewUintNode_rep_ok [OF NewUintNode_single, of b "VUint64 v" v] by (simp add: uint_value_def)

lemma num_info_ok: "v \<le> 0xFFFFFFFF \<Longrightarrow>
    info_ok \<lparr>id_raw = VUint64 v, id_node = id_uint 4 v, id_key = num_key v\<rparr>"
  by (simp add: info_ok_def keyForRawID_def id_uint_rep_ok)

lemma ascii_info_ok:
  assumes "NewASCIINode s = Inr node"
  shows "info_ok \<lparr>id_raw = VString s, id_node = node, id_key = str_key s\<rparr>
    \<and> Type node = ''ascii'' \<and> Values node = VsString s"
proof -
  have "rep_ok node" using assms by (rule NewASCIINode_rep_ok)
  moreover have "Type node = ''ascii'' \<and> Values node = VsString s \<and> node \<noteq> EmptyNode \<and> Variables node = []"
    using assms by (auto simp: NewASCIINode_def factory_simps split: if_splits)
  ultimately show ?thesis by (simp add: info_ok_def keyForRawID_def)
qed

lemma newIDInfo_info_ok: "newIDInfo x = Inr (Inr i) \<Longrightarrow> info_ok i"
  by (cases x)
    (auto simp: newIDInfo_def signed_id_def go_bind_Inr_iff num_info_ok ascii_info_ok
      dest!: newIDInfoFromUint_cases split: if_splits)

text \<open>Reading an identifier never panics, and what it yields has a key that fits its raw form. The
  item of an identifier that was made from a Go value reads back as that identifier.\<close>

lemma NewUintNode_byteSize: "NewUintNode (byteSizeForUint v) [VUint64 v] = Inr (id_uint (byteSizeForUint v) v)"
  by (intro NewUintNode_single byteSizeForUint_in uint_fits_byteSize) (simp add: uint_value_def)

lemma newIDInfoFromNode_total: "\<exists>r. newIDInfoFromNode n = Inr r"
  by (auto simp: newIDInfoFromNode_def NewUintNode_byteSize
      split: option.splits node_values.splits list.splits)

definition raw_keyed :: "id_info \<Rightarrow> bool" where
  "raw_keyed i \<longleftrightarrow> keyForRawID (id_raw i) = Inr (id_key i)"

lemma raw_keyed_eq: "raw_keyed i \<Longrightarrow> raw_keyed j \<Longrightarrow> id_key i = id_key j \<longleftrightarrow> id_raw i = id_raw j"
  by (cases "id_raw i"; cases "id_raw j"; simp add: raw_keyed_def keyForRawID_def)
    (metis num_key_inj key_kinds str_key_inj)+

lemma newIDInfoFromNode_raw_keyed: "newIDInfoFromNode n = Inr (Inr i) \<Longrightarrow> raw_keyed i"
  by (auto simp: newIDInfoFromNode_def raw_keyed_def keyForRawID_def go_bind_Inr_iff
      split: option.splits node_values.splits list.splits if_splits)

lemma newIDInfo_raw_keyed: "newIDInfo x = Inr (Inr i) \<Longrightarrow> raw_keyed i"
  using newIDInfo_info_ok [of x i] by (simp add: info_ok_def raw_keyed_def)

lemma newIDInfo_read_back:
  "newIDInfo x = Inr (Inr i) \<Longrightarrow> newIDInfoFromNode (Some (id_node i)) = Inr (Inr i)"
  by (cases x)
    (auto simp: newIDInfo_def signed_id_def newIDInfoFromNode_def go_bind_Inr_iff ascii_info_ok
      dest!: newIDInfoFromUint_cases split: if_splits)

lemma request_of_total: "\<exists>r. request_of n = Inr r"
  using newIDInfoFromNode_total [of "Some n"] by (auto simp: request_of_def)

lemma request_of_cases:
  assumes "request_of n = Inr (Some i)"
  shows "newIDInfoFromNode (Some n) = Inr (Inr i)"
proof -
  obtain r where r: "newIDInfoFromNode (Some n) = Inr r" using newIDInfoFromNode_total by blast
  then show ?thesis using assms by (cases r) (simp_all add: request_of_def)
qed

lemma go_map_total: "(\<And>x. \<exists>y. f x = Inr y) \<Longrightarrow> \<exists>ys. go_map f xs = Inr ys"
  by (induction xs) (auto, metis go_bind_simps(2))

lemma parseIDRequestList_total: "\<exists>r. parseIDRequestList msg = Inr r"
  using go_map_total [of request_of, OF request_of_total]
  by (auto simp: parseIDRequestList_def split: sum.split) (metis go_bind_simps(2))

end
