(* ===== verification/Gem_Variables.thy ===== *)
theory Gem_Variables
  imports Gem_Ids Registry
begin

text \<open>
  Status variables, data variables and equipment constants of a GEM equipment:
  \<open>gem/status_variables.go\<close>, \<open>gem/data_variables.go\<close>, \<open>gem/equipment_constants.go\<close>, the handlers of
  \<open>gem/status_equipment_handlers.go\<close> and their messages in \<open>gem/status_equipment_messages.go\<close>.

  The handler object is built up as an extensible record: \<open>gem_base\<close> with the settings and the state
  \<open>'w\<close> of the application, then one record per group of components. The callbacks of the application
  are functions: a provider or validator reads the application state, an updater changes it. They do
  not panic and do not call back into the handler, whose locks they are called under. Each handler
  holds the lock of its registry, so it is one step. Log lines are left out.
\<close>

section \<open>The settings\<close>

record 'w gem_base =
  g_deviceType :: device_type
  g_mdln :: string
  g_softrev :: string
  g_world :: 'w

definition ErrOperationNotSupported :: go_error where
  "ErrOperationNotSupported = Err ''gem: operation not supported for this device type''"

definition ErrNotCommunicating :: go_error where
  "ErrNotCommunicating = Err ''gem: not in communicating state''"

section \<open>Variables and constants\<close>

type_synonym 'w provider = "'w \<Rightarrow> item option res"

record 'w status_variable =
  sv_info :: id_info
  sv_Name :: string
  sv_Unit :: string
  sv_value :: "item option"
  sv_provider :: "'w provider option"

definition NewStatusVariable ::
  "goval \<Rightarrow> string \<Rightarrow> string \<Rightarrow> ('w status_variable \<Rightarrow> 'w status_variable) list \<Rightarrow> 'w status_variable res go" where
  "NewStatusVariable i name unit opts = res_bind (newIDInfo i) (\<lambda>info.
     Inr (Inr (fold (\<lambda>opt sv. opt sv) opts
       \<lparr>sv_info = info, sv_Name = name, sv_Unit = unit, sv_value = None, sv_provider = None\<rparr>)))"

definition WithStatusValue :: "item option \<Rightarrow> 'w status_variable \<Rightarrow> 'w status_variable" where
  "WithStatusValue node sv = sv\<lparr>sv_value := node\<rparr>"

definition WithStatusValueProvider :: "'w provider option \<Rightarrow> 'w status_variable \<Rightarrow> 'w status_variable" where
  "WithStatusValueProvider p sv = sv\<lparr>sv_provider := p\<rparr>"

definition sv_SetValue :: "item option \<Rightarrow> 'w status_variable \<Rightarrow> 'w status_variable" where
  "sv_SetValue node sv = sv\<lparr>sv_value := node\<rparr>"

definition sv_SetValueProvider :: "'w provider option \<Rightarrow> 'w status_variable \<Rightarrow> 'w status_variable" where
  "sv_SetValueProvider p sv = sv\<lparr>sv_provider := p\<rparr>"

text \<open>The value of a provider, or the stored one, for both kinds of variable.\<close>

definition sv_Value :: "'w \<Rightarrow> 'w status_variable \<Rightarrow> item option res" where
  "sv_Value w sv = (case sv_provider sv of
      Some p \<Rightarrow> p w
    | None \<Rightarrow> (case sv_value sv of
          None \<Rightarrow> Inl (Err ''status variable has no value'')
        | Some v \<Rightarrow> Inr (Some v)))"

record 'w data_variable =
  dv_info :: id_info
  dv_Name :: string
  dv_value :: "item option"
  dv_provider :: "'w provider option"

definition NewDataVariable ::
  "goval \<Rightarrow> string \<Rightarrow> ('w data_variable \<Rightarrow> 'w data_variable) list \<Rightarrow> 'w data_variable res go" where
  "NewDataVariable i name opts = res_bind (newIDInfo i) (\<lambda>info.
     Inr (Inr (fold (\<lambda>opt dv. opt dv) opts
       \<lparr>dv_info = info, dv_Name = name, dv_value = None, dv_provider = None\<rparr>)))"

definition WithDataValue :: "item option \<Rightarrow> 'w data_variable \<Rightarrow> 'w data_variable" where
  "WithDataValue node dv = dv\<lparr>dv_value := node\<rparr>"

definition WithDataValueProvider :: "'w provider option \<Rightarrow> 'w data_variable \<Rightarrow> 'w data_variable" where
  "WithDataValueProvider p dv = dv\<lparr>dv_provider := p\<rparr>"

definition dv_SetValue :: "item option \<Rightarrow> 'w data_variable \<Rightarrow> 'w data_variable" where
  "dv_SetValue node dv = dv\<lparr>dv_value := node\<rparr>"

definition dv_SetValueProvider :: "'w provider option \<Rightarrow> 'w data_variable \<Rightarrow> 'w data_variable" where
  "dv_SetValueProvider p dv = dv\<lparr>dv_provider := p\<rparr>"

definition dv_Value :: "'w \<Rightarrow> 'w data_variable \<Rightarrow> item option res" where
  "dv_Value w dv = (case dv_provider dv of
      Some p \<Rightarrow> p w
    | None \<Rightarrow> (case dv_value dv of
          None \<Rightarrow> Inl (Err ''data variable has no value'')
        | Some v \<Rightarrow> Inr (Some v)))"

record 'w equipment_constant =
  ec_info :: id_info
  ec_Name :: string
  ec_Unit :: string
  ec_MinValue :: "item option"
  ec_MaxValue :: "item option"
  ec_DefaultValue :: "item option"
  ec_value :: "item option"
  ec_provider :: "'w provider option"
  ec_updater :: "(item \<Rightarrow> 'w \<Rightarrow> unit res \<times> 'w) option"
  ec_validator :: "(item \<Rightarrow> 'w \<Rightarrow> unit res) option"

type_synonym 'w ec_option = "'w equipment_constant \<Rightarrow> 'w equipment_constant"

definition NewEquipmentConstant ::
  "goval \<Rightarrow> string \<Rightarrow> item option \<Rightarrow> 'w ec_option list \<Rightarrow> 'w equipment_constant res go" where
  "NewEquipmentConstant i name defaultValue opts =
     (if defaultValue = None then Inr (Inl (Err ''equipment constant default value is required''))
      else res_bind (newIDInfo i) (\<lambda>info.
        Inr (Inr (fold (\<lambda>opt ec. opt ec) opts
          \<lparr>ec_info = info, ec_Name = name, ec_Unit = [], ec_MinValue = None, ec_MaxValue = None,
           ec_DefaultValue = defaultValue, ec_value = defaultValue, ec_provider = None,
           ec_updater = None, ec_validator = None\<rparr>))))"

definition WithEquipmentConstantUnit :: "string \<Rightarrow> 'w ec_option" where
  "WithEquipmentConstantUnit unit ec = ec\<lparr>ec_Unit := unit\<rparr>"

definition WithEquipmentConstantMin :: "item option \<Rightarrow> 'w ec_option" where
  "WithEquipmentConstantMin n ec = ec\<lparr>ec_MinValue := n\<rparr>"

definition WithEquipmentConstantMax :: "item option \<Rightarrow> 'w ec_option" where
  "WithEquipmentConstantMax n ec = ec\<lparr>ec_MaxValue := n\<rparr>"

definition WithEquipmentConstantValueProvider :: "'w provider option \<Rightarrow> 'w ec_option" where
  "WithEquipmentConstantValueProvider p ec = ec\<lparr>ec_provider := p\<rparr>"

definition WithEquipmentConstantValueUpdater :: "(item \<Rightarrow> 'w \<Rightarrow> unit res \<times> 'w) option \<Rightarrow> 'w ec_option" where
  "WithEquipmentConstantValueUpdater u ec = ec\<lparr>ec_updater := u\<rparr>"

definition WithEquipmentConstantValidator :: "(item \<Rightarrow> 'w \<Rightarrow> unit res) option \<Rightarrow> 'w ec_option" where
  "WithEquipmentConstantValidator v ec = ec\<lparr>ec_validator := v\<rparr>"

definition ec_Value :: "'w \<Rightarrow> 'w equipment_constant \<Rightarrow> item option res" where
  "ec_Value w ec = (case ec_provider ec of
      Some p \<Rightarrow> p w
    | None \<Rightarrow> (case ec_value ec of Some v \<Rightarrow> Inr (Some v) | None \<Rightarrow> Inr (ec_DefaultValue ec)))"

text \<open>The error, the application state after the updater, and the constant.\<close>

definition ApplyValue ::
  "item option \<Rightarrow> 'w \<Rightarrow> 'w equipment_constant \<Rightarrow> unit res \<times> 'w \<times> 'w equipment_constant" where
  "ApplyValue node w ec = (case node of
      None \<Rightarrow> (Inl (Err ''nil value provided for equipment constant''), w, ec)
    | Some v \<Rightarrow>
       (case (case ec_validator ec of None \<Rightarrow> Inr () | Some f \<Rightarrow> f v w) of
          Inl e \<Rightarrow> (Inl e, w, ec)
        | Inr _ \<Rightarrow>
           (case (case ec_updater ec of None \<Rightarrow> (Inr (), w) | Some f \<Rightarrow> f v w) of
              (Inl e, w') \<Rightarrow> (Inl e, w', ec)
            | (Inr _, w') \<Rightarrow>
                (Inr (), w', if ec_provider ec = None then ec\<lparr>ec_value := Some v\<rparr> else ec))))"

section \<open>The registries\<close>

record 'w gem_vars = "'w gem_base" +
  g_statusVars :: "string \<Rightarrow> 'w status_variable option"
  g_statusOrder :: "string list"
  g_equipmentConstants :: "string \<Rightarrow> 'w equipment_constant option"
  g_ecOrder :: "string list"
  g_dataVars :: "string \<Rightarrow> 'w data_variable option"
  g_dataVarOrder :: "string list"

type_synonym ('w, 'z) gem_vars' = "('w, 'z) gem_vars_scheme"

definition RegisterStatusVariable ::
  "'w status_variable option \<Rightarrow> ('w, 'z) gem_vars' \<Rightarrow> unit res \<times> ('w, 'z) gem_vars'" where
  "RegisterStatusVariable variable g = (case variable of
      None \<Rightarrow> (Inl (Err ''gem: status variable is nil''), g)
    | Some sv \<Rightarrow>
        if g_deviceType g \<noteq> DeviceEquipment then (Inl ErrOperationNotSupported, g)
        else let key = id_key (sv_info sv) in
          if g_statusVars g key \<noteq> None then (Inl (Err ''gem: status variable already registered''), g)
          else (Inr (), g\<lparr>g_statusVars := (g_statusVars g)(key := Some sv),
                          g_statusOrder := g_statusOrder g @ [key]\<rparr>))"

definition RegisterEquipmentConstant ::
  "'w equipment_constant option \<Rightarrow> ('w, 'z) gem_vars' \<Rightarrow> unit res \<times> ('w, 'z) gem_vars'" where
  "RegisterEquipmentConstant constant g = (case constant of
      None \<Rightarrow> (Inl (Err ''gem: equipment constant is nil''), g)
    | Some ec \<Rightarrow>
        if g_deviceType g \<noteq> DeviceEquipment then (Inl ErrOperationNotSupported, g)
        else let key = id_key (ec_info ec) in
          if g_equipmentConstants g key \<noteq> None
            then (Inl (Err ''gem: equipment constant already registered''), g)
          else (Inr (), g\<lparr>g_equipmentConstants := (g_equipmentConstants g)(key := Some ec),
                          g_ecOrder := g_ecOrder g @ [key]\<rparr>))"

definition RegisterDataVariable ::
  "'w data_variable option \<Rightarrow> ('w, 'z) gem_vars' \<Rightarrow> unit res \<times> ('w, 'z) gem_vars'" where
  "RegisterDataVariable variable g = (case variable of
      None \<Rightarrow> (Inl (Err ''gem: data variable is nil''), g)
    | Some dv \<Rightarrow>
        if g_deviceType g \<noteq> DeviceEquipment then (Inl ErrOperationNotSupported, g)
        else let key = id_key (dv_info dv) in
          if g_dataVars g key \<noteq> None then (Inl (Err ''gem: data variable already registered''), g)
          else (Inr (), g\<lparr>g_dataVars := (g_dataVars g)(key := Some dv),
                          g_dataVarOrder := g_dataVarOrder g @ [key]\<rparr>))"

section \<open>Building messages\<close>

text \<open>\<open>ast.NewListNode(nodes...)\<close> of items, and the reply with it as body.\<close>

definition list_node :: "item list \<Rightarrow> item go" where
  "list_node nodes = NewListNode (map VItem nodes)"

definition list_message :: "string \<Rightarrow> int \<Rightarrow> int \<Rightarrow> int \<Rightarrow> string \<Rightarrow> item list \<Rightarrow> data_message go" where
  "list_message name s f w dir nodes = go_bind (list_node nodes) (\<lambda>body. NewDataMessage name s f w dir body)"

definition ack_message :: "string \<Rightarrow> int \<Rightarrow> int \<Rightarrow> string \<Rightarrow> 64 word \<Rightarrow> data_message go" where
  "ack_message name s f dir ack =
     go_bind (NewBinaryNode [VInt ack]) (\<lambda>body. NewDataMessage name s f 0 dir body)"

definition or_empty :: "item option \<Rightarrow> item" where
  "or_empty v = (case v of None \<Rightarrow> EmptyNode | Some n \<Rightarrow> n)"

definition buildS1F4 :: "item option list \<Rightarrow> data_message go" where
  "buildS1F4 values = list_message ''SelectedEquipmentStatusData'' 1 4 0 ''H<-E'' (map or_empty values)"

definition buildS1F12 :: "item list \<Rightarrow> data_message go" where
  "buildS1F12 entries = list_message ''StatusVariableNamelist'' 1 12 0 ''H<-E'' entries"

definition buildS2F14 :: "item option list \<Rightarrow> data_message go" where
  "buildS2F14 values = list_message ''EquipmentConstantData'' 2 14 0 ''H<-E'' (map or_empty values)"

definition buildS2F16 :: "ECACKCode \<Rightarrow> data_message go" where
  "buildS2F16 ack = ack_message ''EquipmentConstantAcknowledge'' 2 16 ''H<-E'' (ECACK_Int ack)"

definition buildS2F30 :: "item list \<Rightarrow> data_message go" where
  "buildS2F30 entries = list_message ''EquipmentConstantNamelist'' 2 30 0 ''H<-E'' entries"

section \<open>Values and descriptions\<close>

definition safe_value :: "item option res \<Rightarrow> item" where
  "safe_value r = (case r of Inl e \<Rightarrow> EmptyNode | Inr None \<Rightarrow> EmptyNode | Inr (Some v) \<Rightarrow> v)"

definition safeStatusValue :: "'w \<Rightarrow> 'w status_variable \<Rightarrow> item" where
  "safeStatusValue w sv = safe_value (sv_Value w sv)"

definition safeDataVariableValue :: "'w \<Rightarrow> 'w data_variable \<Rightarrow> item" where
  "safeDataVariableValue w dv = safe_value (dv_Value w dv)"

definition safeEquipmentConstantValue :: "'w \<Rightarrow> 'w equipment_constant \<Rightarrow> item" where
  "safeEquipmentConstantValue w ec = safe_value (ec_Value w ec)"

text \<open>The loops of the four \<open>resolve\<close> functions: over the registration order when nothing is asked
  for, over the requests otherwise; \<open>missing\<close> builds the entry of a request that names nothing.\<close>

definition resolve ::
  "(string \<Rightarrow> 'v option) \<Rightarrow> string list \<Rightarrow> ('v \<Rightarrow> item go) \<Rightarrow> (id_request \<Rightarrow> item go) \<Rightarrow> id_request list
     \<Rightarrow> item list go" where
  "resolve m order present missing requests =
     (if requests = [] then go_map present (List.map_filter m order)
      else go_map (\<lambda>req. case req of
          None \<Rightarrow> missing req
        | Some info \<Rightarrow> (case m (id_key info) of Some v \<Rightarrow> present v | None \<Rightarrow> missing req)) requests)"

definition resolveStatusValues :: "id_request list \<Rightarrow> ('w, 'z) gem_vars' \<Rightarrow> item list go" where
  "resolveStatusValues requests g = resolve (g_statusVars g) (g_statusOrder g)
     (\<lambda>sv. Inr (safeStatusValue (g_world g) sv)) (\<lambda>_. Inr EmptyNode) requests"

definition resolveEquipmentConstantValues :: "id_request list \<Rightarrow> ('w, 'z) gem_vars' \<Rightarrow> item list go" where
  "resolveEquipmentConstantValues requests g = resolve (g_equipmentConstants g) (g_ecOrder g)
     (\<lambda>ec. Inr (safeEquipmentConstantValue (g_world g) ec)) (\<lambda>_. Inr EmptyNode) requests"

text \<open>\<open>NewListNode(idNode, NewASCIINode(name), NewASCIINode(unit))\<close>\<close>

definition info_node :: "item \<Rightarrow> string \<Rightarrow> string \<Rightarrow> item go" where
  "info_node node name unit = go_bind (NewASCIINode name) (\<lambda>n. go_bind (NewASCIINode unit) (\<lambda>u.
     list_node [node, n, u]))"

definition buildStatusInfoNode :: "'w status_variable \<Rightarrow> item go" where
  "buildStatusInfoNode sv = info_node (id_node (sv_info sv)) (sv_Name sv) (sv_Unit sv)"

definition resolveStatusInfo :: "id_request list \<Rightarrow> ('w, 'z) gem_vars' \<Rightarrow> item list go" where
  "resolveStatusInfo requests g = resolve (g_statusVars g) (g_statusOrder g) buildStatusInfoNode
     (\<lambda>req. case req of None \<Rightarrow> info_node EmptyNode [] [] | Some info \<Rightarrow> info_node (id_node info) [] [])
     requests"

definition constant_info_node :: "item \<Rightarrow> string \<Rightarrow> item option \<Rightarrow> item option \<Rightarrow> item option \<Rightarrow> string \<Rightarrow> item go" where
  "constant_info_node node name mn mx def unit =
     go_bind (NewASCIINode name) (\<lambda>n. go_bind (NewASCIINode unit) (\<lambda>u.
       list_node [node, n, or_empty mn, or_empty mx, or_empty def, u]))"

definition buildEquipmentConstantInfoNode :: "'w equipment_constant \<Rightarrow> item go" where
  "buildEquipmentConstantInfoNode ec = constant_info_node (id_node (ec_info ec)) (ec_Name ec)
     (ec_MinValue ec) (ec_MaxValue ec) (ec_DefaultValue ec) (ec_Unit ec)"

definition emptyEquipmentConstantInfo :: "id_request \<Rightarrow> item go" where
  "emptyEquipmentConstantInfo req = constant_info_node
     (case req of None \<Rightarrow> EmptyNode | Some info \<Rightarrow> id_node info) [] None None None []"

definition resolveEquipmentConstantInfo :: "id_request list \<Rightarrow> ('w, 'z) gem_vars' \<Rightarrow> item list go" where
  "resolveEquipmentConstantInfo requests g = resolve (g_equipmentConstants g) (g_ecOrder g)
     buildEquipmentConstantInfoNode emptyEquipmentConstantInfo requests"

section \<open>The handlers\<close>

text \<open>A handler answers a malformed message with \<open>bad\<close>.\<close>

definition answer_requests ::
  "data_message option \<Rightarrow> data_message go \<Rightarrow> (id_request list \<Rightarrow> data_message go) \<Rightarrow> data_message go" where
  "answer_requests msg bad f = go_bind (parseIDRequestList msg) (\<lambda>r. case r of
      Inl e \<Rightarrow> bad | Inr requests \<Rightarrow> f requests)"

definition onS1F3 :: "data_message option \<Rightarrow> ('w, 'z) gem_vars' \<Rightarrow> data_message go" where
  "onS1F3 msg g = answer_requests msg (buildS1F4 []) (\<lambda>requests.
     go_bind (resolveStatusValues requests g) (\<lambda>values. buildS1F4 (map Some values)))"

definition onS1F11 :: "data_message option \<Rightarrow> ('w, 'z) gem_vars' \<Rightarrow> data_message go" where
  "onS1F11 msg g = answer_requests msg (buildS1F12 []) (\<lambda>requests.
     go_bind (resolveStatusInfo requests g) buildS1F12)"

definition onS2F13 :: "data_message option \<Rightarrow> ('w, 'z) gem_vars' \<Rightarrow> data_message go" where
  "onS2F13 msg g = answer_requests msg (buildS2F14 []) (\<lambda>requests.
     go_bind (resolveEquipmentConstantValues requests g) (\<lambda>values. buildS2F14 (map Some values)))"

definition onS2F29 :: "data_message option \<Rightarrow> ('w, 'z) gem_vars' \<Rightarrow> data_message go" where
  "onS2F29 msg g = answer_requests msg (buildS2F30 []) (\<lambda>requests.
     go_bind (resolveEquipmentConstantInfo requests g) buildS2F30)"

subsection \<open>New values of equipment constants\<close>

text \<open>An update is \<open>None\<close> when its entry could not be read (\<open>ok: false\<close>).\<close>

type_synonym ec_update = "(id_info \<times> item) option"

definition update_of :: "item \<Rightarrow> ec_update go" where
  "update_of entry = (case as_list entry of
      Some (idNode # valueNode # _) \<Rightarrow>
        go_bind (newIDInfoFromNode (Some idNode)) (\<lambda>r. Inr (case r of
          Inl e \<Rightarrow> None | Inr info \<Rightarrow> Some (info, valueNode)))
    | _ \<Rightarrow> Inr None)"

definition parseEquipmentConstantUpdateList :: "data_message option \<Rightarrow> ec_update list res go" where
  "parseEquipmentConstantUpdateList msg = (case list_body msg of
      Inl e \<Rightarrow> Inr (Inl e)
    | Inr vs \<Rightarrow> go_bind (go_map update_of vs) (\<lambda>us. Inr (Inr us)))"

fun check_updates :: "ec_update list \<Rightarrow> ('w, 'z) gem_vars' \<Rightarrow> ECACKCode" where
  "check_updates [] g = ECACKAccepted"
| "check_updates (None # us) g = ECACKInvalidData"
| "check_updates (Some (info, v) # us) g =
     (if g_equipmentConstants g (id_key info) = None then ECACKDoesNotExist else check_updates us g)"

text \<open>The second loop runs when the first has accepted every update, so its first two cases do not
  arise: Go would dereference a nil constant there.\<close>

fun apply_updates :: "ec_update list \<Rightarrow> ('w, 'z) gem_vars' \<Rightarrow> ECACKCode \<times> ('w, 'z) gem_vars'" where
  "apply_updates [] g = (ECACKAccepted, g)"
| "apply_updates (None # us) g = (ECACKInvalidData, g)"
| "apply_updates (Some (info, v) # us) g = (case g_equipmentConstants g (id_key info) of
      None \<Rightarrow> (ECACKDoesNotExist, g)
    | Some ec \<Rightarrow> (case ApplyValue (Some v) (g_world g) ec of (r, w, ec') \<Rightarrow>
        let g' = g\<lparr>g_world := w, g_equipmentConstants := (g_equipmentConstants g)(id_key info := Some ec')\<rparr>
        in case r of Inl e \<Rightarrow> (ECACKValidationError, g') | Inr _ \<Rightarrow> apply_updates us g'))"

definition applyEquipmentConstantUpdates ::
  "ec_update list \<Rightarrow> ('w, 'z) gem_vars' \<Rightarrow> ECACKCode \<times> ('w, 'z) gem_vars'" where
  "applyEquipmentConstantUpdates updates g =
     (if check_updates updates g \<noteq> ECACKAccepted then (check_updates updates g, g)
      else apply_updates updates g)"

definition onS2F15 ::
  "data_message option \<Rightarrow> ('w, 'z) gem_vars' \<Rightarrow> data_message go \<times> ('w, 'z) gem_vars'" where
  "onS2F15 msg g = (case parseEquipmentConstantUpdateList msg of
      Inl e \<Rightarrow> (Inl e, g)
    | Inr (Inl e) \<Rightarrow> (buildS2F16 ECACKInvalidData, g)
    | Inr (Inr updates) \<Rightarrow> (case applyEquipmentConstantUpdates updates g of
        (ack, g') \<Rightarrow> (buildS2F16 ack, g')))"

section \<open>Lemmas\<close>

subsection \<open>Registries\<close>

interpretation svs: ordered_registry g_statusVars g_statusOrder "\<lambda>v. id_key (sv_info v)"
  RegisterStatusVariable "\<lambda>g. g_deviceType g = DeviceEquipment"
  by unfold_locales (auto simp: RegisterStatusVariable_def Let_def)

interpretation ecs: ordered_registry g_equipmentConstants g_ecOrder "\<lambda>v. id_key (ec_info v)"
  RegisterEquipmentConstant "\<lambda>g. g_deviceType g = DeviceEquipment"
  by unfold_locales (auto simp: RegisterEquipmentConstant_def Let_def)

interpretation dvs: ordered_registry g_dataVars g_dataVarOrder "\<lambda>v. id_key (dv_info v)"
  RegisterDataVariable "\<lambda>g. g_deviceType g = DeviceEquipment"
  by unfold_locales (auto simp: RegisterDataVariable_def Let_def)

subsection \<open>Bodies with gaps\<close>

text \<open>An item that answers nothing is empty. A list of items without variables has as many variables,
  all with the empty name, as it has empty items; so it can be built with one gap at most, and has an
  encoding with none only.\<close>

definition gaps :: "item list \<Rightarrow> nat" where
  "gaps ns = length (filter (\<lambda>n. n = EmptyNode) ns)"

lemma gaps_simps [simp]: "gaps [] = 0" "gaps (n # ns) = (if n = EmptyNode then Suc (gaps ns) else gaps ns)"
  by (simp_all add: gaps_def)

definition settled_item :: "item \<Rightarrow> bool" where
  "settled_item n \<longleftrightarrow> n = EmptyNode \<or> Variables n = []"

lemma Variables_gaps:
  assumes "\<And>n. n \<in> set ns \<Longrightarrow> settled_item n"
  shows "Variables_from [] k ns = replicate (gaps ns) []"
  using assms
proof (induction ns arbitrary: k)
  case (Cons n ns)
  then have "Variables_from [] (Suc k) ns = replicate (gaps ns) []" by simp
  moreover have "settled_item n" using Cons.prems by simp
  ultimately show ?case by (auto simp: settled_item_def variablesSwapKeyValue_def)
qed simp

lemma distinct_replicate_iff: "distinct (replicate n x) \<longleftrightarrow> n \<le> 1"
  by (cases n) auto

lemma list_node_gaps:
  assumes "\<And>n. n \<in> set ns \<Longrightarrow> settled_item n" and "int (length ns) \<le> MAX_BYTE_SIZE"
  shows "gaps ns \<le> 1 \<Longrightarrow> list_node ns = Inr (LNode ns [] ''list'')"
    and "1 < gaps ns \<Longrightarrow> panics (list_node ns)"
proof -
  have V: "Variables (LNode ns [] ''list'') = replicate (gaps ns) []"
    using Variables_gaps [OF assms(1)] by simp
  show "list_node ns = Inr (LNode ns [] ''list'')" if "gaps ns \<le> 1"
    using NewListNode_ok [OF assms(2)] V that
    by (simp add: list_node_def distinct_replicate_iff)
  have c: "collect list_value EmptyNode 0 [] (map VItem ns) =
          Inr (map (\<lambda>v. case v of VItem x \<Rightarrow> x) (map VItem ns), [])"
    by (rule collect_plain) (auto simp: list_value_def)
  show "panics (list_node ns)" if "1 < gaps ns"
    using c V that assms(2)
    by (simp add: list_node_def NewListNode_def list_checkRep_def size_limit_def comp_def
        distinct_replicate_iff)
qed

lemma list_message_gaps:
  assumes "\<And>n. n \<in> set ns \<Longrightarrow> settled_item n" and "int (length ns) \<le> MAX_BYTE_SIZE"
  shows "1 < gaps ns \<Longrightarrow> panics (list_message name s f w dir ns)"
    and "gaps ns \<le> 1 \<Longrightarrow>
      list_message name s f w dir ns = NewDataMessage name s f w dir (LNode ns [] ''list'')"
    and "Variables (LNode ns [] ''list'') = [] \<longleftrightarrow> gaps ns = 0"
  using list_node_gaps [OF assms] Variables_gaps [OF assms(1)]
  by (auto simp: list_message_def panics_def)

lemma ack_message_ok:
  assumes "0 \<le> sint ack" and "sint ack < 256"
  shows "NewBinaryNode [VInt ack] =
      Inr (BNode \<lparr>bn_values = [sint ack], bn_variables = [], bn_symbol = ''binary''\<rparr>)"
  using NewBinaryNode_ok [of "[VInt ack]" "\<lambda>_. sint ack"] assms
  by (simp add: binary_value_def MAX_BYTE_SIZE_def)

subsection \<open>Updates of equipment constants\<close>

lemma ApplyValue_info: "ApplyValue n w ec = (r, w', ec') \<Longrightarrow> ec_info ec' = ec_info ec"
  by (auto simp: ApplyValue_def split: option.splits sum.splits prod.splits if_splits)

text \<open>Updates change the application state and the stored constants only, and no constant's identity.\<close>

definition same_infos :: "(string \<Rightarrow> 'w equipment_constant option) \<Rightarrow> (string \<Rightarrow> 'w equipment_constant option) \<Rightarrow> bool" where
  "same_infos m m' \<longleftrightarrow> (\<forall>k. map_option ec_info (m' k) = map_option ec_info (m k))"

lemma same_infos_upd:
  "m k = Some ec \<Longrightarrow> ec_info ec' = ec_info ec \<Longrightarrow> same_infos m (m(k := Some ec'))"
  by (simp add: same_infos_def)

lemma same_infos_trans: "same_infos a b \<Longrightarrow> same_infos b c \<Longrightarrow> same_infos a c"
  by (simp add: same_infos_def)

lemma same_infos_dom: "same_infos m m' \<Longrightarrow> dom m' = dom m"
  by (auto simp: same_infos_def) (metis map_option_is_None option.distinct(1) option.exhaust)+

lemma apply_updates_frame:
  "apply_updates us g = (ack, g') \<Longrightarrow>
     \<exists>w m. g' = g\<lparr>g_world := w, g_equipmentConstants := m\<rparr> \<and> same_infos (g_equipmentConstants g) m"
proof (induction us arbitrary: g)
  case Nil
  then have "g' = g\<lparr>g_world := g_world g, g_equipmentConstants := g_equipmentConstants g\<rparr>
    \<and> same_infos (g_equipmentConstants g) (g_equipmentConstants g)"
    by (simp add: same_infos_def)
  then show ?case by blast
next
  case (Cons u us)
  have same: "\<exists>w m. g = g\<lparr>g_world := w, g_equipmentConstants := m\<rparr> \<and> same_infos (g_equipmentConstants g) m"
    by (rule exI [of _ "g_world g"], rule exI [of _ "g_equipmentConstants g"]) (simp add: same_infos_def)
  show ?case
  proof (cases "\<exists>info v ec. u = Some (info, v) \<and> g_equipmentConstants g (id_key info) = Some ec")
    case False
    then have "g' = g" using Cons.prems by (cases u) (auto split: option.splits)
    then show ?thesis using same by simp
  next
    case True
    then obtain info v ec where u: "u = Some (info, v)" and ec: "g_equipmentConstants g (id_key info) = Some ec"
      by blast
    obtain r w ec' where a: "ApplyValue (Some v) (g_world g) ec = (r, w, ec')" by (metis prod_cases3)
    let ?m = "(g_equipmentConstants g)(id_key info := Some ec')"
    let ?g = "g\<lparr>g_world := w, g_equipmentConstants := ?m\<rparr>"
    have m: "same_infos (g_equipmentConstants g) ?m"
      using ec ApplyValue_info [OF a] by (rule same_infos_upd)
    show ?thesis
    proof (cases r)
      case (Inl e)
      then have "g' = ?g" using Cons.prems u ec a by simp
      then show ?thesis using m by blast
    next
      case (Inr x)
      then have "apply_updates us ?g = (ack, g')" using Cons.prems u ec a by simp
      moreover have E: "g_equipmentConstants ?g = ?m" by simp
      ultimately obtain w' m' where "g' = ?g\<lparr>g_world := w', g_equipmentConstants := m'\<rparr>"
        and "same_infos ?m m'"
        using Cons.IH [of ?g] unfolding E by blast
      then show ?thesis using same_infos_trans [OF m, of m'] by auto
    qed
  qed
qed

end
