(* ===== verification/Event_Hooks.thy ===== *)
theory Event_Hooks
  imports Prelude
begin

text \<open>
  Callback lists, \<open>common/events.go\<close>. A callback is a function on the state of the application; it
  does not panic and does not call back into the object that fires it (whose mutex is held).
\<close>

type_synonym ('d, 'w) event = "('d \<Rightarrow> 'w \<Rightarrow> 'w) list"

definition AddCallback :: "('d \<Rightarrow> 'w \<Rightarrow> 'w) \<Rightarrow> ('d, 'w) event \<Rightarrow> ('d, 'w) event" where
  "AddCallback callback e = e @ [callback]"

text \<open>\<open>RemoveCallback\<close> compares the addresses of its loop variable and of its parameter, two
  variables that live at the same time, so no entry is ever the one to remove.\<close>

fun remove_first :: "('a \<Rightarrow> bool) \<Rightarrow> 'a list \<Rightarrow> 'a list" where
  "remove_first p [] = []"
| "remove_first p (x # xs) = (if p x then xs else x # remove_first p xs)"

definition RemoveCallback :: "('d \<Rightarrow> 'w \<Rightarrow> 'w) \<Rightarrow> ('d, 'w) event \<Rightarrow> ('d, 'w) event" where
  "RemoveCallback callback e = remove_first (\<lambda>cb. False) e"

definition Fire :: "('d, 'w) event \<Rightarrow> 'd \<Rightarrow> 'w \<Rightarrow> 'w" where
  "Fire e d w = fold (\<lambda>callback. callback d) e w"

definition Event_Len :: "('d, 'w) event \<Rightarrow> nat" where
  "Event_Len e = length e"

lemma Fire_Nil [simp]: "Fire [] d w = w"
  by (simp add: Fire_def)

lemma Fire_AddCallback: "Fire (AddCallback cb e) d w = cb d (Fire e d w)"
  by (simp add: Fire_def AddCallback_def)

lemma RemoveCallback_nothing: "RemoveCallback cb e = e"
proof -
  have "remove_first (\<lambda>cb. False) e = e" by (induction e) simp_all
  then show ?thesis by (simp add: RemoveCallback_def)
qed

end
