(* ===== verification/Gem_Events.thy ===== *)
theory Gem_Events
  imports Gem_Variables Event_Hooks
begin

text \<open>
  Collection events, reports and the links between them: \<open>gem/collection_events.go\<close>,
  \<open>gem/event_reports.go\<close>, the handlers and payloads of \<open>gem/collection_event_handlers.go\<close> and their
  messages in \<open>gem/status_equipment_messages.go\<close>. What is triggered and sent is in the handler theory.

  Go walks the map of links in an unspecified order; what it does to one link does not depend on the
  others, so the walk is one function on the map.
\<close>

section \<open>Events, reports, links\<close>

record collection_event =
  ce_info :: id_info
  ce_Name :: string

definition NewCollectionEvent :: "goval \<Rightarrow> string \<Rightarrow> collection_event res go" where
  "NewCollectionEvent i name = res_bind (newIDInfo i) (\<lambda>info.
     Inr (Inr \<lparr>ce_info = info, ce_Name = name\<rparr>))"

record report_definition =
  rd_info :: id_info
  rd_vidKeys :: "string list"

definition newReportDefinition :: "goval \<Rightarrow> id_info list \<Rightarrow> report_definition res go" where
  "newReportDefinition i vids = res_bind (newIDInfo i) (\<lambda>info.
     Inr (Inr \<lparr>rd_info = info, rd_vidKeys = map id_key vids\<rparr>))"

record event_link =
  cl_reports :: "string list"
  cl_enabled :: bool

definition newCollectionEventLink :: "string list \<Rightarrow> event_link" where
  "newCollectionEventLink reports = \<lparr>cl_reports = reports, cl_enabled = True\<rparr>"

text \<open>Only the first occurrence goes.\<close>

definition removeReport :: "string \<Rightarrow> event_link \<Rightarrow> event_link" where
  "removeReport key link = link\<lparr>cl_reports := remove1 key (cl_reports link)\<rparr>"

record report_value =
  rv_RPTID :: goval
  rv_Values :: "item list"

record event_report =
  er_DATAID :: "64 word"
  er_CEID :: goval
  er_Reports :: "report_value list"

record 'w gem_coll = "'w gem_vars" +
  g_collectionEvents :: "string \<Rightarrow> collection_event option"
  g_collectionOrder :: "string list"
  g_reports :: "string \<Rightarrow> report_definition option"
  g_eventLinks :: "string \<Rightarrow> event_link option"
  g_EventReportReceived :: "(event_report, 'w) event"

type_synonym ('w, 'z) gem_coll' = "('w, 'z) gem_coll_scheme"

definition RegisterCollectionEvent ::
  "collection_event option \<Rightarrow> ('w, 'z) gem_coll' \<Rightarrow> unit res \<times> ('w, 'z) gem_coll'" where
  "RegisterCollectionEvent event g = (case event of
      None \<Rightarrow> (Inl (Err ''gem: collection event is nil''), g)
    | Some ce \<Rightarrow>
        if g_deviceType g \<noteq> DeviceEquipment then (Inl ErrOperationNotSupported, g)
        else let key = id_key (ce_info ce) in
          if g_collectionEvents g key \<noteq> None
            then (Inl (Err ''gem: collection event already registered''), g)
          else (Inr (), g\<lparr>g_collectionEvents := (g_collectionEvents g)(key := Some ce),
                          g_collectionOrder := g_collectionOrder g @ [key]\<rparr>))"

section \<open>Messages\<close>

definition uint_node1 :: "64 word \<Rightarrow> item go" where
  "uint_node1 dataID = NewUintNode (byteSizeForUint dataID) [VInt dataID]"

text \<open>The body of S6F11 and S6F16: data id, event, list of reports.\<close>

definition report_body :: "64 word \<Rightarrow> item option \<Rightarrow> item list \<Rightarrow> item go" where
  "report_body dataID ceNode reports = go_bind (uint_node1 dataID) (\<lambda>d.
     go_bind (list_node reports) (\<lambda>rs.
       NewListNode [VItem d, case ceNode of None \<Rightarrow> VNil | Some n \<Rightarrow> VItem n, VItem rs]))"

definition buildS6F11 :: "64 word \<Rightarrow> item option \<Rightarrow> item list \<Rightarrow> data_message go" where
  "buildS6F11 dataID ceNode reports = go_bind (report_body dataID ceNode reports)
     (\<lambda>body. NewDataMessage ''EventReport'' 6 11 0 ''H->E'' body)"

definition buildS6F16 :: "64 word \<Rightarrow> item option \<Rightarrow> item list \<Rightarrow> data_message go" where
  "buildS6F16 dataID ceNode reports = go_bind (report_body dataID (Some (or_empty ceNode)) reports)
     (\<lambda>body. NewDataMessage ''EventReportData'' 6 16 0 ''H<-E'' body)"

definition buildS6F12 :: "64 word \<Rightarrow> data_message go" where
  "buildS6F12 ack = ack_message ''EventReportAcknowledge'' 6 12 ''H<-E'' ack"

definition buildS2F34 :: "DRACKCode \<Rightarrow> data_message go" where
  "buildS2F34 ack = ack_message ''DefineReportAcknowledge'' 2 34 ''H<-E'' (DRACK_Int ack)"

definition buildS2F36 :: "LRACKCode \<Rightarrow> data_message go" where
  "buildS2F36 ack = ack_message ''LinkEventReportAcknowledge'' 2 36 ''H<-E'' (LRACK_Int ack)"

definition buildS2F38 :: "ERACKCode \<Rightarrow> data_message go" where
  "buildS2F38 ack = ack_message ''EnableEventReportAcknowledge'' 2 38 ''H<-E'' (ERACK_Int ack)"

section \<open>Reading requests\<close>

text \<open>The entries of S2F33 and S2F35 may come directly or behind a data id.\<close>

definition entry_list :: "item list \<Rightarrow> item list res" where
  "entry_list vs = (case vs of
      [] \<Rightarrow> Inr []
    | first # rest \<Rightarrow>
        if as_list first \<noteq> None then Inr vs
        else (case rest of
            [] \<Rightarrow> Inl (Err ''malformed payload'')
          | second # _ \<Rightarrow> (case as_list second of
              None \<Rightarrow> Inl (Err ''malformed list'') | Some es \<Rightarrow> Inr es)))"

definition id_of :: "item \<Rightarrow> id_info res go" where
  "id_of node = newIDInfoFromNode (Some node)"

text \<open>An entry: an identifier and a list of identifiers.\<close>

definition id_entry :: "item \<Rightarrow> (id_info \<times> id_info list) res go" where
  "id_entry entryNode = (case as_list entryNode of
      Some (idNode # idsNode # _) \<Rightarrow> res_bind (id_of idNode) (\<lambda>i.
        case as_list idsNode of
          None \<Rightarrow> Inr (Inl (Err ''malformed id list''))
        | Some ids \<Rightarrow> res_bind (res_map id_of ids) (\<lambda>infos. Inr (Inr (i, infos))))
    | _ \<Rightarrow> Inr (Inl (Err ''malformed entry'')))"

definition id_entries :: "data_message option \<Rightarrow> (id_info \<times> id_info list) list res go" where
  "id_entries msg = res_bind (Inr (list_body msg)) (\<lambda>vs.
     res_bind (Inr (entry_list vs)) (res_map id_entry))"

type_synonym report_definition_message = "id_info \<times> id_info list"
type_synonym event_report_link_message = "id_info \<times> id_info list"

definition parseReportDefinitionList :: "data_message option \<Rightarrow> report_definition_message list res go" where
  "parseReportDefinitionList msg = id_entries msg"

definition parseEventReportLinkList :: "data_message option \<Rightarrow> event_report_link_message list res go" where
  "parseEventReportLinkList msg = id_entries msg"

definition read_enable :: "item \<Rightarrow> bool res" where
  "read_enable n = (case n of
      BNode b \<Rightarrow> (case bn_values b of [] \<Rightarrow> Inl (Err ''invalid CEED payload'') | v # _ \<Rightarrow> Inr (v \<noteq> 0))
    | TNode b \<Rightarrow> (case tn_values b of [] \<Rightarrow> Inl (Err ''invalid CEED payload'') | v # _ \<Rightarrow> Inr v)
    | _ \<Rightarrow> Inl (Err ''expected boolean CEED''))"

definition parseEventEnableMessage :: "data_message option \<Rightarrow> (bool \<times> id_info list) res go" where
  "parseEventEnableMessage msg = (case list_body msg of
      Inr (ceed # ceList # _) \<Rightarrow> res_bind (Inr (read_enable ceed)) (\<lambda>enable.
        case as_list ceList of
          None \<Rightarrow> Inr (Inl (Err ''malformed CEID list''))
        | Some ces \<Rightarrow> res_bind (res_map id_of ces) (\<lambda>infos. Inr (Inr (enable, infos))))
    | _ \<Rightarrow> Inr (Inl (Err ''malformed S2F37 payload'')))"

definition parseEventReportRequest :: "data_message option \<Rightarrow> id_info res go" where
  "parseEventReportRequest msg = res_bind (Inr (message_body msg)) (\<lambda>root. case as_list root of
      Some [] \<Rightarrow> Inr (Inl (Err ''empty S6F15 payload''))
    | Some (first # _) \<Rightarrow> id_of first
    | None \<Rightarrow> id_of root)"

text \<open>A data id that is no number, or an empty one, reads as 0.\<close>

definition read_dataID :: "item \<Rightarrow> 64 word" where
  "read_dataID n = (case n of
      BNode b \<Rightarrow> (case bn_values b of [] \<Rightarrow> 0 | v # _ \<Rightarrow> word_of_int v)
    | UNode u \<Rightarrow> (case un_values u of [] \<Rightarrow> 0 | v # _ \<Rightarrow> v)
    | INode i \<Rightarrow> (case in_values i of [] \<Rightarrow> 0 | v # _ \<Rightarrow> v)
    | _ \<Rightarrow> 0)"

definition report_entry :: "item \<Rightarrow> report_value res go" where
  "report_entry entryNode = (case as_list entryNode of
      Some (rptNode # valuesNode # _) \<Rightarrow> res_bind (id_of rptNode) (\<lambda>info.
        case as_list valuesNode of
          None \<Rightarrow> Inr (Inl (Err ''malformed S6F11 value list''))
        | Some vs \<Rightarrow> Inr (Inr \<lparr>rv_RPTID = id_raw info, rv_Values = vs\<rparr>))
    | _ \<Rightarrow> Inr (Inl (Err ''malformed S6F11 report entry'')))"

definition parseEventReportMessage :: "data_message option \<Rightarrow> event_report res go" where
  "parseEventReportMessage msg = (case list_body msg of
      Inr (dataIDNode # ceNode # reportListNode # _) \<Rightarrow> res_bind (id_of ceNode) (\<lambda>ce.
        case as_list reportListNode of
          None \<Rightarrow> Inr (Inl (Err ''malformed S6F11 report list''))
        | Some es \<Rightarrow> res_bind (res_map report_entry es) (\<lambda>rs.
            Inr (Inr \<lparr>er_DATAID = read_dataID dataIDNode, er_CEID = id_raw ce, er_Reports = rs\<rparr>)))
    | _ \<Rightarrow> Inr (Inl (Err ''malformed S6F11 payload'')))"

section \<open>Payloads\<close>

definition resolveVIDValue :: "string \<Rightarrow> ('w, 'z) gem_vars' \<Rightarrow> item option" where
  "resolveVIDValue key g = (case g_statusVars g key of
      Some sv \<Rightarrow> Some (safeStatusValue (g_world g) sv)
    | None \<Rightarrow> map_option (safeDataVariableValue (g_world g)) (g_dataVars g key))"

definition collectReportValues :: "report_definition \<Rightarrow> ('w, 'z) gem_vars' \<Rightarrow> item list" where
  "collectReportValues report g = map (\<lambda>k. or_empty (resolveVIDValue k g)) (rd_vidKeys report)"

definition report_node :: "('w, 'z) gem_vars' \<Rightarrow> report_definition \<Rightarrow> item go" where
  "report_node g report = go_bind (list_node (collectReportValues report g)) (\<lambda>vs.
     list_node [id_node (rd_info report), vs])"

text \<open>The reports, the data id and the event; \<open>None\<close> for the nil report list of an event that is not
  linked, disabled or has no report.\<close>

definition buildCollectionEventPayload ::
  "string \<Rightarrow> ('w, 'z) gem_coll' \<Rightarrow> (item list \<times> 64 word \<times> item) option res go" where
  "buildCollectionEventPayload key g = (case g_collectionEvents g key of
      None \<Rightarrow> Inr (Inl (Err ''unknown collection event''))
    | Some event \<Rightarrow> (case g_eventLinks g key of
          None \<Rightarrow> Inr (Inr None)
        | Some link \<Rightarrow>
            if \<not> cl_enabled link \<or> cl_reports link = [] then Inr (Inr None)
            else go_bind (go_map (report_node g) (List.map_filter (g_reports g) (cl_reports link)))
              (\<lambda>nodes. Inr (Inr (if nodes = [] then None
                 else Some (nodes, 1, id_node (ce_info event)))))))"

section \<open>Handlers\<close>

definition vidExists :: "string \<Rightarrow> ('w, 'z) gem_vars' \<Rightarrow> bool" where
  "vidExists key g \<longleftrightarrow> g_statusVars g key \<noteq> None \<or> g_dataVars g key \<noteq> None"

definition removeReportUnlocked :: "string \<Rightarrow> ('w, 'z) gem_coll' \<Rightarrow> ('w, 'z) gem_coll'" where
  "removeReportUnlocked key g =
     g\<lparr>g_reports := (g_reports g)(key := None),
       g_eventLinks := (\<lambda>ce. case g_eventLinks g ce of
          None \<Rightarrow> None
        | Some link \<Rightarrow> (let link' = removeReport key link in
            if cl_reports link' = [] then None else Some link'))\<rparr>"

fun define_reports ::
  "report_definition_message list \<Rightarrow> ('w, 'z) gem_coll' \<Rightarrow> (DRACKCode \<times> ('w, 'z) gem_coll') go" where
  "define_reports [] g = Inr (DRACKAccept, g)"
| "define_reports ((i, vids) # rs) g =
     (if vids = [] then define_reports rs (removeReportUnlocked (id_key i) g)
      else go_bind (newReportDefinition (id_raw i) vids) (\<lambda>r. case r of
          Inl e \<Rightarrow> Inr (DRACKInvalidFormat, g)
        | Inr d \<Rightarrow> define_reports rs (g\<lparr>g_reports := (g_reports g)(id_key i := Some d)\<rparr>)))"

definition handleReportDefinitions ::
  "report_definition_message list \<Rightarrow> ('w, 'z) gem_coll' \<Rightarrow> (DRACKCode \<times> ('w, 'z) gem_coll') go" where
  "handleReportDefinitions reports g =
     (if reports = [] then Inr (DRACKAccept, g\<lparr>g_eventLinks := (\<lambda>_. None), g_reports := (\<lambda>_. None)\<rparr>)
      else if list_ex (\<lambda>(i, vids). g_reports g (id_key i) \<noteq> None \<and> vids \<noteq> []) reports
        then Inr (DRACKRPTIDRedefined, g)
      else if list_ex (\<lambda>(i, vids). list_ex (\<lambda>vid. \<not> vidExists (id_key vid) g) vids) reports
        then Inr (DRACKVIDDoesNotExist, g)
      else define_reports reports g)"

definition onS2F33 ::
  "data_message option \<Rightarrow> ('w, 'z) gem_coll' \<Rightarrow> data_message go \<times> ('w, 'z) gem_coll'" where
  "onS2F33 msg g = (case parseReportDefinitionList msg of
      Inl e \<Rightarrow> (Inl e, g)
    | Inr (Inl e) \<Rightarrow> (buildS2F34 DRACKInvalidFormat, g)
    | Inr (Inr reports) \<Rightarrow> (case handleReportDefinitions reports g of
        Inl e \<Rightarrow> (Inl e, g)
      | Inr (ack, g') \<Rightarrow> (buildS2F34 ack, g')))"

text \<open>The checks of \<open>handleEventReportLinks\<close> for one link, in the order of the code.\<close>

fun check_rptids :: "string \<Rightarrow> id_info list \<Rightarrow> ('w, 'z) gem_coll' \<Rightarrow> LRACKCode" where
  "check_rptids ce [] g = LRACKAccept"
| "check_rptids ce (rpt # rpts) g =
     (if g_reports g (id_key rpt) = None then LRACKRPTIDDoesNotExist
      else if (case g_eventLinks g ce of None \<Rightarrow> False | Some link \<Rightarrow> id_key rpt \<in> set (cl_reports link))
        then LRACKCEIDAlreadyLinked
      else check_rptids ce rpts g)"

fun check_links :: "event_report_link_message list \<Rightarrow> ('w, 'z) gem_coll' \<Rightarrow> LRACKCode" where
  "check_links [] g = LRACKAccept"
| "check_links ((ce, rpts) # ls) g =
     (if g_collectionEvents g (id_key ce) = None then LRACKCEIDDoesNotExist
      else if check_rptids (id_key ce) rpts g \<noteq> LRACKAccept then check_rptids (id_key ce) rpts g
      else check_links ls g)"

definition apply_link :: "event_report_link_message \<Rightarrow> ('w, 'z) gem_coll' \<Rightarrow> ('w, 'z) gem_coll'" where
  "apply_link l g = (case l of (ce, rpts) \<Rightarrow>
     if rpts = [] then g\<lparr>g_eventLinks := (g_eventLinks g)(id_key ce := None)\<rparr>
     else let keys = map id_key rpts in
       g\<lparr>g_eventLinks := (g_eventLinks g)(id_key ce := Some (case g_eventLinks g (id_key ce) of
           Some link \<Rightarrow> link\<lparr>cl_reports := cl_reports link @ keys\<rparr>
         | None \<Rightarrow> newCollectionEventLink keys))\<rparr>)"

definition handleEventReportLinks ::
  "event_report_link_message list \<Rightarrow> ('w, 'z) gem_coll' \<Rightarrow> LRACKCode \<times> ('w, 'z) gem_coll'" where
  "handleEventReportLinks links g =
     (if check_links links g \<noteq> LRACKAccept then (check_links links g, g)
      else (LRACKAccept, fold apply_link links g))"

definition onS2F35 ::
  "data_message option \<Rightarrow> ('w, 'z) gem_coll' \<Rightarrow> data_message go \<times> ('w, 'z) gem_coll'" where
  "onS2F35 msg g = (case parseEventReportLinkList msg of
      Inl e \<Rightarrow> (Inl e, g)
    | Inr (Inl e) \<Rightarrow> (buildS2F36 LRACKInvalidFormat, g)
    | Inr (Inr links) \<Rightarrow> (case handleEventReportLinks links g of (ack, g') \<Rightarrow> (buildS2F36 ack, g')))"

text \<open>The loop over the events named stops at the first without a link; those before it are set.\<close>

fun set_enabled :: "bool \<Rightarrow> id_info list \<Rightarrow> ('w, 'z) gem_coll' \<Rightarrow> ERACKCode \<times> ('w, 'z) gem_coll'" where
  "set_enabled enable [] g = (ERACKAccepted, g)"
| "set_enabled enable (ce # ces) g = (case g_eventLinks g (id_key ce) of
      None \<Rightarrow> (ERACKCEIDUnknown, g)
    | Some link \<Rightarrow> set_enabled enable ces
        (g\<lparr>g_eventLinks := (g_eventLinks g)(id_key ce := Some (link\<lparr>cl_enabled := enable\<rparr>))\<rparr>))"

definition setCollectionEventState ::
  "bool \<Rightarrow> id_info list \<Rightarrow> ('w, 'z) gem_coll' \<Rightarrow> ERACKCode \<times> ('w, 'z) gem_coll'" where
  "setCollectionEventState enable ceids g =
     (if ceids = [] then
        (ERACKAccepted, g\<lparr>g_eventLinks := (\<lambda>ce. map_option (cl_enabled_update (\<lambda>_. enable)) (g_eventLinks g ce))\<rparr>)
      else set_enabled enable ceids g)"

definition onS2F37 ::
  "data_message option \<Rightarrow> ('w, 'z) gem_coll' \<Rightarrow> data_message go \<times> ('w, 'z) gem_coll'" where
  "onS2F37 msg g = (case parseEventEnableMessage msg of
      Inl e \<Rightarrow> (Inl e, g)
    | Inr (Inl e) \<Rightarrow> (buildS2F38 ERACKCEIDUnknown, g)
    | Inr (Inr (enable, ceids)) \<Rightarrow> (case setCollectionEventState enable ceids g of
        (ack, g') \<Rightarrow> (buildS2F38 ack, g')))"

definition onS6F15 :: "data_message option \<Rightarrow> ('w, 'z) gem_coll' \<Rightarrow> data_message go" where
  "onS6F15 msg g = go_bind (parseEventReportRequest msg) (\<lambda>r. case r of
      Inl e \<Rightarrow> buildS6F16 1 None []
    | Inr req \<Rightarrow> go_bind (buildCollectionEventPayload (id_key req) g) (\<lambda>p. case p of
        Inl e \<Rightarrow> buildS6F16 1 (Some (id_node req)) []
      | Inr None \<Rightarrow> buildS6F16 0 (Some (id_node req)) []
      | Inr (Some (reports, dataID, ceNode)) \<Rightarrow> buildS6F16 dataID (Some ceNode) reports))"

definition onS6F11 ::
  "data_message option \<Rightarrow> ('w, 'z) gem_coll' \<Rightarrow> data_message go \<times> ('w, 'z) gem_coll'" where
  "onS6F11 msg g = (case parseEventReportMessage msg of
      Inl e \<Rightarrow> (Inl e, g)
    | Inr (Inl e) \<Rightarrow> (buildS6F12 1, g)
    | Inr (Inr report) \<Rightarrow>
        (buildS6F12 0, g\<lparr>g_world := Fire (g_EventReportReceived g) report (g_world g)\<rparr>))"

section \<open>Lemmas\<close>

interpretation ces: ordered_registry g_collectionEvents g_collectionOrder "\<lambda>v. id_key (ce_info v)"
  RegisterCollectionEvent "\<lambda>g. g_deviceType g = DeviceEquipment"
  by unfold_locales (auto simp: RegisterCollectionEvent_def Let_def)

subsection \<open>The links\<close>

definition link_reports :: "('w, 'z) gem_coll' \<Rightarrow> string \<Rightarrow> string list" where
  "link_reports g k = (case g_eventLinks g k of None \<Rightarrow> [] | Some l \<Rightarrow> cl_reports l)"

text \<open>\<open>reports_ok\<close>: reports are stored under their own key and list existing variables, links belong to
  registered events and are not empty. \<open>links_closed\<close>: a link lists existing reports, each once.\<close>

definition reports_ok :: "('w, 'z) gem_coll' \<Rightarrow> bool" where
  "reports_ok g \<longleftrightarrow>
     (\<forall>k d. g_reports g k = Some d \<longrightarrow> id_key (rd_info d) = k \<and> rd_vidKeys d \<noteq> []
        \<and> (\<forall>v \<in> set (rd_vidKeys d). vidExists v g))
     \<and> (\<forall>k l. g_eventLinks g k = Some l \<longrightarrow> cl_reports l \<noteq> [] \<and> g_collectionEvents g k \<noteq> None)"

definition links_closed :: "('w, 'z) gem_coll' \<Rightarrow> bool" where
  "links_closed g \<longleftrightarrow> (\<forall>k. distinct (link_reports g k) \<and> set (link_reports g k) \<subseteq> dom (g_reports g))"

lemma link_reports_upd [simp]:
  "link_reports (g\<lparr>g_eventLinks := (g_eventLinks g)(k := Some l)\<rparr>) j = (if j = k then cl_reports l else link_reports g j)"
  "link_reports (g\<lparr>g_eventLinks := (g_eventLinks g)(k := None)\<rparr>) j = (if j = k then [] else link_reports g j)"
  "link_reports (g\<lparr>g_reports := r\<rparr>) j = link_reports g j"
  by (simp_all add: link_reports_def)

lemma vidExists_upd [simp]:
  "vidExists v (g\<lparr>g_eventLinks := x\<rparr>) = vidExists v g" "vidExists v (g\<lparr>g_reports := y\<rparr>) = vidExists v g"
  by (simp_all add: vidExists_def)

lemma removeReportUnlocked_reports_ok: "reports_ok g \<Longrightarrow> reports_ok (removeReportUnlocked key g)"
  by (auto simp: reports_ok_def removeReportUnlocked_def removeReport_def Let_def vidExists_def
      split: option.splits if_splits)

lemma link_reports_remove: "link_reports (removeReportUnlocked key g) k = remove1 key (link_reports g k)"
  by (auto simp: link_reports_def removeReportUnlocked_def removeReport_def Let_def split: option.splits)

lemma removeReportUnlocked_links_closed: "links_closed g \<Longrightarrow> links_closed (removeReportUnlocked key g)"
  unfolding links_closed_def link_reports_remove
  by (auto simp: removeReportUnlocked_def subset_iff domIff)

lemma newReportDefinition_facts:
  assumes "newReportDefinition (id_raw i) vids = Inr (Inr d)" and "raw_keyed i"
  shows "id_key (rd_info d) = id_key i \<and> rd_vidKeys d = map id_key vids"
proof -
  obtain info where i: "newIDInfo (id_raw i) = Inr (Inr info)"
    and d: "d = \<lparr>rd_info = info, rd_vidKeys = map id_key vids\<rparr>"
    using assms(1) by (auto simp: newReportDefinition_def res_bind_Inr_iff)
  have "id_raw info = id_raw i"
    using i assms(2)
    by (cases "id_raw i")
      (auto simp: newIDInfo_def raw_keyed_def keyForRawID_def go_bind_Inr_iff dest!: newIDInfoFromUint_cases)
  then have "id_key info = id_key i"
    using raw_keyed_eq [OF newIDInfo_raw_keyed [OF i] assms(2)] by simp
  then show ?thesis using d by simp
qed

text \<open>The messages the parsers yield carry keys that fit their identifiers.\<close>

definition entries_keyed :: "(id_info \<times> id_info list) list \<Rightarrow> bool" where
  "entries_keyed es \<longleftrightarrow> (\<forall>(i, is) \<in> set es. raw_keyed i \<and> (\<forall>j \<in> set is. raw_keyed j))"

lemma res_map_set:
  "res_map f xs = Inr (Inr ys) \<Longrightarrow> y \<in> set ys \<Longrightarrow> \<exists>x \<in> set xs. f x = Inr (Inr y)"
  by (induction xs arbitrary: ys) (auto simp: res_bind_Inr_iff)

lemma ids_keyed: "res_map id_of ns = Inr (Inr is) \<Longrightarrow> j \<in> set is \<Longrightarrow> raw_keyed j"
  by (drule (1) res_map_set) (auto simp: id_of_def intro: newIDInfoFromNode_raw_keyed)

lemma id_entry_keyed:
  assumes "id_entry n = Inr (Inr (i, is))"
  shows "raw_keyed i \<and> (\<forall>j \<in> set is. raw_keyed j)"
proof -
  obtain a b where "id_of a = Inr (Inr i)" and "res_map id_of b = Inr (Inr is)"
    using assms by (auto simp: id_entry_def res_bind_Inr_iff split: option.splits list.splits)
  then show ?thesis
    using newIDInfoFromNode_raw_keyed ids_keyed by (auto simp: id_of_def)
qed

lemma id_entries_keyed:
  assumes "id_entries msg = Inr (Inr es)"
  shows "entries_keyed es"
proof -
  obtain ns where ns: "res_map id_entry ns = Inr (Inr es)"
    using assms by (auto simp: id_entries_def res_bind_Inr_iff)
  show ?thesis
    unfolding entries_keyed_def by (auto dest!: res_map_set [OF ns] id_entry_keyed)
qed

text \<open>What the definition of reports leaves alone.\<close>

lemma removeReportUnlocked_frame [simp]:
  "g_statusVars (removeReportUnlocked k g) = g_statusVars g"
  "g_dataVars (removeReportUnlocked k g) = g_dataVars g"
  "g_collectionEvents (removeReportUnlocked k g) = g_collectionEvents g"
  "vidExists v (removeReportUnlocked k g) = vidExists v g"
  by (simp_all add: removeReportUnlocked_def vidExists_def)

lemma define_report_ok:
  assumes "reports_ok g" and "newReportDefinition (id_raw i) vids = Inr (Inr d)" and "raw_keyed i"
    and "vids \<noteq> []" and "\<And>v. v \<in> set vids \<Longrightarrow> vidExists (id_key v) g"
  shows "reports_ok (g\<lparr>g_reports := (g_reports g)(id_key i := Some d)\<rparr>)"
  using assms newReportDefinition_facts [OF assms(2,3)] by (auto simp: reports_ok_def)

lemma define_report_closed:
  "links_closed g \<Longrightarrow> links_closed (g\<lparr>g_reports := (g_reports g)(k := Some d)\<rparr>)"
  by (auto simp: links_closed_def)

lemma define_reports_ok:
  assumes "define_reports rs g = Inr (ack, g')" and "reports_ok g"
    and "\<And>i vids. (i, vids) \<in> set rs \<Longrightarrow> raw_keyed i \<and> (\<forall>v \<in> set vids. vidExists (id_key v) g)"
  shows "reports_ok g' \<and> (links_closed g \<longrightarrow> links_closed g')"
  using assms
proof (induction rs arbitrary: g)
  case (Cons r rs)
  obtain i vids where r: "r = (i, vids)" by force
  show ?case
  proof (cases "vids = []")
    case True
    let ?g = "removeReportUnlocked (id_key i) g"
    have "reports_ok g' \<and> (links_closed ?g \<longrightarrow> links_closed g')"
    proof (rule Cons.IH)
      show "define_reports rs ?g = Inr (ack, g')" using Cons.prems(1) r True by simp
      show "reports_ok ?g" using Cons.prems(2) by (rule removeReportUnlocked_reports_ok)
    qed (use Cons.prems(3) in auto)
    then show ?thesis using removeReportUnlocked_links_closed by blast
  next
    case False
    obtain d where d: "newReportDefinition (id_raw i) vids = Inr d"
      using Cons.prems(1) r False by (auto simp: go_bind_Inr_iff)
    show ?thesis
    proof (cases d)
      case (Inl e)
      then show ?thesis using Cons.prems d r False by simp
    next
      case (Inr rd)
      let ?g = "g\<lparr>g_reports := (g_reports g)(id_key i := Some rd)\<rparr>"
      have "reports_ok g' \<and> (links_closed ?g \<longrightarrow> links_closed g')"
      proof (rule Cons.IH)
        show "define_reports rs ?g = Inr (ack, g')" using Cons.prems(1) r False d Inr by simp
        show "reports_ok ?g"
          using define_report_ok [OF Cons.prems(2) d [unfolded Inr] _ False] Cons.prems(3) [of i vids] r
          by simp
      qed (use Cons.prems(3) in auto)
      then show ?thesis using define_report_closed by blast
    qed
  qed
qed simp

lemma handleReportDefinitions_ok:
  assumes "handleReportDefinitions rs g = Inr (ack, g')" and "reports_ok g" and "entries_keyed rs"
  shows "reports_ok g' \<and> (links_closed g \<longrightarrow> links_closed g')"
proof -
  consider "rs = []" | "g' = g" |
    "define_reports rs g = Inr (ack, g')" "\<forall>(i, vids) \<in> set rs. \<forall>v \<in> set vids. vidExists (id_key v) g"
    using assms(1) by (auto simp: handleReportDefinitions_def list_ex_iff case_prod_beta split: if_splits)
  then show ?thesis
  proof cases
    case 1
    then have g': "g' = g\<lparr>g_eventLinks := (\<lambda>_. None), g_reports := (\<lambda>_. None)\<rparr>"
      using assms(1) by (simp add: handleReportDefinitions_def)
    show ?thesis unfolding g' by (simp add: reports_ok_def links_closed_def link_reports_def)
  next
    case 2
    then show ?thesis using assms(2) by simp
  next
    case 3
    show ?thesis
      by (rule define_reports_ok [OF 3(1) assms(2)]) (use 3(2) assms(3) in \<open>auto simp: entries_keyed_def\<close>)
  qed
qed

text \<open>The report keys a message links to an event, in order.\<close>

definition pending :: "event_report_link_message list \<Rightarrow> string \<Rightarrow> string list" where
  "pending ls k = concat (map (\<lambda>(ce, rpts). if id_key ce = k then map id_key rpts else []) ls)"

lemma pending_simps [simp]:
  "pending [] k = []"
  "pending ((ce, rpts) # ls) k = (if id_key ce = k then map id_key rpts else []) @ pending ls k"
  by (simp_all add: pending_def)

lemma check_rptids_accept:
  "check_rptids k rpts g = LRACKAccept \<longleftrightarrow>
     (\<forall>r \<in> set rpts. g_reports g (id_key r) \<noteq> None \<and> id_key r \<notin> set (link_reports g k))"
  by (induction rpts) (auto simp: link_reports_def split: option.splits)

lemma check_links_accept:
  "check_links ls g = LRACKAccept \<longleftrightarrow>
     (\<forall>(ce, rpts) \<in> set ls. g_collectionEvents g (id_key ce) \<noteq> None)
     \<and> (\<forall>k. set (pending ls k) \<subseteq> dom (g_reports g) \<and> set (pending ls k) \<inter> set (link_reports g k) = {})"
  (is "_ \<longleftrightarrow> ?E ls \<and> (\<forall>k. ?ok (set (pending ls k)) k)")
proof (induction ls)
  case (Cons l ls)
  obtain ce rpts where l: "l = (ce, rpts)" by force
  let ?A = "\<lambda>k. if id_key ce = k then id_key ` set rpts else {}"
  have "check_links (l # ls) g = LRACKAccept \<longleftrightarrow> g_collectionEvents g (id_key ce) \<noteq> None
      \<and> check_rptids (id_key ce) rpts g = LRACKAccept \<and> check_links ls g = LRACKAccept"
    by (simp add: l)
  moreover have "check_rptids (id_key ce) rpts g = LRACKAccept \<longleftrightarrow> (\<forall>k. ?ok (?A k) k)"
    unfolding check_rptids_accept by auto
  moreover have "set (pending (l # ls) k) = ?A k \<union> set (pending ls k)" for k by (simp add: l)
  then have "?ok (set (pending (l # ls) k)) k \<longleftrightarrow> ?ok (?A k) k \<and> ?ok (set (pending ls k)) k" for k
    by (simp only: Un_subset_iff Int_Un_distrib2 Un_empty) argo
  moreover have "?E (l # ls) \<longleftrightarrow> g_collectionEvents g (id_key ce) \<noteq> None \<and> ?E ls" by (simp add: l)
  ultimately show ?case using Cons.IH by metis
qed simp

lemma apply_link_effect:
  "link_reports (apply_link (ce, rpts) g) k =
     (if k = id_key ce then (if rpts = [] then [] else link_reports g k @ map id_key rpts) else link_reports g k)"
  "g_reports (apply_link (ce, rpts) g) = g_reports g"
  "g_collectionEvents (apply_link (ce, rpts) g) = g_collectionEvents g"
  "vidExists v (apply_link (ce, rpts) g) = vidExists v g"
  by (auto simp: apply_link_def Let_def newCollectionEventLink_def link_reports_def vidExists_def
      split: option.splits)

lemma apply_link_reports_ok:
  "reports_ok g \<Longrightarrow> g_collectionEvents g (id_key ce) \<noteq> None \<Longrightarrow> reports_ok (apply_link (ce, rpts) g)"
  by (auto simp: reports_ok_def apply_link_def Let_def newCollectionEventLink_def vidExists_def
      split: option.splits if_splits)

lemma apply_links_reports_ok:
  assumes "reports_ok g" and "\<forall>(ce, rpts) \<in> set ls. g_collectionEvents g (id_key ce) \<noteq> None"
  shows "reports_ok (fold apply_link ls g)"
  using assms
proof (induction ls arbitrary: g)
  case (Cons l ls)
  obtain ce rpts where l: "l = (ce, rpts)" by force
  have "reports_ok (apply_link l g)" using Cons.prems l by (auto intro: apply_link_reports_ok)
  then show ?case using Cons.IH [of "apply_link l g"] Cons.prems l by (simp add: apply_link_effect)
qed simp

lemma apply_links_closed:
  assumes "links_closed g" and "\<And>k. set (pending ls k) \<subseteq> dom (g_reports g)"
    and "\<And>k. distinct (link_reports g k @ pending ls k)"
  shows "links_closed (fold apply_link ls g)"
  using assms
proof (induction ls arbitrary: g)
  case (Cons l ls)
  obtain ce rpts where l: "l = (ce, rpts)" by force
  let ?g = "apply_link l g"
  have rep: "g_reports ?g = g_reports g" using l by (simp add: apply_link_effect)
  have "links_closed ?g \<and> distinct (link_reports ?g k @ pending ls k)
    \<and> set (pending ls k) \<subseteq> dom (g_reports g)" for k
  proof (intro conjI)
    show "distinct (link_reports ?g k @ pending ls k)"
      using Cons.prems(3) [of k] l by (auto simp: apply_link_effect)
    show "set (pending ls k) \<subseteq> dom (g_reports g)" using Cons.prems(2) [of k] l by auto
    show "links_closed ?g"
      unfolding links_closed_def rep
    proof (intro allI conjI)
      fix j
      show "distinct (link_reports ?g j)" using Cons.prems(3) [of j] l by (auto simp: apply_link_effect)
      show "set (link_reports ?g j) \<subseteq> dom (g_reports g)"
        using Cons.prems(1) Cons.prems(2) [of j] l
        by (auto simp: apply_link_effect links_closed_def split: if_splits)
    qed
  qed
  then show ?case using Cons.IH [of ?g] rep by simp
qed simp

lemma handleEventReportLinks_ok:
  assumes "reports_ok g"
  shows "reports_ok (snd (handleEventReportLinks ls g))"
    and "links_closed g \<Longrightarrow> (\<And>k. distinct (pending ls k)) \<Longrightarrow> links_closed (snd (handleEventReportLinks ls g))"
proof -
  show "reports_ok (snd (handleEventReportLinks ls g))"
    using assms check_links_accept [of ls g]
    by (auto simp: handleEventReportLinks_def intro!: apply_links_reports_ok)
  assume c: "links_closed g" and d: "\<And>k. distinct (pending ls k)"
  show "links_closed (snd (handleEventReportLinks ls g))"
  proof (cases "check_links ls g = LRACKAccept")
    case True
    then have "set (pending ls k) \<subseteq> dom (g_reports g)" "distinct (link_reports g k @ pending ls k)" for k
      using check_links_accept [of ls g] c d [of k] by (auto simp: links_closed_def)
    then show ?thesis using apply_links_closed [OF c] True by (simp add: handleEventReportLinks_def)
  qed (use c in \<open>simp add: handleEventReportLinks_def\<close>)
qed

lemma set_enabled_effect:
  "set_enabled b ces g = (ack, g') \<Longrightarrow>
     link_reports g' k = link_reports g k \<and> g_reports g' = g_reports g \<and> (reports_ok g \<longrightarrow> reports_ok g')"
proof (induction ces arbitrary: g)
  case (Cons ce ces)
  show ?case
  proof (cases "g_eventLinks g (id_key ce)")
    case (Some link)
    let ?g = "g\<lparr>g_eventLinks := (g_eventLinks g)(id_key ce := Some (link\<lparr>cl_enabled := b\<rparr>))\<rparr>"
    have "reports_ok g \<Longrightarrow> reports_ok ?g" using Some by (auto simp: reports_ok_def vidExists_def)
    moreover have "link_reports ?g k = link_reports g k" using Some by (auto simp: link_reports_def)
    ultimately show ?thesis using Cons.IH [of ?g] Cons.prems Some by simp
  qed (use Cons.prems in simp)
qed simp

lemma setCollectionEventState_ok:
  assumes "setCollectionEventState b ces g = (ack, g')"
  shows "(reports_ok g \<longrightarrow> reports_ok g') \<and> (links_closed g \<longrightarrow> links_closed g')"
proof (cases "ces = []")
  case True
  then have g': "g' = g\<lparr>g_eventLinks := (\<lambda>ce. map_option (cl_enabled_update (\<lambda>_. b)) (g_eventLinks g ce))\<rparr>"
    using assms by (simp add: setCollectionEventState_def)
  have "link_reports g' k = link_reports g k" for k
    unfolding g' by (auto simp: link_reports_def split: option.splits)
  moreover have "reports_ok g \<Longrightarrow> reports_ok g'"
    unfolding g' by (auto simp: reports_ok_def vidExists_def)
  ultimately show ?thesis unfolding links_closed_def g' by simp
next
  case False
  then have "set_enabled b ces g = (ack, g')" using assms by (simp add: setCollectionEventState_def)
  from set_enabled_effect [OF this] show ?thesis by (simp add: links_closed_def)
qed

end
