(* ===== verification/Gem_Remote.thy ===== *)
theory Gem_Remote
  imports Gem_Variables
begin

text \<open>
  Remote commands, \<open>gem/remote_command.go\<close>: the messages S2F41 and S2F42 and what the receiving side
  reads from them, the sizes of encoded numbers, and the choice of the answer of \<open>onS2F41\<close> in
  \<open>gem/handler.go\<close>.

  A parameter value is a Go value or a byte slice. The application's command handler is a function of
  the request and of its state; its error is only logged.
\<close>

section \<open>Codes\<close>

type_synonym HCACKCode = byte
type_synonym CPACKCode = byte

definition HCACKAcknowledge :: HCACKCode where "HCACKAcknowledge = 0"
definition HCACKInvalidCommand :: HCACKCode where "HCACKInvalidCommand = 1"
definition HCACKCannotPerformNow :: HCACKCode where "HCACKCannotPerformNow = 2"
definition HCACKAlreadyInCondition :: HCACKCode where "HCACKAlreadyInCondition = 5"
definition HCACKNoObject :: HCACKCode where "HCACKNoObject = 6"
definition CPACKParameterUnknown :: CPACKCode where "CPACKParameterUnknown = 1"
definition cpackReservedMax :: CPACKCode where "cpackReservedMax = 63"

definition hcack_normalized :: "HCACKCode \<Rightarrow> HCACKCode" where
  "hcack_normalized c = (if HCACKNoObject < c then HCACKInvalidCommand else c)"

definition cpack_normalized :: "CPACKCode \<Rightarrow> CPACKCode" where
  "cpack_normalized c =
     (if c < CPACKParameterUnknown \<or> cpackReservedMax < c then CPACKParameterUnknown else c)"

section \<open>Requests and results\<close>

datatype cp_value = CPBytes "byte list" | CPVal goval

record remote_parameter_value =
  pv_Name :: goval
  pv_Value :: cp_value

record remote_parameter =
  rp_Name :: string
  rp_Identifier :: goval
  rp_Value :: item

record remote_parameter_ack =
  ra_Name :: goval
  ra_Ack :: CPACKCode

record remote_result =
  rr_HCACK :: HCACKCode
  rr_ParameterAcks :: "remote_parameter_ack list"

record remote_request =
  rq_Command :: string
  rq_CommandID :: goval
  rq_Parameters :: "remote_parameter list"

section \<open>Items for parameter values\<close>

definition signedByteSize :: "64 word \<Rightarrow> int" where
  "signedByteSize v =
     (if - (2 ^ 7) \<le> sint v \<and> sint v < 2 ^ 7 then 1
      else if - (2 ^ 15) \<le> sint v \<and> sint v < 2 ^ 15 then 2
      else if - (2 ^ 31) \<le> sint v \<and> sint v < 2 ^ 31 then 4
      else 8)"

definition unsignedByteSize :: "64 word \<Rightarrow> int" where
  "unsignedByteSize v =
     (if v < 2 ^ 8 then 1 else if v < 2 ^ 16 then 2 else if v < 2 ^ 32 then 4 else 8)"

definition signed_node :: "64 word \<Rightarrow> item res go" where
  "signed_node v = go_bind (NewIntNode (signedByteSize v) [VInt64 v]) (\<lambda>n. Inr (Inr n))"

definition unsigned_node :: "64 word \<Rightarrow> item res go" where
  "unsigned_node v = go_bind (NewUintNode (unsignedByteSize v) [VUint64 v]) (\<lambda>n. Inr (Inr n))"

definition ok_node :: "item go \<Rightarrow> item res go" where
  "ok_node m = go_bind m (\<lambda>n. Inr (Inr n))"

definition itemNodeFromValue :: "cp_value \<Rightarrow> item res go" where
  "itemNodeFromValue x = (case x of
      CPBytes bs \<Rightarrow> ok_node (NewBinaryNode (map (\<lambda>b. VInt (ucast b)) bs))
    | CPVal v \<Rightarrow> (case v of
        VNil \<Rightarrow> Inr (Inr EmptyNode)
      | VItem n \<Rightarrow> Inr (Inr n)
      | VString s \<Rightarrow> ok_node (NewASCIINode s)
      | VBool b \<Rightarrow> ok_node (NewBooleanNode [VBool b])
      | VInt w \<Rightarrow> signed_node w
      | VInt8 w \<Rightarrow> signed_node (scast w)
      | VInt16 w \<Rightarrow> signed_node (scast w)
      | VInt32 w \<Rightarrow> signed_node (scast w)
      | VInt64 w \<Rightarrow> signed_node w
      | VUint w \<Rightarrow> unsigned_node w
      | VUint8 w \<Rightarrow> unsigned_node (ucast w)
      | VUint16 w \<Rightarrow> unsigned_node (ucast w)
      | VUint32 w \<Rightarrow> unsigned_node (ucast w)
      | VUint64 w \<Rightarrow> unsigned_node w
      | VFloat32 f \<Rightarrow> ok_node (NewFloatNode 4 [VFloat64 (f64_of_f32 f)])
      | VFloat64 f \<Rightarrow> ok_node (NewFloatNode 8 [VFloat64 f])))"

section \<open>Messages\<close>

definition pair_node :: "item \<Rightarrow> item \<Rightarrow> item go" where
  "pair_node a b = list_node [a, b]"

definition param_node :: "remote_parameter_value \<Rightarrow> item res go" where
  "param_node p = res_bind (newIDInfo (pv_Name p)) (\<lambda>nameInfo.
     res_bind (itemNodeFromValue (pv_Value p)) (\<lambda>v. ok_node (pair_node (id_node nameInfo) v)))"

definition buildS2F41 :: "device_type \<Rightarrow> goval \<Rightarrow> remote_parameter_value list \<Rightarrow> data_message res go" where
  "buildS2F41 deviceType command params = res_bind (newIDInfo command) (\<lambda>cmdInfo.
     res_bind (res_map param_node params) (\<lambda>nodes.
       let direction = (if deviceType = DeviceEquipment then ''H<-E'' else ''H->E'') in
       go_bind (list_node nodes) (\<lambda>ps. go_bind (pair_node (id_node cmdInfo) ps) (\<lambda>body.
       go_bind (NewDataMessage ''RemoteCommand'' 2 41 1 direction body) (\<lambda>m. Inr (Inr m))))))"

definition binary1 :: "byte \<Rightarrow> item go" where
  "binary1 b = NewBinaryNode [VInt (ucast b)]"

definition ack_node :: "remote_parameter_ack \<Rightarrow> item res go" where
  "ack_node a = res_bind (newIDInfo (ra_Name a)) (\<lambda>nameInfo.
     go_bind (binary1 (cpack_normalized (ra_Ack a))) (\<lambda>b. ok_node (pair_node (id_node nameInfo) b)))"

definition buildS2F42 :: "device_type \<Rightarrow> remote_result \<Rightarrow> data_message res go" where
  "buildS2F42 deviceType result = res_bind (res_map ack_node (rr_ParameterAcks result)) (\<lambda>nodes.
     let direction = (if deviceType = DeviceHost then ''H->E'' else ''H<-E'') in
     go_bind (binary1 (hcack_normalized (rr_HCACK result))) (\<lambda>h. go_bind (list_node nodes) (\<lambda>ps.
     go_bind (pair_node h ps) (\<lambda>body.
     go_bind (NewDataMessage ''RemoteCommandAck'' 2 42 0 direction body) (\<lambda>m. Inr (Inr m))))))"

section \<open>Reading\<close>

text \<open>\<open>fmt.Sprint\<close> of the raw form of an identifier.\<close>

definition sprint_id :: "goval \<Rightarrow> string" where
  "sprint_id v = (case v of VUint64 w \<Rightarrow> dec (uint w) | VString s \<Rightarrow> s | _ \<Rightarrow> [])"

text \<open>\<open>msg.Get(i)\<close>\<close>

definition msg_Get :: "data_message \<Rightarrow> int \<Rightarrow> item res" where
  "msg_Get m i = Get (dm_dataItem m) [i]"

definition id_ok :: "item \<Rightarrow> id_info option go" where
  "id_ok n = go_bind (newIDInfoFromNode (Some n)) (\<lambda>r. Inr (case r of Inl e \<Rightarrow> None | Inr i \<Rightarrow> Some i))"

definition read_parameter :: "item \<Rightarrow> remote_parameter option go" where
  "read_parameter entryNode = (case as_list entryNode of
      Some (nameNode # rest) \<Rightarrow> go_bind (id_ok nameNode) (\<lambda>r. Inr (case r of
          None \<Rightarrow> None
        | Some info \<Rightarrow> Some \<lparr>rp_Name = sprint_id (id_raw info), rp_Identifier = id_raw info,
            rp_Value = (case rest of [] \<Rightarrow> EmptyNode | v # _ \<Rightarrow> v)\<rparr>))
    | _ \<Rightarrow> Inr None)"

text \<open>Entries that cannot be read are skipped.\<close>

definition somes :: "'a option list \<Rightarrow> 'a list" where
  "somes xs = List.map_filter (\<lambda>x. x) xs"

definition parseRemoteCommand :: "data_message option \<Rightarrow> remote_request res go" where
  "parseRemoteCommand msg = (case msg of
      None \<Rightarrow> Inr (Inl (Err ''gem: nil S2F41 message''))
    | Some m \<Rightarrow> res_bind (Inr (msg_Get m 0)) (\<lambda>cmdNode.
        res_bind (newIDInfoFromNode (Some cmdNode)) (\<lambda>cmdInfo.
        go_bind (case msg_Get m 1 of
            Inl e \<Rightarrow> Inr []
          | Inr paramsNode \<Rightarrow> (case as_list paramsNode of
                None \<Rightarrow> Inr []
              | Some es \<Rightarrow> go_bind (go_map read_parameter es) (\<lambda>ps. Inr (somes ps))))
          (\<lambda>ps. Inr (Inr \<lparr>rq_Command = sprint_id (id_raw cmdInfo), rq_CommandID = id_raw cmdInfo,
             rq_Parameters = ps\<rparr>)))))"

text \<open>The text of an ASCII item, and nothing for any other.\<close>

definition read_text :: "item \<Rightarrow> string" where
  "read_text n = (case n of ANode a \<Rightarrow> an_value a | _ \<Rightarrow> [])"

text \<open>A binary item, or one nested first in lists.\<close>

fun readSingleBinaryValue :: "item \<Rightarrow> int res" where
  "readSingleBinaryValue (BNode b) = (case bn_values b of
      [] \<Rightarrow> Inl (Err ''gem: binary node missing value'') | v # _ \<Rightarrow> Inr v)"
| "readSingleBinaryValue (LNode vs vars s) = (case vs of
      [] \<Rightarrow> Inl (Err ''gem: empty list for binary value'') | v # _ \<Rightarrow> readSingleBinaryValue v)"
| "readSingleBinaryValue _ = Inl (Err ''gem: expected binary node'')"

definition read_param_ack :: "item \<Rightarrow> remote_parameter_ack option go" where
  "read_param_ack entryNode = (case as_list entryNode of
      Some (nameNode # ackNode # _) \<Rightarrow> go_bind (id_ok nameNode) (\<lambda>r. Inr (case r of
          None \<Rightarrow> None
        | Some info \<Rightarrow> (case readSingleBinaryValue ackNode of
              Inl e \<Rightarrow> None
            | Inr v \<Rightarrow> Some \<lparr>ra_Name = id_raw info, ra_Ack = cpack_normalized (word_of_int v)\<rparr>)))
    | _ \<Rightarrow> Inr None)"

definition parseRemoteCommandAck :: "data_message option \<Rightarrow> remote_result res go" where
  "parseRemoteCommandAck msg = (case msg of
      None \<Rightarrow> Inr (Inl (Err ''gem: nil S2F42 message''))
    | Some m \<Rightarrow> res_bind (Inr (msg_Get m 0)) (\<lambda>ackItem.
        res_bind (Inr (readSingleBinaryValue ackItem)) (\<lambda>v.
        go_bind (case msg_Get m 1 of
            Inl e \<Rightarrow> Inr []
          | Inr paramsNode \<Rightarrow> (case as_list paramsNode of
                None \<Rightarrow> Inr []
              | Some es \<Rightarrow> go_bind (go_map read_param_ack es) (\<lambda>as. Inr (somes as))))
          (\<lambda>as. Inr (Inr \<lparr>rr_HCACK = hcack_normalized (word_of_int v), rr_ParameterAcks = as\<rparr>)))))"

section \<open>Answering a command\<close>

type_synonym 'w remote_handler = "remote_request \<Rightarrow> 'w \<Rightarrow> (remote_result \<times> go_error option) \<times> 'w"

definition buildAck :: "device_type \<Rightarrow> remote_result \<Rightarrow> data_message option go" where
  "buildAck deviceType res = go_bind (buildS2F42 deviceType res) (\<lambda>r. case r of
      Inr ack \<Rightarrow> Inr (Some ack)
    | Inl e \<Rightarrow> go_bind (buildS2F42 deviceType \<lparr>rr_HCACK = HCACKInvalidCommand, rr_ParameterAcks = []\<rparr>)
        (\<lambda>f. case f of Inr m \<Rightarrow> Inr (Some m) | Inl e' \<Rightarrow> Inr None))"

definition result_of :: "HCACKCode \<Rightarrow> remote_result" where
  "result_of c = \<lparr>rr_HCACK = c, rr_ParameterAcks = []\<rparr>"

text \<open>\<open>fire\<close> is the event \<open>RemoteCommandReceived\<close>; the answer and the state of the application.\<close>

definition onS2F41 ::
  "device_type \<Rightarrow> 'w remote_handler option \<Rightarrow> (remote_request \<Rightarrow> 'w \<Rightarrow> 'w) \<Rightarrow> data_message option \<Rightarrow> 'w
     \<Rightarrow> data_message option go \<times> 'w" where
  "onS2F41 deviceType handler fire msg w = (case msg of
      None \<Rightarrow> (buildAck deviceType (result_of HCACKAlreadyInCondition), w)
    | Some m \<Rightarrow> (case parseRemoteCommand (Some m) of
        Inl e \<Rightarrow> (Inl e, w)
      | Inr (Inl e) \<Rightarrow> (buildAck deviceType (result_of HCACKInvalidCommand), w)
      | Inr (Inr req) \<Rightarrow> (let w1 = fire req w in
          case handler of
            None \<Rightarrow> (buildAck deviceType (result_of HCACKInvalidCommand), w1)
          | Some f \<Rightarrow> (case f req w1 of ((res, err), w2) \<Rightarrow>
              (buildAck deviceType
                 (if err \<noteq> None \<and> rr_HCACK res = HCACKAcknowledge
                  then res\<lparr>rr_HCACK := HCACKCannotPerformNow\<rparr> else res), w2)))))"

section \<open>Lemmas\<close>

lemma Get_index [simp]:
  "Get (LNode vs vars ''list'') [int i] = (if i < length vs then Inr (vs ! i) else Inl (Err ''index out of bounds error''))"
  by (simp add: Get_def)

lemma hcack_normalized_le: "hcack_normalized c \<le> HCACKNoObject"
  by (simp add: hcack_normalized_def HCACKInvalidCommand_def HCACKNoObject_def not_less)

lemma hcack_normalized_idem [simp]: "hcack_normalized (hcack_normalized c) = hcack_normalized c"
  by (simp add: hcack_normalized_def HCACKInvalidCommand_def HCACKNoObject_def)

lemma cpack_normalized_idem [simp]: "cpack_normalized (cpack_normalized c) = cpack_normalized c"
  by (simp add: cpack_normalized_def CPACKParameterUnknown_def cpackReservedMax_def)

lemma somes_map [simp]: "somes (map (\<lambda>x. Some (f x)) xs) = map f xs"
  by (induction xs) (simp_all add: somes_def List.map_filter_simps)

lemma sint_ucast_byte [simp]: "sint (ucast (b :: byte) :: 64 word) = uint b"
proof -
  have "uint b < 256" using unsigned_less [where ?'a = int, of b] by simp
  moreover have "0 \<le> uint b" by simp
  ultimately have "- 9223372036854775808 \<le> uint b" "uint b < 9223372036854775808" by linarith+
  then show ?thesis by (simp add: sint_uint uint_up_ucast is_up signed_take_bit_int_eq_self)
qed

lemma binary1_ok: "binary1 b = Inr (BNode \<lparr>bn_values = [uint b], bn_variables = [], bn_symbol = ''binary''\<rparr>)"
  unfolding binary1_def using ack_message_ok [of "ucast b"] unsigned_less [where ?'a = int, of b] by simp

subsection \<open>Numbers are sent in a size they fit\<close>

lemma signedByteSize_in: "signedByteSize v \<in> {1, 2, 4, 8}"
  by (simp add: signedByteSize_def)

lemma unsignedByteSize_in: "unsignedByteSize v \<in> {1, 2, 4, 8}"
  by (simp add: unsignedByteSize_def)

lemma int_fits_signedByteSize: "int_fits (signedByteSize v) v"
  using sint_range_size [of v] by (auto simp: int_fits_def signedByteSize_def word_size)

lemma uint_fits_unsignedByteSize: "uint_fits (unsignedByteSize v) v"
proof -
  have "unat v < 2 ^ 64" using unsigned_less [where ?'a = nat, of v] by simp
  then show ?thesis
    by (auto simp: uint_fits_def unsignedByteSize_def push_bit_eq_mult word_le_nat_alt word_less_nat_alt)
qed

subsection \<open>Lists of pairs\<close>

lemma plain_list_node:
  assumes "\<And>n. n \<in> set ns \<Longrightarrow> Variables n = [] \<and> n \<noteq> EmptyNode" and "int (length ns) \<le> MAX_BYTE_SIZE"
  shows "list_node ns = Inr (LNode ns [] ''list'')" and "Variables (LNode ns [] ''list'') = []"
proof -
  have s: "settled_item n" if "n \<in> set ns" for n using assms(1) [OF that] by (simp add: settled_item_def)
  have "filter (\<lambda>n. n = EmptyNode) ns = []" using assms(1) by (auto simp: filter_empty_conv)
  then have g: "gaps ns = 0" by (simp add: gaps_def)
  show "list_node ns = Inr (LNode ns [] ''list'')" using list_node_gaps(1) [OF s assms(2)] g by simp
  show "Variables (LNode ns [] ''list'') = []" using Variables_gaps [OF s] g by simp
qed

lemma pair_node_ok:
  assumes "Variables a = []" "a \<noteq> EmptyNode" "Variables b = []" "b \<noteq> EmptyNode"
  shows "pair_node a b = Inr (LNode [a, b] [] ''list'')" and "Variables (LNode [a, b] [] ''list'') = []"
  unfolding pair_node_def using plain_list_node [of "[a, b]"] assms by (auto simp: MAX_BYTE_SIZE_def)

lemma NewDataMessage_ok:
  assumes "list_all (\<lambda>r. \<not> rune_is_space r) (runes name)" and "0 \<le> s" "s < 128" "0 \<le> f" "f < 256"
    and "w = 0 \<or> (w = 1 \<and> odd f)" and "dir \<in> {''H->E'', ''H<-E'', ''H<->E''}"
  shows "NewDataMessage name s f w dir body = Inr \<lparr>dm_name = name, dm_stream = s, dm_function = f,
    dm_waitBit = w, dm_direction = dir, dm_dataItem = body, dm_sessionID = - 1, dm_systemBytes = [0, 0, 0, 0]\<rparr>"
proof -
  have "checkRep \<lparr>dm_name = name, dm_stream = s, dm_function = f,
    dm_waitBit = w, dm_direction = dir, dm_dataItem = body, dm_sessionID = - 1, dm_systemBytes = [0, 0, 0, 0]\<rparr>
      = Inr ()"
    using assms by (auto simp: checkRep_Inr_iff even_iff_mod_2_eq_zero)
  then show ?thesis by (simp add: NewDataMessage_def checked_def)
qed

lemma no_space: "ascii_string name \<Longrightarrow> list_all (\<lambda>c. \<not> rune_is_space (of_char c)) name \<Longrightarrow>
    list_all (\<lambda>r. \<not> rune_is_space r) (runes name)"
  by (simp add: runes_ascii list_all_iff)

lemma info_ok_node: "newIDInfo x = Inr (Inr i) \<Longrightarrow> Variables (id_node i) = [] \<and> id_node i \<noteq> EmptyNode"
  using newIDInfo_info_ok by (auto simp: info_ok_def)

text \<open>One parameter, from its Go values to what the receiver reads.\<close>

definition sends :: "remote_parameter_value \<Rightarrow> id_info \<times> item \<Rightarrow> bool" where
  "sends p nv \<longleftrightarrow> newIDInfo (pv_Name p) = Inr (Inr (fst nv)) \<and> itemNodeFromValue (pv_Value p) = Inr (Inr (snd nv))
     \<and> Variables (snd nv) = [] \<and> snd nv \<noteq> EmptyNode"

definition entry_item :: "id_info \<times> item \<Rightarrow> item" where
  "entry_item nv = LNode [id_node (fst nv), snd nv] [] ''list''"

lemma param_node_sends:
  assumes "sends p nv"
  shows "param_node p = Inr (Inr (entry_item nv))"
    and "Variables (entry_item nv) = []" and "entry_item nv \<noteq> EmptyNode"
    and "read_parameter (entry_item nv) = Inr (Some \<lparr>rp_Name = sprint_id (id_raw (fst nv)),
      rp_Identifier = id_raw (fst nv), rp_Value = snd nv\<rparr>)"
proof -
  have n: "newIDInfo (pv_Name p) = Inr (Inr (fst nv))" using assms by (simp add: sends_def)
  have v: "Variables (id_node (fst nv)) = []" "id_node (fst nv) \<noteq> EmptyNode" "Variables (snd nv) = []"
    "snd nv \<noteq> EmptyNode" "itemNodeFromValue (pv_Value p) = Inr (Inr (snd nv))"
    using assms info_ok_node [OF n] by (auto simp: sends_def)
  show "param_node p = Inr (Inr (entry_item nv))" "Variables (entry_item nv) = []"
    using pair_node_ok [OF v(1-4)] n v(5) by (simp_all add: param_node_def ok_node_def entry_item_def)
  show "entry_item nv \<noteq> EmptyNode" by (simp add: entry_item_def)
  show "read_parameter (entry_item nv) = Inr (Some \<lparr>rp_Name = sprint_id (id_raw (fst nv)),
      rp_Identifier = id_raw (fst nv), rp_Value = snd nv\<rparr>)"
    using newIDInfo_read_back [OF n] by (simp add: read_parameter_def entry_item_def as_list_def id_ok_def)
qed

lemma list_all2_right: "list_all2 P xs ys \<Longrightarrow> y \<in> set ys \<Longrightarrow> \<exists>x \<in> set xs. P x y"
  by (induction rule: list_all2_induct) auto

lemma buildS2F41_ok:
  assumes "newIDInfo command = Inr (Inr ci)" and "list_all2 sends params nvs"
    and "int (length params) \<le> MAX_BYTE_SIZE"
  shows "buildS2F41 dt command params = Inr (Inr \<lparr>dm_name = ''RemoteCommand'', dm_stream = 2,
      dm_function = 41, dm_waitBit = 1, dm_direction = (if dt = DeviceEquipment then ''H<-E'' else ''H->E''),
      dm_dataItem = LNode [id_node ci, LNode (map entry_item nvs) [] ''list''] [] ''list'',
      dm_sessionID = - 1, dm_systemBytes = [0, 0, 0, 0]\<rparr>)"
    and "Variables (LNode [id_node ci, LNode (map entry_item nvs) [] ''list''] [] ''list'') = []"
proof -
  have "list_all2 (\<lambda>p n. param_node p = Inr (Inr n)) params (map entry_item nvs)"
    using assms(2) by (auto simp: list_all2_map2 elim!: list_all2_mono intro: param_node_sends)
  then have ps: "res_map param_node params = Inr (Inr (map entry_item nvs))" by (simp add: res_map_Inr_iff)
  have len: "length nvs = length params" using assms(2) by (simp add: list_all2_lengthD)
  have plain: "Variables n = [] \<and> n \<noteq> EmptyNode" if n: "n \<in> set (map entry_item nvs)" for n
  proof -
    from n obtain nv where nv: "n = entry_item nv" "nv \<in> set nvs" by auto
    obtain p where "sends p nv" using list_all2_right [OF assms(2) nv(2)] by blast
    then show ?thesis using param_node_sends(2,3) nv(1) by simp
  qed
  note l = plain_list_node [OF plain, of "map entry_item nvs"]
  have b: "pair_node (id_node ci) (LNode (map entry_item nvs) [] ''list'')
      = Inr (LNode [id_node ci, LNode (map entry_item nvs) [] ''list''] [] ''list'')"
    "Variables (LNode [id_node ci, LNode (map entry_item nvs) [] ''list''] [] ''list'') = []"
    using pair_node_ok [of "id_node ci" "LNode (map entry_item nvs) [] ''list''"] l len assms(3)
      info_ok_node [OF assms(1)] by auto
  show "Variables (LNode [id_node ci, LNode (map entry_item nvs) [] ''list''] [] ''list'') = []" by (rule b(2))
  have sp: "list_all (\<lambda>r. \<not> rune_is_space r) (runes ''RemoteCommand'')" by code_simp
  show "buildS2F41 dt command params = Inr (Inr \<lparr>dm_name = ''RemoteCommand'', dm_stream = 2,
      dm_function = 41, dm_waitBit = 1, dm_direction = (if dt = DeviceEquipment then ''H<-E'' else ''H->E''),
      dm_dataItem = LNode [id_node ci, LNode (map entry_item nvs) [] ''list''] [] ''list'',
      dm_sessionID = - 1, dm_systemBytes = [0, 0, 0, 0]\<rparr>)"
    using assms(1,3) ps l(1) len b(1) by (simp add: buildS2F41_def NewDataMessage_ok sp)
qed

end
