(* ===== verification/Gem_Alarms.thy ===== *)
theory Gem_Alarms
  imports Gem_Remote "HOL-Library.AList"
begin

text \<open>
  Alarms: \<open>gem/alarm.go\<close>, the equipment handlers of \<open>gem/alarm_handlers.go\<close> and the messages and
  parsers of the host in \<open>gem/alarm_client.go\<close>. Sending an alarm is in the handler theory.

  The map from alarm id (an \<open>int\<close>) to alarm is an association list; the lists that are sent are sorted
  by id, so the order of the association list does not show.
\<close>

section \<open>State\<close>

record alarm =
  al_ID :: "64 word"
  al_Text :: string
  al_Enabled :: bool
  al_Set :: bool

record alarm_event =
  ae_ID :: "64 word"
  ae_Text :: string
  ae_Set :: bool

record alarm_info =
  ai_ID :: "64 word"
  ai_Text :: string
  ai_Set :: bool
  ai_Enabled :: bool

type_synonym alarms = "(64 word \<times> alarm) list"

definition RegisterAlarm :: "alarm \<Rightarrow> alarms \<Rightarrow> alarms" where
  "RegisterAlarm a as = AList.update (al_ID a) (a\<lparr>al_Enabled := True\<rparr>) as"

definition lookupAlarm :: "64 word \<Rightarrow> alarms \<Rightarrow> alarm option" where
  "lookupAlarm i as = map_of as i"

text \<open>The part of \<open>RaiseAlarm\<close> under the lock.\<close>

definition set_alarm :: "64 word \<Rightarrow> bool \<Rightarrow> alarms \<Rightarrow> alarm res \<times> alarms" where
  "set_alarm i on as = (case map_of as i of
      None \<Rightarrow> (Inl (Err ''gem: unknown alarm''), as)
    | Some a \<Rightarrow> (let a' = a\<lparr>al_Set := on\<rparr> in (Inr a', AList.update i a' as)))"

definition set_alarm_enabled :: "bool \<Rightarrow> 64 word \<Rightarrow> alarms \<Rightarrow> unit res \<times> alarms" where
  "set_alarm_enabled b i as = (case map_of as i of
      None \<Rightarrow> (Inl (Err ''gem: unknown alarm''), as)
    | Some a \<Rightarrow> (Inr (), AList.update i (a\<lparr>al_Enabled := b\<rparr>) as))"

definition EnableAlarm :: "64 word \<Rightarrow> alarms \<Rightarrow> unit res \<times> alarms" where
  "EnableAlarm = set_alarm_enabled True"

definition DisableAlarm :: "64 word \<Rightarrow> alarms \<Rightarrow> unit res \<times> alarms" where
  "DisableAlarm = set_alarm_enabled False"

definition info_of_alarm :: "alarm \<Rightarrow> alarm_info" where
  "info_of_alarm a = \<lparr>ai_ID = al_ID a, ai_Text = al_Text a, ai_Set = al_Set a, ai_Enabled = al_Enabled a\<rparr>"

definition getAlarmList :: "alarms \<Rightarrow> alarm_info list" where
  "getAlarmList as = sort_key (\<lambda>a. sint (ai_ID a)) (map (info_of_alarm \<circ> snd) as)"

definition getEnabledAlarmList :: "alarms \<Rightarrow> alarm_info list" where
  "getEnabledAlarmList as = filter ai_Enabled (getAlarmList as)"

section \<open>Messages\<close>

text \<open>\<open>NewListNode(NewBinaryNode(alcd), NewUintNode(b, id), NewASCIINode(text))\<close>\<close>

definition alarm_body :: "64 word \<Rightarrow> int \<Rightarrow> 64 word \<Rightarrow> string \<Rightarrow> item go" where
  "alarm_body alcd byteSize i txt = go_bind (NewBinaryNode [VInt alcd]) (\<lambda>b.
     go_bind (NewUintNode byteSize [VInt i]) (\<lambda>u. go_bind (NewASCIINode txt) (\<lambda>t. list_node [b, u, t])))"

definition buildS5F1 :: "device_type \<Rightarrow> alarm \<Rightarrow> bool \<Rightarrow> data_message go" where
  "buildS5F1 deviceType a on = go_bind (alarm_body (if on then 1 else 0) 2 (al_ID a) (al_Text a))
     (\<lambda>body. NewDataMessage ''AlarmReport'' 5 1 0 (if deviceType = DeviceHost then ''H->E'' else ''H<-E'') body)"

definition binary_list :: "64 word \<Rightarrow> item go" where
  "binary_list ack = go_bind (NewBinaryNode [VInt ack]) (\<lambda>b. list_node [b])"

definition buildS5F2 :: "64 word \<Rightarrow> data_message go" where
  "buildS5F2 ack = go_bind (binary_list ack) (\<lambda>body. NewDataMessage ''AlarmAck'' 5 2 0 ''H->E'' body)"

definition buildS5F4 :: "byte \<Rightarrow> data_message go" where
  "buildS5F4 ackc5 = go_bind (NewBinaryNode [VInt (ucast ackc5)])
     (\<lambda>body. NewDataMessage ''EnableAlarmAck'' 5 4 0 ''E->H'' body)"

definition alarm_code :: "alarm_info \<Rightarrow> 64 word" where
  "alarm_code a = or (if ai_Set a then 0x80 else 0) (if ai_Enabled a then 0x40 else 0)"

definition alarm_entry :: "alarm_info \<Rightarrow> item go" where
  "alarm_entry a = alarm_body (alarm_code a) 4 (ai_ID a) (ai_Text a)"

definition alarm_list_message :: "string \<Rightarrow> int \<Rightarrow> alarm_info list \<Rightarrow> data_message go" where
  "alarm_list_message name f alarms = go_bind (go_map alarm_entry alarms) (\<lambda>items.
     list_message name 5 f 0 ''E->H'' items)"

definition buildS5F6 :: "alarm_info list \<Rightarrow> data_message go" where
  "buildS5F6 alarms = alarm_list_message ''AlarmListData'' 6 alarms"

definition buildS5F8 :: "alarm_info list \<Rightarrow> data_message go" where
  "buildS5F8 alarms = alarm_list_message ''EnabledAlarmListData'' 8 alarms"

section \<open>Handlers of the equipment\<close>

text \<open>An alarm id: the first number of an integer item, 0 when it has none; \<open>None\<close> for another item.\<close>

definition read_alid :: "item \<Rightarrow> 64 word option" where
  "read_alid n = (case n of
      UNode u \<Rightarrow> Some (case un_values u of [] \<Rightarrow> 0 | v # _ \<Rightarrow> v)
    | INode i \<Rightarrow> Some (case in_values i of [] \<Rightarrow> 0 | v # _ \<Rightarrow> v)
    | _ \<Rightarrow> None)"

fun read_alids :: "item list \<Rightarrow> 64 word list option" where
  "read_alids [] = Some []"
| "read_alids (n # ns) = (case read_alid n of
      None \<Rightarrow> None
    | Some i \<Rightarrow> (case read_alids ns of None \<Rightarrow> None | Some is \<Rightarrow> Some (i # is)))"

definition enable_alarms :: "bool \<Rightarrow> 64 word list \<Rightarrow> alarms \<Rightarrow> byte \<times> alarms" where
  "enable_alarms enable ids as =
     (if list_ex (\<lambda>i. map_of as i = None) ids then (1, as)
      else (0, fold (\<lambda>i as. snd (set_alarm_enabled enable i as)) ids as))"

text \<open>The acknowledge code of S5F3 and the alarms; \<open>onS5F3\<close> then builds the answer.\<close>

definition S5F3_ack :: "data_message \<Rightarrow> alarms \<Rightarrow> byte \<times> alarms" where
  "S5F3_ack msg as = (case msg_Get msg 0 of
      Inl e \<Rightarrow> (1, as)
    | Inr aledNode \<Rightarrow> (case readSingleBinaryValue aledNode of
          Inl e \<Rightarrow> (1, as)
        | Inr aledValue \<Rightarrow> (case msg_Get msg 1 of
              Inl e \<Rightarrow> (1, as)
            | Inr alidListNode \<Rightarrow> (case as_list alidListNode of
                  None \<Rightarrow> (1, as)
                | Some ns \<Rightarrow> (case read_alids ns of
                      None \<Rightarrow> (1, as)
                    | Some ids \<Rightarrow> enable_alarms (aledValue = 128) ids as)))))"

definition onS5F3 :: "data_message \<Rightarrow> alarms \<Rightarrow> data_message go \<times> alarms" where
  "onS5F3 msg as = (case S5F3_ack msg as of (ack, as') \<Rightarrow> (buildS5F4 ack, as'))"

definition onS5F5 :: "alarms \<Rightarrow> data_message go" where
  "onS5F5 as = buildS5F6 (getAlarmList as)"

definition onS5F7 :: "alarms \<Rightarrow> data_message go" where
  "onS5F7 as = buildS5F8 (getEnabledAlarmList as)"

section \<open>What the host reads\<close>

definition parseAlarmMessage :: "data_message \<Rightarrow> alarm_event res" where
  "parseAlarmMessage msg = go_bind (msg_Get msg 0) (\<lambda>alcdNode.
     go_bind (case alcdNode of
         BNode b \<Rightarrow> (case bn_values b of [] \<Rightarrow> Inl (Err ''gem: S5F1 ALCD missing value'') | v # _ \<Rightarrow> Inr (v \<noteq> 0))
       | _ \<Rightarrow> Inl (Err ''gem: S5F1 ALCD not binary'')) (\<lambda>on.
     go_bind (msg_Get msg 1) (\<lambda>alidNode. case read_alid alidNode of
         None \<Rightarrow> Inl (Err ''gem: unsupported ALID type'')
       | Some i \<Rightarrow> Inr \<lparr>ae_ID = i, ae_Text = (case msg_Get msg 2 of Inl e \<Rightarrow> [] | Inr n \<Rightarrow> read_text n),
           ae_Set = on\<rparr>)))"

text \<open>The answer to S5F1 and the state of the application after \<open>AlarmReceived\<close> has fired.\<close>

definition onS5F1 ::
  "(alarm_event \<Rightarrow> 'w \<Rightarrow> 'w) \<Rightarrow> data_message option \<Rightarrow> 'w \<Rightarrow> data_message go \<times> 'w" where
  "onS5F1 fire msg w = (case msg of
      None \<Rightarrow> (buildS5F2 1, w)
    | Some m \<Rightarrow> (case parseAlarmMessage m of
          Inl e \<Rightarrow> (buildS5F2 0, w)
        | Inr event \<Rightarrow> (buildS5F2 0, fire event w)))"

definition onS5F2 :: "(int \<Rightarrow> 'w \<Rightarrow> 'w) \<Rightarrow> data_message option \<Rightarrow> 'w \<Rightarrow> data_message option res \<times> 'w" where
  "onS5F2 fire msg w = (case msg of
      None \<Rightarrow> (Inr None, w)
    | Some m \<Rightarrow> (case go_bind (msg_Get m 0) readSingleBinaryValue of
          Inl e \<Rightarrow> (Inl e, w)
        | Inr ack \<Rightarrow> (Inr None, fire ack w)))"

definition SendEnableAlarm_msg :: "64 word list \<Rightarrow> bool \<Rightarrow> data_message go" where
  "SendEnableAlarm_msg alarmIDs enable = go_bind (go_map (\<lambda>i. NewUintNode 4 [VInt i]) alarmIDs) (\<lambda>ids.
     go_bind (NewBinaryNode [VInt (if enable then 128 else 0)]) (\<lambda>b. go_bind (list_node ids) (\<lambda>l.
     go_bind (pair_node b l) (\<lambda>body. NewDataMessage ''EnableAlarmReq'' 5 3 1 ''H->E'' body))))"

definition alarm_of_entry :: "item \<Rightarrow> alarm_info option" where
  "alarm_of_entry alarmNode = (case as_list alarmNode of
      Some (alcdNode # alidNode # altxNode # _) \<Rightarrow> (case readSingleBinaryValue alcdNode of
          Inl e \<Rightarrow> None
        | Inr alcd \<Rightarrow> (case read_alid alidNode of
              None \<Rightarrow> None
            | Some i \<Rightarrow> Some \<lparr>ai_ID = i, ai_Text = read_text altxNode,
                ai_Set = bit alcd 7, ai_Enabled = bit alcd 6\<rparr>))
    | _ \<Rightarrow> None)"

definition parseAlarmListResponse :: "data_message \<Rightarrow> alarm_info list res" where
  "parseAlarmListResponse msg = (case as_list (dm_dataItem msg) of
      None \<Rightarrow> Inl (Err ''gem: alarm list not a list'')
    | Some ns \<Rightarrow> Inr (List.map_filter alarm_of_entry ns))"

section \<open>Lemmas\<close>

lemma NewDataMessage_bad_direction:
  "dir \<notin> {''H->E'', ''H<-E'', ''H<->E''} \<Longrightarrow> panics (NewDataMessage name s f w dir body)"
  by (auto simp: NewDataMessage_def checked_def checkRep_def)

lemma panics_bind: "m = Inl NoFuel \<or> panics (go_bind m f)" if "\<And>x. panics (f x)"
  using that by (cases m rule: sum.exhaust) (auto simp: panics_def, metis go_exc.exhaust)

text \<open>Every answer of the equipment about alarms is built with the direction \<open>"E->H"\<close>, which no
  message can have.\<close>

lemma alarm_answers_panic: "panics (buildS5F4 ack)" "panics (buildS5F6 as)" "panics (buildS5F8 as)"
proof -
  have bad: "panics (NewDataMessage name s f w ''E->H'' body)" for name s f w body
    by (rule NewDataMessage_bad_direction) simp
  have "fuel_ok (NewBinaryNode [VInt (ucast ack)])" by (rule factories_fuel_ok)
  then show "panics (buildS5F4 ack)"
    using panics_bind [of "\<lambda>body. NewDataMessage ''EnableAlarmAck'' 5 4 0 ''E->H'' body"
        "NewBinaryNode [VInt (ucast ack)]"] bad
    by (auto simp: buildS5F4_def fuel_ok_def)
  have entry: "fuel_ok (alarm_entry a)" for a
    by (auto simp: alarm_entry_def alarm_body_def list_node_def intro!: fuel_ok_bind factories_fuel_ok)
  have items: "panics (list_message name 5 f 0 ''E->H'' items)" for name f items
    using panics_bind [of "\<lambda>body. NewDataMessage name 5 f 0 ''E->H'' body" "list_node items"] bad
      factories_fuel_ok(7) [of "map VItem items"]
    by (auto simp: list_message_def list_node_def fuel_ok_def)
  have "panics (alarm_list_message name f as)" for name f
    using panics_bind [of "\<lambda>items. list_message name 5 f 0 ''E->H'' items" "go_map alarm_entry as"] items
      go_map_fuel_ok [of as alarm_entry, OF entry]
    by (auto simp: alarm_list_message_def fuel_ok_def)
  then show "panics (buildS5F6 as)" "panics (buildS5F8 as)"
    by (simp_all add: buildS5F6_def buildS5F8_def)
qed

end
