(* ===== verification/Go_Text.thy ===== *)
theory Go_Text
  imports Item_Node
begin

text \<open>
  What the SML text format uses of the Go packages \<open>unicode\<close>, \<open>strconv\<close> and \<open>fmt\<close>: character
  classes, quoting and unquoting, and the parsing of numbers. Strings are bytes. Of the Unicode
  tables only the ASCII part is written out; for the runes above it they are the argument of type
  \<open>unicode\<close>. The number parsers are those of \<open>strconv\<close> on strings without underscores, which is
  all the lexer passes on.
\<close>

section \<open>Character classes\<close>

record unicode =
  uc_letter :: "nat \<Rightarrow> bool"
  uc_digit :: "nat \<Rightarrow> bool"
  uc_print :: "nat \<Rightarrow> bool"

definition IsLetter :: "unicode \<Rightarrow> nat \<Rightarrow> bool" where
  "IsLetter U r = (if r < 128 then (65 \<le> r \<and> r \<le> 90) \<or> (97 \<le> r \<and> r \<le> 122) else uc_letter U r)"

definition IsDigit :: "unicode \<Rightarrow> nat \<Rightarrow> bool" where
  "IsDigit U r = (if r < 128 then 48 \<le> r \<and> r \<le> 57 else uc_digit U r)"

definition IsPrint :: "unicode \<Rightarrow> nat \<Rightarrow> bool" where
  "IsPrint U r = (if r < 128 then 32 \<le> r \<and> r < 127 else uc_print U r)"

definition upper_char :: "char \<Rightarrow> char" where
  "upper_char c =
     (if (97::nat) \<le> of_char c \<and> of_char c \<le> (122::nat) then char_of (of_char c - 32 :: nat) else c)"

definition lower_char :: "char \<Rightarrow> char" where
  "lower_char c =
     (if (65::nat) \<le> of_char c \<and> of_char c \<le> (90::nat) then char_of (of_char c + 32 :: nat) else c)"

text \<open>\<open>strings.ToUpper\<close> of an ASCII string.\<close>

definition ToUpper :: "string \<Rightarrow> string" where
  "ToUpper s = map upper_char s"

definition newline :: char where
  "newline = CHR 0x0A"

section \<open>Binary\<close>

text \<open>\<open>fmt.Sprintf("%b", n)\<close> of a number that is not negative.\<close>

fun bin_nat :: "nat \<Rightarrow> string" where
  "bin_nat n = (if n < 2 then [if n = 1 then CHR ''1'' else CHR ''0'']
     else bin_nat (n div 2) @ [if n mod 2 = 1 then CHR ''1'' else CHR ''0''])"

declare bin_nat.simps [simp del]

lemma bin_nat_digits: "bin_nat n \<noteq> [] \<and> set (bin_nat n) \<subseteq> {CHR ''0'', CHR ''1''}"
  by (induction n rule: bin_nat.induct) (subst bin_nat.simps, auto simp: bin_nat.simps)

text \<open>\<open>strconv.FormatInt(i, 2)\<close>.\<close>

definition FormatInt2 :: "int \<Rightarrow> string" where
  "FormatInt2 i = (if i < 0 then CHR ''-'' # bin_nat (nat (- i)) else bin_nat (nat i))"

section \<open>Encoding and quoting\<close>

definition utf8_encode :: "nat \<Rightarrow> string" where
  "utf8_encode r =
     (if r < 128 then [char_of r]
      else if r < 2048 then map char_of [192 + r div 64, 128 + r mod 64]
      else if 1114111 < r \<or> (55296 \<le> r \<and> r < 57344) then map char_of [239, 191, 189 :: nat]
      else if r < 65536 then map char_of [224 + r div 4096, 128 + r div 64 mod 64, 128 + r mod 64]
      else map char_of [240 + r div 262144, 128 + r div 4096 mod 64, 128 + r div 64 mod 64,
             128 + r mod 64])"

definition hex_digit :: "nat \<Rightarrow> char" where
  "hex_digit d = (if d < 10 then digit_char d else char_of (87 + d))"

text \<open>At least \<open>w\<close> hexadecimal digits, as \<open>%04x\<close> prints them for \<open>w = 4\<close>.\<close>

fun hex_pad :: "nat \<Rightarrow> nat \<Rightarrow> string" where
  "hex_pad w n =
     (if n < 16 then replicate (w - 1) (CHR ''0'') @ [hex_digit n]
      else hex_pad (w - 1) (n div 16) @ [hex_digit (n mod 16)])"

declare hex_pad.simps [simp del]

definition backslash :: char where
  "backslash = CHR 0x5C"

definition escape_rune :: "unicode \<Rightarrow> char \<Rightarrow> nat \<Rightarrow> string" where
  "escape_rune U q r =
     (if r = of_char q \<or> r = of_char backslash then [backslash, char_of r]
      else if IsPrint U r then utf8_encode r
      else if r = 7 then [backslash, CHR ''a'']
      else if r = 8 then [backslash, CHR ''b'']
      else if r = 12 then [backslash, CHR ''f'']
      else if r = 10 then [backslash, CHR ''n'']
      else if r = 13 then [backslash, CHR ''r'']
      else if r = 9 then [backslash, CHR ''t'']
      else if r = 11 then [backslash, CHR ''v'']
      else if r < 32 \<or> r = 127 then [backslash, CHR ''x''] @ hex_pad 2 r
      else if r < 65536 then [backslash, CHR ''u''] @ hex_pad 4 r
      else [backslash, CHR ''U''] @ hex_pad 8 r)"

function quote_body :: "unicode \<Rightarrow> nat list \<Rightarrow> string" where
  "quote_body U bs =
     (if bs = [] then []
      else (if rune_at bs = (65533, 1) then [backslash, CHR ''x''] @ hex_pad 2 (hd bs)
            else escape_rune U (CHR 0x22) (fst (rune_at bs)))
        @ quote_body U (drop (snd (rune_at bs)) bs))"
  by pat_completeness auto
termination
proof (relation "measure (length \<circ> snd)")
  show "((U, drop (snd (rune_at bs)) bs), U, bs) \<in> measure (length \<circ> snd)" if "bs \<noteq> []" for U bs
    using that rune_at_step [of bs] by simp
qed simp

declare quote_body.simps [simp del]

text \<open>\<open>%q\<close> of a string and of a rune, \<open>%#U\<close> of a rune.\<close>

definition Quote :: "unicode \<Rightarrow> string \<Rightarrow> string" where
  "Quote U s = [CHR 0x22] @ quote_body U (map of_char s) @ [CHR 0x22]"

definition QuoteRune :: "unicode \<Rightarrow> nat \<Rightarrow> string" where
  "QuoteRune U r = [CHR 0x27] @ escape_rune U (CHR 0x27) r @ [CHR 0x27]"

definition fmt_unicode :: "unicode \<Rightarrow> nat \<Rightarrow> string" where
  "fmt_unicode U r =
     ''U+'' @ ToUpper (hex_pad 4 r)
     @ (if IsPrint U r then '' '' @ [CHR 0x27] @ utf8_encode r @ [CHR 0x27] else [])"

section \<open>Unquoting\<close>

definition unhex :: "char \<Rightarrow> nat option" where
  "unhex c = (let n = of_char c :: nat in
     if 48 \<le> n \<and> n \<le> 57 then Some (n - 48)
     else if 97 \<le> n \<and> n \<le> 102 then Some (n - 87)
     else if 65 \<le> n \<and> n \<le> 70 then Some (n - 55)
     else None)"

fun digits_value :: "nat \<Rightarrow> (char \<Rightarrow> nat option) \<Rightarrow> nat \<Rightarrow> string \<Rightarrow> nat option" where
  "digits_value base dv acc [] = Some acc"
| "digits_value base dv acc (c # cs) = (case dv c of
      None \<Rightarrow> None
    | Some d \<Rightarrow> digits_value base dv (acc * base + d) cs)"

definition octal :: "char \<Rightarrow> nat option" where
  "octal c = (let n = of_char c :: nat in if 48 \<le> n \<and> n \<le> 55 then Some (n - 48) else None)"

text \<open>What follows a backslash: the bytes it stands for and the number of bytes it takes, the
  backslash included.\<close>

definition simple_escape :: "char \<Rightarrow> nat option" where
  "simple_escape c = map_of
     [(CHR ''a'', 7), (CHR ''b'', 8), (CHR ''f'', 12), (CHR ''n'', 10), (CHR ''r'', 13),
      (CHR ''t'', 9), (CHR ''v'', 11), (backslash, 92), (CHR 0x22, 34)] c"

definition unquote_escape :: "string \<Rightarrow> (string \<times> nat) option" where
  "unquote_escape s = (case s of
      [] \<Rightarrow> None
    | c # r \<Rightarrow>
       (case simple_escape c of
          Some v \<Rightarrow> Some ([char_of v], 2)
        | None \<Rightarrow>
           if c = CHR ''x'' \<or> c = CHR ''u'' \<or> c = CHR ''U'' then
             (let n = (if c = CHR ''x'' then 2 else if c = CHR ''u'' then 4 else 8) in
              if length r < n then None
              else case digits_value 16 unhex 0 (take n r) of
                 None \<Rightarrow> None
               | Some v \<Rightarrow>
                   if c = CHR ''x'' then Some ([char_of v], 4)
                   else if 1114111 < v \<or> (55296 \<le> v \<and> v < 57344) then None
                   else Some (utf8_encode v, 2 + n))
           else if octal c \<noteq> None then
             (if length r < 2 then None
              else case digits_value 8 octal 0 (c # take 2 r) of
                 None \<Rightarrow> None
               | Some v \<Rightarrow> if 255 < v then None else Some ([char_of v], 4))
           else None))"

lemma unquote_escape_step: "unquote_escape s = Some (t, n) \<Longrightarrow> 2 \<le> n"
  by (auto simp: unquote_escape_def Let_def split: list.splits option.splits if_splits)

text \<open>The loop of \<open>strconv.Unquote\<close> after the opening double quote. (The library has a fast path for
  valid UTF-8 without backslash and newline, which gives the same result.)\<close>

function unquote_loop :: "string \<Rightarrow> string option" where
  "unquote_loop s = (case s of
      [] \<Rightarrow> None
    | c # r \<Rightarrow>
       if c = CHR 0x22 then (if r = [] then Some [] else None)
       else if c = newline then None
       else if c = backslash then
         (case unquote_escape r of
            None \<Rightarrow> None
          | Some (t, n) \<Rightarrow> map_option (\<lambda>u. t @ u) (unquote_loop (drop n s)))
       else if (128::nat) \<le> of_char c then
         (case rune_at (map of_char s) of
            (v, n) \<Rightarrow> map_option (\<lambda>u. utf8_encode v @ u) (unquote_loop (drop n s)))
       else map_option (\<lambda>u. c # u) (unquote_loop r))"
  by pat_completeness auto
termination
proof (relation "measure length")
  fix s x21 x22 x2 a b
  assume "s = x21 # x22" "unquote_escape x22 = Some x2" "(a, b) = x2"
  then show "(drop b s, s) \<in> measure length" using unquote_escape_step [of x22 a b] by auto
next
  fix s :: string and x21 x22 a b
  assume "s = x21 # x22" "(a, b) = rune_at (map of_char s)"
  then show "(drop b s, s) \<in> measure length"
    using rune_at_step [of "map of_char s"] by (auto dest: arg_cong [where f = snd])
qed auto

declare unquote_loop.simps [simp del]

text \<open>\<open>val, _ := strconv.Unquote(s)\<close> of a string in double quotes.\<close>

definition Unquote :: "string \<Rightarrow> string option" where
  "Unquote s = (case s of c # r \<Rightarrow> if c = CHR 0x22 then unquote_loop r else None | [] \<Rightarrow> None)"

section \<open>Numbers\<close>

datatype num_err = ErrSyntax | ErrRange

definition digit_val :: "char \<Rightarrow> nat option" where
  "digit_val c = (let n = of_char (lower_char c) :: nat in
     if 48 \<le> n \<and> n \<le> 57 then Some (n - 48)
     else if 97 \<le> n \<and> n \<le> 122 then Some (n - 87)
     else None)"

fun parse_digits :: "nat \<Rightarrow> nat \<Rightarrow> nat \<Rightarrow> string \<Rightarrow> nat \<times> num_err option" where
  "parse_digits base maxVal n [] = (n, None)"
| "parse_digits base maxVal n (c # cs) = (case digit_val c of
      None \<Rightarrow> (0, Some ErrSyntax)
    | Some d \<Rightarrow>
       if base \<le> d then (0, Some ErrSyntax)
       else if maxVal < n * base + d then (maxVal, Some ErrRange)
       else parse_digits base maxVal (n * base + d) cs)"

text \<open>The prefix that base 0 recognises.\<close>

definition number_base :: "string \<Rightarrow> nat \<times> string" where
  "number_base s = (case s of
      c # r \<Rightarrow>
       if c = CHR ''0'' then
         (if 3 \<le> length s \<and> lower_char (hd r) = CHR ''b'' then (2, tl r)
          else if 3 \<le> length s \<and> lower_char (hd r) = CHR ''o'' then (8, tl r)
          else if 3 \<le> length s \<and> lower_char (hd r) = CHR ''x'' then (16, tl r)
          else (8, r))
       else (10, s)
    | [] \<Rightarrow> (10, s))"

definition int_bits :: "nat \<Rightarrow> nat" where
  "int_bits bitSize = (if bitSize = 0 then 64 else bitSize)"

definition ParseUint :: "string \<Rightarrow> nat \<Rightarrow> nat \<times> num_err option" where
  "ParseUint s bitSize =
     (if s = [] then (0, Some ErrSyntax)
      else case number_base s of (b, ds) \<Rightarrow> parse_digits b (2 ^ int_bits bitSize - 1) 0 ds)"

definition signed_result :: "bool \<Rightarrow> nat \<Rightarrow> nat \<times> num_err option \<Rightarrow> int \<times> num_err option" where
  "signed_result neg bitSize r = (case r of (un, e) \<Rightarrow>
     if e = Some ErrSyntax then (0, e)
     else let cutoff = 2 ^ (int_bits bitSize - 1) in
       if \<not> neg \<and> cutoff \<le> un then (int cutoff - 1, Some ErrRange)
       else if neg \<and> cutoff < un then (- int cutoff, Some ErrRange)
       else (if neg then - int un else int un, None))"

definition sign_of :: "string \<Rightarrow> bool \<times> string" where
  "sign_of s = (case s of
      c # r \<Rightarrow> if c = CHR ''+'' then (False, r) else if c = CHR ''-'' then (True, r) else (False, s)
    | [] \<Rightarrow> (False, s))"

definition ParseInt :: "string \<Rightarrow> nat \<Rightarrow> int \<times> num_err option" where
  "ParseInt s bitSize =
     (case sign_of s of (neg, r) \<Rightarrow> signed_result neg bitSize (ParseUint r bitSize))"

definition Atoi :: "string \<Rightarrow> int \<times> num_err option" where
  "Atoi s = (case sign_of s of (neg, r) \<Rightarrow>
     signed_result neg 0 (if r = [] then (0, Some ErrSyntax) else parse_digits 10 (2 ^ 64 - 1) 0 r))"

subsection \<open>Floats\<close>

text \<open>The IEEE bits nearest to \<open>n / d\<close>, ties to even: \<open>mbits\<close> bits of mantissa and the exponent's
  bias. The result is the encoding as a number, which reaches the encoding of infinity when the
  value overflows.\<close>

definition round_div :: "nat \<Rightarrow> nat \<Rightarrow> nat" where
  "round_div n d =
     (let q = n div d; r = n mod d in if d < 2 * r \<or> (d = 2 * r \<and> odd q) then Suc q else q)"

definition round_ratio :: "nat \<Rightarrow> int \<Rightarrow> nat \<Rightarrow> nat \<Rightarrow> nat" where
  "round_ratio mbits bias n d =
     (let l = int (high_bit n) - int (high_bit d);
          e0 = (if d * 2 ^ nat l \<le> n * 2 ^ nat (- l) then l else l - 1);
          e = max e0 (1 - bias);
          k = int mbits - e
      in nat (e + bias - 1) * 2 ^ mbits + round_div (n * 2 ^ nat k) (d * 2 ^ nat (- k)))"

text \<open>Mantissa digits and exponent of a decimal number token: \<open>digits [. digits] [e [sign] digits]\<close>.
  The exponent stops growing at 10000, as in \<open>readFloat\<close>.\<close>

fun exponent_value :: "nat \<Rightarrow> string \<Rightarrow> nat" where
  "exponent_value e [] = e"
| "exponent_value e (c # cs) =
     exponent_value (if e < 10000 then e * 10 + (of_char c - 48) else e) cs"

definition read_exponent :: "string \<Rightarrow> int option" where
  "read_exponent s = (case s of
      [] \<Rightarrow> Some 0
    | c # r \<Rightarrow>
       if lower_char c = CHR ''e'' then
         (case sign_of r of (neg, ds) \<Rightarrow>
            if ds \<noteq> [] \<and> list_all is_digit ds
            then Some ((if neg then - 1 else 1) * int (exponent_value 0 ds)) else None)
       else None)"

definition read_float :: "string \<Rightarrow> (nat \<times> int) option" where
  "read_float s =
     (let ip = takeWhile is_digit s;
          r1 = dropWhile is_digit s;
          dot = (r1 \<noteq> [] \<and> hd r1 = CHR ''.'');
          fp = (if dot then takeWhile is_digit (tl r1) else []);
          r2 = (if dot then dropWhile is_digit (tl r1) else r1)
      in if ip @ fp = [] then None
         else map_option (\<lambda>e. (undec (ip @ fp), e - int (length fp))) (read_exponent r2))"

definition decimal_ratio :: "nat \<Rightarrow> int \<Rightarrow> nat \<times> nat" where
  "decimal_ratio m e = (m * 10 ^ nat e, 10 ^ nat (- e))"

definition ParseFloat :: "string \<Rightarrow> nat \<Rightarrow> 64 word \<times> num_err option" where
  "ParseFloat s bitSize = (case sign_of s of (neg, r) \<Rightarrow>
     (case read_float r of
        None \<Rightarrow> (0, Some ErrSyntax)
      | Some (m, e) \<Rightarrow>
         (case decimal_ratio m e of (n, d) \<Rightarrow>
            let mbits = (if bitSize = 32 then 23 else 52);
                bias = (if bitSize = 32 then 127 else 1023);
                inf = (if bitSize = 32 then 255 * 2 ^ 23 else 2047 * 2 ^ 52);
                v = (if m = 0 then 0 else min inf (round_ratio mbits bias n d));
                w = (if neg then 2 ^ (bitSize - 1) else 0) + v
            in (if bitSize = 32 then f64_of_f32 (word_of_nat w) else word_of_nat w,
                if v = inf then Some ErrRange else None))))"

end
