(* ===== verification/Gem_Programs.thy ===== *)
theory Gem_Programs
  imports Gem_Remote Go_Text "HOL-Library.AList"
begin

text \<open>
  Process programs: the store of \<open>gem/process_programs.go\<close>, the handlers of
  \<open>gem/process_program_handlers.go\<close>, the messages S7F3 to S7F6 of \<open>gem/status_equipment_messages.go\<close>
  and the parser of the host in \<open>gem/status_equipment_client.go\<close>.

  The store is an association list; the order in which \<open>list\<close> yields the programs is unspecified in Go
  and is here that of the association list. The upload and request handlers of the application are
  functions that may change its state.
\<close>

section \<open>The store\<close>

record process_program =
  pp_info :: id_info
  pp_Body :: string

type_synonym program_store = "(string \<times> process_program) list"

definition newProcessProgram :: "goval \<Rightarrow> string \<Rightarrow> process_program res go" where
  "newProcessProgram i body = res_bind (newIDInfo i) (\<lambda>info.
     Inr (Inr \<lparr>pp_info = info, pp_Body = body\<rparr>))"

definition store_put :: "process_program \<Rightarrow> program_store \<Rightarrow> program_store" where
  "store_put pp s = AList.update (id_key (pp_info pp)) pp s"

definition store_get :: "program_store \<Rightarrow> string \<Rightarrow> process_program option" where
  "store_get s key = map_of s key"

definition store_list :: "program_store \<Rightarrow> process_program list" where
  "store_list s = map snd s"

definition store_delete :: "string \<Rightarrow> program_store \<Rightarrow> program_store" where
  "store_delete key s = AList.delete key s"

definition ensureProcessProgramKey :: "goval \<Rightarrow> string res go" where
  "ensureProcessProgramKey i = res_bind (newIDInfo i) (\<lambda>info. Inr (Inr (id_key info)))"

definition RegisterProcessProgram ::
  "device_type \<Rightarrow> goval \<Rightarrow> string \<Rightarrow> program_store \<Rightarrow> (unit res \<times> program_store) go" where
  "RegisterProcessProgram deviceType ppid body s =
     (if deviceType \<noteq> DeviceEquipment then Inr (Inl ErrOperationNotSupported, s)
      else go_bind (newProcessProgram ppid body) (\<lambda>r. case r of
          Inl e \<Rightarrow> Inr (Inl e, s)
        | Inr program \<Rightarrow> Inr (Inr (), store_put program s)))"

definition processProgram :: "goval \<Rightarrow> program_store \<Rightarrow> process_program res go" where
  "processProgram ppid s = res_bind (ensureProcessProgramKey ppid) (\<lambda>key. case store_get s key of
      Some program \<Rightarrow> Inr (Inr program)
    | None \<Rightarrow> Inr (Inl (Err ''process program not found'')))"

section \<open>Messages\<close>

definition buildS7F3 :: "id_info \<Rightarrow> string \<Rightarrow> data_message go" where
  "buildS7F3 ppid programBody = go_bind (NewASCIINode programBody) (\<lambda>b.
     go_bind (pair_node (id_node ppid) b) (\<lambda>payload.
       NewDataMessage ''ProcessProgramSend'' 7 3 1 ''H->E'' payload))"

definition buildS7F4 :: "64 word \<Rightarrow> data_message go" where
  "buildS7F4 ack = ack_message ''ProcessProgramAcknowledge'' 7 4 ''H<-E'' ack"

definition buildS7F5 :: "id_info \<Rightarrow> data_message go" where
  "buildS7F5 ppid = NewDataMessage ''ProcessProgramRequest'' 7 5 1 ''H->E'' (id_node ppid)"

definition clamp_ack :: "64 word \<Rightarrow> nat" where
  "clamp_ack ack = (if sint ack < 0 then 0 else if 255 < sint ack then 255 else nat (sint ack))"

text \<open>\<open>NewASCIINode(programBody)\<close> is evaluated before the acknowledge code is looked at.\<close>

definition buildS7F6 :: "item option \<Rightarrow> string \<Rightarrow> 64 word \<Rightarrow> data_message go" where
  "buildS7F6 ppid programBody ack = go_bind (NewASCIINode programBody) (\<lambda>b0.
     go_bind (if ack \<noteq> 0 then NewASCIINode [] else Inr b0) (\<lambda>bodyNode.
     go_bind (NewBinaryNode [VString (''0b'' @ bin_nat (clamp_ack ack))]) (\<lambda>ackNode.
     go_bind (list_node [or_empty ppid, bodyNode, ackNode]) (\<lambda>payload.
       NewDataMessage ''ProcessProgramData'' 7 6 0 ''H<-E'' payload))))"

section \<open>Handlers\<close>

type_synonym 'w upload_handler = "goval \<Rightarrow> string \<Rightarrow> 'w \<Rightarrow> 64 word \<times> 'w"
type_synonym 'w request_handler = "goval \<Rightarrow> 'w \<Rightarrow> (string \<times> 64 word) \<times> 'w"

definition onS7F3 ::
  "'w upload_handler option \<Rightarrow> data_message option \<Rightarrow> program_store \<Rightarrow> 'w
     \<Rightarrow> data_message go \<times> program_store \<times> 'w" where
  "onS7F3 handler msg s w = (case msg of
      None \<Rightarrow> (buildS7F4 1, s, w)
    | Some m \<Rightarrow> (case res_bind (Inr (msg_Get m 0)) (\<lambda>n. newIDInfoFromNode (Some n)) of
          Inl e \<Rightarrow> (Inl e, s, w)
        | Inr (Inl e) \<Rightarrow> (buildS7F4 1, s, w)
        | Inr (Inr ppidInfo) \<Rightarrow> (case msg_Get m 1 of
              Inl e \<Rightarrow> (buildS7F4 1, s, w)
            | Inr bodyNode \<Rightarrow> (let body = read_text bodyNode in
                case (case handler of None \<Rightarrow> (0, w) | Some f \<Rightarrow> f (id_raw ppidInfo) body w) of (ack, w') \<Rightarrow>
                  if ack \<noteq> 0 then (buildS7F4 ack, s, w')
                  else (case newProcessProgram (id_raw ppidInfo) body of
                      Inl e \<Rightarrow> (Inl e, s, w')
                    | Inr (Inl e) \<Rightarrow> (buildS7F4 1, s, w')
                    | Inr (Inr program) \<Rightarrow> (buildS7F4 0, store_put program s, w'))))))"

text \<open>The item with the program id of S7F5: the message body, or its first element.\<close>

definition request_ppid :: "data_message option \<Rightarrow> item res" where
  "request_ppid msg = go_bind (message_body msg) (\<lambda>root. case as_list root of
      None \<Rightarrow> Inr root
    | Some [] \<Rightarrow> Inl (Err ''empty'')
    | Some (first # _) \<Rightarrow> Inr first)"

definition onS7F5 ::
  "'w request_handler option \<Rightarrow> data_message option \<Rightarrow> program_store \<Rightarrow> 'w \<Rightarrow> data_message go \<times> 'w" where
  "onS7F5 handler msg s w = (case res_bind (Inr (request_ppid msg)) (\<lambda>n. newIDInfoFromNode (Some n)) of
      Inl e \<Rightarrow> (Inl e, w)
    | Inr (Inl e) \<Rightarrow> (buildS7F6 (Some EmptyNode) [] 1, w)
    | Inr (Inr ppidInfo) \<Rightarrow>
       (case (case handler of
            Some f \<Rightarrow> f (id_raw ppidInfo) w
          | None \<Rightarrow> ((case store_get s (id_key ppidInfo) of
                Some program \<Rightarrow> (pp_Body program, 0) | None \<Rightarrow> ([], 1)), w)) of
          ((body, ack), w') \<Rightarrow> (buildS7F6 (Some (id_node ppidInfo)) body ack, w')))"

section \<open>What the host reads\<close>

text \<open>A binary body becomes text byte by byte; a missing acknowledge code is 0.\<close>

definition parseProcessProgramResponse :: "data_message option \<Rightarrow> (string \<times> int) res" where
  "parseProcessProgramResponse msg = go_bind (list_body msg) (\<lambda>es. case es of
      ppid # bodyNode # rest \<Rightarrow> go_bind (case bodyNode of
          ANode a \<Rightarrow> Inr (an_value a)
        | BNode b \<Rightarrow> Inr (string_of_bytes (map word_of_int (bn_values b)))
        | _ \<Rightarrow> Inl (Err ''unsupported PPBODY node type'')) (\<lambda>body.
        case rest of
          [] \<Rightarrow> Inr (body, 0)
        | ackNode # _ \<Rightarrow> (case ackNode of
              BNode b \<Rightarrow> (case bn_values b of [] \<Rightarrow> Inl (Err ''invalid ack payload'') | v # _ \<Rightarrow> Inr (body, v))
            | _ \<Rightarrow> Inl (Err ''expected binary ack'')))
    | _ \<Rightarrow> Inl (Err ''malformed S7F6 payload''))"

section \<open>Lemmas\<close>

interpretation programs: registry store_get "\<lambda>k. store_put" store_delete "\<lambda>s. True"
  "\<lambda>k pp s. id_key (pp_info pp) = k"
  by unfold_locales
    (auto simp: store_get_def store_put_def store_delete_def update_conv' delete_conv')

lemma parse_bits_append: "parse_bits n xs = Some m \<Longrightarrow> m < 2 ^ 63 \<Longrightarrow>
    parse_bits n (xs @ [if b then CHR ''1'' else CHR ''0'']) = Some (2 * m + (if b then 1 else 0))"
  by (induction n xs rule: parse_bits.induct) (auto split: if_splits)

lemma underscores_digits: "set ds \<subseteq> {CHR ''0'', CHR ''1''} \<Longrightarrow> ds \<noteq> [] \<or> b \<Longrightarrow> underscores_ok b ds"
  by (induction ds arbitrary: b) auto

lemma parse_bits_bin_nat: "n < 2 ^ 32 \<Longrightarrow> parse_bits 0 (bin_nat n) = Some n"
proof (induction n rule: bin_nat.induct)
  case (1 n)
  show ?case
  proof (cases "n < 2")
    case True
    have "bin_nat 0 = ''0''" "bin_nat (Suc 0) = ''1''" by (simp_all add: bin_nat.simps)
    moreover have "n = 0 \<or> n = Suc 0" using True by auto
    ultimately show ?thesis by auto
  next
    case False
    then have "parse_bits 0 (bin_nat (n div 2)) = Some (n div 2)" using 1 by simp
    moreover have "n div 2 < 2 ^ 63" using 1(2) by simp
    moreover have "2 * (n div 2) + (if n mod 2 = 1 then 1 else 0) = n" by presburger
    ultimately show ?thesis
      using False parse_bits_append [of 0 "bin_nat (n div 2)" "n div 2" "n mod 2 = 1"]
      unfolding bin_nat.simps [of n] by (simp only: if_False)
  qed
qed

lemma parse_int_0b_bin_nat: "n < 256 \<Longrightarrow> parse_int_0b (''0b'' @ bin_nat n) = int n"
proof -
  assume n: "n < 256"
  then have "parse_bits 0 (bin_nat n) = Some n" by (intro parse_bits_bin_nat) simp
  moreover have "underscores_ok True (bin_nat n)" using bin_nat_digits [of n] by (intro underscores_digits) auto
  ultimately show ?thesis using n bin_nat_digits [of n] by (simp add: parse_int_0b_def)
qed

lemma ack_0b_node:
  "NewBinaryNode [VString (''0b'' @ bin_nat (clamp_ack ack))] =
     Inr (BNode \<lparr>bn_values = [int (clamp_ack ack)], bn_variables = [], bn_symbol = ''binary''\<rparr>)"
proof -
  have c: "clamp_ack ack < 256" by (auto simp: clamp_ack_def)
  then show ?thesis
    using NewBinaryNode_ok [of "[VString (''0b'' @ bin_nat (clamp_ack ack))]" "\<lambda>_. int (clamp_ack ack)"]
      parse_int_0b_bin_nat [OF c]
    by (simp add: binary_value_def MAX_BYTE_SIZE_def)
qed

end
