(* ===== verification/Gem_Clock.thy ===== *)
theory Gem_Clock
  imports Gem_Alarms
begin

text \<open>
  The clock of a GEM equipment: \<open>gem/clock.go\<close> and \<open>gem/clock_handlers.go\<close>.

  A \<open>time.Time\<close> is what its clock shows, date, time of day and nanoseconds, and its location, given by how
  many seconds the clock is ahead of UTC; years are from 0 to 9999. The layout \<open>"20060102150405"\<close> of the
  standard library prints what the clock shows without the nanoseconds and without the location, and reading it
  gives a time in UTC. \<open>instant\<close> is the point in time. A time provider may read the system time, which
  it gets as its first argument; the default provider \<open>time.Now\<close> returns it, in the local time zone.
\<close>

section \<open>Times\<close>

record civil_time =
  t_year :: nat
  t_month :: nat
  t_day :: nat
  t_hour :: nat
  t_minute :: nat
  t_second :: nat
  t_nanosecond :: nat
  t_offset :: int

text \<open>\<open>time.daysIn\<close>\<close>

definition leap_year :: "nat \<Rightarrow> bool" where
  "leap_year y \<longleftrightarrow> y mod 4 = 0 \<and> (y mod 100 \<noteq> 0 \<or> y mod 400 = 0)"

definition daysIn :: "nat \<Rightarrow> nat \<Rightarrow> nat" where
  "daysIn m y = (if m = 2 then (if leap_year y then 29 else 28)
     else if m \<in> {4, 6, 9, 11} then 30 else 31)"

definition civil :: "civil_time \<Rightarrow> bool" where
  "civil t \<longleftrightarrow> t_year t < 10000 \<and> 1 \<le> t_month t \<and> t_month t \<le> 12 \<and> 1 \<le> t_day t
     \<and> t_day t \<le> daysIn (t_month t) (t_year t) \<and> t_hour t < 24 \<and> t_minute t < 60 \<and> t_second t < 60
     \<and> t_nanosecond t < 10 ^ 9"

text \<open>The point in time of a clock reading, in nanoseconds since the beginning of the year 0 in UTC.\<close>

definition days_before :: "civil_time \<Rightarrow> nat" where
  "days_before t = sum_list (map (\<lambda>y. if leap_year y then 366 else 365) [0..<t_year t])
     + sum_list (map (\<lambda>m. daysIn m (t_year t)) [1..<t_month t]) + (t_day t - 1)"

definition instant :: "civil_time \<Rightarrow> int" where
  "instant t = (int (((days_before t * 24 + t_hour t) * 60 + t_minute t) * 60 + t_second t) - t_offset t) * 10 ^ 9
     + int (t_nanosecond t)"

text \<open>\<open>n\<close> in at least \<open>k\<close> digits.\<close>

definition padded :: "nat \<Rightarrow> nat \<Rightarrow> string" where
  "padded k n = replicate (k - length (dec_nat n)) CHR ''0'' @ dec_nat n"

text \<open>\<open>t.Format("20060102150405")\<close> and \<open>time.Parse("20060102150405", s)\<close> of a string of 14 bytes.\<close>

definition format_time :: "civil_time \<Rightarrow> string" where
  "format_time t = padded 4 (t_year t) @ padded 2 (t_month t) @ padded 2 (t_day t) @ padded 2 (t_hour t)
     @ padded 2 (t_minute t) @ padded 2 (t_second t)"

definition parse_time :: "string \<Rightarrow> civil_time res" where
  "parse_time s =
     (if length s \<noteq> 14 \<or> \<not> list_all is_digit s then Inl (Err ''parsing time'')
      else let num = (\<lambda>lo hi. undec (slice lo hi s));
               t = \<lparr>t_year = num 0 4, t_month = num 4 6, t_day = num 6 8, t_hour = num 8 10,
                    t_minute = num 10 12, t_second = num 12 14, t_nanosecond = 0, t_offset = 0\<rparr>
           in if civil t then Inr t else Inl (Err ''parsing time: out of range''))"

section \<open>The clock manager\<close>

type_synonym 'w time_provider = "civil_time \<Rightarrow> 'w \<Rightarrow> civil_time"
type_synonym 'w clock_sync_handler = "civil_time \<Rightarrow> 'w \<Rightarrow> (byte \<times> go_error option) \<times> 'w"

record 'w clock_manager =
  cm_timeProvider :: "'w time_provider option"
  cm_clockSyncHandler :: "'w clock_sync_handler option"

definition NewClockManager :: "'w clock_manager" where
  "NewClockManager = \<lparr>cm_timeProvider = Some (\<lambda>now w. now), cm_clockSyncHandler = None\<rparr>"

definition SetTimeProvider :: "'w time_provider option \<Rightarrow> 'w clock_manager \<Rightarrow> 'w clock_manager" where
  "SetTimeProvider p c = c\<lparr>cm_timeProvider := p\<rparr>"

definition SetClockSyncHandler :: "'w clock_sync_handler option \<Rightarrow> 'w clock_manager \<Rightarrow> 'w clock_manager" where
  "SetClockSyncHandler h c = c\<lparr>cm_clockSyncHandler := h\<rparr>"

definition GetTime :: "civil_time \<Rightarrow> 'w clock_manager \<Rightarrow> 'w \<Rightarrow> civil_time" where
  "GetTime now c w = (case cm_timeProvider c of None \<Rightarrow> now | Some p \<Rightarrow> p now w)"

definition GetFormattedTime :: "civil_time \<Rightarrow> 'w clock_manager \<Rightarrow> 'w \<Rightarrow> string" where
  "GetFormattedTime now c w = format_time (GetTime now c w) @ ''00''"

definition ParseSEMITime :: "string \<Rightarrow> civil_time res" where
  "ParseSEMITime timeStr =
     (if length timeStr < 14 then Inl (Err ''gem: invalid SEMI time format'')
      else parse_time (take 14 timeStr))"

definition HandleTimeSet :: "'w clock_manager \<Rightarrow> civil_time \<Rightarrow> 'w \<Rightarrow> byte \<times> 'w" where
  "HandleTimeSet c requestedTime w = (case cm_clockSyncHandler c of
      None \<Rightarrow> (1, w)
    | Some h \<Rightarrow> (case h requestedTime w of ((tiack, err), w') \<Rightarrow> (if err \<noteq> None then 1 else tiack, w')))"

section \<open>Handlers\<close>

definition buildS2F32 :: "byte \<Rightarrow> data_message go" where
  "buildS2F32 tiack = go_bind (NewBinaryNode [VInt (ucast tiack)])
     (\<lambda>body. NewDataMessage ''DateTimeSetAck'' 2 32 0 ''E->H'' body)"

definition onS2F17 :: "civil_time \<Rightarrow> 'w clock_manager \<Rightarrow> 'w \<Rightarrow> data_message go" where
  "onS2F17 now c w = go_bind (NewASCIINode (GetFormattedTime now c w))
     (\<lambda>body. NewDataMessage ''DateTimeData'' 2 18 0 ''E->H'' body)"

text \<open>The acknowledge code and the application state; \<open>onS2F31\<close> then builds the answer.\<close>

definition S2F31_ack :: "'w clock_manager \<Rightarrow> data_message \<Rightarrow> 'w \<Rightarrow> byte \<times> 'w" where
  "S2F31_ack c msg w = (case dm_dataItem msg of
      ANode a \<Rightarrow>
        if length (an_value a) < 14 then (1, w)
        else (case ParseSEMITime (an_value a) of
            Inl e \<Rightarrow> (1, w)
          | Inr requestedTime \<Rightarrow> HandleTimeSet c requestedTime w)
    | _ \<Rightarrow> (1, w))"

definition onS2F31 :: "'w clock_manager \<Rightarrow> data_message \<Rightarrow> 'w \<Rightarrow> data_message go \<times> 'w" where
  "onS2F31 c msg w = (case S2F31_ack c msg w of (ack, w') \<Rightarrow> (buildS2F32 ack, w'))"

section \<open>Lemmas\<close>

lemma clock_answers_panic: "panics (buildS2F32 b)" "panics (onS2F17 now c w)"
proof -
  have bad: "panics (NewDataMessage name s f w ''E->H'' body)" for name s f w body
    by (rule NewDataMessage_bad_direction) simp
  show "panics (buildS2F32 b)"
    using panics_bind [of "\<lambda>body. NewDataMessage ''DateTimeSetAck'' 2 32 0 ''E->H'' body"
        "NewBinaryNode [VInt (ucast b)]"] bad factories_fuel_ok(2) [of "[VInt (ucast b)]"]
    by (auto simp: buildS2F32_def fuel_ok_def)
  show "panics (onS2F17 now c w)"
    using panics_bind [of "\<lambda>body. NewDataMessage ''DateTimeData'' 2 18 0 ''E->H'' body"
        "NewASCIINode (GetFormattedTime now c w)"] bad factories_fuel_ok(1) [of "GetFormattedTime now c w"]
    by (auto simp: onS2F17_def fuel_ok_def)
qed

lemma undec_zeros: "undec (replicate k CHR ''0'' @ s) = undec s"
  by (induction k) (simp_all add: undec_def)

lemma undec_padded [simp]: "undec (padded k n) = n"
  by (simp add: padded_def undec_zeros undec_dec_nat)

lemma dec_nat_length: "n < 10 ^ k \<Longrightarrow> 0 < k \<Longrightarrow> length (dec_nat n) \<le> k"
proof (induction n arbitrary: k rule: dec_nat.induct)
  case (1 n)
  show ?case
  proof (cases "n < 10")
    case False
    then obtain j where j: "k = Suc j" "0 < j" using 1(2,3) by (cases k; cases "k = 1") auto
    then have "n div 10 < 10 ^ j" using 1(2) by (simp add: div_less_iff_less_mult mult.commute)
    then show ?thesis using 1(1) [OF _ _ j(2)] False j by (simp add: dec_nat.simps [of n])
  qed (use 1 in \<open>simp add: dec_nat.simps [of n]\<close>)
qed

lemma padded_length: "n < 10 ^ k \<Longrightarrow> 0 < k \<Longrightarrow> length (padded k n) = k"
  using dec_nat_length [of n k] by (simp add: padded_def)

lemma padded_digits: "list_all is_digit (padded k n)"
  using dec_nat_digits [of _ n] by (fastforce simp: padded_def list_all_iff is_digit_def)

lemma format_time_parts:
  assumes "civil t"
  shows "length (padded 4 (t_year t)) = 4" "length (padded 2 (t_month t)) = 2"
    "length (padded 2 (t_day t)) = 2" "length (padded 2 (t_hour t)) = 2"
    "length (padded 2 (t_minute t)) = 2" "length (padded 2 (t_second t)) = 2" "length (format_time t) = 14"
proof -
  have d: "daysIn m y \<le> 31" for m y by (simp add: daysIn_def)
  have "t_day t < 100" using assms d [of "t_month t" "t_year t"] by (auto simp: civil_def)
  then show len: "length (padded 4 (t_year t)) = 4" "length (padded 2 (t_month t)) = 2"
    "length (padded 2 (t_day t)) = 2" "length (padded 2 (t_hour t)) = 2"
    "length (padded 2 (t_minute t)) = 2" "length (padded 2 (t_second t)) = 2"
    using assms by (auto simp: civil_def intro!: padded_length)
  then show "length (format_time t) = 14" by (simp add: format_time_def)
qed

lemma parse_format_time:
  assumes "civil t"
  shows "ParseSEMITime (format_time t @ s) = Inr (t\<lparr>t_nanosecond := 0, t_offset := 0\<rparr>)"
proof -
  note len = format_time_parts(1-6) [OF assms] and l = format_time_parts(7) [OF assms]
  have dig: "list_all is_digit (format_time t)" by (simp add: format_time_def padded_digits)
  have parts: "undec (slice 0 4 (format_time t)) = t_year t" "undec (slice 4 6 (format_time t)) = t_month t"
    "undec (slice 6 8 (format_time t)) = t_day t" "undec (slice 8 10 (format_time t)) = t_hour t"
    "undec (slice 10 12 (format_time t)) = t_minute t" "undec (slice 12 14 (format_time t)) = t_second t"
    by (simp_all add: format_time_def slice_def len)
  have t: "\<lparr>t_year = t_year t, t_month = t_month t, t_day = t_day t, t_hour = t_hour t,
      t_minute = t_minute t, t_second = t_second t, t_nanosecond = 0, t_offset = 0\<rparr>
      = t\<lparr>t_nanosecond := 0, t_offset := 0\<rparr>"
    by simp
  have "civil (t\<lparr>t_nanosecond := 0, t_offset := 0\<rparr>)" using assms by (simp add: civil_def)
  then have "parse_time (format_time t) = Inr (t\<lparr>t_nanosecond := 0, t_offset := 0\<rparr>)"
    unfolding parse_time_def Let_def parts t using l dig by simp
  then show ?thesis using l by (simp add: ParseSEMITime_def)
qed

text \<open>Reading a clock as one in UTC moves the point in time by the offset, and drops the nanoseconds.\<close>

lemma instant_as_UTC:
  "instant (t\<lparr>t_nanosecond := 0, t_offset := 0\<rparr>) = instant t + t_offset t * 10 ^ 9 - int (t_nanosecond t)"
  by (simp add: instant_def days_before_def algebra_simps)

lemma instant_kept_iff:
  assumes "civil t"
  shows "instant (t\<lparr>t_nanosecond := 0, t_offset := 0\<rparr>) = instant t \<longleftrightarrow> t_offset t = 0 \<and> t_nanosecond t = 0"
proof
  have n: "int (t_nanosecond t) < 1000000000" using assms by (simp add: civil_def)
  assume "instant (t\<lparr>t_nanosecond := 0, t_offset := 0\<rparr>) = instant t"
  then have e: "t_offset t * 1000000000 = int (t_nanosecond t)" unfolding instant_as_UTC by simp
  then have "t_offset t < 1" "0 \<le> t_offset t" using n by linarith+
  then have "t_offset t = 0" by simp
  then show "t_offset t = 0 \<and> t_nanosecond t = 0" using e by simp
qed (simp add: instant_as_UTC)

end
