(* ===== verification/Gem_Handler.thy ===== *)
theory Gem_Handler
  imports Hsms_Protocol Gem_Control Gem_Events Gem_Alarms Gem_Programs Gem_Clock
begin

text \<open>
  The GEM handler: \<open>gem/handler.go\<close> with \<open>gem/communication_state.go\<close>, the options of
  \<open>gem/config.go\<close>, and the parts of \<open>gem/alarm.go\<close> and \<open>gem/collection_event_handlers.go\<close> that send.

  The handler is the application of the HSMS protocol: the state \<open>hp_app\<close> of the protocol is the record
  \<open>gem_handler\<close>, and \<open>NewGemHandler\<close> registers its handlers there. Every method is one step; a
  goroutine that waits for a reply is two, \<open>_begin\<close> up to the wait and \<open>_end\<close> after it, with the flag
  that its deferred function resets. Goroutines that are started are counted. A timer is the seconds
  it was armed with, \<open>None\<close> when it is stopped or has fired. The control state machine of a handler
  that \<open>NewGemHandler\<close> made is never nil. Log lines are left out.
\<close>

section \<open>State\<close>

datatype comm_state = CommunicationStateDisabled | CommunicationStateNotCommunicating
  | CommunicationStateWaitCRA | CommunicationStateWaitDelay | CommunicationStateCommunicating

record 'w gem_handler = "'w gem_coll" +
  g_state :: comm_state
  g_waitCRATimer :: "int option"
  g_waitDelayTimer :: "int option"
  g_establishWait :: int
  g_control :: control
  g_enabled :: bool
  g_handshakeInProgress :: bool
  g_controlAttemptInProgress :: bool
  g_waiters :: "nat list"
  g_woken :: "nat list"
  g_monitor :: bool
  g_attempts :: nat
  g_establishes :: nat
  g_handshakes :: nat
  g_triggered :: "string list"
  g_alarms :: alarms
  g_programs :: program_store
  g_uploadHandler :: "'w upload_handler option"
  g_requestHandler :: "'w request_handler option"
  g_remoteCommandHandler :: "'w remote_handler option"
  g_clock :: "'w clock_manager"
  g_now :: civil_time
  g_HandlerCommunicating :: "(unit, 'w) event"
  g_ControlStateChanged :: "(control_state \<times> control_state \<times> online_mode, 'w) event"
  g_AlarmReceived :: "(alarm_event, 'w) event"
  g_AlarmAckReceived :: "(int, 'w) event"
  g_RemoteCommandReceived :: "(remote_request, 'w) event"

type_synonym 'w gem = "'w gem_handler hsms_protocol"

text \<open>A step of the handler within the protocol.\<close>

definition on_gem :: "('w gem_handler \<Rightarrow> 'w gem_handler) \<Rightarrow> 'w gem \<Rightarrow> 'w gem" where
  "on_gem f p = p\<lparr>hp_app := f (hp_app p)\<rparr>"

section \<open>The communication state\<close>

definition stopTimers :: "'w gem_handler \<Rightarrow> 'w gem_handler" where
  "stopTimers g = g\<lparr>g_waitCRATimer := None, g_waitDelayTimer := None\<rparr>"

definition setState :: "comm_state \<Rightarrow> 'w gem_handler \<Rightarrow> 'w gem_handler" where
  "setState s g = (if g_state g = s then g else stopTimers (g\<lparr>g_state := s\<rparr>))"

definition setStateWithWaitCRA :: "comm_state \<Rightarrow> int \<Rightarrow> 'w gem_handler \<Rightarrow> 'w gem_handler" where
  "setStateWithWaitCRA s d g =
     (let g1 = (if g_state g = s then g\<lparr>g_waitCRATimer := None\<rparr> else stopTimers (g\<lparr>g_state := s\<rparr>))
      in g1\<lparr>g_waitCRATimer := Some d\<rparr>)"

definition setStateWithWaitDelay :: "comm_state \<Rightarrow> int \<Rightarrow> 'w gem_handler \<Rightarrow> 'w gem_handler" where
  "setStateWithWaitDelay s d g =
     (let g1 = (if g_state g = s then g\<lparr>g_waitDelayTimer := None\<rparr> else stopTimers (g\<lparr>g_state := s\<rparr>))
      in g1\<lparr>g_waitDelayTimer := Some d\<rparr>)"

definition fire :: "('d, 'w) event \<Rightarrow> 'd \<Rightarrow> 'w gem_handler \<Rightarrow> 'w gem_handler" where
  "fire e d g = g\<lparr>g_world := Fire e d (g_world g)\<rparr>"

section \<open>The control state\<close>

definition initiateAttemptOnline :: "'w gem_handler \<Rightarrow> 'w gem_handler" where
  "initiateAttemptOnline g =
     (if g_controlAttemptInProgress g then g
      else g\<lparr>g_controlAttemptInProgress := True, g_attempts := g_attempts g + 1\<rparr>)"

definition onControlStateTransition :: "control_state \<Rightarrow> control_state \<Rightarrow> 'w gem_handler \<Rightarrow> 'w gem_handler" where
  "onControlStateTransition prev next g =
     (if prev = next then g
      else let g1 = (if prev = ControlStateAttemptOnline \<and> next \<noteq> ControlStateAttemptOnline
                     then g\<lparr>g_controlAttemptInProgress := False\<rparr> else g);
               g2 = fire (g_ControlStateChanged g1) (prev, next, ct_onlineMode (g_control g1)) g1
           in if next = ControlStateAttemptOnline then initiateAttemptOnline g2 else g2)"

definition transitionControl :: "control_op \<Rightarrow> 'w gem_handler \<Rightarrow> unit res \<times> 'w gem_handler" where
  "transitionControl transition g = (let prev = ct_state (g_control g) in
     case transition (g_control g) of (r, sm) \<Rightarrow>
       let g1 = g\<lparr>g_control := sm\<rparr> in
       case r of Inl e \<Rightarrow> (Inl e, g1)
       | Inr _ \<Rightarrow> (Inr (), onControlStateTransition prev (ct_state sm) g1))"

text \<open>The transition of \<open>SwitchControlOnline\<close> starts an attempt when one is due.\<close>

definition SwitchControlOnline :: "'w gem_handler \<Rightarrow> unit res \<times> 'w gem_handler" where
  "SwitchControlOnline g = (let s = ct_state (g_control g) in
     if s = ControlStateEquipmentOffline \<or> s = ControlStateHostOffline then transitionControl SwitchOnline g
     else transitionControl (\<lambda>sm. (Inr (), sm))
       (if s = ControlStateAttemptOnline then initiateAttemptOnline g else g))"

definition SwitchControlOffline :: "'w gem_handler \<Rightarrow> unit res \<times> 'w gem_handler" where
  "SwitchControlOffline g = transitionControl
     (\<lambda>sm. if isOnlineStateLocked sm then SwitchOffline sm else (Inr (), sm)) g"

definition SwitchControlOnlineLocal :: "'w gem_handler \<Rightarrow> unit res \<times> 'w gem_handler" where
  "SwitchControlOnlineLocal g = transitionControl SwitchOnlineLocal g"

definition SwitchControlOnlineRemote :: "'w gem_handler \<Rightarrow> unit res \<times> 'w gem_handler" where
  "SwitchControlOnlineRemote g = transitionControl SwitchOnlineRemote g"

section \<open>Changes of the communication state\<close>

definition lost_transition :: control_op where
  "lost_transition sm =
     (if ct_state sm \<in> {ControlStateOnline, ControlStateOnlineLocal, ControlStateOnlineRemote} then SwitchOffline sm
      else if ct_state sm \<in> {ControlStateAttemptOnline, ControlStateHostOffline}
        then AttemptOnlineFailEquipmentOffline sm
      else (Inr (), sm))"

definition onCommunicationStateChanged :: "comm_state \<Rightarrow> comm_state \<Rightarrow> 'w gem_handler \<Rightarrow> 'w gem_handler" where
  "onCommunicationStateChanged prev next g =
     (if prev = next then g
      else if next = CommunicationStateCommunicating then
        (let g1 = g\<lparr>g_handshakeInProgress := False\<rparr>; s = ct_state (g_control g1) in
         if g_deviceType g1 \<noteq> DeviceEquipment then g1
         else if s = ControlStateEquipmentOffline \<or> s = ControlStateHostOffline
           then snd (transitionControl SwitchOnline g1)
         else if s = ControlStateAttemptOnline then initiateAttemptOnline g1
         else g1)
      else if next = CommunicationStateNotCommunicating then
        snd (transitionControl lost_transition (g\<lparr>g_handshakeInProgress := False\<rparr>))
      else g)"

definition setCommunicationState :: "comm_state \<Rightarrow> 'w gem_handler \<Rightarrow> 'w gem_handler" where
  "setCommunicationState s g = onCommunicationStateChanged (g_state g) s (setState s g)"

subsection \<open>Waiting for communication\<close>

text \<open>A waiter is a channel with room for one signal. \<open>WaitForCommunicating\<close> is known at once or
  registers the waiter; then it returns when it has been woken, or, with a positive timeout, when its
  timer fires. With both ready Go picks either.\<close>

definition WaitForCommunicating_begin :: "nat \<Rightarrow> 'w gem_handler \<Rightarrow> bool option \<times> 'w gem_handler" where
  "WaitForCommunicating_begin waiter g =
     (if g_state g = CommunicationStateCommunicating then (Some True, g)
      else (None, g\<lparr>g_waiters := g_waiters g @ [waiter]\<rparr>))"

definition removeWaiter :: "nat \<Rightarrow> 'w gem_handler \<Rightarrow> 'w gem_handler" where
  "removeWaiter target g = g\<lparr>g_waiters := remove1 target (g_waiters g)\<rparr>"

definition WaitForCommunicating_woken :: "nat \<Rightarrow> 'w gem_handler \<Rightarrow> bool option" where
  "WaitForCommunicating_woken waiter g = (if waiter \<in> set (g_woken g) then Some True else None)"

definition WaitForCommunicating_timeout :: "nat \<Rightarrow> 'w gem_handler \<Rightarrow> bool \<times> 'w gem_handler" where
  "WaitForCommunicating_timeout waiter g = (False, removeWaiter waiter g)"

definition notifyCommunicating :: "'w gem_handler \<Rightarrow> 'w gem_handler" where
  "notifyCommunicating g =
     (let g1 = g\<lparr>g_waiters := [], g_woken := g_woken g @ g_waiters g\<rparr>
      in fire (g_HandlerCommunicating g1) () g1)"

definition setCommunicating :: "'w gem_handler \<Rightarrow> 'w gem_handler" where
  "setCommunicating g =
     (let prev = g_state g; g1 = setState CommunicationStateCommunicating g;
          g2 = (if prev \<noteq> CommunicationStateCommunicating then notifyCommunicating g1 else g1)
      in onCommunicationStateChanged prev CommunicationStateCommunicating g2)"

definition scheduleRetry :: "'w gem_handler \<Rightarrow> 'w gem_handler" where
  "scheduleRetry g =
     (if \<not> g_enabled g then g
      else setStateWithWaitDelay CommunicationStateWaitDelay (g_establishWait g) g)"

definition ensureCommunicating :: "'w gem_handler \<Rightarrow> unit res" where
  "ensureCommunicating g =
     (if g_state g \<noteq> CommunicationStateCommunicating then Inl ErrNotCommunicating else Inr ())"

definition initiateHandshake :: "'w gem_handler \<Rightarrow> 'w gem_handler" where
  "initiateHandshake g =
     (if \<not> g_enabled g \<or> g_handshakeInProgress g then g
      else g\<lparr>g_handshakeInProgress := True, g_handshakes := g_handshakes g + 1\<rparr>)"

definition initiateEstablishCommunication :: "'w gem_handler \<Rightarrow> 'w gem_handler" where
  "initiateEstablishCommunication g =
     (if g_deviceType g \<noteq> DeviceEquipment \<or> g_handshakeInProgress g then g
      else g\<lparr>g_handshakeInProgress := True, g_establishes := g_establishes g + 1\<rparr>)"

section \<open>Messages\<close>

definition buildS1F1 :: "device_type \<Rightarrow> data_message go" where
  "buildS1F1 deviceType = list_message ''AreYouThere'' 1 1 1
     (if deviceType = DeviceEquipment then ''H<-E'' else ''H->E'') []"

definition buildS1F13 :: "data_message go" where
  "buildS1F13 = list_message ''EstablishCommRequest'' 1 13 1 ''H->E'' []"

definition buildS1F13Equipment :: "data_message go" where
  "buildS1F13Equipment = list_message ''EstablishCommRequest'' 1 13 1 ''H<-E'' []"

text \<open>\<open>NewListNode(NewASCIINode(mdln), NewASCIINode(softrev))\<close>\<close>

definition model_node :: "'w gem_handler \<Rightarrow> item go" where
  "model_node g = go_bind (NewASCIINode (g_mdln g)) (\<lambda>m. go_bind (NewASCIINode (g_softrev g)) (\<lambda>s.
     list_node [m, s]))"

definition buildS1F14Host :: "64 word \<Rightarrow> data_message go" where
  "buildS1F14Host commack = go_bind (NewBinaryNode [VInt commack]) (\<lambda>b. go_bind (list_node []) (\<lambda>l.
     list_message ''EstablishCommAck'' 1 14 0 ''H->E'' [b, l]))"

definition buildS1F14Equipment :: "64 word \<Rightarrow> 'w gem_handler \<Rightarrow> data_message go" where
  "buildS1F14Equipment commack g = go_bind (NewBinaryNode [VInt commack]) (\<lambda>b. go_bind (model_node g) (\<lambda>l.
     list_message ''EstablishCommAck'' 1 14 0 ''H<-E'' [b, l]))"

definition buildS1F2Host :: "data_message go" where
  "buildS1F2Host = go_bind (list_node []) (\<lambda>l. list_message ''AreYouThereAck'' 1 2 0 ''H->E'' [l])"

definition buildS1F2Equipment :: "'w gem_handler \<Rightarrow> data_message go" where
  "buildS1F2Equipment g = go_bind (model_node g) (\<lambda>l. list_message ''AreYouThereAck'' 1 2 0 ''H<-E'' [l])"

definition buildS1F16 :: "device_type \<Rightarrow> 64 word \<Rightarrow> data_message go" where
  "buildS1F16 deviceType oflack = go_bind (binary_list oflack) (\<lambda>body.
     NewDataMessage ''OfflineRequestAck'' 1 16 0 (if deviceType = DeviceHost then ''H->E'' else ''H<-E'') body)"

definition buildS1F18 :: "device_type \<Rightarrow> 64 word \<Rightarrow> data_message go" where
  "buildS1F18 deviceType onlack = go_bind (binary_list onlack) (\<lambda>body.
     NewDataMessage ''OnlineRequestAck'' 1 18 0 (if deviceType = DeviceHost then ''H->E'' else ''H<-E'') body)"

definition readCommAck :: "data_message option \<Rightarrow> int" where
  "readCommAck msg = (case msg of
      None \<Rightarrow> - 1
    | Some m \<Rightarrow> (case msg_Get m 0 of
          Inr (BNode b) \<Rightarrow> (case bn_values b of [] \<Rightarrow> - 1 | v # _ \<Rightarrow> v)
        | _ \<Rightarrow> - 1))"

section \<open>Goroutines and timers\<close>

text \<open>Going on-line. \<open>attempt_begin\<close> ends with the request it waits for, or with \<open>None\<close>.\<close>

definition attempt_done :: "control_op \<Rightarrow> 'w gem_handler \<Rightarrow> 'w gem_handler" where
  "attempt_done f g = (snd (transitionControl f g))\<lparr>g_controlAttemptInProgress := False\<rparr>"

definition attempt_begin :: "'w gem \<Rightarrow> ((32 word \<times> data_message) option \<times> 'w gem) go" where
  "attempt_begin p =
     (if ct_state (g_control (hp_app p)) \<noteq> ControlStateAttemptOnline
        then Inr (None, on_gem (\<lambda>g. g\<lparr>g_controlAttemptInProgress := False\<rparr>) p)
      else if g_state (hp_app p) \<noteq> CommunicationStateCommunicating
        then Inr (None, on_gem (attempt_done AttemptOnlineFailHostOffline) p)
      else go_bind (buildS1F1 (g_deviceType (hp_app p))) (\<lambda>m.
        go_bind (SendAndWait_begin (Some m) p) (\<lambda>(r, p'). case r of
            Inl e \<Rightarrow> Inr (None, on_gem (attempt_done AttemptOnlineFailHostOffline) p')
          | Inr w \<Rightarrow> Inr (Some w, p'))))"

definition attempt_end :: "32 word \<Rightarrow> data_message \<Rightarrow> 'w gem \<Rightarrow> 'w gem go" where
  "attempt_end systemID outgoing p = go_bind (SendAndWait_end systemID outgoing p) (\<lambda>(r, p'). Inr (case r of
      Inl e \<Rightarrow> on_gem (attempt_done AttemptOnlineFailHostOffline) p'
    | Inr resp \<Rightarrow>
        if dm_stream resp \<noteq> 1 \<or> dm_function resp \<noteq> 2
        then on_gem (attempt_done AttemptOnlineFailHostOffline) p'
        else on_gem (attempt_done AttemptOnlineSuccess) p'))"

definition handshake_done :: "'w gem_handler \<Rightarrow> 'w gem_handler" where
  "handshake_done g = g\<lparr>g_handshakeInProgress := False\<rparr>"

definition establish_begin :: "'w gem \<Rightarrow> ((32 word \<times> data_message) option \<times> 'w gem) go" where
  "establish_begin p =
     (if g_state (hp_app p) = CommunicationStateCommunicating then Inr (None, on_gem handshake_done p)
      else go_bind buildS1F13Equipment (\<lambda>m. go_bind (SendAndWait_begin (Some m) p) (\<lambda>(r, p'). case r of
          Inl e \<Rightarrow> Inr (None, on_gem handshake_done p')
        | Inr w \<Rightarrow> Inr (Some w, p'))))"

definition establish_end :: "32 word \<Rightarrow> data_message \<Rightarrow> 'w gem \<Rightarrow> 'w gem go" where
  "establish_end systemID outgoing p = go_bind (SendAndWait_end systemID outgoing p) (\<lambda>(r, p'). Inr (case r of
      Inl e \<Rightarrow> on_gem handshake_done p'
    | Inr resp \<Rightarrow>
        if readCommAck (Some resp) \<noteq> 0 then on_gem handshake_done p'
        else on_gem (handshake_done \<circ> setCommunicating) p'))"

text \<open>The wait for the answer to the S1F13 of a host, in seconds.\<close>

definition waitCRA_seconds :: "secs_timeout \<Rightarrow> int" where
  "waitCRA_seconds ts = (if t3ReplyTimeout ts \<le> 0 then 45 else t3ReplyTimeout ts)"

definition handshake_begin :: "'w gem \<Rightarrow> ((32 word \<times> data_message) option \<times> 'w gem) go" where
  "handshake_begin p =
     (let p1 = on_gem (setStateWithWaitCRA CommunicationStateWaitCRA (waitCRA_seconds (hp_timeouts p))) p in
      go_bind buildS1F13 (\<lambda>m. go_bind (SendAndWait_begin (Some m) p1) (\<lambda>(r, p'). case r of
          Inl e \<Rightarrow> Inr (None, on_gem (handshake_done \<circ> scheduleRetry) p')
        | Inr w \<Rightarrow> Inr (Some w, p'))))"

definition handshake_end :: "32 word \<Rightarrow> data_message \<Rightarrow> 'w gem \<Rightarrow> 'w gem go" where
  "handshake_end systemID outgoing p = go_bind (SendAndWait_end systemID outgoing p) (\<lambda>(r, p'). Inr (case r of
      Inl e \<Rightarrow> on_gem (handshake_done \<circ> scheduleRetry) p'
    | Inr resp \<Rightarrow>
        if readCommAck (Some resp) \<noteq> 0 then on_gem (handshake_done \<circ> scheduleRetry) p'
        else on_gem (handshake_done \<circ> setCommunicating) p'))"

text \<open>One tick of \<open>monitorLoop\<close>.\<close>

definition observe :: "'w gem \<Rightarrow> 'w gem" where
  "observe p = (let g = hp_app p in
     if \<not> g_enabled g then p
     else if \<not> hp_connected p then
       on_gem (\<lambda>g. setCommunicationState CommunicationStateNotCommunicating (g\<lparr>g_handshakeInProgress := False\<rparr>)) p
     else if g_deviceType g = DeviceHost \<and> hp_state p = StateConnectedSelected then
       (if g_state g = CommunicationStateCommunicating \<or> g_handshakeInProgress g then p
        else on_gem initiateHandshake p)
     else if g_deviceType g = DeviceEquipment \<and> hp_state p = StateConnectedSelected then
       (if g_state g = CommunicationStateCommunicating \<or> g_handshakeInProgress g then p
        else on_gem initiateEstablishCommunication p)
     else p)"

definition onWaitCRATimeout :: "'w gem_handler \<Rightarrow> 'w gem_handler" where
  "onWaitCRATimeout g =
     (if \<not> g_enabled g \<or> g_state g \<noteq> CommunicationStateWaitCRA then g else scheduleRetry g)"

definition onWaitDelayTimeout :: "'w gem \<Rightarrow> 'w gem" where
  "onWaitDelayTimeout p = (let g = hp_app p in
     if \<not> g_enabled g \<or> g_state g \<noteq> CommunicationStateWaitDelay then p
     else if g_deviceType g = DeviceHost \<and> hp_connected p \<and> hp_state p = StateConnectedSelected
       then on_gem initiateHandshake p
     else on_gem (setCommunicationState CommunicationStateNotCommunicating) p)"

text \<open>A timer that fires is no longer armed.\<close>

definition waitCRA_expire :: "'w gem \<Rightarrow> 'w gem" where
  "waitCRA_expire p = on_gem (\<lambda>g. onWaitCRATimeout (g\<lparr>g_waitCRATimer := None\<rparr>)) p"

definition waitDelay_expire :: "'w gem \<Rightarrow> 'w gem" where
  "waitDelay_expire p = onWaitDelayTimeout (on_gem (\<lambda>g. g\<lparr>g_waitDelayTimer := None\<rparr>) p)"

section \<open>Enabling and disabling\<close>

text \<open>\<open>Gem_Disable_begin\<close> ends where the protocol waits for the answer to a deselect request.\<close>

definition Gem_Enable :: "'w gem \<Rightarrow> 'w gem" where
  "Gem_Enable p =
     (if g_enabled (hp_app p) then p
      else on_gem (\<lambda>g. g\<lparr>g_monitor := True\<rparr>)
        (Enable (on_gem (\<lambda>g. setState CommunicationStateNotCommunicating (g\<lparr>g_enabled := True\<rparr>)) p)))"

definition Gem_Disable_begin :: "'w gem \<Rightarrow> (32 word option \<times> 'w gem) go" where
  "Gem_Disable_begin p =
     (if \<not> g_enabled (hp_app p) then Inr (None, p)
      else Disable_begin (on_gem (\<lambda>g. stopTimers
        ((setCommunicationState CommunicationStateNotCommunicating (g\<lparr>g_enabled := False\<rparr>))\<lparr>g_monitor := False\<rparr>)) p))"

section \<open>Message handlers\<close>

type_synonym 'w gem_reply = "data_message option res go \<times> 'w gem_handler"

definition reply :: "data_message go \<Rightarrow> data_message option res go" where
  "reply m = go_bind m (\<lambda>r. Inr (Inr (Some r)))"

definition onS1F1 :: "data_message \<Rightarrow> 'w gem_handler \<Rightarrow> 'w gem_reply" where
  "onS1F1 msg g = (reply (if g_deviceType g = DeviceHost then buildS1F2Host else buildS1F2Equipment g), g)"

definition onS1F13 :: "data_message \<Rightarrow> 'w gem_handler \<Rightarrow> 'w gem_reply" where
  "onS1F13 msg g = (let g1 = setCommunicating g in
     (reply (if g_deviceType g1 = DeviceHost then buildS1F14Host 0 else buildS1F14Equipment 0 g1), g1))"

definition onS1F14 :: "data_message \<Rightarrow> 'w gem_handler \<Rightarrow> 'w gem_reply" where
  "onS1F14 msg g =
     (Inr (Inr None), if readCommAck (Some msg) = 0 then setCommunicating g else scheduleRetry g)"

definition onS1F15 :: "data_message \<Rightarrow> 'w gem_handler \<Rightarrow> 'w gem_reply" where
  "onS1F15 msg g =
     (if g_deviceType g = DeviceHost then (reply (buildS1F16 (g_deviceType g) 1), g)
      else if isOnlineStateLocked (g_control g) then
        (case transitionControl RemoteOffline g of (r, g1) \<Rightarrow>
          (reply (buildS1F16 (g_deviceType g1) (case r of Inl e \<Rightarrow> 1 | Inr _ \<Rightarrow> 0)), g1))
      else (reply (buildS1F16 (g_deviceType g) 0), g))"

definition onS1F17 :: "data_message \<Rightarrow> 'w gem_handler \<Rightarrow> 'w gem_reply" where
  "onS1F17 msg g =
     (if g_deviceType g = DeviceHost then (reply (buildS1F18 (g_deviceType g) 1), g)
      else if ct_state (g_control g) = ControlStateHostOffline then
        (case transitionControl RemoteOnline g of (r, g1) \<Rightarrow>
          (reply (buildS1F18 (g_deviceType g1) (case r of Inl e \<Rightarrow> 1 | Inr _ \<Rightarrow> 0)), g1))
      else if isOnlineStateLocked (g_control g) then (reply (buildS1F18 (g_deviceType g) 2), g)
      else (reply (buildS1F18 (g_deviceType g) 1), g))"

text \<open>The handlers of the components, on the handler object.\<close>

definition reads_vars ::
  "(data_message option \<Rightarrow> 'w gem_handler \<Rightarrow> data_message go) \<Rightarrow> data_message \<Rightarrow> 'w gem_handler \<Rightarrow> 'w gem_reply" where
  "reads_vars f msg g = (reply (f (Some msg) g), g)"

definition writes_vars ::
  "(data_message option \<Rightarrow> 'w gem_handler \<Rightarrow> data_message go \<times> 'w gem_handler)
     \<Rightarrow> data_message \<Rightarrow> 'w gem_handler \<Rightarrow> 'w gem_reply" where
  "writes_vars f msg g = (case f (Some msg) g of (m, g1) \<Rightarrow> (reply m, g1))"

definition gem_onS5F1 :: "data_message \<Rightarrow> 'w gem_handler \<Rightarrow> 'w gem_reply" where
  "gem_onS5F1 msg g = (case onS5F1 (Fire (g_AlarmReceived g)) (Some msg) (g_world g) of
      (m, w) \<Rightarrow> (reply m, g\<lparr>g_world := w\<rparr>))"

definition gem_onS2F41 :: "data_message \<Rightarrow> 'w gem_handler \<Rightarrow> 'w gem_reply" where
  "gem_onS2F41 msg g = (case onS2F41 (g_deviceType g) (g_remoteCommandHandler g)
       (Fire (g_RemoteCommandReceived g)) (Some msg) (g_world g) of
     (m, w) \<Rightarrow> (go_bind m (\<lambda>r. Inr (Inr r)), g\<lparr>g_world := w\<rparr>))"

definition gem_onS2F17 :: "data_message \<Rightarrow> 'w gem_handler \<Rightarrow> 'w gem_reply" where
  "gem_onS2F17 msg g = (reply (onS2F17 (g_now g) (g_clock g) (g_world g)), g)"

definition gem_onS2F31 :: "data_message \<Rightarrow> 'w gem_handler \<Rightarrow> 'w gem_reply" where
  "gem_onS2F31 msg g = (case onS2F31 (g_clock g) msg (g_world g) of (m, w) \<Rightarrow> (reply m, g\<lparr>g_world := w\<rparr>))"

definition gem_onS5F3 :: "data_message \<Rightarrow> 'w gem_handler \<Rightarrow> 'w gem_reply" where
  "gem_onS5F3 msg g = (case onS5F3 msg (g_alarms g) of (m, as) \<Rightarrow> (reply m, g\<lparr>g_alarms := as\<rparr>))"

definition gem_onS5F5 :: "data_message \<Rightarrow> 'w gem_handler \<Rightarrow> 'w gem_reply" where
  "gem_onS5F5 msg g = (reply (onS5F5 (g_alarms g)), g)"

definition gem_onS5F7 :: "data_message \<Rightarrow> 'w gem_handler \<Rightarrow> 'w gem_reply" where
  "gem_onS5F7 msg g = (reply (onS5F7 (g_alarms g)), g)"

definition gem_onS7F3 :: "data_message \<Rightarrow> 'w gem_handler \<Rightarrow> 'w gem_reply" where
  "gem_onS7F3 msg g = (case onS7F3 (g_uploadHandler g) (Some msg) (g_programs g) (g_world g) of
     (m, s, w) \<Rightarrow> (reply m, g\<lparr>g_programs := s, g_world := w\<rparr>))"

definition gem_onS7F5 :: "data_message \<Rightarrow> 'w gem_handler \<Rightarrow> 'w gem_reply" where
  "gem_onS7F5 msg g = (case onS7F5 (g_requestHandler g) (Some msg) (g_programs g) (g_world g) of
     (m, w) \<Rightarrow> (reply m, g\<lparr>g_world := w\<rparr>))"

section \<open>Construction\<close>

record options =
  op_DeviceType :: device_type
  op_MDLN :: string
  op_SOFTREV :: string
  op_EstablishCommunicationWait :: int
  op_InitialControlState :: control_state
  op_InitialOnlineMode :: online_mode

definition applyDefaults :: "options \<Rightarrow> options" where
  "applyDefaults o1 =
     (let o2 = (if op_MDLN o1 = [] then o1\<lparr>op_MDLN := (if op_DeviceType o1 = DeviceEquipment then ''secs4go'' else ''host'')\<rparr> else o1);
          o3 = (if op_SOFTREV o2 = [] then o2\<lparr>op_SOFTREV := ''0.1.0''\<rparr> else o2);
          o4 = (if op_EstablishCommunicationWait o3 = 0 then o3\<lparr>op_EstablishCommunicationWait := 10\<rparr> else o3);
          o5 = (if \<not> isValidInitialControlState (op_InitialControlState o4)
                then o4\<lparr>op_InitialControlState := ControlStateAttemptOnline\<rparr> else o4)
      in if \<not> isValidOnlineMode (op_InitialOnlineMode o5) then o5\<lparr>op_InitialOnlineMode := OnlineModeRemote\<rparr> else o5)"

definition new_handler :: "options \<Rightarrow> 'w \<Rightarrow> civil_time \<Rightarrow> 'w gem_handler" where
  "new_handler o1 w now =
     \<lparr>g_deviceType = op_DeviceType o1, g_mdln = op_MDLN o1, g_softrev = op_SOFTREV o1, g_world = w,
      g_statusVars = (\<lambda>_. None), g_statusOrder = [], g_equipmentConstants = (\<lambda>_. None), g_ecOrder = [],
      g_dataVars = (\<lambda>_. None), g_dataVarOrder = [], g_collectionEvents = (\<lambda>_. None), g_collectionOrder = [],
      g_reports = (\<lambda>_. None), g_eventLinks = (\<lambda>_. None), g_EventReportReceived = [],
      g_state = CommunicationStateDisabled, g_waitCRATimer = None, g_waitDelayTimer = None,
      g_establishWait = op_EstablishCommunicationWait o1,
      g_control = NewControlStateMachine (op_InitialControlState o1) (op_InitialOnlineMode o1),
      g_enabled = False, g_handshakeInProgress = False, g_controlAttemptInProgress = False,
      g_waiters = [], g_woken = [], g_monitor = False, g_attempts = 0, g_establishes = 0, g_handshakes = 0,
      g_triggered = [], g_alarms = [], g_programs = [], g_uploadHandler = None, g_requestHandler = None,
      g_remoteCommandHandler = None, g_clock = NewClockManager, g_now = now, g_HandlerCommunicating = [],
      g_ControlStateChanged = [], g_AlarmReceived = [], g_AlarmAckReceived = [], g_RemoteCommandReceived = []\<rparr>"

definition register_all ::
  "(int \<times> int \<times> ('w gem_handler) handler) list \<Rightarrow> 'w gem \<Rightarrow> 'w gem" where
  "register_all hs p = fold (\<lambda>(s, f, h). RegisterHandler s f (Some h)) hs p"

definition equipment_handlers :: "(int \<times> int \<times> ('w gem_handler) handler) list" where
  "equipment_handlers =
     [(2, 17, gem_onS2F17), (2, 31, gem_onS2F31), (2, 41, gem_onS2F41), (1, 3, reads_vars onS1F3),
      (1, 11, reads_vars onS1F11), (2, 13, reads_vars onS2F13), (2, 15, writes_vars onS2F15),
      (2, 29, reads_vars onS2F29), (2, 33, writes_vars onS2F33), (2, 35, writes_vars onS2F35),
      (2, 37, writes_vars onS2F37), (5, 3, gem_onS5F3), (5, 5, gem_onS5F5), (5, 7, gem_onS5F7),
      (6, 15, reads_vars onS6F15), (7, 3, gem_onS7F3), (7, 5, gem_onS7F5)]"

text \<open>The handlers \<open>NewGemHandler\<close> registers, for a device type. A device type that is neither host nor
  equipment gets the equipment's, without those for S1F15 and S1F17.\<close>

definition gem_handlers :: "device_type \<Rightarrow> (int \<times> int \<times> ('w gem_handler) handler) list" where
  "gem_handlers d =
     [(1, 1, onS1F1), (1, 13, onS1F13), (1, 14, onS1F14)]
     @ (if d = DeviceEquipment then [(1, 15, onS1F15), (1, 17, onS1F17)] else [])
     @ (if d = DeviceHost then [(5, 1, gem_onS5F1), (6, 11, writes_vars onS6F11)] else equipment_handlers)"

definition NewGemHandler :: "options \<Rightarrow> 'w \<Rightarrow> civil_time \<Rightarrow> 'w gem \<Rightarrow> 'w gem" where
  "NewGemHandler opts w now p =
     (let o1 = applyDefaults opts;
          g = setCommunicationState CommunicationStateNotCommunicating (new_handler o1 w now);
          p1 = register_all (gem_handlers (op_DeviceType o1)) (p\<lparr>hp_app := g, hp_OnS9Error := True\<rparr>)
      in on_gem (\<lambda>g. onControlStateTransition ControlStateInit (ct_state (g_control g)) g) p1)"

text \<open>What the application installs.\<close>

definition RegisterStreamFunctionHandler ::
  "int \<Rightarrow> int \<Rightarrow> ('w gem_handler) handler option \<Rightarrow> 'w gem \<Rightarrow> 'w gem" where
  "RegisterStreamFunctionHandler stream function handler p = (case handler of
      None \<Rightarrow> RegisterHandler stream function None p
    | Some h \<Rightarrow> RegisterHandler stream function (Some h) p)"

definition RegisterDefaultStreamHandler :: "('w gem_handler) handler option \<Rightarrow> 'w gem \<Rightarrow> 'w gem" where
  "RegisterDefaultStreamHandler handler p = (case handler of
      None \<Rightarrow> RegisterDefaultHandler None p
    | Some h \<Rightarrow> RegisterDefaultHandler (Some h) p)"

definition SetRemoteCommandHandler :: "'w remote_handler option \<Rightarrow> 'w gem_handler \<Rightarrow> 'w gem_handler" where
  "SetRemoteCommandHandler h g = g\<lparr>g_remoteCommandHandler := h\<rparr>"

definition SetProcessProgramUploadHandler :: "'w upload_handler option \<Rightarrow> 'w gem_handler \<Rightarrow> 'w gem_handler" where
  "SetProcessProgramUploadHandler h g = g\<lparr>g_uploadHandler := h\<rparr>"

definition SetProcessProgramRequestHandler :: "'w request_handler option \<Rightarrow> 'w gem_handler \<Rightarrow> 'w gem_handler" where
  "SetProcessProgramRequestHandler h g = g\<lparr>g_requestHandler := h\<rparr>"

section \<open>Alarms and collection events that are sent\<close>

definition RaiseAlarm :: "64 word \<Rightarrow> bool \<Rightarrow> 'w gem \<Rightarrow> (unit res \<times> 'w gem) go" where
  "RaiseAlarm i on p = (let g = hp_app p in
     if g_deviceType g \<noteq> DeviceEquipment then Inr (Inl ErrOperationNotSupported, p)
     else case ensureCommunicating g of
        Inl e \<Rightarrow> Inr (Inl e, p)
      | Inr _ \<Rightarrow> (case set_alarm i on (g_alarms g) of
            (Inl e, as) \<Rightarrow> Inr (Inl e, p)
          | (Inr a, as) \<Rightarrow> (let p1 = on_gem (\<lambda>g. g\<lparr>g_alarms := as\<rparr>) p in
              if \<not> al_Enabled a then Inr (Inr (), p1)
              else go_bind (buildS5F1 (g_deviceType g) a on) (\<lambda>m. SendDataMessage (Some m) p1))))"

definition ClearAlarm :: "64 word \<Rightarrow> 'w gem \<Rightarrow> (unit res \<times> 'w gem) go" where
  "ClearAlarm i = RaiseAlarm i False"

text \<open>\<open>TriggerCollectionEvent\<close> starts one goroutine for each event, in \<open>g_triggered\<close>.\<close>

definition TriggerCollectionEvent :: "goval list \<Rightarrow> 'w gem_handler \<Rightarrow> (unit res \<times> 'w gem_handler) go" where
  "TriggerCollectionEvent ids g =
     (if g_deviceType g \<noteq> DeviceEquipment then Inr (Inl ErrOperationNotSupported, g)
      else case ensureCommunicating g of
         Inl e \<Rightarrow> Inr (Inl e, g)
       | Inr _ \<Rightarrow>
          if ids = [] then Inr (Inl (Err ''gem: at least one CEID required''), g)
          else go_bind (res_map newIDInfo ids) (\<lambda>r. case r of
              Inl e \<Rightarrow> Inr (Inl e, g)
            | Inr infos \<Rightarrow> Inr (Inr (), g\<lparr>g_triggered := g_triggered g @ map id_key infos\<rparr>)))"

definition sendCollectionEvent :: "string \<Rightarrow> 'w gem \<Rightarrow> 'w gem go" where
  "sendCollectionEvent key p = go_bind (buildCollectionEventPayload key (hp_app p)) (\<lambda>r. case r of
      Inl e \<Rightarrow> Inr p
    | Inr None \<Rightarrow> Inr p
    | Inr (Some (reports, dataID, ceNode)) \<Rightarrow>
        go_bind (buildS6F11 dataID (Some ceNode) reports) (\<lambda>msg.
        go_bind (SendDataMessage (Some msg) p) (\<lambda>(e, p'). Inr p')))"

end
