(* ===== verification/Gem_Client.thy ===== *)
theory Gem_Client
  imports Gem_Handler
begin

text \<open>
  The host's side of the GEM services: the calls and parsers of \<open>gem/status_equipment_client.go\<close> and
  \<open>gem/alarm_client.go\<close>, \<open>SendRemoteCommand\<close> of \<open>gem/handler.go\<close>, and the requests of
  \<open>gem/status_equipment_messages.go\<close>.

  A call checks, builds its request, waits for the reply and reads it. \<open>X_request\<close> is what it sends (or
  its error); \<open>host_call\<close> sends a request and ends at the wait; \<open>host_result\<close> is what it returns after
  the wait, given what \<open>X_result\<close> reads from the reply. A reply that \<open>SendAndWait\<close> returns is never nil.
\<close>

section \<open>Requests\<close>

definition host_guard :: "'w gem_handler \<Rightarrow> 'a res go \<Rightarrow> 'a res go" where
  "host_guard g m =
     (if g_deviceType g \<noteq> DeviceHost then Inr (Inl ErrOperationNotSupported)
      else case ensureCommunicating g of Inl e \<Rightarrow> Inr (Inl e) | Inr _ \<Rightarrow> m)"

definition ok_message :: "data_message go \<Rightarrow> data_message res go" where
  "ok_message m = go_bind m (\<lambda>x. Inr (Inr x))"

definition id_list_message :: "string \<Rightarrow> int \<Rightarrow> int \<Rightarrow> id_info list \<Rightarrow> data_message go" where
  "id_list_message name s f ids = list_message name s f 1 ''H->E'' (map id_node ids)"

definition buildS1F3 :: "id_info list \<Rightarrow> data_message go" where
  "buildS1F3 ids = id_list_message ''SelectedEquipmentStatusRequest'' 1 3 ids"

definition buildS1F11 :: "id_info list \<Rightarrow> data_message go" where
  "buildS1F11 ids = id_list_message ''StatusVariableNamelistRequest'' 1 11 ids"

definition buildS2F13 :: "id_info list \<Rightarrow> data_message go" where
  "buildS2F13 ids = id_list_message ''EquipmentConstantRequest'' 2 13 ids"

definition buildS2F29 :: "id_info list \<Rightarrow> data_message go" where
  "buildS2F29 ids = id_list_message ''EquipmentConstantNamelistRequest'' 2 29 ids"

definition update_entry :: "goval \<times> item option \<Rightarrow> item res go" where
  "update_entry u = res_bind (newIDInfo (fst u)) (\<lambda>info. case snd u of
      None \<Rightarrow> Inr (Inl (Err ''equipment constant value is nil''))
    | Some v \<Rightarrow> ok_node (pair_node (id_node info) v))"

definition buildS2F15 :: "(goval \<times> item option) list \<Rightarrow> data_message res go" where
  "buildS2F15 updates = res_bind (res_map update_entry updates) (\<lambda>entries.
     ok_message (list_message ''EquipmentConstantSend'' 2 15 1 ''H->E'' entries))"

text \<open>An identifier and a list of identifiers, and the messages S2F33 and S2F35 made of them.\<close>

definition ids_entry :: "goval \<times> goval list \<Rightarrow> item res go" where
  "ids_entry d = res_bind (newIDInfo (fst d)) (\<lambda>i. res_bind (ensureIDInfoSlice (snd d)) (\<lambda>infos.
     go_bind (list_node (map id_node infos)) (\<lambda>l. ok_node (pair_node (id_node i) l))))"

definition define_message :: "string \<Rightarrow> int \<Rightarrow> (goval \<times> goval list) list \<Rightarrow> data_message res go" where
  "define_message name f defs = res_bind (res_map ids_entry defs) (\<lambda>es.
     go_bind (list_node es) (\<lambda>l. go_bind (NewUintNode 1 [VInt 0]) (\<lambda>d. go_bind (pair_node d l) (\<lambda>body.
     ok_message (NewDataMessage name 2 f 1 ''H->E'' body)))))"

definition buildS2F33 :: "(goval \<times> goval list) list \<Rightarrow> data_message res go" where
  "buildS2F33 defs = define_message ''DefineReport'' 33 defs"

definition buildS2F35 :: "(goval \<times> goval list) list \<Rightarrow> data_message res go" where
  "buildS2F35 links = define_message ''LinkEventReport'' 35 links"

definition buildS2F37 :: "bool \<Rightarrow> id_info list \<Rightarrow> data_message go" where
  "buildS2F37 enable ceids = go_bind (NewBooleanNode [VBool enable]) (\<lambda>b.
     go_bind (list_node (map id_node ceids)) (\<lambda>l. go_bind (pair_node b l) (\<lambda>body.
       NewDataMessage ''EnableEventReport'' 2 37 1 ''H->E'' body)))"

definition buildS6F15 :: "id_info \<Rightarrow> data_message go" where
  "buildS6F15 ceid = NewDataMessage ''EventReportRequest'' 6 15 1 ''H->E'' (id_node ceid)"

section \<open>Reading replies\<close>

definition parseStatusValueResponse :: "data_message option \<Rightarrow> id_info list \<Rightarrow> (goval \<times> item) list res" where
  "parseStatusValueResponse msg ids = go_bind (list_body msg) (\<lambda>vs.
     if length vs \<noteq> length ids then Inl (Err ''unexpected value count'')
     else Inr (zip (map id_raw ids) vs))"

definition parseEquipmentConstantValueResponse ::
  "data_message option \<Rightarrow> id_info list \<Rightarrow> (goval \<times> item) list res" where
  "parseEquipmentConstantValueResponse msg ids = go_bind (list_body msg) (\<lambda>vs.
     if length vs \<noteq> length ids then Inl (Err ''unexpected value count'')
     else Inr (zip (map id_raw ids) vs))"

text \<open>\<open>if node.Type() == "ascii"\<close> the text, otherwise nothing.\<close>

definition ascii_text :: "item \<Rightarrow> string" where
  "ascii_text n = (if Type n = ''ascii'' then (case Values n of VsString s \<Rightarrow> s | _ \<Rightarrow> []) else [])"

record status_variable_info =
  si_ID :: goval
  si_Name :: string
  si_Unit :: string

definition status_info_entry :: "item \<Rightarrow> status_variable_info res go" where
  "status_info_entry entryNode = (case as_list entryNode of
      Some (idNode # nameNode # unitNode # _) \<Rightarrow> res_bind (id_of idNode) (\<lambda>info.
        Inr (Inr \<lparr>si_ID = id_raw info, si_Name = ascii_text nameNode, si_Unit = ascii_text unitNode\<rparr>))
    | _ \<Rightarrow> Inr (Inl (Err ''malformed S1F12 entry'')))"

definition parseStatusInfoResponse :: "data_message option \<Rightarrow> status_variable_info list res go" where
  "parseStatusInfoResponse msg = res_bind (Inr (list_body msg)) (res_map status_info_entry)"

record equipment_constant_info =
  ei_ID :: goval
  ei_Name :: string
  ei_Unit :: string
  ei_Min :: item
  ei_Max :: item
  ei_Default :: item

definition constant_info_entry :: "item \<Rightarrow> equipment_constant_info res go" where
  "constant_info_entry entryNode = (case as_list entryNode of
      Some (idNode # nameNode # minNode # maxNode # defNode # unitNode # _) \<Rightarrow>
        res_bind (id_of idNode) (\<lambda>info.
          Inr (Inr \<lparr>ei_ID = id_raw info, ei_Name = ascii_text nameNode, ei_Unit = ascii_text unitNode,
            ei_Min = minNode, ei_Max = maxNode, ei_Default = defNode\<rparr>))
    | _ \<Rightarrow> Inr (Inl (Err ''malformed S2F30 entry'')))"

definition parseEquipmentConstantInfoResponse :: "data_message option \<Rightarrow> equipment_constant_info list res go" where
  "parseEquipmentConstantInfoResponse msg = res_bind (Inr (list_body msg)) (res_map constant_info_entry)"

definition readBinaryAck :: "data_message option \<Rightarrow> int res" where
  "readBinaryAck msg = go_bind (message_body msg) (\<lambda>item.
     go_bind (case item of
         BNode b \<Rightarrow> Inr b
       | LNode vs vars s \<Rightarrow> (case vs of
             [] \<Rightarrow> Inl (Err ''empty ack payload'')
           | first # _ \<Rightarrow> (case first of BNode b \<Rightarrow> Inr b | _ \<Rightarrow> Inl (Err ''expected binary ack'')))
       | _ \<Rightarrow> Inl (Err ''expected binary ack'')) (\<lambda>b.
     case bn_values b of [] \<Rightarrow> Inl (Err ''invalid ack payload'') | v # _ \<Rightarrow> Inr v))"

definition parseEquipmentConstantAck :: "data_message option \<Rightarrow> int res" where
  "parseEquipmentConstantAck msg = readBinaryAck msg"

section \<open>The calls\<close>

definition host_call ::
  "data_message res go \<Rightarrow> 'w gem \<Rightarrow> ((32 word \<times> data_message) res \<times> 'w gem) go" where
  "host_call req p = go_bind req (\<lambda>r. case r of
      Inl e \<Rightarrow> Inr (Inl e, p)
    | Inr m \<Rightarrow> SendAndWait_begin (Some m) p)"

definition host_result ::
  "(data_message \<Rightarrow> 'b res go) \<Rightarrow> 32 word \<Rightarrow> data_message \<Rightarrow> 'w gem \<Rightarrow> ('b res \<times> 'w gem) go" where
  "host_result f systemID outgoing p = go_bind (SendAndWait_end systemID outgoing p) (\<lambda>(r, p'). case r of
      Inl e \<Rightarrow> Inr (Inl e, p')
    | Inr resp \<Rightarrow> go_bind (f resp) (\<lambda>v. Inr (v, p')))"

text \<open>Identifiers made from the arguments, in order; the first error ends the loop.\<close>

definition ids_request :: "goval list \<Rightarrow> (id_info list \<Rightarrow> data_message go) \<Rightarrow> data_message res go" where
  "ids_request ids mk = res_bind (res_map newIDInfo ids) (\<lambda>infos. ok_message (mk infos))"

definition RequestStatusVariables_request :: "goval list \<Rightarrow> 'w gem_handler \<Rightarrow> data_message res go" where
  "RequestStatusVariables_request ids g =
     (if g_deviceType g \<noteq> DeviceHost then Inr (Inl ErrOperationNotSupported)
      else if ids = [] then Inr (Inl (Err ''gem: at least one SVID required''))
      else host_guard g (ids_request ids buildS1F3))"

definition RequestStatusVariables_result :: "goval list \<Rightarrow> data_message \<Rightarrow> (goval \<times> item) list res go" where
  "RequestStatusVariables_result ids resp = res_bind (res_map newIDInfo ids) (\<lambda>infos.
     Inr (parseStatusValueResponse (Some resp) infos))"

definition RequestStatusVariableInfo_request :: "goval list \<Rightarrow> 'w gem_handler \<Rightarrow> data_message res go" where
  "RequestStatusVariableInfo_request ids g = host_guard g (ids_request ids buildS1F11)"

definition RequestEquipmentConstants_request :: "goval list \<Rightarrow> 'w gem_handler \<Rightarrow> data_message res go" where
  "RequestEquipmentConstants_request ids g =
     (if g_deviceType g \<noteq> DeviceHost then Inr (Inl ErrOperationNotSupported)
      else if ids = [] then Inr (Inl (Err ''gem: at least one ECID required''))
      else host_guard g (ids_request ids buildS2F13))"

definition RequestEquipmentConstants_result :: "goval list \<Rightarrow> data_message \<Rightarrow> (goval \<times> item) list res go" where
  "RequestEquipmentConstants_result ids resp = res_bind (res_map newIDInfo ids) (\<lambda>infos.
     Inr (parseEquipmentConstantValueResponse (Some resp) infos))"

definition RequestEquipmentConstantInfo_request :: "goval list \<Rightarrow> 'w gem_handler \<Rightarrow> data_message res go" where
  "RequestEquipmentConstantInfo_request ids g = host_guard g (ids_request ids buildS2F29)"

definition DefineReports_request :: "(goval \<times> goval list) list \<Rightarrow> 'w gem_handler \<Rightarrow> data_message res go" where
  "DefineReports_request defs g = host_guard g (buildS2F33 defs)"

definition LinkEventReports_request :: "(goval \<times> goval list) list \<Rightarrow> 'w gem_handler \<Rightarrow> data_message res go" where
  "LinkEventReports_request links g = host_guard g (buildS2F35 links)"

definition EnableEventReports_request :: "bool \<Rightarrow> goval list \<Rightarrow> 'w gem_handler \<Rightarrow> data_message res go" where
  "EnableEventReports_request enable ceids g = host_guard g (ids_request ceids (buildS2F37 enable))"

definition RequestCollectionEventReport_request :: "goval \<Rightarrow> 'w gem_handler \<Rightarrow> data_message res go" where
  "RequestCollectionEventReport_request ceid g = host_guard g
     (res_bind (newIDInfo ceid) (\<lambda>info. ok_message (buildS6F15 info)))"

definition UploadProcessProgram_request :: "goval \<Rightarrow> string \<Rightarrow> 'w gem_handler \<Rightarrow> data_message res go" where
  "UploadProcessProgram_request ppid body g = host_guard g
     (res_bind (newIDInfo ppid) (\<lambda>info. ok_message (buildS7F3 info body)))"

definition RequestProcessProgram_request :: "goval \<Rightarrow> 'w gem_handler \<Rightarrow> data_message res go" where
  "RequestProcessProgram_request ppid g = host_guard g
     (res_bind (newIDInfo ppid) (\<lambda>info. ok_message (buildS7F5 info)))"

text \<open>With nothing to update the call returns 0 at once (\<open>Inr None\<close>).\<close>

definition SendEquipmentConstantValues_request ::
  "(goval \<times> item option) list \<Rightarrow> 'w gem_handler \<Rightarrow> data_message option res go" where
  "SendEquipmentConstantValues_request updates g =
     (if g_deviceType g \<noteq> DeviceHost then Inr (Inl ErrOperationNotSupported)
      else if updates = [] then Inr (Inr None)
      else host_guard g (res_bind (buildS2F15 updates) (\<lambda>m. Inr (Inr (Some m)))))"

definition SendRemoteCommand_request ::
  "goval \<Rightarrow> remote_parameter_value list \<Rightarrow> 'w gem_handler \<Rightarrow> data_message res go" where
  "SendRemoteCommand_request command params g = host_guard g (buildS2F41 (g_deviceType g) command params)"

definition SendRemoteCommand_result :: "data_message \<Rightarrow> remote_result res go" where
  "SendRemoteCommand_result resp = parseRemoteCommandAck (Some resp)"

definition RequestDateTime_request :: "'w gem_handler \<Rightarrow> data_message res go" where
  "RequestDateTime_request g = host_guard g
     (ok_message (list_message ''DateTimeRequest'' 2 17 1 ''H->E'' []))"

definition RequestDateTime_result :: "data_message \<Rightarrow> string res go" where
  "RequestDateTime_result resp = Inr (case dm_dataItem resp of
      ANode a \<Rightarrow> Inr (an_value a) | _ \<Rightarrow> Inl (Err ''gem: S2F18 TIME not ASCII''))"

definition SetDateTime_request :: "string \<Rightarrow> 'w gem_handler \<Rightarrow> data_message res go" where
  "SetDateTime_request timeStr g = host_guard g
     (if length timeStr < 14 then Inr (Inl (Err ''gem: invalid time format''))
      else ok_message (go_bind (NewASCIINode timeStr) (\<lambda>body.
        NewDataMessage ''DateTimeSetRequest'' 2 31 1 ''H->E'' body)))"

definition SetDateTime_result :: "data_message \<Rightarrow> byte res go" where
  "SetDateTime_result resp = Inr (case dm_dataItem resp of
      BNode b \<Rightarrow> (case bn_values b of
          [] \<Rightarrow> Inl (Err ''gem: S2F32 TIACK invalid'') | v # _ \<Rightarrow> Inr (word_of_int v))
    | _ \<Rightarrow> Inl (Err ''gem: S2F32 TIACK not binary''))"

definition SendEnableAlarm_request :: "64 word list \<Rightarrow> bool \<Rightarrow> 'w gem_handler \<Rightarrow> data_message res go" where
  "SendEnableAlarm_request alarmIDs enable g = host_guard g (ok_message (SendEnableAlarm_msg alarmIDs enable))"

definition SendEnableAlarm_result :: "data_message \<Rightarrow> byte res go" where
  "SendEnableAlarm_result resp = Inr (case readBinaryAck (Some resp) of
      Inl e \<Rightarrow> Inl (Err ''gem: failed to parse S5F4'') | Inr v \<Rightarrow> Inr (word_of_int v))"

definition RequestAlarmList_request :: "'w gem_handler \<Rightarrow> data_message res go" where
  "RequestAlarmList_request g = host_guard g (ok_message (list_message ''AlarmListReq'' 5 5 1 ''H->E'' []))"

definition RequestEnabledAlarmList_request :: "'w gem_handler \<Rightarrow> data_message res go" where
  "RequestEnabledAlarmList_request g = host_guard g
     (ok_message (list_message ''EnabledAlarmListReq'' 5 7 1 ''H->E'' []))"

text \<open>What the calls that return a plain acknowledge code or a parsed list read.\<close>

definition ack_result :: "data_message \<Rightarrow> int res go" where
  "ack_result resp = Inr (readBinaryAck (Some resp))"

definition RequestAlarmList_result :: "data_message \<Rightarrow> alarm_info list res go" where
  "RequestAlarmList_result resp = Inr (parseAlarmListResponse resp)"

end
