(* ===== verification/Protocol_Serving.thy ===== *)
theory Protocol_Serving
  imports Protocol_Properties
begin

text \<open>
  How the protocol changes the state of its application. The locale \<open>application_view\<close> extends
  \<open>protocol_view\<close> by the fields of the connection's life cycle: no connection event, control message,
  timer or shutdown changes such a view. It is used for \<open>served\<close>, the application with the handlers
  that are registered; a step of the protocol leaves it alone, or it applies one registered handler to
  one message (\<open>hsms_step_served\<close>).
\<close>

section \<open>What the life cycle leaves alone\<close>

locale application_view = protocol_view V
  for V :: "'a hsms_protocol \<Rightarrow> 'v" +
  assumes V_lifecycle [simp]:
    "V (p\<lparr>hp_enabled := b\<rparr>) = V p" "V (p\<lparr>hp_connected := b\<rparr>) = V p" "V (p\<lparr>hp_state := s\<rparr>) = V p"
    "V (p\<lparr>hp_connection := c\<rparr>) = V p" "V (p\<lparr>hp_sessionID := n\<rparr>) = V p" "V (p\<lparr>hc_sessionID := n\<rparr>) = V p"
    "V (p\<lparr>hp_connectThreadRunning := b\<rparr>) = V p" "V (p\<lparr>hp_connectThreads := k\<rparr>) = V p"
    "V (p\<lparr>hp_selectThreads := k\<rparr>) = V p" "V (p\<lparr>hp_linktestTimer := b\<rparr>) = V p"
    "V (p\<lparr>hp_t7Timer := b\<rparr>) = V p" "V (p\<lparr>hp_server := sv\<rparr>) = V p"
    "V (p\<lparr>hp_reconnectAttempts := n\<rparr>) = V p" "V (p\<lparr>hp_s9Calls := cs\<rparr>) = V p"
    "V (p\<lparr>hp_timeouts := ts\<rparr>) = V p" "V (p\<lparr>hp_OnS9Error := b\<rparr>) = V p"
begin

lemma life_simps [simp]:
  "V (SetSession c p) = V p"
  "V (stopLinktestTimer p) = V p" "V (clearDisconnectFlag p) = V p"
  "V (startT7Timer p) = V p" "V (stopT7Timer p) = V p"
  "V (spawn_connectThread p) = V p" "V (Enable p) = V p"
  "V (triggerS9ErrorCallback dm p) = V p" "V (resetReconnectionState p) = V p"
  by (simp_all add: SetSession_def stopLinktestTimer_def clearDisconnectFlag_def startT7Timer_def stopT7Timer_def
      spawn_connectThread_def Enable_def triggerS9ErrorCallback_def resetReconnectionState_def Let_def split: option.split)

lemma life_fold_close [simp]: "V (fold session_close is p) = V p"
  by (induction "is" arbitrary: p) simp_all

lemma life_event [simp]:
  "V (leave_state s p) = V p" "V (enter_state s p) = V p"
  "V (conn_event fsm ev p) = V p" "V (T7_expire fsm p) = V p"
proof -
  show l: "V (leave_state s p) = V p" for s and p :: "'a hsms_protocol"
    by (simp add: leave_state_def onStateConnect_def)
  show e: "V (enter_state s p) = V p" for s and p :: "'a hsms_protocol"
    by (simp add: enter_state_def onStateDisconnect_def onStateSelect_def onStateConnectedNotSelected_def Let_def)
  show c: "V (conn_event fsm ev p) = V p" for ev and p :: "'a hsms_protocol"
    by (auto simp: conn_event_def l e split: prod.split sum.split)
  show "V (T7_expire fsm p) = V p"
    by (simp add: T7_expire_def c)
qed

lemma life_connection_steps [simp]:
  "V (receive_failed fsm p) = V p" "V (receiver_exit i p) = V p"
  "V (passive_done i p) = V p" "V (snd (control_reply k p)) = V p"
  "V (snd (connect_attempt_failed p)) = V p" "V (snd (connect_attempt_done p)) = V p"
  "V (OnConnectionEstablished fsm p) = V p" "V (snd (start_receiver fsm i p)) = V p"
  "V (snd (activeConnect fsm i p)) = V p" "V (snd (passive_accept fsm i p)) = V p"
proof -
  show "V (receive_failed fsm p) = V p" "V (receiver_exit i p) = V p"
    "V (passive_done i p) = V p" "V (snd (control_reply k p)) = V p"
    "V (snd (connect_attempt_failed p)) = V p" "V (snd (connect_attempt_done p)) = V p"
    by (simp_all add: receive_failed_def receiver_exit_def passive_done_def control_reply_def
        connect_attempt_failed_def connect_attempt_done_def Let_def
        split: option.split hsms_message.split prod.split)
  show e: "V (OnConnectionEstablished fsm p) = V p" for p :: "'a hsms_protocol"
    by (simp add: OnConnectionEstablished_def)
  show s: "V (snd (start_receiver fsm i p)) = V p" for p :: "'a hsms_protocol"
    by (simp add: start_receiver_def e split: option.split)
  show "V (snd (activeConnect fsm i p)) = V p" "V (snd (passive_accept fsm i p)) = V p"
    by (simp_all add: activeConnect_def passive_accept_def s)
qed

lemma life_control:
  assumes "V q = a"
  shows "go_all (\<lambda>x. V x = a) (send_control m q)"
    and "go_all (\<lambda>x. V (snd x) = a) (control_request mk q)"
    and "go_all (\<lambda>x. V x = a) (Disable_separate b q)"
  using view_send_control [of q m] view_control_request [of q mk]
    view_separate [of q b] assms by simp_all

lemma life_handleHsmsRequests: "go_all (\<lambda>x. V x = V p) (handleHsmsRequests fsm msg p)"
proof -
  have ctl: "go_all (\<lambda>x. V x = V p) (send_control m q)" if "V q = V p" for m q
    using life_control(1) [OF that] .
  have acc: "go_all (\<lambda>x. V x = V p) (select_accepted fsm m q)" if "V q = V p" for m q
    using that by (simp add: select_accepted_def sendReject_def sendSelectRsp_def ctl)
  have sel: "go_all (\<lambda>x. V x = V p) (handle_select_req fsm h p)" for h
    unfolding handle_select_req_def Let_def by (auto simp: acc sendSelectRsp_def ctl)
  have rsp: "V (handle_select_rsp fsm k h p) = V p" for k h
    by (simp add: handle_select_rsp_def Let_def)
  have sep: "V (handle_separate fsm p) = V p"
    by (simp add: handle_separate_def Let_def)
  show ?thesis
    unfolding handleHsmsRequests_def go_all_bind
    by (rule go_all_any)
       (auto simp: sel rsp sep ctl sendReject_def sendDeselectRsp_def sendLinkTestRsp_def
         split: hsms_message.split)
qed

lemma life_Disable_begin: "go_all (\<lambda>x. V (snd x) = V p) (Disable_begin p)"
proof -
  let ?p1 = "(stopT7Timer (stopLinktestTimer (p\<lparr>hp_enabled := False\<rparr>)))\<lparr>hp_connected := False\<rparr>"
  have p1: "V ?p1 = V p" by simp
  have sep: "go_all (\<lambda>x. V (snd x) = V p) (go_bind (Disable_separate b q) (\<lambda>p2. Inr (None, p2)))"
    if "V q = V p" for q b
    unfolding go_all_bind by (rule go_all_mono [OF life_control(3) [OF that]]) simp
  have des: "go_all (\<lambda>x. V (snd x) = V p) (go_bind (sendDeselectReq ?p1) (\<lambda>((systemID, r), p2). case r of
              Inr u \<Rightarrow> Inr (Some systemID, p2)
            | Inl e \<Rightarrow> go_bind (Disable_separate True p2) (\<lambda>p3. Inr (None, p3))))"
    unfolding sendDeselectReq_def go_all_bind
    by (rule go_all_mono [OF life_control(2) [OF p1]])
       (auto split: sum.split simp del: go_all_bind intro!: sep)
  show ?thesis
    unfolding Disable_begin_def Let_def
    using des sep [OF p1] by (auto split: option.split simp del: go_all_bind)
qed

end

definition served :: "'a hsms_protocol \<Rightarrow> 'a \<times> (string \<Rightarrow> 'a handler option) \<times> 'a handler option" where
  "served p = (hp_app p, hp_handlers p, hp_defaultHandler p)"

interpretation serve: application_view served
  by unfold_locales (simp_all add: served_def)

section \<open>Handlers\<close>

definition registered :: "'a handler \<Rightarrow> 'a hsms_protocol \<Rightarrow> bool" where
  "registered h p \<longleftrightarrow> (\<exists>k. hp_handlers p k = Some h) \<or> hp_defaultHandler p = Some h"

definition after_handler :: "'a handler \<Rightarrow> data_message \<Rightarrow> 'a hsms_protocol \<Rightarrow> 'a hsms_protocol" where
  "after_handler h m p = p\<lparr>hp_app := snd (h m (hp_app p))\<rparr>"

text \<open>\<open>serves p p'\<close>: the application and its handlers are as before, or one handler has run.\<close>

definition serves :: "'a hsms_protocol \<Rightarrow> 'a hsms_protocol \<Rightarrow> bool" where
  "serves p p' \<longleftrightarrow> served p' = served p \<or> (\<exists>h m. registered h p \<and> served p' = served (after_handler h m p))"

lemma serves_same: "served p' = served p \<Longrightarrow> serves p p'"
  by (simp add: serves_def)

lemma serves_invokeHandler:
  "go_all (\<lambda>p'. served p' = served (after_handler h m p)) (invokeHandler h m p)"
proof (cases "h m (hp_app p)")
  case (Pair res app)
  have ah: "after_handler h m p = p\<lparr>hp_app := app\<rparr>" by (simp add: after_handler_def Pair)
  let ?P = "\<lambda>p'. served p' = served (p\<lparr>hp_app := app\<rparr>)"
  have send: "go_all ?P (go_bind (HsmsConnection_Send b (p\<lparr>hp_app := app\<rparr>)) (\<lambda>(e, p2). Inr p2))" for b
    unfolding go_all_bind by (rule go_all_mono [OF serve.view_HsmsConnection_Send]) auto
  have inner: "go_all ?P (case r of Inl e \<Rightarrow> Inr (p\<lparr>hp_app := app\<rparr>)
      | Inr None \<Rightarrow> Inr (p\<lparr>hp_app := app\<rparr>)
      | Inr (Some response) \<Rightarrow>
          go_bind (SetSessionIDAndSystemBytes response (hp_sessionID (p\<lparr>hp_app := app\<rparr>)) (dm_systemBytes m)) (\<lambda>r1.
          go_bind (settle False r1) (\<lambda>r2.
          go_bind (DataMessage_ToBytes r2) (\<lambda>b.
          go_bind (HsmsConnection_Send b (p\<lparr>hp_app := app\<rparr>)) (\<lambda>(e, p2). Inr p2)))))" for r
    by (cases r; simp split: option.split del: go_all_bind; intro allI impI)
       (rule any_bind, rule any_bind, rule any_bind, rule send)
  show ?thesis
    unfolding ah invokeHandler_def Pair prod.case Let_def by (rule any_bind) (rule inner)
qed

lemma served_trigger: "served (triggerS9ErrorCallback m p) = served p"
  by (rule serve.life_simps)

lemma serves_handleDataMessage: "go_all (serves p) (handleDataMessage m p)"
proof -
  let ?p1 = "if dm_stream m = 9 then triggerS9ErrorCallback m p else p"
  have s1: "served ?p1 = served p" by (simp add: served_trigger)
  then have reg: "registered h ?p1 \<longleftrightarrow> registered h p" for h
    unfolding served_def registered_def by (metis prod.inject)
  have ah: "served (after_handler h m ?p1) = served (after_handler h m p)" for h
    using s1 by (simp add: served_def after_handler_def)
  have inv: "go_all (serves p) (invokeHandler h m ?p1)" if "registered h ?p1" for h
    by (rule go_all_mono [OF serves_invokeHandler]) (use that reg ah in \<open>auto simp: serves_def\<close>)
  have un: "go_all (serves p) (sendS9ErrorForUnrecognized m ?p1)"
    by (rule go_all_mono [OF serve.view_unrecognized]) (use s1 in \<open>auto simp: serves_def\<close>)
  show ?thesis
  proof (cases "lookupHandler ?p1 (dm_stream m) (dm_function m)")
    case (Some h)
    then have "registered h ?p1" unfolding registered_def lookupHandler_def by blast
    then show ?thesis unfolding handleDataMessage_def Let_def Some option.case by (rule inv)
  next
    case None
    show ?thesis
    proof (cases "hp_defaultHandler ?p1")
      case (Some h)
      then have "registered h ?p1" unfolding registered_def by blast
      then show ?thesis unfolding handleDataMessage_def Let_def None Some option.case by (rule inv)
    next
      case None': None
      show ?thesis unfolding handleDataMessage_def Let_def None None' option.case by (rule un)
    qed
  qed
qed

lemma serves_receive_data: "go_all (serves p) (receive_data m p)"
proof (cases "hp_state p = StateConnectedSelected")
  case True
  have "go_all (serves p) (case fetchQueue p k of
      Some q \<Rightarrow> Inr (set_queue k (Put (DataMsg m) q) p) | None \<Rightarrow> handleDataMessage m p)" for k
    by (cases "fetchQueue p k")
      (simp_all add: serves_handleDataMessage serves_same serve.V_queue_ops del: go_all_bind)
  then show ?thesis unfolding receive_data_def using True by (simp del: go_all_bind add: any_bind)
qed (simp add: receive_data_def serves_same)

lemma serves_receive_step: "go_all (\<lambda>x. serves p (snd x)) (receive_step fsm rsp p)"
proof -
  have "go_all (serves p) (handleHsmsRequests fsm msg p)" for msg
    by (rule go_all_mono [OF serve.life_handleHsmsRequests]) (rule serves_same)
  then show ?thesis
    using serves_receive_data [of p] unfolding receive_step_def
    by (auto split: sum.split hsms_message.split simp: serves_same serve.life_connection_steps)
qed

section \<open>A step of the protocol\<close>

text \<open>Every step but registration.\<close>

lemma hsms_step_served:
  assumes "hsms_step fsm p p'"
  shows "serves p p' \<or> (\<exists>st f h. p' = RegisterHandler st f h p) \<or> (\<exists>h. p' = RegisterDefaultHandler h p)"
proof -
  note request = go_all_InrD [OF serve.life_control(2) [OF refl]]
  have same: ?thesis if "served p' = served p"
    using that by (simp add: serves_def)
  from assms show ?thesis
  proof cases
    case (disable w)
    then show ?thesis using go_all_InrD [OF serve.life_Disable_begin] by (intro same) fastforce
  next
    case (disable_rest k)
    then have "served p' = served (snd (control_reply k p))"
      using go_all_InrD [OF serve.life_control(3) [OF refl]] unfolding Disable_after_deselect_def by blast
    then show ?thesis by (intro same) (simp add: serve.life_connection_steps)
  next
    case (receive rsp go_on)
    from go_all_InrD [OF serves_receive_step receive] show ?thesis by simp
  next
    case (select_start r)
    then have "served p' = served p"
      using request by (fastforce simp: select_thread_def sendSelectReq_def go_bind_Inr_iff split: if_splits)
    then show ?thesis by (rule same)
  next
    case linktest_start
    moreover have "served (clearDisconnectFlag (p\<lparr>hp_linktestTimer := True\<rparr>)) = served p"
      by (simp add: clearDisconnectFlag_def served_def)
    ultimately have "served p' = served p"
      using request
      by (fastforce simp: select_thread_linktest_def startLinktestTimer_def sendLinktestReq_def go_bind_Inr_iff
          split: if_splits)
    then show ?thesis by (rule same)
  next
    case (linktest_tick r)
    then show ?thesis using request unfolding sendLinktestReq_def by (intro same) fastforce
  next
    case linktest_end
    then have "served p' = served p" by (auto simp: end_linktest_def served_def split: if_splits)
    then show ?thesis by (rule same)
  next
    case (send m r)
    with go_all_InrD [OF serve.view_SendDataMessage] show ?thesis by (intro same) fastforce
  next
    case (call m rc)
    with go_all_InrD [OF serve.view_SendAndWait_begin] show ?thesis by (intro same) fastforce
  next
    case (return k out rr)
    with go_all_InrD [OF serve.view_SendAndWait_end] show ?thesis by (intro same) fastforce
  next
    case (respond m sb r)
    with go_all_InrD [OF serve.view_SendResponse] show ?thesis by (intro same) fastforce
  next
    case t7
    then show ?thesis by (intro same) (simp add: serve.life_event)
  next
    case (register st f h)
    then show ?thesis by blast
  next
    case (register_default h)
    then show ?thesis by blast
  qed (simp_all add: serves_same)
qed

end
