(* ===== verification/Gem_Invariants.thy ===== *)
theory Gem_Invariants
  imports Gem_Client Protocol_Serving
begin

text \<open>
  The reachable states of a GEM handler on its HSMS protocol, and the invariant they satisfy: the
  control state machine is settled, a timer runs only in the communication state it belongs to, and
  the registries of variables, constants, events and reports are well formed.

  \<open>gem_step\<close> has one rule for each method, message handler, goroutine step and timer; whatever the
  protocol does besides calling the handler is one rule that leaves the handler's state alone.
\<close>

lemma app_on_gem [simp]: "hp_app (on_gem f p) = f (hp_app p)"
  by (simp add: on_gem_def)

section \<open>The communication and control state\<close>

definition comm_part :: "'w gem_handler \<Rightarrow> comm_state \<times> int option \<times> int option \<times> control" where
  "comm_part g = (g_state g, g_waitCRATimer g, g_waitDelayTimer g, g_control g)"

definition comm_ok :: "'w gem_handler \<Rightarrow> bool" where
  "comm_ok g \<longleftrightarrow> settled (g_control g) \<and> g_state g \<noteq> CommunicationStateDisabled
     \<and> (g_waitCRATimer g \<noteq> None \<longrightarrow> g_state g = CommunicationStateWaitCRA)
     \<and> (g_waitDelayTimer g \<noteq> None \<longrightarrow> g_state g = CommunicationStateWaitDelay)"

lemma comm_ok_part: "comm_part g' = comm_part g \<Longrightarrow> comm_ok g' \<longleftrightarrow> comm_ok g"
  by (simp add: comm_part_def comm_ok_def)

text \<open>The registries, without the application state.\<close>

definition reg_part :: "('w, 'z) gem_coll' \<Rightarrow> _" where
  "reg_part g = ((g_statusVars g, g_statusOrder g, g_equipmentConstants g, g_ecOrder g),
     (g_dataVars g, g_dataVarOrder g, g_collectionEvents g, g_collectionOrder g), g_reports g, g_eventLinks g)"

definition regs_ok :: "('w, 'z) gem_coll' \<Rightarrow> bool" where
  "regs_ok g \<longleftrightarrow> svs.in_order g \<and> ecs.in_order g \<and> dvs.in_order g \<and> ces.in_order g \<and> reports_ok g"

lemma regs_ok_part: "reg_part g' = reg_part g \<Longrightarrow> regs_ok g' \<longleftrightarrow> regs_ok g"
  by (simp add: reg_part_def regs_ok_def svs.in_order_def ecs.in_order_def dvs.in_order_def
      ces.in_order_def reports_ok_def vidExists_def)

lemma frame_fire [simp]: "comm_part (fire e d g) = comm_part g" "reg_part (fire e d g) = reg_part g"
  by (simp_all add: fire_def comm_part_def reg_part_def)

lemma frame_initiate [simp]:
  "comm_part (initiateAttemptOnline g) = comm_part g" "reg_part (initiateAttemptOnline g) = reg_part g"
  "comm_part (initiateHandshake g) = comm_part g" "reg_part (initiateHandshake g) = reg_part g"
  "comm_part (initiateEstablishCommunication g) = comm_part g"
  "reg_part (initiateEstablishCommunication g) = reg_part g"
  by (simp_all add: initiateAttemptOnline_def initiateHandshake_def initiateEstablishCommunication_def
      comm_part_def reg_part_def)

lemma frame_fields [simp]:
  "comm_part (g\<lparr>g_controlAttemptInProgress := b\<rparr>) = comm_part g" "reg_part (g\<lparr>g_controlAttemptInProgress := b\<rparr>) = reg_part g"
  "comm_part (g\<lparr>g_handshakeInProgress := b\<rparr>) = comm_part g" "reg_part (g\<lparr>g_handshakeInProgress := b\<rparr>) = reg_part g"
  "comm_part (g\<lparr>g_enabled := b\<rparr>) = comm_part g" "reg_part (g\<lparr>g_enabled := b\<rparr>) = reg_part g"
  "comm_part (g\<lparr>g_monitor := b\<rparr>) = comm_part g" "reg_part (g\<lparr>g_monitor := b\<rparr>) = reg_part g"
  "comm_part (g\<lparr>g_waiters := ws\<rparr>) = comm_part g" "reg_part (g\<lparr>g_waiters := ws\<rparr>) = reg_part g"
  "comm_part (g\<lparr>g_woken := ws\<rparr>) = comm_part g" "reg_part (g\<lparr>g_woken := ws\<rparr>) = reg_part g"
  "comm_part (g\<lparr>g_world := w\<rparr>) = comm_part g" "reg_part (g\<lparr>g_world := w\<rparr>) = reg_part g"
  "comm_part (g\<lparr>g_triggered := ts\<rparr>) = comm_part g" "reg_part (g\<lparr>g_triggered := ts\<rparr>) = reg_part g"
  "comm_part (g\<lparr>g_alarms := as\<rparr>) = comm_part g" "reg_part (g\<lparr>g_alarms := as\<rparr>) = reg_part g"
  "comm_part (g\<lparr>g_programs := ps\<rparr>) = comm_part g" "reg_part (g\<lparr>g_programs := ps\<rparr>) = reg_part g"
  "reg_part (g\<lparr>g_state := cs\<rparr>) = reg_part g" "reg_part (g\<lparr>g_control := ct\<rparr>) = reg_part g"
  "reg_part (g\<lparr>g_waitCRATimer := tm\<rparr>) = reg_part g" "reg_part (g\<lparr>g_waitDelayTimer := tm\<rparr>) = reg_part g"
  by (simp_all add: comm_part_def reg_part_def)

lemma frame_transition [simp]:
  "comm_part (onControlStateTransition s t g) = comm_part g"
  "reg_part (onControlStateTransition s t g) = reg_part g"
  by (simp_all add: onControlStateTransition_def Let_def)

lemma frame_notify [simp]: "comm_part (notifyCommunicating g) = comm_part g" "reg_part (notifyCommunicating g) = reg_part g"
  by (simp_all add: notifyCommunicating_def Let_def)

lemma lost_transition_implements: "implements {4, 6} lost_transition"
  unfolding implements_def
  by (safe elim!: settled_cases; simp add: lost_transition_def control_defs settled_def isValidOnlineMode_def)

lemma plain_transitions_implement:
  "implements {6} (\<lambda>sm. if isOnlineStateLocked sm then SwitchOffline sm else (Inr (), sm))"
  "implements {} (\<lambda>sm. (Inr (), sm))"
  unfolding implements_def
  by (safe elim!: settled_cases; simp add: control_defs settled_def isValidOnlineMode_def)+

lemma transitionControl_ok:
  assumes "implements ns f"
  shows "comm_ok g \<Longrightarrow> comm_ok (snd (transitionControl f g))"
    and "reg_part (snd (transitionControl f g)) = reg_part g"
proof -
  obtain r sm where f: "f (g_control g) = (r, sm)" by force
  have "comm_part (snd (transitionControl f g)) = comm_part (g\<lparr>g_control := sm\<rparr>)"
    and reg: "reg_part (snd (transitionControl f g)) = reg_part g"
    by (simp_all add: transitionControl_def f Let_def split: sum.split)
  then have eq: "comm_ok (snd (transitionControl f g)) \<longleftrightarrow> comm_ok (g\<lparr>g_control := sm\<rparr>)"
    by (intro comm_ok_part)
  show "reg_part (snd (transitionControl f g)) = reg_part g" by (rule reg)
  assume ok: "comm_ok g"
  then have "settled sm"
    using assms f by (auto simp: implements_def comm_ok_def dest!: spec [of _ "g_control g"])
  then show "comm_ok (snd (transitionControl f g))" using ok unfolding eq by (simp add: comm_ok_def)
qed

lemma set_state_ok:
  assumes "settled (g_control g)" and "s \<noteq> CommunicationStateDisabled"
  shows "comm_ok g \<Longrightarrow> comm_ok (setState s g)"
    and "g_waitCRATimer g = None \<Longrightarrow> g_waitDelayTimer g = None \<Longrightarrow> comm_ok (setState s g)"
    and "comm_ok g \<Longrightarrow> comm_ok (setStateWithWaitCRA CommunicationStateWaitCRA d g)"
    and "comm_ok g \<Longrightarrow> comm_ok (setStateWithWaitDelay CommunicationStateWaitDelay d g)"
  using assms
  by (auto simp: setState_def setStateWithWaitCRA_def setStateWithWaitDelay_def stopTimers_def comm_ok_def Let_def)

lemma frame_set_state [simp]:
  "reg_part (stopTimers g) = reg_part g" "reg_part (setState s g) = reg_part g"
  "reg_part (setStateWithWaitCRA s d g) = reg_part g" "reg_part (setStateWithWaitDelay s d g) = reg_part g"
  by (simp_all add: stopTimers_def setState_def setStateWithWaitCRA_def setStateWithWaitDelay_def Let_def)

lemma onCommunicationStateChanged_ok:
  "comm_ok g \<Longrightarrow> comm_ok (onCommunicationStateChanged s t g)"
  "reg_part (onCommunicationStateChanged s t g) = reg_part g"
proof -
  note tr = transitionControl_ok [OF control_ops_implement(1)] transitionControl_ok [OF lost_transition_implements]
  have h: "comm_ok g \<Longrightarrow> comm_ok (g\<lparr>g_handshakeInProgress := False\<rparr>)" for g :: "'a gem_handler"
    by (simp add: comm_ok_def)
  have i: "comm_ok g \<Longrightarrow> comm_ok (initiateAttemptOnline g)" for g :: "'a gem_handler"
    using comm_ok_part [of "initiateAttemptOnline g" g] by simp
  show "comm_ok g \<Longrightarrow> comm_ok (onCommunicationStateChanged s t g)"
    by (auto simp: onCommunicationStateChanged_def Let_def intro!: tr h i)
  show "reg_part (onCommunicationStateChanged s t g) = reg_part g"
    by (simp add: onCommunicationStateChanged_def Let_def tr)
qed

lemma setCommunicationState_ok:
  assumes "settled (g_control g)" and "s \<noteq> CommunicationStateDisabled"
    and "comm_ok g \<or> (g_waitCRATimer g = None \<and> g_waitDelayTimer g = None)"
  shows "comm_ok (setCommunicationState s g)"
  unfolding setCommunicationState_def
  by (rule onCommunicationStateChanged_ok)
    (use set_state_ok(1) [OF assms(1,2)] set_state_ok(2) [OF assms(1,2)] assms(3) in auto)

lemma frame_setCommunicationState [simp]: "reg_part (setCommunicationState s g) = reg_part g"
  by (simp add: setCommunicationState_def onCommunicationStateChanged_ok)

lemma comm_ok_settled: "comm_ok g \<Longrightarrow> settled (g_control g)"
  by (simp add: comm_ok_def)

lemma setCommunicating_ok:
  "comm_ok g \<Longrightarrow> comm_ok (setCommunicating g)" "reg_part (setCommunicating g) = reg_part g"
proof -
  have n: "comm_ok (notifyCommunicating g) \<longleftrightarrow> comm_ok g" for g :: "'a gem_handler"
    by (rule comm_ok_part) simp
  show "comm_ok g \<Longrightarrow> comm_ok (setCommunicating g)"
    using set_state_ok(1) [of g CommunicationStateCommunicating]
    by (auto simp: setCommunicating_def Let_def n comm_ok_settled intro!: onCommunicationStateChanged_ok)
  show "reg_part (setCommunicating g) = reg_part g"
    by (simp add: setCommunicating_def Let_def onCommunicationStateChanged_ok)
qed

lemma scheduleRetry_ok:
  "comm_ok g \<Longrightarrow> comm_ok (scheduleRetry g)" "reg_part (scheduleRetry g) = reg_part g"
  using set_state_ok(4) [of g CommunicationStateWaitDelay]
  by (auto simp: scheduleRetry_def comm_ok_settled)

section \<open>The message handlers\<close>

definition gem_ok :: "'w gem_handler \<Rightarrow> bool" where
  "gem_ok g \<longleftrightarrow> comm_ok g \<and> regs_ok g"

lemma gem_okI: "comm_ok g' \<Longrightarrow> reg_part g' = reg_part g \<Longrightarrow> gem_ok g \<Longrightarrow> gem_ok g'"
  using regs_ok_part by (auto simp: gem_ok_def)

lemma gem_ok_parts: "comm_part g' = comm_part g \<Longrightarrow> reg_part g' = reg_part g \<Longrightarrow> gem_ok g \<Longrightarrow> gem_ok g'"
  using comm_ok_part regs_ok_part by (auto simp: gem_ok_def)

lemma gem_ok_comm: "gem_ok g \<Longrightarrow> comm_ok g" by (simp add: gem_ok_def)

text \<open>Handlers that change the registries.\<close>

lemma onS2F15_ok:
  assumes "gem_ok g"
  shows "gem_ok (snd (onS2F15 m g))"
proof -
  have "\<exists>us. snd (onS2F15 m g) = g \<or> snd (onS2F15 m g) = snd (apply_updates us g)"
  proof (cases "\<exists>us. parseEquipmentConstantUpdateList m = Inr (Inr us)")
    case True
    then obtain us where us: "parseEquipmentConstantUpdateList m = Inr (Inr us)" by blast
    show ?thesis
      by (rule exI [of _ us]) (simp add: onS2F15_def us applyEquipmentConstantUpdates_def split: prod.split)
  next
    case False
    then have "snd (onS2F15 m g) = g" by (auto simp: onS2F15_def split: sum.split)
    then show ?thesis by blast
  qed
  then obtain us where "snd (onS2F15 m g) = g \<or> snd (onS2F15 m g) = snd (apply_updates us g)" by blast
  then consider "snd (onS2F15 m g) = g" |
    w mm where "snd (onS2F15 m g) = g\<lparr>g_world := w, g_equipmentConstants := mm\<rparr>"
      "same_infos (g_equipmentConstants g) mm"
    using apply_updates_frame [of us g] by (metis prod.collapse)
  then show ?thesis
  proof cases
    case 2
    have "map_option ec_info (mm k) = map_option ec_info (g_equipmentConstants g k)" for k
      using 2(2) by (simp add: same_infos_def)
    then have "ecs.in_order (g\<lparr>g_world := w, g_equipmentConstants := mm\<rparr>) \<longleftrightarrow> ecs.in_order g"
      using same_infos_dom [OF 2(2)]
      by (auto simp: ecs.in_order_def) (metis (no_types, lifting) map_option_eq_Some)+
    then show ?thesis
      using assms unfolding 2(1) gem_ok_def regs_ok_def
      by (simp add: comm_ok_def svs.in_order_def dvs.in_order_def ces.in_order_def reports_ok_def vidExists_def)
  qed (use assms in simp)
qed

lemma reports_only:
  assumes "gem_ok g" and "reports_ok (g\<lparr>g_reports := r, g_eventLinks := l\<rparr>)"
  shows "gem_ok (g\<lparr>g_reports := r, g_eventLinks := l\<rparr>)"
  using assms by (simp add: gem_ok_def regs_ok_def comm_ok_def svs.in_order_def ecs.in_order_def
      dvs.in_order_def ces.in_order_def)

text \<open>\<open>only_reports g g'\<close>: \<open>g'\<close> differs from \<open>g\<close> in the reports and links only.\<close>

definition only_reports :: "('w, 'z) gem_coll' \<Rightarrow> ('w, 'z) gem_coll' \<Rightarrow> bool" where
  "only_reports g g' \<longleftrightarrow> (\<exists>r l. g' = g\<lparr>g_reports := r, g_eventLinks := l\<rparr>)"

lemma only_reports_refl [simp]: "only_reports g g"
  unfolding only_reports_def by (rule exI [of _ "g_reports g"], rule exI [of _ "g_eventLinks g"]) simp

lemma only_reports_trans: "only_reports a b \<Longrightarrow> only_reports b c \<Longrightarrow> only_reports a c"
  unfolding only_reports_def by (elim exE, hypsubst) (intro exI, simp)

lemma only_reports_upd:
  "only_reports g (g\<lparr>g_reports := r\<rparr>)" "only_reports g (g\<lparr>g_eventLinks := l\<rparr>)"
  "only_reports g (removeReportUnlocked k g)"
proof -
  show "only_reports g (g\<lparr>g_reports := r\<rparr>)" unfolding only_reports_def
    by (rule exI [of _ r], rule exI [of _ "g_eventLinks g"]) simp
  show "only_reports g (g\<lparr>g_eventLinks := l\<rparr>)" unfolding only_reports_def
    by (rule exI [of _ "g_reports g"], rule exI [of _ l]) simp
  show "only_reports g (removeReportUnlocked k g)" unfolding only_reports_def removeReportUnlocked_def
    by blast
qed

lemma gem_ok_reports: "only_reports g g' \<Longrightarrow> gem_ok g \<Longrightarrow> reports_ok g' \<Longrightarrow> gem_ok g'"
  unfolding only_reports_def using reports_only by blast

lemma gem_ok_reports_ok: "gem_ok g \<Longrightarrow> reports_ok g"
  by (simp add: gem_ok_def regs_ok_def)

lemma define_reports_only: "define_reports rs g = Inr (ack, g') \<Longrightarrow> only_reports g g'"
proof (induction rs g rule: define_reports.induct)
  case (2 i vids rs g)
  show ?case
  proof (cases "vids = []")
    case True
    then have "only_reports (removeReportUnlocked (id_key i) g) g'" using 2 by simp
    then show ?thesis using only_reports_upd(3) by (blast intro: only_reports_trans)
  next
    case False
    obtain r where r: "newReportDefinition (id_raw i) vids = Inr r"
      using "2.prems" False by (auto simp: go_bind_Inr_iff)
    show ?thesis
    proof (cases r)
      case (Inr d)
      let ?g = "g\<lparr>g_reports := (g_reports g)(id_key i := Some d)\<rparr>"
      have "only_reports ?g g'" using "2.IH"(2) [OF False r Inr] "2.prems" False r Inr by simp
      then show ?thesis using only_reports_upd(1) by (blast intro: only_reports_trans)
    qed (use "2.prems" False r in simp)
  qed
qed simp

lemma onS2F33_ok:
  assumes "gem_ok g"
  shows "gem_ok (snd (onS2F33 m g))"
proof (cases "\<exists>rs ack g'. parseReportDefinitionList m = Inr (Inr rs) \<and> handleReportDefinitions rs g = Inr (ack, g')")
  case True
  then obtain rs ack g' where p: "parseReportDefinitionList m = Inr (Inr rs)"
    and h: "handleReportDefinitions rs g = Inr (ack, g')" by blast
  have "entries_keyed rs" using p by (simp add: parseReportDefinitionList_def id_entries_keyed)
  then have "reports_ok g'" using handleReportDefinitions_ok [OF h gem_ok_reports_ok [OF assms]] by blast
  moreover have "only_reports g g'"
  proof (cases "rs = []")
    case True
    then show ?thesis
      using h only_reports_trans [OF only_reports_upd(1) only_reports_upd(2)]
        only_reports_trans [OF only_reports_upd(2) only_reports_upd(1)]
      by (auto simp: handleReportDefinitions_def)
  qed (use h define_reports_only [of rs g ack g'] in \<open>auto simp: handleReportDefinitions_def split: if_splits\<close>)
  ultimately have "gem_ok g'" using gem_ok_reports assms by blast
  then show ?thesis using p h by (simp add: onS2F33_def)
next
  case False
  then have "snd (onS2F33 m g) = g" by (auto simp: onS2F33_def split: sum.split prod.split)
  then show ?thesis using assms by simp
qed

lemma apply_links_only: "only_reports g (fold apply_link ls g)"
proof (induction ls arbitrary: g)
  case (Cons l ls)
  have "only_reports g (apply_link l g)"
    by (auto simp: apply_link_def Let_def only_reports_upd split: prod.split)
  then show ?case using Cons.IH [of "apply_link l g"] by (auto intro: only_reports_trans)
qed simp

lemma onS2F35_ok:
  assumes "gem_ok g"
  shows "gem_ok (snd (onS2F35 m g))"
proof -
  have "gem_ok (snd (handleEventReportLinks ls g))" for ls
    using handleEventReportLinks_ok(1) [OF gem_ok_reports_ok [OF assms], of ls] apply_links_only [of g ls] assms
    by (auto simp: handleEventReportLinks_def intro: gem_ok_reports)
  then show ?thesis using assms by (auto simp: onS2F35_def split: sum.split prod.split) (metis snd_conv)
qed

lemma set_enabled_only: "set_enabled b ces g = (ack, g') \<Longrightarrow> only_reports g g'"
proof (induction ces arbitrary: g)
  case (Cons ce ces)
  show ?case
  proof (cases "g_eventLinks g (id_key ce)")
    case (Some link)
    then show ?thesis
      using Cons by (auto intro: only_reports_trans only_reports_upd)
  qed (use Cons.prems in simp)
qed simp

lemma onS2F37_ok:
  assumes "gem_ok g"
  shows "gem_ok (snd (onS2F37 m g))"
proof -
  have "gem_ok (snd (setCollectionEventState b ces g))" for b ces
  proof -
    obtain ack g' where h: "setCollectionEventState b ces g = (ack, g')" by force
    have "reports_ok g'" using setCollectionEventState_ok [OF h] gem_ok_reports_ok [OF assms] by blast
    moreover have "only_reports g g'"
      using h set_enabled_only [of b ces g ack g'] only_reports_upd(2)
      by (auto simp: setCollectionEventState_def split: if_splits)
    ultimately show ?thesis using gem_ok_reports assms h by auto
  qed
  then show ?thesis using assms by (auto simp: onS2F37_def split: sum.split prod.split) (metis snd_conv)
qed

end
