(* ===== verification/Gem_Steps.thy ===== *)
theory Gem_Steps
  imports Gem_Invariants
begin

text \<open>
  The whole of a GEM handler on its protocol as a step relation, and the proof that its invariant
  \<open>gem_ok\<close> holds in every reachable state.

  A step is one of: a step of the HSMS protocol with the handlers that are registered, a tick of the
  monitor, one part of a goroutine of the handler, a timer that fires, or a call of the application.
  The application's own handlers and callbacks change the state of the application only.
\<close>

section \<open>Registration\<close>

lemma register_status_ok:
  assumes ok: "gem_ok g"
  shows "gem_ok (snd (RegisterStatusVariable x g))"
proof (cases "snd (RegisterStatusVariable x g) = g")
  case False
  obtain m l where e: "snd (RegisterStatusVariable x g) = g\<lparr>g_statusVars := m, g_statusOrder := l\<rparr>"
    using False by (auto simp: RegisterStatusVariable_def Let_def split: option.splits if_splits)
  have i: "svs.in_order (g\<lparr>g_statusVars := m, g_statusOrder := l\<rparr>)"
    using svs.register_in_order [of g x] ok unfolding e by (simp add: gem_ok_def regs_ok_def)
  have k: "m k = Some v" if "g_statusVars g k = Some v" for k v
    using svs.register_keeps [OF that, of x] unfolding e by simp
  have "vidExists v g \<Longrightarrow> vidExists v (g\<lparr>g_statusVars := m, g_statusOrder := l\<rparr>)" for v
    using k by (auto simp: vidExists_def)
  then show ?thesis
    using ok i unfolding e by (simp add: gem_ok_def regs_ok_def comm_ok_def ecs.in_order_def dvs.in_order_def
        ces.in_order_def reports_ok_def)
qed (use ok in simp)

lemma register_data_ok:
  assumes ok: "gem_ok g"
  shows "gem_ok (snd (RegisterDataVariable x g))"
proof (cases "snd (RegisterDataVariable x g) = g")
  case False
  obtain m l where e: "snd (RegisterDataVariable x g) = g\<lparr>g_dataVars := m, g_dataVarOrder := l\<rparr>"
    using False by (auto simp: RegisterDataVariable_def Let_def split: option.splits if_splits)
  have i: "dvs.in_order (g\<lparr>g_dataVars := m, g_dataVarOrder := l\<rparr>)"
    using dvs.register_in_order [of g x] ok unfolding e by (simp add: gem_ok_def regs_ok_def)
  have k: "m k = Some v" if "g_dataVars g k = Some v" for k v
    using dvs.register_keeps [OF that, of x] unfolding e by simp
  have "vidExists v g \<Longrightarrow> vidExists v (g\<lparr>g_dataVars := m, g_dataVarOrder := l\<rparr>)" for v
    using k by (auto simp: vidExists_def)
  then show ?thesis
    using ok i unfolding e by (simp add: gem_ok_def regs_ok_def comm_ok_def ecs.in_order_def svs.in_order_def
        ces.in_order_def reports_ok_def)
qed (use ok in simp)

lemma register_constant_ok:
  assumes ok: "gem_ok g"
  shows "gem_ok (snd (RegisterEquipmentConstant x g))"
proof (cases "snd (RegisterEquipmentConstant x g) = g")
  case False
  obtain m l where e: "snd (RegisterEquipmentConstant x g) = g\<lparr>g_equipmentConstants := m, g_ecOrder := l\<rparr>"
    using False by (auto simp: RegisterEquipmentConstant_def Let_def split: option.splits if_splits)
  have "ecs.in_order (g\<lparr>g_equipmentConstants := m, g_ecOrder := l\<rparr>)"
    using ecs.register_in_order [of g x] ok unfolding e by (simp add: gem_ok_def regs_ok_def)
  then show ?thesis
    using ok unfolding e by (simp add: gem_ok_def regs_ok_def comm_ok_def dvs.in_order_def svs.in_order_def
        ces.in_order_def reports_ok_def vidExists_def)
qed (use ok in simp)

lemma register_event_ok:
  assumes ok: "gem_ok g"
  shows "gem_ok (snd (RegisterCollectionEvent x g))"
proof (cases "snd (RegisterCollectionEvent x g) = g")
  case False
  obtain m l where e: "snd (RegisterCollectionEvent x g) = g\<lparr>g_collectionEvents := m, g_collectionOrder := l\<rparr>"
    using False by (auto simp: RegisterCollectionEvent_def Let_def split: option.splits if_splits)
  have i: "ces.in_order (g\<lparr>g_collectionEvents := m, g_collectionOrder := l\<rparr>)"
    using ces.register_in_order [of g x] ok unfolding e by (simp add: gem_ok_def regs_ok_def)
  have k: "m k = Some v" if "g_collectionEvents g k = Some v" for k v
    using ces.register_keeps [OF that, of x] unfolding e by simp
  have "g_collectionEvents g v \<noteq> None \<Longrightarrow> m v \<noteq> None" for v
    using k by auto
  then show ?thesis
    using ok i unfolding e by (simp add: gem_ok_def regs_ok_def comm_ok_def ecs.in_order_def svs.in_order_def
        dvs.in_order_def reports_ok_def vidExists_def)
qed (use ok in simp)

section \<open>Message handlers\<close>

text \<open>What becomes of the control state machine.\<close>

lemma control_transition [simp]: "g_control (snd (transitionControl f g)) = snd (f (g_control g))"
  by (auto simp: transitionControl_def Let_def onControlStateTransition_def initiateAttemptOnline_def fire_def
      split: prod.split sum.split)

lemma control_frame [simp]:
  "g_control (fire e d g) = g_control g" "g_control (initiateAttemptOnline g) = g_control g"
  "g_control (initiateHandshake g) = g_control g" "g_control (initiateEstablishCommunication g) = g_control g"
  "g_control (stopTimers g) = g_control g" "g_control (setState s g) = g_control g"
  "g_control (setStateWithWaitCRA s d g) = g_control g" "g_control (setStateWithWaitDelay s d g) = g_control g"
  "g_control (notifyCommunicating g) = g_control g" "g_control (scheduleRetry g) = g_control g"
  "g_control (handshake_done g) = g_control g"
  "g_control (attempt_done f g) = snd (f (g_control g))"
  by (simp_all add: fire_def initiateAttemptOnline_def initiateHandshake_def initiateEstablishCommunication_def
      stopTimers_def setState_def setStateWithWaitCRA_def setStateWithWaitDelay_def notifyCommunicating_def
      scheduleRetry_def handshake_done_def attempt_done_def Let_def)

lemma onCommunicationStateChanged_moves:
  "settled (g_control g) \<Longrightarrow> moves (g_control g) (g_control (onCommunicationStateChanged s t g))"
  using implements_moves [OF control_ops_implement(1)] implements_moves [OF lost_transition_implements]
  by (simp add: onCommunicationStateChanged_def Let_def)

lemma communication_moves:
  assumes "settled (g_control g)"
  shows "moves (g_control g) (g_control (setCommunicationState s g))"
    and "moves (g_control g) (g_control (setCommunicating g))"
  using onCommunicationStateChanged_moves [of "setState s g"] assms
    onCommunicationStateChanged_moves [of "notifyCommunicating (setState CommunicationStateCommunicating g)"]
    onCommunicationStateChanged_moves [of "setState CommunicationStateCommunicating g"]
  by (simp_all add: setCommunicationState_def setCommunicating_def Let_def)

text \<open>A handler that may be registered: it keeps the invariant, and the control state makes one
  transition of the model at most.\<close>

definition keeps :: "('w gem_handler) handler \<Rightarrow> bool" where
  "keeps h \<longleftrightarrow> (\<forall>m g. gem_ok g \<longrightarrow> gem_ok (snd (h m g)) \<and> moves (g_control g) (g_control (snd (h m g))))"

lemma keeps_same:
  assumes "\<And>m g. gem_ok g \<Longrightarrow> gem_ok (snd (h m g))" and "\<And>m g. g_control (snd (h m g)) = g_control g"
  shows "keeps h"
  using assms by (simp add: keeps_def)

lemma gem_ok_settled: "gem_ok g \<Longrightarrow> settled (g_control g)"
  by (simp add: gem_ok_def comm_ok_def)

text \<open>A handler of the application: it changes the application's state only.\<close>

definition world_only :: "('w gem_handler) handler \<Rightarrow> bool" where
  "world_only h \<longleftrightarrow> (\<forall>m g. \<exists>w. snd (h m g) = g\<lparr>g_world := w\<rparr>)"

lemma world_only_keeps:
  assumes "world_only h"
  shows "keeps h"
proof (rule keeps_same)
  fix m and g :: "'a gem_handler"
  obtain w where w: "snd (h m g) = g\<lparr>g_world := w\<rparr>" using assms unfolding world_only_def by blast
  show "g_control (snd (h m g)) = g_control g" by (simp add: w)
  assume "gem_ok g"
  then show "gem_ok (snd (h m g))" unfolding w by (rule gem_ok_parts [rotated 2]) simp_all
qed

lemma transition_gem_ok:
  assumes "implements ns f" and "gem_ok g"
  shows "gem_ok (snd (transitionControl f g))"
  using transitionControl_ok [OF assms(1)] assms(2) by (meson gem_okI gem_ok_comm)

lemma setCommunicating_gem_ok: "gem_ok g \<Longrightarrow> gem_ok (setCommunicating g)"
  using setCommunicating_ok by (meson gem_okI gem_ok_comm)

lemma scheduleRetry_gem_ok: "gem_ok g \<Longrightarrow> gem_ok (scheduleRetry g)"
  using scheduleRetry_ok by (meson gem_okI gem_ok_comm)

lemma setCommunicationState_gem_ok:
  "gem_ok g \<Longrightarrow> s \<noteq> CommunicationStateDisabled \<Longrightarrow> gem_ok (setCommunicationState s g)"
  using setCommunicationState_ok frame_setCommunicationState by (metis gem_okI gem_ok_comm comm_ok_settled)

lemma world_gem_ok [simp]: "gem_ok (g\<lparr>g_world := w\<rparr>) \<longleftrightarrow> gem_ok g"
proof
  assume ok: "gem_ok (g\<lparr>g_world := w\<rparr>)"
  show "gem_ok g" by (rule gem_ok_parts [OF _ _ ok]) simp_all
next
  assume ok: "gem_ok g"
  show "gem_ok (g\<lparr>g_world := w\<rparr>)" by (rule gem_ok_parts [OF _ _ ok]) simp_all
qed

lemma stores_gem_ok: "gem_ok g \<Longrightarrow> gem_ok (g\<lparr>g_alarms := as\<rparr>)" "gem_ok g \<Longrightarrow> gem_ok (g\<lparr>g_programs := ps\<rparr>)"
  by (erule gem_ok_parts [rotated 2]; simp)+

lemma keeps_transition:
  assumes "implements ns f" and "\<And>m g. snd (h m g) = g \<or> snd (h m g) = snd (transitionControl f g)"
  shows "keeps h"
  unfolding keeps_def
proof (intro allI impI)
  fix m and g :: "'a gem_handler"
  assume ok: "gem_ok g"
  from assms(2) [of m g] show "gem_ok (snd (h m g)) \<and> moves (g_control g) (g_control (snd (h m g)))"
  proof
    assume "snd (h m g) = snd (transitionControl f g)"
    then show ?thesis
      using transition_gem_ok [OF assms(1) ok] implements_moves [OF assms(1) gem_ok_settled [OF ok]] by simp
  qed (use ok in simp)
qed

lemma online_requests:
  "snd (onS1F15 m g) = g \<or> snd (onS1F15 m g) = snd (transitionControl RemoteOffline g)"
  "snd (onS1F17 m g') = g' \<or> snd (onS1F17 m g') = snd (transitionControl RemoteOnline g')"
  by (simp_all add: onS1F15_def onS1F17_def split: prod.split)

lemma keeps_plain: "keeps onS1F1" "keeps onS1F13" "keeps onS1F14" "keeps onS1F15" "keeps onS1F17"
proof -
  show "keeps onS1F1" by (rule keeps_same) (simp_all add: onS1F1_def)
  show "keeps onS1F13" "keeps onS1F14"
    unfolding keeps_def
    by (simp_all add: onS1F13_def onS1F14_def Let_def setCommunicating_gem_ok scheduleRetry_gem_ok
        communication_moves(2) gem_ok_settled)
  show "keeps onS1F15" by (rule keeps_transition [OF control_ops_implement(8) online_requests(1)])
  show "keeps onS1F17" by (rule keeps_transition [OF control_ops_implement(9) online_requests(2)])
qed

text \<open>The handlers of variables and reports leave the control state alone.\<close>

lemma control_only_reports: "only_reports g g' \<Longrightarrow> g_control g' = g_control g" for g :: "'w gem_handler"
  unfolding only_reports_def by auto

lemma control_vars:
  fixes g :: "'w gem_handler"
  shows "g_control (snd (onS2F15 m g)) = g_control g" "g_control (snd (onS2F33 m g)) = g_control g"
    "g_control (snd (onS2F35 m g)) = g_control g" "g_control (snd (onS2F37 m g)) = g_control g"
    "g_control (snd (onS6F11 m g)) = g_control g"
proof -
  show "g_control (snd (onS2F15 m g)) = g_control g"
    by (auto simp: onS2F15_def applyEquipmentConstantUpdates_def split: sum.split prod.split
        dest!: apply_updates_frame)
  have "g_control g' = g_control g" if "handleReportDefinitions rs g = Inr (ack, g')" for rs ack g'
    using that control_only_reports [OF define_reports_only] by (auto simp: handleReportDefinitions_def split: if_splits)
  then show "g_control (snd (onS2F33 m g)) = g_control g"
    by (auto simp: onS2F33_def split: sum.split prod.split)
  show "g_control (snd (onS2F35 m g)) = g_control g"
    using control_only_reports [OF apply_links_only]
    by (auto simp: onS2F35_def handleEventReportLinks_def split: sum.split prod.split)
  have "g_control (snd (setCollectionEventState b ces g)) = g_control g" for b ces
    using control_only_reports [OF set_enabled_only [of b ces g]]
    by (cases "set_enabled b ces g") (simp add: setCollectionEventState_def)
  then show "g_control (snd (onS2F37 m g)) = g_control g"
    by (auto simp: onS2F37_def split: sum.split prod.split) (metis snd_conv)
  show "g_control (snd (onS6F11 m g)) = g_control g" by (auto simp: onS6F11_def split: sum.split)
qed

lemma keeps_vars:
  "keeps (reads_vars f)" "keeps (writes_vars onS2F15)" "keeps (writes_vars onS2F33)"
  "keeps (writes_vars onS2F35)" "keeps (writes_vars onS2F37)" "keeps (writes_vars onS6F11)"
proof -
  have w: "keeps (writes_vars f)"
    if "\<And>m g. gem_ok g \<Longrightarrow> gem_ok (snd (f m g))" "\<And>m g. g_control (snd (f m g)) = g_control g" for f
    by (rule keeps_same) (use that in \<open>simp_all add: writes_vars_def split_def\<close>)
  show "keeps (reads_vars f)" by (rule keeps_same) (simp_all add: reads_vars_def)
  show "keeps (writes_vars onS2F15)" "keeps (writes_vars onS2F33)"
    "keeps (writes_vars onS2F35)" "keeps (writes_vars onS2F37)"
    by (rule w; simp add: onS2F15_ok onS2F33_ok onS2F35_ok onS2F37_ok control_vars)+
  show "keeps (writes_vars onS6F11)"
    by (rule w) (auto simp: onS6F11_def split: sum.split)
qed

lemma keeps_services:
  "keeps gem_onS5F1" "keeps gem_onS2F41" "keeps gem_onS2F17" "keeps gem_onS2F31" "keeps gem_onS5F3"
  "keeps gem_onS5F5" "keeps gem_onS5F7" "keeps gem_onS7F3" "keeps gem_onS7F5"
proof -
  have 2: "gem_ok g \<Longrightarrow> gem_ok (g\<lparr>g_programs := s, g_world := w\<rparr>)" for g :: "'a gem_handler" and s w
    using stores_gem_ok(2) by simp
  show "keeps gem_onS5F1" "keeps gem_onS2F41" "keeps gem_onS2F17" "keeps gem_onS2F31" "keeps gem_onS5F3"
    "keeps gem_onS5F5" "keeps gem_onS5F7" "keeps gem_onS7F3" "keeps gem_onS7F5"
    by (rule keeps_same; simp add: gem_onS5F1_def gem_onS2F41_def gem_onS2F17_def gem_onS2F31_def gem_onS5F3_def
      gem_onS5F5_def gem_onS5F7_def gem_onS7F3_def gem_onS7F5_def stores_gem_ok 2 split: prod.split)+
qed

lemma gem_handlers_keep: "(s, f, h) \<in> set (gem_handlers d) \<Longrightarrow> keeps h"
  using keeps_plain keeps_vars keeps_services
  by (auto simp: gem_handlers_def equipment_handlers_def split: if_splits)

section \<open>The invariant of the handler on its protocol\<close>

definition gem_inv :: "'w gem \<Rightarrow> bool" where
  "gem_inv p \<longleftrightarrow> gem_ok (hp_app p) \<and> (\<forall>h. registered h p \<longrightarrow> keeps h)"

lemma gem_inv_served: "served p' = served p \<Longrightarrow> gem_inv p' \<longleftrightarrow> gem_inv p"
  by (simp add: gem_inv_def served_def registered_def)

lemma registered_on_gem [simp]: "registered h (on_gem f p) \<longleftrightarrow> registered h p"
  by (simp add: registered_def on_gem_def)

lemma gem_inv_on_gem: "gem_inv p \<Longrightarrow> (gem_ok (hp_app p) \<Longrightarrow> gem_ok (f (hp_app p))) \<Longrightarrow> gem_inv (on_gem f p)"
  by (simp add: gem_inv_def)

lemma gem_inv_serves:
  assumes "gem_inv p" and "serves p p'"
  shows "gem_inv p'"
  using assms unfolding serves_def
proof (elim disjE exE conjE)
  fix h m
  assume r: "registered h p" and s: "served p' = served (after_handler h m p)"
  have "keeps h" and "gem_ok (hp_app p)" using assms(1) r by (auto simp: gem_inv_def)
  then have "gem_ok (snd (h m (hp_app p)))" by (simp add: keeps_def)
  then have "gem_inv (after_handler h m p)"
    using assms(1) by (simp add: gem_inv_def after_handler_def registered_def)
  then show "gem_inv p'" using gem_inv_served [OF s] by simp
qed (use gem_inv_served in blast)

lemma gem_inv_register:
  assumes "gem_inv p" and "\<And>h. handler = Some h \<Longrightarrow> keeps h"
  shows "gem_inv (RegisterHandler st f handler p)" "gem_inv (RegisterDefaultHandler handler p)"
proof -
  show "gem_inv (RegisterHandler st f handler p)"
    using assms unfolding gem_inv_def registered_def RegisterHandler_def Let_def
    by (cases handler) (auto split: if_splits)
  show "gem_inv (RegisterDefaultHandler handler p)"
    using assms by (auto simp: gem_inv_def registered_def RegisterDefaultHandler_def)
qed

section \<open>Goroutines, timers and the monitor\<close>

text \<open>A flag or a counter of the handler.\<close>

lemma flags_gem_ok:
  "gem_ok g \<Longrightarrow> gem_ok (g\<lparr>g_controlAttemptInProgress := b\<rparr>)" "gem_ok g \<Longrightarrow> gem_ok (handshake_done g)"
  "gem_ok g \<Longrightarrow> gem_ok (initiateHandshake g)" "gem_ok g \<Longrightarrow> gem_ok (initiateEstablishCommunication g)"
  "gem_ok g \<Longrightarrow> gem_ok (initiateAttemptOnline g)" "gem_ok g \<Longrightarrow> gem_ok (g\<lparr>g_handshakeInProgress := b\<rparr>)"
  unfolding handshake_done_def by (erule gem_ok_parts [rotated 2]; simp)+

lemma timers_gem_ok:
  "gem_ok g \<Longrightarrow> gem_ok (g\<lparr>g_waitCRATimer := None\<rparr>)" "gem_ok g \<Longrightarrow> gem_ok (g\<lparr>g_waitDelayTimer := None\<rparr>)"
  "gem_ok g \<Longrightarrow> gem_ok (stopTimers g)"
  by (rule gem_okI [where g = g]; simp add: stopTimers_def gem_ok_def comm_ok_def)+

lemma attempt_done_gem_ok: "implements ns f \<Longrightarrow> gem_ok g \<Longrightarrow> gem_ok (attempt_done f g)"
  by (simp add: attempt_done_def flags_gem_ok transition_gem_ok)

text \<open>A goroutine that sends a request and goes on after its reply.\<close>

lemma gem_inv_call:
  assumes "gem_inv p" and "\<And>g. gem_ok g \<Longrightarrow> gem_ok (f g)"
  shows "go_all (\<lambda>x. gem_inv (snd x)) (go_bind mk (\<lambda>m. go_bind (SendAndWait_begin (Some m) p) (\<lambda>(r, p').
    case r of Inl e \<Rightarrow> Inr (None, on_gem f p') | Inr w \<Rightarrow> Inr (Some w, p'))))"
proof (rule any_bind)
  fix m
  have "go_all (\<lambda>x. gem_inv (snd x)) (SendAndWait_begin (Some m) p)"
    by (rule go_all_mono [OF serve.view_SendAndWait_begin]) (use assms(1) gem_inv_served in auto)
  then show "go_all (\<lambda>x. gem_inv (snd x)) (go_bind (SendAndWait_begin (Some m) p) (\<lambda>(r, p').
      case r of Inl e \<Rightarrow> Inr (None, on_gem f p') | Inr w \<Rightarrow> Inr (Some w, p')))"
    unfolding go_all_bind
    by (rule go_all_mono) (auto split: sum.split intro: gem_inv_on_gem [OF _ assms(2)])
qed

lemma gem_inv_reply:
  assumes "gem_inv p" and "\<And>r g. gem_ok g \<Longrightarrow> gem_ok (f r g)"
  shows "go_all gem_inv (go_bind (SendAndWait_end k out p) (\<lambda>(r, p'). Inr (on_gem (f r) p')))"
proof -
  have "go_all (\<lambda>x. gem_inv (snd x)) (SendAndWait_end k out p)"
    by (rule go_all_mono [OF serve.view_SendAndWait_end]) (use assms(1) gem_inv_served in auto)
  then show ?thesis
    unfolding go_all_bind by (rule go_all_mono) (auto intro: gem_inv_on_gem [OF _ assms(2)])
qed

lemma attempt_begin_inv: "gem_inv p \<Longrightarrow> go_all (\<lambda>x. gem_inv (snd x)) (attempt_begin p)"
  unfolding attempt_begin_def
  by (auto simp del: go_all_bind intro!: gem_inv_on_gem gem_inv_call flags_gem_ok
      attempt_done_gem_ok [OF control_ops_implement(6)])

lemma establish_begin_inv: "gem_inv p \<Longrightarrow> go_all (\<lambda>x. gem_inv (snd x)) (establish_begin p)"
  unfolding establish_begin_def
  by (auto simp del: go_all_bind intro!: gem_inv_on_gem gem_inv_call flags_gem_ok)

lemma waitCRA_gem_ok: "gem_ok g \<Longrightarrow> gem_ok (setStateWithWaitCRA CommunicationStateWaitCRA d g)"
  using set_state_ok(3) frame_set_state(3) by (metis gem_okI gem_ok_comm comm_ok_settled comm_state.distinct(3))

lemma handshake_begin_inv: "gem_inv p \<Longrightarrow> go_all (\<lambda>x. gem_inv (snd x)) (handshake_begin p)"
  unfolding handshake_begin_def Let_def
  by (auto intro!: gem_inv_on_gem gem_inv_call flags_gem_ok scheduleRetry_gem_ok waitCRA_gem_ok
      simp: comp_def simp del: go_all_bind)

text \<open>What a goroutine does with the outcome of its wait.\<close>

definition attempt_outcome :: "data_message res \<Rightarrow> 'w gem_handler \<Rightarrow> 'w gem_handler" where
  "attempt_outcome r = attempt_done (case r of Inl e \<Rightarrow> AttemptOnlineFailHostOffline | Inr resp \<Rightarrow>
      if dm_stream resp \<noteq> 1 \<or> dm_function resp \<noteq> 2 then AttemptOnlineFailHostOffline else AttemptOnlineSuccess)"

definition comm_outcome :: "('w gem_handler \<Rightarrow> 'w gem_handler) \<Rightarrow> data_message res \<Rightarrow> 'w gem_handler \<Rightarrow> 'w gem_handler" where
  "comm_outcome denied r = handshake_done \<circ> (case r of Inl e \<Rightarrow> denied | Inr resp \<Rightarrow>
      if readCommAck (Some resp) \<noteq> 0 then denied else setCommunicating)"

lemma ends_eq:
  "attempt_end k out p = go_bind (SendAndWait_end k out p) (\<lambda>(r, p'). Inr (on_gem (attempt_outcome r) p'))"
  "establish_end k out p = go_bind (SendAndWait_end k out p) (\<lambda>(r, p'). Inr (on_gem (comm_outcome id r) p'))"
  "handshake_end k out p = go_bind (SendAndWait_end k out p) (\<lambda>(r, p'). Inr (on_gem (comm_outcome scheduleRetry r) p'))"
  unfolding attempt_end_def establish_end_def handshake_end_def
  by (rule arg_cong [of _ _ "go_bind _"]; auto simp: attempt_outcome_def comm_outcome_def split: sum.split)+

lemma outcomes_gem_ok:
  "gem_ok g \<Longrightarrow> gem_ok (attempt_outcome r g)" "gem_ok g \<Longrightarrow> gem_ok (comm_outcome id r g)"
  "gem_ok g \<Longrightarrow> gem_ok (comm_outcome scheduleRetry r g)"
  by (auto simp: attempt_outcome_def comm_outcome_def split: sum.split
      intro!: flags_gem_ok setCommunicating_gem_ok scheduleRetry_gem_ok
        attempt_done_gem_ok [OF control_ops_implement(6)] attempt_done_gem_ok [OF control_ops_implement(7)])

lemma ends_inv:
  assumes "gem_inv p"
  shows "go_all gem_inv (attempt_end k out p)" "go_all gem_inv (establish_end k out p)"
    "go_all gem_inv (handshake_end k out p)"
  unfolding ends_eq by (rule gem_inv_reply [OF assms], rule outcomes_gem_ok, assumption)+

lemma observe_inv: "gem_inv p \<Longrightarrow> gem_inv (observe p)"
  by (auto simp: observe_def Let_def intro!: gem_inv_on_gem flags_gem_ok setCommunicationState_gem_ok)

lemma timers_inv:
  assumes "gem_inv p"
  shows "gem_inv (waitCRA_expire p)" "gem_inv (waitDelay_expire p)"
proof -
  show "gem_inv (waitCRA_expire p)"
    unfolding waitCRA_expire_def onWaitCRATimeout_def
    by (rule gem_inv_on_gem [OF assms]) (simp add: timers_gem_ok scheduleRetry_gem_ok)
  have "gem_inv (onWaitDelayTimeout q)" if "gem_inv q" for q :: "'a gem"
    using gem_inv_on_gem [OF that flags_gem_ok(3)] that
      gem_inv_on_gem [OF that setCommunicationState_gem_ok [where s = CommunicationStateNotCommunicating]]
    by (simp add: onWaitDelayTimeout_def Let_def)
  then show "gem_inv (waitDelay_expire p)"
    unfolding waitDelay_expire_def using gem_inv_on_gem [OF assms, of "g_waitDelayTimer_update (\<lambda>_. None)"]
    by (simp add: timers_gem_ok)
qed

lemma Gem_Enable_inv:
  assumes "gem_inv p"
  shows "gem_inv (Gem_Enable p)"
proof -
  have set: "gem_ok (setState CommunicationStateNotCommunicating (g\<lparr>g_enabled := True\<rparr>))"
    if "gem_ok g" for g :: "'a gem_handler"
  proof (rule gem_okI)
    have "comm_ok (g\<lparr>g_enabled := True\<rparr>)" using gem_ok_comm [OF that] by (simp add: comm_ok_def)
    then show "comm_ok (setState CommunicationStateNotCommunicating (g\<lparr>g_enabled := True\<rparr>))"
      using set_state_ok(1) comm_ok_settled by blast
  qed (use that in simp_all)
  have mon: "gem_ok g \<Longrightarrow> gem_ok (g\<lparr>g_monitor := b\<rparr>)" for g :: "'a gem_handler" and b
    by (erule gem_ok_parts [rotated 2]; simp)
  have "gem_inv (Enable (on_gem (\<lambda>g. setState CommunicationStateNotCommunicating (g\<lparr>g_enabled := True\<rparr>)) p))"
    using gem_inv_on_gem [OF assms, of "\<lambda>g. setState CommunicationStateNotCommunicating (g\<lparr>g_enabled := True\<rparr>)"]
    by (simp add: set gem_inv_served [OF serve.life_simps(7)])
  from gem_inv_on_gem [OF this, of "g_monitor_update (\<lambda>_. True)"] show ?thesis
    using assms by (simp add: Gem_Enable_def mon)
qed

lemma Gem_Disable_inv:
  assumes "gem_inv p"
  shows "go_all (\<lambda>x. gem_inv (snd x)) (Gem_Disable_begin p)"
proof -
  have frame: "gem_ok g \<Longrightarrow> gem_ok (g\<lparr>g_monitor := b\<rparr>)" "gem_ok g \<Longrightarrow> gem_ok (g\<lparr>g_enabled := b\<rparr>)"
    for g :: "'a gem_handler" and b
    by (erule gem_ok_parts [rotated 2]; simp)+
  let ?f = "\<lambda>g. stopTimers
    ((setCommunicationState CommunicationStateNotCommunicating (g\<lparr>g_enabled := False\<rparr>))\<lparr>g_monitor := False\<rparr>)"
  have "gem_inv (on_gem ?f p)"
    by (rule gem_inv_on_gem [OF assms]) (simp add: timers_gem_ok frame setCommunicationState_gem_ok)
  then have "go_all (\<lambda>x. gem_inv (snd x)) (Disable_begin (on_gem ?f p))"
    by (intro go_all_mono [OF serve.life_Disable_begin]) (use gem_inv_served in blast)
  then show ?thesis using assms by (simp add: Gem_Disable_begin_def)
qed

section \<open>Construction\<close>

lemma register_all_inv:
  "gem_inv p \<Longrightarrow> (\<And>s f h. (s, f, h) \<in> set hs \<Longrightarrow> keeps h) \<Longrightarrow> gem_inv (Gem_Handler.register_all hs p)"
proof (induction hs arbitrary: p)
  case (Cons x hs)
  obtain s f h where x: "x = (s, f, h)" by (cases x) auto
  have "gem_inv (RegisterHandler s f (Some h) p)"
    by (rule gem_inv_register) (use Cons.prems x in auto)
  then have "gem_inv (Gem_Handler.register_all hs (RegisterHandler s f (Some h) p))"
    by (rule Cons.IH) (use Cons.prems(2) in auto)
  then show ?case by (simp add: Gem_Handler.register_all_def x)
qed (simp add: Gem_Handler.register_all_def)

lemma new_handler_ok: "gem_ok (setCommunicationState CommunicationStateNotCommunicating (new_handler o1 w now))"
proof -
  let ?g = "new_handler o1 w now"
  have "comm_ok (setCommunicationState CommunicationStateNotCommunicating ?g)"
    by (rule setCommunicationState_ok) (simp_all add: new_handler_def NewControlStateMachine_settled)
  moreover have "regs_ok ?g"
    by (simp add: regs_ok_def new_handler_def svs.in_order_def ecs.in_order_def dvs.in_order_def
        ces.in_order_def reports_ok_def)
  then have "regs_ok (setCommunicationState CommunicationStateNotCommunicating ?g)"
    using regs_ok_part [OF frame_setCommunicationState [of CommunicationStateNotCommunicating ?g]] by blast
  ultimately show ?thesis by (simp add: gem_ok_def)
qed

lemma onControlStateTransition_gem_ok: "gem_ok g \<Longrightarrow> gem_ok (onControlStateTransition s t g)"
  by (rule gem_ok_parts [where g = g]; simp)

lemma NewGemHandler_inv: "gem_inv (NewGemHandler opts w now (NewHsmsProtocol active sid rand a))"
proof -
  let ?g = "setCommunicationState CommunicationStateNotCommunicating (new_handler (applyDefaults opts) w now)"
  let ?p = "(NewHsmsProtocol active sid rand a)\<lparr>hp_app := ?g, hp_OnS9Error := True\<rparr>"
  have "gem_inv ?p"
    using new_handler_ok by (simp add: gem_inv_def registered_def NewHsmsProtocol_def)
  then have "gem_inv (Gem_Handler.register_all (gem_handlers (op_DeviceType (applyDefaults opts))) ?p)"
    by (rule register_all_inv) (rule gem_handlers_keep)
  from gem_inv_on_gem [OF this onControlStateTransition_gem_ok] show ?thesis
    by (simp add: NewGemHandler_def Let_def)
qed

section \<open>Steps\<close>

text \<open>Calls of the application that concern the handler only. \<open>SetValue\<close> and \<open>SetValueProvider\<close> act on
  a variable that may be registered already.\<close>

inductive user_call :: "'w gem_handler \<Rightarrow> 'w gem_handler \<Rightarrow> bool" where
  status: "user_call g (snd (RegisterStatusVariable x1 g))"
| data: "user_call g (snd (RegisterDataVariable x2 g))"
| const: "user_call g (snd (RegisterEquipmentConstant x3 g))"
| coll: "user_call g (snd (RegisterCollectionEvent x4 g))"
| set_status: "g_statusVars g k = Some sv \<Longrightarrow> sv' = sv_SetValue n sv \<or> sv' = sv_SetValueProvider pr sv \<Longrightarrow>
    user_call g (g\<lparr>g_statusVars := (g_statusVars g)(k \<mapsto> sv')\<rparr>)"
| set_data: "g_dataVars g k = Some dv \<Longrightarrow> dv' = dv_SetValue n dv \<or> dv' = dv_SetValueProvider pr dv \<Longrightarrow>
    user_call g (g\<lparr>g_dataVars := (g_dataVars g)(k \<mapsto> dv')\<rparr>)"
| online: "user_call g (snd (SwitchControlOnline g))"
| offline: "user_call g (snd (SwitchControlOffline g))"
| local: "user_call g (snd (SwitchControlOnlineLocal g))"
| remote: "user_call g (snd (SwitchControlOnlineRemote g))"
| wait: "user_call g (snd (WaitForCommunicating_begin n g))"
| wait_over: "user_call g (snd (WaitForCommunicating_timeout n g))"
| alarm: "user_call g (g\<lparr>g_alarms := RegisterAlarm al (g_alarms g)\<rparr>)"
| enable_alarm: "user_call g (g\<lparr>g_alarms := snd (EnableAlarm i (g_alarms g))\<rparr>)"
| disable_alarm: "user_call g (g\<lparr>g_alarms := snd (DisableAlarm i (g_alarms g))\<rparr>)"
| program: "RegisterProcessProgram (g_deviceType g) ppid body (g_programs g) = Inr (r, ps) \<Longrightarrow>
    user_call g (g\<lparr>g_programs := ps\<rparr>)"
| trigger: "TriggerCollectionEvent ids g = Inr (r, g') \<Longrightarrow> user_call g g'"
| remote_handler: "user_call g (SetRemoteCommandHandler h1 g)"
| upload_handler: "user_call g (SetProcessProgramUploadHandler h2 g)"
| request_handler: "user_call g (SetProcessProgramRequestHandler h3 g)"
| time_provider: "user_call g (g\<lparr>g_clock := SetTimeProvider tp (g_clock g)\<rparr>)"
| clock_handler: "user_call g (g\<lparr>g_clock := SetClockSyncHandler ch (g_clock g)\<rparr>)"
| callback: "user_call g (g\<lparr>g_ControlStateChanged := AddCallback cb (g_ControlStateChanged g)\<rparr>)"
| callback_communicating: "user_call g (g\<lparr>g_HandlerCommunicating := AddCallback cb2 (g_HandlerCommunicating g)\<rparr>)"
| callback_event: "user_call g (g\<lparr>g_EventReportReceived := AddCallback cb3 (g_EventReportReceived g)\<rparr>)"
| callback_alarm: "user_call g (g\<lparr>g_AlarmReceived := AddCallback cb4 (g_AlarmReceived g)\<rparr>)"
| callback_command: "user_call g (g\<lparr>g_RemoteCommandReceived := AddCallback cb5 (g_RemoteCommandReceived g)\<rparr>)"
| world: "user_call g (g\<lparr>g_world := w\<rparr>)"
| now: "user_call g (g\<lparr>g_now := t\<rparr>)"

inductive gem_step :: "fsm_event \<Rightarrow> 'w gem \<Rightarrow> 'w gem \<Rightarrow> bool" for fsm where
  protocol: "hsms_step fsm p p' \<Longrightarrow> hp_handlers p' = hp_handlers p \<Longrightarrow>
    hp_defaultHandler p' = hp_defaultHandler p \<Longrightarrow> gem_step fsm p p'"
| install: "(\<And>h. handler = Some h \<Longrightarrow> world_only h) \<Longrightarrow>
    gem_step fsm p (RegisterStreamFunctionHandler s f handler p)"
| install_default: "(\<And>h. handler = Some h \<Longrightarrow> world_only h) \<Longrightarrow>
    gem_step fsm p (RegisterDefaultStreamHandler handler p)"
| enable: "gem_step fsm p (Gem_Enable p)"
| disable: "Gem_Disable_begin p = Inr (w, p') \<Longrightarrow> gem_step fsm p p'"
| tick: "g_monitor (hp_app p) \<Longrightarrow> gem_step fsm p (observe p)"
| cra: "g_waitCRATimer (hp_app p) = Some d \<Longrightarrow> gem_step fsm p (waitCRA_expire p)"
| delay: "g_waitDelayTimer (hp_app p) = Some d \<Longrightarrow> gem_step fsm p (waitDelay_expire p)"
| attempt: "attempt_begin p = Inr (r, p') \<Longrightarrow> gem_step fsm p p'"
| attempted: "attempt_end k out p = Inr p' \<Longrightarrow> gem_step fsm p p'"
| establish: "establish_begin p = Inr (r, p') \<Longrightarrow> gem_step fsm p p'"
| established: "establish_end k out p = Inr p' \<Longrightarrow> gem_step fsm p p'"
| handshake: "handshake_begin p = Inr (r, p') \<Longrightarrow> gem_step fsm p p'"
| shaken: "handshake_end k out p = Inr p' \<Longrightarrow> gem_step fsm p p'"
| raise: "RaiseAlarm i on p = Inr (e, p') \<Longrightarrow> gem_step fsm p p'"
| event: "sendCollectionEvent key p = Inr p' \<Longrightarrow> gem_step fsm p p'"
| call: "host_call req p = Inr (rc, p') \<Longrightarrow> gem_step fsm p p'"
| user: "user_call (hp_app p) g' \<Longrightarrow> gem_step fsm p (p\<lparr>hp_app := g'\<rparr>)"

inductive gem_reach :: "fsm_event \<Rightarrow> 'w gem \<Rightarrow> bool" for fsm where
  new: "gem_reach fsm (NewGemHandler opts w now (NewHsmsProtocol active sid rand a))"
| step: "gem_reach fsm p \<Longrightarrow> gem_step fsm p p' \<Longrightarrow> gem_reach fsm p'"

lemma set_value_ok:
  "gem_ok g \<Longrightarrow> g_statusVars g k = Some sv \<Longrightarrow> sv_info sv' = sv_info sv \<Longrightarrow>
    gem_ok (g\<lparr>g_statusVars := (g_statusVars g)(k \<mapsto> sv')\<rparr>)"
  "gem_ok g \<Longrightarrow> g_dataVars g k = Some dv \<Longrightarrow> dv_info dv' = dv_info dv \<Longrightarrow>
    gem_ok (g\<lparr>g_dataVars := (g_dataVars g)(k \<mapsto> dv')\<rparr>)"
proof -
  assume ok: "gem_ok g" and k: "g_statusVars g k = Some sv" and i: "sv_info sv' = sv_info sv"
  have E: "g_statusVars (g\<lparr>g_statusVars := (g_statusVars g)(k \<mapsto> sv')\<rparr>) = (g_statusVars g)(k \<mapsto> sv')" by simp
  have "vidExists v (g\<lparr>g_statusVars := (g_statusVars g)(k \<mapsto> sv')\<rparr>) = vidExists v g" for v
    using k by (simp add: vidExists_def)
  then show "gem_ok (g\<lparr>g_statusVars := (g_statusVars g)(k \<mapsto> sv')\<rparr>)"
    using ok k i by (auto simp: gem_ok_def regs_ok_def comm_ok_def svs.in_order_def ecs.in_order_def dvs.in_order_def
        ces.in_order_def reports_ok_def)
next
  assume ok: "gem_ok g" and k: "g_dataVars g k = Some dv" and i: "dv_info dv' = dv_info dv"
  have "vidExists v (g\<lparr>g_dataVars := (g_dataVars g)(k \<mapsto> dv')\<rparr>) = vidExists v g" for v
    using k by (simp add: vidExists_def)
  then show "gem_ok (g\<lparr>g_dataVars := (g_dataVars g)(k \<mapsto> dv')\<rparr>)"
    using ok k i by (auto simp: gem_ok_def regs_ok_def comm_ok_def svs.in_order_def ecs.in_order_def dvs.in_order_def
        ces.in_order_def reports_ok_def)
qed

lemma SwitchControlOnline_gem_ok: "gem_ok g \<Longrightarrow> gem_ok (snd (SwitchControlOnline g))"
  unfolding SwitchControlOnline_def Let_def
  by (simp add: transition_gem_ok [OF control_ops_implement(1)] transition_gem_ok [OF plain_transitions_implement(2)]
      flags_gem_ok)

lemma TriggerCollectionEvent_shape:
  assumes "TriggerCollectionEvent ids g = Inr (r, g')"
  shows "g' = g \<or> (\<exists>ts. g' = g\<lparr>g_triggered := ts\<rparr>)"
proof (cases "res_map newIDInfo ids")
  case (Inr y)
  then show ?thesis
    using assms by (cases y) (auto simp: TriggerCollectionEvent_def split: if_splits sum.splits)
qed (use assms in \<open>auto simp: TriggerCollectionEvent_def split: if_splits sum.splits\<close>)

lemma user_call_ok:
  assumes "user_call g g'" and ok: "gem_ok g"
  shows "gem_ok g'"
proof -
  have frame: "gem_ok h" if "comm_part h = comm_part g" "reg_part h = reg_part g" for h
    using gem_ok_parts [OF that ok] .
  from assms(1) show ?thesis
  proof cases
    case (set_status k sv sv' n pr)
    then show ?thesis using set_value_ok(1) [OF ok] by (auto simp: sv_SetValue_def sv_SetValueProvider_def)
  next
    case (set_data k dv dv' n pr)
    then show ?thesis using set_value_ok(2) [OF ok] by (auto simp: dv_SetValue_def dv_SetValueProvider_def)
  next
    case (trigger ids r)
    then consider "g' = g" | ts where "g' = g\<lparr>g_triggered := ts\<rparr>"
      using TriggerCollectionEvent_shape by blast
    then show ?thesis using frame ok by cases auto
  next
    case offline
    then show ?thesis
      using transition_gem_ok [OF plain_transitions_implement(1) ok] by (simp add: SwitchControlOffline_def)
  next
    case local
    then show ?thesis
      using transition_gem_ok [OF control_ops_implement(3) ok] by (simp add: SwitchControlOnlineLocal_def)
  next
    case remote
    then show ?thesis
      using transition_gem_ok [OF control_ops_implement(4) ok] by (simp add: SwitchControlOnlineRemote_def)
  next
    case (wait n)
    then show ?thesis using ok frame by (simp add: WaitForCommunicating_begin_def)
  next
    case (wait_over n)
    then show ?thesis using frame by (simp add: WaitForCommunicating_timeout_def removeWaiter_def)
  qed (use ok in \<open>auto intro: frame register_status_ok register_data_ok register_constant_ok register_event_ok
        SwitchControlOnline_gem_ok stores_gem_ok
        simp: comm_part_def reg_part_def SetRemoteCommandHandler_def SetProcessProgramUploadHandler_def
          SetProcessProgramRequestHandler_def\<close>)
qed

text \<open>What only sends.\<close>

lemma SendDataMessage_inv: "gem_inv p \<Longrightarrow> go_all (\<lambda>x. gem_inv (snd x)) (SendDataMessage m p)"
  by (rule go_all_mono [OF serve.view_SendDataMessage]) (use gem_inv_served in blast)

lemma RaiseAlarm_inv:
  assumes inv: "gem_inv p"
  shows "go_all (\<lambda>x. gem_inv (snd x)) (RaiseAlarm i on p)"
proof -
  have al: "gem_inv (on_gem (g_alarms_update (\<lambda>_. as)) p)" for as
    by (rule gem_inv_on_gem [OF inv]) (rule stores_gem_ok)
  have "go_all (\<lambda>x. gem_inv (snd x)) (go_bind mk (\<lambda>m. SendDataMessage (Some m) (on_gem (g_alarms_update (\<lambda>_. as)) p)))"
    for mk as
    by (rule any_bind) (rule SendDataMessage_inv [OF al])
  then show ?thesis
    unfolding RaiseAlarm_def Let_def
    by (simp split: sum.split prod.split add: inv al del: go_all_bind)
qed

lemma sendCollectionEvent_inv: "gem_inv p \<Longrightarrow> go_all gem_inv (sendCollectionEvent key p)"
proof -
  assume inv: "gem_inv p"
  have send: "go_all gem_inv (go_bind (SendDataMessage (Some msg) p) (\<lambda>(e, p'). Inr p'))" for msg
    unfolding go_all_bind by (rule go_all_mono [OF SendDataMessage_inv [OF inv]]) auto
  show ?thesis
    unfolding sendCollectionEvent_def
    by (rule any_bind) (auto split: sum.split option.split simp: inv simp del: go_all_bind intro!: any_bind send)
qed

lemma host_call_inv: "gem_inv p \<Longrightarrow> go_all (\<lambda>x. gem_inv (snd x)) (host_call req p)"
proof -
  assume inv: "gem_inv p"
  have "go_all (\<lambda>x. gem_inv (snd x)) (SendAndWait_begin (Some m) p)" for m
    by (rule go_all_mono [OF serve.view_SendAndWait_begin]) (use gem_inv_served inv in blast)
  then show ?thesis
    unfolding host_call_def by (rule_tac any_bind) (auto split: sum.split simp: inv)
qed

lemma gem_step_inv:
  assumes "gem_step fsm p p'" and inv: "gem_inv p"
  shows "gem_inv p'"
  using assms(1)
proof cases
  case protocol
  from hsms_step_served [OF protocol(1)] show ?thesis
  proof (elim disjE exE)
    assume "serves p p'"
    then show ?thesis using gem_inv_serves [OF inv] by blast
  next
    fix st f h
    assume "p' = RegisterHandler st f h p"
    then have "hp_app p' = hp_app p" by (simp add: RegisterHandler_def Let_def split: option.split)
    then have "served p' = served p" using protocol by (simp add: served_def)
    then show ?thesis using inv gem_inv_served by blast
  next
    fix h
    assume "p' = RegisterDefaultHandler h p"
    then have "hp_app p' = hp_app p" by (simp add: RegisterDefaultHandler_def)
    then have "served p' = served p" using protocol by (simp add: served_def)
    then show ?thesis using inv gem_inv_served by blast
  qed
next
  case (install handler s f)
  then have "gem_inv (RegisterHandler s f handler p)"
    by (intro gem_inv_register(1) [OF inv] world_only_keeps)
  then show ?thesis
    unfolding install(1) by (cases handler) (simp_all add: RegisterStreamFunctionHandler_def)
next
  case (install_default handler)
  then have "gem_inv (RegisterDefaultHandler handler p)"
    by (intro gem_inv_register(2) [OF inv] world_only_keeps)
  then show ?thesis
    unfolding install_default(1) by (cases handler) (simp_all add: RegisterDefaultStreamHandler_def)
next
  case (user g')
  have "gem_ok g'" using user_call_ok [OF user(2)] inv by (simp add: gem_inv_def)
  then show ?thesis using inv unfolding user(1) by (simp add: gem_inv_def registered_def)
next
  case (disable w)
  with go_all_InrD [OF Gem_Disable_inv [OF inv]] show ?thesis by fastforce
next
  case (attempt r)
  with go_all_InrD [OF attempt_begin_inv [OF inv]] show ?thesis by fastforce
next
  case (attempted k out)
  with go_all_InrD [OF ends_inv(1) [OF inv]] show ?thesis by fastforce
next
  case (establish r)
  with go_all_InrD [OF establish_begin_inv [OF inv]] show ?thesis by fastforce
next
  case (established k out)
  with go_all_InrD [OF ends_inv(2) [OF inv]] show ?thesis by fastforce
next
  case (handshake r)
  with go_all_InrD [OF handshake_begin_inv [OF inv]] show ?thesis by fastforce
next
  case (shaken k out)
  with go_all_InrD [OF ends_inv(3) [OF inv]] show ?thesis by fastforce
next
  case (raise i on e)
  with go_all_InrD [OF RaiseAlarm_inv [OF inv]] show ?thesis by fastforce
next
  case (event key)
  with go_all_InrD [OF sendCollectionEvent_inv [OF inv]] show ?thesis by fastforce
next
  case (call req rc)
  with go_all_InrD [OF host_call_inv [OF inv]] show ?thesis by fastforce
qed (simp_all add: inv Gem_Enable_inv observe_inv timers_inv)

lemma gem_reach_inv: "gem_reach fsm p \<Longrightarrow> gem_inv p"
  by (induction rule: gem_reach.induct) (blast intro: NewGemHandler_inv gem_step_inv)+

end
