(* ===== verification/Gem_Refinement.thy ===== *)
theory Gem_Refinement
  imports Gem_Steps
begin

text \<open>
  The handler as a whole refines the control state model of SEMI E30: seen through the leaf state of
  its control state machine, every step of \<open>gem_step\<close> is one transition of the model or none. With it,
  the properties of the reachable states.
\<close>

section \<open>The control state across a step\<close>

definition gem_control :: "'w gem \<Rightarrow> control" where
  "gem_control p = g_control (hp_app p)"

lemma gem_control_simps [simp]:
  "gem_control (on_gem f p) = g_control (f (hp_app p))" "gem_control (p\<lparr>hp_app := g\<rparr>) = g_control g"
  by (simp_all add: gem_control_def)

lemma served_control: "served p' = served p \<Longrightarrow> gem_control p' = gem_control p"
  by (simp add: served_def gem_control_def)

lemma gem_inv_settled: "gem_inv p \<Longrightarrow> settled (gem_control p)"
  by (simp add: gem_inv_def gem_control_def gem_ok_settled)

text \<open>A goroutine that sends a request, and what it does after its wait.\<close>

lemma call_all:
  assumes "P (hp_app p)" and "P (f (hp_app p))"
  shows "go_all (\<lambda>x. P (hp_app (snd x))) (go_bind mk (\<lambda>m. go_bind (SendAndWait_begin (Some m) p) (\<lambda>(r, p').
    case r of Inl e \<Rightarrow> Inr (None, on_gem f p') | Inr w \<Rightarrow> Inr (Some w, p'))))"
  by (rule any_bind, unfold go_all_bind, rule go_all_mono [OF serve.view_SendAndWait_begin])
    (use assms in \<open>auto simp: served_def split: sum.split\<close>)

lemma reply_all:
  assumes "\<And>r. P (f r (hp_app p))"
  shows "go_all (\<lambda>p'. P (hp_app p')) (go_bind (SendAndWait_end k out p) (\<lambda>(r, p'). Inr (on_gem (f r) p')))"
  unfolding go_all_bind by (rule go_all_mono [OF serve.view_SendAndWait_end]) (use assms in \<open>auto simp: served_def\<close>)

lemma waiting_moves:
  fixes p :: "'w gem"
  assumes "settled (gem_control p)"
  shows "go_all (\<lambda>x. moves (gem_control p) (g_control (hp_app (snd x)))) (attempt_begin p)"
    and "go_all (\<lambda>x. moves (gem_control p) (g_control (hp_app (snd x)))) (establish_begin p)"
    and "go_all (\<lambda>x. moves (gem_control p) (g_control (hp_app (snd x)))) (handshake_begin p)"
    and "go_all (\<lambda>x. moves (gem_control p) (g_control (hp_app x))) (attempt_end k out p)"
    and "go_all (\<lambda>x. moves (gem_control p) (g_control (hp_app x))) (establish_end k out p)"
    and "go_all (\<lambda>x. moves (gem_control p) (g_control (hp_app x))) (handshake_end k out p)"
proof -
  have g: "gem_control p = g_control (hp_app p)" by (simp add: gem_control_def)
  note f = implements_moves [OF control_ops_implement(6) assms, unfolded g]
    and s = implements_moves [OF control_ops_implement(7) assms, unfolded g]
    and c = communication_moves(2) [OF assms [unfolded g]]
  note call = call_all [where P = "\<lambda>x. moves (g_control (hp_app p)) (g_control x)"]
  note reply = reply_all [where P = "\<lambda>x. moves (g_control (hp_app p)) (g_control x)"]
  show "go_all (\<lambda>x. moves (gem_control p) (g_control (hp_app (snd x)))) (attempt_begin p)"
    unfolding attempt_begin_def g using f by (auto simp del: go_all_bind intro!: call)
  show "go_all (\<lambda>x. moves (gem_control p) (g_control (hp_app (snd x)))) (establish_begin p)"
    unfolding establish_begin_def g by (auto simp del: go_all_bind intro!: call)
  show "go_all (\<lambda>x. moves (gem_control p) (g_control (hp_app (snd x)))) (handshake_begin p)"
    unfolding handshake_begin_def Let_def g
    by (rule call_all [where P = "\<lambda>x. moves (g_control (hp_app p)) (g_control x)"]) simp_all
  show "go_all (\<lambda>x. moves (gem_control p) (g_control (hp_app x))) (attempt_end k out p)"
    unfolding ends_eq g by (rule reply) (use f s in \<open>auto simp: attempt_outcome_def split: sum.split\<close>)
  show "go_all (\<lambda>x. moves (gem_control p) (g_control (hp_app x))) (establish_end k out p)"
    "go_all (\<lambda>x. moves (gem_control p) (g_control (hp_app x))) (handshake_end k out p)"
    unfolding ends_eq g by (rule reply; use c in \<open>auto simp: comm_outcome_def split: sum.split\<close>)+
qed

lemma monitor_moves:
  assumes "settled (gem_control p)"
  shows "moves (gem_control p) (gem_control (observe p))"
    and "moves (gem_control p) (gem_control (waitCRA_expire p))"
    and "moves (gem_control p) (gem_control (waitDelay_expire p))"
proof -
  have c: "moves (g_control g) (g_control (setCommunicationState s g'))" if "settled (g_control g)" "g_control g' = g_control g"
    for g g' :: "'a gem_handler" and s
    using communication_moves(1) [of g'] that by simp
  show "moves (gem_control p) (gem_control (observe p))"
    using c [of "hp_app p"] assms by (simp add: observe_def Let_def gem_control_def)
  show "moves (gem_control p) (gem_control (waitCRA_expire p))"
    by (simp add: waitCRA_expire_def onWaitCRATimeout_def gem_control_def)
  show "moves (gem_control p) (gem_control (waitDelay_expire p))"
    using c [of "hp_app p"] assms by (simp add: waitDelay_expire_def onWaitDelayTimeout_def Let_def gem_control_def)
qed

lemma enabling_moves:
  assumes "settled (gem_control p)"
  shows "moves (gem_control p) (gem_control (Gem_Enable p))"
    and "Gem_Disable_begin p = Inr (w, p') \<Longrightarrow> moves (gem_control p) (gem_control p')"
proof -
  have e: "hp_app (Enable q) = hp_app q" for q :: "'a gem"
    using serve.life_simps(7) [of q] by (simp add: served_def)
  show "moves (gem_control p) (gem_control (Gem_Enable p))"
    by (simp add: Gem_Enable_def e gem_control_def)
  have d: "hp_app q' = hp_app q" if "Disable_begin q = Inr (v, q')" for v and q q' :: "'a gem"
    using go_all_InrD [OF serve.life_Disable_begin that] by (simp add: served_def)
  show "Gem_Disable_begin p = Inr (w, p') \<Longrightarrow> moves (gem_control p) (gem_control p')"
    using communication_moves(1) [of "hp_app p\<lparr>g_enabled := False\<rparr>"] assms
    by (auto simp: Gem_Disable_begin_def gem_control_def dest!: d split: if_splits)
qed

lemma register_control:
  "g_control (snd (RegisterStatusVariable x1 g)) = g_control g" "g_control (snd (RegisterDataVariable x2 g)) = g_control g"
  "g_control (snd (RegisterEquipmentConstant x3 g)) = g_control g" "g_control (snd (RegisterCollectionEvent x4 g)) = g_control g"
  by (auto simp: RegisterStatusVariable_def RegisterDataVariable_def RegisterEquipmentConstant_def
      RegisterCollectionEvent_def Let_def split: option.split)

lemma user_call_moves:
  assumes "user_call g g'" and "settled (g_control g)"
  shows "moves (g_control g) (g_control g')"
  using assms(1)
proof cases
  case online
  then show ?thesis
    using implements_moves [OF control_ops_implement(1) assms(2)]
    by (simp add: SwitchControlOnline_def Let_def)
next
  case offline
  then show ?thesis
    using implements_moves [OF plain_transitions_implement(1) assms(2)] by (simp add: SwitchControlOffline_def)
next
  case local
  then show ?thesis
    using implements_moves [OF control_ops_implement(3) assms(2)] by (simp add: SwitchControlOnlineLocal_def)
next
  case remote
  then show ?thesis
    using implements_moves [OF control_ops_implement(4) assms(2)] by (simp add: SwitchControlOnlineRemote_def)
next
  case (trigger ids r)
  then show ?thesis using TriggerCollectionEvent_shape by fastforce
next
  case (wait n)
  then show ?thesis by (simp add: WaitForCommunicating_begin_def)
next
  case (wait_over n)
  then show ?thesis by (simp add: WaitForCommunicating_timeout_def removeWaiter_def)
qed (simp_all add: register_control SetRemoteCommandHandler_def SetProcessProgramUploadHandler_def
    SetProcessProgramRequestHandler_def)

lemma sending_control:
  "go_all (\<lambda>x. gem_control (snd x) = gem_control p) (RaiseAlarm i on p)"
  "go_all (\<lambda>x. gem_control x = gem_control p) (sendCollectionEvent key p)"
  "go_all (\<lambda>x. gem_control (snd x) = gem_control p) (host_call req p)"
proof -
  have s: "go_all (\<lambda>x. gem_control (snd x) = gem_control p) (SendDataMessage m q)"
    if "gem_control q = gem_control p" for m and q :: "'a gem"
    by (rule go_all_mono [OF serve.view_SendDataMessage]) (use that served_control in \<open>metis\<close>)
  show "go_all (\<lambda>x. gem_control (snd x) = gem_control p) (RaiseAlarm i on p)"
    unfolding RaiseAlarm_def Let_def
    by (auto split: sum.split prod.split simp: gem_control_def simp del: go_all_bind intro!: any_bind s [unfolded gem_control_def])
  have e: "go_all (\<lambda>x. gem_control x = gem_control p) (go_bind (SendDataMessage (Some msg) p) (\<lambda>(e, p'). Inr p'))" for msg
    unfolding go_all_bind by (rule go_all_mono [OF s [OF refl]]) auto
  show "go_all (\<lambda>x. gem_control x = gem_control p) (sendCollectionEvent key p)"
    unfolding sendCollectionEvent_def
    by (rule any_bind) (auto split: sum.split option.split simp del: go_all_bind intro!: any_bind e)
  have b: "go_all (\<lambda>x. gem_control (snd x) = gem_control p) (SendAndWait_begin (Some m) p)" for m
    by (rule go_all_mono [OF serve.view_SendAndWait_begin]) (rule served_control)
  show "go_all (\<lambda>x. gem_control (snd x) = gem_control p) (host_call req p)"
    unfolding host_call_def by (rule any_bind) (auto split: sum.split intro: b)
qed

lemma protocol_moves:
  assumes "gem_inv p" and "hsms_step fsm p p'"
  shows "moves (gem_control p) (gem_control p')"
  using hsms_step_served [OF assms(2)]
proof (elim disjE exE)
  assume "serves p p'"
  then consider "served p' = served p" | h m where "registered h p" "served p' = served (after_handler h m p)"
    unfolding serves_def by blast
  then show ?thesis
  proof cases
    case 1
    show ?thesis unfolding served_control [OF 1] by (rule moves_refl)
  next
    case (2 h m)
    then have "keeps h" and ok: "gem_ok (hp_app p)" using assms(1) by (auto simp: gem_inv_def)
    then have "moves (gem_control p) (g_control (snd (h m (hp_app p))))"
      by (simp add: keeps_def gem_control_def)
    then show ?thesis unfolding served_control [OF 2(2)] by (simp add: after_handler_def)
  qed
next
  fix st f h
  assume "p' = RegisterHandler st f h p"
  then show ?thesis by (simp add: gem_control_def RegisterHandler_def Let_def split: option.split)
next
  fix h
  assume "p' = RegisterDefaultHandler h p"
  then show ?thesis by (simp add: gem_control_def RegisterDefaultHandler_def)
qed

lemma gem_step_moves:
  assumes "gem_step fsm p p'" and inv: "gem_inv p"
  shows "moves (gem_control p) (gem_control p')"
proof -
  note set = gem_inv_settled [OF inv]
  note w = waiting_moves [OF set]
  from assms(1) show ?thesis
  proof cases
    case protocol
    then show ?thesis using protocol_moves inv by blast
  next
    case (user g')
    then show ?thesis using user_call_moves [OF user(2)] set by (simp add: gem_control_def)
  next
    case (install handler s f)
    then show ?thesis
      by (cases handler) (simp_all add: RegisterStreamFunctionHandler_def RegisterHandler_def Let_def gem_control_def)
  next
    case (install_default handler)
    then show ?thesis
      by (cases handler) (simp_all add: RegisterDefaultStreamHandler_def RegisterDefaultHandler_def gem_control_def)
  next
    case (disable w)
    then show ?thesis using enabling_moves(2) [OF set] by blast
  next
    case (attempt r)
    with go_all_InrD [OF w(1)] show ?thesis by (fastforce simp: gem_control_def)
  next
    case (establish r)
    with go_all_InrD [OF w(2)] show ?thesis by (fastforce simp: gem_control_def)
  next
    case (handshake r)
    with go_all_InrD [OF w(3)] show ?thesis by (fastforce simp: gem_control_def)
  next
    case (attempted k out)
    with go_all_InrD [OF w(4)] show ?thesis by (fastforce simp: gem_control_def)
  next
    case (established k out)
    with go_all_InrD [OF w(5)] show ?thesis by (fastforce simp: gem_control_def)
  next
    case (shaken k out)
    with go_all_InrD [OF w(6)] show ?thesis by (fastforce simp: gem_control_def)
  next
    case (raise i on e)
    with go_all_InrD [OF sending_control(1)] show ?thesis by fastforce
  next
    case (event key)
    with go_all_InrD [OF sending_control(2)] show ?thesis by fastforce
  next
    case (call req rc)
    with go_all_InrD [OF sending_control(3)] show ?thesis by fastforce
  qed (simp_all add: monitor_moves enabling_moves(1) set)
qed

end
