(* ===== verification/Gem_Services.thy ===== *)
theory Gem_Services
  imports Gem_Client Protocol_Properties
begin

text \<open>
  Properties of the GEM services: identifiers, requests for status variables and equipment constants,
  reports and events, remote commands, process programs, and the handlers whose answer cannot be
  built. The properties of the handler as a whole are in the next theory.
\<close>

section \<open>Identifiers\<close>

definition text_node :: "string \<Rightarrow> ascii_node" where
  "text_node s = \<lparr>an_value = s, an_name = [], an_min = 0, an_max = 0, an_isValue = True, an_symbol = ''ascii''\<rparr>"

lemma small_number_id: "v \<le> 0xFFFFFFFF \<Longrightarrow>
    newIDInfo (VUint64 v) = Inr (Inr \<lparr>id_raw = VUint64 v, id_node = id_uint 4 v, id_key = num_key v\<rparr>)"
  by (simp add: newIDInfo_def newIDInfoFromUint_ok)

lemma received_number_id: "b \<in> {1, 2, 4, 8} \<Longrightarrow> newIDInfoFromNode (Some (id_uint b v)) =
    Inr (Inr \<lparr>id_raw = VUint64 v, id_node = id_uint b v, id_key = num_key v\<rparr>)"
  by (auto simp: newIDInfoFromNode_def)

text \<open>What an identifier is, apart from the format that carries it: a number or a text. \<open>value_ident\<close> is
  the identifier a Go value stands for, each integer type by its own reading, \<open>node_ident\<close> the one an
  item stands for, the first value of a number item, read as signed or unsigned by its format.\<close>

datatype ident = Number int | Text string

definition value_ident :: "goval \<Rightarrow> ident option" where
  "value_ident v = (case v of
      VUint8 w \<Rightarrow> Some (Number (uint w)) | VUint16 w \<Rightarrow> Some (Number (uint w)) | VUint32 w \<Rightarrow> Some (Number (uint w))
    | VUint64 w \<Rightarrow> Some (Number (uint w)) | VUint w \<Rightarrow> Some (Number (uint w))
    | VInt8 w \<Rightarrow> Some (Number (sint w)) | VInt16 w \<Rightarrow> Some (Number (sint w)) | VInt32 w \<Rightarrow> Some (Number (sint w))
    | VInt64 w \<Rightarrow> Some (Number (sint w)) | VInt w \<Rightarrow> Some (Number (sint w))
    | VString s \<Rightarrow> Some (Text s)
    | _ \<Rightarrow> None)"

definition node_ident :: "item \<Rightarrow> ident option" where
  "node_ident n = (case n of
      ANode a \<Rightarrow> Some (Text (an_value a))
    | UNode u \<Rightarrow> (case un_values u of w # ws \<Rightarrow> Some (Number (uint w)) | [] \<Rightarrow> None)
    | INode i \<Rightarrow> (case in_values i of w # ws \<Rightarrow> Some (Number (sint w)) | [] \<Rightarrow> None)
    | _ \<Rightarrow> None)"

text \<open>Items as they are received: well formed and without variables. \<open>identified_as i a\<close>: the program made \<open>i\<close>,
  from a value or a received item that stands for \<open>a\<close>.\<close>

definition received_item :: "item \<Rightarrow> bool" where
  "received_item n \<longleftrightarrow> rep_ok n \<and> Variables n = []"

definition identified_as :: "id_info \<Rightarrow> ident \<Rightarrow> bool" where
  "identified_as i a \<longleftrightarrow> (\<exists>v. newIDInfo v = Inr (Inr i) \<and> value_ident v = Some a)
     \<or> (\<exists>n. received_item n \<and> newIDInfoFromNode (Some n) = Inr (Inr i) \<and> node_ident n = Some a)"

definition ident_key :: "ident \<Rightarrow> string" where
  "ident_key a = (case a of Number k \<Rightarrow> ''N:'' @ dec k | Text s \<Rightarrow> ''S:'' @ s)"

lemma ident_key_inj: "ident_key a = ident_key b \<longleftrightarrow> a = b"
  by (cases a; cases b) (auto simp: ident_key_def dec_inj)

definition made_as :: "id_info \<Rightarrow> ident \<Rightarrow> bool" where
  "made_as i a \<longleftrightarrow> id_key i = ident_key a \<and> node_ident (id_node i) = Some a
     \<and> newIDInfoFromNode (Some (id_node i)) = Inr (Inr i)"

lemma made_unsigned:
  assumes "newIDInfoFromUint w = Inr (Inr i)"
  shows "id_key i = ident_key (Number (uint w)) \<and> node_ident (id_node i) = Some (Number (uint w))"
  using newIDInfoFromUint_cases [OF assms] by (simp add: ident_key_def num_key_def node_ident_def id_uint_def)

lemma uint_scast:
  fixes w :: "'a::len word"
  assumes "0 \<le> sint w" and "LENGTH('a) \<le> 64"
  shows "uint (scast w :: 64 word) = sint w"
proof -
  have "sint w < 2 ^ (LENGTH('a) - 1)" by (rule sint_lt)
  moreover have "(2 :: int) ^ (LENGTH('a) - 1) \<le> 2 ^ 63" using assms(2) by (intro power_increasing) simp_all
  ultimately have "sint w < 2 ^ LENGTH(64)" by simp
  then show ?thesis unfolding scast_eq unsigned_of_int using assms(1) by (simp only: take_bit_int_eq_self nat_0_le)
qed

lemma made_signed:
  fixes w :: "'a::len word"
  assumes "signed_id w = Inr (Inr i)" and "LENGTH('a) \<le> 64"
  shows "id_key i = ident_key (Number (sint w)) \<and> node_ident (id_node i) = Some (Number (sint w))"
proof -
  have w: "0 \<le> sint w" "newIDInfoFromUint (scast w) = Inr (Inr i)"
    using assms(1) by (auto simp: signed_id_def split: if_splits)
  from made_unsigned [OF w(2)] show ?thesis by (simp add: uint_scast [OF w(1) assms(2)])
qed

lemma made_text:
  assumes "go_bind (NewASCIINode s) (\<lambda>node. Inr (Inr \<lparr>id_raw = VString s, id_node = node, id_key = str_key s\<rparr>)) = Inr (Inr i)"
  shows "id_key i = ident_key (Text s) \<and> node_ident (id_node i) = Some (Text s)"
  using assms by (auto simp: go_bind_Inr_iff ident_key_def str_key_def node_ident_def NewASCIINode_def Let_def
      split: if_splits)

lemma made_from_value:
  assumes "newIDInfo v = Inr (Inr i)"
  shows "\<exists>a. value_ident v = Some a \<and> made_as i a"
proof -
  have "\<exists>a. value_ident v = Some a \<and> id_key i = ident_key a \<and> node_ident (id_node i) = Some a"
    using assms by (cases v) (auto simp: newIDInfo_def value_ident_def uint_up_ucast is_up
        dest: made_unsigned made_signed made_text)
  then show ?thesis using newIDInfo_read_back [OF assms] by (auto simp: made_as_def)
qed

text \<open>A received item is accepted unless it is a negative number.\<close>

lemma made_from_item:
  assumes "received_item n" and "newIDInfoFromNode (Some n) = Inr (Inr i)"
  shows "\<exists>a. node_ident n = Some a \<and> made_as i a"
proof (cases n)
  case (UNode u)
  then obtain w ws where w: "un_values u = w # ws" "i = \<lparr>id_raw = VUint64 w, id_node = n, id_key = num_key w\<rparr>"
    using assms by (auto simp: newIDInfoFromNode_def received_item_def split: list.splits if_splits)
  then have "node_ident n = Some (Number (uint w)) \<and> made_as i (Number (uint w))"
    using assms(2) by (simp add: UNode node_ident_def made_as_def ident_key_def num_key_def)
  then show ?thesis by blast
next
  case (INode m)
  then obtain w ws where w: "in_values m = w # ws" "0 \<le> sint w"
    "i = \<lparr>id_raw = VUint64 w, id_node = id_uint (byteSizeForUint w) w, id_key = num_key w\<rparr>"
    using assms by (auto simp: newIDInfoFromNode_def received_item_def NewUintNode_byteSize split: list.splits if_splits)
  then have "uint w = sint w" using uint_scast [of w] by simp
  then have "node_ident n = Some (Number (sint w)) \<and> made_as i (Number (sint w))"
    using w received_number_id [OF byteSizeForUint_in]
    by (simp add: INode node_ident_def made_as_def ident_key_def num_key_def id_uint_def)
  then show ?thesis by blast
qed (use assms in \<open>auto simp: newIDInfoFromNode_def received_item_def node_ident_def made_as_def ident_key_def
    str_key_def split: if_splits\<close>)

lemma item_accepted:
  assumes "received_item n"
  shows "(\<exists>i. newIDInfoFromNode (Some n) = Inr (Inr i)) \<longleftrightarrow>
    (\<exists>a. node_ident n = Some a \<and> (\<forall>k. a = Number k \<longrightarrow> 0 \<le> k))"
  using assms
  by (cases n) (auto simp: newIDInfoFromNode_def received_item_def node_ident_def NewUintNode_byteSize
      split: list.splits if_splits)

lemma identified_made: "identified_as i a \<Longrightarrow> made_as i a"
  using made_from_value made_from_item unfolding identified_as_def by fastforce

text \<open>Claim C21. The string keys under which every registry of the handler stores its entries tell
  identifiers apart exactly: two identifiers have the same key just when they are the same number or the
  same text, whatever Go type or item format they came in, each integer read as its format says; a number
  never meets a text. Every identifier the program makes is sent as an item that stands for the same number
  or text and is read back as the same identifier. And a received item is taken for an identifier just
  when it is a text or a number that is not negative.\<close>

theorem identifier_keys:
  "(identified_as i a \<and> identified_as j b \<longrightarrow> (id_key i = id_key j \<longleftrightarrow> a = b))
   \<and> (identified_as i a \<longrightarrow> node_ident (id_node i) = Some a \<and> newIDInfoFromNode (Some (id_node i)) = Inr (Inr i))
   \<and> (newIDInfo v = Inr (Inr i) \<longrightarrow> (\<exists>c. identified_as i c))
   \<and> (received_item n \<longrightarrow>
        ((\<exists>k. newIDInfoFromNode (Some n) = Inr (Inr k)) \<longleftrightarrow> (\<exists>c. node_ident n = Some c \<and> (\<forall>k. c = Number k \<longrightarrow> 0 \<le> k)))
      \<and> (\<forall>k. newIDInfoFromNode (Some n) = Inr (Inr k) \<longrightarrow> (\<exists>c. node_ident n = Some c \<and> identified_as k c)))"
proof (intro conjI impI allI)
  assume "identified_as i a \<and> identified_as j b"
  then have "made_as i a" "made_as j b" using identified_made by blast+
  then show "id_key i = id_key j \<longleftrightarrow> a = b" by (simp add: made_as_def ident_key_inj)
next
  assume "identified_as i a"
  from identified_made [OF this] show "node_ident (id_node i) = Some a" "newIDInfoFromNode (Some (id_node i)) = Inr (Inr i)"
    by (simp_all add: made_as_def)
next
  assume "newIDInfo v = Inr (Inr i)"
  with made_from_value [OF this] show "\<exists>c. identified_as i c" by (auto simp: identified_as_def)
next
  assume "received_item n"
  then show "(\<exists>k. newIDInfoFromNode (Some n) = Inr (Inr k)) \<longleftrightarrow> (\<exists>c. node_ident n = Some c \<and> (\<forall>k. c = Number k \<longrightarrow> 0 \<le> k))"
    by (rule item_accepted)
next
  fix k assume "received_item n" "newIDInfoFromNode (Some n) = Inr (Inr k)"
  from made_from_item [OF this] this show "\<exists>c. node_ident n = Some c \<and> identified_as k c"
    by (auto simp: identified_as_def)
qed

text \<open>The number 300 as two signed bytes and as four unsigned ones is one identifier, the text 300 another, and
  -1 in one byte is none.\<close>

definition id_int :: "int \<Rightarrow> 64 word \<Rightarrow> item" where
  "id_int b v = INode \<lparr>in_byteSize = b, in_values = [v], in_variables = [], in_symbol = ''i'' @ dec b\<rparr>"

lemma id_items: "received_item (id_int 2 300)" "received_item (id_uint 4 300)" "received_item (ANode (text_node ''300''))"
    "received_item (id_int 1 (- 1))"
    "node_ident (id_int 2 300) = Some (Number 300)" "node_ident (id_uint 4 300) = Some (Number 300)"
    "node_ident (ANode (text_node ''300'')) = Some (Text ''300'')" "node_ident (id_int 1 (- 1)) = Some (Number (- 1))"
  by code_simp+

theorem identifier_keys_witness:
  "\<exists>i j t. newIDInfoFromNode (Some (id_int 2 300)) = Inr (Inr i) \<and> newIDInfoFromNode (Some (id_uint 4 300)) = Inr (Inr j)
     \<and> newIDInfoFromNode (Some (ANode (text_node ''300''))) = Inr (Inr t)
     \<and> id_key i = id_key j \<and> id_key i \<noteq> id_key t
     \<and> \<not> (\<exists>k. newIDInfoFromNode (Some (id_int 1 (- 1))) = Inr (Inr k))"
proof -
  note keys = identifier_keys [THEN conjunct1, rule_format]
    and taken = identifier_keys [THEN conjunct2, THEN conjunct2, THEN conjunct2, rule_format]
  have some: "\<exists>k. newIDInfoFromNode (Some n) = Inr (Inr k) \<and> identified_as k c"
    if "received_item n" "node_ident n = Some c" "\<forall>k. c = Number k \<longrightarrow> 0 \<le> k" for n c
    using taken [OF that(1)] that(2,3) by fastforce
  obtain i j t where ijt: "newIDInfoFromNode (Some (id_int 2 300)) = Inr (Inr i)" "identified_as i (Number 300)"
    "newIDInfoFromNode (Some (id_uint 4 300)) = Inr (Inr j)" "identified_as j (Number 300)"
    "newIDInfoFromNode (Some (ANode (text_node ''300''))) = Inr (Inr t)" "identified_as t (Text ''300'')"
    using some [OF id_items(1,5)] some [OF id_items(2,6)] some [OF id_items(3,7)] by auto
  have "id_key i = id_key j" "id_key i \<noteq> id_key t"
    using keys [of i "Number 300" j "Number 300"] keys [of i "Number 300" t "Text ''300''"] ijt by simp_all
  moreover have "\<not> (\<exists>k. newIDInfoFromNode (Some (id_int 1 (- 1))) = Inr (Inr k))"
    using taken [OF id_items(4)] id_items(8) by simp
  ultimately show ?thesis using ijt by blast
qed

text \<open>A number above \<open>2^32 - 1\<close> is accepted as an identifier when it is received in eight
  bytes, but making an identifier of it again panics. So a host that sends a program (S7F3) or defines
  a report (S2F33, with a variable that exists) under such a number ends the process of the equipment.\<close>

theorem large_identifier_panics:
  assumes "\<not> v \<le> 0xFFFFFFFF" and "vids \<noteq> []" and "\<And>u. u \<in> set vids \<Longrightarrow> vidExists (id_key u) g"
    and "i = \<lparr>id_raw = VUint64 v, id_node = id_uint 8 v, id_key = num_key v\<rparr>" and "g_reports g (num_key v) = None"
    and "dm_dataItem m = LNode [id_uint 8 v, ANode a] [] ''list''"
  shows "newIDInfoFromNode (Some (id_uint 8 v)) = Inr (Inr i) \<and> panics (newIDInfo (id_raw i))
    \<and> panics (handleReportDefinitions [(i, vids)] g) \<and> panics (fst (onS7F3 None (Some m) s w))"
proof -
  have r: "newIDInfoFromNode (Some (id_uint 8 v)) = Inr (Inr i)" using assms(4) received_number_id by simp
  have p: "panics (newIDInfo (VUint64 v))" using newIDInfoFromUint_panics [OF assms(1)] by (simp add: newIDInfo_def)
  then obtain c where c: "newIDInfo (VUint64 v) = Inl (Panic c)" by (auto simp: panics_def)
  have "panics (handleReportDefinitions [(i, vids)] g)"
    using assms(2-5) c by (auto simp: handleReportDefinitions_def newReportDefinition_def list_ex_iff panics_def)
  moreover have "panics (fst (onS7F3 None (Some m) s w))"
    using r c assms(4,6) Get_index [of "[id_uint 8 v, ANode a]" "[]" 0] Get_index [of "[id_uint 8 v, ANode a]" "[]" 1]
    by (simp add: onS7F3_def msg_Get_def newProcessProgram_def panics_def)
  ultimately show ?thesis using r p assms(4) by simp
qed

text \<open>A handler for the witnesses: an equipment with one status variable, number 1, of value 5.\<close>

definition sample_options :: "device_type \<Rightarrow> options" where
  "sample_options d = \<lparr>op_DeviceType = d, op_MDLN = ''M'', op_SOFTREV = ''1'', op_EstablishCommunicationWait = 10,
     op_InitialControlState = ControlStateAttemptOnline, op_InitialOnlineMode = OnlineModeRemote\<rparr>"

definition sample_time :: civil_time where
  "sample_time = \<lparr>t_year = 2024, t_month = 2, t_day = 29, t_hour = 23, t_minute = 59, t_second = 58,
     t_nanosecond = 0, t_offset = 9 * 3600\<rparr>"

definition sample_id :: "64 word \<Rightarrow> id_info" where
  "sample_id v = \<lparr>id_raw = VUint64 v, id_node = id_uint 4 v, id_key = num_key v\<rparr>"

definition sample_variable :: "unit status_variable" where
  "sample_variable = \<lparr>sv_info = sample_id 1, sv_Name = ''T'', sv_Unit = [], sv_value = Some (id_uint 1 5), sv_provider = None\<rparr>"

definition sample_gem :: "unit gem_handler" where
  "sample_gem = (new_handler (sample_options DeviceEquipment) () sample_time)
     \<lparr>g_statusVars := [num_key 1 \<mapsto> sample_variable], g_statusOrder := [num_key 1]\<rparr>"

lemma sample_gem_simps [simp]:
  "g_deviceType sample_gem = DeviceEquipment" "g_world sample_gem = ()"
  "g_statusVars sample_gem = [num_key 1 \<mapsto> sample_variable]" "g_statusOrder sample_gem = [num_key 1]"
  "g_dataVars sample_gem = (\<lambda>_. None)" "g_equipmentConstants sample_gem = (\<lambda>_. None)"
  "g_reports sample_gem = (\<lambda>_. None)" "g_eventLinks sample_gem = (\<lambda>_. None)"
  "g_collectionEvents sample_gem = (\<lambda>_. None)"
  by (simp_all add: sample_gem_def new_handler_def sample_options_def)

definition sample_message :: "int \<Rightarrow> int \<Rightarrow> item \<Rightarrow> data_message" where
  "sample_message s f body = \<lparr>dm_name = [], dm_stream = s, dm_function = f, dm_waitBit = 1, dm_direction = ''H->E'',
     dm_dataItem = body, dm_sessionID = 1, dm_systemBytes = [0, 0, 0, 9]\<rparr>"

lemma sample_message_simps [simp]:
  "dm_dataItem (sample_message s f body) = body" "dm_stream (sample_message s f body) = s"
  "dm_function (sample_message s f body) = f" "dm_systemBytes (sample_message s f body) = [0, 0, 0, 9]"
  by (simp_all add: sample_message_def)

theorem large_identifier_panics_witness:
  "panics (newIDInfo (VUint64 0x100000000)) \<and> panics (handleReportDefinitions
       [(\<lparr>id_raw = VUint64 0x100000000, id_node = id_uint 8 0x100000000, id_key = num_key 0x100000000\<rparr>, [sample_id 1])] sample_gem)
     \<and> panics (fst (onS7F3 None (Some (sample_message 7 3
          (LNode [id_uint 8 0x100000000, ANode (text_node ''x'')] [] ''list''))) [] ()))"
  using large_identifier_panics [of "0x100000000" "[sample_id 1]" sample_gem
      "\<lparr>id_raw = VUint64 0x100000000, id_node = id_uint 8 0x100000000, id_key = num_key 0x100000000\<rparr>"
      "sample_message 7 3 (LNode [id_uint 8 0x100000000, ANode (text_node ''x'')] [] ''list'')"
      "text_node ''x''" "[]" "()"]
  by (simp add: vidExists_def sample_id_def)

section \<open>Remote commands\<close>

text \<open>Claim C19. A remote command arrives as it was sent: the command and each parameter's name and
  value, in order, are what the host passed to \<open>SendRemoteCommand\<close>, for a host and any parameters
  whose names are identifiers and whose values have an encoding; and the message can be sent.\<close>

theorem remote_command_roundtrip:
  assumes "newIDInfo command = Inr (Inr ci)" and "list_all2 sends params nvs"
    and "int (length params) \<le> MAX_BYTE_SIZE"
  shows "\<exists>m. buildS2F41 dt command params = Inr (Inr m) \<and> Variables (dm_dataItem m) = []
    \<and> dm_stream m = 2 \<and> dm_function m = 41 \<and> dm_waitBit m = 1
    \<and> parseRemoteCommand (Some m) = Inr (Inr \<lparr>rq_Command = sprint_id (id_raw ci), rq_CommandID = id_raw ci,
        rq_Parameters = map (\<lambda>(n, v). \<lparr>rp_Name = sprint_id (id_raw n), rp_Identifier = id_raw n, rp_Value = v\<rparr>) nvs\<rparr>)"
proof -
  note b = buildS2F41_ok(1) [OF assms, of dt] buildS2F41_ok(2) [OF assms]
  let ?body = "LNode [id_node ci, LNode (map entry_item nvs) [] ''list''] [] ''list''"
  have read: "read_parameter (entry_item nv) = Inr (Some ((\<lambda>(n, v). \<lparr>rp_Name = sprint_id (id_raw n),
      rp_Identifier = id_raw n, rp_Value = v\<rparr>) nv))" if nv: "nv \<in> set nvs" for nv
  proof -
    obtain p where "sends p nv" using list_all2_right [OF assms(2) nv] by blast
    from param_node_sends(4) [OF this] show ?thesis by (cases nv) simp
  qed
  have ps: "go_map read_parameter (map entry_item nvs) = Inr (map Some (map (\<lambda>(n, v). \<lparr>rp_Name = sprint_id (id_raw n),
      rp_Identifier = id_raw n, rp_Value = v\<rparr>) nvs))"
    using read by (induction nvs) auto
  have "somes (map (Some \<circ> f) xs) = map f xs" for f :: "id_info \<times> item \<Rightarrow> remote_parameter" and xs
    unfolding comp_def by (rule somes_map)
  then have "parseRemoteCommand (Some m) = Inr (Inr \<lparr>rq_Command = sprint_id (id_raw ci), rq_CommandID = id_raw ci,
        rq_Parameters = map (\<lambda>(n, v). \<lparr>rp_Name = sprint_id (id_raw n), rp_Identifier = id_raw n, rp_Value = v\<rparr>) nvs\<rparr>)"
    if "dm_dataItem m = ?body" for m
    using that newIDInfo_read_back [OF assms(1)] ps Get_index [of "[id_node ci, LNode (map entry_item nvs) [] ''list'']" "[]" 0]
      Get_index [of "[id_node ci, LNode (map entry_item nvs) [] ''list'']" "[]" 1]
    by (simp add: parseRemoteCommand_def msg_Get_def as_list_def)
  then show ?thesis using b by simp
qed

theorem remote_command_roundtrip_witness:
  "\<exists>m. buildS2F41 DeviceHost (VUint64 3) [\<lparr>pv_Name = VUint64 4, pv_Value = CPVal (VItem (id_uint 1 5))\<rparr>] = Inr (Inr m)
     \<and> parseRemoteCommand (Some m) = Inr (Inr \<lparr>rq_Command = ''3'', rq_CommandID = VUint64 3,
         rq_Parameters = [\<lparr>rp_Name = ''4'', rp_Identifier = VUint64 4, rp_Value = id_uint 1 5\<rparr>]\<rparr>)"
proof -
  have d: "dec 3 = ''3''" "dec 4 = ''4''" by code_simp+
  have n: "newIDInfo (VUint64 3) = Inr (Inr (sample_id 3))" "newIDInfo (VUint64 4) = Inr (Inr (sample_id 4))"
    using small_number_id [of 3] small_number_id [of 4] by (simp_all add: sample_id_def)
  have "sends \<lparr>pv_Name = VUint64 4, pv_Value = CPVal (VItem (id_uint 1 5))\<rparr> (sample_id 4, id_uint 1 5)"
    using n by (simp add: sends_def itemNodeFromValue_def)
  then show ?thesis
    using remote_command_roundtrip [OF n(1), of "[\<lparr>pv_Name = VUint64 4, pv_Value = CPVal (VItem (id_uint 1 5))\<rparr>]"
        "[(sample_id 4, id_uint 1 5)]" DeviceHost] d
    by (auto simp: MAX_BYTE_SIZE_def sample_id_def sprint_id_def)
qed

section \<open>Time\<close>

text \<open>Claim C39. The time an equipment reports, 16 characters that end in \<open>00\<close>, for every provider whose clock shows a date and time of the
  years 0 to 9999, is read back as the same date and time of day to the second, but as a time in UTC. The
  point in time read back is off by the offset of the equipment's clock from UTC, and less by its
  nanoseconds; it is the point in time of the clock exactly when the clock runs in UTC and stands at a
  whole second. An equipment whose clock is set to local time is misread by its time zone.\<close>

theorem time_roundtrip:
  assumes "civil (GetTime now c w)"
  shows "\<exists>t. ParseSEMITime (GetFormattedTime now c w) = Inr t
    \<and> length (GetFormattedTime now c w) = 16 \<and> drop 14 (GetFormattedTime now c w) = ''00''
    \<and> t = (GetTime now c w)\<lparr>t_nanosecond := 0, t_offset := 0\<rparr>
    \<and> instant t = instant (GetTime now c w) + t_offset (GetTime now c w) * 10 ^ 9 - int (t_nanosecond (GetTime now c w))
    \<and> (instant t = instant (GetTime now c w) \<longleftrightarrow> t_offset (GetTime now c w) = 0 \<and> t_nanosecond (GetTime now c w) = 0)"
  unfolding GetFormattedTime_def parse_format_time [OF assms] using instant_kept_iff [OF assms] format_time_parts(7) [OF assms]
  by (simp add: instant_as_UTC)

theorem time_roundtrip_witness:
  "\<exists>t. ParseSEMITime (GetFormattedTime sample_time NewClockManager ()) = Inr t
    \<and> t = sample_time\<lparr>t_offset := 0\<rparr> \<and> instant t = instant sample_time + 9 * 3600 * 10 ^ 9 \<and> instant t \<noteq> instant sample_time"
proof -
  have g: "GetTime sample_time NewClockManager () = sample_time"
    by (simp add: GetTime_def NewClockManager_def)
  have c: "civil (GetTime sample_time NewClockManager ())" unfolding g by code_simp
  from time_roundtrip [OF c] show ?thesis unfolding g by (simp add: sample_time_def)
qed

section \<open>Handlers whose answer cannot be built\<close>

lemma lookup_register:
  assumes "0 \<le> a" "0 \<le> b" "0 \<le> c" "0 \<le> d"
  shows "lookupHandler (RegisterHandler a b x p) c d = (if c = a \<and> d = b then x else lookupHandler p c d)"
  using assms by (auto simp: lookupHandler_def RegisterHandler_def Let_def streamFunctionKey_inj split: option.splits)

lemma lookup_register_all:
  assumes "0 \<le> a" "0 \<le> b" and "\<And>s f h. (s, f, h) \<in> set hs \<Longrightarrow> 0 \<le> s \<and> 0 \<le> f"
    and "distinct (map (\<lambda>(s, f, h). (s, f)) hs)"
  shows "lookupHandler (Gem_Handler.register_all hs p) a b =
    (case map_of (map (\<lambda>(s, f, h). ((s, f), h)) hs) (a, b) of Some h \<Rightarrow> Some h | None \<Rightarrow> lookupHandler p a b)"
  using assms(3,4)
proof (induction hs arbitrary: p)
  case Nil
  then show ?case by (simp add: Gem_Handler.register_all_def)
next
  case (Cons x hs)
  obtain s f h where x: "x = (s, f, h)" by (cases x) auto
  let ?p = "RegisterHandler s f (Some h) p"
  have nn: "0 \<le> s" "0 \<le> f" using Cons.prems(1) x by auto
  have none: "map_of (map (\<lambda>(s, f, h). ((s, f), h)) hs) (s, f) = None"
    using Cons.prems(2) x by (force simp: map_of_eq_None_iff)
  have "lookupHandler (Gem_Handler.register_all hs ?p) a b =
      (case map_of (map (\<lambda>(s, f, h). ((s, f), h)) hs) (a, b) of Some h \<Rightarrow> Some h | None \<Rightarrow> lookupHandler ?p a b)"
    by (rule Cons.IH) (use Cons.prems in auto)
  then show ?case
    using none nn assms(1,2) by (auto simp: Gem_Handler.register_all_def x lookup_register split: option.split)
qed

lemma applyDefaults_device [simp]: "op_DeviceType (applyDefaults opts) = op_DeviceType opts"
  by (simp add: applyDefaults_def Let_def)

lemma NewGemHandler_handlers:
  "lookupHandler (NewGemHandler opts w now p) s f = lookupHandler (Gem_Handler.register_all (gem_handlers (op_DeviceType opts)) p) s f"
proof -
  have hs: "hp_handlers (Gem_Handler.register_all hs p) = hp_handlers (Gem_Handler.register_all hs q)"
    if "hp_handlers p = hp_handlers q" for hs and p q :: "'a gem"
    using that
  proof (induction hs arbitrary: p q)
    case (Cons x hs)
    obtain s f h where x: "x = (s, f, h)" by (cases x) auto
    show ?case using Cons.IH [of "RegisterHandler s f (Some h) p" "RegisterHandler s f (Some h) q"] Cons.prems
      by (simp add: Gem_Handler.register_all_def x RegisterHandler_def Let_def)
  qed (simp add: Gem_Handler.register_all_def)
  show ?thesis
    unfolding NewGemHandler_def Let_def lookupHandler_def on_gem_def
    by (rule fun_cong [of "hp_handlers _"]) (simp, rule hs, simp)
qed

text \<open>Every handler in the table of \<open>NewGemHandler\<close> answers its own stream and function.\<close>

lemma gem_handlers_found:
  assumes "(s, f, h) \<in> set (gem_handlers (op_DeviceType opts))"
  shows "lookupHandler (NewGemHandler opts w now p) s f = Some h"
proof -
  let ?hs = "gem_handlers (op_DeviceType opts) :: (int \<times> int \<times> ('a gem_handler) handler) list"
  have nn: "0 \<le> s' \<and> 0 \<le> f'" if "(s', f', h') \<in> set ?hs" for s' f' h'
    using that by (auto simp: gem_handlers_def equipment_handlers_def split: if_splits)
  have dist: "distinct (map (\<lambda>(s, f, h). (s, f)) ?hs)"
    by (cases "op_DeviceType opts = DeviceHost"; cases "op_DeviceType opts = DeviceEquipment")
      (simp_all add: gem_handlers_def equipment_handlers_def)
  then have "distinct (map fst (map (\<lambda>(s, f, h). ((s, f), h)) ?hs))"
    by (simp add: comp_def split_def)
  then have "map_of (map (\<lambda>(s, f, h). ((s, f), h)) ?hs) (s, f) = Some h"
    using assms by (intro map_of_is_SomeI) force+
  then show ?thesis
    using lookup_register_all [where a = s and b = f and hs = ?hs and p = p] nn dist nn [OF assms]
    by (simp add: NewGemHandler_handlers)
qed

lemma crashing_handlers:
  "panics (fst (gem_onS2F17 m g))" "panics (fst (gem_onS2F31 m g))" "panics (fst (gem_onS5F3 m g))"
  "panics (fst (gem_onS5F5 m g))" "panics (fst (gem_onS5F7 m g))"
proof -
  have r: "panics x \<Longrightarrow> panics (reply x)" for x by (auto simp: reply_def panics_def)
  show "panics (fst (gem_onS2F17 m g))" "panics (fst (gem_onS2F31 m g))" "panics (fst (gem_onS5F3 m g))"
    "panics (fst (gem_onS5F5 m g))" "panics (fst (gem_onS5F7 m g))"
    by (simp_all add: gem_onS2F17_def gem_onS2F31_def gem_onS5F3_def gem_onS5F5_def gem_onS5F7_def onS2F31_def
        onS5F3_def onS5F5_def onS5F7_def r alarm_answers_panic clock_answers_panic split: prod.split)
qed

text \<open>Claim C31. On an equipment, a request for the date and time (S2F17), a request to set it (S2F31)
  and every alarm request (S5F3, S5F5, S5F7) ends the process: the answer is built with the direction
  "E->H", which the message check refuses with a panic in the receiver's goroutine. This holds for
  every state of the handler and every such message, well-formed or not.\<close>

theorem equipment_answers_crash:
  fixes p q :: "'w gem"
  assumes "op_DeviceType opts \<noteq> DeviceHost"
    and "(dm_stream m, dm_function m) \<in> {(2, 17), (2, 31), (5, 3), (5, 5), (5, 7)}"
    and "hp_state p = StateConnectedSelected" and "length (dm_systemBytes m) = 4"
    and "lookupHandler p (dm_stream m) (dm_function m)
       = lookupHandler (NewGemHandler opts w now q) (dm_stream m) (dm_function m)"
    and "fetchQueue p (word_of_nat (be_uint (dm_systemBytes m))) = None"
  shows "panics (receive_step fsm (Inr (DataMsg m)) p)"
proof -
  have bad: "panics (fst (h m g))"
    if "h \<in> {gem_onS2F17, gem_onS2F31, gem_onS5F3, gem_onS5F5, gem_onS5F7}" for h and g :: "'w gem_handler"
    using that by (elim insertE emptyE) (simp_all add: crashing_handlers)
  have "\<exists>h. (dm_stream m, dm_function m, h) \<in> set (gem_handlers (op_DeviceType opts) ::
      (int \<times> int \<times> ('w gem_handler) handler) list) \<and> h \<in> {gem_onS2F17, gem_onS2F31, gem_onS5F3, gem_onS5F5, gem_onS5F7}"
    using assms(2)
    by (elim insertE emptyE; simp only: prod.inject; elim conjE)
      (rule exI, rule conjI, simp add: gem_handlers_def equipment_handlers_def assms(1), simp)+
  then obtain h :: "('w gem_handler) handler" where h: "(dm_stream m, dm_function m, h) \<in> set (gem_handlers (op_DeviceType opts))"
    and in5: "h \<in> {gem_onS2F17, gem_onS2F31, gem_onS5F3, gem_onS5F5, gem_onS5F7}" by blast
  have l: "lookupHandler p (dm_stream m) (dm_function m) = Some h"
    using gem_handlers_found [OF h] assms(5) by simp
  have "panics (invokeHandler h m p)"
    using bad [OF in5, of "hp_app p"] by (cases "h m (hp_app p)") (auto simp: invokeHandler_def panics_def Let_def)
  moreover have "dm_stream m \<noteq> 9" using assms(2) by auto
  ultimately have "panics (handleDataMessage m p)" using l by (simp add: handleDataMessage_def Let_def)
  then show ?thesis
    using assms(3,4,6) by (auto simp: receive_step_def receive_data_def systemID_of_def panics_def)
qed

lemma register_all_shape: "\<exists>hh. Gem_Handler.register_all hs p = p\<lparr>hp_handlers := hh\<rparr>"
proof (induction hs arbitrary: p)
  case Nil
  show ?case by (rule exI [of _ "hp_handlers p"]) (simp add: Gem_Handler.register_all_def)
next
  case (Cons x hs)
  obtain s f h where x: "x = (s, f, h)" by (cases x) auto
  obtain hh where hh: "Gem_Handler.register_all hs (RegisterHandler s f (Some h) p)
      = (RegisterHandler s f (Some h) p)\<lparr>hp_handlers := hh\<rparr>"
    using Cons.IH by blast
  show ?case
    by (rule exI [of _ hh]) (use hh in \<open>simp add: Gem_Handler.register_all_def x RegisterHandler_def Let_def\<close>)
qed

lemma NewGemHandler_shape: "\<exists>hh g. NewGemHandler opts w now p = p\<lparr>hp_app := g, hp_OnS9Error := True, hp_handlers := hh\<rparr>"
proof -
  let ?p = "p\<lparr>hp_app := setCommunicationState CommunicationStateNotCommunicating (new_handler (applyDefaults opts) w now),
      hp_OnS9Error := True\<rparr>"
  obtain hh where "Gem_Handler.register_all (gem_handlers (op_DeviceType opts)) ?p = ?p\<lparr>hp_handlers := hh\<rparr>"
    using register_all_shape by blast
  then show ?thesis
    by (intro exI [of _ hh] exI [of _ "onControlStateTransition ControlStateInit
          (ct_state (g_control (hp_app ?p))) (hp_app ?p)"])
      (simp add: NewGemHandler_def Let_def on_gem_def)
qed

definition sample_device :: "device_type \<Rightarrow> unit gem" where
  "sample_device d = (NewGemHandler (sample_options d) () sample_time (NewHsmsProtocol False 1 0 sample_gem))
     \<lparr>hp_state := StateConnectedSelected, hp_connected := True, hp_connection := Some 0\<rparr>"

theorem equipment_answers_crash_witness:
  "panics (receive_step table_fire (Inr (DataMsg (sample_message 2 17 EmptyNode))) (sample_device DeviceEquipment))"
proof -
  have "fetchQueue (sample_device DeviceEquipment) k = None" for k
    using NewGemHandler_shape [of "sample_options DeviceEquipment" "()" sample_time "NewHsmsProtocol False 1 0 sample_gem"]
    by (auto simp: sample_device_def fetchQueue_def NewHsmsProtocol_def)
  then show ?thesis
    by (intro equipment_answers_crash [where opts = "sample_options DeviceEquipment" and w = "()" and now = sample_time
          and q = "NewHsmsProtocol False 1 0 sample_gem"])
      (simp_all add: sample_device_def lookupHandler_def sample_options_def)
qed

section \<open>Status variables and equipment constants\<close>

text \<open>The values that are asked for: of every variable in the order of registration, or of each
  identifier of the request; what is not known has an empty item.\<close>

definition status_answers :: "id_request list \<Rightarrow> ('w, 'z) gem_vars' \<Rightarrow> item list" where
  "status_answers rs g =
     (if rs = [] then map (safeStatusValue (g_world g)) (List.map_filter (g_statusVars g) (g_statusOrder g))
      else map (\<lambda>r. case r of None \<Rightarrow> EmptyNode | Some i \<Rightarrow> (case g_statusVars g (id_key i) of
         None \<Rightarrow> EmptyNode | Some sv \<Rightarrow> safeStatusValue (g_world g) sv)) rs)"

lemma go_map_pure: "(\<And>x. f x = Inr (h x)) \<Longrightarrow> go_map f xs = Inr (map h xs)"
  by (induction xs) simp_all

lemma resolveStatusValues_eq: "resolveStatusValues rs g = Inr (status_answers rs g)"
  unfolding resolveStatusValues_def resolve_def status_answers_def
  by (auto intro!: go_map_pure split: option.split)

text \<open>What a request for status values (S1F3) brings depends on the number of identifiers the
  equipment does not know or has no value for. With none, the answer lists the values in the order
  asked for and can be sent. With one, the answer is built but has no encoding: nothing is sent and the
  host runs into its timeout. With two or more, building it ends the process.\<close>

theorem status_request_gaps:
  assumes "parseIDRequestList (Some m) = Inr (Inr rs)"
    and "\<And>k sv. g_statusVars g k = Some sv \<Longrightarrow> settled_item (safeStatusValue (g_world g) sv)"
    and "int (length (status_answers rs g)) \<le> MAX_BYTE_SIZE"
    and "r = \<lparr>dm_name = ''SelectedEquipmentStatusData'', dm_stream = 1, dm_function = 4, dm_waitBit = 0,
        dm_direction = ''H<-E'', dm_dataItem = LNode (status_answers rs g) [] ''list'', dm_sessionID = - 1,
        dm_systemBytes = [0, 0, 0, 0]\<rparr>"
  shows "(gaps (status_answers rs g) \<le> 1 \<longrightarrow> onS1F3 (Some m) g = Inr r)
    \<and> (gaps (status_answers rs g) = 0 \<longrightarrow> Variables (dm_dataItem r) = [])
    \<and> (gaps (status_answers rs g) = 1 \<longrightarrow> DataMessage_ToBytes (outgoing sid sb False r) = Inr [])
    \<and> (1 < gaps (status_answers rs g) \<longrightarrow> panics (onS1F3 (Some m) g))"
proof -
  let ?A = "status_answers rs g"
  have "settled_item EmptyNode" by (simp add: settled_item_def)
  then have st: "settled_item n" if "n \<in> set ?A" for n
    using that assms(2) by (auto simp: status_answers_def List.map_filter_def split: if_splits option.splits)
  have id: "map or_empty (map Some ?A) = ?A" by (simp add: or_empty_def comp_def)
  have eq: "onS1F3 (Some m) g = list_message ''SelectedEquipmentStatusData'' 1 4 0 ''H<-E'' ?A"
    unfolding onS1F3_def answer_requests_def assms(1) by (simp only: go_bind_simps sum.case resolveStatusValues_eq buildS1F4_def id)
  have sp: "list_all (\<lambda>r. \<not> rune_is_space r) (runes ''SelectedEquipmentStatusData'')" by code_simp
  note l = list_message_gaps [OF st assms(3)]
  have "gaps ?A \<le> 1 \<Longrightarrow> onS1F3 (Some m) g = Inr r"
    using l(2) NewDataMessage_ok [OF sp] eq assms(4) by simp
  moreover have v: "Variables (LNode ?A [] ''list'') = [] \<longleftrightarrow> gaps ?A = 0" by (rule l(3))
  moreover have "DataMessage_ToBytes (outgoing sid sb False r) = Inr []" if "gaps ?A = 1"
    using v that assms(4) by (simp add: DataMessage_ToBytes_def outgoing_def WaitBit_def)
  moreover have "1 < gaps ?A \<Longrightarrow> panics (onS1F3 (Some m) g)" using l(1) eq by simp
  ultimately show ?thesis using assms(4) by simp
qed

theorem status_request_gaps_witness:
  "panics (onS1F3 (Some (sample_message 1 3 (LNode [id_uint 1 8, id_uint 1 1, id_uint 1 9] [] ''list''))) sample_gem)"
proof -
  let ?m = "sample_message 1 3 (LNode [id_uint 1 8, id_uint 1 1, id_uint 1 9] [] ''list'')"
  let ?id = "\<lambda>v. \<lparr>id_raw = VUint64 v, id_node = id_uint 1 v, id_key = num_key v\<rparr>"
  have rs: "parseIDRequestList (Some ?m) = Inr (Inr [Some (?id 8), Some (?id 1), Some (?id 9)])"
    by (simp add: parseIDRequestList_def list_body_def message_body_def as_list_def request_of_def received_number_id)
  have five: "safeStatusValue () sample_variable = id_uint 1 5"
    by (simp add: safeStatusValue_def safe_value_def sv_Value_def sample_variable_def)
  have keys: "num_key 8 \<noteq> num_key 1" "num_key 9 \<noteq> num_key 1" by code_simp+
  have a: "status_answers [Some (?id 8), Some (?id 1), Some (?id 9)] sample_gem = [EmptyNode, id_uint 1 5, EmptyNode]"
    using keys five by (simp add: status_answers_def)
  have settled: "settled_item (safeStatusValue (g_world sample_gem) sv)" if "g_statusVars sample_gem k = Some sv" for k sv
    using that five by (simp add: settled_item_def split: if_splits)
  show ?thesis
    using status_request_gaps [OF rs settled _ refl] a by (simp add: MAX_BYTE_SIZE_def)
qed

end
