(* ===== verification/Gem_Reports.thy ===== *)
theory Gem_Reports
  imports Gem_Services
begin

text \<open>
  Properties of the services that change what an equipment keeps: equipment constants (S2F15), reports
  and their links (S2F33, S2F35, S2F37), event reports (S6F11) and process programs (S7F3, S7F5).
\<close>

section \<open>Equipment constants\<close>

text \<open>What the callbacks of a constant say to a value: the validator first, then the updater, which may change
  the state of the application.\<close>

definition verdict :: "'w equipment_constant \<Rightarrow> item \<Rightarrow> 'w \<Rightarrow> bool \<times> 'w" where
  "verdict ec v w =
     (if (case ec_validator ec of None \<Rightarrow> True | Some f \<Rightarrow> f v w = Inr ())
      then (case ec_updater ec of None \<Rightarrow> (True, w) | Some f \<Rightarrow> (fst (f v w) = Inr (), snd (f v w)))
      else (False, w))"

text \<open>The callbacks are consulted in the order of the message, up to the first refusal: the updates accepted,
  whether all were, and the application state.\<close>

fun consulted :: "(string \<Rightarrow> 'w equipment_constant option) \<Rightarrow> (id_info \<times> item) list \<Rightarrow> 'w \<Rightarrow>
    (id_info \<times> item) list \<times> bool \<times> 'w" where
  "consulted cs [] w = ([], True, w)"
| "consulted cs ((i, v) # us) w = (case verdict (the (cs (id_key i))) v w of
      (False, w') \<Rightarrow> ([], False, w')
    | (True, w') \<Rightarrow> (case consulted cs us w' of (accepted, all_accepted, w'') \<Rightarrow> ((i, v) # accepted, all_accepted, w'')))"

text \<open>The last value a list of updates has for a key, and a handler with these values: a constant whose value
  comes from a provider of the application stores none.\<close>

fun value_for :: "string \<Rightarrow> (id_info \<times> item) list \<Rightarrow> item option" where
  "value_for k [] = None"
| "value_for k ((i, v) # us) = (case value_for k us of
     Some x \<Rightarrow> Some x | None \<Rightarrow> if id_key i = k then Some v else None)"

definition ec_stored :: "item \<Rightarrow> 'w equipment_constant \<Rightarrow> 'w equipment_constant" where
  "ec_stored v ec = (if ec_provider ec = None then ec\<lparr>ec_value := Some v\<rparr> else ec)"

definition with_values :: "(id_info \<times> item) list \<Rightarrow> ('w, 'z) gem_vars' \<Rightarrow> ('w, 'z) gem_vars'" where
  "with_values us g = g\<lparr>g_equipmentConstants := (\<lambda>k. map_option
     (\<lambda>ec. case value_for k us of Some v \<Rightarrow> ec_stored v ec | None \<Rightarrow> ec) (g_equipmentConstants g k))\<rparr>"

lemma ec_stored_simps [simp]:
  "ec_validator (ec_stored v ec) = ec_validator ec" "ec_updater (ec_stored v ec) = ec_updater ec"
  "ec_provider (ec_stored v ec) = ec_provider ec"
  by (simp_all add: ec_stored_def)

lemma ApplyValue_verdict:
  "ApplyValue (Some v) w ec = (r, w', ec') \<Longrightarrow>
     verdict ec v w = (r = Inr (), w') \<and> ec' = (if r = Inr () then ec_stored v ec else ec)"
  by (auto simp: ApplyValue_def verdict_def ec_stored_def split: option.splits sum.splits prod.splits if_splits)

text \<open>Storing a value leaves the callbacks as they are.\<close>

lemma consulted_stored:
  assumes "cs k = Some ec"
  shows "consulted (cs(k := Some (ec_stored v ec))) us w = consulted cs us w"
proof (induction us arbitrary: w)
  case (Cons u us)
  have "verdict (the ((cs(k := Some (ec_stored v ec))) j)) x y = verdict (the (cs j)) x y" for j x y
    using assms by (simp add: verdict_def)
  then show ?case using Cons by (cases u) (simp split: prod.split bool.split)
qed simp

lemma with_values_Nil [simp]: "with_values [] g = g"
  by (simp add: with_values_def option.map_ident)

lemma with_values_Cons:
  assumes "g_equipmentConstants g (id_key i) = Some ec"
  shows "with_values us (g\<lparr>g_world := w, g_equipmentConstants := (g_equipmentConstants g)(id_key i := Some (ec_stored v ec))\<rparr>)
    = (with_values ((i, v) # us) g)\<lparr>g_world := w\<rparr>"
proof -
  have twice: "ec_stored x (ec_stored v c) = ec_stored x c" for x and c :: "'a equipment_constant" by (simp add: ec_stored_def)
  have "(\<lambda>k. map_option (\<lambda>c. case value_for k us of Some x \<Rightarrow> ec_stored x c | None \<Rightarrow> c)
        (((g_equipmentConstants g)(id_key i := Some (ec_stored v ec))) k))
      = (\<lambda>k. map_option (\<lambda>c. case value_for k ((i, v) # us) of Some x \<Rightarrow> ec_stored x c | None \<Rightarrow> c) (g_equipmentConstants g k))"
  proof
    fix k
    show "map_option (\<lambda>c. case value_for k us of Some x \<Rightarrow> ec_stored x c | None \<Rightarrow> c)
        (((g_equipmentConstants g)(id_key i := Some (ec_stored v ec))) k)
      = map_option (\<lambda>c. case value_for k ((i, v) # us) of Some x \<Rightarrow> ec_stored x c | None \<Rightarrow> c) (g_equipmentConstants g k)"
      using assms twice by (cases "value_for k us") auto
  qed
  then show ?thesis by (simp add: with_values_def)
qed

lemma apply_updates_consulted:
  assumes "\<forall>(i, v) \<in> set us. g_equipmentConstants g (id_key i) \<noteq> None"
  shows "apply_updates (map Some us) g = (case consulted (g_equipmentConstants g) us (g_world g) of
    (accepted, all_accepted, w) \<Rightarrow> (if all_accepted then ECACKAccepted else ECACKValidationError, (with_values accepted g)\<lparr>g_world := w\<rparr>))"
  using assms
proof (induction us arbitrary: g)
  case Nil
  then show ?case by simp
next
  case (Cons u us)
  obtain i v ec where u: "u = (i, v)" and ec: "g_equipmentConstants g (id_key i) = Some ec"
    using Cons.prems by (cases u) auto
  obtain r w ec' where a: "ApplyValue (Some v) (g_world g) ec = (r, w, ec')" by (metis prod_cases3)
  note vd = ApplyValue_verdict [OF a]
  show ?case
  proof (cases r)
    case (Inl e)
    then have "(g_equipmentConstants g)(id_key i := Some ec') = g_equipmentConstants g" using vd ec by auto
    then show ?thesis using vd ec a Inl u by (simp add: Let_def)
  next
    case (Inr x)
    let ?g = "g\<lparr>g_world := w, g_equipmentConstants := (g_equipmentConstants g)(id_key i := Some (ec_stored v ec))\<rparr>"
    have "apply_updates (map Some us) ?g = (case consulted (g_equipmentConstants ?g) us (g_world ?g) of
      (accepted, all_accepted, w) \<Rightarrow> (if all_accepted then ECACKAccepted else ECACKValidationError, (with_values accepted ?g)\<lparr>g_world := w\<rparr>))"
      using Cons.prems by (intro Cons.IH) auto
    then show ?thesis using vd ec a Inr u with_values_Cons [OF ec, where w = w and v = v]
      by (simp add: consulted_stored [of "g_equipmentConstants g", OF ec] split: prod.split)
  qed
qed

text \<open>The first update that the whole message is refused for: one that could not be read, or one of an unknown
  constant.\<close>

definition refused :: "('w, 'z) gem_vars' \<Rightarrow> ec_update \<Rightarrow> bool" where
  "refused g u \<longleftrightarrow> (case u of None \<Rightarrow> True | Some (i, v) \<Rightarrow> g_equipmentConstants g (id_key i) = None)"

lemma check_updates_refused:
  "check_updates us g = (case find (refused g) us of
      None \<Rightarrow> ECACKAccepted | Some None \<Rightarrow> ECACKInvalidData | Some (Some _) \<Rightarrow> ECACKDoesNotExist)"
  by (induction us g rule: check_updates.induct) (auto simp: refused_def)

lemma find_None_all: "find P xs = None \<longleftrightarrow> (\<forall>x \<in> set xs. \<not> P x)"
  by (auto simp: find_None_iff)

text \<open>Claim C20. New equipment constants (S2F15), with whatever validators, updaters and value providers the
  application has installed. A message with an unreadable entry or an unknown constant is refused as a
  whole and changes nothing; the first such entry decides the answer. Otherwise the callbacks are consulted in
  the order of the message up to the first refusal. Every constant named in an accepted update then has the
  last value accepted for it, except one whose value comes from a provider, which stores none; no other
  constant changes. The answer is \<open>Accepted\<close> when there was no refusal and \<open>ValidationError\<close> otherwise, also
  then with the updates before the refusal in force: the update is not atomic.\<close>

theorem constant_updates:
  assumes "parseEquipmentConstantUpdateList (Some m) = Inr (Inr us)"
  shows "onS2F15 (Some m) g = (case find (refused g) us of
      Some None \<Rightarrow> (buildS2F16 ECACKInvalidData, g)
    | Some (Some _) \<Rightarrow> (buildS2F16 ECACKDoesNotExist, g)
    | None \<Rightarrow> (case consulted (g_equipmentConstants g) (map the us) (g_world g) of (accepted, all_accepted, w) \<Rightarrow>
        (buildS2F16 (if all_accepted then ECACKAccepted else ECACKValidationError), (with_values accepted g)\<lparr>g_world := w\<rparr>)))"
proof (cases "find (refused g) us")
  case None
  then have r: "\<forall>u \<in> set us. \<not> refused g u" by (simp add: find_None_all)
  then have "map Some (map the us) = us" by (induction us) (auto simp: refused_def split: option.splits)
  moreover have "\<forall>(i, v) \<in> set (map the us). g_equipmentConstants g (id_key i) \<noteq> None"
    using r by (fastforce simp: refused_def split: option.splits)
  ultimately show ?thesis using None apply_updates_consulted [of "map the us" g]
    by (simp add: onS2F15_def applyEquipmentConstantUpdates_def assms check_updates_refused split: prod.split)
next
  case (Some u)
  then show ?thesis
    by (cases u) (simp_all add: onS2F15_def applyEquipmentConstantUpdates_def assms check_updates_refused)
qed

definition sample_constant :: "64 word \<Rightarrow> unit equipment_constant" where
  "sample_constant v = \<lparr>ec_info = sample_id v, ec_Name = ''P'', ec_Unit = [], ec_MinValue = None, ec_MaxValue = None,
     ec_DefaultValue = Some (id_uint 1 0), ec_value = Some (id_uint 1 0), ec_provider = None, ec_updater = None,
     ec_validator = None\<rparr>"

definition checked_constant :: "unit equipment_constant" where
  "checked_constant = (sample_constant 2)\<lparr>ec_validator := Some (\<lambda>v w. Inr ())\<rparr>"

definition strict_constant :: "unit equipment_constant" where
  "strict_constant = (sample_constant 3)\<lparr>ec_validator := Some (\<lambda>v w. Inl (Err ''out of range''))\<rparr>"

text \<open>The values of constants 2 and 3 are set in one message; a validator accepts the first, constant 3 takes none: the answer is an
  error and constant 2 has its new value.\<close>

theorem constant_updates_witness:
  "let g = sample_gem\<lparr>g_equipmentConstants := [num_key 2 \<mapsto> checked_constant, num_key 3 \<mapsto> strict_constant]\<rparr>
   in \<exists>g'. onS2F15 (Some (sample_message 2 15 (LNode [LNode [id_uint 1 2, id_uint 1 7] [] ''list'',
          LNode [id_uint 1 3, id_uint 1 7] [] ''list''] [] ''list''))) g = (buildS2F16 ECACKValidationError, g')
      \<and> map_option ec_value (g_equipmentConstants g' (num_key 2)) = Some (Some (id_uint 1 7))"
proof -
  let ?g = "sample_gem\<lparr>g_equipmentConstants := [num_key 2 \<mapsto> checked_constant, num_key 3 \<mapsto> strict_constant]\<rparr>"
  let ?m = "sample_message 2 15 (LNode [LNode [id_uint 1 2, id_uint 1 7] [] ''list'',
          LNode [id_uint 1 3, id_uint 1 7] [] ''list''] [] ''list'')"
  let ?id = "\<lambda>v. \<lparr>id_raw = VUint64 v, id_node = id_uint 1 v, id_key = num_key v\<rparr>"
  let ?u = "\<lambda>v. Some (?id v, id_uint 1 7)"
  have p: "parseEquipmentConstantUpdateList (Some ?m) = Inr (Inr [?u 2, ?u 3])"
    by (simp add: parseEquipmentConstantUpdateList_def list_body_def message_body_def as_list_def update_of_def
        received_number_id)
  have "find (refused ?g) [?u 2, ?u 3] = None" by (simp add: refused_def)
  moreover have "consulted (g_equipmentConstants ?g) (map the [?u 2, ?u 3]) (g_world ?g) = ([(?id 2, id_uint 1 7)], False, ())"
    by (simp add: verdict_def checked_constant_def sample_constant_def strict_constant_def)
  ultimately have "onS2F15 (Some ?m) ?g = (buildS2F16 ECACKValidationError, (with_values [(?id 2, id_uint 1 7)] ?g)\<lparr>g_world := ()\<rparr>)"
    using constant_updates [OF p, of ?g] by simp
  then show ?thesis by (simp add: Let_def with_values_def checked_constant_def sample_constant_def ec_stored_def)
qed

section \<open>Reports and links\<close>

text \<open>Claim C18. Whatever a host sends to define reports (S2F33), to link them to events (S2F35) or to
  enable events (S2F37), every report kept is stored under its own identifier and lists existing
  variables, and every link belongs to a registered event and has at least one report. Moreover links
  only name existing reports, each once, as long as no S2F35 names a report twice for an event.\<close>

theorem event_links_invariant:
  assumes "reports_ok g"
  shows "reports_ok (snd (onS2F33 m g)) \<and> reports_ok (snd (onS2F35 m g)) \<and> reports_ok (snd (onS2F37 m g))
    \<and> (links_closed g \<longrightarrow> links_closed (snd (onS2F33 m g)) \<and> links_closed (snd (onS2F37 m g))
        \<and> (\<forall>ls. parseEventReportLinkList m = Inr (Inr ls) \<and> (\<forall>k. distinct (pending ls k))
             \<longrightarrow> links_closed (snd (onS2F35 m g))))"
proof -
  have d: "reports_ok (snd (onS2F33 m g)) \<and> (links_closed g \<longrightarrow> links_closed (snd (onS2F33 m g)))"
  proof (cases "\<exists>rs ack g'. parseReportDefinitionList m = Inr (Inr rs) \<and> handleReportDefinitions rs g = Inr (ack, g')")
    case True
    then obtain rs ack g' where p: "parseReportDefinitionList m = Inr (Inr rs)"
      and h: "handleReportDefinitions rs g = Inr (ack, g')" by blast
    have "entries_keyed rs" using p id_entries_keyed unfolding parseReportDefinitionList_def by blast
    then show ?thesis using handleReportDefinitions_ok [OF h assms] p h by (simp add: onS2F33_def)
  next
    case False
    then have "snd (onS2F33 m g) = g" by (auto simp: onS2F33_def split: sum.split)
    then show ?thesis using assms by simp
  qed
  moreover have "reports_ok (snd (onS2F35 m g))"
    using assms handleEventReportLinks_ok(1) [OF assms] by (simp add: onS2F35_def split: sum.split prod.split)
      (metis snd_conv)
  moreover have "links_closed (snd (onS2F35 m g))"
    if "links_closed g" "parseEventReportLinkList m = Inr (Inr ls)" "\<forall>k. distinct (pending ls k)" for ls
    using handleEventReportLinks_ok(2) [OF assms that(1), of ls] that(2,3)
    by (simp add: onS2F35_def split: prod.split) (metis snd_conv)
  moreover have "reports_ok (snd (onS2F37 m g)) \<and> (links_closed g \<longrightarrow> links_closed (snd (onS2F37 m g)))"
    using assms by (auto simp: onS2F37_def split: sum.split prod.split dest: setCollectionEventState_ok)
  ultimately show ?thesis by blast
qed

text \<open>A link request (S2F35) that names a report twice for one event is accepted, and the
  report is linked twice. Deleting the report (S2F33 with no variables) then removes it from the link
  once: the event stays linked to a report that does not exist, which E30 excludes, and a report
  defined later under that number is linked to the event without a request.\<close>

theorem duplicate_link_dangles:
  assumes "parseEventReportLinkList (Some m1) = Inr (Inr [(ce, [r, r])])"
    and "parseReportDefinitionList (Some m2) = Inr (Inr [(r, [])])"
    and "g_collectionEvents g (id_key ce) \<noteq> None" and "g_reports g (id_key r) \<noteq> None"
    and "id_key r \<notin> set (link_reports g (id_key ce))"
  shows "fst (onS2F35 (Some m1) g) = buildS2F36 LRACKAccept
    \<and> fst (onS2F33 (Some m2) (snd (onS2F35 (Some m1) g))) = buildS2F34 DRACKAccept
    \<and> g_reports (snd (onS2F33 (Some m2) (snd (onS2F35 (Some m1) g)))) (id_key r) = None
    \<and> link_reports (snd (onS2F33 (Some m2) (snd (onS2F35 (Some m1) g)))) (id_key ce)
        = link_reports g (id_key ce) @ [id_key r]
    \<and> \<not> links_closed (snd (onS2F33 (Some m2) (snd (onS2F35 (Some m1) g))))"
proof -
  let ?g1 = "apply_link (ce, [r, r]) g"
  let ?g2 = "removeReportUnlocked (id_key r) ?g1"
  have "check_links [(ce, [r, r])] g = LRACKAccept"
    using assms(3-5) check_links_accept [of "[(ce, [r, r])]" g] by auto
  then have 1: "onS2F35 (Some m1) g = (buildS2F36 LRACKAccept, ?g1)"
    using assms(1) by (simp add: onS2F35_def handleEventReportLinks_def)
  have 2: "onS2F33 (Some m2) ?g1 = (buildS2F34 DRACKAccept, ?g2)"
    using assms(2) by (simp add: onS2F33_def handleReportDefinitions_def)
  have none: "g_reports ?g2 (id_key r) = None" by (simp add: removeReportUnlocked_def)
  have l: "link_reports ?g2 (id_key ce) = link_reports g (id_key ce) @ [id_key r]"
    using assms(5) by (simp add: link_reports_remove apply_link_effect remove1_append)
  have "\<not> links_closed ?g2"
  proof
    assume "links_closed ?g2"
    then have "set (link_reports ?g2 (id_key ce)) \<subseteq> dom (g_reports ?g2)" by (simp add: links_closed_def)
    then have "id_key r \<in> dom (g_reports ?g2)" unfolding l by simp
    then show False using none by (simp add: domIff)
  qed
  then show ?thesis using 1 2 none l by simp
qed

definition sample_report :: report_definition where
  "sample_report = \<lparr>rd_info = sample_id 2, rd_vidKeys = [num_key 1]\<rparr>"

text \<open>An equipment with event 6, report 2 of status variable 1, and no link.\<close>

definition sample_events :: "unit gem_handler" where
  "sample_events = sample_gem\<lparr>g_collectionEvents := [num_key 6 \<mapsto> \<lparr>ce_info = sample_id 6, ce_Name = ''E''\<rparr>],
     g_reports := [num_key 2 \<mapsto> sample_report]\<rparr>"

lemma sample_events_ok: "reports_ok sample_events \<and> links_closed sample_events"
  by (auto simp: reports_ok_def links_closed_def link_reports_def sample_events_def sample_report_def vidExists_def
      sample_id_def)

lemma received_entry:
  "id_entries (Some (sample_message s f (LNode [LNode [id_uint 1 a, LNode (map (id_uint 1) bs) [] ''list''] [] ''list''] [] ''list'')))
     = Inr (Inr [(\<lparr>id_raw = VUint64 a, id_node = id_uint 1 a, id_key = num_key a\<rparr>,
         map (\<lambda>b. \<lparr>id_raw = VUint64 b, id_node = id_uint 1 b, id_key = num_key b\<rparr>) bs)])"
proof -
  have "res_map id_of (map (id_uint 1) bs)
      = Inr (Inr (map (\<lambda>b. \<lparr>id_raw = VUint64 b, id_node = id_uint 1 b, id_key = num_key b\<rparr>) bs))"
    by (induction bs) (simp_all add: id_of_def received_number_id)
  then show ?thesis
    by (simp add: id_entries_def list_body_def as_list_def entry_list_def id_entry_def id_of_def received_number_id)
qed

theorem event_links_invariant_witness:
  "links_closed (snd (onS2F35 (Some (sample_message 2 35
     (LNode [LNode [id_uint 1 6, LNode [id_uint 1 2] [] ''list''] [] ''list''] [] ''list''))) sample_events))"
proof -
  have p: "parseEventReportLinkList (Some (sample_message 2 35
     (LNode [LNode [id_uint 1 6, LNode [id_uint 1 2] [] ''list''] [] ''list''] [] ''list''))) = Inr (Inr
       [(\<lparr>id_raw = VUint64 6, id_node = id_uint 1 6, id_key = num_key 6\<rparr>,
         [\<lparr>id_raw = VUint64 2, id_node = id_uint 1 2, id_key = num_key 2\<rparr>])])"
    using received_entry [of 2 35 6 "[2]"] by (simp add: parseEventReportLinkList_def)
  show ?thesis
    using event_links_invariant [of sample_events] sample_events_ok p by (simp add: pending_def)
qed

theorem duplicate_link_dangles_witness:
  "\<not> links_closed (snd (onS2F33 (Some (sample_message 2 33
       (LNode [LNode [id_uint 1 2, LNode [] [] ''list''] [] ''list''] [] ''list'')))
     (snd (onS2F35 (Some (sample_message 2 35
       (LNode [LNode [id_uint 1 6, LNode [id_uint 1 2, id_uint 1 2] [] ''list''] [] ''list''] [] ''list''))) sample_events))))"
proof -
  let ?id = "\<lambda>v. \<lparr>id_raw = VUint64 v, id_node = id_uint 1 v, id_key = num_key v\<rparr>"
  have p1: "parseEventReportLinkList (Some (sample_message 2 35
       (LNode [LNode [id_uint 1 6, LNode [id_uint 1 2, id_uint 1 2] [] ''list''] [] ''list''] [] ''list'')))
      = Inr (Inr [(?id 6, [?id 2, ?id 2])])"
    using received_entry [of 2 35 6 "[2, 2]"] by (simp add: parseEventReportLinkList_def)
  have p2: "parseReportDefinitionList (Some (sample_message 2 33
       (LNode [LNode [id_uint 1 2, LNode [] [] ''list''] [] ''list''] [] ''list''))) = Inr (Inr [(?id 2, [])])"
    using received_entry [of 2 33 2 "[]"] by (simp add: parseReportDefinitionList_def)
  show ?thesis
    using duplicate_link_dangles [OF p1 p2, of sample_events] by (simp add: sample_events_def link_reports_def)
qed

section \<open>Event reports\<close>

text \<open>The reports linked to an event that exist, with the values of their variables.\<close>

definition linked_reports :: "string \<Rightarrow> ('w, 'z) gem_coll' \<Rightarrow> report_definition list" where
  "linked_reports k g = List.map_filter (g_reports g) (link_reports g k)"

definition report_values :: "('w, 'z) gem_coll' \<Rightarrow> report_definition \<Rightarrow> report_value" where
  "report_values g d = \<lparr>rv_RPTID = id_raw (rd_info d), rv_Values = collectReportValues d g\<rparr>"

definition made :: "id_info \<Rightarrow> bool" where
  "made i \<longleftrightarrow> (\<exists>v. newIDInfo v = Inr (Inr i))"

lemma made_facts:
  assumes "made i"
  shows "newIDInfoFromNode (Some (id_node i)) = Inr (Inr i)" and "Variables (id_node i) = []" and "id_node i \<noteq> EmptyNode"
  using assms newIDInfo_read_back newIDInfo_info_ok unfolding made_def info_ok_def by blast+

lemma sendable_list:
  assumes "\<forall>n \<in> set ns. Variables n = [] \<and> n \<noteq> EmptyNode" and "int (length ns) \<le> MAX_BYTE_SIZE"
  shows "list_node ns = Inr (LNode ns [] ''list'')" and "Variables (LNode ns [] ''list'') = [] \<and> LNode ns [] ''list'' \<noteq> EmptyNode"
  using plain_list_node [OF _ assms(2)] assms(1) by blast+

text \<open>A report that can be sent: its identifier was made by the program, its values have an encoding.\<close>

definition report_sends :: "('w, 'z) gem_coll' \<Rightarrow> report_definition \<Rightarrow> bool" where
  "report_sends g d \<longleftrightarrow> made (rd_info d)
     \<and> (\<forall>n \<in> set (collectReportValues d g). Variables n = [] \<and> n \<noteq> EmptyNode)
     \<and> int (length (collectReportValues d g)) \<le> MAX_BYTE_SIZE"

definition report_item :: "('w, 'z) gem_coll' \<Rightarrow> report_definition \<Rightarrow> item" where
  "report_item g d = LNode [id_node (rd_info d), LNode (collectReportValues d g) [] ''list''] [] ''list''"

lemma report_node_sends:
  assumes "report_sends g d"
  shows "report_node g d = Inr (report_item g d)" and "Variables (report_item g d) = []"
    and "report_item g d \<noteq> EmptyNode" and "report_entry (report_item g d) = Inr (Inr (report_values g d))"
proof -
  let ?vs = "LNode (collectReportValues d g) [] ''list''"
  have i: "made (rd_info d)" using assms by (simp add: report_sends_def)
  have vs: "list_node (collectReportValues d g) = Inr ?vs" "Variables ?vs = [] \<and> ?vs \<noteq> EmptyNode"
    using sendable_list [of "collectReportValues d g"] assms unfolding report_sends_def by blast+
  have "\<forall>n \<in> set [id_node (rd_info d), ?vs]. Variables n = [] \<and> n \<noteq> EmptyNode"
    using made_facts(2,3) [OF i] vs(2) by simp
  from sendable_list [OF this] have p: "list_node [id_node (rd_info d), ?vs] = Inr (report_item g d)"
      "Variables (report_item g d) = []"
    by (simp_all only: report_item_def) (simp_all add: MAX_BYTE_SIZE_def)
  show "report_node g d = Inr (report_item g d)" using vs(1) p(1) by (simp add: report_node_def)
  show "Variables (report_item g d) = []" by (rule p(2))
  show "report_item g d \<noteq> EmptyNode" by (simp add: report_item_def)
  show "report_entry (report_item g d) = Inr (Inr (report_values g d))"
    using made_facts(1) [OF i] by (simp add: report_entry_def report_item_def as_list_def id_of_def report_values_def)
qed

lemma payload_of_linked:
  assumes "g_collectionEvents g k = Some ce" and "g_eventLinks g k = Some link" and "cl_enabled link"
    and "linked_reports k g \<noteq> []" and "\<And>d. d \<in> set (linked_reports k g) \<Longrightarrow> report_sends g d"
  shows "buildCollectionEventPayload k g
      = Inr (Inr (Some (map (report_item g) (linked_reports k g), 1, id_node (ce_info ce))))"
proof -
  have "go_map (report_node g) ds = Inr (map (report_item g) ds)" if "\<And>d. d \<in> set ds \<Longrightarrow> report_sends g d" for ds
    using that by (induction ds) (simp_all add: report_node_sends(1))
  then have "go_map (report_node g) (linked_reports k g) = Inr (map (report_item g) (linked_reports k g))"
    using assms(5) by blast
  moreover have l: "linked_reports k g = List.map_filter (g_reports g) (cl_reports link)"
    using assms(2) by (simp add: linked_reports_def link_reports_def)
  moreover have "cl_reports link \<noteq> []" using assms(4) l by (auto simp: List.map_filter_def)
  ultimately show ?thesis using assms(1-4) by (simp add: buildCollectionEventPayload_def)
qed

text \<open>Claim C17. An event report arrives as it was triggered. For an enabled event whose linked reports
  have values with an encoding, the S6F11 that the equipment builds can be sent, and a host reads from
  it the identifier of the event and, in the order of the links, each existing report with its
  identifier and the current values of its variables. The host acknowledges it with 0 and gives exactly
  that report to its callbacks.\<close>

theorem event_report_roundtrip:
  assumes "g_collectionEvents g k = Some ce" and "g_eventLinks g k = Some link" and "cl_enabled link"
    and "linked_reports k g \<noteq> []" and "\<And>d. d \<in> set (linked_reports k g) \<Longrightarrow> report_sends g d"
    and "made (ce_info ce)" and "int (length (linked_reports k g)) \<le> MAX_BYTE_SIZE"
    and "r = \<lparr>er_DATAID = 1, er_CEID = id_raw (ce_info ce), er_Reports = map (report_values g) (linked_reports k g)\<rparr>"
  shows "\<exists>nodes m. buildCollectionEventPayload k g = Inr (Inr (Some (nodes, 1, id_node (ce_info ce))))
    \<and> buildS6F11 1 (Some (id_node (ce_info ce))) nodes = Inr m \<and> Variables (dm_dataItem m) = []
    \<and> parseEventReportMessage (Some m) = Inr (Inr r)
    \<and> onS6F11 (Some m) h = (buildS6F12 0, h\<lparr>g_world := Fire (g_EventReportReceived h) r (g_world h)\<rparr>)"
proof -
  let ?nodes = "map (report_item g) (linked_reports k g)"
  let ?rs = "LNode ?nodes [] ''list''"
  let ?body = "LNode [id_uint 1 1, id_node (ce_info ce), ?rs] [] ''list''"
  note f = made_facts [OF assms(6)]
  have nodes: "\<forall>n \<in> set ?nodes. Variables n = [] \<and> n \<noteq> EmptyNode"
    using report_node_sends(2,3) [OF assms(5)] by simp
  have "int (length ?nodes) \<le> MAX_BYTE_SIZE" using assms(7) by simp
  note rs = sendable_list [OF nodes this]
  have three: "\<forall>n \<in> set [id_uint 1 1, id_node (ce_info ce), ?rs]. Variables n = [] \<and> n \<noteq> EmptyNode"
    using f(2,3) rs(2) by simp
  have "int (length [id_uint 1 1, id_node (ce_info ce), ?rs]) \<le> MAX_BYTE_SIZE" by (simp add: MAX_BYTE_SIZE_def)
  note l = sendable_list [OF three this]
  have body: "NewListNode [VItem (id_uint 1 1), VItem (id_node (ce_info ce)), VItem ?rs] = Inr ?body"
      "Variables ?body = []"
    using l by (simp_all only: list_node_def list.map simp_thms)
  have "uint_node1 1 = Inr (id_uint 1 1)"
    using NewUintNode_single [of 1 "VInt 1" 1] by (simp add: uint_node1_def byteSizeForUint_def uint_value_def uint_fits_def)
  then have b: "report_body 1 (Some (id_node (ce_info ce))) ?nodes = Inr ?body"
    using rs(1) body(1) by (simp add: report_body_def)
  have sp: "list_all (\<lambda>r. \<not> rune_is_space r) (runes ''EventReport'')" by code_simp
  obtain m where m: "buildS6F11 1 (Some (id_node (ce_info ce))) ?nodes = Inr m" "dm_dataItem m = ?body"
    using b NewDataMessage_ok [OF sp, of 6 11 0 "''H->E''" ?body] by (simp add: buildS6F11_def)
  have "res_map report_entry (map (report_item g) ds) = Inr (Inr (map (report_values g) ds))"
    if "\<And>d. d \<in> set ds \<Longrightarrow> report_sends g d" for ds
    using that by (induction ds) (simp_all add: report_node_sends(4))
  then have "res_map report_entry ?nodes = Inr (Inr (map (report_values g) (linked_reports k g)))"
    using assms(5) by blast
  then have p: "parseEventReportMessage (Some m) = Inr (Inr r)"
    using m(2) f(1) assms(8)
    by (simp add: parseEventReportMessage_def list_body_def as_list_def id_of_def read_dataID_def id_uint_def)
  then have "onS6F11 (Some m) h = (buildS6F12 0, h\<lparr>g_world := Fire (g_EventReportReceived h) r (g_world h)\<rparr>)"
    by (simp add: onS6F11_def)
  then show ?thesis using payload_of_linked [OF assms(1-5)] m body(2) p by simp
qed

text \<open>Event 6 linked to report 2 with status variable 1 of value 5.\<close>

theorem event_report_roundtrip_witness:
  "\<exists>nodes m. buildCollectionEventPayload (num_key 6) (sample_events\<lparr>g_eventLinks := [num_key 6 \<mapsto> newCollectionEventLink [num_key 2]]\<rparr>)
       = Inr (Inr (Some (nodes, 1, id_uint 4 6)))
    \<and> buildS6F11 1 (Some (id_uint 4 6)) nodes = Inr m
    \<and> parseEventReportMessage (Some m) = Inr (Inr \<lparr>er_DATAID = 1, er_CEID = VUint64 6,
        er_Reports = [\<lparr>rv_RPTID = VUint64 2, rv_Values = [id_uint 1 5]\<rparr>]\<rparr>)"
proof -
  let ?g = "sample_events\<lparr>g_eventLinks := [num_key 6 \<mapsto> newCollectionEventLink [num_key 2]]\<rparr>"
  let ?ce = "\<lparr>ce_info = sample_id 6, ce_Name = ''E''\<rparr>"
  have made: "made (sample_id v)" if "v \<le> 0xFFFFFFFF" for v
    using small_number_id [OF that] by (auto simp: made_def sample_id_def)
  have ce: "g_collectionEvents ?g (num_key 6) = Some ?ce" by (simp add: sample_events_def)
  have l: "linked_reports (num_key 6) ?g = [sample_report]"
    by (simp add: linked_reports_def link_reports_def newCollectionEventLink_def sample_events_def List.map_filter_simps)
  have v: "collectReportValues sample_report ?g = [id_uint 1 5]"
    by (simp add: collectReportValues_def sample_report_def resolveVIDValue_def sample_events_def or_empty_def
        safeStatusValue_def safe_value_def sv_Value_def sample_variable_def)
  have rd: "rd_info sample_report = sample_id 2" by (simp add: sample_report_def)
  have "report_sends ?g sample_report"
    using made [of 2] rd by (simp add: report_sends_def v MAX_BYTE_SIZE_def)
  then have "\<exists>nodes m. buildCollectionEventPayload (num_key 6) ?g = Inr (Inr (Some (nodes, 1, id_node (ce_info ?ce))))
    \<and> buildS6F11 1 (Some (id_node (ce_info ?ce))) nodes = Inr m \<and> Variables (dm_dataItem m) = []
    \<and> parseEventReportMessage (Some m) = Inr (Inr \<lparr>er_DATAID = 1, er_CEID = id_raw (ce_info ?ce),
        er_Reports = map (report_values ?g) (linked_reports (num_key 6) ?g)\<rparr>)
    \<and> onS6F11 (Some m) sample_events = (buildS6F12 0, sample_events\<lparr>g_world := Fire (g_EventReportReceived sample_events)
        \<lparr>er_DATAID = 1, er_CEID = id_raw (ce_info ?ce),
        er_Reports = map (report_values ?g) (linked_reports (num_key 6) ?g)\<rparr> (g_world sample_events)\<rparr>)"
    using made [of 6]
    by (intro event_report_roundtrip [OF ce, of "newCollectionEventLink [num_key 2]", OF _ _ _ _ _ _ refl])
      (simp_all add: l MAX_BYTE_SIZE_def, simp add: newCollectionEventLink_def)
  then show ?thesis
    by (auto simp: l v report_values_def sample_id_def) (simp add: sample_report_def sample_id_def)
qed

section \<open>Process programs\<close>

lemma NewASCIINode_text: "NewASCIINode s = Inr n \<Longrightarrow> n = ANode (text_node s)"
  by (auto simp: NewASCIINode_def text_node_def go_bind_Inr_iff Let_def split: if_splits)

lemma made_not_list:
  assumes "made i"
  shows "as_list (id_node i) = None"
proof -
  obtain v where "newIDInfo v = Inr (Inr i)" using assms unfolding made_def by blast
  then show ?thesis
    by (cases v) (auto simp: newIDInfo_def signed_id_def go_bind_Inr_iff as_list_def id_uint_def
      dest!: newIDInfoFromUint_cases NewASCIINode_text split: if_splits)
qed

text \<open>Claim C22. A process program that a host sends (S7F3) to an equipment without an upload handler is
  kept under its identifier, replaces the program of that identifier and no other, and is the answer
  to the next request for it (S7F5): the host reads the text it sent, and acknowledge code 0.\<close>

theorem program_roundtrip:
  assumes "made i" and "NewASCIINode body = Inr b" and "id_raw j \<noteq> id_raw i" and "raw_keyed j"
  shows "\<exists>m3 m5 m6. buildS7F3 i body = Inr m3 \<and> onS7F3 None (Some m3) s w
      = (buildS7F4 0, store_put \<lparr>pp_info = i, pp_Body = body\<rparr> s, w)
    \<and> store_get (store_put \<lparr>pp_info = i, pp_Body = body\<rparr> s) (id_key j) = store_get s (id_key j)
    \<and> buildS7F5 i = Inr m5
    \<and> onS7F5 None (Some m5) (store_put \<lparr>pp_info = i, pp_Body = body\<rparr> s) w = (Inr m6, w)
    \<and> parseProcessProgramResponse (Some m6) = Inr (body, 0)"
proof -
  let ?i = "id_node i" and ?s = "store_put \<lparr>pp_info = i, pp_Body = body\<rparr> s"
  let ?ack = "BNode \<lparr>bn_values = [0], bn_variables = [], bn_symbol = ''binary''\<rparr>"
  note f = made_facts [OF assms(1)]
  have b: "b = ANode (text_node body)" using assms(2) by (rule NewASCIINode_text)
  have V: "Variables b = []" "b \<noteq> EmptyNode" by (simp_all add: b text_node_def)
  have sp: "list_all (\<lambda>r. \<not> rune_is_space r) (runes ''ProcessProgramSend'')"
      "list_all (\<lambda>r. \<not> rune_is_space r) (runes ''ProcessProgramRequest'')"
      "list_all (\<lambda>r. \<not> rune_is_space r) (runes ''ProcessProgramData'')" by code_simp+
  obtain v where v: "newIDInfo v = Inr (Inr i)" using assms(1) unfolding made_def by blast
  have again: "newIDInfo (id_raw i) = Inr (Inr i)"
    using v by (cases v) (auto simp: newIDInfo_def signed_id_def go_bind_Inr_iff dest!: newIDInfoFromUint_cases
        split: if_splits intro!: newIDInfoFromUint_ok)
  obtain m3 where m3: "buildS7F3 i body = Inr m3" "dm_dataItem m3 = LNode [?i, b] [] ''list''"
    using assms(2) pair_node_ok(1) [OF f(2,3) V] NewDataMessage_ok [OF sp(1), of 7 3 1 "''H->E''"] by (simp add: buildS7F3_def)
  obtain m5 where m5: "buildS7F5 i = Inr m5" "dm_dataItem m5 = ?i"
    using NewDataMessage_ok [OF sp(2), of 7 5 1 "''H->E''"] by (simp add: buildS7F5_def)
  have up: "onS7F3 None (Some m3) s w = (buildS7F4 0, ?s, w)"
    using m3(2) f(1) again Get_index [of "[?i, b]" "[]" 0] Get_index [of "[?i, b]" "[]" 1]
    by (simp add: onS7F3_def msg_Get_def newProcessProgram_def read_text_def b text_node_def Let_def)
  have three: "\<forall>n \<in> set [?i, b, ?ack]. Variables n = [] \<and> n \<noteq> EmptyNode"
    using f(2,3) V by (simp add: getVariableNames_def)
  have "int (length [?i, b, ?ack]) \<le> MAX_BYTE_SIZE" by (simp add: MAX_BYTE_SIZE_def)
  note l = sendable_list(1) [OF three this]
  have "NewBinaryNode [VString (''0b'' @ bin_nat (clamp_ack 0))] = Inr ?ack"
    using ack_0b_node [of 0] by (simp add: clamp_ack_def)
  then obtain m6 where m6: "buildS7F6 (Some ?i) body 0 = Inr m6" "dm_dataItem m6 = LNode [?i, b, ?ack] [] ''list''"
    using assms(2) l NewDataMessage_ok [OF sp(3), of 7 6 0 "''H<-E''"] by (simp add: buildS7F6_def or_empty_def)
  have get: "store_get ?s (id_key i) = Some \<lparr>pp_info = i, pp_Body = body\<rparr>"
    by (simp add: store_get_def store_put_def update_conv')
  have down: "onS7F5 None (Some m5) ?s w = (Inr m6, w)"
    using m5(2) m6(1) f(1) made_not_list [OF assms(1)] get by (simp add: onS7F5_def request_ppid_def)
  have read: "parseProcessProgramResponse (Some m6) = Inr (body, 0)"
    using m6(2) by (simp add: parseProcessProgramResponse_def list_body_def as_list_def b text_node_def)
  have "id_key j \<noteq> id_key i"
    using raw_keyed_eq [OF assms(4) newIDInfo_raw_keyed [OF v]] assms(3) by blast
  then have "store_get ?s (id_key j) = store_get s (id_key j)"
    by (simp add: store_get_def store_put_def update_conv')
  then show ?thesis using m3(1) m5(1) up down read by blast
qed

theorem program_roundtrip_witness:
  "\<exists>m3 m5 m6. buildS7F3 (sample_id 7) ''AB'' = Inr m3
    \<and> onS7F5 None (Some m5) (fst (snd (onS7F3 None (Some m3) [] ()))) () = (Inr m6, ())
    \<and> parseProcessProgramResponse (Some m6) = Inr (''AB'', 0)"
proof -
  have m: "made (sample_id 7)" using small_number_id [of 7] by (auto simp: made_def sample_id_def)
  have b: "NewASCIINode ''AB'' = Inr (ANode (text_node ''AB''))"
    by code_simp
  have "\<exists>m3 m5 m6. buildS7F3 (sample_id 7) ''AB'' = Inr m3 \<and> onS7F3 None (Some m3) [] ()
      = (buildS7F4 0, store_put \<lparr>pp_info = sample_id 7, pp_Body = ''AB''\<rparr> [], ())
    \<and> store_get (store_put \<lparr>pp_info = sample_id 7, pp_Body = ''AB''\<rparr> []) (id_key (sample_id 8)) = store_get [] (id_key (sample_id 8))
    \<and> buildS7F5 (sample_id 7) = Inr m5
    \<and> onS7F5 None (Some m5) (store_put \<lparr>pp_info = sample_id 7, pp_Body = ''AB''\<rparr> []) () = (Inr m6, ())
    \<and> parseProcessProgramResponse (Some m6) = Inr (''AB'', 0)"
    by (rule program_roundtrip [OF m b]) (simp_all add: sample_id_def raw_keyed_def keyForRawID_def)
  then obtain m3 m5 m6 where "buildS7F3 (sample_id 7) ''AB'' = Inr m3"
    "onS7F3 None (Some m3) [] () = (buildS7F4 0, store_put \<lparr>pp_info = sample_id 7, pp_Body = ''AB''\<rparr> [], ())"
    "onS7F5 None (Some m5) (store_put \<lparr>pp_info = sample_id 7, pp_Body = ''AB''\<rparr> []) () = (Inr m6, ())"
    "parseProcessProgramResponse (Some m6) = Inr (''AB'', 0)" by blast
  then show ?thesis by (intro exI [of _ m3] exI [of _ m5] exI [of _ m6]) simp
qed

end
