(* ===== verification/Gem_Properties.thy ===== *)
theory Gem_Properties
  imports Gem_Refinement Gem_Reports
begin

text \<open>
  Properties of the GEM handler on its protocol: what holds in every reachable state, the control
  state model it refines, how an equipment comes on-line, and where the handler departs from the
  standard.
\<close>

section \<open>Reachable states\<close>

text \<open>Claim C12. In every state a GEM handler can reach, by any sequence of protocol steps, received messages,
  timer expiries, goroutine steps, monitor ticks and calls of the application, the control state
  machine is in one of the five leaf states with a mode that agrees with it, the communication state
  is not DISABLED, the CRA timer runs only in WAIT-CRA and the delay timer only in WAIT-DELAY.\<close>

theorem gem_invariant:
  assumes "gem_reach fsm p"
  shows "ct_state (gem_control p) \<in> {ControlStateEquipmentOffline, ControlStateAttemptOnline, ControlStateHostOffline,
        ControlStateOnlineLocal, ControlStateOnlineRemote}
    \<and> ct_onlineMode (gem_control p) \<in> {OnlineModeLocal, OnlineModeRemote}
    \<and> (ct_state (gem_control p) = ControlStateOnlineLocal \<longrightarrow> ct_onlineMode (gem_control p) = OnlineModeLocal)
    \<and> (ct_state (gem_control p) = ControlStateOnlineRemote \<longrightarrow> ct_onlineMode (gem_control p) = OnlineModeRemote)
    \<and> g_state (hp_app p) \<noteq> CommunicationStateDisabled
    \<and> (g_waitCRATimer (hp_app p) \<noteq> None \<longrightarrow> g_state (hp_app p) = CommunicationStateWaitCRA)
    \<and> (g_waitDelayTimer (hp_app p) \<noteq> None \<longrightarrow> g_state (hp_app p) = CommunicationStateWaitDelay)"
proof -
  have inv: "gem_inv p" using gem_reach_inv [OF assms] .
  have "comm_ok (hp_app p)" using inv by (simp add: gem_inv_def gem_ok_def)
  moreover obtain s i m where "gem_control p = \<lparr>ct_state = s, ct_initial = i, ct_onlineMode = m\<rparr>"
    by (cases "gem_control p") auto
  ultimately show ?thesis
    using gem_inv_settled [OF inv] by (auto simp: comm_ok_def elim: settled_cases)
qed

definition sample_host :: "unit gem" where
  "sample_host = NewGemHandler (sample_options DeviceHost) () sample_time (NewHsmsProtocol True 1 0 sample_gem)"

definition sample_equipment :: "unit gem" where
  "sample_equipment = NewGemHandler (sample_options DeviceEquipment) () sample_time (NewHsmsProtocol False 1 0 sample_gem)"

lemma sample_reach: "gem_reach fsm sample_host" "gem_reach fsm sample_equipment"
  unfolding sample_host_def sample_equipment_def by (rule gem_reach.new)+

theorem gem_invariant_witness: "g_state (hp_app sample_host) \<noteq> CommunicationStateDisabled"
  using gem_invariant [OF sample_reach(1)] by blast

text \<open>Claim C16. In every reachable state the registries of the handler are well formed: the order of each
  lists its keys once, every status variable, data variable, constant and event is stored under the
  key of its own identifier, every report under its own key with existing variables only, and every
  link belongs to a registered event and names at least one report.\<close>

theorem registries_well_formed:
  assumes "gem_reach fsm p" and "g = hp_app p"
  shows "(distinct (g_statusOrder g) \<and> dom (g_statusVars g) = set (g_statusOrder g)
        \<and> (\<forall>k v. g_statusVars g k = Some v \<longrightarrow> id_key (sv_info v) = k))
    \<and> (distinct (g_dataVarOrder g) \<and> dom (g_dataVars g) = set (g_dataVarOrder g)
        \<and> (\<forall>k v. g_dataVars g k = Some v \<longrightarrow> id_key (dv_info v) = k))
    \<and> (distinct (g_ecOrder g) \<and> dom (g_equipmentConstants g) = set (g_ecOrder g)
        \<and> (\<forall>k v. g_equipmentConstants g k = Some v \<longrightarrow> id_key (ec_info v) = k))
    \<and> (distinct (g_collectionOrder g) \<and> dom (g_collectionEvents g) = set (g_collectionOrder g)
        \<and> (\<forall>k v. g_collectionEvents g k = Some v \<longrightarrow> id_key (ce_info v) = k))
    \<and> (\<forall>k d. g_reports g k = Some d \<longrightarrow> id_key (rd_info d) = k \<and> (\<forall>v \<in> set (rd_vidKeys d). vidExists v g))
    \<and> (\<forall>k l. g_eventLinks g k = Some l \<longrightarrow> cl_reports l \<noteq> [] \<and> g_collectionEvents g k \<noteq> None)"
proof -
  have "regs_ok g" using gem_reach_inv [OF assms(1)] assms(2) by (simp add: gem_inv_def gem_ok_def)
  then show ?thesis
    unfolding regs_ok_def svs.in_order_def ecs.in_order_def dvs.in_order_def ces.in_order_def reports_ok_def by blast
qed

theorem registries_well_formed_witness:
  "distinct (g_statusOrder (snd (RegisterStatusVariable (Some sample_variable) (hp_app sample_equipment))))"
proof -
  let ?g = "snd (RegisterStatusVariable (Some sample_variable) (hp_app sample_equipment))"
  have "gem_step table_fire sample_equipment (sample_equipment\<lparr>hp_app := ?g\<rparr>)"
    by (rule gem_step.user) (rule user_call.status)
  then have "gem_reach table_fire (sample_equipment\<lparr>hp_app := ?g\<rparr>)"
    using sample_reach(2) gem_reach.step by blast
  from registries_well_formed [OF this refl] show ?thesis by simp
qed

section \<open>The control state model\<close>

text \<open>Claim C7. The handler refines the control state model of SEMI E30: in every reachable state and for
  every step, whichever component makes it, the leaf state of the control state machine stays or makes
  exactly one transition of the model's table.\<close>

theorem control_refines_e30:
  assumes "gem_reach fsm p" and "gem_step fsm p p'"
  shows "\<exists>s s'. leaf (ct_state (gem_control p)) = Some s \<and> leaf (ct_state (gem_control p')) = Some s'
    \<and> (s' = s \<or> (\<exists>n. e30 s n s'))"
proof -
  have inv: "gem_inv p" and inv': "gem_inv p'"
    using gem_reach_inv assms gem_reach.step by blast+
  obtain s s' where s: "leaf (ct_state (gem_control p)) = Some s" "leaf (ct_state (gem_control p')) = Some s'"
    using gem_inv_settled [OF inv] gem_inv_settled [OF inv'] by (auto simp: settled_def)
  then show ?thesis using gem_step_moves [OF assms(2) inv] by (auto simp: moves_def)
qed

text \<open>The state of the machine after construction.\<close>

lemma app_register_all [simp]: "hp_app (Gem_Handler.register_all hs p) = hp_app p"
  using register_all_shape [of hs p] by auto

lemma control_onControl [simp]: "g_control (onControlStateTransition s t g) = g_control g"
  by (simp add: onControlStateTransition_def fire_def Let_def)

lemma applyDefaults_initial [simp]:
  "op_InitialControlState (applyDefaults opts) = (if isValidInitialControlState (op_InitialControlState opts)
     then op_InitialControlState opts else ControlStateAttemptOnline)"
  by (simp add: applyDefaults_def Let_def)

lemma new_machine:
  "ct_state (snd (lost_transition (NewControlStateMachine s m))) =
     (if s = ControlStateHostOffline then ControlStateHostOffline else ControlStateEquipmentOffline)"
  by (simp add: NewControlStateMachine_def Control_Start_def applyInitialLocked_def lost_transition_def
      isValidInitialControlState_def isValidOnlineMode_def control_defs)

lemma new_gem_control:
  "ct_state (gem_control (NewGemHandler opts w now p)) =
     (if op_InitialControlState opts = ControlStateHostOffline then ControlStateHostOffline else ControlStateEquipmentOffline)"
proof -
  have "gem_control (NewGemHandler opts w now p) = snd (lost_transition (NewControlStateMachine
      (op_InitialControlState (applyDefaults opts)) (op_InitialOnlineMode (applyDefaults opts))))"
    by (simp add: NewGemHandler_def Let_def setCommunicationState_def onCommunicationStateChanged_def new_handler_def setState_def
        stopTimers_def)
  then show ?thesis by (simp add: new_machine isValidInitialControlState_def)
qed

lemma sample_control: "ct_state (g_control (hp_app sample_equipment)) = ControlStateEquipmentOffline"
  using new_gem_control [of "sample_options DeviceEquipment" "()" sample_time "NewHsmsProtocol False 1 0 sample_gem"]
  by (simp add: sample_equipment_def gem_control_def sample_options_def)

theorem control_refines_e30_witness:
  "\<exists>s'. leaf (ct_state (g_control (snd (SwitchControlOnline (hp_app sample_equipment))))) = Some s'
     \<and> (s' = EquipmentOffline \<or> (\<exists>n. e30 EquipmentOffline n s'))"
proof -
  have "gem_step table_fire sample_equipment (sample_equipment\<lparr>hp_app := snd (SwitchControlOnline (hp_app sample_equipment))\<rparr>)"
    by (rule gem_step.user) (rule user_call.online)
  from control_refines_e30 [OF sample_reach(2) this] show ?thesis
    using sample_control by (simp add: gem_control_def)
qed

section \<open>The first control state\<close>

lemma new_handler_communication:
  fixes o1 w now
  defines "h \<equiv> setCommunicationState CommunicationStateNotCommunicating (new_handler o1 w now)"
  shows "g_attempts h = 0 \<and> g_deviceType h = op_DeviceType o1 \<and> \<not> g_controlAttemptInProgress h
    \<and> g_state h = CommunicationStateNotCommunicating"
proof -
  obtain r sm where t: "lost_transition (g_control (new_handler o1 w now)) = (r, sm)" by force
  have "ct_state sm \<noteq> ControlStateAttemptOnline"
    using t new_machine [of "op_InitialControlState o1" "op_InitialOnlineMode o1"]
    by (auto simp: new_handler_def split: if_splits)
  then show ?thesis
    using t
    by (auto simp: h_def setCommunicationState_def onCommunicationStateChanged_def setState_def stopTimers_def
        new_handler_def transitionControl_def onControlStateTransition_def fire_def Let_def split: sum.split)
qed

text \<open>An equipment whose communication is established.\<close>

lemma first_communicating:
  assumes "g_state g \<noteq> CommunicationStateCommunicating" and "\<not> g_controlAttemptInProgress g"
    and "ct_state (g_control g) \<in> {ControlStateHostOffline, ControlStateEquipmentOffline}"
  shows "ct_state (g_control (setCommunicating g)) =
      (if g_deviceType g = DeviceEquipment \<and> ct_state (g_control g) = ControlStateEquipmentOffline
       then ControlStateAttemptOnline else ct_state (g_control g))"
    and "g_attempts (setCommunicating g) = g_attempts g +
      (if g_deviceType g = DeviceEquipment \<and> ct_state (g_control g) = ControlStateEquipmentOffline then 1 else 0)"
    and "g_state (setCommunicating g) = CommunicationStateCommunicating"
    and "g_deviceType (setCommunicating g) = g_deviceType g"
    and "\<not> g_handshakeInProgress (setCommunicating g)"
    and "ct_onlineMode (g_control (setCommunicating g)) = ct_onlineMode (g_control g)"
  using assms
  by (auto simp: setCommunicating_def setState_def stopTimers_def notifyCommunicating_def fire_def
      onCommunicationStateChanged_def transitionControl_def SwitchOnline_def invalidTransition_def
      onControlStateTransition_def initiateAttemptOnline_def Let_def)

text \<open>The initial control state that is configured has no effect, except HOST-OFFLINE: a new
  handler is in EQUIPMENT-OFFLINE (its constructor announces that communication is down, which takes
  an ON-LINE machine and an attempt off-line), and no attempt has been started. Whatever was asked for,
  an equipment whose communication is established for the first time then starts an attempt to go
  on-line, even when it was configured to stay off-line; from HOST-OFFLINE it starts none.\<close>

theorem initial_control_state:
  "ct_state (gem_control (NewGemHandler opts w now p)) =
     (if op_InitialControlState opts = ControlStateHostOffline then ControlStateHostOffline else ControlStateEquipmentOffline)
   \<and> g_attempts (hp_app (NewGemHandler opts w now p)) = 0
   \<and> ct_state (g_control (setCommunicating (hp_app (NewGemHandler opts w now p)))) =
     (if op_InitialControlState opts = ControlStateHostOffline then ControlStateHostOffline
      else if op_DeviceType opts = DeviceEquipment then ControlStateAttemptOnline else ControlStateEquipmentOffline)
   \<and> g_attempts (setCommunicating (hp_app (NewGemHandler opts w now p))) =
     (if op_InitialControlState opts \<noteq> ControlStateHostOffline \<and> op_DeviceType opts = DeviceEquipment then 1 else 0)"
  (is "?a \<and> ?b \<and> ?c \<and> ?d")
proof -
  let ?new = "setCommunicationState CommunicationStateNotCommunicating (new_handler (applyDefaults opts) w now)"
  let ?g = "hp_app (NewGemHandler opts w now p)"
  have st: ?a by (rule new_gem_control)
  then have ct: "ct_state (g_control ?g) = (if op_InitialControlState opts = ControlStateHostOffline
      then ControlStateHostOffline else ControlStateEquipmentOffline)" by (simp add: gem_control_def)
  have g: "?g = onControlStateTransition ControlStateInit (ct_state (g_control ?new)) ?new"
    by (simp add: NewGemHandler_def Let_def)
  have new: "g_attempts ?new = 0" "g_deviceType ?new = op_DeviceType opts" "\<not> g_controlAttemptInProgress ?new"
    "g_state ?new = CommunicationStateNotCommunicating"
    using new_handler_communication [of "applyDefaults opts" w now] by simp_all
  have n: "ct_state (g_control ?new) \<noteq> ControlStateAttemptOnline" using ct g by (auto split: if_splits)
  have f: "g_attempts ?g = 0" "g_deviceType ?g = op_DeviceType opts" "\<not> g_controlAttemptInProgress ?g"
    "g_state ?g = CommunicationStateNotCommunicating"
    unfolding g using new n by (simp_all add: onControlStateTransition_def Let_def fire_def)
  have up: "ct_state (g_control (setCommunicating ?g)) = (if op_InitialControlState opts = ControlStateHostOffline
      then ControlStateHostOffline else if op_DeviceType opts = DeviceEquipment then ControlStateAttemptOnline
      else ControlStateEquipmentOffline)
    \<and> g_attempts (setCommunicating ?g) =
      (if op_InitialControlState opts \<noteq> ControlStateHostOffline \<and> op_DeviceType opts = DeviceEquipment then 1 else 0)"
    using first_communicating [of ?g] f ct by simp
  show ?thesis using st f(1) up by blast
qed

section \<open>Coming on-line\<close>

text \<open>A request with an empty list, as the handler builds S1F1 and S1F13.\<close>

definition empty_request :: "string \<Rightarrow> int \<Rightarrow> string \<Rightarrow> data_message" where
  "empty_request name f dir = \<lparr>dm_name = name, dm_stream = 1, dm_function = f, dm_waitBit = 1, dm_direction = dir,
     dm_dataItem = LNode [] [] ''list'', dm_sessionID = - 1, dm_systemBytes = [0, 0, 0, 0]\<rparr>"

lemma empty_list_message:
  assumes "list_all (\<lambda>r. \<not> rune_is_space r) (runes name)" and "0 \<le> f" "f < 256" "odd f"
    and "dir \<in> {''H->E'', ''H<-E'', ''H<->E''}"
  shows "list_message name 1 f 1 dir [] = Inr (empty_request name f dir)" and "can_go True (empty_request name f dir)"
proof -
  have "list_node [] = Inr (LNode [] [] ''list'')"
    using list_node_gaps(1) [of "[]"] by (simp add: MAX_BYTE_SIZE_def)
  moreover have d: "NewDataMessage name 1 f 1 dir (LNode [] [] ''list'') = Inr (empty_request name f dir)"
    using NewDataMessage_ok [OF assms(1), of 1 f 1 dir] assms(2-5) by (simp add: empty_request_def)
  ultimately show "list_message name 1 f 1 dir [] = Inr (empty_request name f dir)"
    by (simp add: list_message_def)
  have "checkRep (empty_request name f dir) = Inr ()" by (rule message_constructors_rep(1) [OF d])
  then show "can_go True (empty_request name f dir)" by (simp add: can_go_def empty_request_def)
qed

lemma request_builders:
  "buildS1F13 = Inr (empty_request ''EstablishCommRequest'' 13 ''H->E'')"
  "buildS1F13Equipment = Inr (empty_request ''EstablishCommRequest'' 13 ''H<-E'')"
  "buildS1F1 d = Inr (empty_request ''AreYouThere'' 1 (if d = DeviceEquipment then ''H<-E'' else ''H->E''))"
  "can_go True (empty_request ''EstablishCommRequest'' 13 ''H->E'')"
  "can_go True (empty_request ''EstablishCommRequest'' 13 ''H<-E'')"
  "can_go True (empty_request ''AreYouThere'' 1 (if d = DeviceEquipment then ''H<-E'' else ''H->E''))"
proof -
  have sp: "list_all (\<lambda>r. \<not> rune_is_space r) (runes ''EstablishCommRequest'')"
    "list_all (\<lambda>r. \<not> rune_is_space r) (runes ''AreYouThere'')" by code_simp+
  show "buildS1F13 = Inr (empty_request ''EstablishCommRequest'' 13 ''H->E'')"
    "buildS1F13Equipment = Inr (empty_request ''EstablishCommRequest'' 13 ''H<-E'')"
    "buildS1F1 d = Inr (empty_request ''AreYouThere'' 1 (if d = DeviceEquipment then ''H<-E'' else ''H->E''))"
    unfolding buildS1F13_def buildS1F13Equipment_def buildS1F1_def
    by (rule empty_list_message(1); simp add: sp)+
  show "can_go True (empty_request ''EstablishCommRequest'' 13 ''H->E'')"
    "can_go True (empty_request ''EstablishCommRequest'' 13 ''H<-E'')"
    "can_go True (empty_request ''AreYouThere'' 1 (if d = DeviceEquipment then ''H<-E'' else ''H->E''))"
    by (rule empty_list_message(2); simp add: sp)+
qed

text \<open>One exchange of a goroutine: the request is written, the reply arrives, and the call returns it.
  \<open>asked\<close> and \<open>answered\<close> are the states of the protocol at the wait and after it.\<close>

definition asked :: "nat \<Rightarrow> data_message \<Rightarrow> 'w gem \<Rightarrow> 'w gem" where
  "asked i m p = (let k = hp_systemCounter p + 1 in
     wrote i (wire_bytes (DataMsg (outgoing (hp_sessionID p) (encodeSystemID k) True m)))
       (createQueue k (p\<lparr>hp_systemCounter := k\<rparr>)))"

definition answered :: "32 word \<Rightarrow> data_message \<Rightarrow> 'w gem \<Rightarrow> 'w gem" where
  "answered k r p = removeQueue k (set_queue k (Put (DataMsg r) []) p)"

text \<open>\<open>on_line p i\<close>: the protocol is selected on the connection \<open>i\<close> and can send.\<close>

definition on_line :: "'w gem \<Rightarrow> nat \<Rightarrow> bool" where
  "on_line p i \<longleftrightarrow> link_up p i \<and> hp_connected p \<and> hp_state p = StateConnectedSelected
     \<and> 0 \<le> hp_sessionID p \<and> hp_sessionID p < 65536"

lemma on_line_simps [simp]:
  "on_line (on_gem f p) i \<longleftrightarrow> on_line p i" "on_line (asked i m p) i \<longleftrightarrow> on_line p i"
  "on_line (answered k r p) i \<longleftrightarrow> on_line p i"
  "hp_app (asked i m p) = hp_app p" "hp_app (answered k r p) = hp_app p"
  "hp_enabled (asked i m p) = hp_enabled p" "hp_enabled (answered k r p) = hp_enabled p"
  "hp_enabled (on_gem f p) = hp_enabled p"
  "hp_systemCounter (asked i m p) = hp_systemCounter p + 1" "hp_systemCounter (answered k r p) = hp_systemCounter p"
  "hp_systemCounter (on_gem f p) = hp_systemCounter p"
  "hp_sessionID (asked i m p) = hp_sessionID p" "hp_sessionID (answered k r p) = hp_sessionID p"
  "hp_sessionID (on_gem f p) = hp_sessionID p"
  "written (answered k r p) i = written p i" "written (on_gem f p) i = written p i"
  "written (asked i m p) i = written p i @ [wire_bytes (DataMsg
      (outgoing (hp_sessionID p) (encodeSystemID (hp_systemCounter p + 1)) True m))]"
proof -
  have l: "link_up (on_gem f p) i = link_up p i" "link_up (removeQueue k p) i = link_up p i"
    "link_up (set_queue k q p) i = link_up p i" "link_up (p\<lparr>hp_systemCounter := k\<rparr>) i = link_up p i"
    for p :: "'a gem" and f k q
    by (simp_all add: link_up_def on_gem_def removeQueue_def set_queue_def)
  note d = on_line_def asked_def answered_def Let_def l
  show "on_line (on_gem f p) i \<longleftrightarrow> on_line p i" "on_line (asked i m p) i \<longleftrightarrow> on_line p i"
    "on_line (answered k r p) i \<longleftrightarrow> on_line p i"
    by (simp add: d on_gem_def, simp add: d, simp add: d removeQueue_def set_queue_def)
qed (simp_all add: on_gem_def asked_def answered_def Let_def createQueue_def removeQueue_def set_queue_def)

lemma exchange:
  assumes "on_line p i" and "can_go True m" and "k = hp_systemCounter p + 1"
  shows "\<exists>out. SendAndWait_begin (Some m) p = Inr (Inr (k, out), asked i m p)
    \<and> (dm_systemBytes r = encodeSystemID k \<longrightarrow> (\<exists>p'. receive_step fsm (Inr (DataMsg r)) (asked i m p) = Inr (hp_enabled p, p')
        \<and> hp_app p' = hp_app p \<and> (\<forall>out. SendAndWait_end k out p' = Inr (Inr r, answered k r (asked i m p)))))"
proof -
  let ?out = "outgoing (hp_sessionID p) (encodeSystemID k) True m"
  have b: "SendAndWait_begin (Some m) p = Inr (Inr (k, ?out), asked i m p)"
    using SendAndWait_begin_up [of p i m k ?out] assms by (simp add: on_line_def asked_def Let_def)
  have q: "fetchQueue (asked i m p) k = Some []" "hp_state (asked i m p) = StateConnectedSelected"
    using assms(1,3) by (simp_all add: asked_def Let_def on_line_def createQueue_def fetchQueue_def)
  let ?p' = "set_queue k (Put (DataMsg r) []) (asked i m p)"
  have "receive_step fsm (Inr (DataMsg r)) (asked i m p) = Inr (hp_enabled p, ?p')" if "dm_systemBytes r = encodeSystemID k"
    using receive_reply [OF q(2) that q(1)] by simp
  moreover have "SendAndWait_end k out ?p' = Inr (Inr r, answered k r (asked i m p))" for out
    unfolding answered_def by (rule SendAndWait_end_reply) (simp add: set_queue_def fetchQueue_def Put_def)
  moreover have "hp_app ?p' = hp_app p" by (simp add: set_queue_def)
  ultimately show ?thesis using b by blast
qed

lemma attempt_done_frame [simp]:
  "g_state (attempt_done f g) = g_state g" "g_handshakeInProgress (attempt_done f g) = g_handshakeInProgress g"
  "\<not> g_controlAttemptInProgress (attempt_done f g)"
  by (auto simp: attempt_done_def transitionControl_def onControlStateTransition_def initiateAttemptOnline_def fire_def
      Let_def split: prod.split sum.split)

lemma success_control:
  "ct_state sm = ControlStateAttemptOnline \<Longrightarrow> isValidOnlineMode (ct_onlineMode sm) \<Longrightarrow>
    ct_state (snd (AttemptOnlineSuccess sm)) =
      (if ct_onlineMode sm = OnlineModeLocal then ControlStateOnlineLocal else ControlStateOnlineRemote)"
  by (simp add: control_defs)

lemma establish_exchange:
  assumes "on_line p i" and "g_state (hp_app p) \<noteq> CommunicationStateCommunicating" and "k = hp_systemCounter p + 1"
    and "dm_systemBytes r = encodeSystemID k" and "readCommAck (Some r) = 0"
    and "m = empty_request ''EstablishCommRequest'' 13 ''H<-E''"
  shows "\<exists>out p'. establish_begin p = Inr (Some (k, out), asked i m p)
    \<and> receive_step fsm (Inr (DataMsg r)) (asked i m p) = Inr (hp_enabled p, p')
    \<and> establish_end k out p' = Inr (on_gem (handshake_done \<circ> setCommunicating) (answered k r (asked i m p)))"
proof -
  obtain out p' where 1: "SendAndWait_begin (Some m) p = Inr (Inr (k, out), asked i m p)"
    "receive_step fsm (Inr (DataMsg r)) (asked i m p) = Inr (hp_enabled p, p')"
    "SendAndWait_end k out p' = Inr (Inr r, answered k r (asked i m p))"
    using exchange [OF assms(1) request_builders(5), of k r fsm] assms(3,4,6) by auto
  have "establish_begin p = Inr (Some (k, out), asked i m p)"
    using 1(1) assms(2,6) by (simp add: establish_begin_def request_builders(2))
  moreover have "establish_end k out p' = Inr (on_gem (handshake_done \<circ> setCommunicating) (answered k r (asked i m p)))"
    unfolding ends_eq 1(3) using assms(5) by (simp add: comm_outcome_def)
  ultimately show ?thesis using 1(2) by blast
qed

lemma attempt_exchange:
  assumes "on_line p i" and "g_state (hp_app p) = CommunicationStateCommunicating"
    and "g_deviceType (hp_app p) = DeviceEquipment" and "ct_state (gem_control p) = ControlStateAttemptOnline"
    and "k = hp_systemCounter p + 1" and "dm_systemBytes r = encodeSystemID k" and "dm_stream r = 1" "dm_function r = 2"
    and "m = empty_request ''AreYouThere'' 1 ''H<-E''"
  shows "\<exists>out p'. attempt_begin p = Inr (Some (k, out), asked i m p)
    \<and> receive_step fsm (Inr (DataMsg r)) (asked i m p) = Inr (hp_enabled p, p')
    \<and> attempt_end k out p' = Inr (on_gem (attempt_done AttemptOnlineSuccess) (answered k r (asked i m p)))"
proof -
  obtain out p' where 1: "SendAndWait_begin (Some m) p = Inr (Inr (k, out), asked i m p)"
    "receive_step fsm (Inr (DataMsg r)) (asked i m p) = Inr (hp_enabled p, p')"
    "SendAndWait_end k out p' = Inr (Inr r, answered k r (asked i m p))"
    using exchange [OF assms(1) request_builders(6) [of DeviceEquipment], of k r fsm] assms(5,6,9) by auto
  have "attempt_begin p = Inr (Some (k, out), asked i m p)"
    using 1(1) assms(2-4,9) by (simp add: attempt_begin_def gem_control_def request_builders(3))
  moreover have "attempt_end k out p' = Inr (on_gem (attempt_done AttemptOnlineSuccess) (answered k r (asked i m p)))"
    unfolding ends_eq 1(3) using assms(7,8) by (simp add: attempt_outcome_def)
  ultimately show ?thesis using 1(2) by blast
qed

text \<open>Claim C11. An equipment comes on-line. When its link is selected and it is enabled, off-line and not in
  communication, the next monitor tick starts the exchange of S1F13; the host's S1F14 with COMMACK 0
  makes it COMMUNICATING and starts an attempt to go on-line, which sends S1F1; the host's S1F2 takes
  it to ON-LINE LOCAL or REMOTE, by its mode. Exactly those two requests are written, and no exchange or
  attempt is left in progress.\<close>

theorem equipment_goes_online:
  assumes up: "on_line p i" and g: "g = hp_app p" "g_enabled g" "g_deviceType g = DeviceEquipment"
    "g_state g = CommunicationStateNotCommunicating" "\<not> g_handshakeInProgress g" "\<not> g_controlAttemptInProgress g"
    "ct_state (g_control g) = ControlStateEquipmentOffline" "settled (g_control g)"
    and k: "k1 = hp_systemCounter p + 1" "k2 = hp_systemCounter p + 2"
    and r1: "dm_systemBytes r1 = encodeSystemID k1" "readCommAck (Some r1) = 0"
    and r2: "dm_systemBytes r2 = encodeSystemID k2" "dm_stream r2 = 1" "dm_function r2 = 2"
  shows "\<exists>out1 out2 p1 p2 p3 p4 p5 p6.
      establish_begin (observe p) = Inr (Some (k1, out1), p1)
    \<and> receive_step fsm (Inr (DataMsg r1)) p1 = Inr (hp_enabled p, p2)
    \<and> establish_end k1 out1 p2 = Inr p3
    \<and> g_state (hp_app p3) = CommunicationStateCommunicating \<and> ct_state (gem_control p3) = ControlStateAttemptOnline
    \<and> g_attempts (hp_app p3) = g_attempts g + 1
    \<and> attempt_begin p3 = Inr (Some (k2, out2), p4)
    \<and> receive_step fsm (Inr (DataMsg r2)) p4 = Inr (hp_enabled p, p5)
    \<and> attempt_end k2 out2 p5 = Inr p6
    \<and> ct_state (gem_control p6) =
        (if ct_onlineMode (g_control g) = OnlineModeLocal then ControlStateOnlineLocal else ControlStateOnlineRemote)
    \<and> g_state (hp_app p6) = CommunicationStateCommunicating
    \<and> \<not> g_handshakeInProgress (hp_app p6) \<and> \<not> g_controlAttemptInProgress (hp_app p6)
    \<and> written p6 i = written p i
        @ [wire_bytes (DataMsg (outgoing (hp_sessionID p) (encodeSystemID k1) True
             (empty_request ''EstablishCommRequest'' 13 ''H<-E''))),
           wire_bytes (DataMsg (outgoing (hp_sessionID p) (encodeSystemID k2) True
             (empty_request ''AreYouThere'' 1 ''H<-E'')))]"
proof -
  let ?m1 = "empty_request ''EstablishCommRequest'' 13 ''H<-E''" and ?m2 = "empty_request ''AreYouThere'' 1 ''H<-E''"
  let ?q = "on_gem initiateEstablishCommunication p" and ?h = "initiateEstablishCommunication g"
  have h: "g_state ?h \<noteq> CommunicationStateCommunicating" "\<not> g_controlAttemptInProgress ?h"
    "ct_state (g_control ?h) \<in> {ControlStateHostOffline, ControlStateEquipmentOffline}"
    "g_deviceType ?h = DeviceEquipment" "g_attempts ?h = g_attempts g" "g_control ?h = g_control g"
    using g by (simp_all add: initiateEstablishCommunication_def)
  have obs: "observe p = ?q" using up g by (simp add: observe_def Let_def on_line_def)
  obtain out1 p2 where 1: "establish_begin ?q = Inr (Some (k1, out1), asked i ?m1 ?q)"
    "receive_step fsm (Inr (DataMsg r1)) (asked i ?m1 ?q) = Inr (hp_enabled p, p2)"
    "establish_end k1 out1 p2 = Inr (on_gem (handshake_done \<circ> setCommunicating) (answered k1 r1 (asked i ?m1 ?q)))"
    using establish_exchange [of ?q i k1 r1 ?m1 fsm] up h(1) g(1) k(1) r1 by auto
  let ?p3 = "on_gem (handshake_done \<circ> setCommunicating) (answered k1 r1 (asked i ?m1 ?q))"
  have app3: "hp_app ?p3 = handshake_done (setCommunicating ?h)" using g(1) by simp
  note fc = first_communicating [OF h(1-3)]
  have 3: "g_state (hp_app ?p3) = CommunicationStateCommunicating" "ct_state (gem_control ?p3) = ControlStateAttemptOnline"
    "g_attempts (hp_app ?p3) = g_attempts g + 1" "g_deviceType (hp_app ?p3) = DeviceEquipment"
    "ct_onlineMode (gem_control ?p3) = ct_onlineMode (g_control g)"
    unfolding gem_control_def app3 using fc h g(7) by (simp_all add: handshake_done_def)
  have up3: "on_line ?p3 i" "k2 = hp_systemCounter ?p3 + 1" using up k by (simp_all add: add.assoc)
  obtain out2 p5 where 2: "attempt_begin ?p3 = Inr (Some (k2, out2), asked i ?m2 ?p3)"
    "receive_step fsm (Inr (DataMsg r2)) (asked i ?m2 ?p3) = Inr (hp_enabled p, p5)"
    "attempt_end k2 out2 p5 = Inr (on_gem (attempt_done AttemptOnlineSuccess) (answered k2 r2 (asked i ?m2 ?p3)))"
    using attempt_exchange [OF up3(1) 3(1) 3(4) 3(2) up3(2) r2 refl, of fsm] by auto
  let ?p6 = "on_gem (attempt_done AttemptOnlineSuccess) (answered k2 r2 (asked i ?m2 ?p3))"
  have "isValidOnlineMode (ct_onlineMode (gem_control ?p3))" using g(8) 3(5) by (simp add: settled_def)
  then have 6: "ct_state (gem_control ?p6) =
      (if ct_onlineMode (g_control g) = OnlineModeLocal then ControlStateOnlineLocal else ControlStateOnlineRemote)"
      "g_state (hp_app ?p6) = CommunicationStateCommunicating"
      "\<not> g_handshakeInProgress (hp_app ?p6)" "\<not> g_controlAttemptInProgress (hp_app ?p6)"
    using success_control [of "gem_control ?p3"] 3(1,2,5) app3 fc(5)
    by (simp_all add: gem_control_def handshake_done_def g(1) [symmetric])
  have w: "written ?p6 i = written p i @ [wire_bytes (DataMsg (outgoing (hp_sessionID p) (encodeSystemID k1) True ?m1)),
      wire_bytes (DataMsg (outgoing (hp_sessionID p) (encodeSystemID k2) True ?m2))]"
    using k up3(2) by (simp add: add.commute)
  show ?thesis
    unfolding obs by (intro exI conjI) (rule 1 3(1-3) 2 6 w)+
qed

text \<open>An enabled handler on a selected link, for the witnesses, and an answer with an acknowledge code.\<close>

definition selected_gem :: "device_type \<Rightarrow> comm_state \<Rightarrow> control_state \<Rightarrow> unit gem" where
  "selected_gem d st ct = (NewHsmsProtocol False 1 41 ((new_handler (sample_options d) () sample_time)
      \<lparr>g_state := st, g_enabled := True,
       g_control := \<lparr>ct_state = ct, ct_initial = ControlStateAttemptOnline, ct_onlineMode = OnlineModeRemote\<rparr>\<rparr>))
     \<lparr>hp_enabled := True, hp_connected := True, hp_state := StateConnectedSelected, hp_connection := Some 0\<rparr>"

definition sample_answer :: "int \<Rightarrow> 32 word \<Rightarrow> int \<Rightarrow> data_message" where
  "sample_answer f k ack = (sample_message 1 f (LNode [BNode \<lparr>bn_values = [ack], bn_variables = [], bn_symbol = ''binary''\<rparr>,
     LNode [] [] ''list''] [] ''list''))\<lparr>dm_systemBytes := encodeSystemID k\<rparr>"

lemma sample_answer_simps [simp]:
  "dm_systemBytes (sample_answer f k a) = encodeSystemID k" "dm_stream (sample_answer f k a) = 1"
  "dm_function (sample_answer f k a) = f" "readCommAck (Some (sample_answer f k a)) = a"
  by (simp_all add: sample_answer_def readCommAck_def msg_Get_def Get_def)

lemma selected_gem_simps [simp]:
  "on_line (selected_gem d st ct) 0" "hp_systemCounter (selected_gem d st ct) = 41" "hp_enabled (selected_gem d st ct)"
  "g_enabled (hp_app (selected_gem d st ct))" "g_deviceType (hp_app (selected_gem d st ct)) = d"
  "g_state (hp_app (selected_gem d st ct)) = st" "\<not> g_handshakeInProgress (hp_app (selected_gem d st ct))"
  "\<not> g_controlAttemptInProgress (hp_app (selected_gem d st ct))"
  "g_control (hp_app (selected_gem d st ct)) = \<lparr>ct_state = ct, ct_initial = ControlStateAttemptOnline, ct_onlineMode = OnlineModeRemote\<rparr>"
  "g_attempts (hp_app (selected_gem d st ct)) = 0" "g_establishWait (hp_app (selected_gem d st ct)) = 10"
  "g_handshakes (hp_app (selected_gem d st ct)) = 0" "fetchQueue (selected_gem d st ct) k = None"
  by (simp_all add: selected_gem_def on_line_def NewHsmsProtocol_def link_up_def newSession_def new_handler_def
      sample_options_def fetchQueue_def)

theorem equipment_goes_online_witness:
  "\<exists>out1 out2 p1 p2 p3 p4 p5 p6.
      establish_begin (observe (selected_gem DeviceEquipment CommunicationStateNotCommunicating ControlStateEquipmentOffline))
        = Inr (Some (42, out1), p1)
    \<and> receive_step table_fire (Inr (DataMsg (sample_answer 14 42 0))) p1 = Inr (True, p2)
    \<and> establish_end 42 out1 p2 = Inr p3 \<and> attempt_begin p3 = Inr (Some (43, out2), p4)
    \<and> receive_step table_fire (Inr (DataMsg (sample_answer 2 43 0))) p4 = Inr (True, p5)
    \<and> attempt_end 43 out2 p5 = Inr p6 \<and> ct_state (gem_control p6) = ControlStateOnlineRemote"
  using equipment_goes_online [of "selected_gem DeviceEquipment CommunicationStateNotCommunicating ControlStateEquipmentOffline" 0
      "hp_app (selected_gem DeviceEquipment CommunicationStateNotCommunicating ControlStateEquipmentOffline)" 42 43
      "sample_answer 14 42 0" "sample_answer 2 43 0" table_fire]
  by (simp add: settled_def isValidOnlineMode_def) blast

section \<open>Where the handler departs from the standard\<close>

text \<open>The delay after a refused handshake is not kept. When a host answers its S1F13 with a code
  other than 0, the handler is in WAIT-DELAY with the timer armed for the configured wait; but the next
  monitor tick, half a second later, starts a new handshake: it writes another S1F13, is in
  WAIT-CRA and has stopped the delay timer.\<close>

theorem wait_delay_ignored:
  assumes "on_line p i" and "g_enabled (hp_app p)" and "g_deviceType (hp_app p) = DeviceHost"
    and "fetchQueue p k = Some [DataMsg r]" and "readCommAck (Some r) \<noteq> 0"
  shows "\<exists>p1 out2 p2. handshake_end k out p = Inr p1 \<and> g_state (hp_app p1) = CommunicationStateWaitDelay
    \<and> g_waitDelayTimer (hp_app p1) = Some (g_establishWait (hp_app p))
    \<and> handshake_begin (observe p1) = Inr (Some (hp_systemCounter p + 1, out2), p2)
    \<and> g_handshakes (hp_app p2) = g_handshakes (hp_app p) + 1
    \<and> g_state (hp_app p2) = CommunicationStateWaitCRA \<and> g_waitDelayTimer (hp_app p2) = None
    \<and> written p2 i = written p i @ [wire_bytes (DataMsg (outgoing (hp_sessionID p)
         (encodeSystemID (hp_systemCounter p + 1)) True (empty_request ''EstablishCommRequest'' 13 ''H->E'')))]"
proof -
  let ?m = "empty_request ''EstablishCommRequest'' 13 ''H->E''" and ?k2 = "hp_systemCounter p + 1"
  let ?p1 = "on_gem (handshake_done \<circ> scheduleRetry) (removeQueue k p)"
  have e: "handshake_end k out p = Inr ?p1"
    unfolding ends_eq SendAndWait_end_reply [OF assms(4)] using assms(5) by (simp add: comm_outcome_def)
  have q: "hp_app (removeQueue k p) = hp_app p" by (simp add: removeQueue_def)
  have app1: "g_state (hp_app ?p1) = CommunicationStateWaitDelay" "g_waitDelayTimer (hp_app ?p1) = Some (g_establishWait (hp_app p))"
    "g_enabled (hp_app ?p1)" "g_deviceType (hp_app ?p1) = DeviceHost" "\<not> g_handshakeInProgress (hp_app ?p1)"
    "g_handshakes (hp_app ?p1) = g_handshakes (hp_app p)"
    using assms(2,3) by (simp_all add: q handshake_done_def scheduleRetry_def setStateWithWaitDelay_def stopTimers_def Let_def)
  have rq: "on_line (removeQueue k p) i" "hp_systemCounter (removeQueue k p) = hp_systemCounter p"
    "hp_sessionID (removeQueue k p) = hp_sessionID p" "written (removeQueue k p) i = written p i"
    using assms(1) by (simp_all add: on_line_def link_up_def removeQueue_def)
  have obs: "observe ?p1 = on_gem initiateHandshake ?p1"
    using app1 rq(1) by (simp add: observe_def Let_def on_line_def on_gem_def)
  let ?f = "setStateWithWaitCRA CommunicationStateWaitCRA (waitCRA_seconds (hp_timeouts (observe ?p1)))"
  let ?p2 = "on_gem ?f (observe ?p1)"
  have up2: "on_line ?p2 i" "hp_systemCounter ?p2 = hp_systemCounter p" "hp_sessionID ?p2 = hp_sessionID p"
    "written ?p2 i = written p i" using rq by (simp_all add: obs)
  obtain out2 where b: "SendAndWait_begin (Some ?m) ?p2 = Inr (Inr (?k2, out2), asked i ?m ?p2)"
    using exchange [OF up2(1) request_builders(4), of ?k2 r table_fire] up2(2) by metis
  have hb: "handshake_begin (observe ?p1) = Inr (Some (?k2, out2), asked i ?m ?p2)"
    using b by (simp add: handshake_begin_def Let_def request_builders(1))
  have app2: "hp_app ?p2 = ?f (initiateHandshake (hp_app ?p1))" by (simp add: obs)
  have "g_handshakes (hp_app ?p2) = g_handshakes (hp_app p) + 1" "g_state (hp_app ?p2) = CommunicationStateWaitCRA"
    "g_waitDelayTimer (hp_app ?p2) = None"
    unfolding app2 using app1 by (simp_all add: initiateHandshake_def setStateWithWaitCRA_def stopTimers_def Let_def)
  then show ?thesis
    by (intro exI [of _ ?p1] exI [of _ out2] exI [of _ "asked i ?m ?p2"]) (use e app1 hb up2 in simp)
qed

theorem wait_delay_ignored_witness:
  "\<exists>p1 out2 p2. handshake_end 5 sample_request (set_queue 5 [DataMsg (sample_answer 14 5 1)]
        (selected_gem DeviceHost CommunicationStateWaitCRA ControlStateEquipmentOffline)) = Inr p1
    \<and> g_state (hp_app p1) = CommunicationStateWaitDelay \<and> handshake_begin (observe p1) = Inr (Some (42, out2), p2)
    \<and> g_waitDelayTimer (hp_app p2) = None"
proof -
  let ?p = "set_queue 5 [DataMsg (sample_answer 14 5 1)] (selected_gem DeviceHost CommunicationStateWaitCRA ControlStateEquipmentOffline)"
  have s: "hp_app (set_queue a b p) = hp_app p" "on_line (set_queue a b p) i = on_line p i"
    "hp_systemCounter (set_queue a b p) = hp_systemCounter p" for a b i and p :: "unit gem"
    by (simp_all add: set_queue_def on_line_def link_up_def)
  have "fetchQueue ?p 5 = Some [DataMsg (sample_answer 14 5 1)]" by (simp add: set_queue_def fetchQueue_def)
  then show ?thesis using wait_delay_ignored [of ?p 0 5 "sample_answer 14 5 1" sample_request] by (simp add: s) blast
qed

lemma reply_app: "SendAndWait_end k out p = Inr (r, p') \<Longrightarrow> hp_app p' = hp_app p"
  using go_all_InrD [OF serve.view_SendAndWait_end, of k out p "(r, p')"] by (simp add: served_def)

text \<open>Claim C36. An attempt to go on-line that communication loss has overtaken can end the next one. After the
  loss the machine is off-line; communication comes back and a second attempt starts, while the first
  still waits for its reply. When the first then runs into its timeout it takes the machine to
  HOST-OFFLINE, and the second attempt cannot leave that state any more, whatever the host answers it.\<close>

theorem stale_attempt:
  assumes "g_state (hp_app p) = CommunicationStateCommunicating" and "g_deviceType (hp_app p) = DeviceEquipment"
    and "ct_state (gem_control p) = ControlStateAttemptOnline"
    and "lost = setCommunicationState CommunicationStateNotCommunicating (hp_app p)"
    and "SendAndWait_end k out (p\<lparr>hp_app := setCommunicating lost\<rparr>) = Inr (Inl e, q)"
  shows "ct_state (g_control lost) = ControlStateEquipmentOffline
    \<and> ct_state (g_control (setCommunicating lost)) = ControlStateAttemptOnline
    \<and> g_attempts (setCommunicating lost) = g_attempts (hp_app p) + 1
    \<and> (\<exists>p'. attempt_end k out (p\<lparr>hp_app := setCommunicating lost\<rparr>) = Inr p'
        \<and> ct_state (gem_control p') = ControlStateHostOffline
        \<and> (\<forall>k2 out2 p''. attempt_end k2 out2 p' = Inr p'' \<longrightarrow> ct_state (gem_control p'') = ControlStateHostOffline))"
proof -
  have l: "g_state lost = CommunicationStateNotCommunicating" "\<not> g_controlAttemptInProgress lost"
    "ct_state (g_control lost) = ControlStateEquipmentOffline" "g_deviceType lost = DeviceEquipment"
    "g_attempts lost = g_attempts (hp_app p)"
    using assms(1-3) unfolding assms(4)
    by (simp_all add: setCommunicationState_def setState_def stopTimers_def onCommunicationStateChanged_def transitionControl_def
        lost_transition_def AttemptOnlineFailEquipmentOffline_def onControlStateTransition_def fire_def gem_control_def Let_def)
  have c: "g_state lost \<noteq> CommunicationStateCommunicating"
    "ct_state (g_control lost) \<in> {ControlStateHostOffline, ControlStateEquipmentOffline}" using l by simp_all
  note fc = first_communicating [OF c(1) l(2) c(2)]
  have up: "ct_state (g_control (setCommunicating lost)) = ControlStateAttemptOnline"
    "g_attempts (setCommunicating lost) = g_attempts (hp_app p) + 1" using fc l by simp_all
  let ?p' = "on_gem (attempt_outcome (Inl e)) q"
  have e: "attempt_end k out (p\<lparr>hp_app := setCommunicating lost\<rparr>) = Inr ?p'" unfolding ends_eq assms(5) by simp
  have "hp_app q = setCommunicating lost" using reply_app [OF assms(5)] by simp
  then have h: "ct_state (gem_control ?p') = ControlStateHostOffline"
    using up by (simp add: attempt_outcome_def AttemptOnlineFailHostOffline_def)
  have stay: "ct_state (gem_control p'') = ControlStateHostOffline"
    if host: "ct_state (gem_control p0) = ControlStateHostOffline" and a: "attempt_end k2 out2 p0 = Inr p''"
    for k2 out2 p'' and p0 :: "'a gem"
  proof -
    obtain r q0 where s: "SendAndWait_end k2 out2 p0 = Inr (r, q0)" and p'': "p'' = on_gem (attempt_outcome r) q0"
      using a unfolding ends_eq by (auto simp: go_bind_Inr_iff)
    have "ct_state (g_control (hp_app q0)) = ControlStateHostOffline" using reply_app [OF s] host by (simp add: gem_control_def)
    then show ?thesis by (auto simp: p'' attempt_outcome_def control_defs split: sum.split)
  qed
  show ?thesis using l(3) up e h stay [OF h] by blast
qed

theorem stale_attempt_witness:
  "\<exists>p'. attempt_end 5 sample_request ((set_queue 5 [CtrlMsg []]
         (selected_gem DeviceEquipment CommunicationStateCommunicating ControlStateAttemptOnline))
      \<lparr>hp_app := setCommunicating (setCommunicationState CommunicationStateNotCommunicating
         (hp_app (selected_gem DeviceEquipment CommunicationStateCommunicating ControlStateAttemptOnline)))\<rparr>) = Inr p'
    \<and> ct_state (gem_control p') = ControlStateHostOffline"
proof -
  let ?p = "set_queue 5 [CtrlMsg []] (selected_gem DeviceEquipment CommunicationStateCommunicating ControlStateAttemptOnline)"
  let ?lost = "setCommunicationState CommunicationStateNotCommunicating (hp_app ?p)"
  let ?q = "?p\<lparr>hp_app := setCommunicating ?lost\<rparr>"
  have app: "hp_app (set_queue a b p) = hp_app p" for a b and p :: "unit gem" by (simp add: set_queue_def)
  have "SendAndWait_end 5 sample_request ?q = Inr (Inl (Err ''hsms: unexpected response type''), removeQueue 5 ?q)"
    by (simp add: SendAndWait_end_def queue_get_def try_get_def fetchQueue_def set_queue_def)
  then show ?thesis
    using stale_attempt [of ?p ?lost 5 sample_request _ "removeQueue 5 ?q"] by (simp add: gem_control_def app) blast
qed

end
