(* ===== verification/Item_Print.thy ===== *)
theory Item_Print
  imports Go_Text Hsms_Message
begin

text \<open>
  The SML text of data items and messages: \<open>String()\<close> of every node type, the indentation of nested
  lists (\<open>stringIndented\<close> in \<open>list.go\<close>) and \<open>DataMessage.String\<close>. \<open>strconv.FormatFloat(v, 'g', -1, 8 * b)\<close>,
  the shortest decimal that reads back as \<open>v\<close>, is the argument \<open>ff b v\<close>.
\<close>

section \<open>Leaves\<close>

text \<open>\<open>strings.Join(values, " ")\<close>, and the variables put over the values in their positions.\<close>

fun join_blank :: "string list \<Rightarrow> string" where
  "join_blank [] = []"
| "join_blank [x] = x"
| "join_blank (x # xs) = x @ '' '' @ join_blank xs"

definition put_names :: "vars \<Rightarrow> string list \<Rightarrow> string list" where
  "put_names vars xs = foldl (\<lambda>xs (name, pos). xs[pos := name]) xs vars"

definition sized_item :: "string \<Rightarrow> string list \<Rightarrow> vars \<Rightarrow> string" where
  "sized_item typ xs vars =
     (if xs = [] then ''<'' @ typ @ ''[0]>''
      else ''<'' @ typ @ ''['' @ dec (int (length xs)) @ ''] '' @ join_blank (put_names vars xs) @ ''>'')"

definition binary_String :: "binary_node \<Rightarrow> string" where
  "binary_String n = sized_item ''B'' (map (\<lambda>v. ''0b'' @ FormatInt2 v) (bn_values n)) (bn_variables n)"

definition boolean_String :: "boolean_node \<Rightarrow> string" where
  "boolean_String n =
     sized_item ''BOOLEAN'' (map (\<lambda>v. if v then ''T'' else ''F'') (tn_values n)) (tn_variables n)"

definition float_String :: "(int \<Rightarrow> 64 word \<Rightarrow> string) \<Rightarrow> float_node \<Rightarrow> string" where
  "float_String ff n =
     sized_item (''F'' @ dec (fn_byteSize n)) (map (ff (fn_byteSize n)) (fn_values n)) (fn_variables n)"

definition int_String :: "int_node \<Rightarrow> string" where
  "int_String n =
     sized_item (''I'' @ dec (in_byteSize n)) (map (\<lambda>v. dec (sint v)) (in_values n)) (in_variables n)"

definition uint_String :: "uint_node \<Rightarrow> string" where
  "uint_String n =
     sized_item (''U'' @ dec (un_byteSize n)) (map (\<lambda>v. dec (uint v)) (un_values n)) (un_variables n)"

subsection \<open>ASCII\<close>

text \<open>\<open>0x%02X\<close> for the control characters, double quotes around the runs of others. The flag says
  whether a quote is open. A rune outside ASCII is written as it is.\<close>

definition control_char :: "char \<Rightarrow> bool" where
  "control_char c \<longleftrightarrow> of_char c < (32::nat) \<or> of_char c = (127::nat)"

definition char_code :: "char \<Rightarrow> string" where
  "char_code c = ''0x'' @ ToUpper (hex_pad 2 (of_char c))"

fun ascii_chars :: "bool \<Rightarrow> string \<Rightarrow> string" where
  "ascii_chars printableState [] = (if printableState then [CHR 0x22] else [])"
| "ascii_chars printableState (c # cs) =
     (if control_char c
      then (if printableState then [CHR 0x22] else []) @ '' '' @ char_code c @ ascii_chars False cs
      else (if printableState then [] else [CHR '' '', CHR 0x22]) @ [c] @ ascii_chars True cs)"

definition ascii_String :: "ascii_node \<Rightarrow> string" where
  "ascii_String n =
     (if \<not> an_isValue n then
        (let lengthStr = (if an_min n = 0 \<and> an_max n = - 1 then []
             else if an_min n = an_max n then ''['' @ dec (an_max n) @ '']''
             else if an_max n = - 1 then ''['' @ dec (an_min n) @ ''..]''
             else ''['' @ dec (an_min n) @ ''..'' @ dec (an_max n) @ '']'')
         in ''<A'' @ lengthStr @ '' '' @ an_name n @ ''>'')
      else if an_value n = [] then ''<A[0]>''
      else ''<A'' @ ascii_chars False (an_value n) @ ''>'')"

section \<open>Lists\<close>

definition indent :: "nat \<Rightarrow> string" where
  "indent level = concat (replicate level ''  '')"

definition variable_at :: "vars \<Rightarrow> nat \<Rightarrow> string option" where
  "variable_at vars i = map_option fst (find (\<lambda>(n, p). p = i) vars)"

fun item_String :: "(int \<Rightarrow> 64 word \<Rightarrow> string) \<Rightarrow> nat \<Rightarrow> item \<Rightarrow> string"
and list_lines :: "(int \<Rightarrow> 64 word \<Rightarrow> string) \<Rightarrow> nat \<Rightarrow> vars \<Rightarrow> nat \<Rightarrow> item list \<Rightarrow> string" where
  "item_String ff level EmptyNode = []"
| "item_String ff level (ANode n) = ascii_String n"
| "item_String ff level (BNode n) = binary_String n"
| "item_String ff level (TNode n) = boolean_String n"
| "item_String ff level (FNode n) = float_String ff n"
| "item_String ff level (INode n) = int_String n"
| "item_String ff level (UNode n) = uint_String n"
| "item_String ff level (LNode vs vars s) =
     (if vs = [] then indent level @ ''<L[0]>''
      else
        let sizeDetermined = list_all (\<lambda>i. (case vs ! i of LNode _ _ _ \<Rightarrow> True | _ \<Rightarrow> variable_at vars i = None))
                               [0..<length vs]
        in indent level @ ''<L''
             @ (if sizeDetermined then ''['' @ dec (int (length vs)) @ '']'' else []) @ [newline]
             @ list_lines ff level vars 0 vs @ indent level @ ''>'')"
| "list_lines ff level vars i [] = []"
| "list_lines ff level vars i (v # vs) =
     (case v of
        LNode _ _ _ \<Rightarrow> item_String ff (level + 1) v
      | _ \<Rightarrow>
         (case variable_at vars i of
            Some varName \<Rightarrow> indent level @ ''  '' @ (if isEllipsis varName then ''...'' else varName)
          | None \<Rightarrow> indent level @ ''  '' @ item_String ff level v))
       @ [newline] @ list_lines ff level vars (Suc i) vs"

text \<open>\<open>String()\<close> of a node; a list starts at level 0.\<close>

definition node_String :: "(int \<Rightarrow> 64 word \<Rightarrow> string) \<Rightarrow> item \<Rightarrow> string" where
  "node_String ff it = item_String ff 0 it"

definition DataMessage_String :: "(int \<Rightarrow> 64 word \<Rightarrow> string) \<Rightarrow> data_message \<Rightarrow> string" where
  "DataMessage_String ff m =
     (if dm_dataItem m = EmptyNode then Header m @ [newline] @ ''.''
      else Header m @ [newline] @ node_String ff (dm_dataItem m) @ [newline] @ ''.'')"

end
