(* ===== verification/Sml_Lexer.thy ===== *)
theory Sml_Lexer
  imports Go_Text
begin

text \<open>
  The lexer of the SML text format, \<open>lib-secs2-hsms-go/pkg/parser/sml/lexer.go\<close>: the token types,
  the scanner state, its primitives, the seven state functions and \<open>nextToken\<close>. A state function of
  the source is a constructor of \<open>stateFn\<close> and a function on the lexer that returns the next one;
  the channel of tokens is the list \<open>lx_tokens\<close>. \<open>terminate\<close> closes the channel and stops the machine
  in the same breath, so a closed channel is the state \<open>None\<close>. The rune \<open>eof\<close> is \<open>None\<close>. The matches
  of the regular expressions are given by their length.
\<close>

section \<open>Tokens and the lexer state\<close>

datatype tokenType =
    TkEOF | TkError | TkComment | TkMessageEnd
  | TkStreamFunction | TkWaitBit | TkDirection | TkMessageName
  | TkLeftAngleBracket | TkRightAngleBracket | TkDataItemType | TkDataItemSize
  | TkNumber | TkBool | TkVariable | TkQuotedString | TkEllipsis

record token =
  tk_typ :: tokenType
  tk_val :: string
  tk_line :: nat
  tk_col :: nat

datatype stateFn =
    LexMessageHeader | LexMessageText | LexEOF | LexComment | LexDataItemSize | LexQuotedString
  | LexNumber

record lexer =
  lx_input :: string
  lx_lastState :: "stateFn option"
  lx_state :: "stateFn option"
  lx_pos :: nat
  lx_start :: nat
  lx_width :: nat
  lx_tokens :: "token list"

definition lex :: "string \<Rightarrow> lexer" where
  "lex input = \<lparr>lx_input = input, lx_lastState = None, lx_state = Some LexMessageHeader,
     lx_pos = 0, lx_start = 0, lx_width = 0, lx_tokens = []\<rparr>"

section \<open>Scanning primitives\<close>

definition lx_rest :: "lexer \<Rightarrow> string" where
  "lx_rest l = drop (lx_pos l) (lx_input l)"

definition lx_text :: "lexer \<Rightarrow> string" where
  "lx_text l = slice (lx_start l) (lx_pos l) (lx_input l)"

definition lx_advance :: "nat \<Rightarrow> lexer \<Rightarrow> lexer" where
  "lx_advance n l = l\<lparr>lx_pos := lx_pos l + n\<rparr>"

text \<open>No encoding of a rune is longer than four bytes.\<close>

definition lx_next :: "lexer \<Rightarrow> nat option \<times> lexer" where
  "lx_next l =
     (if length (lx_input l) \<le> lx_pos l then (None, l\<lparr>lx_width := 0\<rparr>)
      else case rune_at (map of_char (take 4 (lx_rest l))) of
        (r, w) \<Rightarrow> (Some r, l\<lparr>lx_width := w, lx_pos := lx_pos l + w\<rparr>))"

definition lx_ignore :: "lexer \<Rightarrow> lexer" where
  "lx_ignore l = l\<lparr>lx_start := lx_pos l\<rparr>"

definition lx_backup :: "lexer \<Rightarrow> lexer" where
  "lx_backup l = l\<lparr>lx_pos := lx_pos l - lx_width l\<rparr>"

definition lx_peek :: "lexer \<Rightarrow> nat option \<times> lexer" where
  "lx_peek l = (case lx_next l of (r, l') \<Rightarrow> (r, lx_backup l'))"

definition lineColumn :: "lexer \<Rightarrow> nat \<times> nat" where
  "lineColumn l =
     (let start = take (lx_start l) (lx_input l);
          lineStart = length start - length (takeWhile (\<lambda>c. c \<noteq> newline) (rev start))
      in (1 + count_list start newline, 1 + length (runes (drop lineStart start))))"

definition lx_send :: "tokenType \<Rightarrow> string \<Rightarrow> lexer \<Rightarrow> lexer" where
  "lx_send t v l = (case lineColumn l of (line, col) \<Rightarrow>
     l\<lparr>lx_tokens := lx_tokens l @ [\<lparr>tk_typ = t, tk_val = v, tk_line = line, tk_col = col\<rparr>]\<rparr>)"

definition lx_emit :: "tokenType \<Rightarrow> lexer \<Rightarrow> lexer" where
  "lx_emit t l = lx_ignore (lx_send t (lx_text l) l)"

definition emitUppercase :: "tokenType \<Rightarrow> lexer \<Rightarrow> lexer" where
  "emitUppercase t l = lx_ignore (lx_send t (ToUpper (lx_text l)) l)"

definition remove_spaces :: "string \<Rightarrow> string" where
  "remove_spaces s = concat (map utf8_encode (filter (\<lambda>r. \<not> rune_is_space r) (runes s)))"

definition emitSpaceRemoved :: "tokenType \<Rightarrow> lexer \<Rightarrow> lexer" where
  "emitSpaceRemoved t l = lx_ignore (lx_send t (remove_spaces (lx_text l)) l)"

definition emitEOF :: "lexer \<Rightarrow> lexer" where
  "emitEOF l = lx_ignore (lx_send TkEOF ''EOF'' l)"

definition rune_in :: "string \<Rightarrow> nat option \<Rightarrow> bool" where
  "rune_in valid r = (case r of None \<Rightarrow> False | Some n \<Rightarrow> n \<in> of_char ` set valid)"

definition accept :: "string \<Rightarrow> lexer \<Rightarrow> bool \<times> lexer" where
  "accept valid l = (case lx_next l of (r, l') \<Rightarrow>
     if rune_in valid r then (True, l') else (False, lx_backup l'))"

lemma take4_Nil_iff: "take 4 (lx_rest l) = [] \<longleftrightarrow> length (lx_input l) \<le> lx_pos l"
  by (simp add: lx_rest_def)

lemma lx_next_pos: "lx_next l = (Some r, l') \<Longrightarrow> lx_pos l < lx_pos l' \<and> lx_pos l < length (lx_input l)"
  using rune_at_step [of "map of_char (take 4 (lx_rest l))"]
  by (auto simp: lx_next_def split: if_splits prod.splits)

lemma lx_next_input: "lx_next l = (r, l') \<Longrightarrow> lx_input l' = lx_input l"
  by (auto simp: lx_next_def split: if_splits prod.splits)

text \<open>The number of bytes left decreases with every rune.\<close>

definition lx_left :: "lexer \<Rightarrow> nat" where
  "lx_left l = length (lx_input l) - lx_pos l"

lemma lx_left_ignore [simp]: "lx_left (lx_ignore l) = lx_left l"
  by (simp add: lx_left_def lx_ignore_def)

lemma lx_next_left:
  assumes "(Some r, l') = lx_next l"
  shows "lx_left l' < lx_left l"
proof -
  have n: "lx_next l = (Some r, l')" using assms by simp
  show ?thesis using lx_next_pos [OF n] lx_next_input [OF n] by (auto simp: lx_left_def)
qed

function acceptRun :: "string \<Rightarrow> lexer \<Rightarrow> lexer" where
  "acceptRun valid l = (case lx_next l of (r, l') \<Rightarrow>
     if rune_in valid r then acceptRun valid l' else lx_backup l')"
  by pat_completeness auto
termination
  by (relation "measure (lx_left \<circ> snd)") (auto simp: rune_in_def split: option.splits intro: lx_next_left)

declare acceptRun.simps [simp del]

text \<open>\<open>errorf\<close> sends the error and stops the machine.\<close>

definition lx_errorf :: "string \<Rightarrow> lexer \<Rightarrow> stateFn option \<times> lexer" where
  "lx_errorf msg l = (None, lx_send TkError msg l)"

definition isAlphaNumeric :: "unicode \<Rightarrow> nat option \<Rightarrow> bool" where
  "isAlphaNumeric U r = (case r of None \<Rightarrow> False | Some n \<Rightarrow> n = 95 \<or> IsLetter U n \<or> IsDigit U n)"

definition rune_digit :: "nat option \<Rightarrow> bool" where
  "rune_digit r = (case r of None \<Rightarrow> False | Some n \<Rightarrow> 48 \<le> n \<and> n \<le> 57)"

section \<open>Regular expressions\<close>

text \<open>\<open>^[Ss]\d+[Ff]\d+\<close>, \<open>^([Ww]|\[[Ww]\])\<close>, \<open>^[Hh](->|<->|<-)[Ee]\<close>, \<open>^\.\.\.(\[\d+\])?\<close>,
  \<open>^[A-Za-z_]\w*\<close> and \<open>^(\[\d+\])+\<close>.\<close>

definition re_stream_function :: "string \<Rightarrow> nat option" where
  "re_stream_function s = (case s of
      [] \<Rightarrow> None
    | c # r \<Rightarrow>
       (case dropWhile is_digit r of
          [] \<Rightarrow> None
        | d # r' \<Rightarrow>
           if upper_char c = CHR ''S'' \<and> takeWhile is_digit r \<noteq> [] \<and> upper_char d = CHR ''F''
              \<and> takeWhile is_digit r' \<noteq> []
           then Some (2 + length (takeWhile is_digit r) + length (takeWhile is_digit r'))
           else None))"

definition re_wait_bit :: "string \<Rightarrow> nat option" where
  "re_wait_bit s =
     (if ToUpper (take 1 s) = ''W'' then Some 1
      else if ToUpper (take 3 s) = ''[W]'' then Some 3
      else None)"

definition re_direction :: "string \<Rightarrow> nat option" where
  "re_direction s =
     (if ToUpper (take 4 s) = ''H->E'' then Some 4
      else if ToUpper (take 5 s) = ''H<->E'' then Some 5
      else if ToUpper (take 4 s) = ''H<-E'' then Some 4
      else None)"

definition re_ellipsis :: "string \<Rightarrow> nat option" where
  "re_ellipsis s =
     (if take 3 s = ''...'' then
        (case one_index (drop 3 s) of None \<Rightarrow> Some 3 | Some r \<Rightarrow> Some (length s - length r))
      else None)"

definition is_word_char :: "char \<Rightarrow> bool" where
  "is_word_char c \<longleftrightarrow> is_letter c \<or> is_digit c"

definition re_name :: "string \<Rightarrow> nat option" where
  "re_name s = (case s of
      [] \<Rightarrow> None
    | c # r \<Rightarrow> if is_letter c then Some (1 + length (takeWhile is_word_char r)) else None)"

function re_indices :: "string \<Rightarrow> nat" where
  "re_indices s = (case one_index s of
      None \<Rightarrow> 0
    | Some r \<Rightarrow> length s - length r + re_indices r)"
  by pat_completeness auto
termination by (relation "measure length") (auto intro: one_index_shorter)

declare re_indices.simps [simp del]

section \<open>State functions\<close>

definition plain_space :: "nat \<Rightarrow> bool" where
  "plain_space r \<longleftrightarrow> r = 32 \<or> r = 9 \<or> r = 13 \<or> r = 10"

text \<open>The inner loop over a message name.\<close>

function scan_name :: "lexer \<Rightarrow> lexer" where
  "scan_name l = (case lx_next l of (r, l') \<Rightarrow>
     (case r of
        None \<Rightarrow> lx_backup l'
      | Some c \<Rightarrow>
          if rune_is_space c \<or> take 2 (drop (lx_pos l' - 1) (lx_input l')) = ''//''
          then lx_backup l' else scan_name l'))"
  by pat_completeness auto
termination
  by (relation "measure lx_left") (auto intro: lx_next_left)

declare scan_name.simps [simp del]

function lexMessageHeader :: "lexer \<Rightarrow> stateFn option \<times> lexer" where
  "lexMessageHeader l =
     (let s = lx_rest l in
      if take 2 s = ''//'' then (Some LexComment, l)
      else case re_stream_function s of
        Some n \<Rightarrow> (Some LexMessageHeader, emitUppercase TkStreamFunction (lx_advance n l))
      | None \<Rightarrow>
        (case re_wait_bit s of
          Some n \<Rightarrow> (Some LexMessageHeader, emitUppercase TkWaitBit (lx_advance n l))
        | None \<Rightarrow>
          (case re_direction s of
            Some n \<Rightarrow> (Some LexMessageHeader, emitUppercase TkDirection (lx_advance n l))
          | None \<Rightarrow>
            (case lx_next l of (r, l1) \<Rightarrow>
              (case r of
                None \<Rightarrow> (Some LexEOF, l1)
              | Some c \<Rightarrow>
                 if plain_space c then lexMessageHeader (lx_ignore l1)
                 else if c = 46 then (Some LexMessageHeader, lx_emit TkMessageEnd l1)
                 else if c = 60 then (Some LexMessageText, lx_emit TkLeftAngleBracket l1)
                 else (Some LexMessageHeader, lx_emit TkMessageName (scan_name l1)))))))"
  by pat_completeness auto
termination
  by (relation "measure lx_left") (auto intro: lx_next_left)

declare lexMessageHeader.simps [simp del]

definition data_item_types :: "string list" where
  "data_item_types =
     [''L'', ''A'', ''B'', ''BOOLEAN'', ''F4'', ''F8'',
      ''I1'', ''I2'', ''I4'', ''I8'', ''U1'', ''U2'', ''U4'', ''U8'']"

text \<open>A word in the message text, \<open>n\<close> bytes long: a type, a boolean or a variable.\<close>

definition lex_word :: "nat \<Rightarrow> lexer \<Rightarrow> lexer" where
  "lex_word n l =
     (let word = ToUpper (take n (lx_rest l)); l1 = lx_advance n l in
      if word \<in> set data_item_types then emitUppercase TkDataItemType l1
      else if word = ''T'' \<or> word = ''F'' then emitUppercase TkBool l1
      else lx_emit TkVariable (lx_advance (re_indices (lx_rest l1)) l1))"

function lexMessageText :: "unicode \<Rightarrow> lexer \<Rightarrow> stateFn option \<times> lexer" where
  "lexMessageText U l =
     (let s = lx_rest l in
      if take 2 s = ''//'' then (Some LexComment, l)
      else case re_ellipsis s of
        Some n \<Rightarrow> (Some LexMessageText, lx_emit TkEllipsis (lx_advance n l))
      | None \<Rightarrow>
        (case re_name s of
          Some n \<Rightarrow> (Some LexMessageText, lex_word n l)
        | None \<Rightarrow>
          (case lx_next l of (r, l1) \<Rightarrow>
            (case r of
              None \<Rightarrow> (Some LexEOF, l1)
            | Some c \<Rightarrow>
               if c = 43 \<or> c = 45 \<or> rune_digit r \<or> (c = 46 \<and> rune_digit (fst (lx_peek l1)))
                 then (Some LexNumber, lx_backup (if c = 46 then snd (lx_peek l1) else l1))
               else if c = 60 then (Some LexMessageText, lx_emit TkLeftAngleBracket l1)
               else if c = 62 then (Some LexMessageText, lx_emit TkRightAngleBracket l1)
               else if c = 46 then (Some LexMessageHeader, lx_emit TkMessageEnd (snd (lx_peek l1)))
               else if c = 91 then (Some LexDataItemSize, lx_backup l1)
               else if c = 34 then (Some LexQuotedString, lx_backup l1)
               else if plain_space c then lexMessageText U (lx_ignore l1)
               else lx_errorf (''unexpected character in data item: '' @ fmt_unicode U c) l1))))"
  by pat_completeness auto
termination
  by (relation "measure (lx_left \<circ> snd)") (auto intro: lx_next_left)

declare lexMessageText.simps [simp del]

definition lexEOF :: "lexer \<Rightarrow> stateFn option \<times> lexer" where
  "lexEOF l = (None, emitEOF l)"

text \<open>The end of a comment moves left over bytes that are spaces when read as runes.\<close>

fun trim_end :: "string \<Rightarrow> nat \<Rightarrow> nat" where
  "trim_end s 0 = 0"
| "trim_end s (Suc i) = (if rune_is_space (of_char (s ! i)) then trim_end s i else Suc i)"

definition lexComment :: "lexer \<Rightarrow> stateFn option \<times> lexer" where
  "lexComment l =
     (let s = lx_rest l; i = length (takeWhile (\<lambda>c. c \<noteq> newline) s) in
      if i = length s
      then (Some LexEOF, lx_emit TkComment (l\<lparr>lx_pos := length (lx_input l)\<rparr>))
      else (lx_lastState l, lx_emit TkComment (lx_advance (trim_end s i) l)))"

definition decimal_digits :: string where
  "decimal_digits = ''0123456789''"

definition blanks :: string where
  "blanks = [CHR '' '', CHR 0x09, CHR 0x0D, newline]"

definition size_number :: "lexer \<Rightarrow> bool \<times> lexer" where
  "size_number l = (case accept decimal_digits l of (ok, l1) \<Rightarrow>
     if ok then (True, acceptRun blanks (acceptRun decimal_digits l1)) else (False, l1))"

definition lexDataItemSize :: "lexer \<Rightarrow> stateFn option \<times> lexer" where
  "lexDataItemSize l =
     (let l1 = acceptRun blanks (snd (accept ''['' l)) in
      case size_number l1 of (found1, l2) \<Rightarrow>
      (case (if take 2 (lx_rest l2) = ''..'' then size_number (acceptRun blanks (lx_advance 2 l2))
             else (False, l2)) of
        (found2, l3) \<Rightarrow>
          (case accept '']'' l3 of (ok, l4) \<Rightarrow>
             if \<not> (ok \<and> (found1 \<or> found2)) then lx_errorf ''invalid data item size'' l4
             else (Some LexMessageText, emitSpaceRemoved TkDataItemSize l4))))"

text \<open>The position of the first byte with a property; the length of the string when there is none.\<close>

definition index_of :: "(char \<Rightarrow> bool) \<Rightarrow> string \<Rightarrow> nat" where
  "index_of P s = length (takeWhile (\<lambda>c. \<not> P c) s)"

definition lexQuotedString :: "lexer \<Rightarrow> stateFn option \<times> lexer" where
  "lexQuotedString l =
     (let l1 = snd (accept [CHR 0x22] l); s = lx_rest l1;
          i = index_of (\<lambda>c. c = CHR 0x22) s;
          j = index_of (\<lambda>c. c = CHR 0x0D \<or> c = newline) s
      in if i = length s \<or> (j < length s \<and> 0 < j \<and> j < i)
         then lx_errorf ''unclosed quoted string'' l1
         else (Some LexMessageText, lx_emit TkQuotedString (lx_advance (i + 1) l1)))"

definition number_digits :: "lexer \<Rightarrow> string \<times> lexer" where
  "number_digits l = (case accept ''0'' l of (zero, l1) \<Rightarrow>
     if \<not> zero then (decimal_digits, l1)
     else case accept ''xX'' l1 of (hex, l2) \<Rightarrow>
       if hex then (''0123456789abcdefABCDEF'', l2)
       else case accept ''bB'' l2 of (bin, l3) \<Rightarrow>
         if bin then (''01'', l3)
         else case accept ''oO'' l3 of (oct, l4) \<Rightarrow>
           (if oct then ''01234567'' else decimal_digits, l4))"

definition lexNumber :: "unicode \<Rightarrow> lexer \<Rightarrow> stateFn option \<times> lexer" where
  "lexNumber U l =
     (case number_digits (snd (accept ''+-'' l)) of (digits, l1) \<Rightarrow>
      let l2 = acceptRun digits l1 in
      case accept ''.'' l2 of (dot, l3) \<Rightarrow>
      let l4 = (if dot then acceptRun digits l3 else l3) in
      case accept ''eE'' l4 of (e, l5) \<Rightarrow>
      let l6 = (if e then acceptRun decimal_digits (snd (accept ''+-'' l5)) else l5) in
      case lx_peek l6 of (r, l7) \<Rightarrow>
        if isAlphaNumeric U r
        then (case lx_next l7 of (_, l8) \<Rightarrow>
                lx_errorf (''invalid number syntax: '' @ Quote U (lx_text l8)) l8)
        else (Some LexMessageText, lx_emit TkNumber l7))"

section \<open>The machine\<close>

fun run_state :: "unicode \<Rightarrow> stateFn \<Rightarrow> lexer \<Rightarrow> stateFn option \<times> lexer" where
  "run_state U LexMessageHeader l = lexMessageHeader l"
| "run_state U LexMessageText l = lexMessageText U l"
| "run_state U LexEOF l = lexEOF l"
| "run_state U LexComment l = lexComment l"
| "run_state U LexDataItemSize l = lexDataItemSize l"
| "run_state U LexQuotedString l = lexQuotedString l"
| "run_state U LexNumber l = lexNumber U l"

definition lx_step :: "unicode \<Rightarrow> stateFn \<Rightarrow> lexer \<Rightarrow> lexer" where
  "lx_step U f l = (case run_state U f l of (s, l') \<Rightarrow>
     l'\<lparr>lx_lastState := Some f, lx_state := s\<rparr>)"

lemma lx_send_tokens [simp]: "lx_tokens (lx_send t v l) \<noteq> []"
  by (simp add: lx_send_def split_beta)

lemma lx_emit_tokens [simp]:
  "lx_tokens (lx_ignore l) = lx_tokens l" "lx_tokens (lx_emit t l) \<noteq> []"
  "lx_tokens (emitUppercase t l) \<noteq> []" "lx_tokens (emitSpaceRemoved t l) \<noteq> []"
  "lx_tokens (emitEOF l) \<noteq> []"
  by (simp_all add: lx_ignore_def lx_emit_def emitUppercase_def emitSpaceRemoved_def emitEOF_def)

definition sub_state :: "stateFn option \<Rightarrow> bool" where
  "sub_state s \<longleftrightarrow> s \<noteq> None \<and> s \<noteq> Some LexMessageHeader \<and> s \<noteq> Some LexMessageText"

lemma sub_state_simps [simp]:
  "\<not> sub_state None" "\<not> sub_state (Some LexMessageHeader)" "\<not> sub_state (Some LexMessageText)"
  "sub_state (Some LexEOF)" "sub_state (Some LexComment)" "sub_state (Some LexDataItemSize)"
  "sub_state (Some LexQuotedString)" "sub_state (Some LexNumber)"
  by (simp_all add: sub_state_def)

lemma header_emits: "lexMessageHeader l = (s, l') \<Longrightarrow> lx_tokens l' \<noteq> [] \<or> sub_state s"
proof (induction l rule: lexMessageHeader.induct)
  case (1 l)
  from 1(2) show ?case
    by (subst (asm) lexMessageHeader.simps)
      (auto simp: Let_def split: if_splits option.splits prod.splits dest: 1(1) [rotated -1])
qed

lemma text_emits: "lexMessageText U l = (s, l') \<Longrightarrow> lx_tokens l' \<noteq> [] \<or> sub_state s"
proof (induction U l rule: lexMessageText.induct)
  case (1 U l)
  from 1(2) show ?case
    by (subst (asm) lexMessageText.simps)
      (auto simp: Let_def lex_word_def lx_errorf_def
        split: if_splits option.splits prod.splits dest: 1(1) [rotated -1])
qed

lemma sub_state_emits: "run_state U f l = (s, l') \<Longrightarrow> sub_state (Some f) \<Longrightarrow> lx_tokens l' \<noteq> []"
  by (cases f) (auto simp: sub_state_def lexEOF_def lexComment_def lexDataItemSize_def
      lexQuotedString_def lexNumber_def lx_errorf_def Let_def split: if_splits prod.splits)

definition lex_weight :: "lexer \<Rightarrow> nat" where
  "lex_weight l = (if lx_tokens l \<noteq> [] \<or> lx_state l = None then 0
     else if sub_state (lx_state l) then 1 else 2)"

lemma lx_step_weight:
  assumes "lx_state l = Some f" and "lx_tokens l = []"
  shows "lex_weight (lx_step U f l) < lex_weight l"
proof -
  obtain s l' where r: "run_state U f l = (s, l')" by (cases "run_state U f l")
  show ?thesis
  proof (cases "sub_state (Some f)")
    case True
    with sub_state_emits [OF r] r assms show ?thesis by (simp add: lex_weight_def lx_step_def)
  next
    case False
    then have "lx_tokens l' \<noteq> [] \<or> sub_state s"
      using r header_emits [of l s l'] text_emits [of U l s l'] by (auto simp: sub_state_def)
    with r False assms show ?thesis by (auto simp: lex_weight_def lx_step_def)
  qed
qed

text \<open>\<open>nextToken\<close>: a token from the channel when there is one; the zero token with type EOF when the
  channel is closed; else one more step of the machine.\<close>

definition closed_token :: token where
  "closed_token = \<lparr>tk_typ = TkEOF, tk_val = [], tk_line = 0, tk_col = 0\<rparr>"

function nextToken :: "unicode \<Rightarrow> lexer \<Rightarrow> token \<times> lexer" where
  "nextToken U l = (case lx_tokens l of
      t # ts \<Rightarrow> (t, l\<lparr>lx_tokens := ts\<rparr>)
    | [] \<Rightarrow>
       (case lx_state l of
          None \<Rightarrow> (closed_token, l)
        | Some f \<Rightarrow> nextToken U (lx_step U f l)))"
  by pat_completeness auto
termination
  by (relation "measure (lex_weight \<circ> snd)") (auto intro: lx_step_weight)

declare nextToken.simps [simp del]

section \<open>What scanning does to the lexer\<close>

text \<open>Scanning changes the position and the width of the last rune, and nothing else.\<close>

definition moved :: "nat \<Rightarrow> lexer \<Rightarrow> lexer \<Rightarrow> bool" where
  "moved n l l' \<longleftrightarrow> (\<exists>w. l' = l\<lparr>lx_pos := lx_pos l + n, lx_width := w\<rparr>)"

lemma moved_fields:
  assumes "moved n l l'"
  shows "lx_input l' = lx_input l" and "lx_lastState l' = lx_lastState l" and "lx_state l' = lx_state l"
    and "lx_pos l' = lx_pos l + n" and "lx_start l' = lx_start l" and "lx_tokens l' = lx_tokens l"
    and "lx_rest l' = drop n (lx_rest l)"
  using assms by (auto simp: moved_def lx_rest_def add.commute)

lemma moved_refl [simp]: "moved 0 l l"
  by (auto simp: moved_def intro: exI [of _ "lx_width l"])

lemma moved_width [simp]: "moved 0 l (l\<lparr>lx_width := w\<rparr>)"
  by (auto simp: moved_def intro: exI [of _ w])

lemma moved_advance [simp]: "moved n l (lx_advance n l)"
  by (auto simp: moved_def lx_advance_def intro: exI [of _ "lx_width l"])

lemma moved_trans: "moved m l l' \<Longrightarrow> moved n l' l'' \<Longrightarrow> moved (m + n) l l''"
  by (auto simp: moved_def add.assoc)

lemma movedI: "l' = l\<lparr>lx_pos := lx_pos l + n, lx_width := w\<rparr> \<Longrightarrow> moved n l l'"
  by (auto simp: moved_def)

definition rune_of :: "string \<Rightarrow> nat" where
  "rune_of s = fst (rune_at (map of_char (take 4 s)))"

definition width_of :: "string \<Rightarrow> nat" where
  "width_of s = snd (rune_at (map of_char (take 4 s)))"

lemma width_of_pos: "0 < width_of s"
  by (simp add: width_of_def rune_at_step)

lemma rune_at_length: "bs \<noteq> [] \<Longrightarrow> snd (rune_at bs) \<le> length bs"
  by (auto simp: rune_at_def split: list.split)

lemma width_of_length: "s \<noteq> [] \<Longrightarrow> width_of s \<le> length s"
  using rune_at_length [of "map of_char (take 4 s)"] by (simp add: width_of_def)

lemma rune_of_ascii:
  assumes "of_char c < (128 :: nat)"
  shows "rune_of (c # s) = of_char c" and "width_of (c # s) = 1"
  using assms by (simp_all add: rune_of_def width_of_def rune_at_def)

lemma rune_of_high: "(128 :: nat) \<le> of_char c \<Longrightarrow> 128 \<le> rune_of (c # s)"
  using rune_at_high [of "of_char c" "map of_char (take 3 s)"] by (simp add: rune_of_def)

lemma lx_next_Nil: "lx_rest l = [] \<Longrightarrow> lx_next l = (None, l\<lparr>lx_width := 0\<rparr>)"
  by (simp add: lx_next_def lx_rest_def)

lemma lx_next_Cons:
  assumes "lx_rest l \<noteq> []"
  shows "lx_next l = (Some (rune_of (lx_rest l)),
           l\<lparr>lx_width := width_of (lx_rest l), lx_pos := lx_pos l + width_of (lx_rest l)\<rparr>)"
proof -
  have "\<not> length (lx_input l) \<le> lx_pos l" using assms by (simp add: lx_rest_def)
  then show ?thesis by (simp add: lx_next_def rune_of_def width_of_def split_beta)
qed

lemma lx_next_backup: "moved 0 l (lx_backup (snd (lx_next l)))"
  by (cases "lx_rest l = []") (simp_all add: lx_next_Nil lx_next_Cons lx_backup_def)

lemma lx_next_moved: "lx_rest l \<noteq> [] \<Longrightarrow> moved (width_of (lx_rest l)) l (snd (lx_next l))"
  by (auto simp: lx_next_Cons moved_def intro: exI [of _ "width_of (lx_rest l)"])

lemma lx_peek_moved: "moved 0 l (snd (lx_peek l))"
  using lx_next_backup [of l] by (simp add: lx_peek_def split_beta)

lemma lx_peek_fst: "fst (lx_peek l) = (if lx_rest l = [] then None else Some (rune_of (lx_rest l)))"
  by (simp add: lx_peek_def split_beta lx_next_Nil lx_next_Cons)

subsection \<open>Runs of bytes\<close>

text \<open>A set of ASCII characters is matched byte by byte.\<close>

definition starts_in :: "string \<Rightarrow> string \<Rightarrow> bool" where
  "starts_in valid s \<longleftrightarrow> s \<noteq> [] \<and> hd s \<in> set valid"

definition run_length :: "string \<Rightarrow> string \<Rightarrow> nat" where
  "run_length valid s = length (takeWhile (\<lambda>c. c \<in> set valid) s)"

lemma rune_in_ascii:
  assumes "ascii_string valid" and "s \<noteq> []"
  shows "rune_in valid (Some (rune_of s)) \<longleftrightarrow> hd s \<in> set valid"
proof -
  obtain c r where s: "s = c # r" using assms(2) by (cases s) auto
  show ?thesis
  proof (cases "of_char c < (128 :: nat)")
    case True
    then show ?thesis by (auto simp: rune_in_def s rune_of_ascii)
  next
    case False
    then have "128 \<le> rune_of s" using rune_of_high [of c r] s by simp
    moreover have "c \<notin> set valid" using False assms(1) by (auto simp: ascii_string_def)
    ultimately show ?thesis using assms(1) by (force simp: rune_in_def s ascii_string_def)
  qed
qed

lemma width_of_valid: "ascii_string valid \<Longrightarrow> starts_in valid s \<Longrightarrow> width_of s = 1"
  by (cases s) (auto simp: starts_in_def ascii_string_def rune_of_ascii)

lemma accept_fst: "ascii_string v \<Longrightarrow> fst (accept v l) = starts_in v (lx_rest l)"
  by (cases "lx_rest l = []")
    (simp_all add: accept_def lx_next_Nil lx_next_Cons rune_in_ascii starts_in_def, simp add: rune_in_def)

lemma accept_moved:
  assumes "ascii_string v"
  shows "moved (if starts_in v (lx_rest l) then 1 else 0) l (snd (accept v l))"
proof (cases "starts_in v (lx_rest l)")
  case True
  then have n: "lx_rest l \<noteq> []" and h: "hd (lx_rest l) \<in> set v" by (simp_all add: starts_in_def)
  have "width_of (lx_rest l) = 1" by (rule width_of_valid [OF assms True])
  then show ?thesis
    using lx_next_moved [OF n] rune_in_ascii [OF assms n] h True n
    by (simp add: accept_def lx_next_Cons)
next
  case False
  then have "snd (accept v l) = lx_backup (snd (lx_next l))"
    using accept_fst [OF assms, of l] by (auto simp: accept_def split: prod.splits if_splits)
  with lx_next_backup [of l] False show ?thesis by simp
qed

lemma acceptRun_moved:
  assumes "ascii_string v"
  shows "moved (run_length v (lx_rest l)) l (acceptRun v l)"
  using assms
proof (induction v l rule: acceptRun.induct)
  case (1 v l)
  let ?n = "lx_next l"
  show ?case
  proof (cases "starts_in v (lx_rest l)")
    case True
    then obtain c s where s: "lx_rest l = c # s" "c \<in> set v" by (cases "lx_rest l") (auto simp: starts_in_def)
    have w: "width_of (lx_rest l) = 1" by (rule width_of_valid [OF 1(2) True])
    have r: "rune_in v (fst ?n)" using rune_in_ascii [OF 1(2), of "lx_rest l"] s by (simp add: lx_next_Cons)
    have m: "moved 1 l (snd ?n)" using lx_next_moved [of l] s w by simp
    have "moved (run_length v (lx_rest (snd ?n))) (snd ?n) (acceptRun v (snd ?n))"
      using 1(1) [of "fst ?n" "snd ?n"] r 1(2) by simp
    from moved_trans [OF m this] have "moved (run_length v (lx_rest l)) l (acceptRun v (snd ?n))"
      using s moved_fields(7) [OF m] by (simp add: run_length_def)
    then show ?thesis using r by (subst acceptRun.simps) (simp add: split_beta)
  next
    case False
    then have z: "run_length v (lx_rest l) = 0"
      by (cases "lx_rest l") (auto simp: run_length_def starts_in_def)
    have "\<not> rune_in v (fst ?n)"
      using False rune_in_ascii [OF 1(2), of "lx_rest l"]
      by (cases "lx_rest l = []") (simp_all add: lx_next_Nil lx_next_Cons rune_in_def starts_in_def)
    then show ?thesis using lx_next_backup [of l] z by (subst acceptRun.simps) (simp add: split_beta)
  qed
qed

end
