(* ===== verification/Sml_Scan.thy ===== *)
theory Sml_Scan
  imports Sml_Lexer
begin

text \<open>
  What the SML lexer computes, stated without its machine: \<open>scan_header\<close> and \<open>scan_text\<close> read one
  token off the front of a string and give its type and value, what the lexer is in afterwards and
  how many bytes the token takes. Each state function is shown to do what its part of the scanner
  says (\<open>performs\<close>). The next theory composes this: \<open>nextToken\<close>, with its runes, positions, widths,
  state functions and channel, is the reference scanner after the blanks.
\<close>

section \<open>The reference scanner\<close>

text \<open>Type, value, next mode (\<open>None\<close> when the lexer stops) and length of a token.\<close>

type_synonym scanned_token = "tokenType \<times> string \<times> stateFn option \<times> nat"

function name_run :: "string \<Rightarrow> nat" where
  "name_run s =
     (if s = [] then 0
      else if rune_is_space (rune_of s) \<or> take 2 (drop (width_of s - 1) s) = ''//'' then 0
      else width_of s + name_run (drop (width_of s) s))"
  by pat_completeness auto
termination
proof (relation "measure length")
  show "(drop (width_of s) s, s) \<in> measure length" if "s \<noteq> []" for s
    using that width_of_pos [of s] by simp
qed simp

declare name_run.simps [simp del]

definition number_prefix :: "string \<Rightarrow> nat \<times> string" where
  "number_prefix s =
     (if \<not> starts_in ''0'' s then (0, decimal_digits)
      else if starts_in ''xX'' (tl s) then (2, ''0123456789abcdefABCDEF'')
      else if starts_in ''bB'' (tl s) then (2, ''01'')
      else if starts_in ''oO'' (tl s) then (2, ''01234567'')
      else (1, decimal_digits))"

definition opt_length :: "string \<Rightarrow> string \<Rightarrow> nat" where
  "opt_length v s = (if starts_in v s then 1 else 0)"

definition fraction_length :: "string \<Rightarrow> string \<Rightarrow> nat" where
  "fraction_length ds s = (if starts_in ''.'' s then 1 + run_length ds (tl s) else 0)"

definition exponent_length :: "string \<Rightarrow> nat" where
  "exponent_length s =
     (if starts_in ''eE'' s
      then 1 + opt_length ''+-'' (tl s)
             + run_length decimal_digits (drop (opt_length ''+-'' (tl s)) (tl s))
      else 0)"

definition number_length :: "string \<Rightarrow> nat" where
  "number_length s =
     (let a = opt_length ''+-'' s in
      case number_prefix (drop a s) of (b, ds) \<Rightarrow>
      let c = a + b + run_length ds (drop (a + b) s);
          d = c + fraction_length ds (drop c s)
      in d + exponent_length (drop d s))"

definition scan_number :: "unicode \<Rightarrow> string \<Rightarrow> scanned_token" where
  "scan_number U s =
     (let n = number_length s; r = drop n s in
      if r \<noteq> [] \<and> isAlphaNumeric U (Some (rune_of r))
      then (TkError, ''invalid number syntax: '' @ Quote U (take (n + width_of r) s), None, n)
      else (TkNumber, take n s, Some LexMessageText, n))"

definition size_number_length :: "string \<Rightarrow> nat" where
  "size_number_length s =
     (if starts_in decimal_digits s
      then run_length decimal_digits s + run_length blanks (drop (run_length decimal_digits s) s)
      else 0)"

definition scan_size :: "string \<Rightarrow> scanned_token" where
  "scan_size s =
     (let a = 1 + run_length blanks (tl s);
          b = a + size_number_length (drop a s);
          dots = take 2 (drop b s) = ''..'';
          c = b + 2 + run_length blanks (drop (b + 2) s);
          d = (if dots then c + size_number_length (drop c s) else b)
      in if starts_in '']'' (drop d s)
            \<and> (starts_in decimal_digits (drop a s) \<or> (dots \<and> starts_in decimal_digits (drop c s)))
         then (TkDataItemSize, remove_spaces (take (d + 1) s), Some LexMessageText, d + 1)
         else (TkError, ''invalid data item size'', None, d))"

definition scan_quoted :: "string \<Rightarrow> scanned_token" where
  "scan_quoted s =
     (let i = index_of (\<lambda>c. c = CHR 0x22) (tl s);
          j = index_of (\<lambda>c. c = CHR 0x0D \<or> c = newline) (tl s)
      in if i = length (tl s) \<or> (j < length (tl s) \<and> 0 < j \<and> j < i)
         then (TkError, ''unclosed quoted string'', None, 1)
         else (TkQuotedString, take (i + 2) s, Some LexMessageText, i + 2))"

definition scan_comment :: "stateFn \<Rightarrow> string \<Rightarrow> scanned_token" where
  "scan_comment m s =
     (let i = length (takeWhile (\<lambda>c. c \<noteq> newline) s) in
      if i = length s then (TkComment, s, Some LexEOF, i)
      else (TkComment, take (trim_end s i) s, Some m, trim_end s i))"

definition scan_word :: "nat \<Rightarrow> string \<Rightarrow> scanned_token" where
  "scan_word n s =
     (let word = ToUpper (take n s); k = n + re_indices (drop n s) in
      if word \<in> set data_item_types then (TkDataItemType, word, Some LexMessageText, n)
      else if word = ''T'' \<or> word = ''F'' then (TkBool, word, Some LexMessageText, n)
      else (TkVariable, take k s, Some LexMessageText, k))"

definition scan_header :: "string \<Rightarrow> scanned_token" where
  "scan_header s =
     (if s = [] then (TkEOF, ''EOF'', None, 0)
      else if take 2 s = ''//'' then scan_comment LexMessageHeader s
      else case re_stream_function s of
        Some n \<Rightarrow> (TkStreamFunction, ToUpper (take n s), Some LexMessageHeader, n)
      | None \<Rightarrow>
        (case re_wait_bit s of
          Some n \<Rightarrow> (TkWaitBit, ToUpper (take n s), Some LexMessageHeader, n)
        | None \<Rightarrow>
          (case re_direction s of
            Some n \<Rightarrow> (TkDirection, ToUpper (take n s), Some LexMessageHeader, n)
          | None \<Rightarrow>
              if hd s = CHR ''.'' then (TkMessageEnd, ''.'', Some LexMessageHeader, 1)
              else if hd s = CHR ''<'' then (TkLeftAngleBracket, ''<'', Some LexMessageText, 1)
              else let n = width_of s + name_run (drop (width_of s) s)
                   in (TkMessageName, take n s, Some LexMessageHeader, n))))"

definition number_start :: "string \<Rightarrow> bool" where
  "number_start s \<longleftrightarrow> hd s = CHR ''+'' \<or> hd s = CHR ''-'' \<or> is_digit (hd s)
     \<or> (hd s = CHR ''.'' \<and> tl s \<noteq> [] \<and> is_digit (hd (tl s)))"

definition scan_text :: "unicode \<Rightarrow> string \<Rightarrow> scanned_token" where
  "scan_text U s =
     (if s = [] then (TkEOF, ''EOF'', None, 0)
      else if take 2 s = ''//'' then scan_comment LexMessageText s
      else case re_ellipsis s of
        Some n \<Rightarrow> (TkEllipsis, take n s, Some LexMessageText, n)
      | None \<Rightarrow>
        (case re_name s of
          Some n \<Rightarrow> scan_word n s
        | None \<Rightarrow>
            if number_start s then scan_number U s
            else if hd s = CHR ''<'' then (TkLeftAngleBracket, ''<'', Some LexMessageText, 1)
            else if hd s = CHR ''>'' then (TkRightAngleBracket, ''>'', Some LexMessageText, 1)
            else if hd s = CHR ''.'' then (TkMessageEnd, ''.'', Some LexMessageHeader, 1)
            else if hd s = CHR ''['' then scan_size s
            else if hd s = CHR 0x22 then scan_quoted s
            else (TkError, ''unexpected character in data item: '' @ fmt_unicode U (rune_of s), None, 0)))"

fun scan :: "unicode \<Rightarrow> stateFn \<Rightarrow> string \<Rightarrow> scanned_token" where
  "scan U LexMessageHeader s = scan_header s"
| "scan U LexMessageText s = scan_text U s"
| "scan U m s = (TkEOF, ''EOF'', None, 0)"

section \<open>Emission\<close>

definition mk_token :: "tokenType \<Rightarrow> string \<Rightarrow> lexer \<Rightarrow> token" where
  "mk_token t v l =
     \<lparr>tk_typ = t, tk_val = v, tk_line = fst (lineColumn l), tk_col = snd (lineColumn l)\<rparr>"

lemma lineColumn_moved: "moved n l l' \<Longrightarrow> lineColumn l' = lineColumn l"
  by (simp add: lineColumn_def moved_fields)

lemma mk_token_moved: "moved n l l' \<Longrightarrow> mk_token t v l' = mk_token t v l"
  by (simp add: mk_token_def lineColumn_moved)

lemma lx_send_eq: "lx_send t v l = l\<lparr>lx_tokens := lx_tokens l @ [mk_token t v l]\<rparr>"
  by (simp add: lx_send_def mk_token_def split_beta)

lemma moved_text: "moved n l l' \<Longrightarrow> lx_start l = lx_pos l \<Longrightarrow> lx_text l' = take n (lx_rest l)"
  by (simp add: lx_text_def moved_fields slice_def lx_rest_def)

text \<open>\<open>delivered n t v l l'\<close>: a token has been sent for the next \<open>n\<close> bytes.\<close>

definition delivered :: "nat \<Rightarrow> tokenType \<Rightarrow> string \<Rightarrow> lexer \<Rightarrow> lexer \<Rightarrow> bool" where
  "delivered n t v l l' \<longleftrightarrow> lx_input l' = lx_input l \<and> lx_lastState l' = lx_lastState l
     \<and> lx_pos l' = lx_pos l + n \<and> lx_start l' = lx_pos l + n
     \<and> lx_tokens l' = lx_tokens l @ [mk_token t v l]"

lemma delivered_send: "moved n l l' \<Longrightarrow> delivered n t v l (lx_ignore (lx_send t v l'))"
  by (simp add: delivered_def lx_ignore_def lx_send_eq moved_fields mk_token_moved)

lemma delivered_emit:
  assumes "moved n l l'" and "lx_start l = lx_pos l"
  shows "delivered n t (take n (lx_rest l)) l (lx_emit t l')"
    and "delivered n t (ToUpper (take n (lx_rest l))) l (emitUppercase t l')"
    and "delivered n t (remove_spaces (take n (lx_rest l))) l (emitSpaceRemoved t l')"
  unfolding lx_emit_def emitUppercase_def emitSpaceRemoved_def moved_text [OF assms]
  by (rule delivered_send [OF assms(1)])+

text \<open>A state function that ends in a token or an error, as the reference scanner has it.\<close>

fun performs :: "scanned_token \<Rightarrow> lexer \<Rightarrow> stateFn option \<times> lexer \<Rightarrow> bool" where
  "performs (t, v, m, n) l (m', l') \<longleftrightarrow>
     m' = m \<and> lx_input l' = lx_input l \<and> lx_tokens l' = lx_tokens l @ [mk_token t v l]
     \<and> (m \<noteq> None \<longrightarrow> lx_pos l' = lx_pos l + n \<and> lx_start l' = lx_pos l + n)"

lemma performs_delivered: "delivered n t v l l' \<Longrightarrow> performs (t, v, Some m, n) l (Some m, l')"
  by (simp add: delivered_def)

lemma performs_error: "moved k l l' \<Longrightarrow> performs (TkError, v, None, n) l (lx_errorf v l')"
  by (simp add: lx_errorf_def lx_send_eq moved_fields mk_token_moved)

section \<open>Scanning steps\<close>

lemma ascii_sets [simp]:
  "ascii_string decimal_digits" "ascii_string blanks" "ascii_string ''[''" "ascii_string '']''"
  "ascii_string ''+-''" "ascii_string ''0''" "ascii_string ''xX''" "ascii_string ''bB''"
  "ascii_string ''oO''" "ascii_string ''.''" "ascii_string ''eE''" "ascii_string [CHR 0x22]"
  "ascii_string ''0123456789abcdefABCDEF''" "ascii_string ''01''" "ascii_string ''01234567''"
  by (simp_all add: ascii_string_def decimal_digits_def blanks_def newline_def)

lemma scan_name_moved: "moved (name_run (lx_rest l)) l (scan_name l)"
proof (induction l rule: scan_name.induct)
  case (1 l)
  show ?case
  proof (cases "lx_rest l = []")
    case True
    then show ?thesis
      using lx_next_backup [of l] by (subst scan_name.simps, subst name_run.simps) (simp add: lx_next_Nil)
  next
    case False
    let ?s = "lx_rest l" and ?l = "snd (lx_next l)"
    have n: "lx_next l = (Some (rune_of ?s), ?l)" using False by (simp add: lx_next_Cons)
    note m = lx_next_moved [OF False]
    have d: "drop (lx_pos ?l - 1) (lx_input ?l) = drop (width_of ?s - 1) ?s"
      using width_of_pos [of ?s] by (simp add: moved_fields [OF m] lx_rest_def add.commute)
    show ?thesis
    proof (cases "rune_is_space (rune_of ?s) \<or> take 2 (drop (width_of ?s - 1) ?s) = ''//''")
      case True
      then have "scan_name l = lx_backup ?l" by (subst scan_name.simps, subst n) (simp add: d del: One_nat_def)
      then show ?thesis using lx_next_backup [of l] True by (subst name_run.simps) simp
    next
      case stop: False
      have "moved (name_run (lx_rest ?l)) ?l (scan_name ?l)"
        using 1 [OF n [symmetric] refl] stop by (simp add: d del: One_nat_def)
      from moved_trans [OF m this] have "moved (name_run ?s) l (scan_name ?l)"
        using False stop by (subst name_run.simps) (simp add: moved_fields(7) [OF m])
      moreover have "scan_name l = scan_name ?l"
        using stop by (subst scan_name.simps, subst n) (simp add: d del: One_nat_def)
      ultimately show ?thesis by simp
    qed
  qed
qed

lemma acceptE:
  assumes "ascii_string v"
  obtains l' where "accept v l = (starts_in v (lx_rest l), l')"
    and "moved (opt_length v (lx_rest l)) l l'"
    and "lx_rest l' = drop (opt_length v (lx_rest l)) (lx_rest l)"
proof (rule that)
  show "accept v l = (starts_in v (lx_rest l), snd (accept v l))"
    by (rule prod_eqI) (simp_all add: accept_fst [OF assms])
  show m: "moved (opt_length v (lx_rest l)) l (snd (accept v l))"
    using accept_moved [OF assms, of l] by (simp add: opt_length_def)
  show "lx_rest (snd (accept v l)) = drop (opt_length v (lx_rest l)) (lx_rest l)"
    by (rule moved_fields(7) [OF m])
qed

lemma opt_length_simps [simp]:
  "starts_in v s \<Longrightarrow> opt_length v s = 1" "\<not> starts_in v s \<Longrightarrow> opt_length v s = 0"
  by (simp_all add: opt_length_def)

lemma run_length_step: "starts_in v s \<Longrightarrow> run_length v s = 1 + run_length v (tl s)"
  by (cases s) (simp_all add: run_length_def starts_in_def)

lemma size_number_moved:
  "fst (size_number l) = starts_in decimal_digits (lx_rest l)
   \<and> moved (size_number_length (lx_rest l)) l (snd (size_number l))"
proof -
  let ?s = "lx_rest l"
  obtain l1 where a: "accept decimal_digits l = (starts_in decimal_digits ?s, l1)"
    and m1: "moved (opt_length decimal_digits ?s) l l1" by (rule acceptE [of decimal_digits l]) simp_all
  show ?thesis
  proof (cases "starts_in decimal_digits ?s")
    case True
    have m2: "moved (run_length decimal_digits ?s) l (acceptRun decimal_digits l1)"
      using moved_trans [OF m1 acceptRun_moved [of decimal_digits l1]] True
      by (simp add: moved_fields(7) [OF m1] drop_Suc run_length_step)
    have "moved (size_number_length ?s) l (acceptRun blanks (acceptRun decimal_digits l1))"
      using moved_trans [OF m2 acceptRun_moved [of blanks]] True
      by (simp add: moved_fields(7) [OF m2] size_number_length_def)
    then show ?thesis using True by (simp add: size_number_def a)
  next
    case False
    then show ?thesis using m1 by (simp add: size_number_def a size_number_length_def)
  qed
qed

lemma number_digits_moved:
  "fst (number_digits l) = snd (number_prefix (lx_rest l))
   \<and> moved (fst (number_prefix (lx_rest l))) l (snd (number_digits l))"
proof -
  let ?s = "lx_rest l"
  obtain l1 where a: "accept ''0'' l = (starts_in ''0'' ?s, l1)"
    and m1: "moved (opt_length ''0'' ?s) l l1" and r1: "lx_rest l1 = drop (opt_length ''0'' ?s) ?s"
    by (rule acceptE [of "''0''" l]) simp_all
  show ?thesis
  proof (cases "starts_in ''0'' ?s")
    case False
    then show ?thesis using m1 by (simp add: number_digits_def a number_prefix_def)
  next
    case zero: True
    obtain l2 where b: "accept ''xX'' l1 = (starts_in ''xX'' (lx_rest l1), l2)"
      and m2: "moved (opt_length ''xX'' (lx_rest l1)) l1 l2"
      and r2: "lx_rest l2 = drop (opt_length ''xX'' (lx_rest l1)) (lx_rest l1)"
      by (rule acceptE [of "''xX''" l1]) simp_all
    obtain l3 where c: "accept ''bB'' l2 = (starts_in ''bB'' (lx_rest l2), l3)"
      and m3: "moved (opt_length ''bB'' (lx_rest l2)) l2 l3"
      and r3: "lx_rest l3 = drop (opt_length ''bB'' (lx_rest l2)) (lx_rest l2)"
      by (rule acceptE [of "''bB''" l2]) simp_all
    obtain l4 where d: "accept ''oO'' l3 = (starts_in ''oO'' (lx_rest l3), l4)"
      and m4: "moved (opt_length ''oO'' (lx_rest l3)) l3 l4"
      by (rule acceptE [of "''oO''" l3]) simp_all
    note m12 = moved_trans [OF m1 m2]
    note m13 = moved_trans [OF m12 m3]
    note m14 = moved_trans [OF m13 m4]
    have t: "lx_rest l1 = tl ?s" using zero by (simp add: r1 drop_Suc)
    show ?thesis
    proof (cases "starts_in ''xX'' (tl ?s)")
      case True
      with m12 zero t show ?thesis
        by (simp add: number_digits_def a b number_prefix_def numeral_2_eq_2)
    next
      case x: False
      then have t2: "lx_rest l2 = tl ?s" using t by (simp add: r2)
      show ?thesis
      proof (cases "starts_in ''bB'' (tl ?s)")
        case True
        with m13 zero t t2 x show ?thesis
          by (simp add: number_digits_def a b c number_prefix_def numeral_2_eq_2)
      next
        case y: False
        then have t3: "lx_rest l3 = tl ?s" using t2 by (simp add: r3)
        show ?thesis
          using m14 zero t t2 t3 x y by (cases "starts_in ''oO'' (tl ?s)")
            (simp_all add: number_digits_def a b c d number_prefix_def numeral_2_eq_2)
      qed
    qed
  qed
qed

section \<open>The state functions inside an item\<close>

lemma accept_result:
  assumes "ascii_string v" and "accept v l = (ok, l')"
  shows "ok = starts_in v (lx_rest l)" and "moved (opt_length v (lx_rest l)) l l'"
    and "lx_rest l' = drop (opt_length v (lx_rest l)) (lx_rest l)"
  using acceptE [OF assms(1), of l] assms(2) by auto

lemma fraction_moved:
  assumes ds: "ascii_string ds" and a: "accept ''.'' l = (dot, l')"
  shows "moved (fraction_length ds (lx_rest l)) l (if dot then acceptRun ds l' else l')"
proof -
  note r = accept_result [OF _ a, simplified]
  from moved_trans [OF r(2) acceptRun_moved [OF ds]] r show ?thesis
    by (cases dot) (simp_all add: fraction_length_def drop_Suc)
qed

lemma exponent_moved:
  assumes "accept ''eE'' l = (e, l')"
  shows "moved (exponent_length (lx_rest l)) l
           (if e then acceptRun decimal_digits (snd (accept ''+-'' l')) else l')"
proof -
  note r = accept_result [OF _ assms, simplified]
  obtain b k where a: "accept ''+-'' l' = (b, k)" by (cases "accept ''+-'' l'")
  note q = accept_result [OF _ a, simplified]
  from moved_trans [OF moved_trans [OF r(2) q(2)] acceptRun_moved [of decimal_digits k]] r q show ?thesis
    by (cases e) (simp_all add: exponent_length_def a drop_Suc)
qed

definition mantissa_length :: "string \<Rightarrow> nat" where
  "mantissa_length s =
     (let a = opt_length ''+-'' s in
      case number_prefix (drop a s) of (b, ds) \<Rightarrow> a + b + run_length ds (drop (a + b) s))"

lemma mantissa_moved:
  assumes "number_digits (snd (accept ''+-'' l)) = (ds, l')"
  shows "moved (mantissa_length (lx_rest l)) l (acceptRun ds l')" and "ascii_string ds"
    and "ds = snd (number_prefix (drop (opt_length ''+-'' (lx_rest l)) (lx_rest l)))"
proof -
  obtain b k where a: "accept ''+-'' l = (b, k)" by (cases "accept ''+-'' l")
  note r = accept_result [OF _ a, simplified]
  define n where "n = fst (number_prefix (lx_rest k))"
  have p: "number_prefix (lx_rest k) = (n, ds)" and m: "moved n k l'"
    using number_digits_moved [of k] assms a by (simp_all add: n_def prod_eq_iff)
  have "ascii_string (snd (number_prefix (lx_rest k)))" by (simp add: number_prefix_def)
  then show ds: "ascii_string ds" by (simp add: p)
  show "ds = snd (number_prefix (drop (opt_length ''+-'' (lx_rest l)) (lx_rest l)))"
    using p r by simp
  note m' = moved_trans [OF r(2) m]
  show "moved (mantissa_length (lx_rest l)) l (acceptRun ds l')"
    using moved_trans [OF m' acceptRun_moved [OF ds]] p
    by (simp add: mantissa_length_def Let_def moved_fields(7) [OF m'] r(3))
qed

lemma number_length_eq:
  "number_length s =
     (let c = mantissa_length s;
          d = c + fraction_length (snd (number_prefix (drop (opt_length ''+-'' s) s))) (drop c s)
      in d + exponent_length (drop d s))"
  by (simp add: number_length_def mantissa_length_def Let_def split_beta)

lemma lexNumber_performs:
  assumes "lx_start l = lx_pos l"
  shows "performs (scan_number U (lx_rest l)) l (lexNumber U l)"
proof -
  let ?s = "lx_rest l"
  let ?n = "number_length ?s"
  obtain ds l1 where a1: "number_digits (snd (accept ''+-'' l)) = (ds, l1)"
    by (cases "number_digits (snd (accept ''+-'' l))")
  note m1 = mantissa_moved [OF a1]
  obtain dot l3 where a3: "accept ''.'' (acceptRun ds l1) = (dot, l3)" by (cases "accept ''.'' (acceptRun ds l1)")
  define l4 where "l4 = (if dot then acceptRun ds l3 else l3)"
  have m4: "moved (mantissa_length ?s + fraction_length ds (drop (mantissa_length ?s) ?s)) l l4"
    using moved_trans [OF m1(1) fraction_moved [OF m1(2) a3]]
    by (simp add: l4_def moved_fields(7) [OF m1(1)])
  obtain e l5 where a5: "accept ''eE'' l4 = (e, l5)" by (cases "accept ''eE'' l4")
  define l6 where "l6 = (if e then acceptRun decimal_digits (snd (accept ''+-'' l5)) else l5)"
  have m6: "moved ?n l l6"
    using moved_trans [OF m4 exponent_moved [OF a5]]
    by (simp add: l6_def moved_fields(7) [OF m4] number_length_eq Let_def m1(3))
  obtain r l7 where a7: "lx_peek l6 = (r, l7)" by (cases "lx_peek l6")
  have r: "r = (if drop ?n ?s = [] then None else Some (rune_of (drop ?n ?s)))"
    using lx_peek_fst [of l6] by (simp only: a7 moved_fields(7) [OF m6] fst_conv)
  have m7: "moved ?n l l7" using moved_trans [OF m6 lx_peek_moved [of l6]] a7 by simp
  have e: "lexNumber U l = (if isAlphaNumeric U r
      then lx_errorf (''invalid number syntax: '' @ Quote U (lx_text (snd (lx_next l7)))) (snd (lx_next l7))
      else (Some LexMessageText, lx_emit TkNumber l7))"
    by (simp only: lexNumber_def a1 a3 a5 a7 Let_def prod.case l4_def [symmetric]
        l6_def [symmetric]) (simp add: split_beta)
  show ?thesis
  proof (cases "isAlphaNumeric U r")
    case True
    then have ne: "drop ?n ?s \<noteq> []" by (auto simp: r isAlphaNumeric_def)
    have m8: "moved (?n + width_of (drop ?n ?s)) l (snd (lx_next l7))"
      using moved_trans [OF m7 lx_next_moved [of l7]] ne by (simp add: moved_fields(7) [OF m7])
    show ?thesis
      using True ne performs_error [OF m8] moved_text [OF m8 assms]
      by (simp add: e scan_number_def Let_def r)
  next
    case False
    then have g: "scan_number U ?s = (TkNumber, take ?n ?s, Some LexMessageText, ?n)"
      by (auto simp: scan_number_def Let_def r isAlphaNumeric_def)
    show ?thesis
      unfolding e g using False performs_delivered [OF delivered_emit(1) [OF m7 assms]] by simp
  qed
qed

lemma moved_run: "ascii_string v \<Longrightarrow> moved n l l' \<Longrightarrow>
    moved (n + run_length v (drop n (lx_rest l))) l (acceptRun v l')"
  using moved_trans [OF _ acceptRun_moved [of v l']] by (simp add: moved_fields)

lemma moved_size:
  assumes "moved n l l'" and "size_number l' = (ok, l'')"
  shows "ok = starts_in decimal_digits (drop n (lx_rest l))"
    and "moved (n + size_number_length (drop n (lx_rest l))) l l''"
  using moved_trans [OF assms(1)] size_number_moved [of l'] assms(2)
  by (simp_all add: moved_fields(7) [OF assms(1)])

lemma lexDataItemSize_performs:
  assumes "lx_start l = lx_pos l" and "starts_in ''['' (lx_rest l)"
  shows "performs (scan_size (lx_rest l)) l (lexDataItemSize l)"
proof -
  let ?s = "lx_rest l"
  obtain b0 l0 where a0: "accept ''['' l = (b0, l0)" by (cases "accept ''['' l")
  define a where "a = 1 + run_length blanks (tl ?s)"
  have m1: "moved a l (acceptRun blanks l0)"
    using moved_run [OF _ accept_result(2) [OF _ a0], of blanks] assms(2) by (simp add: a_def drop_Suc)
  obtain f1 l2 where a2: "size_number (acceptRun blanks l0) = (f1, l2)"
    by (cases "size_number (acceptRun blanks l0)")
  note r2 = moved_size [OF m1 a2]
  define b where "b = a + size_number_length (drop a ?s)"
  have m2: "moved b l l2" using r2(2) by (simp add: b_def)
  define c where "c = b + 2 + run_length blanks (drop (b + 2) ?s)"
  define dots where "dots \<longleftrightarrow> take 2 (drop b ?s) = ''..''"
  have t: "take 2 (lx_rest l2) = ''..'' \<longleftrightarrow> dots" by (simp add: dots_def moved_fields(7) [OF m2])
  have m3: "moved c l (acceptRun blanks (lx_advance 2 l2))"
    using moved_run [OF _ moved_trans [OF m2 moved_advance], of blanks 2] by (simp add: c_def)
  obtain f2 l3 where a3: "(if dots then size_number (acceptRun blanks (lx_advance 2 l2)) else (False, l2)) = (f2, l3)"
    by fastforce
  define d where "d = (if dots then c + size_number_length (drop c ?s) else b)"
  have f2: "f2 \<longleftrightarrow> dots \<and> starts_in decimal_digits (drop c ?s)" and m4: "moved d l l3"
    using moved_size [OF m3, of f2 l3] m2 a3 by (auto simp: d_def split: if_splits)
  obtain ok l4 where a4: "accept '']'' l3 = (ok, l4)" by (cases "accept '']'' l3")
  note r4 = accept_result [OF _ a4, simplified, unfolded moved_fields(7) [OF m4]]
  note m5 = moved_trans [OF m4 r4(2)]
  have e: "lexDataItemSize l = (if \<not> (ok \<and> (f1 \<or> f2)) then lx_errorf ''invalid data item size'' l4
      else (Some LexMessageText, emitSpaceRemoved TkDataItemSize l4))"
    by (simp add: lexDataItemSize_def a0 a2 t a3 a4)
  have g: "scan_size ?s = (if ok \<and> (f1 \<or> f2)
      then (TkDataItemSize, remove_spaces (take (d + 1) ?s), Some LexMessageText, d + 1)
      else (TkError, ''invalid data item size'', None, d))"
    by (simp only: scan_size_def Let_def a_def [symmetric] b_def [symmetric] c_def [symmetric]
        dots_def [symmetric] d_def [symmetric] f2 r2(1) r4(1))
  show ?thesis
  proof (cases "ok \<and> (f1 \<or> f2)")
    case True
    then have "moved (d + 1) l l4" using m5 r4(1) by simp
    from performs_delivered [OF delivered_emit(3) [OF this assms(1)]] True
    show ?thesis unfolding e g by simp
  next
    case False
    have "performs (TkError, v, None, d) l (lx_errorf v l4)" for v
      using performs_error [OF m5, of v] by (simp add: lx_errorf_def)
    with False show ?thesis unfolding e g by auto
  qed
qed

lemma lexQuotedString_performs:
  assumes "lx_start l = lx_pos l" and "starts_in [CHR 0x22] (lx_rest l)"
  shows "performs (scan_quoted (lx_rest l)) l (lexQuotedString l)"
proof -
  let ?s = "lx_rest l"
  let ?i = "index_of (\<lambda>c. c = CHR 0x22) (tl ?s)"
  obtain b l1 where a: "accept [CHR 0x22] l = (b, l1)" by (cases "accept [CHR 0x22] l")
  note r = accept_result [OF _ a, simplified]
  have m: "moved 1 l l1" and t: "lx_rest l1 = tl ?s" using r assms(2) by (simp_all add: drop_Suc)
  have m2: "moved (?i + 2) l (lx_advance (?i + 1) l1)"
    using moved_trans [OF m moved_advance [of "?i + 1"]] by simp
  show ?thesis
    using performs_delivered [OF delivered_emit(1) [OF m2 assms(1)]] performs_error [OF m]
    by (simp add: lexQuotedString_def scan_quoted_def Let_def a t)
qed

lemma lexComment_performs:
  assumes "lx_start l = lx_pos l" and "lx_lastState l = Some m" and "lx_pos l \<le> length (lx_input l)"
  shows "performs (scan_comment m (lx_rest l)) l (lexComment l)"
proof -
  let ?s = "lx_rest l"
  have m1: "moved (length ?s) l (l\<lparr>lx_pos := length (lx_input l)\<rparr>)"
    using assms(3) by (intro movedI [where w = "lx_width l"]) (simp add: lx_rest_def)
  show ?thesis
  proof (cases "length (takeWhile (\<lambda>c. c \<noteq> newline) ?s) = length ?s")
    case True
    then show ?thesis
      using performs_delivered [OF delivered_emit(1) [OF m1 assms(1)]]
      by (simp add: lexComment_def scan_comment_def)
  next
    case False
    then show ?thesis
      using performs_delivered [OF delivered_emit(1) [OF moved_advance assms(1)]] assms(2)
      by (simp add: lexComment_def scan_comment_def Let_def)
  qed
qed

lemma lex_word_performs:
  assumes "lx_start l = lx_pos l"
  shows "performs (scan_word n (lx_rest l)) l (Some LexMessageText, lex_word n l)"
proof -
  have m: "moved n l (lx_advance n l)" by simp
  have m2: "moved (n + re_indices (drop n (lx_rest l))) l
      (lx_advance (re_indices (lx_rest (lx_advance n l))) (lx_advance n l))"
    using moved_trans [OF m moved_advance] by (simp add: moved_fields(7) [OF m])
  show ?thesis
    using performs_delivered [OF delivered_emit(2) [OF m assms]]
      performs_delivered [OF delivered_emit(1) [OF m2 assms]]
    by (simp add: lex_word_def scan_word_def Let_def moved_fields(7) [OF m])
qed

section \<open>The two modes\<close>

lemma rune_of_eq:
  assumes "s \<noteq> []" and "k < 128"
  shows "rune_of s = k \<longleftrightarrow> of_char (hd s) = k"
  using assms rune_of_high [of "hd s" "tl s"]
  by (cases "of_char (hd s) < (128::nat)"; cases s) (auto simp: rune_of_ascii)

lemma hd_rune:
  assumes "s \<noteq> []" and "of_char c < (128 :: nat)"
  shows "hd s = c \<longleftrightarrow> rune_of s = of_char c"
  using rune_of_eq [OF assms] by simp

lemma plain_space_blanks: "s \<noteq> [] \<Longrightarrow> plain_space (rune_of s) \<longleftrightarrow> starts_in blanks s"
  by (simp add: plain_space_def starts_in_def blanks_def newline_def hd_rune)

lemma rune_digit_hd: "s \<noteq> [] \<Longrightarrow> rune_digit (Some (rune_of s)) \<longleftrightarrow> is_digit (hd s)"
  using rune_of_high [of "hd s" "tl s"]
  by (cases "of_char (hd s) < (128::nat)"; cases s) (auto simp: rune_digit_def is_digit_def rune_of_ascii)

text \<open>No token starts with a blank.\<close>

lemma blank_start:
  assumes "starts_in blanks s"
  shows "re_stream_function s = None" and "re_wait_bit s = None" and "re_direction s = None"
    and "re_ellipsis s = None" and "re_name s = None" and "take 2 s \<noteq> ''//''" and "\<not> number_start s"
proof -
  obtain c r where s: "s = c # r" and c: "c = CHR '' '' \<or> c = CHR 0x09 \<or> c = CHR 0x0D \<or> c = CHR 0x0A"
    using assms by (cases s) (auto simp: starts_in_def blanks_def newline_def)
  show "re_stream_function s = None" "re_wait_bit s = None" "re_direction s = None"
    "re_ellipsis s = None" "re_name s = None" "take 2 s \<noteq> ''//''" "\<not> number_start s"
    using c unfolding s
    by (auto simp: re_stream_function_def re_wait_bit_def re_direction_def re_ellipsis_def
        re_name_def upper_char_def ToUpper_def is_letter_def number_start_def is_digit_def take_Cons'
        split: list.split)
qed

text \<open>A single ASCII character as a token.\<close>

lemma one_char:
  assumes "s \<noteq> []" and "hd s = c" and "of_char c < (128 :: nat)"
  shows "take 1 s = [c]" and "width_of s = 1" and "rune_of s = of_char c"
  using assms by (cases s; simp add: rune_of_ascii)+

lemma emit_one_char:
  assumes "lx_start l = lx_pos l" and "lx_rest l \<noteq> []" and "hd (lx_rest l) = c"
    and "of_char c < (128 :: nat)" and "moved 0 (snd (lx_next l)) l'"
  shows "performs (t, [c], Some m, 1) l (Some m, lx_emit t l')"
proof -
  note o = one_char [OF assms(2,3,4)]
  have "moved 1 l l'"
    using moved_trans [OF lx_next_moved [OF assms(2)] assms(5)] by (simp add: o(2))
  from performs_delivered [OF delivered_emit(1) [OF this assms(1)]] show ?thesis by (simp only: o(1))
qed

lemma lexMessageHeader_performs:
  assumes "lx_start l = lx_pos l" and "\<not> starts_in blanks (lx_rest l)"
  shows "lx_rest l = [] \<Longrightarrow> \<exists>l'. lexMessageHeader l = (Some LexEOF, l') \<and> moved 0 l l'"
    and "take 2 (lx_rest l) = ''//'' \<Longrightarrow> lexMessageHeader l = (Some LexComment, l)"
    and "lx_rest l \<noteq> [] \<Longrightarrow> take 2 (lx_rest l) \<noteq> ''//'' \<Longrightarrow>
           performs (scan_header (lx_rest l)) l (lexMessageHeader l)"
proof -
  let ?s = "lx_rest l"
  show "\<exists>l'. lexMessageHeader l = (Some LexEOF, l') \<and> moved 0 l l'" if "?s = []"
    using that lx_next_Nil [OF that]
    by (subst lexMessageHeader.simps)
      (simp add: re_stream_function_def re_wait_bit_def re_direction_def ToUpper_def)
  show "lexMessageHeader l = (Some LexComment, l)" if "take 2 ?s = ''//''"
    using that by (subst lexMessageHeader.simps) simp
  assume ne: "?s \<noteq> []" and nc: "take 2 ?s \<noteq> ''//''"
  note adv = performs_delivered [OF delivered_emit(2) [OF moved_advance assms(1)]]
  have nb: "\<not> plain_space (rune_of ?s)" using assms(2) ne by (simp add: plain_space_blanks)
  obtain l1 where n: "lx_next l = (Some (rune_of ?s), l1)" using lx_next_Cons [OF ne] by simp
  have m1: "moved (width_of ?s) l l1" using lx_next_moved [OF ne] n by simp
  have m2: "moved (width_of ?s + name_run (drop (width_of ?s) ?s)) l (scan_name l1)"
    using moved_trans [OF m1 scan_name_moved] by (simp add: moved_fields(7) [OF m1])
  note one = emit_one_char [OF assms(1) ne, of _ l1, simplified n snd_conv, OF _ _ moved_refl]
  consider (sf) k where "re_stream_function ?s = Some k"
    | (wb) k where "re_stream_function ?s = None" "re_wait_bit ?s = Some k"
    | (di) k where "re_stream_function ?s = None" "re_wait_bit ?s = None" "re_direction ?s = Some k"
    | (no) "re_stream_function ?s = None" "re_wait_bit ?s = None" "re_direction ?s = None" by fastforce
  then show "performs (scan_header ?s) l (lexMessageHeader l)"
  proof cases
    case no
    then have e: "lexMessageHeader l =
        (if rune_of ?s = 46 then (Some LexMessageHeader, lx_emit TkMessageEnd l1)
         else if rune_of ?s = 60 then (Some LexMessageText, lx_emit TkLeftAngleBracket l1)
         else (Some LexMessageHeader, lx_emit TkMessageName (scan_name l1)))"
      using nc nb by (subst lexMessageHeader.simps) (simp add: n)
    consider "hd ?s = CHR ''.''" | "hd ?s = CHR ''<''" | "hd ?s \<noteq> CHR ''.''" "hd ?s \<noteq> CHR ''<''" by blast
    then show ?thesis
    proof cases
      case 1
      then show ?thesis using e one [OF 1] no nc ne hd_rune [OF ne, of "CHR ''.''"]
        by (simp add: scan_header_def del: performs.simps)
    next
      case 2
      then show ?thesis using e one [OF 2] no nc ne hd_rune [OF ne, of "CHR ''<''"]
        by (simp add: scan_header_def del: performs.simps)
    next
      case 3
      then show ?thesis
        using e no nc ne performs_delivered [OF delivered_emit(1) [OF m2 assms(1)]]
          hd_rune [OF ne, of "CHR ''.''"] hd_rune [OF ne, of "CHR ''<''"]
        by (simp add: scan_header_def Let_def del: performs.simps)
    qed
  qed (use ne nc adv in \<open>subst lexMessageHeader.simps, simp add: scan_header_def\<close>)+
qed

lemma sub_performs:
  assumes "performs r l' x" and "moved 0 l l'"
  shows "performs r l x"
  using assms by (cases r; cases x) (auto simp: moved_fields mk_token_moved)

text \<open>After a dot, a digit is looked for and the dot is left for the number.\<close>

lemma peek_digit:
  assumes "lx_next l = (Some (rune_of (lx_rest l)), l1)" and "rune_of (lx_rest l) = 46"
  shows "rune_digit (fst (lx_peek l1)) \<longleftrightarrow> tl (lx_rest l) \<noteq> [] \<and> is_digit (hd (tl (lx_rest l)))"
    and "rune_digit (fst (lx_peek l1)) \<Longrightarrow> moved 0 l (lx_backup (snd (lx_peek l1)))"
proof -
  have ne: "lx_rest l \<noteq> []" using assms(1) lx_next_Nil [of l] by auto
  have "of_char (hd (lx_rest l)) = (46::nat)" using rune_of_eq [OF ne, of 46] assms(2) by simp
  then have w: "width_of (lx_rest l) = 1" using one_char(2) [OF ne refl] by simp
  have m1: "moved 1 l l1" using lx_next_moved [OF ne] assms(1) w by simp
  have r1: "lx_rest l1 = tl (lx_rest l)" by (simp add: moved_fields(7) [OF m1] drop_Suc)
  show d: "rune_digit (fst (lx_peek l1)) \<longleftrightarrow> tl (lx_rest l) \<noteq> [] \<and> is_digit (hd (tl (lx_rest l)))"
    using rune_digit_hd [of "tl (lx_rest l)"]
    by (cases "tl (lx_rest l) = []") (simp_all add: lx_peek_fst r1, simp add: rune_digit_def)
  assume "rune_digit (fst (lx_peek l1))"
  with d have t: "tl (lx_rest l) \<noteq> []" and dig: "is_digit (hd (tl (lx_rest l)))" by auto
  from dig have "of_char (hd (tl (lx_rest l))) < (128::nat)" by (simp add: is_digit_def)
  then have "width_of (tl (lx_rest l)) = 1" by (rule one_char(2) [OF t refl])
  then have "lx_backup (snd (lx_peek l1)) = l1\<lparr>lx_width := 1, lx_pos := lx_pos l1 - 1\<rparr>"
    using t by (simp add: lx_peek_def lx_next_Cons r1 lx_backup_def)
  then show "moved 0 l (lx_backup (snd (lx_peek l1)))" using m1 by (auto simp: moved_def)
qed

text \<open>In the message text three state functions take over; \<open>text_sub s\<close> names the one for \<open>s\<close>.\<close>

definition text_sub :: "string \<Rightarrow> stateFn option" where
  "text_sub s =
     (if s = [] then Some LexEOF
      else if take 2 s = ''//'' then Some LexComment
      else if re_ellipsis s \<noteq> None \<or> re_name s \<noteq> None then None
      else if number_start s then Some LexNumber
      else if hd s = CHR ''['' then Some LexDataItemSize
      else if hd s = CHR 0x22 then Some LexQuotedString
      else None)"

lemma lexMessageText_performs:
  assumes "lx_start l = lx_pos l" and "\<not> starts_in blanks (lx_rest l)"
  shows "text_sub (lx_rest l) = Some f \<Longrightarrow> \<exists>l'. lexMessageText U l = (Some f, l') \<and> moved 0 l l'"
    and "text_sub (lx_rest l) = None \<Longrightarrow> performs (scan_text U (lx_rest l)) l (lexMessageText U l)"
proof -
  let ?s = "lx_rest l"
  have "(\<forall>f. text_sub ?s = Some f \<longrightarrow> (\<exists>l'. lexMessageText U l = (Some f, l') \<and> moved 0 l l'))
      \<and> (text_sub ?s = None \<longrightarrow> performs (scan_text U ?s) l (lexMessageText U l))"
  proof (cases "?s = [] \<or> take 2 ?s = ''//'' \<or> re_ellipsis ?s \<noteq> None \<or> re_name ?s \<noteq> None")
    case True
    then show ?thesis
      using lx_next_Nil [of l] performs_delivered [OF delivered_emit(1) [OF moved_advance assms(1)]]
        lex_word_performs [OF assms(1)]
      by (subst (1 2) lexMessageText.simps)
        (auto simp: text_sub_def scan_text_def re_ellipsis_def re_name_def split: option.splits)
  next
    case False
    then have ne: "?s \<noteq> []" and nc: "take 2 ?s \<noteq> ''//''" and nn: "re_ellipsis ?s = None" "re_name ?s = None"
      by auto
    have nb: "\<not> plain_space (rune_of ?s)" using assms(2) ne by (simp add: plain_space_blanks)
    obtain l1 where n: "lx_next l = (Some (rune_of ?s), l1)" using lx_next_Cons [OF ne] by simp
    have m1: "moved (width_of ?s) l l1" using lx_next_moved [OF ne] n by simp
    define num where "num \<longleftrightarrow> rune_of ?s = 43 \<or> rune_of ?s = 45 \<or> rune_digit (Some (rune_of ?s))
      \<or> (rune_of ?s = 46 \<and> rune_digit (fst (lx_peek l1)))"
    have e: "lexMessageText U l =
       (if num then (Some LexNumber, lx_backup (if rune_of ?s = 46 then snd (lx_peek l1) else l1))
        else if rune_of ?s = 60 then (Some LexMessageText, lx_emit TkLeftAngleBracket l1)
        else if rune_of ?s = 62 then (Some LexMessageText, lx_emit TkRightAngleBracket l1)
        else if rune_of ?s = 46 then (Some LexMessageHeader, lx_emit TkMessageEnd (snd (lx_peek l1)))
        else if rune_of ?s = 91 then (Some LexDataItemSize, lx_backup l1)
        else if rune_of ?s = 34 then (Some LexQuotedString, lx_backup l1)
        else lx_errorf (''unexpected character in data item: '' @ fmt_unicode U (rune_of ?s)) l1)"
      using nc nn nb by (subst lexMessageText.simps) (simp add: n num_def)
    note one = emit_one_char [OF assms(1) ne, unfolded n snd_conv]
    have bk: "moved 0 l (lx_backup l1)" using lx_next_backup [of l] n by simp
    note h = hd_rune [OF ne]
    have num: "num \<longleftrightarrow> number_start ?s"
      using peek_digit [OF n] ne h by (auto simp: num_def number_start_def rune_digit_hd)
    have bk2: "moved 0 l (lx_backup (snd (lx_peek l1)))" if "num" and "rune_of ?s = 46"
      using peek_digit [OF n] that ne by (auto simp: num_def rune_digit_def)
    show ?thesis
    proof (cases num)
      case True
      then show ?thesis using bk bk2 num nc ne nn e by (simp add: text_sub_def del: performs.simps)
    next
      case nonum: False
      consider (lt) "hd ?s = CHR ''<''" | (gt) "hd ?s = CHR ''>''" | (dot) "hd ?s = CHR ''.''"
        | (size) "hd ?s = CHR ''[''" | (quote) "hd ?s = CHR 0x22"
        | (bad) "hd ?s \<notin> {CHR ''<'', CHR ''>'', CHR ''.'', CHR ''['', CHR 0x22}" by blast
      then show ?thesis
      proof cases
        case bad
        then show ?thesis using nonum num nc ne nn e performs_error [OF m1] h
          by (simp add: text_sub_def scan_text_def lx_errorf_def)
      qed (use nonum num nc ne nn e one [OF _ _ moved_refl] one [OF _ _ lx_peek_moved] bk h in
          \<open>simp add: text_sub_def scan_text_def del: performs.simps\<close>)+
    qed
  qed
  then show "text_sub ?s = Some f \<Longrightarrow> \<exists>l'. lexMessageText U l = (Some f, l') \<and> moved 0 l l'"
    and "text_sub ?s = None \<Longrightarrow> performs (scan_text U ?s) l (lexMessageText U l)" by blast+
qed

end
