(* ===== verification/Sml_Tokens.thy ===== *)
theory Sml_Tokens
  imports Sml_Scan
begin

text \<open>
  \<open>nextToken\<close> is the reference scanner after the blanks (theorem \<open>nextToken_scan\<close>), every token takes
  at least one byte of the input, and \<open>scan_all\<close> lists the tokens of a whole input. \<open>delivers U l ts\<close>
  says that \<open>ts\<close> is what the lexer \<open>l\<close> will still deliver.
\<close>

section \<open>Blanks\<close>

lemma one_blank:
  assumes "starts_in blanks (lx_rest l)"
  obtains l' where "lexMessageHeader l = lexMessageHeader l'"
    and "\<And>U. lexMessageText U l = lexMessageText U l'"
    and "lx_start l' = lx_pos l'" and "lx_pos l' = lx_pos l + 1" and "lx_input l' = lx_input l"
    and "lx_lastState l' = lx_lastState l" and "lx_tokens l' = lx_tokens l"
proof -
  let ?s = "lx_rest l"
  have ne: "?s \<noteq> []" using assms by (auto simp: starts_in_def)
  obtain l1 where n: "lx_next l = (Some (rune_of ?s), l1)" using lx_next_Cons [OF ne] by simp
  have m: "moved 1 l l1"
    using lx_next_moved [OF ne] width_of_valid [of blanks ?s] assms n by simp
  have p: "plain_space (rune_of ?s)" using assms ne by (simp add: plain_space_blanks)
  then have nd: "\<not> rune_digit (Some (rune_of ?s))" "rune_of ?s \<notin> {43, 45, 46, 60, 62, 91, 34}"
    by (auto simp: plain_space_def rune_digit_def)
  show thesis
  proof (rule that [of "lx_ignore l1"])
    show "lexMessageHeader l = lexMessageHeader (lx_ignore l1)"
      using blank_start [OF assms] p by (subst lexMessageHeader.simps) (simp add: n)
    show "lexMessageText U l = lexMessageText U (lx_ignore l1)" for U
      using blank_start [OF assms] p nd by (subst lexMessageText.simps) (simp add: n)
  qed (simp_all add: lx_ignore_def moved_fields [OF m])
qed

text \<open>\<open>l\<close> with the blanks skipped.\<close>

definition skipped :: "nat \<Rightarrow> lexer \<Rightarrow> lexer \<Rightarrow> bool" where
  "skipped k l l' \<longleftrightarrow> lx_start l' = lx_pos l + k \<and> lx_pos l' = lx_pos l + k
     \<and> lx_input l' = lx_input l \<and> lx_lastState l' = lx_lastState l \<and> lx_tokens l' = lx_tokens l"

lemma skip_blanks:
  assumes "lx_start l = lx_pos l"
  shows "\<exists>l'. lexMessageHeader l = lexMessageHeader l' \<and> (\<forall>U. lexMessageText U l = lexMessageText U l')
           \<and> skipped (run_length blanks (lx_rest l)) l l'"
  using assms
proof (induction "run_length blanks (lx_rest l)" arbitrary: l)
  case 0
  then show ?case by (intro exI [of _ l]) (simp add: skipped_def)
next
  case (Suc k)
  have b: "starts_in blanks (lx_rest l)"
    using Suc(2) by (cases "lx_rest l") (auto simp: run_length_def starts_in_def split: if_splits)
  obtain l1 where h: "lexMessageHeader l = lexMessageHeader l1"
    and t: "\<And>U. lexMessageText U l = lexMessageText U l1" and p: "lx_start l1 = lx_pos l1"
      "lx_pos l1 = lx_pos l + 1" "lx_input l1 = lx_input l" "lx_lastState l1 = lx_lastState l"
      "lx_tokens l1 = lx_tokens l"
    using one_blank [OF b] by blast
  have "lx_rest l1 = tl (lx_rest l)" by (simp add: lx_rest_def p tl_drop drop_Suc)
  then have "k = run_length blanks (lx_rest l1)" using Suc(2) run_length_step [OF b] by simp
  from Suc(1) [OF this p(1)] obtain l' where l': "lexMessageHeader l1 = lexMessageHeader l'"
    "\<forall>U. lexMessageText U l1 = lexMessageText U l'" "skipped (run_length blanks (lx_rest l1)) l1 l'" by blast
  have "skipped (run_length blanks (lx_rest l)) l l'"
    using l'(3) \<open>k = _\<close> Suc(2) p by (auto simp: skipped_def)
  with h t l' show ?case by auto
qed

lemma after_blanks: "\<not> starts_in blanks (drop (run_length blanks s) s)"
  unfolding run_length_def starts_in_def dropWhile_eq_drop [symmetric]
  by (metis hd_dropWhile)

section \<open>The lexer is the reference scanner\<close>

text \<open>Between two calls of \<open>nextToken\<close>: the machine is in one of three states, no token is waiting,
  and \<open>s\<close> is what remains of the input.\<close>

definition at_token :: "stateFn \<Rightarrow> string \<Rightarrow> lexer \<Rightarrow> bool" where
  "at_token m s l \<longleftrightarrow> (m = LexMessageHeader \<or> m = LexMessageText \<or> m = LexEOF)
     \<and> lx_state l = Some m \<and> lx_tokens l = [] \<and> lx_start l = lx_pos l
     \<and> lx_pos l \<le> length (lx_input l) \<and> lx_rest l = s"

definition blank_length :: "stateFn \<Rightarrow> string \<Rightarrow> nat" where
  "blank_length m s = (if m = LexEOF then 0 else run_length blanks s)"

text \<open>Line and column of the byte after \<open>pre\<close>.\<close>

definition position :: "string \<Rightarrow> nat \<times> nat" where
  "position pre =
     (1 + count_list pre newline,
      1 + length (runes (drop (length pre - length (takeWhile (\<lambda>c. c \<noteq> newline) (rev pre))) pre)))"

definition token_at :: "tokenType \<Rightarrow> string \<Rightarrow> string \<Rightarrow> token" where
  "token_at t v pre = \<lparr>tk_typ = t, tk_val = v, tk_line = fst (position pre), tk_col = snd (position pre)\<rparr>"

definition arrives :: "stateFn option \<Rightarrow> string \<Rightarrow> lexer \<Rightarrow> bool" where
  "arrives m s l = (case m of
      None \<Rightarrow> lx_state l = None \<and> lx_tokens l = []
    | Some m' \<Rightarrow> at_token m' s l)"

lemma mk_token_position: "mk_token t v l = token_at t v (take (lx_start l) (lx_input l))"
  by (simp add: mk_token_def token_at_def lineColumn_def position_def Let_def)

lemma nextToken_emit:
  assumes "lx_state l = Some f" and "lx_tokens l = []"
    and "run_state U f l = (m, l1)" and "lx_tokens l1 = [t]"
  shows "nextToken U l = (t, l1\<lparr>lx_lastState := Some f, lx_state := m, lx_tokens := []\<rparr>)"
  using assms by (subst nextToken.simps, subst nextToken.simps) (simp add: lx_step_def)

lemma nextToken_sub:
  assumes "lx_state l = Some f" and "lx_tokens l = []"
    and "run_state U f l = (m, l1)" and "lx_tokens l1 = []"
  shows "nextToken U l = nextToken U (l1\<lparr>lx_lastState := Some f, lx_state := m\<rparr>)"
  using assms by (subst nextToken.simps) (simp add: lx_step_def)

lemma nextToken_performs:
  assumes st: "lx_state l = Some f" and tk: "lx_tokens l = []"
    and r: "performs (t, v, m, n) l0 (run_state U f l)"
    and l0: "lx_tokens l0 = []" "lx_start l0 = lx_pos l0" "lx_input l0 = lx_input l"
    and len: "m \<noteq> None \<Longrightarrow> lx_pos l0 + n \<le> length (lx_input l)"
    and m: "m = None \<or> m = Some LexMessageHeader \<or> m = Some LexMessageText \<or> m = Some LexEOF"
  shows "\<exists>l'. nextToken U l = (token_at t v (take (lx_pos l0) (lx_input l)), l')
    \<and> arrives m (drop n (lx_rest l0)) l' \<and> lx_input l' = lx_input l"
proof -
  obtain l1 where e: "run_state U f l = (m, l1)" and i: "lx_input l1 = lx_input l"
    and t: "lx_tokens l1 = [mk_token t v l0]"
    and p: "m \<noteq> None \<Longrightarrow> lx_pos l1 = lx_pos l0 + n \<and> lx_start l1 = lx_pos l0 + n"
    using r l0 by (cases "run_state U f l") auto
  have "arrives m (drop n (lx_rest l0)) (l1\<lparr>lx_lastState := Some f, lx_state := m, lx_tokens := []\<rparr>)"
    using p i len m by (cases m) (auto simp: arrives_def at_token_def lx_rest_def l0 add.commute)
  then show ?thesis
    using nextToken_emit [OF st tk e t] i by (simp add: mk_token_position l0)
qed

subsection \<open>How much a token takes\<close>

lemma run_length_le: "run_length v s \<le> length s"
  by (simp add: run_length_def length_takeWhile_le)

lemma run_length_drop: "n \<le> length s \<Longrightarrow> n + run_length v (drop n s) \<le> length s"
  using run_length_le [of v "drop n s"] by simp

lemma opt_length_drop: "n \<le> length s \<Longrightarrow> n + opt_length v (drop n s) \<le> length s"
  by (cases "n = length s") (auto simp: opt_length_def starts_in_def)

lemma name_run_le: "name_run s \<le> length s"
proof (induction s rule: name_run.induct)
  case (1 s)
  then show ?case
    using width_of_length [of s] by (subst name_run.simps) (auto simp: le_diff_conv2)
qed

lemma number_prefix_le: "fst (number_prefix s) \<le> length s"
  by (cases s; cases "tl s") (auto simp: number_prefix_def starts_in_def)

lemma fraction_length_le: "fraction_length ds s \<le> length s"
  using run_length_le [of ds "tl s"] by (cases s) (auto simp: fraction_length_def starts_in_def)

lemma exponent_length_le: "exponent_length s \<le> length s"
proof (cases "starts_in ''eE'' s")
  case True
  then obtain c r where s: "s = c # r" by (cases s) (auto simp: starts_in_def)
  have "opt_length ''+-'' r \<le> length r" using opt_length_drop [of 0 r] by simp
  from run_length_drop [OF this, of decimal_digits] show ?thesis by (simp add: exponent_length_def s)
qed (simp add: exponent_length_def)

lemma number_length_le: "number_length s \<le> length s"
proof -
  let ?a = "opt_length ''+-'' s"
  obtain b ds where p: "number_prefix (drop ?a s) = (b, ds)" by (cases "number_prefix (drop ?a s)")
  have a: "?a \<le> length s" using opt_length_drop [of 0 s] by simp
  then have "?a + b \<le> length s" using number_prefix_le [of "drop ?a s"] p by simp
  note c = run_length_drop [OF this, of ds]
  let ?c = "?a + b + run_length ds (drop (?a + b) s)"
  have d: "?c + fraction_length ds (drop ?c s) \<le> length s"
    using fraction_length_le [of ds "drop ?c s"] c by simp
  let ?d = "?c + fraction_length ds (drop ?c s)"
  show ?thesis using exponent_length_le [of "drop ?d s"] d by (simp add: number_length_def p Let_def)
qed

lemma digit_decimal: "is_digit c \<Longrightarrow> c \<in> set decimal_digits"
proof -
  assume "is_digit c"
  then have "of_char c \<in> {48..<58 :: nat}" by (simp add: is_digit_def)
  also have "{48..<58 :: nat} = set [48..<58]" by (rule atLeastLessThan_upt)
  also have "[48..<58 :: nat] = map of_char decimal_digits" by code_simp
  finally have "(of_char c :: nat) \<in> of_char ` set decimal_digits" by simp
  then show ?thesis by (auto simp: of_char_eq_iff)
qed

lemma number_length_pos:
  assumes "number_start s" and "s \<noteq> []"
  shows "0 < number_length s"
proof (cases "opt_length ''+-'' s")
  case 0
  obtain c r where s: "s = c # r" using assms(2) by (cases s) auto
  have na: "c \<noteq> CHR ''+''" "c \<noteq> CHR ''-''" using 0 by (auto simp: s opt_length_def starts_in_def split: if_splits)
  obtain b ds where p: "number_prefix s = (b, ds)" by (cases "number_prefix s")
  show ?thesis
  proof (cases "is_digit c")
    case True
    then have "0 < b \<or> 0 < run_length ds s"
      using p digit_decimal [OF True] by (auto simp: number_prefix_def run_length_def s starts_in_def split: if_splits)
    then show ?thesis by (auto simp: number_length_def 0 p Let_def)
  next
    case False
    then have c: "c = CHR ''.''" using assms(1) na by (simp add: number_start_def s)
    then have b: "b = 0" "ds = decimal_digits" using p by (simp_all add: number_prefix_def s starts_in_def)
    have "run_length decimal_digits s = 0" by (simp add: s c run_length_def decimal_digits_def)
    moreover have "0 < fraction_length decimal_digits s" by (simp add: s c fraction_length_def starts_in_def)
    ultimately show ?thesis by (simp add: number_length_def 0 p b Let_def)
  qed
qed (simp add: number_length_def Let_def split_beta)

lemma re_stream_function_length: "re_stream_function s = Some n \<Longrightarrow> 0 < n \<and> n \<le> length s"
proof -
  assume e: "re_stream_function s = Some n"
  then obtain c r d r' where s: "s = c # r" and d: "dropWhile is_digit r = d # r'"
    and n: "n = 2 + length (takeWhile is_digit r) + length (takeWhile is_digit r')"
    by (auto simp: re_stream_function_def split: list.splits if_splits)
  have "length r = length (takeWhile is_digit r) + length (dropWhile is_digit r)"
    by (metis length_append takeWhile_dropWhile_id)
  moreover have "length (takeWhile is_digit r') \<le> length r'" by (rule length_takeWhile_le)
  ultimately show ?thesis using s d n by simp
qed

lemma ToUpper_length: "ToUpper (take k s) = t \<Longrightarrow> length t = k \<Longrightarrow> k \<le> length s"
  by (auto simp: ToUpper_def)

lemma re_wait_bit_length: "re_wait_bit s = Some n \<Longrightarrow> 0 < n \<and> n \<le> length s"
  by (auto simp: re_wait_bit_def split: if_splits dest: ToUpper_length)

lemma re_direction_length: "re_direction s = Some n \<Longrightarrow> 0 < n \<and> n \<le> length s"
  by (auto simp: re_direction_def split: if_splits dest: ToUpper_length)

lemma re_ellipsis_length: "re_ellipsis s = Some n \<Longrightarrow> 0 < n \<and> n \<le> length s"
proof -
  assume e: "re_ellipsis s = Some n"
  then have t: "take 3 s = ''...''" by (simp add: re_ellipsis_def split: if_splits)
  then have "length (take 3 s) = 3" by simp
  then have l: "3 \<le> length s" by simp
  show ?thesis
  proof (cases "one_index (drop 3 s)")
    case None
    then show ?thesis using e t l by (simp add: re_ellipsis_def)
  next
    case (Some r)
    then have "length r < length s" using one_index_shorter by fastforce
    then show ?thesis using e t Some by (auto simp: re_ellipsis_def)
  qed
qed

lemma re_name_length: "re_name s = Some n \<Longrightarrow> 0 < n \<and> n \<le> length s"
  by (auto simp: re_name_def length_takeWhile_le split: list.splits if_splits)

lemma re_indices_le: "re_indices s \<le> length s"
proof (induction s rule: re_indices.induct)
  case (1 s)
  then show ?case
    using one_index_shorter [of s] by (subst re_indices.simps) (fastforce split: option.split)
qed

lemma trim_end_le: "trim_end s i \<le> i"
  by (induction i) auto

lemma trim_end_gt: "k < i \<Longrightarrow> \<not> rune_is_space (of_char (s ! k)) \<Longrightarrow> k < trim_end s i"
  by (induction i) (auto simp: less_Suc_eq)

lemma comment_start: "take 2 s = ''//'' \<Longrightarrow> s \<noteq> [] \<and> s ! 0 = CHR ''/'' \<and> 1 < length (takeWhile (\<lambda>c. c \<noteq> newline) s)"
  by (cases s; cases "tl s") (auto simp: newline_def)

lemma scan_comment_length:
  assumes "take 2 s = ''//''" and "scan_comment m s = (t, v, m', n)"
  shows "0 < n \<and> n \<le> length s \<and> t = TkComment \<and> (m' = Some m \<or> m' = Some LexEOF)"
proof -
  let ?i = "length (takeWhile (\<lambda>c. c \<noteq> newline) s)"
  have i: "?i \<le> length s" by (rule length_takeWhile_le)
  have "0 < trim_end s ?i" using comment_start [OF assms(1)] by (intro trim_end_gt) (auto simp: rune_is_space_def)
  then show ?thesis using assms(2) i trim_end_le [of s ?i] comment_start [OF assms(1)]
    by (auto simp: scan_comment_def Let_def split: if_splits)
qed

lemma size_number_length_drop: "n \<le> length s \<Longrightarrow> n + size_number_length (drop n s) \<le> length s"
proof -
  assume n: "n \<le> length s"
  let ?r = "run_length decimal_digits (drop n s)"
  have "n + ?r \<le> length s" by (rule run_length_drop [OF n])
  from run_length_drop [OF this, of blanks] n show ?thesis
    by (simp add: size_number_length_def add.commute add.left_commute)
qed

lemma scan_size_length: "scan_size s = (t, v, Some m, n) \<Longrightarrow> 0 < n \<and> n \<le> length s \<and> t = TkDataItemSize \<and> m = LexMessageText"
proof -
  have "starts_in v (drop d s) \<Longrightarrow> d + 1 \<le> length s" for v d by (auto simp: starts_in_def)
  then show "scan_size s = (t, v, Some m, n) \<Longrightarrow> ?thesis"
    by (auto simp: scan_size_def Let_def split: if_splits)
qed

lemma scan_quoted_length:
  "s \<noteq> [] \<Longrightarrow> scan_quoted s = (t, v, Some m, n) \<Longrightarrow> 0 < n \<and> n \<le> length s \<and> t = TkQuotedString \<and> m = LexMessageText"
  using length_takeWhile_le [of "\<lambda>c. c \<noteq> CHR 0x22" "tl s"]
  by (auto simp: scan_quoted_def Let_def index_of_def split: if_splits)

lemma scan_stops:
  "scan_size s = (t, v, None, n) \<Longrightarrow> t = TkError" "scan_quoted s = (t, v, None, n) \<Longrightarrow> t = TkError"
  by (auto simp: scan_size_def scan_quoted_def Let_def split: if_splits)

lemma scan_comment_mode:
  "take 2 s = ''//'' \<Longrightarrow> scan_header s = scan_comment LexMessageHeader s"
  "take 2 s = ''//'' \<Longrightarrow> scan_text U s = scan_comment LexMessageText s"
  by (auto simp: scan_header_def scan_text_def)

definition token_modes :: "stateFn option set" where
  "token_modes = {None, Some LexMessageHeader, Some LexMessageText, Some LexEOF}"

lemma token_modes_simps [simp]:
  "None \<in> token_modes" "Some LexMessageHeader \<in> token_modes" "Some LexMessageText \<in> token_modes"
  "Some LexEOF \<in> token_modes"
  by (simp_all add: token_modes_def)

text \<open>A token that lets the lexer go on takes at least one byte, and no more than there are.\<close>

lemma scan_header_length:
  assumes "scan_header s = (t, v, m, n)"
  shows "m \<in> token_modes \<and> (m \<noteq> None \<longrightarrow> 0 < n \<and> n \<le> length s \<and> t \<noteq> TkEOF \<and> t \<noteq> TkError)
    \<and> (m = None \<longrightarrow> t = TkEOF \<or> t = TkError)"
proof (cases "s = [] \<or> take 2 s = ''//''")
  case True
  then show ?thesis
    using assms scan_comment_length [of s LexMessageHeader t v m n] scan_comment_mode(1) [of s]
    by (auto simp: scan_header_def [of "[]"])
next
  case False
  then have "width_of s + name_run (drop (width_of s) s) \<le> length s"
    using width_of_length [of s] name_run_le [of "drop (width_of s) s"] by simp
  then show ?thesis
    using assms False width_of_pos [of s]
    by (auto simp: scan_header_def Let_def Suc_le_eq split: option.splits if_splits
        dest: re_stream_function_length re_wait_bit_length re_direction_length)
qed

lemma scan_word_length:
  assumes "scan_word k s = (t, v, m, n)" and "0 < k" and "k \<le> length s"
  shows "m = Some LexMessageText \<and> 0 < n \<and> n \<le> length s \<and> t \<noteq> TkEOF \<and> t \<noteq> TkError"
  using assms re_indices_le [of "drop k s"] by (auto simp: scan_word_def Let_def split: if_splits)

lemma scan_text_length:
  assumes "scan_text U s = (t, v, m, n)"
  shows "m \<in> token_modes \<and> (m \<noteq> None \<longrightarrow> 0 < n \<and> n \<le> length s \<and> t \<noteq> TkEOF \<and> t \<noteq> TkError)
    \<and> (m = None \<longrightarrow> t = TkEOF \<or> t = TkError)"
proof (cases "s = [] \<or> take 2 s = ''//''")
  case True
  then show ?thesis
    using assms scan_comment_length [of s LexMessageText t v m n] scan_comment_mode(2) [of s U]
    by (auto simp: scan_text_def [of U "[]"])
next
  case False
  then have ne: "s \<noteq> []" by simp
  consider (el) k where "re_ellipsis s = Some k" | (na) k where "re_ellipsis s = None" "re_name s = Some k"
    | (no) "re_ellipsis s = None" "re_name s = None" by fastforce
  then show ?thesis
  proof cases
    case el
    then show ?thesis using assms False re_ellipsis_length [OF el] by (auto simp: scan_text_def)
  next
    case na
    then have "scan_word k s = (t, v, m, n)" using assms False by (simp add: scan_text_def)
    from scan_word_length [OF this] re_name_length [OF na(2)] show ?thesis by auto
  next
    case no
    show ?thesis
    proof (cases "number_start s")
      case True
      then show ?thesis using False no assms number_length_pos [OF True ne] number_length_le [of s]
        by (auto simp: scan_text_def scan_number_def Let_def split: if_splits)
    next
      case nonum: False
      show ?thesis
        using False no nonum assms scan_size_length [of s t v _ n] scan_quoted_length [OF ne, of t v _ n]
          scan_stops [of s t v n]
        by (cases m) (auto simp: scan_text_def Suc_le_eq split: if_splits)
    qed
  qed
qed

subsection \<open>The equivalence\<close>

lemma lexEOF_performs: "performs (TkEOF, ''EOF'', None, 0) l (lexEOF l)"
  by (simp add: lexEOF_def emitEOF_def lx_ignore_def lx_send_eq)

lemma rest_shift: "lx_pos x = lx_pos l + k \<Longrightarrow> lx_input x = lx_input l \<Longrightarrow> lx_rest x = drop k (lx_rest l)"
  by (simp add: lx_rest_def add.commute)

text \<open>What \<open>nextToken\<close> does from a mode with the blanks skipped: the scanner at hand is run in place,
  or the next state function is.\<close>

lemma nextToken_dispatch:
  assumes a: "at_token m s l" and k: "k = run_length blanks s"
    and r: "run_state U m l = run_state U m l1" and sk: "skipped k l l1"
    and rs: "run_state U m l1 = (Some g, l2)" and mv: "moved 0 l1 l2"
    and pf: "\<And>x. lx_start x = lx_pos x \<Longrightarrow> lx_pos x \<le> length (lx_input x) \<Longrightarrow> lx_lastState x = Some m \<Longrightarrow>
      lx_rest x = drop k s \<Longrightarrow> performs (t, v, m', n) x (run_state U g x)"
    and len: "m' \<noteq> None \<Longrightarrow> n \<le> length (drop k s)" and md: "m' \<in> token_modes"
  shows "\<exists>l'. nextToken U l = (token_at t v (take (lx_pos l + k) (lx_input l)), l')
    \<and> arrives m' (drop (k + n) s) l' \<and> lx_input l' = lx_input l"
proof -
  define x where "x = l2\<lparr>lx_lastState := Some m, lx_state := Some g\<rparr>"
  have st: "lx_state l = Some m" and tk: "lx_tokens l = []" and p: "lx_pos l \<le> length (lx_input l)"
    and s: "lx_rest l = s"
    using a by (simp_all add: at_token_def)
  have kl: "lx_pos l + k \<le> length (lx_input l)" using run_length_le [of blanks s] s p k by (auto simp: lx_rest_def)
  have x: "lx_start x = lx_pos l + k" "lx_pos x = lx_pos l + k" "lx_tokens x = []"
    "lx_input x = lx_input l" "lx_lastState x = Some m" "lx_state x = Some g"
    using sk tk by (simp_all add: x_def moved_fields [OF mv] skipped_def)
  have rx: "lx_rest x = drop k s" unfolding s [symmetric] by (rule rest_shift) (simp_all add: x)
  have "nextToken U l = nextToken U x"
    unfolding x_def using sk tk r rs mv by (intro nextToken_sub [OF st tk]) (auto simp: skipped_def moved_fields)
  moreover have "performs (t, v, m', n) x (run_state U g x)"
    using kl rx x by (intro pf) simp_all
  moreover have "lx_pos x + n \<le> length (lx_input x)" if "m' \<noteq> None"
    using len [OF that] rx kl by (simp add: x lx_rest_def s [symmetric])
  ultimately show ?thesis
    using nextToken_performs [OF x(6) x(3), of t v m' n x] md
    by (auto simp: x rx token_modes_def add.commute)
qed

lemma nextToken_direct:
  assumes a: "at_token m s l" and k: "k = run_length blanks s"
    and r: "run_state U m l = run_state U m l1" and sk: "skipped k l l1"
    and pf: "performs (t, v, m', n) l1 (run_state U m l1)"
    and len: "m' \<noteq> None \<Longrightarrow> n \<le> length (drop k s)" and md: "m' \<in> token_modes"
  shows "\<exists>l'. nextToken U l = (token_at t v (take (lx_pos l + k) (lx_input l)), l')
    \<and> arrives m' (drop (k + n) s) l' \<and> lx_input l' = lx_input l"
proof -
  have st: "lx_state l = Some m" and tk: "lx_tokens l = []" and p: "lx_pos l \<le> length (lx_input l)"
    and s: "lx_rest l = s"
    using a by (simp_all add: at_token_def)
  have kl: "lx_pos l + k \<le> length (lx_input l)" using run_length_le [of blanks s] s p k by (auto simp: lx_rest_def)
  have rx: "lx_rest l1 = drop k s"
    unfolding s [symmetric] using sk by (intro rest_shift) (simp_all add: skipped_def)
  have "lx_pos l1 + n \<le> length (lx_input l)" if "m' \<noteq> None"
    using len [OF that] kl sk by (simp add: skipped_def lx_rest_def s [symmetric])
  then show ?thesis
    using nextToken_performs [OF st tk pf [folded r]] sk tk md rx
    by (auto simp: skipped_def token_modes_def add.commute)
qed

lemma comment_performs:
  assumes "scan_comment m s = r" and "lx_start x = lx_pos x" and "lx_pos x \<le> length (lx_input x)"
    and "lx_lastState x = Some m" and "lx_rest x = s"
  shows "performs r x (lexComment x)"
  using lexComment_performs [OF assms(2,4,3)] assms(1,5) by simp

lemma nextToken_header:
  assumes a: "at_token LexMessageHeader s l" and sc: "scan_header (drop k s) = (t, v, m', n)"
    and k: "k = run_length blanks s"
  shows "\<exists>l'. nextToken U l = (token_at t v (take (lx_pos l + k) (lx_input l)), l')
    \<and> arrives m' (drop (k + n) s) l' \<and> lx_input l' = lx_input l"
proof -
  have p: "lx_start l = lx_pos l" and s: "lx_rest l = s" using a by (simp_all add: at_token_def)
  obtain l1 where r: "run_state U LexMessageHeader l = run_state U LexMessageHeader l1" and sk: "skipped k l l1"
    using skip_blanks [OF p] s k by auto
  have p1: "lx_start l1 = lx_pos l1" using sk by (simp add: skipped_def)
  have s1: "lx_rest l1 = drop k s" using rest_shift [of l1 l k] sk s by (simp add: skipped_def)
  have nb: "\<not> starts_in blanks (lx_rest l1)" using after_blanks [of s] by (simp add: s1 k)
  note md = scan_header_length [OF sc]
  note pf = lexMessageHeader_performs [OF p1 nb, unfolded s1]
  consider "drop k s = []" | "take 2 (drop k s) = ''//''" | "drop k s \<noteq> []" "take 2 (drop k s) \<noteq> ''//''" by blast
  then show ?thesis
  proof cases
    case 1
    with pf(1) obtain l2 where "run_state U LexMessageHeader l1 = (Some LexEOF, l2)" "moved 0 l1 l2" by auto
    from nextToken_dispatch [OF a k r sk this, of TkEOF "''EOF''" None 0] 1 sc show ?thesis
      by (auto simp: scan_header_def lexEOF_performs simp del: performs.simps)
  next
    case 2
    have "run_state U LexMessageHeader l1 = (Some LexComment, l1)" using pf(2) [OF 2] by simp
    from nextToken_dispatch [OF a k r sk this moved_refl, of t v m' n] show ?thesis
      using comment_performs [OF scan_comment_mode(1) [OF 2, symmetric, unfolded sc]] md by auto
  next
    case 3
    show ?thesis
      by (rule nextToken_direct [OF a k r sk]) (use pf(3) [OF 3] sc md in auto)
  qed
qed

lemma text_sub_cases:
  assumes "text_sub s = Some g"
  shows "(g = LexEOF \<and> scan_text U s = (TkEOF, ''EOF'', None, 0))
    \<or> (g = LexComment \<and> scan_text U s = scan_comment LexMessageText s)
    \<or> (g = LexNumber \<and> scan_text U s = scan_number U s)
    \<or> (g = LexDataItemSize \<and> starts_in ''['' s \<and> scan_text U s = scan_size s)
    \<or> (g = LexQuotedString \<and> starts_in [CHR 0x22] s \<and> scan_text U s = scan_quoted s)"
  using assms by (auto simp: text_sub_def scan_text_def starts_in_def split: if_splits)

lemma text_sub_performs:
  assumes "text_sub s = Some g" and "lx_start x = lx_pos x" and "lx_pos x \<le> length (lx_input x)"
    and "lx_lastState x = Some LexMessageText" and "lx_rest x = s"
  shows "performs (scan_text U s) x (run_state U g x)"
  using text_sub_cases [OF assms(1), of U]
proof (elim disjE conjE)
  assume "g = LexEOF" and e: "scan_text U s = (TkEOF, ''EOF'', None, 0)"
  then show ?thesis unfolding e using lexEOF_performs [of x] by simp
next
  assume "g = LexComment" and e: "scan_text U s = scan_comment LexMessageText s"
  then show ?thesis unfolding e using lexComment_performs [OF assms(2,4,3)] by (simp add: assms(5))
next
  assume "g = LexNumber" and e: "scan_text U s = scan_number U s"
  then show ?thesis unfolding e using lexNumber_performs [OF assms(2)] by (simp add: assms(5))
next
  assume "g = LexDataItemSize" and "starts_in ''['' s" and e: "scan_text U s = scan_size s"
  then show ?thesis unfolding e using lexDataItemSize_performs [OF assms(2)] by (simp add: assms(5))
next
  assume "g = LexQuotedString" and "starts_in [CHR 0x22] s" and e: "scan_text U s = scan_quoted s"
  then show ?thesis unfolding e using lexQuotedString_performs [OF assms(2)] by (simp add: assms(5))
qed

lemma nextToken_text:
  assumes a: "at_token LexMessageText s l" and sc: "scan_text U (drop k s) = (t, v, m', n)"
    and k: "k = run_length blanks s"
  shows "\<exists>l'. nextToken U l = (token_at t v (take (lx_pos l + k) (lx_input l)), l')
    \<and> arrives m' (drop (k + n) s) l' \<and> lx_input l' = lx_input l"
proof -
  have p: "lx_start l = lx_pos l" and s: "lx_rest l = s" using a by (simp_all add: at_token_def)
  obtain l1 where r: "run_state U LexMessageText l = run_state U LexMessageText l1" and sk: "skipped k l l1"
    using skip_blanks [OF p] s k by auto
  have p1: "lx_start l1 = lx_pos l1" using sk by (simp add: skipped_def)
  have s1: "lx_rest l1 = drop k s" using rest_shift [of l1 l k] sk s by (simp add: skipped_def)
  have nb: "\<not> starts_in blanks (lx_rest l1)" using after_blanks [of s] by (simp add: s1 k)
  note md = scan_text_length [OF sc]
  note pf = lexMessageText_performs [OF p1 nb, unfolded s1]
  show ?thesis
  proof (cases "text_sub (drop k s)")
    case None
    show ?thesis
      by (rule nextToken_direct [OF a k r sk]) (use pf(2) [OF None, of U] sc md in auto)
  next
    case (Some g)
    with pf(1) obtain l2 where g: "run_state U LexMessageText l1 = (Some g, l2)" "moved 0 l1 l2" by fastforce
    have "performs (t, v, m', n) x (run_state U g x)"
      if x: "lx_start x = lx_pos x" "lx_pos x \<le> length (lx_input x)" "lx_lastState x = Some LexMessageText"
        "lx_rest x = drop k s" for x
      using text_sub_performs [OF Some x, of U] sc by simp
    then show ?thesis using md by (intro nextToken_dispatch [OF a k r sk g]) auto
  qed
qed

text \<open>\<open>nextToken\<close> skips the blanks and reads one token as the reference scanner does; line and column
  are those of the token's first byte; afterwards the lexer stands behind the token.\<close>

theorem nextToken_scan:
  assumes a: "at_token m s l" and sc: "scan U m (drop (blank_length m s) s) = (t, v, m', n)"
  shows "\<exists>l'. nextToken U l = (token_at t v (take (lx_pos l + blank_length m s) (lx_input l)), l')
    \<and> arrives m' (drop (blank_length m s + n) s) l' \<and> lx_input l' = lx_input l"
proof -
  consider "m = LexMessageHeader" | "m = LexMessageText" | "m = LexEOF"
    using a by (auto simp: at_token_def)
  then show ?thesis
  proof cases
    case 1
    with nextToken_header [of s l _ t v m' n] a sc show ?thesis by (simp add: blank_length_def)
  next
    case 2
    with nextToken_text [of s l U _ t v m' n] a sc show ?thesis by (simp add: blank_length_def)
  next
    case 3
    have e: "t = TkEOF" "v = ''EOF''" "m' = None" "n = 0" using sc 3 by simp_all
    have st: "lx_state l = Some LexEOF" and tk: "lx_tokens l = []" and p: "lx_start l = lx_pos l"
      using a 3 by (simp_all add: at_token_def)
    show ?thesis
      using nextToken_performs [OF st tk, of TkEOF "''EOF''" None 0 l U] lexEOF_performs [of l] tk p 3
      by (simp add: e blank_length_def arrives_def)
  qed
qed

section \<open>All tokens of an input\<close>

lemma scan_length:
  assumes "scan U m s = (t, v, m', n)"
  shows "m' \<in> token_modes \<and> (m' \<noteq> None \<longrightarrow> 0 < n \<and> n \<le> length s \<and> t \<noteq> TkEOF \<and> t \<noteq> TkError)
    \<and> (m' = None \<longrightarrow> t = TkEOF \<or> t = TkError)"
  using assms scan_header_length [of s t v m' n] scan_text_length [of U s t v m' n] by (cases m) auto

function scan_all :: "unicode \<Rightarrow> stateFn \<Rightarrow> string \<Rightarrow> (tokenType \<times> string) list" where
  "scan_all U m s =
     (case scan U m (drop (blank_length m s) s) of (t, v, m', n) \<Rightarrow>
       (t, v) # (case m' of
          None \<Rightarrow> []
        | Some m2 \<Rightarrow> scan_all U m2 (drop (blank_length m s + n) s)))"
  by pat_completeness auto
termination
proof (relation "measure (\<lambda>(U, m, s). length s)", goal_cases)
  case (2 U m s t y v z m' n m2)
  then have "scan U m (drop (blank_length m s) s) = (t, v, Some m2, n)" by simp
  from scan_length [OF this] show ?case by auto
qed simp

declare scan_all.simps [simp del]

text \<open>What the lexer delivers from here on, comments left out; nothing once it has stopped.\<close>

definition uncommented :: "(tokenType \<times> string) list \<Rightarrow> (tokenType \<times> string) list" where
  "uncommented ts = filter (\<lambda>(t, v). t \<noteq> TkComment) ts"

definition delivers :: "unicode \<Rightarrow> lexer \<Rightarrow> (tokenType \<times> string) list \<Rightarrow> bool" where
  "delivers U l ts \<longleftrightarrow> (\<exists>m s. at_token m s l \<and> ts = scan_all U m s)
     \<or> (lx_state l = None \<and> lx_tokens l = [] \<and> ts = [])"

lemma delivers_lex: "delivers U (lex s) (scan_all U LexMessageHeader s)"
  by (auto simp: delivers_def lex_def at_token_def lx_rest_def)

lemma nextToken_closed: "lx_state l = None \<Longrightarrow> lx_tokens l = [] \<Longrightarrow> nextToken U l = (closed_token, l)"
  by (subst nextToken.simps) simp

lemma delivers_nextToken:
  assumes "delivers U l ts"
  shows "\<exists>t l'. nextToken U l = (t, l') \<and>
    (case ts of [] \<Rightarrow> t = closed_token \<and> l' = l
     | (y, v) # ts' \<Rightarrow> tk_typ t = y \<and> tk_val t = v \<and> delivers U l' ts')"
  using assms [unfolded delivers_def]
proof (elim disjE exE conjE)
  fix m s
  assume a: "at_token m s l" and ts: "ts = scan_all U m s"
  obtain t v m' n where sc: "scan U m (drop (blank_length m s) s) = (t, v, m', n)"
    by (cases "scan U m (drop (blank_length m s) s)")
  obtain l' where n: "nextToken U l = (token_at t v (take (lx_pos l + blank_length m s) (lx_input l)), l')"
    and r: "arrives m' (drop (blank_length m s + n) s) l'"
    using nextToken_scan [OF a sc] by blast
  have "ts = (t, v) # (case m' of None \<Rightarrow> [] | Some m2 \<Rightarrow> scan_all U m2 (drop (blank_length m s + n) s))"
    unfolding ts by (subst scan_all.simps) (simp add: sc)
  then show ?thesis using n r by (auto simp: token_at_def arrives_def delivers_def split: option.splits)
qed (simp add: nextToken_closed)

end
