(* ===== verification/Sml_Relex.thy ===== *)
theory Sml_Relex
  imports Item_Print Sml_Tokens Hsms_Roundtrip
begin

text \<open>
  What the lexer makes of printed text: \<open>item_tokens\<close> are the tokens of an item without variables, and
  the lexer, given the text \<open>String()\<close> prints for it, delivers them and goes on behind it. The lemmas
  speak about the text followed by anything, so that they compose.
\<close>

section \<open>Single tokens\<close>

lemma scan_all_text:
  assumes "\<not> starts_in blanks s" and "scan_text U s = (t, v, Some m, n)"
  shows "scan_all U LexMessageText s = (t, v) # scan_all U m (drop n s)"
proof -
  have "run_length blanks s = 0" using assms(1) by (cases s) (auto simp: run_length_def starts_in_def)
  then show ?thesis using assms(2) by (subst scan_all.simps) (simp add: blank_length_def)
qed

lemma scan_all_blank:
  assumes "c \<in> set blanks"
  shows "scan_all U LexMessageText (c # s) = scan_all U LexMessageText s"
    and "scan_all U LexMessageHeader (c # s) = scan_all U LexMessageHeader s"
proof -
  have b: "blank_length m (c # s) = Suc (blank_length m s)" if "m \<noteq> LexEOF" for m
    using assms that by (simp add: blank_length_def run_length_def)
  show "scan_all U LexMessageText (c # s) = scan_all U LexMessageText s"
    by (subst (1 2) scan_all.simps) (simp only: b stateFn.distinct not_False_eq_True drop_Suc_Cons add_Suc)
  show "scan_all U LexMessageHeader (c # s) = scan_all U LexMessageHeader s"
    by (subst (1 2) scan_all.simps) (simp only: b stateFn.distinct not_False_eq_True drop_Suc_Cons add_Suc)
qed

lemma blanks_simps [simp]:
  "CHR '' '' \<in> set blanks" "newline \<in> set blanks" "CHR ''<'' \<notin> set blanks" "CHR ''>'' \<notin> set blanks"
  "CHR ''['' \<notin> set blanks" "CHR '']'' \<notin> set blanks" "CHR 0x22 \<notin> set blanks" "CHR ''.'' \<notin> set blanks"
  by (simp_all add: blanks_def newline_def)

lemma not_starts_in [simp]: "starts_in v (c # s) \<longleftrightarrow> c \<in> set v" "\<not> starts_in v []"
  by (simp_all add: starts_in_def)

lemma scan_open: "scan_all U LexMessageText (CHR ''<'' # s) = (TkLeftAngleBracket, ''<'') # scan_all U LexMessageText s"
  by (subst scan_all_text [where m = LexMessageText and n = 1])
    (simp_all add: scan_text_def re_ellipsis_def re_name_def is_letter_def number_start_def is_digit_def take_Cons')

lemma scan_close: "scan_all U LexMessageText (CHR ''>'' # s) = (TkRightAngleBracket, ''>'') # scan_all U LexMessageText s"
  by (subst scan_all_text [where m = LexMessageText and n = 1])
    (simp_all add: scan_text_def re_ellipsis_def re_name_def is_letter_def number_start_def is_digit_def take_Cons')

lemma takeWhile_stop: "\<forall>x \<in> set u. P x \<Longrightarrow> \<not> P c \<Longrightarrow> takeWhile P (u @ c # s) = u"
  by (induction u) auto

lemma dropWhile_stop: "\<forall>x \<in> set u. P x \<Longrightarrow> \<not> P c \<Longrightarrow> dropWhile P (u @ c # s) = c # s"
  by (induction u) auto

lemma run_length_stop: "\<forall>x \<in> set u. x \<in> set v \<Longrightarrow> c \<notin> set v \<Longrightarrow> run_length v (u @ c # s) = length u"
  by (simp add: run_length_def takeWhile_stop)

text \<open>A word that ends where it is printed.\<close>

lemma re_name_word:
  assumes "w \<noteq> []" and "is_letter (hd w)" and "list_all is_word_char w" and "\<not> is_word_char c"
  shows "re_name (w @ c # s) = Some (length w)"
proof -
  obtain x r where w: "w = x # r" using assms(1) by (cases w) auto
  have "takeWhile is_word_char (r @ c # s) = r"
    using assms(3,4) w by (intro takeWhile_stop) (auto simp: list_all_iff)
  then show ?thesis using assms(2) w by (simp add: re_name_def)
qed

lemma letter_start:
  assumes "is_letter c"
  shows "c \<notin> set blanks" and "c \<noteq> CHR ''/''" and "re_ellipsis (c # s) = None"
  using assms by (auto simp: is_letter_def blanks_def newline_def re_ellipsis_def take_Cons')

lemma scan_word_token:
  assumes w: "w \<noteq> []" "is_letter (hd w)" "list_all is_word_char w" and c: "\<not> is_word_char c"
    and sw: "scan_word (length w) (w @ c # s) = (t, w, Some LexMessageText, length w)"
  shows "scan_all U LexMessageText (w @ c # s) = (t, w) # scan_all U LexMessageText (c # s)"
proof -
  obtain x r where x: "w = x # r" using w(1) by (cases w) auto
  have "scan_text U (w @ c # s) = (t, w, Some LexMessageText, length w)"
    using letter_start(2) [of x] letter_start(3) [of x "r @ c # s"] w(2) x re_name_word [OF w c, of s] sw by (simp add: scan_text_def)
  then show ?thesis
    using letter_start(1) [of x] w(2) x by (subst scan_all_text) auto
qed

lemma types_are_words:
  "\<forall>w \<in> set data_item_types. w \<noteq> [] \<and> is_letter (hd w) \<and> list_all is_word_char w \<and> ToUpper w = w"
  by code_simp

lemma scan_type:
  assumes "w \<in> set data_item_types" and "\<not> is_word_char c"
  shows "scan_all U LexMessageText (w @ c # s) = (TkDataItemType, w) # scan_all U LexMessageText (c # s)"
proof -
  have w: "w \<noteq> []" "is_letter (hd w)" "list_all is_word_char w" "ToUpper w = w"
    using types_are_words assms(1) by auto
  show ?thesis
    by (rule scan_word_token [OF w(1-3) assms(2)]) (simp add: scan_word_def w(4) assms(1))
qed

lemma scan_bool:
  assumes "w = ''T'' \<or> w = ''F''" and "\<not> is_word_char c"
  shows "scan_all U LexMessageText (w @ c # s) = (TkBool, w) # scan_all U LexMessageText (c # s)"
proof -
  have b: "\<forall>w \<in> {''T'', ''F''}. is_letter (hd w) \<and> list_all is_word_char w \<and> ToUpper w = w \<and> w \<notin> set data_item_types"
    by code_simp
  then have w: "w \<noteq> []" "is_letter (hd w)" "list_all is_word_char w" "ToUpper w = w" "w \<notin> set data_item_types"
    using assms(1) by auto
  show ?thesis
    by (rule scan_word_token [OF w(1-3) assms(2)]) (use assms(1) w in \<open>simp add: scan_word_def\<close>)
qed

subsection \<open>Sizes\<close>

lemma dec_nat_decimal: "\<forall>c \<in> set (dec_nat n). c \<in> set decimal_digits"
proof
  fix c
  assume "c \<in> set (dec_nat n)"
  then have "is_digit c" using dec_nat_digits [of c n] by (simp add: is_digit_def)
  then show "c \<in> set decimal_digits" by (rule digit_decimal)
qed

lemma decimal_no_space: "c \<in> set decimal_digits \<Longrightarrow> \<not> rune_is_space (of_char c) \<and> of_char c < (128::nat) \<and> c \<notin> set blanks"
proof -
  have "\<forall>c \<in> set decimal_digits. \<not> rune_is_space (of_char c) \<and> of_char c < (128::nat) \<and> c \<notin> set blanks" by code_simp
  then show "c \<in> set decimal_digits \<Longrightarrow> ?thesis" by blast
qed

lemma utf8_encode_ascii: "of_char c < (128::nat) \<Longrightarrow> utf8_encode (of_char c) = [c]"
  by (simp add: utf8_encode_def)

lemma remove_spaces_id:
  assumes "\<forall>c \<in> set s. \<not> rune_is_space (of_char c) \<and> of_char c < (128::nat)"
  shows "remove_spaces s = s"
proof -
  have "runes s = map of_char s" using assms by (intro runes_ascii) (simp add: ascii_string_def)
  moreover have "filter (\<lambda>r. \<not> rune_is_space r) (map of_char s) = map of_char s" using assms by (simp add: filter_id_conv)
  moreover have "concat (map utf8_encode (map of_char s)) = s"
    using assms by (induction s) (auto simp: utf8_encode_ascii)
  ultimately show ?thesis by (simp add: remove_spaces_def)
qed

definition size_text :: "nat \<Rightarrow> string" where
  "size_text n = ''['' @ dec_nat n @ '']''"

lemma scan_size_text:
  "scan_all U LexMessageText (size_text n @ s) = (TkDataItemSize, size_text n) # scan_all U LexMessageText s"
proof -
  let ?d = "dec_nat n"
  let ?t = "?d @ CHR '']'' # s"
  obtain c r where d: "?d = c # r" using dec_nat_not_Nil [of n] by (cases ?d) auto
  have dd: "\<forall>x \<in> set ?d. x \<in> set decimal_digits" by (rule dec_nat_decimal)
  have cd: "c \<in> set decimal_digits" using dd d by simp
  then have cb: "c \<notin> set blanks" using decimal_no_space by blast
  have nb: "CHR '']'' \<notin> set decimal_digits" by (simp add: decimal_digits_def)
  have l1: "run_length blanks ?t = 0" using cb by (simp add: d run_length_def)
  have l2: "run_length decimal_digits ?t = length ?d" by (rule run_length_stop [OF dd nb])
  have l3: "size_number_length ?t = length ?d"
    using cd l2 by (simp add: size_number_length_def d) (simp add: run_length_def)
  have sp: "remove_spaces (size_text n) = size_text n"
  proof (rule remove_spaces_id)
    show "\<forall>c \<in> set (size_text n). \<not> rune_is_space (of_char c) \<and> of_char c < (128::nat)"
      using dd decimal_no_space by (auto simp: size_text_def rune_is_space_def)
  qed
  have "scan_size (size_text n @ s) = (TkDataItemSize, size_text n, Some LexMessageText, length ?d + 2)"
    using l1 l3 cd sp by (simp add: scan_size_def size_text_def Let_def take_Cons' d)
  then have "scan_text U (size_text n @ s) = (TkDataItemSize, size_text n, Some LexMessageText, length ?d + 2)"
    by (simp add: scan_text_def size_text_def re_ellipsis_def re_name_def is_letter_def number_start_def is_digit_def take_Cons')
  then show ?thesis
    by (subst scan_all_text) (auto simp: size_text_def)
qed

subsection \<open>Numbers\<close>

text \<open>A number is followed by a blank or the closing bracket.\<close>

definition number_end :: "char \<Rightarrow> bool" where
  "number_end c \<longleftrightarrow> c = CHR '' '' \<or> c = CHR ''>''"

lemma number_end_stops:
  assumes "number_end c"
  shows "c \<notin> set decimal_digits" and "c \<notin> set ''0123456789abcdefABCDEF''" and "c \<notin> set ''01''"
    and "c \<notin> set ''xX''" and "c \<notin> set ''bB''" and "c \<notin> set ''oO''" and "c \<notin> set ''.''" and "c \<notin> set ''eE''"
    and "\<not> isAlphaNumeric U (Some (rune_of (c # s)))" and "\<not> is_word_char c"
  using assms
  by (auto simp: number_end_def decimal_digits_def rune_of_ascii isAlphaNumeric_def IsLetter_def IsDigit_def
      is_word_char_def is_letter_def is_digit_def)

lemma scan_number_token:
  assumes u: "u \<noteq> []" "hd u = CHR ''-'' \<or> hd u \<in> set decimal_digits"
    and n: "number_length (u @ c # s) = length u" and c: "number_end c"
  shows "scan_all U LexMessageText (u @ c # s) = (TkNumber, u) # scan_all U LexMessageText (c # s)"
proof -
  obtain x r where x: "u = x # r" using u(1) by (cases u) auto
  have d: "\<forall>c \<in> set (CHR ''-'' # decimal_digits). c \<notin> set blanks \<and> c \<noteq> CHR ''/'' \<and> c \<noteq> CHR ''.'' \<and> \<not> is_letter c
      \<and> (c = CHR ''-'' \<or> is_digit c)" by code_simp
  then have xx: "x \<notin> set blanks" "x \<noteq> CHR ''/''" "x \<noteq> CHR ''.''" "\<not> is_letter x" "x = CHR ''-'' \<or> is_digit x"
    using u(2) x by auto
  have "scan_number U (u @ c # s) = (TkNumber, u, Some LexMessageText, length u)"
    using n number_end_stops(9) [OF c] by (simp add: scan_number_def Let_def)
  then have "scan_text U (u @ c # s) = (TkNumber, u, Some LexMessageText, length u)"
    using xx by (simp add: scan_text_def x re_ellipsis_def re_name_def number_start_def take_Cons')
  then show ?thesis using xx by (subst scan_all_text) (auto simp: x)
qed

lemma fraction_exponent_stop:
  assumes "number_end c"
  shows "fraction_length ds (c # s) = 0" and "exponent_length (c # s) = 0"
  using number_end_stops [OF assms] by (simp_all add: fraction_length_def exponent_length_def)

lemma dec_nat_0: "dec_nat 0 = ''0''"
  by code_simp

lemma dec_nat_hd: "0 < n \<Longrightarrow> hd (dec_nat n) \<noteq> CHR ''0''"
proof (induction n rule: dec_nat.induct)
  case (1 n)
  show ?case
  proof (cases "n < 10")
    case True
    have "of_char (digit_char n) \<noteq> (of_char (CHR ''0'') :: nat)"
      unfolding of_char_digit_char [OF True] using 1(2) by simp
    then show ?thesis using True by (subst dec_nat.simps) auto
  next
    case False
    then show ?thesis using 1 by (subst dec_nat.simps) (simp add: hd_append)
  qed
qed

lemma number_length_nat:
  assumes "number_end c"
  shows "number_length (dec_nat n @ c # s) = length (dec_nat n)"
proof -
  let ?d = "dec_nat n"
  obtain x r where x: "?d = x # r" using dec_nat_not_Nil [of n] by (cases ?d) auto
  have dd: "\<forall>y \<in> set ?d. y \<in> set decimal_digits" by (rule dec_nat_decimal)
  have "x \<in> set decimal_digits" using dd x by simp
  then have sg: "x \<notin> set ''+-''" by (auto simp: decimal_digits_def)
  then have a: "opt_length ''+-'' (?d @ c # s) = 0" by (simp add: x)
  have run: "run_length decimal_digits (?d @ c # s) = length ?d"
    by (rule run_length_stop [OF dd number_end_stops(1) [OF assms]])
  note st = fraction_exponent_stop [OF assms] number_end_stops [OF assms]
  show ?thesis
  proof (cases "n = 0")
    case True
    then have z: "?d = ''0''" by (simp add: dec_nat_0)
    have p: "number_prefix (?d @ c # s) = (1, decimal_digits)" using st by (simp add: z number_prefix_def)
    have "run_length decimal_digits (c # s) = 0" using st by (simp add: run_length_def)
    then show ?thesis using a p st by (simp add: number_length_def Let_def z)
  next
    case False
    then have "x \<noteq> CHR ''0''" using dec_nat_hd [of n] x by simp
    then have p: "number_prefix (?d @ c # s) = (0, decimal_digits)" by (simp add: x number_prefix_def)
    show ?thesis using a p run st by (simp add: number_length_def Let_def)
  qed
qed

lemma number_length_minus:
  assumes "opt_length ''+-'' t = 0"
  shows "number_length (CHR ''-'' # t) = 1 + number_length t"
proof -
  obtain b ds where p: "number_prefix t = (b, ds)" by (cases "number_prefix t")
  have s: "opt_length ''+-'' (CHR ''-'' # t) = 1" by simp
  show ?thesis unfolding number_length_def s assms by (simp add: p Let_def)
qed

lemma number_length_neg:
  assumes "number_end c"
  shows "number_length (CHR ''-'' # dec_nat n @ c # s) = 1 + length (dec_nat n)"
proof -
  have "\<exists>x r. dec_nat n = x # r \<and> x \<in> set decimal_digits"
    using dec_nat_not_Nil [of n] dec_nat_decimal [of n] by (cases "dec_nat n") auto
  then have "opt_length ''+-'' (dec_nat n @ c # s) = 0" by (auto simp: decimal_digits_def)
  then show ?thesis using number_length_minus number_length_nat [OF assms, of n s] by metis
qed

lemma scan_dec:
  assumes "number_end c"
  shows "scan_all U LexMessageText (dec i @ c # s) = (TkNumber, dec i) # scan_all U LexMessageText (c # s)"
proof (rule scan_number_token [OF _ _ _ assms])
  have "hd (dec_nat n) \<in> set decimal_digits" for n
    using dec_nat_decimal [of n] dec_nat_not_Nil [of n] by (cases "dec_nat n") auto
  then show "hd (dec i) = CHR ''-'' \<or> hd (dec i) \<in> set decimal_digits" by (simp add: dec_def)
  show "dec i \<noteq> []" by (simp add: dec_def)
  show "number_length (dec i @ c # s) = length (dec i)"
    using number_length_nat [OF assms] number_length_neg [OF assms] by (simp add: dec_def)
qed

text \<open>Numbers with a prefix: the digits after it all belong to its base.\<close>

lemma number_length_prefixed:
  assumes p: "number_prefix (CHR ''0'' # x # u @ c # s) = (2, ds)"
    and u: "\<forall>y \<in> set u. y \<in> set ds" and c: "number_end c" "c \<notin> set ds"
  shows "number_length (CHR ''0'' # x # u @ c # s) = 2 + length u"
proof -
  have "run_length ds (u @ c # s) = length u" by (rule run_length_stop [OF u c(2)])
  then show ?thesis using p fraction_exponent_stop [OF c(1)]
    by (simp add: number_length_def Let_def numeral_2_eq_2)
qed

lemma scan_binary_number:
  assumes "number_end c"
  shows "scan_all U LexMessageText (''0b'' @ bin_nat n @ c # s)
    = (TkNumber, ''0b'' @ bin_nat n) # scan_all U LexMessageText (c # s)"
proof -
  have "number_length (''0b'' @ bin_nat n @ c # s) = 2 + length (bin_nat n)"
    using number_length_prefixed [of "CHR ''b''" "bin_nat n" c s "''01''"] bin_nat_digits [of n]
      number_end_stops [OF assms] assms
    by (auto simp: number_prefix_def)
  then show ?thesis
    using scan_number_token [of "''0b'' @ bin_nat n" c s U] assms by (simp add: decimal_digits_def)
qed

lemma hex_digit_upper: "d < 16 \<Longrightarrow> upper_char (hex_digit d) \<in> set ''0123456789ABCDEF''
    \<and> digit_val (upper_char (hex_digit d)) = Some d"
proof -
  have "\<forall>d \<in> set [0..<16]. upper_char (hex_digit d) \<in> set ''0123456789ABCDEF''
    \<and> digit_val (upper_char (hex_digit d)) = Some d" by code_simp
  then show "d < 16 \<Longrightarrow> ?thesis" by simp
qed

lemma char_code_eq:
  "char_code c = [CHR ''0'', CHR ''x'', upper_char (hex_digit (of_char c div 16)), upper_char (hex_digit (of_char c mod 16))]"
proof -
  have l: "of_char c < (256::nat)" by (rule nat_of_char_less_256)
  have z: "hex_digit 0 = CHR ''0''" "upper_char (CHR ''0'') = CHR ''0''" by code_simp+
  have "of_char c div 16 < (16::nat)" using l by (intro less_mult_imp_div_less) simp
  then have "hex_pad 2 (of_char c) = [hex_digit (of_char c div 16), hex_digit (of_char c mod 16)]"
    by (subst hex_pad.simps, subst hex_pad.simps) (simp add: z)
  then show ?thesis by (simp add: char_code_def ToUpper_def)
qed

lemma scan_char_code:
  assumes "number_end c"
  shows "scan_all U LexMessageText (char_code a @ c # s)
    = (TkNumber, char_code a) # scan_all U LexMessageText (c # s)"
proof -
  define h1 where "h1 = upper_char (hex_digit (of_char a div 16))"
  define h2 where "h2 = upper_char (hex_digit (of_char a mod 16))"
  have l: "of_char a div 16 < (16::nat)" "of_char a mod 16 < (16::nat)"
    using nat_of_char_less_256 [of a] by (intro less_mult_imp_div_less) simp_all
  have h: "h1 \<in> set ''0123456789ABCDEF''" "h2 \<in> set ''0123456789ABCDEF''"
    unfolding h1_def h2_def using hex_digit_upper l by blast+
  then have hh: "\<forall>y \<in> set [h1, h2]. y \<in> set ''0123456789abcdefABCDEF''" by auto
  have cc: "char_code a = ''0x'' @ [h1, h2]" by (simp add: char_code_eq h1_def h2_def)
  have "number_length (char_code a @ c # s) = length (char_code a)"
    using number_length_prefixed [of "CHR ''x''" "[h1, h2]" c s "''0123456789abcdefABCDEF''", OF _ hh assms number_end_stops(2) [OF assms]]
    by (simp add: cc number_prefix_def)
  then show ?thesis
    using scan_number_token [of "char_code a" c s U] assms by (simp add: cc decimal_digits_def)
qed

subsection \<open>Quoted strings\<close>

definition plain_char :: "char \<Rightarrow> bool" where
  "plain_char c \<longleftrightarrow> \<not> control_char c \<and> c \<noteq> CHR 0x22 \<and> c \<noteq> backslash"

definition quoted :: "string \<Rightarrow> string" where
  "quoted u = [CHR 0x22] @ u @ [CHR 0x22]"

lemma plain_char_no_newline: "plain_char c \<Longrightarrow> c \<noteq> newline \<and> c \<noteq> CHR 0x0D \<and> c \<noteq> CHR 0x22"
  by (auto simp: plain_char_def control_char_def newline_def)

lemma scan_quoted_text:
  assumes "list_all plain_char u"
  shows "scan_all U LexMessageText (quoted u @ s) = (TkQuotedString, quoted u) # scan_all U LexMessageText s"
proof -
  have p: "\<forall>c \<in> set u. c \<noteq> newline \<and> c \<noteq> CHR 0x0D \<and> c \<noteq> CHR 0x22"
    using assms plain_char_no_newline by (auto simp: list_all_iff)
  have i: "index_of (\<lambda>c. c = CHR 0x22) (u @ CHR 0x22 # s) = length u"
    using p by (simp add: index_of_def takeWhile_stop)
  have j: "length u < index_of (\<lambda>c. c = CHR 0x0D \<or> c = newline) (u @ CHR 0x22 # s)"
    using p by (simp add: index_of_def newline_def)
  have "scan_quoted (quoted u @ s) = (TkQuotedString, quoted u, Some LexMessageText, length u + 2)"
    using i j by (simp add: scan_quoted_def Let_def quoted_def)
  then have "scan_text U (quoted u @ s) = (TkQuotedString, quoted u, Some LexMessageText, length u + 2)"
    by (simp add: scan_text_def quoted_def re_ellipsis_def re_name_def is_letter_def number_start_def is_digit_def take_Cons')
  then show ?thesis by (subst scan_all_text) (auto simp: quoted_def)
qed

section \<open>Numbers of any form\<close>

text \<open>What follows a number does not change how long it is.\<close>

lemma starts_in_end: "c \<notin> set v \<Longrightarrow> starts_in v (u @ c # s) = starts_in v u"
  by (cases u) simp_all

lemma run_length_end: "c \<notin> set v \<Longrightarrow> run_length v (u @ c # s) = run_length v u"
  by (induction u) (simp_all add: run_length_def)

lemma opt_length_end: "c \<notin> set v \<Longrightarrow> opt_length v (u @ c # s) = opt_length v u"
  by (simp add: opt_length_def starts_in_end)

lemma drop_end: "n \<le> length u \<Longrightarrow> drop n (u @ c # s) = drop n u @ c # s"
  by simp

lemma tl_end: "starts_in v u \<Longrightarrow> tl (u @ c # s) = tl u @ c # s"
  by (cases u) simp_all

lemma number_end_set:
  assumes "number_end c"
  shows "c \<notin> set ''0''" and "c \<notin> set ''01234567''" and "c \<notin> set ''+-''"
  using assms by (auto simp: number_end_def)

lemmas number_end_starts =
  starts_in_end [OF number_end_stops(4)] starts_in_end [OF number_end_stops(5)]
  starts_in_end [OF number_end_stops(6)] starts_in_end [OF number_end_stops(7)]
  starts_in_end [OF number_end_stops(8)] starts_in_end [OF number_end_set(1)]

lemma number_prefix_end:
  assumes "number_end c"
  shows "number_prefix (u @ c # s) = number_prefix u"
proof (cases "starts_in ''0'' u")
  case True
  then show ?thesis unfolding number_prefix_def number_end_starts [OF assms] tl_end [OF True] by simp
next
  case False
  then show ?thesis unfolding number_prefix_def number_end_starts [OF assms] by simp
qed

lemma number_prefix_sets: "number_end c \<Longrightarrow> c \<notin> set (snd (number_prefix u))"
  using number_end_stops [of c] number_end_set [of c] by (simp add: number_prefix_def)

lemma fraction_length_end: "number_end c \<Longrightarrow> c \<notin> set ds \<Longrightarrow> fraction_length ds (u @ c # s) = fraction_length ds u"
  by (simp add: fraction_length_def number_end_starts tl_end run_length_end)

lemma exponent_length_end:
  assumes "number_end c"
  shows "exponent_length (u @ c # s) = exponent_length u"
proof (cases "starts_in ''eE'' u")
  case True
  have d: "opt_length ''+-'' (tl u) \<le> length (tl u)" using opt_length_drop [of 0 "tl u"] by simp
  show ?thesis
    unfolding exponent_length_def number_end_starts [OF assms] tl_end [OF True]
      opt_length_end [OF number_end_set(3) [OF assms]] drop_end [OF d]
      run_length_end [OF number_end_stops(1) [OF assms]] by (rule refl)
next
  case False
  then show ?thesis using assms by (simp add: exponent_length_def number_end_starts)
qed

lemma number_length_end:
  assumes "number_end c"
  shows "number_length (u @ c # s) = number_length u"
proof -
  let ?a = "opt_length ''+-'' u"
  have a: "?a \<le> length u" using opt_length_drop [of 0 u] by simp
  obtain b ds where p: "number_prefix (drop ?a u) = (b, ds)" by (cases "number_prefix (drop ?a u)")
  have ds: "c \<notin> set ds" using number_prefix_sets [OF assms, of "drop ?a u"] p by simp
  have ab: "?a + b \<le> length u" using number_prefix_le [of "drop ?a u"] p a by simp
  let ?c = "?a + b + run_length ds (drop (?a + b) u)"
  have c: "?c \<le> length u" using run_length_drop [OF ab] by simp
  let ?d = "?c + fraction_length ds (drop ?c u)"
  have d: "?d \<le> length u" using fraction_length_le [of ds "drop ?c u"] c by simp
  have "number_length u = ?d + exponent_length (drop ?d u)" by (simp add: number_length_def p Let_def)
  moreover have "number_length (u @ c # s) = ?d + exponent_length (drop ?d u)"
    unfolding number_length_def Let_def opt_length_end [OF number_end_set(3) [OF assms]] drop_end [OF a]
      number_prefix_end [OF assms] p prod.case drop_end [OF ab] run_length_end [OF ds] drop_end [OF c]
      fraction_length_end [OF assms ds] drop_end [OF d] exponent_length_end [OF assms] by (rule refl)
  ultimately show ?thesis by simp
qed

text \<open>A text that is one number to the lexer.\<close>

definition number_syntax :: "string \<Rightarrow> bool" where
  "number_syntax u \<longleftrightarrow> u \<noteq> [] \<and> (hd u = CHR ''-'' \<or> hd u \<in> set decimal_digits) \<and> number_length u = length u"

lemma scan_number_syntax:
  assumes "number_syntax u" and "number_end c"
  shows "scan_all U LexMessageText (u @ c # s) = (TkNumber, u) # scan_all U LexMessageText (c # s)"
  using assms number_length_end [OF assms(2)] by (intro scan_number_token) (auto simp: number_syntax_def)

section \<open>ASCII items\<close>

text \<open>The tokens of printed text: codes of control characters and quoted runs of others.\<close>

function ascii_tokens :: "string \<Rightarrow> (tokenType \<times> string) list" where
  "ascii_tokens [] = []"
| "ascii_tokens (c # cs) =
     (if control_char c then (TkNumber, char_code c) # ascii_tokens cs
      else (TkQuotedString, quoted (c # takeWhile (\<lambda>c. \<not> control_char c) cs))
             # ascii_tokens (dropWhile (\<lambda>c. \<not> control_char c) cs))"
  by pat_completeness auto
termination
  by (relation "measure length") (auto simp: le_imp_less_Suc length_dropWhile_le)

definition text_char :: "char \<Rightarrow> bool" where
  "text_char c \<longleftrightarrow> c \<noteq> CHR 0x22 \<and> c \<noteq> backslash"

lemma ascii_chars_run:
  "ascii_chars True s = takeWhile (\<lambda>c. \<not> control_char c) s @ CHR 0x22
     # ascii_chars False (dropWhile (\<lambda>c. \<not> control_char c) s)"
  by (induction s) simp_all

lemma ascii_chars_start: "ascii_chars False s = [] \<or> (\<exists>r. ascii_chars False s = CHR '' '' # r)"
  by (cases s) auto

lemma scan_ascii_chars:
  assumes "list_all text_char s"
  shows "scan_all U LexMessageText (ascii_chars False s @ CHR ''>'' # r)
    = ascii_tokens s @ scan_all U LexMessageText (CHR ''>'' # r)"
  using assms
proof (induction s rule: ascii_tokens.induct)
  case (2 c cs)
  show ?case
  proof (cases "control_char c")
    case True
    obtain d t where d: "ascii_chars False cs @ CHR ''>'' # r = d # t" "number_end d"
      using ascii_chars_start [of cs] by (auto simp: number_end_def)
    have "scan_all U LexMessageText (ascii_chars False (c # cs) @ CHR ''>'' # r)
        = scan_all U LexMessageText (char_code c @ d # t)" using True by (simp add: scan_all_blank d(1))
    then show ?thesis using scan_char_code [OF d(2), of U c t] 2 True d(1) by simp
  next
    case False
    let ?run = "takeWhile (\<lambda>c. \<not> control_char c) cs" and ?rest = "dropWhile (\<lambda>c. \<not> control_char c) cs"
    have lc: "list_all text_char ?run \<and> list_all text_char ?rest"
      using 2(3) by (auto simp: list_all_iff dest: set_takeWhileD set_dropWhileD)
    have pl: "list_all plain_char (c # ?run)"
      using False 2(3) lc by (auto simp: list_all_iff plain_char_def text_char_def dest: set_takeWhileD)
    have "ascii_chars False (c # cs) @ CHR ''>'' # r
        = CHR '' '' # quoted (c # ?run) @ ascii_chars False ?rest @ CHR ''>'' # r"
      using False by (simp add: ascii_chars_run quoted_def)
    then show ?thesis using scan_quoted_text [OF pl, of U] 2 False lc by (simp add: scan_all_blank)
  qed
qed simp

section \<open>Items\<close>

text \<open>Items whose text can be read back: no double quote or backslash in ASCII text, and floats that
  \<open>strconv.FormatFloat\<close> prints as a number that \<open>strconv.ParseFloat\<close> takes back.\<close>

fun item_readable :: "(int \<Rightarrow> 64 word \<Rightarrow> string) \<Rightarrow> item \<Rightarrow> bool" where
  "item_readable ff (ANode n) = list_all text_char (an_value n)"
| "item_readable ff (FNode n) = list_all (\<lambda>v. number_syntax (ff (fn_byteSize n) v)
     \<and> ParseFloat (ff (fn_byteSize n) v) (nat (fn_byteSize n) * 8) = (v, None)) (fn_values n)"
| "item_readable ff (LNode xs vs s) = (\<forall>x \<in> set xs. item_readable ff x)"
| "item_readable ff it = True"

definition sized_tokens :: "string \<Rightarrow> nat \<Rightarrow> (tokenType \<times> string) list \<Rightarrow> (tokenType \<times> string) list" where
  "sized_tokens typ n ts = [(TkLeftAngleBracket, ''<''), (TkDataItemType, typ), (TkDataItemSize, size_text n)]
     @ ts @ [(TkRightAngleBracket, ''>'')]"

fun item_tokens :: "(int \<Rightarrow> 64 word \<Rightarrow> string) \<Rightarrow> item \<Rightarrow> (tokenType \<times> string) list" where
  "item_tokens ff EmptyNode = []"
| "item_tokens ff (ANode n) =
     (if an_value n = [] then sized_tokens ''A'' 0 []
      else [(TkLeftAngleBracket, ''<''), (TkDataItemType, ''A'')] @ ascii_tokens (an_value n)
             @ [(TkRightAngleBracket, ''>'')])"
| "item_tokens ff (BNode n) = sized_tokens ''B'' (length (bn_values n))
     (map (\<lambda>v. (TkNumber, ''0b'' @ FormatInt2 v)) (bn_values n))"
| "item_tokens ff (TNode n) = sized_tokens ''BOOLEAN'' (length (tn_values n))
     (map (\<lambda>v. (TkBool, if v then ''T'' else ''F'')) (tn_values n))"
| "item_tokens ff (FNode n) = sized_tokens (''F'' @ dec (fn_byteSize n)) (length (fn_values n))
     (map (\<lambda>v. (TkNumber, ff (fn_byteSize n) v)) (fn_values n))"
| "item_tokens ff (INode n) = sized_tokens (''I'' @ dec (in_byteSize n)) (length (in_values n))
     (map (\<lambda>v. (TkNumber, dec (sint v))) (in_values n))"
| "item_tokens ff (UNode n) = sized_tokens (''U'' @ dec (un_byteSize n)) (length (un_values n))
     (map (\<lambda>v. (TkNumber, dec (uint v))) (un_values n))"
| "item_tokens ff (LNode xs vs s) = sized_tokens ''L'' (length xs) (concat (map (item_tokens ff) xs))"

lemma dec_length: "dec (int n) = dec_nat n"
  by (simp add: dec_def)

lemma scan_join:
  assumes "\<And>x c s. x \<in> set xs \<Longrightarrow> number_end c \<Longrightarrow>
      scan_all U LexMessageText (f x @ c # s) = (y, f x) # scan_all U LexMessageText (c # s)"
  shows "scan_all U LexMessageText (join_blank (map f xs) @ CHR ''>'' # r)
    = map (\<lambda>x. (y, f x)) xs @ scan_all U LexMessageText (CHR ''>'' # r)"
  using assms
proof (induction xs)
  case (Cons x xs)
  have e: "number_end (CHR ''>'')" "number_end (CHR '' '')" by (simp_all add: number_end_def)
  have x: "scan_all U LexMessageText (f x @ c # s) = (y, f x) # scan_all U LexMessageText (c # s)"
    if "number_end c" for c s using Cons.prems [of x c s] that by simp
  show ?case
  proof (cases xs)
    case Nil
    then show ?thesis using x [OF e(1)] by simp
  next
    case (Cons z zs)
    then have "join_blank (map f (x # xs)) @ CHR ''>'' # r = f x @ CHR '' '' # join_blank (map f xs) @ CHR ''>'' # r"
      by simp
    then show ?thesis using x [OF e(2)] Cons.IH Cons.prems by (simp add: scan_all_blank)
  qed
qed simp

lemma scan_typed: "w \<in> set data_item_types \<Longrightarrow> \<not> is_word_char c \<Longrightarrow>
    scan_all U LexMessageText (CHR ''<'' # w @ c # s)
      = (TkLeftAngleBracket, ''<'') # (TkDataItemType, w) # scan_all U LexMessageText (c # s)"
  by (simp add: scan_open scan_type)

lemma bracket_no_word [simp]: "\<not> is_word_char (CHR ''['')" "\<not> is_word_char (CHR '' '')"
  by (simp_all add: is_word_char_def is_letter_def is_digit_def)

lemma scan_typed_size:
  assumes "w \<in> set data_item_types"
  shows "scan_all U LexMessageText (CHR ''<'' # w @ size_text n @ s)
    = (TkLeftAngleBracket, ''<'') # (TkDataItemType, w) # (TkDataItemSize, size_text n) # scan_all U LexMessageText s"
  using scan_typed [OF assms, of "CHR ''[''" U "dec_nat n @ '']'' @ s"] scan_size_text [of U n s]
  by (simp add: size_text_def)

lemma scan_sized_item:
  assumes w: "w \<in> set data_item_types"
    and f: "\<And>x c s. x \<in> set xs \<Longrightarrow> number_end c \<Longrightarrow>
      scan_all U LexMessageText (f x @ c # s) = (y, f x) # scan_all U LexMessageText (c # s)"
  shows "scan_all U LexMessageText (sized_item w (map f xs) [] @ r)
    = sized_tokens w (length xs) (map (\<lambda>x. (y, f x)) xs) @ scan_all U LexMessageText r"
proof (cases "xs = []")
  case True
  then have "sized_item w (map f xs) [] @ r = CHR ''<'' # w @ size_text 0 @ CHR ''>'' # r"
    by (simp add: sized_item_def size_text_def dec_nat_0)
  then show ?thesis using True scan_typed_size [OF w] by (simp add: sized_tokens_def scan_close)
next
  case False
  then have "sized_item w (map f xs) [] @ r
      = CHR ''<'' # w @ size_text (length xs) @ CHR '' '' # join_blank (map f xs) @ CHR ''>'' # r"
    by (simp add: sized_item_def size_text_def dec_length put_names_def)
  then show ?thesis using scan_typed_size [OF w] scan_join [OF f]
    by (simp add: sized_tokens_def scan_close scan_all_blank)
qed

lemma scan_ascii_item:
  assumes "list_all text_char s"
  shows "scan_all U LexMessageText (''<A'' @ ascii_chars False s @ CHR ''>'' # r)
    = [(TkLeftAngleBracket, ''<''), (TkDataItemType, ''A'')] @ ascii_tokens s
        @ (TkRightAngleBracket, ''>'') # scan_all U LexMessageText r"
proof -
  obtain d t where d: "ascii_chars False s @ CHR ''>'' # r = d # t" "number_end d"
    using ascii_chars_start [of s] by (auto simp: number_end_def)
  have "scan_all U LexMessageText (CHR ''<'' # ''A'' @ d # t)
      = (TkLeftAngleBracket, ''<'') # (TkDataItemType, ''A'') # scan_all U LexMessageText (d # t)"
    by (rule scan_typed) (simp_all add: data_item_types_def number_end_stops(10) [OF d(2)])
  then show ?thesis using scan_ascii_chars [OF assms, of U r] d(1) by (simp add: scan_close)
qed

lemma scan_indent: "scan_all U LexMessageText (indent n @ s) = scan_all U LexMessageText s"
  by (induction n) (simp_all add: indent_def scan_all_blank)

lemma number_types:
  "b \<in> {1, 2, 4, 8} \<Longrightarrow> ''I'' @ dec b \<in> set data_item_types"
  "b \<in> {1, 2, 4, 8} \<Longrightarrow> ''U'' @ dec b \<in> set data_item_types"
  "b = 4 \<or> b = 8 \<Longrightarrow> ''F'' @ dec b \<in> set data_item_types"
  by (auto simp: data_item_types_def)

lemma scan_list_text:
  assumes "\<And>x level r. x \<in> set xs \<Longrightarrow>
      scan_all U LexMessageText (item_String ff level x @ r) = item_tokens ff x @ scan_all U LexMessageText r"
  shows "scan_all U LexMessageText (list_lines ff level [] i xs @ r)
    = concat (map (item_tokens ff) xs) @ scan_all U LexMessageText r"
  using assms
proof (induction xs arbitrary: i)
  case (Cons x xs)
  let ?rest = "newline # list_lines ff level [] (Suc i) xs @ r"
  have n: "variable_at [] i = None" by (simp add: variable_at_def)
  have "\<exists>l. scan_all U LexMessageText (list_lines ff level [] i (x # xs) @ r)
      = scan_all U LexMessageText (item_String ff l x @ ?rest)"
    by (cases x) (auto simp: n scan_indent scan_all_blank simp del: item_String.simps)
  then have "scan_all U LexMessageText (list_lines ff level [] i (x # xs) @ r)
      = item_tokens ff x @ scan_all U LexMessageText ?rest" using Cons.prems [of x] by auto
  then show ?case using Cons.IH Cons.prems by (simp add: scan_all_blank)
qed simp

lemma no_variables:
  assumes "Variables it = []"
  shows "it = ANode a \<Longrightarrow> an_isValue a" and "it = BNode b \<Longrightarrow> bn_variables b = []"
    and "it = TNode t \<Longrightarrow> tn_variables t = []" and "it = FNode f \<Longrightarrow> fn_variables f = []"
    and "it = INode i \<Longrightarrow> in_variables i = []" and "it = UNode u \<Longrightarrow> un_variables u = []"
  using assms by (auto split: if_splits)

lemma scan_list_item:
  assumes x: "\<And>x level r. x \<in> set xs \<Longrightarrow>
      scan_all U LexMessageText (item_String ff level x @ r) = item_tokens ff x @ scan_all U LexMessageText r"
  shows "scan_all U LexMessageText (item_String ff level (LNode xs [] s) @ r)
    = item_tokens ff (LNode xs [] s) @ scan_all U LexMessageText r"
proof -
  have l: "''L'' \<in> set data_item_types" by (simp add: data_item_types_def)
  show ?thesis
  proof (cases "xs = []")
    case True
    then have e: "item_String ff level (LNode xs [] s) @ r = indent level @ CHR ''<'' # ''L'' @ size_text 0 @ CHR ''>'' # r"
      by (simp add: size_text_def dec_nat_0)
    show ?thesis unfolding e scan_indent scan_typed_size [OF l] using True by (simp add: sized_tokens_def scan_close)
  next
    case False
    have "list_all (\<lambda>i. (case xs ! i of LNode _ _ _ \<Rightarrow> True | _ \<Rightarrow> variable_at [] i = None)) [0..<length xs]"
      by (auto simp: list_all_iff variable_at_def split: item.splits)
    then have "item_String ff level (LNode xs [] s) @ r = indent level @ CHR ''<'' # ''L'' @ size_text (length xs)
        @ newline # list_lines ff level [] 0 xs @ indent level @ CHR ''>'' # r"
      using False by (simp add: size_text_def dec_length)
    then show ?thesis using scan_typed_size [OF l] scan_list_text [of xs U ff, OF x]
      by (simp add: scan_indent scan_all_blank sized_tokens_def scan_close)
  qed
qed

lemma scan_item:
  assumes "rep_ok it" and "Variables it = []" and "it \<noteq> EmptyNode" and "item_readable ff it"
  shows "scan_all U LexMessageText (item_String ff level it @ r) = item_tokens ff it @ scan_all U LexMessageText r"
  using assms
proof (induction it arbitrary: level r)
  case (ANode n)
  have v: "an_isValue n" using no_variables(1) [OF ANode.prems(2)] by blast
  have a: "''A'' \<in> set data_item_types" by (simp add: data_item_types_def)
  show ?case
  proof (cases "an_value n = []")
    case True
    then have "item_String ff level (ANode n) @ r = CHR ''<'' # ''A'' @ size_text 0 @ CHR ''>'' # r"
      using v by (simp add: ascii_String_def size_text_def dec_nat_0)
    then show ?thesis using True scan_typed_size [OF a] by (simp add: sized_tokens_def scan_close)
  next
    case False
    then show ?thesis using v scan_ascii_item [of "an_value n" U r] ANode.prems(4) by (simp add: ascii_String_def)
  qed
next
  case (BNode n)
  have "FormatInt2 x = bin_nat (nat x)" if "x \<in> set (bn_values n)" for x
    using BNode.prems(1) that by (auto simp: FormatInt2_def list_all_iff)
  then have f: "scan_all U LexMessageText ((''0b'' @ FormatInt2 x) @ c # s)
      = (TkNumber, ''0b'' @ FormatInt2 x) # scan_all U LexMessageText (c # s)"
    if "x \<in> set (bn_values n)" "number_end c" for x c s
    using scan_binary_number [OF that(2), of U "nat x" s] that(1) by simp
  have "''B'' \<in> set data_item_types" by (simp add: data_item_types_def)
  from scan_sized_item [OF this f, of "bn_values n"] show ?case
    using no_variables(2) [OF BNode.prems(2)] by (simp add: binary_String_def)
next
  case (TNode n)
  have f: "scan_all U LexMessageText ((if x then ''T'' else ''F'') @ c # s)
      = (TkBool, if x then ''T'' else ''F'') # scan_all U LexMessageText (c # s)"
    if "number_end c" for x c s
    by (rule scan_bool) (use number_end_stops(10) [OF that] in auto)
  have "''BOOLEAN'' \<in> set data_item_types" by (simp add: data_item_types_def)
  from scan_sized_item [OF this f, of "tn_values n"] show ?case
    using no_variables(3) [OF TNode.prems(2)] by (simp add: boolean_String_def)
next
  case (FNode n)
  let ?b = "fn_byteSize n"
  have f: "scan_all U LexMessageText (ff ?b x @ c # s) = (TkNumber, ff ?b x) # scan_all U LexMessageText (c # s)"
    if "x \<in> set (fn_values n)" "number_end c" for x c s
    using scan_number_syntax [OF _ that(2)] FNode.prems(4) that(1) by (auto simp: list_all_iff)
  have "''F'' @ dec ?b \<in> set data_item_types" using FNode.prems(1) by (intro number_types(3)) auto
  from scan_sized_item [OF this f, of "fn_values n"] show ?case
    using no_variables(4) [OF FNode.prems(2)] by (simp add: float_String_def)
next
  case (INode n)
  have "''I'' @ dec (in_byteSize n) \<in> set data_item_types" using INode.prems(1) by (intro number_types(1)) auto
  then have "scan_all U LexMessageText (sized_item (''I'' @ dec (in_byteSize n)) (map (\<lambda>v. dec (sint v)) (in_values n)) [] @ r)
      = item_tokens ff (INode n) @ scan_all U LexMessageText r"
    unfolding item_tokens.simps by (rule scan_sized_item) (rule scan_dec)
  then show ?case
    using no_variables(5) [OF INode.prems(2)] by (simp add: int_String_def)
next
  case (UNode n)
  have "''U'' @ dec (un_byteSize n) \<in> set data_item_types" using UNode.prems(1) by (intro number_types(2)) auto
  then have "scan_all U LexMessageText (sized_item (''U'' @ dec (un_byteSize n)) (map (\<lambda>v. dec (uint v)) (un_values n)) [] @ r)
      = item_tokens ff (UNode n) @ scan_all U LexMessageText r"
    unfolding item_tokens.simps by (rule scan_sized_item) (rule scan_dec)
  then show ?case
    using no_variables(6) [OF UNode.prems(2)] by (simp add: uint_String_def)
next
  case (LNode xs vs s)
  note vs = list_without_variables(1) [OF LNode.prems(1,2)]
  have "scan_all U LexMessageText (item_String ff lv x @ r') = item_tokens ff x @ scan_all U LexMessageText r'"
    if "x \<in> set xs" for x lv r'
    using LNode.IH [OF that] list_without_variables(2) [OF LNode.prems(1,2) that] LNode.prems(4) that by simp
  from scan_list_item [OF this] show ?case unfolding vs by blast
qed simp

end
