(* ===== verification/Sml_Headers.thy ===== *)
theory Sml_Headers
  imports Sml_Relex
begin

text \<open>
  What the lexer makes of the printed header line of a message. \<open>good_name\<close> are the message names that
  the lexer reads as one name: ASCII without white space, without the start of a comment, and not
  beginning like another token of the header.
\<close>

section \<open>Names\<close>

fun comment_free :: "string \<Rightarrow> bool" where
  "comment_free (a # b # r) = (\<not> (a = CHR ''/'' \<and> b = CHR ''/'') \<and> comment_free (b # r))"
| "comment_free s = True"

definition good_name :: "string \<Rightarrow> bool" where
  "good_name v \<longleftrightarrow> list_all (\<lambda>c. of_char c < (128::nat) \<and> \<not> rune_is_space (of_char c)) v
     \<and> re_stream_function v = None \<and> re_wait_bit v = None \<and> re_direction v = None
     \<and> take 1 v \<noteq> ''.'' \<and> take 1 v \<noteq> ''<'' \<and> comment_free v"

lemma newline_simps [simp]:
  "\<not> is_digit newline" "upper_char newline = newline" "rune_is_space (of_char newline)" "newline \<noteq> CHR ''/''"
  by code_simp+

lemma newline_rune [simp]: "rune_of (newline # s) = 10" "width_of (newline # s) = 1"
  by (simp_all add: newline_def rune_of_ascii)

lemma name_run_line:
  assumes "list_all (\<lambda>c. of_char c < (128::nat) \<and> \<not> rune_is_space (of_char c)) v" and "comment_free v"
  shows "name_run (v @ newline # s) = length v"
  using assms
proof (induction v)
  case Nil
  show ?case by (subst name_run.simps) (simp add: rune_is_space_def)
next
  case (Cons c v)
  have c: "of_char c < (128::nat)" "\<not> rune_is_space (of_char c)" using Cons.prems(1) by simp_all
  have v: "comment_free v" using Cons.prems(2) by (cases v) simp_all
  have "take 2 (c # v @ newline # s) \<noteq> ''//''" using Cons.prems(2) by (cases v) (auto simp: take_Cons')
  then have "name_run (c # v @ newline # s) = 1 + name_run (v @ newline # s)"
    using c by (subst name_run.simps) (simp add: rune_of_ascii)
  then show ?case using Cons.IH [OF _ v] Cons.prems(1) by simp
qed

lemma takeWhile_line: "\<not> P c \<Longrightarrow> takeWhile P (x @ c # s) = takeWhile P x"
  by (induction x) auto

lemma stream_function_line:
  assumes "v \<noteq> []"
  shows "re_stream_function (v @ newline # s) = re_stream_function v"
proof -
  obtain c r where v: "v = c # r" using assms by (cases v) auto
  note t = takeWhile_line [of is_digit newline _ s, OF newline_simps(1)]
  have n: "newline \<noteq> CHR ''F''" by (simp add: newline_def)
  show ?thesis
  proof (cases "\<forall>x \<in> set r. is_digit x")
    case True
    then have "dropWhile is_digit r = []" unfolding dropWhile_eq_Nil_conv .
    with True show ?thesis by (simp add: v re_stream_function_def dropWhile_stop n del: dropWhile_eq_Nil_conv)
  next
    case False
    then have d: "dropWhile is_digit (r @ newline # s) = dropWhile is_digit r @ newline # s"
      by (auto simp: dropWhile_append1)
    obtain x r' where "dropWhile is_digit r = x # r'" using False by (cases "dropWhile is_digit r") auto
    then show ?thesis by (simp add: v re_stream_function_def t d)
  qed
qed

lemma take_line:
  assumes "ToUpper (take k (v @ newline # s)) = w" and "newline \<notin> set w"
  shows "ToUpper (take k v) = w"
proof (cases "k \<le> length v")
  case False
  then have "newline \<in> set (take k (v @ newline # s))" by (simp add: take_Cons')
  then have "newline \<in> set w" using assms(1) newline_simps(2) unfolding ToUpper_def by (metis image_eqI set_map)
  with assms(2) show ?thesis by simp
qed (use assms in simp)

lemma wait_bit_line: "re_wait_bit v = None \<Longrightarrow> re_wait_bit (v @ newline # s) = None"
  using take_line [of 1 v s "''W''"] take_line [of 3 v s "''[W]''"]
  by (simp add: re_wait_bit_def newline_def split: if_splits del: One_nat_def) blast

lemma direction_line: "re_direction v = None \<Longrightarrow> re_direction (v @ newline # s) = None"
  using take_line [of 4 v s "''H->E''"] take_line [of 5 v s "''H<->E''"] take_line [of 4 v s "''H<-E''"]
  by (simp add: re_direction_def newline_def split: if_splits) blast

lemma scan_all_header:
  assumes "\<not> starts_in blanks s" and "scan_header s = (t, v, Some m, n)"
  shows "scan_all U LexMessageHeader s = (t, v) # scan_all U m (drop n s)"
proof -
  have "run_length blanks s = 0" using assms(1) by (cases s) (auto simp: run_length_def starts_in_def)
  then show ?thesis using assms(2) by (subst scan_all.simps) (simp add: blank_length_def)
qed

text \<open>The cases of the reference scanner that a header line meets.\<close>

lemma scan_header_cases:
  assumes "s \<noteq> []" and "take 2 s \<noteq> ''//''"
  shows "re_stream_function s = Some n \<Longrightarrow>
      scan_header s = (TkStreamFunction, ToUpper (take n s), Some LexMessageHeader, n)"
    and "re_stream_function s = None \<Longrightarrow> re_wait_bit s = Some n \<Longrightarrow>
      scan_header s = (TkWaitBit, ToUpper (take n s), Some LexMessageHeader, n)"
    and "re_stream_function s = None \<Longrightarrow> re_wait_bit s = None \<Longrightarrow> re_direction s = Some n \<Longrightarrow>
      scan_header s = (TkDirection, ToUpper (take n s), Some LexMessageHeader, n)"
    and "re_stream_function s = None \<Longrightarrow> re_wait_bit s = None \<Longrightarrow> re_direction s = None \<Longrightarrow>
      hd s \<noteq> CHR ''.'' \<Longrightarrow> hd s \<noteq> CHR ''<'' \<Longrightarrow> width_of s + name_run (drop (width_of s) s) = n \<Longrightarrow>
      scan_header s = (TkMessageName, take n s, Some LexMessageHeader, n)"
  using assms by (simp_all add: scan_header_def)

lemma no_stream_function: "upper_char c \<noteq> CHR ''S'' \<Longrightarrow> re_stream_function (c # s) = None"
  by (auto simp: re_stream_function_def split: list.split)

lemma header_letters [simp]:
  "upper_char (CHR ''W'') = CHR ''W''" "upper_char (CHR ''['') = CHR ''[''" "upper_char (CHR '']'') = CHR '']''"
  "upper_char (CHR ''H'') = CHR ''H''" "upper_char (CHR ''E'') = CHR ''E''" "upper_char (CHR ''-'') = CHR ''-''"
  "upper_char (CHR ''<'') = CHR ''<''" "upper_char (CHR ''>'') = CHR ''>''" "CHR ''W'' \<notin> set blanks"
  "CHR ''H'' \<notin> set blanks" "CHR ''S'' \<notin> set blanks"
  by code_simp+

lemma scan_name_line:
  assumes "good_name v" and "v \<noteq> []"
  shows "scan_all U LexMessageHeader (v @ newline # s) = (TkMessageName, v) # scan_all U LexMessageHeader (newline # s)"
proof -
  obtain c r where v: "v = c # r" using assms(2) by (cases v) auto
  have g: "of_char c < (128::nat)" "\<not> rune_is_space (of_char c)" "c \<noteq> CHR ''.''" "c \<noteq> CHR ''<''"
    "list_all (\<lambda>c. of_char c < (128::nat) \<and> \<not> rune_is_space (of_char c)) r" "comment_free r"
    using assms(1) by (cases r; simp add: good_name_def v)+
  let ?s = "v @ newline # s"
  have t: "take 2 ?s \<noteq> ''//''" using assms(1) by (cases r) (auto simp: good_name_def v take_Cons')
  have re: "re_stream_function ?s = None" "re_wait_bit ?s = None" "re_direction ?s = None"
    using stream_function_line [OF assms(2)] wait_bit_line direction_line assms(1) by (simp_all add: good_name_def)
  have "width_of ?s + name_run (drop (width_of ?s) ?s) = length v"
    using g(1) name_run_line [OF g(5,6), of s] by (simp add: v rune_of_ascii)
  from scan_header_cases(4) [OF _ t re _ _ this]
  have "scan_header ?s = (TkMessageName, v, Some LexMessageHeader, length v)" using g(3,4) by (simp add: v)
  moreover have "c \<notin> set blanks" using g(2) by (auto simp: blanks_def newline_def rune_is_space_def)
  ultimately show ?thesis by (subst scan_all_header) (auto simp: v)
qed

section \<open>The header line\<close>

lemma upper_digit: "\<forall>c \<in> set s. is_digit c \<Longrightarrow> ToUpper s = s"
  by (induction s) (auto simp: ToUpper_def upper_char_def is_digit_def)

lemma scan_stream_function:
  assumes "\<not> is_digit c"
  shows "scan_all U LexMessageHeader (''S'' @ dec_nat a @ ''F'' @ dec_nat b @ c # s)
    = (TkStreamFunction, ''S'' @ dec_nat a @ ''F'' @ dec_nat b) # scan_all U LexMessageHeader (c # s)"
proof -
  have "is_digit c" if "c \<in> set (dec_nat n)" for c n using dec_nat_digits [OF that] by (simp add: is_digit_def)
  then have d: "\<forall>c \<in> set (dec_nat n). is_digit c" for n by blast
  have f: "\<not> is_digit (CHR ''F'')" "upper_char (CHR ''F'') = CHR ''F''" "upper_char (CHR ''S'') = CHR ''S''" by code_simp+
  let ?t = "''S'' @ dec_nat a @ ''F'' @ dec_nat b"
  have "re_stream_function (?t @ c # s) = Some (length ?t)"
    using d f assms by (simp add: re_stream_function_def takeWhile_stop dropWhile_stop)
  moreover have "ToUpper ?t = ?t" using upper_digit [OF d, of a] upper_digit [OF d, of b] f by (simp add: ToUpper_def)
  ultimately have "scan_header (?t @ c # s) = (TkStreamFunction, ?t, Some LexMessageHeader, length ?t)"
    using scan_header_cases(1) [of "?t @ c # s" "length ?t"] by simp
  then show ?thesis by (subst scan_all_header) auto
qed

lemma scan_wait:
  "scan_all U LexMessageHeader (''W'' @ s) = (TkWaitBit, ''W'') # scan_all U LexMessageHeader s"
  "scan_all U LexMessageHeader (''[W]'' @ s) = (TkWaitBit, ''[W]'') # scan_all U LexMessageHeader s"
proof -
  have "re_wait_bit (''W'' @ s) = Some 1" "re_wait_bit (''[W]'' @ s) = Some 3"
    by (simp_all add: re_wait_bit_def ToUpper_def take_Cons')
  then have "scan_header (''W'' @ s) = (TkWaitBit, ''W'', Some LexMessageHeader, 1)"
    "scan_header (''[W]'' @ s) = (TkWaitBit, ''[W]'', Some LexMessageHeader, 3)"
    using scan_header_cases(2) [of "''W'' @ s" 1] scan_header_cases(2) [of "''[W]'' @ s" 3]
    by (simp_all add: no_stream_function ToUpper_def take_Cons')
  then show "scan_all U LexMessageHeader (''W'' @ s) = (TkWaitBit, ''W'') # scan_all U LexMessageHeader s"
    "scan_all U LexMessageHeader (''[W]'' @ s) = (TkWaitBit, ''[W]'') # scan_all U LexMessageHeader s"
    using scan_all_header [of "''W'' @ s" TkWaitBit "''W''" LexMessageHeader 1 U]
      scan_all_header [of "''[W]'' @ s" TkWaitBit "''[W]''" LexMessageHeader 3 U] by simp_all
qed

lemma scan_direction:
  assumes "d \<in> {''H->E'', ''H<-E'', ''H<->E''}"
  shows "scan_all U LexMessageHeader (d @ s) = (TkDirection, d) # scan_all U LexMessageHeader s"
proof -
  obtain r where r: "d @ s = CHR ''H'' # r" "take 2 (d @ s) \<noteq> ''//''" using assms by auto
  have re: "re_wait_bit (d @ s) = None" "re_direction (d @ s) = Some (length d)" "ToUpper d = d"
    using assms by (auto simp: re_wait_bit_def re_direction_def ToUpper_def take_Cons')
  have "scan_header (d @ s) = (TkDirection, ToUpper (take (length d) (d @ s)), Some LexMessageHeader, length d)"
    by (rule scan_header_cases(3)) (use r re no_stream_function [of "CHR ''H''" r] in auto)
  then have "scan_header (d @ s) = (TkDirection, d, Some LexMessageHeader, length d)" using re(3) by simp
  moreover have "\<not> starts_in blanks (d @ s)" using r(1) by simp
  ultimately show ?thesis using scan_all_header [of "d @ s" TkDirection d LexMessageHeader "length d" U] by simp
qed

definition header_tokens :: "data_message \<Rightarrow> (tokenType \<times> string) list" where
  "header_tokens m =
     [(TkStreamFunction, ''S'' @ dec (dm_stream m) @ ''F'' @ dec (dm_function m))]
     @ (if dm_waitBit m = 1 then [(TkWaitBit, ''W'')] else if dm_waitBit m = 2 then [(TkWaitBit, ''[W]'')] else [])
     @ [(TkDirection, dm_direction m)]
     @ (if dm_name m \<noteq> [] then [(TkMessageName, dm_name m)] else [])"

lemma scan_header_line:
  assumes "checkRep m = Inr ()" and "good_name (dm_name m)"
  shows "scan_all U LexMessageHeader (Header m @ newline # s)
    = header_tokens m @ scan_all U LexMessageHeader (newline # s)"
proof -
  let ?name = "(if dm_name m \<noteq> [] then '' '' @ dm_name m else []) @ newline # s"
  let ?dir = "CHR '' '' # dm_direction m @ ?name"
  note rep = assms(1) [unfolded checkRep_Inr_iff]
  have dec: "dec (dm_stream m) = dec_nat (nat (dm_stream m))" "dec (dm_function m) = dec_nat (nat (dm_function m))"
    using rep by (simp_all add: dec_def)
  have name: "scan_all U LexMessageHeader ?name
      = (if dm_name m \<noteq> [] then [(TkMessageName, dm_name m)] else []) @ scan_all U LexMessageHeader (newline # s)"
    using scan_name_line [OF assms(2), of U s] by (simp add: scan_all_blank)
  have "dm_direction m \<in> {''H->E'', ''H<-E'', ''H<->E''}" using rep by blast
  then have dir: "scan_all U LexMessageHeader ?dir = (TkDirection, dm_direction m) # scan_all U LexMessageHeader ?name"
    unfolding scan_all_blank(2) [OF blanks_simps(1)] by (rule scan_direction)
  have wait: "scan_all U LexMessageHeader
      ((if dm_waitBit m = 1 then '' W'' else if dm_waitBit m = 2 then '' [W]'' else []) @ ?dir)
      = (if dm_waitBit m = 1 then [(TkWaitBit, ''W'')] else if dm_waitBit m = 2 then [(TkWaitBit, ''[W]'')] else [])
        @ scan_all U LexMessageHeader ?dir"
    using scan_wait [of U ?dir] by (simp add: scan_all_blank(2))
  obtain t where t: "(if dm_waitBit m = 1 then '' W'' else if dm_waitBit m = 2 then '' [W]'' else []) @ ?dir = CHR '' '' # t"
    by (cases "dm_waitBit m = 1"; cases "dm_waitBit m = 2") auto
  have sp: "\<not> is_digit (CHR '' '')" by code_simp
  have "Header m @ newline # s = ''S'' @ dec_nat (nat (dm_stream m)) @ ''F'' @ dec_nat (nat (dm_function m)) @ CHR '' '' # t"
    unfolding t [symmetric] by (simp add: Header_def dec)
  then show ?thesis
    using scan_stream_function [OF sp, of U "nat (dm_stream m)" "nat (dm_function m)" t] t wait dir name
    by (simp add: header_tokens_def dec)
qed

section \<open>A whole message\<close>

text \<open>In front of an opening bracket the mode makes no difference.\<close>

lemma scan_all_open: "scan_all U LexMessageHeader (CHR ''<'' # s) = scan_all U LexMessageText (CHR ''<'' # s)"
proof -
  have "scan_header (CHR ''<'' # s) = (TkLeftAngleBracket, take 1 (CHR ''<'' # s), Some LexMessageText, 1)"
    by (simp add: scan_header_def no_stream_function re_wait_bit_def re_direction_def ToUpper_def take_Cons')
  then show ?thesis unfolding scan_open
    using scan_all_header [of "CHR ''<'' # s" TkLeftAngleBracket "''<''" LexMessageText 1 U] by simp
qed

lemma scan_message_end:
  "scan_all U LexMessageText ''.'' = [(TkMessageEnd, ''.''), (TkEOF, ''EOF'')]"
  "scan_all U LexMessageHeader ''.'' = [(TkMessageEnd, ''.''), (TkEOF, ''EOF'')]"
proof -
  have e: "scan_all U LexMessageHeader [] = [(TkEOF, ''EOF'')]"
    by (subst scan_all.simps) (simp add: scan_header_def)
  have "scan_text U ''.'' = (TkMessageEnd, ''.'', Some LexMessageHeader, 1)"
    by (simp add: scan_text_def re_ellipsis_def re_name_def is_letter_def number_start_def is_digit_def)
  then show "scan_all U LexMessageText ''.'' = [(TkMessageEnd, ''.''), (TkEOF, ''EOF'')]"
    using scan_all_text [of "''.''" U TkMessageEnd "''.''" LexMessageHeader 1] by (simp add: e)
  have "scan_header ''.'' = (TkMessageEnd, ''.'', Some LexMessageHeader, 1)"
    by (simp add: scan_header_def no_stream_function upper_char_def re_wait_bit_def re_direction_def ToUpper_def)
  then show "scan_all U LexMessageHeader ''.'' = [(TkMessageEnd, ''.''), (TkEOF, ''EOF'')]"
    using scan_all_header [of "''.''" TkMessageEnd "''.''" LexMessageHeader 1 U] by (simp add: e)
qed

lemma item_String_start:
  assumes "Variables it = []" and "it \<noteq> EmptyNode"
  shows "\<exists>r. item_String ff 0 it = CHR ''<'' # r"
  using assms no_variables(1) [OF assms(1)]
  by (cases it) (auto simp: ascii_String_def binary_String_def boolean_String_def float_String_def int_String_def
      uint_String_def sized_item_def indent_def)

definition message_tokens :: "(int \<Rightarrow> 64 word \<Rightarrow> string) \<Rightarrow> data_message \<Rightarrow> (tokenType \<times> string) list" where
  "message_tokens ff m = header_tokens m @ item_tokens ff (dm_dataItem m) @ [(TkMessageEnd, ''.''), (TkEOF, ''EOF'')]"

text \<open>Messages whose text can be read back.\<close>

definition message_readable :: "(int \<Rightarrow> 64 word \<Rightarrow> string) \<Rightarrow> data_message \<Rightarrow> bool" where
  "message_readable ff m \<longleftrightarrow> checkRep m = Inr () \<and> good_name (dm_name m) \<and> rep_ok (dm_dataItem m)
     \<and> Variables (dm_dataItem m) = [] \<and> (dm_dataItem m \<noteq> EmptyNode \<longrightarrow> item_readable ff (dm_dataItem m))"

lemma scan_message:
  assumes "message_readable ff m"
  shows "scan_all U LexMessageHeader (DataMessage_String ff m) = message_tokens ff m"
proof (cases "dm_dataItem m = EmptyNode")
  case True
  then show ?thesis using assms scan_header_line [of m U "''.''"]
    by (simp add: message_readable_def DataMessage_String_def message_tokens_def scan_all_blank scan_message_end)
next
  case False
  let ?it = "dm_dataItem m"
  have it: "rep_ok ?it" "Variables ?it = []" "item_readable ff ?it"
    using assms False by (simp_all add: message_readable_def)
  obtain r where r: "item_String ff 0 ?it = CHR ''<'' # r" using item_String_start [OF it(2) False, of ff] by blast
  have "scan_all U LexMessageHeader (newline # item_String ff 0 ?it @ newline # ''.'')
      = scan_all U LexMessageText (item_String ff 0 ?it @ newline # ''.'')"
    by (simp add: scan_all_blank r scan_all_open)
  also have "\<dots> = item_tokens ff ?it @ [(TkMessageEnd, ''.''), (TkEOF, ''EOF'')]"
    by (simp add: scan_item [OF it(1,2) False it(3)] scan_all_blank scan_message_end)
  finally show ?thesis
    using scan_header_line [of m U "item_String ff 0 ?it @ newline # ''.''"] assms False
    by (simp add: message_readable_def DataMessage_String_def node_String_def message_tokens_def)
qed

end
