(* ===== verification/Sml_Parser.thy ===== *)
theory Sml_Parser
  imports Sml_Tokens Hsms_Message "HOL-Library.While_Combinator"
begin

text \<open>
  The parser of the SML text format, \<open>lib-secs2-hsms-go/pkg/parser/sml/parser.go\<close>. Its state is the
  record \<open>sml_parser\<close>; every function takes and returns it. A function that may panic returns
  \<open>'a go\<close> beside the state, since \<open>parseDataItem\<close> recovers from a panic and goes on with the state the
  panic left. The map \<open>variableNames\<close> is the list of its keys. The text of errors and warnings is the
  one the source formats. The debug output that the source prints is left out. The recursion and the
  loops over tokens take a fuel argument; \<open>Sml_Sound\<close> shows that \<open>ParseSML\<close> passes enough.
\<close>

section \<open>State\<close>

record parse_error =
  pe_line :: nat
  pe_col :: nat
  pe_text :: string

record sml_parser =
  sp_lexer :: lexer
  sp_queue :: "token list"
  sp_variableNames :: "string list"
  sp_ellipsisCount :: int
  sp_messages :: "data_message list"
  sp_errors :: "parse_error list"
  sp_warnings :: "parse_error list"

definition new_parser :: "string \<Rightarrow> sml_parser" where
  "new_parser input = \<lparr>sp_lexer = lex input, sp_queue = [], sp_variableNames = [],
     sp_ellipsisCount = 0, sp_messages = [], sp_errors = [], sp_warnings = []\<rparr>"

definition error_string :: "parse_error \<Rightarrow> string" where
  "error_string pe =
     ''Ln '' @ dec (int (pe_line pe)) @ '', Col '' @ dec (int (pe_col pe)) @ '': '' @ pe_text pe"

text \<open>The next token that is no comment.\<close>

definition next_uncommented :: "unicode \<Rightarrow> lexer \<Rightarrow> token \<times> lexer" where
  "next_uncommented U l =
     while (\<lambda>(t, l). tk_typ t = TkComment) (\<lambda>(t, l). nextToken U l) (nextToken U l)"

definition sp_peek :: "unicode \<Rightarrow> sml_parser \<Rightarrow> token \<times> sml_parser" where
  "sp_peek U p = (case sp_queue p of
      t # ts \<Rightarrow> (t, p)
    | [] \<Rightarrow> (case next_uncommented U (sp_lexer p) of
        (t, l) \<Rightarrow> (t, p\<lparr>sp_lexer := l, sp_queue := [t]\<rparr>)))"

definition acceptAny :: "unicode \<Rightarrow> sml_parser \<Rightarrow> token \<times> sml_parser" where
  "acceptAny U p = (case sp_peek U p of (t, p1) \<Rightarrow> (t, p1\<lparr>sp_queue := tl (sp_queue p1)\<rparr>))"

definition sp_accept :: "unicode \<Rightarrow> tokenType \<Rightarrow> sml_parser \<Rightarrow> token \<times> bool \<times> sml_parser" where
  "sp_accept U typ p = (case sp_peek U p of (t, p1) \<Rightarrow>
     if tk_typ t = typ then (case acceptAny U p1 of (t', p2) \<Rightarrow> (t', True, p2)) else (t, False, p1))"

definition sp_errorf :: "token \<Rightarrow> string \<Rightarrow> sml_parser \<Rightarrow> sml_parser" where
  "sp_errorf t text p = p\<lparr>sp_errors := sp_errors p
     @ [\<lparr>pe_line = tk_line t, pe_col = tk_col t, pe_text = text\<rparr>]\<rparr>"

definition sp_warningf :: "token \<Rightarrow> string \<Rightarrow> sml_parser \<Rightarrow> sml_parser" where
  "sp_warningf t text p = p\<lparr>sp_warnings := sp_warnings p
     @ [\<lparr>pe_line = tk_line t, pe_col = tk_col t, pe_text = text\<rparr>]\<rparr>"

definition add_variable :: "string \<Rightarrow> sml_parser \<Rightarrow> sml_parser" where
  "add_variable name p = p\<lparr>sp_variableNames := name # sp_variableNames p\<rparr>"

text \<open>Results of the item parsers, and the sequencing of steps that may panic.\<close>

type_synonym 'a sp_result = "'a go \<times> sml_parser"

type_synonym item_result = "(item \<times> bool) sp_result"

definition sp_bind :: "'a sp_result \<Rightarrow> ('a \<Rightarrow> sml_parser \<Rightarrow> 'b sp_result) \<Rightarrow> 'b sp_result" where
  "sp_bind r f = (case r of
      (Inl e, p) \<Rightarrow> (Inl e, p)
    | (Inr x, p) \<Rightarrow> f x p)"

lemma sp_bind_simps [simp]:
  "sp_bind (Inl e, p) f = (Inl e, p)" "sp_bind (Inr x, p) f = f x p"
  by (simp_all add: sp_bind_def)

lemma sp_bind_cong [fundef_cong]:
  assumes "r = r'" and "\<And>x p. r' = (Inr x, p) \<Longrightarrow> f x p = g x p"
  shows "sp_bind r f = sp_bind r' g"
  using assms by (auto simp: sp_bind_def split: prod.splits sum.splits)

definition give_up :: "sml_parser \<Rightarrow> item_result" where
  "give_up p = (Inr (EmptyNode, False), p)"

text \<open>The result of a node factory, which may panic.\<close>

definition made :: "item go \<Rightarrow> sml_parser \<Rightarrow> item_result" where
  "made r p = (case r of Inl e \<Rightarrow> (Inl e, p) | Inr it \<Rightarrow> (Inr (it, True), p))"

definition tokenError_text :: "token \<Rightarrow> string" where
  "tokenError_text t = ''syntax error: '' @ tk_val t"

definition duplicate_text :: "unicode \<Rightarrow> token \<Rightarrow> string" where
  "duplicate_text U t = ''duplicated variable name '' @ Quote U (tk_val t)"

definition found_text :: "unicode \<Rightarrow> string \<Rightarrow> token \<Rightarrow> string" where
  "found_text U expected t = expected @ '', found '' @ Quote U (tk_val t)"

definition squoted :: "string \<Rightarrow> string" where
  "squoted s = [CHR 0x27] @ s @ [CHR 0x27]"

section \<open>The message header\<close>

definition parseStreamFunctionCode :: "unicode \<Rightarrow> sml_parser \<Rightarrow> (int \<times> int \<times> bool) \<times> sml_parser" where
  "parseStreamFunctionCode U p = (case sp_accept U TkStreamFunction p of (t, ok, p1) \<Rightarrow>
     if \<not> ok then ((- 1, - 1, False), sp_errorf t (found_text U ''expected stream function'' t) p1)
     else
       let i = index_of (\<lambda>c. c = CHR ''F'') (tk_val t);
           stream = fst (Atoi (slice 1 i (tk_val t)));
           function = fst (Atoi (drop (i + 1) (tk_val t)));
           p2 = (if 0 \<le> stream \<and> stream < 128 then p1
                 else sp_errorf t ''stream code range overflow, should be in range of [0, 128)'' p1);
           p3 = (if 0 \<le> function \<and> function < 256 then p2
                 else sp_errorf t ''function code range overflow, should be in range of [0, 256)'' p2)
       in ((if 0 \<le> stream \<and> stream < 128 then stream else 0,
            if 0 \<le> function \<and> function < 256 then function else 0, True), p3))"

definition parse_wait_bit :: "unicode \<Rightarrow> int \<Rightarrow> sml_parser \<Rightarrow> int \<times> sml_parser" where
  "parse_wait_bit U function p = (case sp_accept U TkWaitBit p of (t, ok, p1) \<Rightarrow>
     if \<not> ok then (0, p1)
     else if tk_val t = ''W'' then
       (if function mod 2 = 0
        then (0, sp_errorf t ''wait bit cannot be true on reply message (function code is even)'' p1)
        else (1, p1))
     else if tk_val t = ''[W]'' then (2, p1)
     else (0, p1))"

definition parse_direction :: "unicode \<Rightarrow> sml_parser \<Rightarrow> string \<times> sml_parser" where
  "parse_direction U p = (case sp_accept U TkDirection p of (t, ok, p1) \<Rightarrow>
     if ok then (tk_val t, p1)
     else (''H<->E'', sp_warningf t
       (''missing message direction, '' @ [CHR 0x22] @ ''H<->E'' @ [CHR 0x22] @ '' will be used'') p1))"

definition parse_name :: "unicode \<Rightarrow> sml_parser \<Rightarrow> string \<times> sml_parser" where
  "parse_name U p = (case sp_accept U TkMessageName p of (t, ok, p1) \<Rightarrow>
     (if ok then tk_val t else [], p1))"

section \<open>Sizes\<close>

text \<open>Token, lower and upper bound; an upper bound of -1 is none.\<close>

definition parseDataItemSize :: "unicode \<Rightarrow> sml_parser \<Rightarrow> (token \<times> int \<times> int) \<times> sml_parser" where
  "parseDataItemSize U p = (case sp_accept U TkDataItemSize p of (t, ok, p1) \<Rightarrow>
     if \<not> ok then ((t, 0, - 1), p1)
     else
       let v = tk_val t; inner = butlast (tl v);
           i = length (takeWhile (\<lambda>c. c \<noteq> CHR ''.'') v)
       in if i = length v then ((t, fst (Atoi inner), fst (Atoi inner)), p1)
          else case Atoi (butlast (drop (i + 2) v)) of (e, err) \<Rightarrow>
            ((t, fst (Atoi (slice 1 i v)), if err = None \<or> err = Some ErrRange then e else - 1), p1))"

definition checkDataItemSizeError :: "int \<Rightarrow> int \<Rightarrow> int \<Rightarrow> token \<Rightarrow> sml_parser \<Rightarrow> sml_parser" where
  "checkDataItemSizeError n lowerLimit upperLimit t p =
     (if (if upperLimit = - 1 then n < lowerLimit
          else \<not> (lowerLimit \<le> n \<and> n \<le> upperLimit))
      then sp_errorf t (''data item size overflow, got size of '' @ dec n) p else p)"

section \<open>The values of an item\<close>

fun getDataItemValueTokens :: "unicode \<Rightarrow> nat \<Rightarrow> token list \<Rightarrow> sml_parser \<Rightarrow> token list sp_result" where
  "getDataItemValueTokens U 0 tokens p = (Inl NoFuel, p)"
| "getDataItemValueTokens U (Suc n) tokens p = (case sp_peek U p of (t, p1) \<Rightarrow>
     if tk_typ t \<in> {TkNumber, TkBool, TkQuotedString, TkVariable}
     then (case acceptAny U p1 of (t', p2) \<Rightarrow> getDataItemValueTokens U n (tokens @ [t']) p2)
     else if tk_typ t = TkRightAngleBracket then (Inr tokens, p1)
     else (case acceptAny U p1 of (t', p2) \<Rightarrow> (Inr (tokens @ [t']), p2)))"

text \<open>The loop that the parsers of binary, boolean and number items share. \<open>conv\<close> turns a token of
  the item's own kind into a value, \<open>dup\<close> stands in for a variable that is named twice. \<open>None\<close> is the
  early return with \<open>false\<close>.\<close>

fun item_values ::
  "unicode \<Rightarrow> (token \<Rightarrow> sml_parser \<Rightarrow> (goval \<times> sml_parser) option) \<Rightarrow> goval \<Rightarrow> string
     \<Rightarrow> token list \<Rightarrow> goval list \<Rightarrow> sml_parser \<Rightarrow> goval list option \<times> sml_parser" where
  "item_values U conv dup expected [] values p = (Some values, p)"
| "item_values U conv dup expected (t # ts) values p = (case conv t p of
      Some (v, p1) \<Rightarrow> item_values U conv dup expected ts (values @ [v]) p1
    | None \<Rightarrow>
       if tk_typ t = TkVariable then
         (if tk_val t \<in> set (sp_variableNames p)
          then item_values U conv dup expected ts (values @ [dup]) (sp_errorf t (duplicate_text U t) p)
          else item_values U conv dup expected ts (values @ [VString (tk_val t)])
                 (add_variable (tk_val t) p))
       else if tk_typ t = TkError then (None, sp_errorf t (tokenError_text t) p)
       else (None, sp_errorf t (found_text U expected t) p))"

definition parse_values ::
  "unicode \<Rightarrow> nat \<Rightarrow> (token \<Rightarrow> sml_parser \<Rightarrow> (goval \<times> sml_parser) option) \<Rightarrow> goval \<Rightarrow> string
     \<Rightarrow> (goval list \<Rightarrow> item go) \<Rightarrow> sml_parser \<Rightarrow> item_result" where
  "parse_values U n conv dup expected new p =
     sp_bind (getDataItemValueTokens U n [] p) (\<lambda>tokens p1.
       case item_values U conv dup expected tokens [] p1 of
         (None, p2) \<Rightarrow> give_up p2
       | (Some values, p2) \<Rightarrow> made (new values) p2)"

definition binary_conv :: "token \<Rightarrow> sml_parser \<Rightarrow> (goval \<times> sml_parser) option" where
  "binary_conv t p =
     (if tk_typ t \<noteq> TkNumber then None
      else let v = fst (ParseInt (tk_val t) 0) in
        if 0 \<le> v \<and> v < 256 then Some (VInt (word_of_int v), p)
        else Some (VInt 0, sp_errorf t ''binary value overflow, should be in range of [0, 256)'' p))"

definition parseBinary :: "unicode \<Rightarrow> nat \<Rightarrow> sml_parser \<Rightarrow> item_result" where
  "parseBinary U n = parse_values U n binary_conv (VInt 0) ''expected number or variable'' NewBinaryNode"

definition boolean_conv :: "token \<Rightarrow> sml_parser \<Rightarrow> (goval \<times> sml_parser) option" where
  "boolean_conv t p = (if tk_typ t \<noteq> TkBool then None else Some (VBool (tk_val t = ''T''), p))"

definition parseBoolean :: "unicode \<Rightarrow> nat \<Rightarrow> sml_parser \<Rightarrow> item_result" where
  "parseBoolean U n =
     parse_values U n boolean_conv (VBool False) ''expected boolean value or variable'' NewBooleanNode"

definition float_conv :: "unicode \<Rightarrow> nat \<Rightarrow> token \<Rightarrow> sml_parser \<Rightarrow> (goval \<times> sml_parser) option" where
  "float_conv U byteSize t p =
     (if tk_typ t \<noteq> TkNumber then None
      else case ParseFloat (tk_val t) (byteSize * 8) of (v, err) \<Rightarrow>
        (case err of
           None \<Rightarrow> Some (VFloat64 v, p)
         | Some ErrRange \<Rightarrow>
             Some (VFloat64 0, sp_errorf t (''F'' @ dec (int byteSize) @ '' range overflow'') p)
         | Some ErrSyntax \<Rightarrow> Some (VFloat64 0, sp_errorf t (found_text U ''expected float'' t) p)))"

definition sml_parseFloat :: "unicode \<Rightarrow> nat \<Rightarrow> nat \<Rightarrow> sml_parser \<Rightarrow> item_result" where
  "sml_parseFloat U n byteSize =
     parse_values U n (float_conv U byteSize) (VInt 0) ''expected float or variable''
       (NewFloatNode (int byteSize))"

definition int_conv :: "unicode \<Rightarrow> nat \<Rightarrow> token \<Rightarrow> sml_parser \<Rightarrow> (goval \<times> sml_parser) option" where
  "int_conv U byteSize t p =
     (if tk_typ t \<noteq> TkNumber then None
      else case ParseInt (tk_val t) (byteSize * 8) of (v, err) \<Rightarrow>
        Some (VInt64 (word_of_int v), case err of
           None \<Rightarrow> p
         | Some ErrRange \<Rightarrow> sp_errorf t (''I'' @ dec (int byteSize) @ '' range overflow'') p
         | Some ErrSyntax \<Rightarrow> sp_errorf t (found_text U ''expected integer'' t) p))"

definition sml_parseInt :: "unicode \<Rightarrow> nat \<Rightarrow> nat \<Rightarrow> sml_parser \<Rightarrow> item_result" where
  "sml_parseInt U n byteSize =
     parse_values U n (int_conv U byteSize) (VInt 0) ''expected integer or variable''
       (NewIntNode (int byteSize))"

definition uint_conv :: "unicode \<Rightarrow> nat \<Rightarrow> token \<Rightarrow> sml_parser \<Rightarrow> (goval \<times> sml_parser) option" where
  "uint_conv U byteSize t p =
     (if tk_typ t \<noteq> TkNumber then None
      else case ParseUint (tk_val t) (byteSize * 8) of (v, err) \<Rightarrow>
        Some (VUint64 (word_of_nat v), case err of
           None \<Rightarrow> p
         | Some ErrRange \<Rightarrow> sp_errorf t (''U'' @ dec (int byteSize) @ '' range overflow'') p
         | Some ErrSyntax \<Rightarrow> sp_errorf t (found_text U ''expected unsigned integer'' t) p))"

definition sml_parseUint :: "unicode \<Rightarrow> nat \<Rightarrow> nat \<Rightarrow> sml_parser \<Rightarrow> item_result" where
  "sml_parseUint U n byteSize =
     parse_values U n (uint_conv U byteSize) (VInt 0) ''expected unsigned integer or variable''
       (NewUintNode (int byteSize))"

section \<open>ASCII items\<close>

text \<open>The text of a quoted string: what it unquotes to (nothing when it does not), unless that has a
  rune outside of ASCII.\<close>

definition quoted_text :: "unicode \<Rightarrow> token \<Rightarrow> sml_parser \<Rightarrow> string \<times> sml_parser" where
  "quoted_text U t p =
     (let v = (case Unquote (tk_val t) of None \<Rightarrow> [] | Some s \<Rightarrow> s) in
      case find (\<lambda>r. 127 < r) (runes v) of
        None \<Rightarrow> (v, p)
      | Some r \<Rightarrow> ([], sp_errorf t (''expected ASCII characters, found '' @ QuoteRune U r) p))"

definition number_text :: "unicode \<Rightarrow> token \<Rightarrow> sml_parser \<Rightarrow> string \<times> sml_parser" where
  "number_text U t p = (case ParseUint (tk_val t) 0 of (v, err) \<Rightarrow>
     let p1 = (if err = Some ErrSyntax
               then sp_errorf t (found_text U ''expected ASCII number code'' t) p else p)
     in if 127 < v
        then ([char_of (0::nat)], sp_errorf t (found_text U ''overflows ASCII range'' t) p1)
        else ([char_of v], p1))"

text \<open>The loop: \<open>Inl\<close> of an early return, or \<open>Inr\<close> of the literal.\<close>

fun ascii_loop ::
  "unicode \<Rightarrow> bool \<Rightarrow> int \<Rightarrow> int \<Rightarrow> token list \<Rightarrow> string \<Rightarrow> sml_parser \<Rightarrow> item_result" where
  "ascii_loop U single minLength maxLength [] literal p = made (NewASCIINode literal) p"
| "ascii_loop U single minLength maxLength (t # ts) literal p =
     (case tk_typ t of
        TkQuotedString \<Rightarrow>
          (case quoted_text U t p of (s, p1) \<Rightarrow>
             ascii_loop U single minLength maxLength ts (literal @ s) p1)
      | TkNumber \<Rightarrow>
          (case number_text U t p of (s, p1) \<Rightarrow>
             ascii_loop U single minLength maxLength ts (literal @ s) p1)
      | TkVariable \<Rightarrow>
          if \<not> single
          then give_up (sp_errorf t ''variable cannot co-exist with other literals in ASCII data item'' p)
          else if tk_val t \<in> set (sp_variableNames p)
          then made (NewASCIINode (replicate (nat minLength) (CHR ''*'')))
                 (sp_errorf t (duplicate_text U t) p)
          else made (NewASCIINodeVariable (tk_val t) minLength maxLength) (add_variable (tk_val t) p)
      | TkError \<Rightarrow> give_up (sp_errorf t (tokenError_text t) p)
      | _ \<Rightarrow> give_up (sp_errorf t
               (found_text U ''expected quoted string, ASCII number code or variable'' t) p))"

definition parseASCII :: "unicode \<Rightarrow> nat \<Rightarrow> int \<Rightarrow> int \<Rightarrow> sml_parser \<Rightarrow> item_result" where
  "parseASCII U n minLength maxLength p =
     sp_bind (getDataItemValueTokens U n [] p) (\<lambda>tokens p1.
       ascii_loop U (length tokens = 1) minLength maxLength tokens [] p1)"

section \<open>Items and lists\<close>

definition leaf_parser :: "unicode \<Rightarrow> nat \<Rightarrow> string \<Rightarrow> int \<Rightarrow> int \<Rightarrow> sml_parser \<Rightarrow> item_result" where
  "leaf_parser U n typ sizeStart sizeEnd =
     (if typ = ''A'' then parseASCII U n sizeStart sizeEnd
      else if typ = ''B'' then parseBinary U n
      else if typ = ''BOOLEAN'' then parseBoolean U n
      else if typ = ''F4'' then sml_parseFloat U n 4
      else if typ = ''F8'' then sml_parseFloat U n 8
      else if typ = ''I1'' then sml_parseInt U n 1
      else if typ = ''I2'' then sml_parseInt U n 2
      else if typ = ''I4'' then sml_parseInt U n 4
      else if typ = ''I8'' then sml_parseInt U n 8
      else if typ = ''U1'' then sml_parseUint U n 1
      else if typ = ''U2'' then sml_parseUint U n 2
      else if typ = ''U4'' then sml_parseUint U n 4
      else sml_parseUint U n 8)"

text \<open>What follows the values: the size is checked and the closing bracket read.\<close>

definition close_item ::
  "unicode \<Rightarrow> token \<Rightarrow> int \<Rightarrow> int \<Rightarrow> item \<times> bool \<Rightarrow> sml_parser \<Rightarrow> item_result" where
  "close_item U sizeToken sizeStart sizeEnd r p = (case r of (item, ok) \<Rightarrow>
     if \<not> ok then give_up p
     else
       let p1 = (if 0 \<le> Size item
                 then checkDataItemSizeError (Size item) sizeStart sizeEnd sizeToken p else p) in
       case sp_accept U TkRightAngleBracket p1 of (t, found, p2) \<Rightarrow>
         if \<not> found then give_up (sp_errorf t (found_text U (''expected '' @ squoted ''>'') t) p2)
         else (Inr (item, ok), p2))"

definition recovered :: "unicode \<Rightarrow> token \<Rightarrow> item_result \<Rightarrow> item_result" where
  "recovered U t r = (case r of
      (Inl (Panic s), p) \<Rightarrow>
        give_up (sp_warningf t (''Recovered from panic '' @ Quote U s
            @ ''. Please submit an issue to handle this error in parser.'') (sp_errorf t s p))
    | _ \<Rightarrow> r)"

definition zero_token :: token where
  "zero_token = \<lparr>tk_typ = TkEOF, tk_val = [], tk_line = 0, tk_col = 0\<rparr>"

text \<open>The part of \<open>parseDataItem\<close> behind the opening bracket; \<open>lst\<close> parses the items of a list.\<close>

definition item_body :: "unicode \<Rightarrow> nat \<Rightarrow> (sml_parser \<Rightarrow> item_result) \<Rightarrow> sml_parser \<Rightarrow> item_result" where
  "item_body U n lst p1 = (case sp_accept U TkDataItemType p1 of (t, isType, p2) \<Rightarrow>
     if \<not> isType then give_up (sp_errorf t (''invalid data item type: '' @ Quote U (tk_val t)) p2)
     else case sp_peek U p2 of (s, p3) \<Rightarrow>
       if tk_typ s = TkError then give_up (sp_errorf s (tokenError_text s) p3)
       else case (if tk_typ s = TkDataItemSize then parseDataItemSize U p3 else ((zero_token, 0, - 1), p3)) of
         ((sizeToken, sizeStart, sizeEnd), p4) \<Rightarrow>
           sp_bind (if tk_val t = ''L'' then lst p4 else leaf_parser U n (tk_val t) sizeStart sizeEnd p4)
             (close_item U sizeToken sizeStart sizeEnd))"

fun parseDataItem :: "unicode \<Rightarrow> nat \<Rightarrow> sml_parser \<Rightarrow> item_result"
and parseList :: "unicode \<Rightarrow> nat \<Rightarrow> goval list \<Rightarrow> sml_parser \<Rightarrow> item_result" where
  "parseDataItem U 0 p = (Inl NoFuel, p)"
| "parseDataItem U (Suc n) p = (case sp_accept U TkLeftAngleBracket p of (tokenLAB, ok, p1) \<Rightarrow>
     if \<not> ok then give_up (sp_errorf tokenLAB (found_text U (''expected '' @ squoted ''<'') tokenLAB) p1)
     else recovered U tokenLAB (item_body U n (parseList U n []) p1))"
| "parseList U 0 values p = (Inl NoFuel, p)"
| "parseList U (Suc n) values p = (case sp_peek U p of (t, p1) \<Rightarrow>
     (case tk_typ t of
        TkLeftAngleBracket \<Rightarrow>
          sp_bind (parseDataItem U n p1) (\<lambda>(childItem, ok) p2.
            if \<not> ok then give_up p2 else parseList U n (values @ [VItem childItem]) p2)
      | TkVariable \<Rightarrow>
          (case acceptAny U p1 of (t', p2) \<Rightarrow>
             if tk_val t' \<in> set (sp_variableNames p2)
             then parseList U n (values @ [VItem EmptyNode]) (sp_errorf t' (duplicate_text U t') p2)
             else parseList U n (values @ [VString (tk_val t')]) (add_variable (tk_val t') p2))
      | TkEllipsis \<Rightarrow>
          (case acceptAny U p1 of (t', p2) \<Rightarrow>
             if values = [] then give_up (sp_errorf t' ''ellipsis cannot be the first item in list'' p2)
             else
               let val = ''...['' @ dec (sp_ellipsisCount p2) @ '']'';
                   p3 = p2\<lparr>sp_ellipsisCount := sp_ellipsisCount p2 + 1\<rparr>;
                   p4 = (if tk_val t' \<noteq> ''...'' \<and> tk_val t' \<noteq> val
                         then sp_warningf t' (''wrong ellipsis count, '' @ Quote U val @ '' will be used'') p3
                         else p3)
               in parseList U n (values @ [VString val]) p4)
      | TkRightAngleBracket \<Rightarrow> made (NewListNode values) p1
      | TkError \<Rightarrow> give_up (sp_errorf t (tokenError_text t) p1)
      | _ \<Rightarrow> give_up (sp_errorf t
               (found_text U (''expected child data item, variable, ellipsis, or '' @ squoted ''>'') t) p1)))"

section \<open>Messages\<close>

definition parse_message_text :: "unicode \<Rightarrow> nat \<Rightarrow> sml_parser \<Rightarrow> item_result" where
  "parse_message_text U n p = (case sp_peek U p of (t, p1) \<Rightarrow>
     if tk_typ t = TkMessageEnd then (Inr (EmptyNode, True), p1)
     else if tk_typ t = TkLeftAngleBracket then parseDataItem U n p1
     else give_up (sp_errorf t (found_text U (''expected '' @ squoted ''<'' @ '' or '' @ squoted ''.'') t) p1))"

definition parse_message :: "unicode \<Rightarrow> nat \<Rightarrow> sml_parser \<Rightarrow> bool sp_result" where
  "parse_message U n p0 =
     (case parseStreamFunctionCode U (p0\<lparr>sp_variableNames := [], sp_ellipsisCount := 0\<rparr>) of
        ((stream, function, ok), p1) \<Rightarrow>
        if \<not> ok then (Inr False, p1)
        else case parse_wait_bit U function p1 of (waitBit, p2) \<Rightarrow>
          (case parse_direction U p2 of (direction, p3) \<Rightarrow>
            (case parse_name U p3 of (msgName, p4) \<Rightarrow>
              sp_bind (parse_message_text U n p4) (\<lambda>(dataItem, ok) p5.
                if \<not> ok then (Inr False, p5)
                else case sp_accept U TkMessageEnd p5 of (t, isEnd, p6) \<Rightarrow>
                  if \<not> isEnd
                  then (Inr False, sp_errorf t (found_text U (''expected message end character '' @ squoted ''.'') t) p6)
                  else case NewDataMessage msgName stream function waitBit direction dataItem of
                    Inl e \<Rightarrow> (Inl e, p6)
                  | Inr m \<Rightarrow> (Inr True, p6\<lparr>sp_messages := sp_messages p6 @ [m]\<rparr>)))))"

fun parse_messages :: "unicode \<Rightarrow> nat \<Rightarrow> sml_parser \<Rightarrow> unit sp_result" where
  "parse_messages U 0 p = (Inl NoFuel, p)"
| "parse_messages U (Suc n) p = (case sp_peek U p of (t, p1) \<Rightarrow>
     if tk_typ t = TkEOF then (Inr (), p1)
     else sp_bind (parse_message U n p1) (\<lambda>ok p2.
       if \<not> ok then (Inr (), p2) else parse_messages U n p2))"

definition parse_fuel :: "string \<Rightarrow> nat" where
  "parse_fuel input = length input + 2"

definition ParseSML :: "unicode \<Rightarrow> string \<Rightarrow> (data_message list \<times> string list \<times> string list) go" where
  "ParseSML U input =
     (case parse_messages U (parse_fuel input) (new_parser input) of
        (Inl e, p) \<Rightarrow> Inl e
      | (Inr _, p) \<Rightarrow>
         Inr (if sp_errors p \<noteq> [] then [] else sp_messages p,
              map error_string (sp_errors p), map error_string (sp_warnings p)))"

end
