(* ===== verification/Sml_Sound.thy ===== *)
theory Sml_Sound
  imports Sml_Parser
begin

text \<open>
  The SML parser always comes back: the fuel it passes is enough, every panic of a node factory is
  recovered, and the only one that leaves \<open>ParseSML\<close> is that of the message constructor on a name with
  a white space in it. What it returns are messages that satisfy the representation invariants, and
  none when there is an error. \<open>faces U p ts\<close> is the abstraction that carries the proofs: \<open>ts\<close> are the
  tokens, without comments, that the parser has before it.
\<close>

section \<open>The tokens before the parser\<close>

lemma uncommented_simps [simp]:
  "uncommented [] = []"
  "uncommented ((TkComment, v) # ts) = uncommented ts"
  "y \<noteq> TkComment \<Longrightarrow> uncommented ((y, v) # ts) = (y, v) # uncommented ts"
  by (simp_all add: uncommented_def)

lemma uncommented_length: "length (uncommented ts) \<le> length ts"
  by (simp add: uncommented_def)

definition next_of :: "(tokenType \<times> string) list \<Rightarrow> tokenType \<times> string" where
  "next_of ts = (case ts of [] \<Rightarrow> (TkEOF, []) | x # _ \<Rightarrow> x)"

lemma next_of_simps [simp]: "next_of [] = (TkEOF, [])" "next_of (x # ts) = x"
  by (simp_all add: next_of_def)

lemma delivers_closed: "delivers U l [] \<longleftrightarrow> lx_state l = None \<and> lx_tokens l = []"
  by (auto simp: delivers_def) (subst (asm) scan_all.simps, simp split: prod.splits)+

lemma next_uncommented_delivers:
  assumes "delivers U l ts"
  shows "\<exists>t l' ts'. next_uncommented U l = (t, l') \<and> delivers U l' ts'
    \<and> next_of (uncommented ts) = (tk_typ t, tk_val t) \<and> uncommented ts' = tl (uncommented ts)"
  using assms
proof (induction ts arbitrary: l)
  case Nil
  have "nextToken U l = (closed_token, l)" using Nil by (simp add: delivers_closed nextToken_closed)
  then have "next_uncommented U l = (closed_token, l)"
    by (simp add: next_uncommented_def) (subst while_unfold, simp add: closed_token_def)
  with Nil show ?case by (intro exI [of _ closed_token] exI [of _ l] exI [of _ "[]"]) (simp add: closed_token_def)
next
  case (Cons x ts)
  obtain y v where x: "x = (y, v)" by (cases x)
  obtain t l' where n: "nextToken U l = (t, l')" "tk_typ t = y" "tk_val t = v" and d: "delivers U l' ts"
    using delivers_nextToken [OF Cons.prems] x by auto
  show ?case
  proof (cases "y = TkComment")
    case True
    then have "next_uncommented U l = next_uncommented U l'"
      using n by (simp add: next_uncommented_def) (subst while_unfold, simp)
    with Cons.IH [OF d] True x show ?thesis by simp
  next
    case False
    then have "next_uncommented U l = (t, l')"
      using n by (simp add: next_uncommented_def) (subst while_unfold, simp)
    with n d False x show ?thesis by (intro exI [of _ t] exI [of _ l'] exI [of _ ts]) simp
  qed
qed

text \<open>The parser's queue holds at most the token it has looked at.\<close>

definition faces :: "unicode \<Rightarrow> sml_parser \<Rightarrow> (tokenType \<times> string) list \<Rightarrow> bool" where
  "faces U p ts \<longleftrightarrow> (\<exists>ts0. delivers U (sp_lexer p) ts0 \<and>
     (case sp_queue p of
        [] \<Rightarrow> ts = uncommented ts0
      | [t] \<Rightarrow> next_of ts = (tk_typ t, tk_val t) \<and> uncommented ts0 = tl ts
      | _ \<Rightarrow> False))"

text \<open>The fields that only the parser's own steps change.\<close>

definition same_core :: "sml_parser \<Rightarrow> sml_parser \<Rightarrow> bool" where
  "same_core p p' \<longleftrightarrow> sp_variableNames p' = sp_variableNames p
     \<and> sp_ellipsisCount p' = sp_ellipsisCount p \<and> sp_messages p' = sp_messages p
     \<and> sp_errors p' = sp_errors p \<and> sp_warnings p' = sp_warnings p"

lemma same_core_refl [simp]: "same_core p p"
  by (simp add: same_core_def)

lemma same_core_trans: "same_core p p' \<Longrightarrow> same_core p' p'' \<Longrightarrow> same_core p p''"
  by (simp add: same_core_def)

lemma peek_faces:
  assumes "faces U p ts"
  obtains t p' where "sp_peek U p = (t, p')" and "next_of ts = (tk_typ t, tk_val t)"
    and "faces U p' ts" and "sp_queue p' = [t]" and "same_core p p'"
proof -
  from assms obtain ts0 where d: "delivers U (sp_lexer p) ts0"
    and q: "case sp_queue p of [] \<Rightarrow> ts = uncommented ts0
      | [t] \<Rightarrow> next_of ts = (tk_typ t, tk_val t) \<and> uncommented ts0 = tl ts | _ \<Rightarrow> False"
    by (auto simp: faces_def)
  show thesis
  proof (cases "sp_queue p")
    case Nil
    from next_uncommented_delivers [OF d] obtain t l' ts' where n: "next_uncommented U (sp_lexer p) = (t, l')"
      "delivers U l' ts'" "next_of (uncommented ts0) = (tk_typ t, tk_val t)" "uncommented ts' = tl (uncommented ts0)"
      by blast
    show thesis
      by (rule that [of t "p\<lparr>sp_lexer := l', sp_queue := [t]\<rparr>"])
        (use n q Nil in \<open>auto simp: sp_peek_def faces_def same_core_def\<close>)
  next
    case (Cons t r)
    with q have r: "r = []" by (auto split: list.splits)
    show thesis
      by (rule that [of t p]) (use assms q Cons r in \<open>auto simp: sp_peek_def\<close>)
  qed
qed

lemma acceptAny_faces:
  assumes "faces U p ts"
  obtains t p' where "acceptAny U p = (t, p')" and "next_of ts = (tk_typ t, tk_val t)"
    and "faces U p' (tl ts)" and "same_core p p'"
proof -
  obtain t p1 where p1: "sp_peek U p = (t, p1)" "next_of ts = (tk_typ t, tk_val t)" "faces U p1 ts"
    "sp_queue p1 = [t]" "same_core p p1" using assms by (rule peek_faces)
  show thesis
    by (rule that [of t "p1\<lparr>sp_queue := []\<rparr>"])
      (use p1 in \<open>auto simp: acceptAny_def faces_def same_core_def\<close>)
qed

lemma accept_faces:
  assumes "faces U p ts"
  obtains t ok p' where "sp_accept U y p = (t, ok, p')" and "next_of ts = (tk_typ t, tk_val t)"
    and "ok \<longleftrightarrow> fst (next_of ts) = y" and "faces U p' (if ok then tl ts else ts)" and "same_core p p'"
proof -
  obtain t p1 where p1: "sp_peek U p = (t, p1)" "next_of ts = (tk_typ t, tk_val t)" "faces U p1 ts"
    "sp_queue p1 = [t]" "same_core p p1" using assms by (rule peek_faces)
  obtain t' p2 where p2: "acceptAny U p1 = (t', p2)" "faces U p2 (tl ts)" "same_core p1 p2"
    and t': "next_of ts = (tk_typ t', tk_val t')" using p1(3) by (rule acceptAny_faces)
  have t: "t' = t" using p2(1) p1(4) by (simp add: acceptAny_def sp_peek_def split: prod.splits)
  show thesis
  proof (cases "tk_typ t = y")
    case True
    then show thesis
      by (intro that [of t True p2]) (use p1 p2 t same_core_trans [OF p1(5) p2(3)] in \<open>auto simp: sp_accept_def\<close>)
  next
    case False
    then show thesis
      by (intro that [of t False p1]) (use p1 in \<open>auto simp: sp_accept_def\<close>)
  qed
qed

lemma faces_core:
  "faces U (sp_errorf t x p) ts = faces U p ts" "faces U (sp_warningf t x p) ts = faces U p ts"
  "faces U (add_variable v p) ts = faces U p ts"
  "faces U (p\<lparr>sp_ellipsisCount := c\<rparr>) ts = faces U p ts"
  "faces U (p\<lparr>sp_messages := ms\<rparr>) ts = faces U p ts"
  "faces U (p\<lparr>sp_variableNames := vs\<rparr>) ts = faces U p ts"
  by (simp_all add: faces_def sp_errorf_def sp_warningf_def add_variable_def)

lemmas [simp] = faces_core

section \<open>The tokens of an item's values\<close>

definition is_value_type :: "tokenType \<Rightarrow> bool" where
  "is_value_type y \<longleftrightarrow> y \<in> {TkNumber, TkBool, TkQuotedString, TkVariable}"

definition value_tokens :: "(tokenType \<times> string) list \<Rightarrow> (tokenType \<times> string) list" where
  "value_tokens ts =
     (let vs = takeWhile (is_value_type \<circ> fst) ts; r = dropWhile (is_value_type \<circ> fst) ts in
      if fst (next_of r) = TkRightAngleBracket then vs else vs @ [next_of r])"

definition pair_of :: "token \<Rightarrow> tokenType \<times> string" where
  "pair_of t = (tk_typ t, tk_val t)"

lemma value_tokens_Cons: "is_value_type (fst x) \<Longrightarrow> value_tokens (x # ts) = x # value_tokens ts"
  by (simp add: value_tokens_def Let_def)

lemma value_tokens_stop: "\<not> is_value_type (fst (next_of ts)) \<Longrightarrow>
    value_tokens ts = (if fst (next_of ts) = TkRightAngleBracket then [] else [next_of ts])"
  by (cases ts) (simp_all add: value_tokens_def)

lemma getDataItemValueTokens_faces:
  assumes "faces U p ts" and "length ts < n"
  shows "\<exists>toks p'. getDataItemValueTokens U n acc p = (Inr (acc @ toks), p')
    \<and> map pair_of toks = value_tokens ts \<and> faces U p' (drop (length toks) ts) \<and> same_core p p'"
  using assms
proof (induction n arbitrary: p ts acc)
  case (Suc n)
  obtain t p1 where p1: "sp_peek U p = (t, p1)" "next_of ts = (tk_typ t, tk_val t)" "faces U p1 ts"
    "sp_queue p1 = [t]" "same_core p p1" using Suc.prems(1) by (rule peek_faces)
  obtain t' p2 where p2: "acceptAny U p1 = (t', p2)" "next_of ts = (tk_typ t', tk_val t')"
    "faces U p2 (tl ts)" "same_core p1 p2" using p1(3) by (rule acceptAny_faces)
  note core = same_core_trans [OF p1(5) p2(4)]
  consider (val) "is_value_type (tk_typ t)" | (rab) "tk_typ t = TkRightAngleBracket"
    | (other) "\<not> is_value_type (tk_typ t)" "tk_typ t \<noteq> TkRightAngleBracket" by blast
  then show ?case
  proof cases
    case val
    then obtain r where ts: "ts = (tk_typ t, tk_val t) # r" using p1(2)
      by (cases ts) (auto simp: is_value_type_def)
    have "faces U p2 r" "length r < n" using p2(3) ts Suc.prems(2) by simp_all
    from Suc.IH [OF this, of "acc @ [t']"] obtain toks p' where ih:
      "getDataItemValueTokens U n (acc @ [t']) p2 = (Inr (acc @ t' # toks), p')"
      "map pair_of toks = value_tokens r" "faces U p' (drop (length toks) r)" "same_core p2 p'" by auto
    have "getDataItemValueTokens U (Suc n) acc p = (Inr (acc @ t' # toks), p')"
      using p1(1) p2(1) val ih(1) by (simp add: is_value_type_def)
    with ih ts val p2(2) same_core_trans [OF core ih(4)] show ?thesis
      by (intro exI [of _ "t' # toks"] exI [of _ p']) (simp add: value_tokens_Cons pair_of_def [of t'])
  next
    case rab
    then show ?thesis using p1 value_tokens_stop [of ts]
      by (intro exI [of _ "[]"] exI [of _ p1]) (simp add: is_value_type_def)
  next
    case other
    then show ?thesis using p1 p2 core value_tokens_stop [of ts]
      by (intro exI [of _ "[t']"] exI [of _ p2]) (simp add: is_value_type_def pair_of_def [of t'] drop_Suc)
  qed
qed simp

section \<open>What a step may change\<close>

definition moves_on ::
  "unicode \<Rightarrow> sml_parser \<Rightarrow> (tokenType \<times> string) list \<Rightarrow> sml_parser \<Rightarrow> (tokenType \<times> string) list \<Rightarrow> bool" where
  "moves_on U p ts p' ts' \<longleftrightarrow> faces U p' ts' \<and> (\<exists>k. ts' = drop k ts)
     \<and> (\<exists>es. sp_errors p' = sp_errors p @ es) \<and> sp_messages p' = sp_messages p"

lemma moves_on_refl: "faces U p ts \<Longrightarrow> moves_on U p ts p ts"
  by (auto simp: moves_on_def intro: exI [of _ 0])

lemma moves_on_core: "faces U p' (drop k ts) \<Longrightarrow> same_core p p' \<Longrightarrow> moves_on U p ts p' (drop k ts)"
  by (auto simp: moves_on_def same_core_def)

lemma moves_on_tl: "faces U p' (tl ts) \<Longrightarrow> same_core p p' \<Longrightarrow> moves_on U p ts p' (tl ts)"
  using moves_on_core [of U p' 1 ts p] by (simp add: drop_Suc)

lemma moves_on_stay: "faces U p' ts \<Longrightarrow> same_core p p' \<Longrightarrow> moves_on U p ts p' ts"
  using moves_on_core [of U p' 0 ts p] by simp

lemma moves_on_trans: "moves_on U p ts p1 ts1 \<Longrightarrow> moves_on U p1 ts1 p2 ts2 \<Longrightarrow> moves_on U p ts p2 ts2"
  by (auto simp: moves_on_def)

lemma moves_on_faces: "moves_on U p ts p' ts' \<Longrightarrow> faces U p' ts'"
  by (simp add: moves_on_def)

lemma moves_on_length: "moves_on U p ts p' ts' \<Longrightarrow> length ts' \<le> length ts"
  by (auto simp: moves_on_def)

lemma moves_on_set: "moves_on U p ts p' ts' \<Longrightarrow> set ts' \<subseteq> set ts"
  by (auto simp: moves_on_def dest: in_set_dropD)

lemma moves_on_steps:
  assumes "moves_on U p ts p' ts'"
  shows "moves_on U p ts (sp_errorf t x p') ts'" and "moves_on U p ts (sp_warningf t x p') ts'"
    and "moves_on U p ts (add_variable v p') ts'" and "moves_on U p ts (p'\<lparr>sp_ellipsisCount := c\<rparr>) ts'"
    and "moves_on U p ts (p'\<lparr>sp_variableNames := vs\<rparr>) ts'"
  using assms by (auto simp: moves_on_def) (auto simp: sp_errorf_def sp_warningf_def add_variable_def)

lemma errors_errorf [simp]: "sp_errors (sp_errorf t x p) \<noteq> []"
  by (simp add: sp_errorf_def)

lemma errors_warningf [simp]: "sp_errors (sp_warningf t x p) = sp_errors p"
  by (simp add: sp_warningf_def)

lemma moves_on_errors: "moves_on U p ts p' ts' \<Longrightarrow> sp_errors p \<noteq> [] \<Longrightarrow> sp_errors p' \<noteq> []"
  by (auto simp: moves_on_def)

text \<open>The outcome of an item parser: no lack of fuel, a well-formed item, and an error whenever it
  gives up.\<close>

definition item_outcome ::
  "unicode \<Rightarrow> sml_parser \<Rightarrow> (tokenType \<times> string) list \<Rightarrow> item_result \<Rightarrow> bool" where
  "item_outcome U p ts r \<longleftrightarrow> fuel_ok (fst r) \<and> (\<exists>ts'. moves_on U p ts (snd r) ts')
     \<and> (\<forall>it ok. fst r = Inr (it, ok) \<longrightarrow> rep_ok it \<and> (\<not> ok \<longrightarrow> sp_errors (snd r) \<noteq> []))"

lemma give_up_outcome:
  "moves_on U p ts p' ts' \<Longrightarrow> sp_errors p' \<noteq> [] \<Longrightarrow> item_outcome U p ts (give_up p')"
  by (auto simp: item_outcome_def give_up_def)

lemma give_up_errorf: "moves_on U p ts p' ts' \<Longrightarrow> item_outcome U p ts (give_up (sp_errorf t x p'))"
  by (rule give_up_outcome [of U p ts _ ts']) (simp_all add: moves_on_steps)

lemma made_outcome:
  assumes "moves_on U p ts p' ts'" and "fuel_ok r" and "\<And>it. r = Inr it \<Longrightarrow> rep_ok it"
  shows "item_outcome U p ts (made r p')"
  using assms by (cases r) (auto simp: item_outcome_def made_def fuel_ok_def)

lemma item_outcome_trans: "moves_on U p ts p1 ts1 \<Longrightarrow> item_outcome U p1 ts1 r \<Longrightarrow> item_outcome U p ts r"
  using moves_on_trans by (fastforce simp: item_outcome_def)

lemma sp_bind_outcome:
  assumes r: "item_outcome U p ts r"
    and f: "\<And>it ok p1 ts1. r = (Inr (it, ok), p1) \<Longrightarrow> moves_on U p ts p1 ts1 \<Longrightarrow> rep_ok it \<Longrightarrow>
      (\<not> ok \<Longrightarrow> sp_errors p1 \<noteq> []) \<Longrightarrow> item_outcome U p ts (f (it, ok) p1)"
  shows "item_outcome U p ts (sp_bind r f)"
proof -
  obtain x p1 where rr: "r = (x, p1)" by (cases r)
  obtain ts1 where m: "moves_on U p ts p1 ts1" using r rr by (auto simp: item_outcome_def)
  show ?thesis
  proof (cases x)
    case (Inl e)
    then show ?thesis using r rr by (simp add: item_outcome_def fuel_ok_def)
  next
    case (Inr y)
    obtain it ok where y: "y = (it, ok)" by (cases y)
    with Inr rr have "r = (Inr (it, ok), p1)" by simp
    from f [OF this m] r Inr rr y show ?thesis by (auto simp: item_outcome_def)
  qed
qed

section \<open>The item parsers\<close>

text \<open>The conversions report errors and touch nothing else.\<close>

definition reports_only :: "(token \<Rightarrow> sml_parser \<Rightarrow> (goval \<times> sml_parser) option) \<Rightarrow> bool" where
  "reports_only conv \<longleftrightarrow> (\<forall>t p v p'. conv t p = Some (v, p') \<longrightarrow> p' = p \<or> (\<exists>x. p' = sp_errorf t x p))"

lemma conv_reports_only:
  "reports_only binary_conv" "reports_only boolean_conv" "reports_only (float_conv U b)"
  "reports_only (int_conv U b)" "reports_only (uint_conv U b)"
  by (auto simp: reports_only_def binary_conv_def boolean_conv_def float_conv_def int_conv_def
      uint_conv_def Let_def split: if_splits prod.splits option.splits num_err.splits)

lemma item_values_moves:
  assumes "reports_only conv" and "moves_on U p ts p1 ts1"
  shows "moves_on U p ts (snd (item_values U conv dup ex toks vs p1)) ts1
    \<and> (fst (item_values U conv dup ex toks vs p1) = None \<longrightarrow>
         sp_errors (snd (item_values U conv dup ex toks vs p1)) \<noteq> [])"
  using assms(2)
proof (induction toks arbitrary: vs p1)
  case (Cons t toks)
  note st = moves_on_steps [OF Cons.prems]
  show ?case
  proof (cases "conv t p1")
    case None
    then show ?thesis using st Cons.IH by auto
  next
    case (Some x)
    then obtain v p2 where c: "conv t p1 = Some (v, p2)" by (cases x) auto
    then have "p2 = p1 \<or> (\<exists>x. p2 = sp_errorf t x p1)" using assms(1) by (auto simp: reports_only_def)
    then have "moves_on U p ts p2 ts1" using Cons.prems st by auto
    from Cons.IH [OF this, of "vs @ [v]"] show ?thesis by (simp add: c)
  qed
qed simp

lemma parse_values_outcome:
  assumes "faces U p ts" and "length ts < n" and c: "reports_only conv"
    and new: "\<And>vs. fuel_ok (new vs)" "\<And>vs it. new vs = Inr it \<Longrightarrow> rep_ok it"
  shows "item_outcome U p ts (parse_values U n conv dup ex new p)"
proof -
  obtain toks p1 where g: "getDataItemValueTokens U n [] p = (Inr toks, p1)"
    and f: "faces U p1 (drop (length toks) ts)" "same_core p p1"
    using getDataItemValueTokens_faces [OF assms(1,2), of "[]"] by auto
  have m: "moves_on U p ts p1 (drop (length toks) ts)" by (rule moves_on_core [OF f])
  obtain r p2 where v: "item_values U conv dup ex toks [] p1 = (r, p2)"
    by (cases "item_values U conv dup ex toks [] p1")
  note mv = item_values_moves [OF c m, of dup ex toks "[]", unfolded v fst_conv snd_conv]
  show ?thesis
  proof (cases r)
    case None
    then show ?thesis using give_up_outcome [OF conjunct1 [OF mv]] mv by (simp add: parse_values_def g v)
  next
    case (Some vs)
    then show ?thesis using mv made_outcome [OF conjunct1 [OF mv] new(1) new(2)]
      by (simp add: parse_values_def g v)
  qed
qed

lemma quoted_text_moves: "moves_on U p ts p1 ts1 \<Longrightarrow> quoted_text U t p1 = (s, p2) \<Longrightarrow> moves_on U p ts p2 ts1"
  by (auto simp: quoted_text_def Let_def moves_on_steps split: option.splits)

lemma number_text_moves: "moves_on U p ts p1 ts1 \<Longrightarrow> number_text U t p1 = (s, p2) \<Longrightarrow> moves_on U p ts p2 ts1"
  by (auto simp: number_text_def Let_def moves_on_steps split: prod.splits if_splits)

lemma ascii_loop_outcome:
  assumes "moves_on U p ts p1 ts1"
  shows "item_outcome U p ts (ascii_loop U single lo hi toks literal p1)"
  using assms
proof (induction toks arbitrary: literal p1 single)
  case Nil
  then show ?case by (auto intro: made_outcome fuel_free NewASCIINode_rep_ok)
next
  case (Cons t toks)
  note st = moves_on_steps [OF Cons.prems]
  obtain s2 p2 where q: "quoted_text U t p1 = (s2, p2)" by (cases "quoted_text U t p1")
  obtain s3 p3 where n: "number_text U t p1 = (s3, p3)" by (cases "number_text U t p1")
  note IH2 = Cons.IH [OF quoted_text_moves [OF Cons.prems q]]
  note IH3 = Cons.IH [OF number_text_moves [OF Cons.prems n]]
  show ?case
    by (auto simp: q n IH2 IH3 split: tokenType.split
      intro: give_up_errorf [OF Cons.prems] made_outcome [OF st(1)] made_outcome [OF st(3)]
        fuel_free NewASCIINodeVariable_fuel_ok NewASCIINode_rep_ok NewASCIINodeVariable_rep_ok)
qed

lemma parseASCII_outcome:
  assumes "faces U p ts" and "length ts < n"
  shows "item_outcome U p ts (parseASCII U n lo hi p)"
proof -
  obtain toks p1 where g: "getDataItemValueTokens U n [] p = (Inr toks, p1)"
    and f: "faces U p1 (drop (length toks) ts)" "same_core p p1"
    using getDataItemValueTokens_faces [OF assms, of "[]"] by auto
  show ?thesis using ascii_loop_outcome [OF moves_on_core [OF f]] by (simp add: parseASCII_def g)
qed

lemmas factory_outcomes = parse_values_outcome [OF _ _ conv_reports_only(1) factories_fuel_ok(2) NewBinaryNode_rep_ok]
  parse_values_outcome [OF _ _ conv_reports_only(2) factories_fuel_ok(3) NewBooleanNode_rep_ok]
  parse_values_outcome [OF _ _ conv_reports_only(3) factories_fuel_ok(4) NewFloatNode_rep_ok]
  parse_values_outcome [OF _ _ conv_reports_only(4) factories_fuel_ok(5) NewIntNode_rep_ok]
  parse_values_outcome [OF _ _ conv_reports_only(5) factories_fuel_ok(6) NewUintNode_rep_ok]

lemma leaf_parser_outcome:
  assumes "faces U p ts" and "length ts < n"
  shows "item_outcome U p ts (leaf_parser U n typ lo hi p)"
  unfolding leaf_parser_def parseBinary_def parseBoolean_def sml_parseFloat_def sml_parseInt_def sml_parseUint_def
  using parseASCII_outcome [OF assms] factory_outcomes [OF assms] by simp

lemma parseDataItemSize_moves:
  assumes "faces U p ts"
  obtains t lo hi p' ts' where "parseDataItemSize U p = ((t, lo, hi), p')" and "moves_on U p ts p' ts'"
proof -
  obtain t ok p1 where a: "sp_accept U TkDataItemSize p = (t, ok, p1)" "faces U p1 (if ok then tl ts else ts)"
    "same_core p p1" using assms by (rule accept_faces [where y = TkDataItemSize])
  have "moves_on U p ts p1 (if ok then tl ts else ts)"
    using a moves_on_tl moves_on_stay by auto
  then show thesis
    using a(1) by (intro that [of "fst (fst (parseDataItemSize U p))" "fst (snd (fst (parseDataItemSize U p)))"
          "snd (snd (fst (parseDataItemSize U p)))" "snd (parseDataItemSize U p)"])
      (auto simp: parseDataItemSize_def Let_def split: prod.split)
qed

lemma close_item_outcome:
  assumes m: "moves_on U p ts p1 ts1" and r: "rep_ok it" and e: "\<not> ok \<Longrightarrow> sp_errors p1 \<noteq> []"
  shows "item_outcome U p ts (close_item U st lo hi (it, ok) p1)"
proof (cases ok)
  case False
  then show ?thesis using give_up_outcome [OF m e] by (simp add: close_item_def)
next
  case True
  define p2 where "p2 = (if 0 \<le> Size it then checkDataItemSizeError (Size it) lo hi st p1 else p1)"
  have m2: "moves_on U p ts p2 ts1" using m moves_on_steps [OF m] by (simp add: p2_def checkDataItemSizeError_def)
  obtain t found p3 where a: "sp_accept U TkRightAngleBracket p2 = (t, found, p3)"
    "faces U p3 (if found then tl ts1 else ts1)" "same_core p2 p3"
    using moves_on_faces [OF m2] by (rule accept_faces [where y = TkRightAngleBracket])
  have m3: "moves_on U p ts p3 (if found then tl ts1 else ts1)"
    using moves_on_trans [OF m2] a moves_on_tl moves_on_stay by auto
  then show ?thesis
    using True r give_up_errorf [OF m3] a(1)
    by (auto simp: close_item_def p2_def [symmetric] item_outcome_def)
qed

lemma recovered_outcome: "item_outcome U p ts r \<Longrightarrow> item_outcome U p ts (recovered U t r)"
proof -
  assume o: "item_outcome U p ts r"
  obtain x p1 where r: "r = (x, p1)" by (cases r)
  obtain ts1 where m: "moves_on U p ts p1 ts1" using o r by (auto simp: item_outcome_def)
  show ?thesis
  proof (cases "\<exists>s. x = Inl (Panic s)")
    case True
    then show ?thesis
      using give_up_outcome [OF moves_on_steps(2) [OF moves_on_steps(1) [OF m]]]
      by (auto simp: recovered_def r)
  next
    case False
    then have "recovered U t r = r" by (auto simp: recovered_def r split: sum.split go_exc.split)
    then show ?thesis using o by simp
  qed
qed

text \<open>After the closing of an item no panic is left.\<close>

lemma recovered_no_panic: "fuel_ok (fst r) \<Longrightarrow> \<exists>it ok. fst (recovered U t r) = Inr (it, ok)"
  by (cases r; cases "fst r")
    (auto simp: recovered_def give_up_def fuel_ok_def split: go_exc.split)

section \<open>Items and lists\<close>

definition items_ok :: "goval list \<Rightarrow> bool" where
  "items_ok vs \<longleftrightarrow> (\<forall>x. VItem x \<in> set vs \<longrightarrow> rep_ok x)"

lemma items_ok_simps [simp]:
  "items_ok []" "items_ok (VString s # vs) = items_ok vs"
  "items_ok (VItem x # vs) \<longleftrightarrow> rep_ok x \<and> items_ok vs"
  "items_ok (vs @ ws) \<longleftrightarrow> items_ok vs \<and> items_ok ws"
  by (auto simp: items_ok_def)

definition after_bracket :: "(tokenType \<times> string) list \<Rightarrow> (tokenType \<times> string) list" where
  "after_bracket ts = (if fst (next_of ts) = TkLeftAngleBracket then tl ts else ts)"

lemma item_body_outcome:
  assumes f: "faces U p ts" and n: "length ts \<le> n" and "0 < n"
    and lst: "\<And>p4 ts4. faces U p4 ts4 \<Longrightarrow> length ts4 + 1 < n + 1 \<Longrightarrow> length ts4 < length ts \<Longrightarrow> item_outcome U p4 ts4 (lst p4)"
  shows "item_outcome U p ts (item_body U n lst p)"
proof -
  obtain t isType p2 where a: "sp_accept U TkDataItemType p = (t, isType, p2)"
    and ty: "isType \<longleftrightarrow> fst (next_of ts) = TkDataItemType"
    and f2: "faces U p2 (if isType then tl ts else ts)" and c2: "same_core p p2"
    using f by (rule accept_faces [where y = TkDataItemType])
  have m2: "moves_on U p ts p2 (if isType then tl ts else ts)"
    using f2 c2 moves_on_tl moves_on_stay by auto
  show ?thesis
  proof (cases isType)
    case False
    then show ?thesis using a give_up_errorf [OF m2] by (simp add: item_body_def)
  next
    case True
    then have m2: "moves_on U p ts p2 (tl ts)" and ne: "ts \<noteq> []" using m2 ty by auto
    obtain s p3 where b: "sp_peek U p2 = (s, p3)" "faces U p3 (tl ts)" "same_core p2 p3"
      using moves_on_faces [OF m2] by (rule peek_faces)
    have m3: "moves_on U p ts p3 (tl ts)" using moves_on_trans [OF m2 moves_on_stay [OF b(2,3)]] .
    define z where "z = (if tk_typ s = TkDataItemSize then parseDataItemSize U p3 else ((zero_token, 0, - 1), p3))"
    obtain st lo hi p4 where z: "z = ((st, lo, hi), p4)" by (metis prod.exhaust)
    have "\<exists>ts4. moves_on U p3 (tl ts) p4 ts4"
    proof (cases "tk_typ s = TkDataItemSize")
      case True
      obtain q where "\<exists>t lo hi p' ts'. parseDataItemSize U p3 = ((t, lo, hi), p') \<and> moves_on U p3 (tl ts) p' ts'"
        using parseDataItemSize_moves [OF b(2)] by metis
      then show ?thesis using True z by (auto simp: z_def)
    next
      case False
      then show ?thesis using z moves_on_refl [OF b(2)] by (auto simp: z_def)
    qed
    then obtain ts4 where m34: "moves_on U p3 (tl ts) p4 ts4" by blast
    note m4 = moves_on_trans [OF m3 m34]
    have l4: "length ts4 < length ts" using moves_on_length [OF m34] ne by (cases ts) auto
    define r where "r = (if tk_val t = ''L'' then lst p4 else leaf_parser U n (tk_val t) lo hi p4)"
    have "item_outcome U p4 ts4 r"
      using lst [OF moves_on_faces [OF m34]] leaf_parser_outcome [OF moves_on_faces [OF m34]] l4 n
      by (simp add: r_def)
    then have o: "item_outcome U p ts r" by (rule item_outcome_trans [OF m4])
    have "item_outcome U p ts (sp_bind r (close_item U st lo hi))"
      by (rule sp_bind_outcome [OF o]) (rule close_item_outcome)
    moreover have "item_body U n lst p = (if tk_typ s = TkError then give_up (sp_errorf s (tokenError_text s) p3)
        else sp_bind r (close_item U st lo hi))"
      using a b True by (simp add: item_body_def z_def [symmetric] z r_def)
    ultimately show ?thesis using give_up_errorf [OF m3] by simp
  qed
qed

lemma parse_items_outcome:
  "faces U p ts \<Longrightarrow> length ts < n \<Longrightarrow> item_outcome U p (after_bracket ts) (parseDataItem U n p)"
  "faces U p ts \<Longrightarrow> length ts + 1 < n \<Longrightarrow> items_ok vs \<Longrightarrow> item_outcome U p ts (parseList U n vs p)"
proof (induction n arbitrary: p ts vs)
  case (Suc n)
  { case 1
    obtain t ok p1 where a: "sp_accept U TkLeftAngleBracket p = (t, ok, p1)"
      and ty: "ok \<longleftrightarrow> fst (next_of ts) = TkLeftAngleBracket"
      and f: "faces U p1 (if ok then tl ts else ts)" and c: "same_core p p1"
      using 1(1) by (rule accept_faces [where y = TkLeftAngleBracket])
    have b: "after_bracket ts = (if ok then tl ts else ts)" by (simp add: after_bracket_def ty)
    have m: "moves_on U p (after_bracket ts) p1 (after_bracket ts)"
      unfolding b by (rule moves_on_stay [OF f c])
    show ?case
    proof (cases ok)
      case False
      then show ?thesis using a give_up_errorf [OF m] by simp
    next
      case True
      then have ne: "ts \<noteq> []" using ty by auto
      have "item_outcome U p1 (tl ts) (item_body U n (parseList U n []) p1)"
      proof (rule item_body_outcome)
        show "faces U p1 (tl ts)" "length (tl ts) \<le> n" "0 < n" using f True 1(2) ne by (cases ts; auto)+
        show "item_outcome U p4 ts4 (parseList U n [] p4)"
          if "faces U p4 ts4" "length ts4 + 1 < n + 1" "length ts4 < length (tl ts)" for p4 ts4
          using that Suc.IH(2) [of p4 ts4 "[]"] 1(2) ne by simp
      qed
      then have "item_outcome U p (tl ts) (recovered U t (item_body U n (parseList U n []) p1))"
        using item_outcome_trans [OF m] b True recovered_outcome by auto
      then show ?thesis using a True b by simp
    qed
  next
    case 2
    obtain t p1 where a: "sp_peek U p = (t, p1)" "next_of ts = (tk_typ t, tk_val t)" "faces U p1 ts"
      "same_core p p1" using 2(1) by (rule peek_faces)
    obtain t' p2 where b: "acceptAny U p1 = (t', p2)" "next_of ts = (tk_typ t', tk_val t')"
      "faces U p2 (tl ts)" "same_core p1 p2" using a(3) by (rule acceptAny_faces)
    note m1 = moves_on_stay [OF a(3,4)]
    note m2 = moves_on_trans [OF m1 moves_on_tl [OF b(3,4)]]
    have ih: "item_outcome U p ts (parseList U n vs' p')"
      if m: "moves_on U p ts p' ts'" and "length ts' < length ts" and "items_ok vs'" for p' ts' vs'
      using that Suc.IH(2) [OF moves_on_faces [OF m], of vs'] 2(2) item_outcome_trans [OF m] by simp
    have tl: "length (tl ts) < length ts" if "tk_typ t \<noteq> TkEOF" using that a(2) by (cases ts) auto
    note st = moves_on_steps [OF m2] moves_on_steps(2) [OF moves_on_steps(4) [OF m2]]
    show ?case
    proof (cases "tk_typ t = TkLeftAngleBracket")
      case True
      then have af: "after_bracket ts = tl ts" using a(2) by (simp add: after_bracket_def)
      have "item_outcome U p1 (tl ts) (parseDataItem U n p1)" using Suc.IH(1) [OF a(3)] 2(2) af by simp
      then have o: "item_outcome U p (tl ts) (parseDataItem U n p1)"
        using a(4) by (auto simp: item_outcome_def moves_on_def same_core_def)
      have mv: "moves_on U p ts q us \<and> length us < length ts" if "moves_on U p (tl ts) q us" for q us
        using that moves_on_length [OF that] tl True
        by (auto simp: moves_on_def drop_Suc [symmetric])
      have o': "item_outcome U p ts (parseDataItem U n p1)"
        using o mv by (auto simp: item_outcome_def)
      have "item_outcome U p ts (sp_bind (parseDataItem U n p1) (\<lambda>(childItem, ok) p2.
            if \<not> ok then give_up p2 else parseList U n (vs @ [VItem childItem]) p2))"
      proof (rule sp_bind_outcome [OF o'])
        fix it ok p3 ts3
        assume e: "parseDataItem U n p1 = (Inr (it, ok), p3)" and m3: "moves_on U p ts p3 ts3"
          and it: "rep_ok it" and er: "\<not> ok \<Longrightarrow> sp_errors p3 \<noteq> []"
        obtain us where "moves_on U p (tl ts) p3 us" using o e by (auto simp: item_outcome_def)
        with mv have m4: "moves_on U p ts p3 us" "length us < length ts" by auto
        show "item_outcome U p ts ((case (it, ok) of (childItem, ok) \<Rightarrow>
            \<lambda>p2. if \<not> ok then give_up p2 else parseList U n (vs @ [VItem childItem]) p2) p3)"
          using give_up_outcome [OF m3 er] ih [OF m4] it 2(3) by simp
      qed
      then show ?thesis using a True by simp
    next
      case False
      have "item_outcome U p ts (made (NewListNode vs) p1)"
        using made_outcome [OF m1 factories_fuel_ok(7)] NewListNode_rep_ok 2(3) by (simp add: items_ok_def)
      then show ?thesis
        using a b False 2(3) tl ih [OF st(1)] ih [OF st(3)] ih [OF st(4)] ih [OF st(6)]
          give_up_errorf [OF m1] give_up_errorf [OF m2]
        by (auto simp: Let_def split: tokenType.split)
    qed
  }
qed simp_all

lemma parseDataItem_total:
  assumes "faces U p ts" and "length ts < n"
  shows "\<exists>it ok. fst (parseDataItem U n p) = Inr (it, ok)"
proof (cases n)
  case (Suc k)
  obtain t ok p1 where a: "sp_accept U TkLeftAngleBracket p = (t, ok, p1)"
    using assms(1) by (rule accept_faces [where y = TkLeftAngleBracket])
  have "fuel_ok (fst (parseDataItem U n p))"
    using parse_items_outcome(1) [OF assms] by (simp add: item_outcome_def)
  then show ?thesis
    using recovered_no_panic [of "item_body U k (parseList U k []) p1" U t] a Suc
    by (cases ok) (auto simp: give_up_def recovered_def fuel_ok_def split: prod.splits sum.splits go_exc.splits)
qed (use assms in simp)

section \<open>What the tokens look like\<close>

lemma scan_all_length: "length (scan_all U m s) \<le> length s + 1"
proof (induction U m s rule: scan_all.induct)
  case (1 U m s)
  obtain t v m' n where sc: "scan U m (drop (blank_length m s) s) = (t, v, m', n)"
    by (cases "scan U m (drop (blank_length m s) s)")
  show ?case
  proof (cases m')
    case None
    then show ?thesis by (subst scan_all.simps) (simp add: sc)
  next
    case (Some m2)
    have "length (scan_all U m2 (drop (blank_length m s + n) s)) \<le> length (drop (blank_length m s + n) s) + 1"
      using 1 [OF sc [symmetric] refl refl Some] .
    then show ?thesis using Some scan_length [OF sc] by (subst scan_all.simps) (auto simp: sc)
  qed
qed

lemma scan_all_cases:
  assumes "(y, v) \<in> set (scan_all U m s)"
  obtains m1 k m' n where "scan U m1 (drop (blank_length m1 (drop k s)) (drop k s)) = (y, v, m', n)"
  using assms
proof (induction U m s arbitrary: thesis rule: scan_all.induct)
  case (1 U m s)
  obtain t w m' n where sc: "scan U m (drop (blank_length m s) s) = (t, w, m', n)"
    by (cases "scan U m (drop (blank_length m s) s)")
  from 1(3) consider (here) "(y, v) = (t, w)"
    | (later) m2 where "m' = Some m2" "(y, v) \<in> set (scan_all U m2 (drop (blank_length m s + n) s))"
    by (subst (asm) scan_all.simps) (auto simp: sc split: option.splits)
  then show ?case
  proof cases
    case here
    then show ?thesis using 1(2) [of m 0 m' n] sc by simp
  next
    case later
    show ?thesis
    proof (rule 1(1) [OF sc [symmetric] refl refl later(1) _ later(2)])
      fix m1 k m3 n3
      assume "scan U m1 (drop (blank_length m1 (drop k (drop (blank_length m s + n) s)))
        (drop k (drop (blank_length m s + n) s))) = (y, v, m3, n3)"
      then show thesis using 1(2) [of m1 "k + (blank_length m s + n)" m3 n3] by (simp add: drop_drop)
    qed
  qed
qed

definition directions :: "string set" where
  "directions = {''H->E'', ''H<->E'', ''H<-E''}"

lemma scan_text_types: "scan_text U s = (y, v, m, n) \<Longrightarrow> y \<noteq> TkDirection \<and> y \<noteq> TkMessageName"
  by (auto simp: scan_text_def scan_comment_def scan_word_def scan_number_def scan_size_def scan_quoted_def
      Let_def split: if_splits option.splits)

lemma scan_header_direction: "scan_header s = (TkDirection, v, m, n) \<Longrightarrow> v \<in> directions"
  by (auto simp: scan_header_def scan_comment_def Let_def re_direction_def directions_def
      split: if_splits option.splits)

lemma scan_header_name:
  assumes "scan_header s = (TkMessageName, v, m, n)"
  shows "s \<noteq> [] \<and> v = take (width_of s + name_run (drop (width_of s) s)) s"
  using assms by (auto simp: scan_header_def scan_comment_def Let_def split: if_splits option.splits)

lemma direction_tokens: "(TkDirection, v) \<in> set (scan_all U m s) \<Longrightarrow> v \<in> directions"
proof (erule scan_all_cases)
  fix m1 k m' n
  assume "scan U m1 (drop (blank_length m1 (drop k s)) (drop k s)) = (TkDirection, v, m', n)"
  then show ?thesis
    using scan_header_direction scan_text_types by (cases m1) fastforce+
qed

text \<open>An input in ASCII whose only white space is blank, tab and line end: its message names have no
  white space.\<close>

definition plain_input :: "string \<Rightarrow> bool" where
  "plain_input s \<longleftrightarrow> (\<forall>c \<in> set s. of_char c < (128::nat) \<and> of_char c \<noteq> (11::nat) \<and> of_char c \<noteq> (12::nat))"

definition no_space :: "string \<Rightarrow> bool" where
  "no_space v \<longleftrightarrow> list_all (\<lambda>r. \<not> rune_is_space r) (runes v)"

lemma plain_input_drop: "plain_input s \<Longrightarrow> plain_input (drop k s)"
  by (auto simp: plain_input_def dest: in_set_dropD)

lemma plain_space_iff:
  assumes "plain_input (c # s)"
  shows "rune_is_space (of_char c) \<longleftrightarrow> c \<in> set blanks"
proof -
  have e: "c = d \<longleftrightarrow> of_char c = (of_char d :: nat)" for d by simp
  have "c \<in> set blanks \<longleftrightarrow> of_char c \<in> {9, 10, 13, 32 :: nat}"
    unfolding blanks_def newline_def list.set insert_iff e by auto
  then show ?thesis using assms by (auto simp: plain_input_def rune_is_space_def)
qed

lemma name_run_no_space: "plain_input s \<Longrightarrow> \<forall>c \<in> set (take (name_run s) s). \<not> rune_is_space (of_char c)"
proof (induction s rule: name_run.induct)
  case (1 s)
  show ?case
  proof (cases s)
    case Nil
    then show ?thesis by simp
  next
    case (Cons c r)
    have c: "of_char c < (128 :: nat)" using 1(2) Cons by (simp add: plain_input_def)
    have w: "width_of s = 1" "rune_of s = of_char c" using rune_of_ascii [OF c] Cons by simp_all
    show ?thesis
    proof (cases "rune_is_space (rune_of s) \<or> take 2 (drop (width_of s - 1) s) = ''//''")
      case True
      then have "name_run s = 0" by (subst name_run.simps) auto
      then show ?thesis by simp
    next
      case False
      then have n: "name_run s = Suc (name_run r)" using Cons w by (subst name_run.simps) auto
      have "plain_input r" using 1(2) Cons by (simp add: plain_input_def)
      then have "\<forall>c \<in> set (take (name_run r) r). \<not> rune_is_space (of_char c)"
        using 1(1) False Cons w by simp
      then show ?thesis using n Cons False w by simp
    qed
  qed
qed

lemma name_tokens:
  assumes "(TkMessageName, v) \<in> set (scan_all U m s)" and "plain_input s"
  shows "no_space v"
proof -
  obtain m1 k m' n where sc: "scan U m1 (drop (blank_length m1 (drop k s)) (drop k s)) = (TkMessageName, v, m', n)"
    using assms(1) by (rule scan_all_cases)
  then have m1: "m1 = LexMessageHeader" using scan_text_types by (cases m1) fastforce+
  define u where "u = drop (run_length blanks (drop k s)) (drop k s)"
  have pu: "plain_input u" unfolding u_def using assms(2) plain_input_drop by blast
  have nb: "\<not> starts_in blanks u" unfolding u_def by (rule after_blanks)
  have "scan_header u = (TkMessageName, v, m', n)" using sc m1 by (simp add: u_def blank_length_def)
  from scan_header_name [OF this] obtain c r where u: "u = c # r"
    and v: "v = take (width_of u + name_run (drop (width_of u) u)) u" by (cases u) auto
  have c: "of_char c < (128 :: nat)" using pu u by (simp add: plain_input_def)
  have "v = c # take (name_run r) r" using v rune_of_ascii [OF c] u by simp
  moreover have "\<not> rune_is_space (of_char c)"
    using plain_space_iff [of c r] pu nb u by (simp add: starts_in_def)
  moreover have pr: "plain_input r" using pu u by (simp add: plain_input_def)
  ultimately have "\<forall>c \<in> set v. \<not> rune_is_space (of_char c)" using name_run_no_space [OF pr] by simp
  moreover have "ascii_string v" unfolding v using pu
    by (auto simp: plain_input_def ascii_string_def dest: in_set_takeD)
  ultimately show ?thesis by (simp add: no_space_def runes_ascii list_all_iff)
qed

section \<open>Messages\<close>

definition name_panic :: go_exc where
  "name_panic = Panic (''message name shouldn'' @ [CHR 0x27] @ ''t contain whitespaces'')"

definition message_ok :: "data_message \<Rightarrow> bool" where
  "message_ok m \<longleftrightarrow> checkRep m = Inr () \<and> rep_ok (dm_dataItem m) \<and> dm_sessionID m = - 1
     \<and> dm_systemBytes m = [0, 0, 0, 0]"

lemma NewDataMessage_cases:
  assumes "0 \<le> stream" "stream < 128" "0 \<le> function" "function < 256"
    and "waitBit \<in> {0, 1, 2}" "waitBit = 1 \<Longrightarrow> function mod 2 \<noteq> 0" "direction \<in> directions" "rep_ok it"
  shows "no_space name \<Longrightarrow> \<exists>m. NewDataMessage name stream function waitBit direction it = Inr m \<and> message_ok m"
    and "\<not> no_space name \<Longrightarrow> NewDataMessage name stream function waitBit direction it = Inl name_panic"
  using assms
  by (auto simp: NewDataMessage_def checked_def checkRep_def message_ok_def directions_def no_space_def name_panic_def)

text \<open>Tokens of directions and names as the lexer makes them.\<close>

definition directions_ok :: "(tokenType \<times> string) list \<Rightarrow> bool" where
  "directions_ok ts \<longleftrightarrow> (\<forall>v. (TkDirection, v) \<in> set ts \<longrightarrow> v \<in> directions)"

definition names_ok :: "(tokenType \<times> string) list \<Rightarrow> bool" where
  "names_ok ts \<longleftrightarrow> (\<forall>v. (TkMessageName, v) \<in> set ts \<longrightarrow> no_space v)"

lemma accept_moves:
  assumes "moves_on U p ts p1 ts1"
  obtains t ok p2 ts2 where "sp_accept U y p1 = (t, ok, p2)" and "moves_on U p ts p2 ts2"
    and "ok \<longrightarrow> (y, tk_val t) = next_of ts1" and "ok \<longrightarrow> ts2 = tl ts1"
proof -
  obtain t ok p2 where a: "sp_accept U y p1 = (t, ok, p2)" "next_of ts1 = (tk_typ t, tk_val t)"
    "ok \<longleftrightarrow> fst (next_of ts1) = y" "faces U p2 (if ok then tl ts1 else ts1)" "same_core p1 p2"
    using moves_on_faces [OF assms] by (rule accept_faces [where y = y])
  have "moves_on U p1 ts1 p2 (if ok then tl ts1 else ts1)"
    using a(4,5) moves_on_tl moves_on_stay by auto
  then show thesis
    using a moves_on_trans [OF assms] by (intro that [of t ok p2 "if ok then tl ts1 else ts1"]) auto
qed

lemma next_of_member: "ok \<longrightarrow> (y, v) = next_of ts \<Longrightarrow> y \<noteq> TkEOF \<Longrightarrow> ok \<longrightarrow> (y, v) \<in> set ts"
  by (cases ts) auto

lemma parseStreamFunctionCode_moves:
  assumes "moves_on U p ts p1 ts1"
  obtains st fn ok p2 ts2 where "parseStreamFunctionCode U p1 = ((st, fn, ok), p2)"
    and "moves_on U p ts p2 ts2" and "\<not> ok \<longrightarrow> sp_errors p2 \<noteq> []"
    and "ok \<longrightarrow> 0 \<le> st \<and> st < 128 \<and> 0 \<le> fn \<and> fn < 256 \<and> ts1 \<noteq> [] \<and> ts2 = tl ts1"
proof -
  obtain t ok p2 ts2 where a: "sp_accept U TkStreamFunction p1 = (t, ok, p2)" and m: "moves_on U p ts p2 ts2"
    and n: "ok \<longrightarrow> (TkStreamFunction, tk_val t) = next_of ts1" "ok \<longrightarrow> ts2 = tl ts1"
    using assms by (rule accept_moves [where y = TkStreamFunction])
  obtain st fn ok' p3 where r: "parseStreamFunctionCode U p1 = ((st, fn, ok'), p3)" by (metis prod.exhaust)
  have ok: "ok' = ok" using a r by (auto simp: parseStreamFunctionCode_def Let_def split: if_splits)
  show thesis
  proof (rule that [OF r, of ts2])
    show "moves_on U p ts p3 ts2"
      using a r moves_on_steps(1) [OF m] moves_on_steps(1) [OF moves_on_steps(1) [OF m]] m
      by (auto simp: parseStreamFunctionCode_def Let_def split: if_splits)
    show "\<not> ok' \<longrightarrow> sp_errors p3 \<noteq> []"
      using a r ok by (auto simp: parseStreamFunctionCode_def Let_def split: if_splits)
    show "ok' \<longrightarrow> 0 \<le> st \<and> st < 128 \<and> 0 \<le> fn \<and> fn < 256 \<and> ts1 \<noteq> [] \<and> ts2 = tl ts1"
      using a r ok n next_of_member [OF n(1)]
      by (auto simp: parseStreamFunctionCode_def Let_def split: if_splits)
  qed
qed

lemma parse_wait_bit_moves:
  assumes "moves_on U p ts p1 ts1"
  obtains w p2 ts2 where "parse_wait_bit U fn p1 = (w, p2)" and "moves_on U p ts p2 ts2"
    and "w \<in> {0, 1, 2}" and "w = 1 \<longrightarrow> fn mod 2 \<noteq> 0"
proof -
  obtain t ok p2 ts2 where a: "sp_accept U TkWaitBit p1 = (t, ok, p2)" and m: "moves_on U p ts p2 ts2"
    using assms by (rule accept_moves [where y = TkWaitBit])
  obtain w p3 where r: "parse_wait_bit U fn p1 = (w, p3)" by (cases "parse_wait_bit U fn p1")
  then show thesis
    using a m moves_on_steps(1) [OF m]
    by (intro that [of w p3 ts2]) (auto simp: parse_wait_bit_def split: if_splits)
qed

lemma parse_direction_moves:
  assumes "moves_on U p ts p1 ts1" and "directions_ok ts1"
  obtains d p2 ts2 where "parse_direction U p1 = (d, p2)" and "moves_on U p ts p2 ts2" and "d \<in> directions"
proof -
  obtain t ok p2 ts2 where a: "sp_accept U TkDirection p1 = (t, ok, p2)" and m: "moves_on U p ts p2 ts2"
    and n: "ok \<longrightarrow> (TkDirection, tk_val t) = next_of ts1" using assms(1) by (rule accept_moves [where y = TkDirection])
  obtain d p3 where r: "parse_direction U p1 = (d, p3)" by (cases "parse_direction U p1")
  moreover have "d \<in> directions"
    using a r assms(2) next_of_member [OF n] by (auto simp: parse_direction_def directions_ok_def
        directions_def split: if_splits)
  ultimately show thesis
    using a m moves_on_steps(2) [OF m]
    by (intro that [of d p3 ts2]) (auto simp: parse_direction_def split: if_splits)
qed

lemma parse_name_moves:
  assumes "moves_on U p ts p1 ts1"
  obtains v p2 ts2 where "parse_name U p1 = (v, p2)" and "moves_on U p ts p2 ts2"
    and "names_ok ts1 \<longrightarrow> no_space v"
proof -
  obtain t ok p2 ts2 where a: "sp_accept U TkMessageName p1 = (t, ok, p2)" and m: "moves_on U p ts p2 ts2"
    and n: "ok \<longrightarrow> (TkMessageName, tk_val t) = next_of ts1" using assms by (rule accept_moves [where y = TkMessageName])
  show thesis
    using a m next_of_member [OF n]
    by (intro that [of "if ok then tk_val t else []" p2 ts2])
      (auto simp: parse_name_def names_ok_def no_space_def runes_def)
qed

lemma parse_message_text_outcome:
  assumes m: "moves_on U p ts p1 ts1" and "length ts1 < n"
  shows "item_outcome U p ts (parse_message_text U n p1)"
    and "\<exists>it ok. fst (parse_message_text U n p1) = Inr (it, ok)"
proof -
  obtain t p2 where a: "sp_peek U p1 = (t, p2)" "faces U p2 ts1" "same_core p1 p2"
    using moves_on_faces [OF m] by (rule peek_faces)
  have m2: "moves_on U p ts p2 ts1" using moves_on_trans [OF m moves_on_stay [OF a(2,3)]] .
  obtain k where k: "after_bracket ts1 = drop k ts1"
    by (metis after_bracket_def drop_0 drop_Suc)
  have "item_outcome U p2 (after_bracket ts1) (parseDataItem U n p2)"
    by (rule parse_items_outcome(1) [OF a(2) assms(2)])
  then have "item_outcome U p2 ts1 (parseDataItem U n p2)"
    by (auto simp: item_outcome_def moves_on_def k)
  then show "item_outcome U p ts (parse_message_text U n p1)"
    using item_outcome_trans [OF m2] give_up_errorf [OF m2] m2 a(1)
    by (auto simp: parse_message_text_def item_outcome_def)
  show "\<exists>it ok. fst (parse_message_text U n p1) = Inr (it, ok)"
    using parseDataItem_total [OF a(2) assms(2)] a(1) by (auto simp: parse_message_text_def give_up_def)
qed

text \<open>A message parsed: at least one token is used up; the only panic is that of the name.\<close>

definition message_outcome ::
  "unicode \<Rightarrow> sml_parser \<Rightarrow> (tokenType \<times> string) list \<Rightarrow> bool sp_result \<Rightarrow> bool" where
  "message_outcome U p ts r \<longleftrightarrow>
     (\<exists>ts'. faces U (snd r) ts' \<and> (\<exists>k. ts' = drop k ts) \<and> (fst r = Inr True \<longrightarrow> length ts' < length ts))
     \<and> (\<exists>es. sp_errors (snd r) = sp_errors p @ es)
     \<and> (\<exists>ms. sp_messages (snd r) = sp_messages p @ ms \<and> list_all message_ok ms)
     \<and> (fst r = Inr False \<longrightarrow> sp_errors (snd r) \<noteq> [])
     \<and> (\<forall>e. fst r = Inl e \<longrightarrow> e = name_panic \<and> \<not> names_ok ts)"

lemma message_outcome_stop:
  "moves_on U p ts p' ts' \<Longrightarrow> sp_errors p' \<noteq> [] \<Longrightarrow> message_outcome U p ts (Inr False, p')"
  by (auto simp: message_outcome_def moves_on_def)

lemma subset_ok:
  assumes "set ts' \<subseteq> set ts"
  shows "directions_ok ts \<Longrightarrow> directions_ok ts'" and "names_ok ts \<Longrightarrow> names_ok ts'"
  using assms by (auto simp: directions_ok_def names_ok_def)

lemma finish_message_outcome:
  assumes m: "moves_on U p ts p5 ts5" and len: "length ts5 < length ts"
    and it: "rep_ok it" "\<not> ok \<Longrightarrow> sp_errors p5 \<noteq> []"
    and hd: "0 \<le> st" "st < 128" "0 \<le> fn" "fn < 256" "w \<in> {0, 1, 2}" "w = 1 \<Longrightarrow> fn mod 2 \<noteq> 0" "d \<in> directions"
    and nm: "names_ok ts \<Longrightarrow> no_space v"
  shows "message_outcome U p ts
    (if \<not> ok then (Inr False, p5)
     else case sp_accept U TkMessageEnd p5 of (t, isEnd, p6) \<Rightarrow>
       if \<not> isEnd then (Inr False, sp_errorf t (x t) p6)
       else case NewDataMessage v st fn w d it of
         Inl e \<Rightarrow> (Inl e, p6)
       | Inr m \<Rightarrow> (Inr True, p6\<lparr>sp_messages := sp_messages p6 @ [m]\<rparr>))"
proof -
  obtain t isEnd p6 ts6 where a: "sp_accept U TkMessageEnd p5 = (t, isEnd, p6)" and m6: "moves_on U p ts p6 ts6"
    and ts6: "isEnd \<longrightarrow> ts6 = tl ts5" using m by (rule accept_moves [where y = TkMessageEnd])
  have l6: "length ts6 < length ts" if isEnd using ts6 that len by simp
  note ok' = NewDataMessage_cases [OF hd it(1)]
  show ?thesis
  proof (cases "\<not> ok \<or> \<not> isEnd")
    case True
    then show ?thesis using message_outcome_stop [OF m it(2)] message_outcome_stop [OF moves_on_steps(1) [OF m6]] a
      by (auto simp: a)
  next
    case False
    show ?thesis
    proof (cases "no_space v")
      case True
      then show ?thesis using ok'(1) [OF _ True] hd(6) a False m6 l6
        by (auto simp: message_outcome_def moves_on_def)
    next
      case no: False
      then show ?thesis using ok'(2) [OF _ no] hd(6) a False m6 nm
        by (auto simp: message_outcome_def moves_on_def)
    qed
  qed
qed

lemma parse_message_outcome:
  assumes f: "faces U p ts" and len: "length ts \<le> n" and n: "0 < n" and d: "directions_ok ts"
  shows "message_outcome U p ts (parse_message U n p)"
proof -
  let ?p0 = "p\<lparr>sp_variableNames := [], sp_ellipsisCount := 0\<rparr>"
  have m0: "moves_on U p ts ?p0 ts"
    using moves_on_steps(4) [OF moves_on_steps(5) [OF moves_on_refl [OF f]]] by simp
  obtain st fn ok p1 ts1 where h1: "parseStreamFunctionCode U ?p0 = ((st, fn, ok), p1)"
    and m1: "moves_on U p ts p1 ts1" and e1: "\<not> ok \<longrightarrow> sp_errors p1 \<noteq> []"
    and c: "ok \<longrightarrow> 0 \<le> st \<and> st < 128 \<and> 0 \<le> fn \<and> fn < 256 \<and> ts \<noteq> [] \<and> ts1 = tl ts"
    using m0 by (rule parseStreamFunctionCode_moves)
  show ?thesis
  proof (cases ok)
    case False
    then show ?thesis using message_outcome_stop [OF m1] e1 h1 by (simp add: parse_message_def)
  next
    case True
    obtain w p2 ts2 where h2: "parse_wait_bit U fn p1 = (w, p2)" and m2: "moves_on U p1 ts1 p2 ts2"
      and w: "w \<in> {0, 1, 2}" "w = 1 \<longrightarrow> fn mod 2 \<noteq> 0"
      using moves_on_refl [OF moves_on_faces [OF m1]] by (rule parse_wait_bit_moves [where fn = fn])
    have d2: "directions_ok ts2"
      using subset_ok(1) [OF moves_on_set [OF moves_on_trans [OF m1 m2]] d] .
    obtain di p3 ts3 where h3: "parse_direction U p2 = (di, p3)" and m3: "moves_on U p1 ts1 p3 ts3"
      and di: "di \<in> directions" using m2 d2 by (rule parse_direction_moves)
    obtain v p4 ts4 where h4: "parse_name U p3 = (v, p4)" and m4: "moves_on U p1 ts1 p4 ts4"
      and v: "names_ok ts3 \<longrightarrow> no_space v" using m3 by (rule parse_name_moves)
    have nv: "names_ok ts \<Longrightarrow> no_space v"
      using v subset_ok(2) [OF moves_on_set [OF moves_on_trans [OF m1 m3]]] by blast
    have l1: "length ts1 < length ts" using c True by (cases ts) auto
    have l4: "length ts4 < n" using moves_on_length [OF m4] l1 len by simp
    have o: "item_outcome U p1 ts1 (parse_message_text U n p4)"
      by (rule parse_message_text_outcome(1) [OF m4 l4])
    obtain it ok5 p5 where h5: "parse_message_text U n p4 = (Inr (it, ok5), p5)"
      using parse_message_text_outcome(2) [OF m4 l4] by (cases "parse_message_text U n p4") auto
    then obtain ts5 where m5: "moves_on U p1 ts1 p5 ts5" and it: "rep_ok it" "\<not> ok5 \<Longrightarrow> sp_errors p5 \<noteq> []"
      using o by (auto simp: item_outcome_def)
    have l5: "length ts5 < length ts" using moves_on_length [OF m5] l1 by simp
    note fin = finish_message_outcome [OF moves_on_trans [OF m1 m5] l5 it _ _ _ _ w(1) mp [OF w(2)] di nv]
    show ?thesis
      using fin [where st = st and ok = ok5 and x = "found_text U (''expected message end character '' @ squoted ''.'')"] c True by (simp add: parse_message_def h1 h2 h3 h4 h5)
  qed
qed

lemma parse_messages_outcome:
  assumes "faces U p ts" and "length ts < n" and "directions_ok ts" and "list_all message_ok (sp_messages p)"
  shows "(\<forall>e. fst (parse_messages U n p) = Inl e \<longrightarrow> e = name_panic \<and> \<not> names_ok ts)
    \<and> list_all message_ok (sp_messages (snd (parse_messages U n p)))"
  using assms
proof (induction n arbitrary: p ts)
  case (Suc n)
  obtain t p1 where a: "sp_peek U p = (t, p1)" "next_of ts = (tk_typ t, tk_val t)" "faces U p1 ts"
    "sp_queue p1 = [t]" "same_core p p1" using Suc.prems(1) by (rule peek_faces)
  have ms1: "list_all message_ok (sp_messages p1)" using a(5) Suc.prems(4) by (simp add: same_core_def)
  show ?case
  proof (cases "tk_typ t = TkEOF")
    case True
    then show ?thesis using a ms1 by simp
  next
    case False
    then have ne: "ts \<noteq> []" using a(2) by auto
    then have "0 < n" using Suc.prems(2) by (cases ts) auto
    with a(3) Suc.prems have o: "message_outcome U p1 ts (parse_message U n p1)"
      by (intro parse_message_outcome) auto
    obtain r p2 where r: "parse_message U n p1 = (r, p2)" by (cases "parse_message U n p1")
    have ms2: "list_all message_ok (sp_messages p2)" using o r ms1 by (auto simp: message_outcome_def)
    show ?thesis
    proof (cases "r = Inr True")
      case True
      with o r obtain ts2 k where t2: "faces U p2 ts2" "ts2 = drop k ts" "length ts2 < length ts"
        by (auto simp: message_outcome_def)
      have sub: "set ts2 \<subseteq> set ts" using t2(2) by (auto dest: in_set_dropD)
      have "length ts2 < n" using t2(3) Suc.prems(2) by simp
      from Suc.IH [OF t2(1) this subset_ok(1) [OF sub Suc.prems(3)] ms2]
      show ?thesis using a False r True subset_ok(2) [OF sub] by auto
    next
      case no: False
      then show ?thesis using a False r o ms2 by (cases r) (auto simp: message_outcome_def)
    qed
  qed
qed simp

section \<open>The whole parser\<close>

lemma new_parser_faces: "faces U (new_parser s) (uncommented (scan_all U LexMessageHeader s))"
  using delivers_lex [of U s] by (auto simp: faces_def new_parser_def)

lemma input_tokens_ok:
  "directions_ok (uncommented (scan_all U LexMessageHeader s))"
  "plain_input s \<Longrightarrow> names_ok (uncommented (scan_all U LexMessageHeader s))"
  by (auto simp: directions_ok_def names_ok_def uncommented_def dest: direction_tokens name_tokens)

theorem ParseSML_total:
  "case ParseSML U input of
     Inl e \<Rightarrow> e = name_panic \<and> \<not> plain_input input
   | Inr (msgs, errors, warnings) \<Rightarrow> list_all message_ok msgs \<and> (errors \<noteq> [] \<longrightarrow> msgs = [])"
proof -
  let ?ts = "uncommented (scan_all U LexMessageHeader input)"
  have "length ?ts < parse_fuel input"
    using uncommented_length [of "scan_all U LexMessageHeader input"] scan_all_length [of U LexMessageHeader input]
    by (simp add: parse_fuel_def)
  from parse_messages_outcome [OF new_parser_faces this input_tokens_ok(1)]
  have o: "(\<forall>e. fst (parse_messages U (parse_fuel input) (new_parser input)) = Inl e \<longrightarrow>
        e = name_panic \<and> \<not> names_ok ?ts)
    \<and> list_all message_ok (sp_messages (snd (parse_messages U (parse_fuel input) (new_parser input))))"
    by (simp add: new_parser_def)
  obtain r p where r: "parse_messages U (parse_fuel input) (new_parser input) = (r, p)"
    by (cases "parse_messages U (parse_fuel input) (new_parser input)")
  show ?thesis
    using o input_tokens_ok(2) [of input U] by (cases r) (auto simp: ParseSML_def r)
qed

end
