(* ===== verification/Sml_Roundtrip.thy ===== *)
theory Sml_Roundtrip
  imports Sml_Headers Sml_Sound
begin

text \<open>
  The SML parser against the printer: a message without variables, whose text can be read back, is
  what \<open>ParseSML\<close> returns for the text \<open>String()\<close> prints, without an error or a warning. \<open>reads\<close> says
  that a part of the parser takes the tokens of an item and returns the item; the parts compose.
\<close>

section \<open>Numbers read back\<close>

lemma parse_digits_append:
  "parse_digits b mx k xs = (m, None) \<Longrightarrow> parse_digits b mx k (xs @ ys) = parse_digits b mx m ys"
  by (induction b mx k xs rule: parse_digits.induct) (auto split: option.splits if_splits)

lemma digit_val_digit: "d < 10 \<Longrightarrow> digit_val (digit_char d) = Some d"
proof -
  have "\<forall>d \<in> set [0..<10]. digit_val (digit_char d) = Some d" by code_simp
  then show "d < 10 \<Longrightarrow> ?thesis" by simp
qed

lemma parse_dec: "n \<le> mx \<Longrightarrow> parse_digits 10 mx 0 (dec_nat n) = (n, None)"
proof (induction n rule: dec_nat.induct)
  case (1 n)
  show ?case
  proof (cases "n < 10")
    case True
    then show ?thesis using 1(2) digit_val_digit [OF True] by (subst dec_nat.simps) simp
  next
    case False
    then have "parse_digits 10 mx 0 (dec_nat (n div 10)) = (n div 10, None)" using 1 by simp
    from parse_digits_append [OF this] show ?thesis
      using False 1(2) digit_val_digit [of "n mod 10"] by (subst dec_nat.simps) simp
  qed
qed

lemma parse_bin: "n \<le> mx \<Longrightarrow> parse_digits 2 mx 0 (bin_nat n) = (n, None)"
proof (induction n rule: bin_nat.induct)
  case (1 n)
  have d: "digit_val (CHR ''0'') = Some 0" "digit_val (CHR ''1'') = Some 1" by code_simp+
  show ?case
  proof (cases "n < 2")
    case True
    then show ?thesis using 1(2) d by (subst bin_nat.simps) auto
  next
    case False
    then have "parse_digits 2 mx 0 (bin_nat (n div 2)) = (n div 2, None)" using 1 by simp
    from parse_digits_append [OF this] show ?thesis
      using False 1(2) d by (subst bin_nat.simps) (auto simp: not_mod_2_eq_1_eq_0, presburger+)
  qed
qed

lemma number_base_dec: "number_base (dec_nat n) = (if n = 0 then (8, []) else (10, dec_nat n))"
proof (cases "n = 0")
  case False
  obtain x r where "dec_nat n = x # r" using dec_nat_not_Nil [of n] by (cases "dec_nat n") auto
  then show ?thesis using dec_nat_hd [of n] False by (simp add: number_base_def)
qed (simp add: dec_nat_0 number_base_def)

lemma ParseUint_dec: "n < 2 ^ int_bits bits \<Longrightarrow> ParseUint (dec_nat n) bits = (n, None)"
  using parse_dec [of n "2 ^ int_bits bits - 1"] by (simp add: ParseUint_def number_base_dec)

lemma sign_of_dec: "sign_of (dec_nat n) = (False, dec_nat n)"
proof -
  obtain x r where x: "dec_nat n = x # r" using dec_nat_not_Nil [of n] by (cases "dec_nat n") auto
  then have "x \<in> set decimal_digits" using dec_nat_decimal [of n] by simp
  then show ?thesis by (auto simp: sign_of_def x decimal_digits_def)
qed

lemma signed_result_ok:
  assumes "if neg then un \<le> 2 ^ (int_bits bits - 1) else un < 2 ^ (int_bits bits - 1)"
  shows "signed_result neg bits (un, None) = (if neg then - int un else int un, None)"
  using assms by (auto simp: signed_result_def Let_def split: if_splits)

lemma ParseInt_dec:
  assumes "- (2 ^ (int_bits bits - 1)) \<le> i" and "i < 2 ^ (int_bits bits - 1)" and "0 < int_bits bits"
  shows "ParseInt (dec i) bits = (i, None)"
proof -
  let ?c = "2 ^ (int_bits bits - 1) :: nat"
  have cc: "?c < 2 ^ int_bits bits" using assms(3) by (simp add: power_strict_increasing)
  have ci: "int ?c = 2 ^ (int_bits bits - 1)" by simp
  show ?thesis
  proof (cases "i < 0")
    case True
    have n: "nat (- i) \<le> ?c" using assms(1) ci by linarith
    then have "ParseUint (dec_nat (nat (- i))) bits = (nat (- i), None)" using cc by (intro ParseUint_dec) (rule le_less_trans)
    then show ?thesis using True n signed_result_ok [of True "nat (- i)" bits]
      by (simp add: ParseInt_def dec_def sign_of_def)
  next
    case False
    have n: "nat i < ?c" using assms(2) ci False by linarith
    then have "ParseUint (dec_nat (nat i)) bits = (nat i, None)" using cc by (intro ParseUint_dec) (rule less_trans)
    then show ?thesis using False n signed_result_ok [of False "nat i" bits]
      by (simp add: ParseInt_def dec_def sign_of_dec)
  qed
qed

lemma Atoi_dec: "n < 2 ^ 63 \<Longrightarrow> Atoi (dec_nat n) = (int n, None)"
  using parse_dec [of n "2 ^ 64 - 1"] signed_result_ok [of False n 0]
  by (simp add: Atoi_def sign_of_dec int_bits_def)

lemma ParseInt_bin: "n < 2 ^ 63 \<Longrightarrow> ParseInt (''0b'' @ bin_nat n) 0 = (int n, None)"
proof -
  assume n: "n < 2 ^ 63"
  have "lower_char (CHR ''b'') = CHR ''b''" by code_simp
  then have "number_base (''0b'' @ bin_nat n) = (2, bin_nat n)"
    using bin_nat_digits [of n] by (cases "bin_nat n") (auto simp: number_base_def)
  then have "ParseUint (''0b'' @ bin_nat n) 0 = (n, None)"
    using parse_bin [of n "2 ^ 64 - 1"] n by (simp add: ParseUint_def int_bits_def)
  then show ?thesis using n signed_result_ok [of False n 0] by (simp add: ParseInt_def sign_of_def int_bits_def)
qed

lemma ParseUint_char_code: "ParseUint (char_code c) 0 = (of_char c, None)"
proof -
  have l: "of_char c div 16 < (16::nat)" "of_char c mod 16 < (16::nat)" "of_char c < (256::nat)"
    using nat_of_char_less_256 [of c] by (intro less_mult_imp_div_less) simp_all
  have "lower_char (CHR ''x'') = CHR ''x''" by code_simp
  moreover have "of_char c div 16 * 16 + of_char c mod 16 = (of_char c :: nat)" by simp
  moreover have "\<not> 18446744073709551615 < (of_char c :: nat)" using l(3) by linarith
  moreover have "\<not> 16 \<le> (of_char c mod 16 :: nat)" using l(2) by linarith
  ultimately show ?thesis
    using conjunct2 [OF hex_digit_upper [OF l(1)]] conjunct2 [OF hex_digit_upper [OF l(2)]] l(1)
    by (simp add: char_code_eq ParseUint_def number_base_def int_bits_def)
qed

lemma Unquote_quoted:
  assumes "list_all plain_char u" and "ascii_string u"
  shows "Unquote (quoted u) = Some u"
proof -
  have "unquote_loop (u @ [CHR 0x22]) = Some u"
    using assms
  proof (induction u)
    case Nil
    show ?case by (subst unquote_loop.simps) simp
  next
    case (Cons c u)
    then have "c \<noteq> CHR 0x22" "c \<noteq> newline" "c \<noteq> backslash" "of_char c < (128::nat)"
      using plain_char_no_newline [of c] by (auto simp: plain_char_def ascii_string_def)
    then show ?case using Cons by (subst unquote_loop.simps) (simp add: ascii_string_def)
  qed
  then show ?thesis by (simp add: Unquote_def quoted_def)
qed

section \<open>Reading the tokens of an item\<close>

definition reads ::
  "unicode \<Rightarrow> (sml_parser \<Rightarrow> item_result) \<Rightarrow> (tokenType \<times> string) list \<Rightarrow> item \<Rightarrow> (tokenType \<times> string) list \<Rightarrow> bool" where
  "reads U f ts it ts' \<longleftrightarrow> (\<forall>p. faces U p ts \<longrightarrow>
     (\<exists>p'. f p = (Inr (it, True), p') \<and> faces U p' ts' \<and> same_core p p'))"

lemma readsD:
  assumes "reads U f ts it ts'" and "faces U p ts"
  obtains p' where "f p = (Inr (it, True), p')" and "faces U p' ts'" and "same_core p p'"
  using assms by (auto simp: reads_def)

lemma value_tokens_run:
  assumes "\<forall>x \<in> set vs. is_value_type (fst x)"
  shows "value_tokens (vs @ (TkRightAngleBracket, w) # ts) = vs"
  using assms by (simp add: value_tokens_def takeWhile_stop dropWhile_stop is_value_type_def)

lemma item_values_reads:
  assumes "\<And>v t p. v \<in> set vs \<Longrightarrow> pair_of t = (y, shown v) \<Longrightarrow> conv t p = Some (g v, p)"
    and "map pair_of toks = map (\<lambda>v. (y, shown v)) vs"
  shows "item_values U conv dup ex toks acc p = (Some (acc @ map g vs), p)"
  using assms
proof (induction vs arbitrary: toks acc)
  case (Cons v vs)
  then obtain t r where t: "toks = t # r" "pair_of t = (y, shown v)" "map pair_of r = map (\<lambda>v. (y, shown v)) vs" by auto
  have "conv t p = Some (g v, p)" using Cons.prems(1) t(2) by simp
  then show ?case using Cons.IH [OF _ t(3)] Cons.prems(1) t(1) by simp
qed simp

lemma values_taken:
  assumes "faces U p (vts @ (TkRightAngleBracket, w) # ts)" and "\<forall>x \<in> set vts. is_value_type (fst x)"
    and "length (vts @ (TkRightAngleBracket, w) # ts) < n"
  obtains toks p' where "getDataItemValueTokens U n [] p = (Inr toks, p')" and "map pair_of toks = vts"
    and "faces U p' ((TkRightAngleBracket, w) # ts)" and "same_core p p'"
proof -
  obtain toks p' where g: "getDataItemValueTokens U n [] p = (Inr ([] @ toks), p')"
    "map pair_of toks = value_tokens (vts @ (TkRightAngleBracket, w) # ts)"
    "faces U p' (drop (length toks) (vts @ (TkRightAngleBracket, w) # ts))" "same_core p p'"
    using getDataItemValueTokens_faces [OF assms(1,3), of "[]"] by blast
  have v: "map pair_of toks = vts" using g(2) value_tokens_run [OF assms(2)] by simp
  then have "length toks = length vts" by (metis length_map)
  then show thesis using that [of toks p'] g v by simp
qed

lemma parse_values_reads:
  assumes "\<And>v t p. v \<in> set vs \<Longrightarrow> pair_of t = (y, shown v) \<Longrightarrow> conv t p = Some (g v, p)"
    and "is_value_type y" and "new (map g vs) = Inr it"
    and "length (map (\<lambda>v. (y, shown v)) vs @ (TkRightAngleBracket, w) # ts) < n"
  shows "reads U (parse_values U n conv dup ex new) (map (\<lambda>v. (y, shown v)) vs @ (TkRightAngleBracket, w) # ts)
    it ((TkRightAngleBracket, w) # ts)"
  unfolding reads_def
proof (intro allI impI)
  fix p
  assume f: "faces U p (map (\<lambda>v. (y, shown v)) vs @ (TkRightAngleBracket, w) # ts)"
  obtain toks p' where g: "getDataItemValueTokens U n [] p = (Inr toks, p')"
    "map pair_of toks = map (\<lambda>v. (y, shown v)) vs" "faces U p' ((TkRightAngleBracket, w) # ts)" "same_core p p'"
    by (rule values_taken [OF f _ assms(4)]) (use assms(2) in auto)
  have "item_values U conv dup ex toks [] p' = (Some ([] @ map g vs), p')"
    by (rule item_values_reads [where y = y and shown = shown]) (use assms(1) g(2) in auto)
  then show "\<exists>p'. parse_values U n conv dup ex new p = (Inr (it, True), p')
      \<and> faces U p' ((TkRightAngleBracket, w) # ts) \<and> same_core p p'"
    using g assms(3) by (intro exI [of _ p']) (simp add: parse_values_def made_def)
qed

subsection \<open>ASCII text\<close>

lemma control_ascii: "control_char c \<Longrightarrow> of_char c \<le> (127::nat)"
  by (auto simp: control_char_def)

lemma number_text_code:
  assumes "control_char c" and "pair_of t = (TkNumber, char_code c)"
  shows "number_text U t p = ([c], p)"
  using assms control_ascii [OF assms(1)] by (simp add: number_text_def pair_of_def ParseUint_char_code)

lemma quoted_text_run:
  assumes "list_all plain_char u" and "ascii_string u" and "pair_of t = (TkQuotedString, quoted u)"
  shows "quoted_text U t p = (u, p)"
proof -
  have "find (\<lambda>r. 127 < r) (runes u) = None"
    using assms(2) by (auto simp: runes_ascii find_None_iff ascii_string_def)
  then show ?thesis using assms(3) Unquote_quoted [OF assms(1,2)] by (simp add: quoted_text_def pair_of_def)
qed

lemma ascii_loop_reads:
  assumes "map pair_of toks = ascii_tokens s" and "list_all text_char s" and "ascii_string s"
  shows "ascii_loop U single lo hi toks lit p = made (NewASCIINode (lit @ s)) p"
  using assms
proof (induction s arbitrary: toks lit rule: ascii_tokens.induct)
  case (2 c cs)
  have c: "text_char c" "of_char c < (128::nat)" using 2(4,5) by (simp_all add: ascii_string_def)
  show ?case
  proof (cases "control_char c")
    case True
    with 2(3) obtain t r where t: "toks = t # r" "pair_of t = (TkNumber, char_code c)" "map pair_of r = ascii_tokens cs"
      by auto
    then show ?thesis using 2(1) [OF True t(3)] 2(4,5) number_text_code [OF True t(2)]
      by (simp add: pair_of_def [of t] ascii_string_def)
  next
    case False
    let ?run = "takeWhile (\<lambda>c. \<not> control_char c) cs" and ?rest = "dropWhile (\<lambda>c. \<not> control_char c) cs"
    from 2(3) False obtain t r where t: "toks = t # r" "pair_of t = (TkQuotedString, quoted (c # ?run))"
      "map pair_of r = ascii_tokens ?rest" by auto
    have q: "list_all plain_char (c # ?run)" "ascii_string (c # ?run)" "list_all text_char ?rest" "ascii_string ?rest"
      using False 2(4,5) by (auto simp: list_all_iff ascii_string_def plain_char_def text_char_def
          dest: set_takeWhileD set_dropWhileD)
    show ?thesis using 2(2) [OF False t(3) q(3,4)] quoted_text_run [OF q(1,2) t(2)] t(1,2)
      by (simp add: pair_of_def [of t])
  qed
qed simp

lemma ascii_tokens_values: "\<forall>x \<in> set (ascii_tokens s). is_value_type (fst x)"
  by (induction s rule: ascii_tokens.induct) (auto simp: is_value_type_def)

lemma parseASCII_reads:
  assumes "list_all text_char s" and "ascii_string s" and "NewASCIINode s = Inr it"
    and "length (ascii_tokens s @ (TkRightAngleBracket, w) # ts) < n"
  shows "reads U (parseASCII U n lo hi) (ascii_tokens s @ (TkRightAngleBracket, w) # ts) it ((TkRightAngleBracket, w) # ts)"
  unfolding reads_def
proof (intro allI impI)
  fix p
  assume f: "faces U p (ascii_tokens s @ (TkRightAngleBracket, w) # ts)"
  obtain toks p' where g: "getDataItemValueTokens U n [] p = (Inr toks, p')"
    "map pair_of toks = ascii_tokens s" "faces U p' ((TkRightAngleBracket, w) # ts)" "same_core p p'"
    by (rule values_taken [OF f ascii_tokens_values assms(4)])
  show "\<exists>p'. parseASCII U n lo hi p = (Inr (it, True), p') \<and> faces U p' ((TkRightAngleBracket, w) # ts) \<and> same_core p p'"
    using g assms(3) ascii_loop_reads [OF g(2) assms(1,2), of U "length toks = 1" lo hi "[]" p']
    by (intro exI [of _ p']) (simp add: parseASCII_def made_def)
qed

subsection \<open>Leaves\<close>

lemma binary_reads:
  assumes "rep_ok (BNode n)" and "bn_variables n = []"
    and "length (map (\<lambda>v. (TkNumber, ''0b'' @ FormatInt2 v)) (bn_values n) @ (TkRightAngleBracket, w) # ts) < k"
  shows "reads U (parseBinary U k) (map (\<lambda>v. (TkNumber, ''0b'' @ FormatInt2 v)) (bn_values n)
    @ (TkRightAngleBracket, w) # ts) (BNode n) ((TkRightAngleBracket, w) # ts)"
proof -
  have r: "\<And>v. v \<in> set (bn_values n) \<Longrightarrow> 0 \<le> v \<and> v < 256" "bn_symbol n = ''binary''"
    "int (length (bn_values n)) \<le> MAX_BYTE_SIZE" using assms(1) by (auto simp: list_all_iff)
  have sv: "sint (word_of_int v :: 64 word) = v" if "v \<in> set (bn_values n)" for v
    using r(1) [OF that] by (simp add: signed_of_int signed_take_bit_int_eq_self)
  let ?args = "map (\<lambda>v. VInt (word_of_int v)) (bn_values n)"
  let ?f = "\<lambda>a. case a of VInt x \<Rightarrow> sint x"
  have f: "map ?f ?args = bn_values n" using sv by (simp add: map_idI)
  have "NewBinaryNode ?args = Inr (BNode \<lparr>bn_values = map ?f ?args, bn_variables = [], bn_symbol = ''binary''\<rparr>)"
    by (rule NewBinaryNode_ok) (use r sv in \<open>auto simp: binary_value_def\<close>)
  then have new: "NewBinaryNode ?args = Inr (BNode n)" unfolding f using assms(2) r(2) by simp
  have conv: "binary_conv t p = Some (VInt (word_of_int v), p)"
    if "v \<in> set (bn_values n)" "pair_of t = (TkNumber, ''0b'' @ FormatInt2 v)" for v t p
  proof -
    have "nat v < 2 ^ 63" using r(1) [OF that(1)] by (simp add: nat_less_iff)
    from ParseInt_bin [OF this] show ?thesis using that r(1) [OF that(1)]
      by (simp add: binary_conv_def pair_of_def FormatInt2_def)
  qed
  show ?thesis unfolding parseBinary_def
    by (rule parse_values_reads [where g = "\<lambda>v. VInt (word_of_int v)"]) (use conv new assms(3) in \<open>auto simp: is_value_type_def\<close>)
qed

lemma boolean_reads:
  assumes "rep_ok (TNode n)" and "tn_variables n = []"
    and "length (map (\<lambda>v. (TkBool, if v then ''T'' else ''F'')) (tn_values n) @ (TkRightAngleBracket, w) # ts) < k"
  shows "reads U (parseBoolean U k) (map (\<lambda>v. (TkBool, if v then ''T'' else ''F'')) (tn_values n)
    @ (TkRightAngleBracket, w) # ts) (TNode n) ((TkRightAngleBracket, w) # ts)"
proof -
  have r: "tn_symbol n = ''boolean''" "int (length (tn_values n)) \<le> MAX_BYTE_SIZE" using assms(1) by auto
  have new: "NewBooleanNode (map VBool (tn_values n)) = Inr (TNode n)"
    using NewBooleanNode_ok [OF r(2)] r(1) assms(2) by simp
  show ?thesis unfolding parseBoolean_def
    by (rule parse_values_reads [where g = VBool])
      (use new assms(3) in \<open>auto simp: is_value_type_def boolean_conv_def pair_of_def\<close>)
qed

lemma float_reads:
  assumes "rep_ok (FNode n)" and "fn_variables n = []" and "item_readable ff (FNode n)" and b: "fn_byteSize n = int b"
    and "length (map (\<lambda>v. (TkNumber, ff (fn_byteSize n) v)) (fn_values n) @ (TkRightAngleBracket, w) # ts) < k"
  shows "reads U (sml_parseFloat U k b) (map (\<lambda>v. (TkNumber, ff (fn_byteSize n) v)) (fn_values n)
    @ (TkRightAngleBracket, w) # ts) (FNode n) ((TkRightAngleBracket, w) # ts)"
proof -
  let ?b = "fn_byteSize n"
  have r: "?b = 4 \<or> ?b = 8" "fn_symbol n = ''f'' @ dec ?b" "?b * int (length (fn_values n)) \<le> MAX_BYTE_SIZE"
    using assms(1) by auto
  have v: "f64_finite v \<and> (?b = 4 \<longrightarrow> unat v mod 2 ^ 63 \<le> max_float32)" if "v \<in> set (fn_values n)" for v
    using assms(1) that by (auto simp: list_all_iff)
  have ok: "float_check_value ?b v = Inr ()" if "v \<in> set (fn_values n)" for v
    using v [OF that] f64_finite_max64 [of v] r(1) by (auto simp: float_check_value_def)
  have "NewFloatNode ?b (map VFloat64 (fn_values n)) = Inr (FNode \<lparr>fn_byteSize = ?b,
      fn_values = map (\<lambda>a. case a of VFloat64 x \<Rightarrow> x) (map VFloat64 (fn_values n)), fn_variables = [], fn_symbol = ''f'' @ dec ?b\<rparr>)"
    by (rule NewFloatNode_ok [OF r(1)]) (use r(3) ok in \<open>auto simp: float_value_def\<close>)
  then have new: "NewFloatNode (int b) (map VFloat64 (fn_values n)) = Inr (FNode n)"
    using r(2) assms(2) b by (simp add: comp_def)
  have conv: "float_conv U b t p = Some (VFloat64 v, p)"
    if "v \<in> set (fn_values n)" "pair_of t = (TkNumber, ff ?b v)" for v t p
    using that assms(3) b by (auto simp: list_all_iff float_conv_def pair_of_def)
  show ?thesis unfolding sml_parseFloat_def
    by (rule parse_values_reads [where g = VFloat64])
      (use conv new assms(5) in \<open>auto simp: is_value_type_def\<close>)
qed

lemma int_reads:
  assumes "rep_ok (INode n)" and "in_variables n = []" and b: "in_byteSize n = int b"
    and "length (map (\<lambda>v. (TkNumber, dec (sint v))) (in_values n) @ (TkRightAngleBracket, w) # ts) < k"
  shows "reads U (sml_parseInt U k b) (map (\<lambda>v. (TkNumber, dec (sint v))) (in_values n)
    @ (TkRightAngleBracket, w) # ts) (INode n) ((TkRightAngleBracket, w) # ts)"
proof -
  let ?b = "in_byteSize n"
  have r: "?b \<in> {1, 2, 4, 8}" "in_symbol n = ''i'' @ dec ?b" "?b * int (length (in_values n)) \<le> MAX_BYTE_SIZE"
    using assms(1) by auto
  have v: "int_fits ?b v" if "v \<in> set (in_values n)" for v
    using assms(1) that by (auto simp: list_all_iff)
  have "NewIntNode ?b (map VInt64 (in_values n)) = Inr (INode \<lparr>in_byteSize = ?b,
      in_values = map (\<lambda>a. case a of VInt64 x \<Rightarrow> x) (map VInt64 (in_values n)), in_variables = [], in_symbol = ''i'' @ dec ?b\<rparr>)"
    by (rule NewIntNode_ok [OF r(1)]) (use r(3) v in \<open>auto simp: int_value_def\<close>)
  then have new: "NewIntNode (int b) (map VInt64 (in_values n)) = Inr (INode n)"
    using r(2) assms(2) b by (simp add: comp_def)
  have conv: "int_conv U b t p = Some (VInt64 v, p)"
    if "v \<in> set (in_values n)" "pair_of t = (TkNumber, dec (sint v))" for v t p
  proof -
    have "b \<in> {1, 2, 4, 8}" using r(1) b by auto
    then have "ParseInt (dec (sint v)) (b * 8) = (sint v, None)"
      using v [OF that(1)] by (intro ParseInt_dec) (auto simp: int_fits_def b int_bits_def)
    then show ?thesis using that(2) by (simp add: int_conv_def pair_of_def)
  qed
  show ?thesis unfolding sml_parseInt_def
    by (rule parse_values_reads [where g = VInt64])
      (use conv new assms(4) in \<open>auto simp: is_value_type_def\<close>)
qed

lemma uint_reads:
  assumes "rep_ok (UNode n)" and "un_variables n = []" and b: "un_byteSize n = int b"
    and "length (map (\<lambda>v. (TkNumber, dec (uint v))) (un_values n) @ (TkRightAngleBracket, w) # ts) < k"
  shows "reads U (sml_parseUint U k b) (map (\<lambda>v. (TkNumber, dec (uint v))) (un_values n)
    @ (TkRightAngleBracket, w) # ts) (UNode n) ((TkRightAngleBracket, w) # ts)"
proof -
  let ?b = "un_byteSize n"
  have r: "?b \<in> {1, 2, 4, 8}" "un_symbol n = ''u'' @ dec ?b" "?b * int (length (un_values n)) \<le> MAX_BYTE_SIZE"
    using assms(1) by auto
  have v: "uint_fits ?b v" if "v \<in> set (un_values n)" for v
    using assms(1) that by (auto simp: list_all_iff)
  have "NewUintNode ?b (map VUint64 (un_values n)) = Inr (UNode \<lparr>un_byteSize = ?b,
      un_values = map (\<lambda>a. case a of VUint64 x \<Rightarrow> x) (map VUint64 (un_values n)), un_variables = [], un_symbol = ''u'' @ dec ?b\<rparr>)"
    by (rule NewUintNode_ok [OF r(1)]) (use r(3) v in \<open>auto simp: uint_value_def\<close>)
  then have new: "NewUintNode (int b) (map VUint64 (un_values n)) = Inr (UNode n)"
    using r(2) assms(2) b by (simp add: comp_def)
  have conv: "uint_conv U b t p = Some (VUint64 v, p)"
    if "v \<in> set (un_values n)" "pair_of t = (TkNumber, dec (uint v))" for v t p
  proof -
    have bb: "b \<in> {1, 2, 4, 8}" using r(1) b by auto
    have "unat v < 2 ^ int_bits (b * 8)"
      using v [OF that(1)] uint_fits_iff [OF bb, of v] bb unfolding b by (auto simp: int_bits_def mult.commute)
    from ParseUint_dec [OF this] show ?thesis using that(2) by (simp add: uint_conv_def pair_of_def dec_def)
  qed
  show ?thesis unfolding sml_parseUint_def
    by (rule parse_values_reads [where g = VUint64])
      (use conv new assms(4) in \<open>auto simp: is_value_type_def\<close>)
qed

subsection \<open>An item behind its opening bracket\<close>

lemma size_read:
  assumes "faces U p ((TkDataItemSize, size_text k) # ts)" and "k < 2 ^ 63"
  obtains t p' where "parseDataItemSize U p = ((t, int k, int k), p')" and "faces U p' ts" and "same_core p p'"
proof -
  obtain t ok p' where a: "sp_accept U TkDataItemSize p = (t, ok, p')" "(TkDataItemSize, size_text k) = (tk_typ t, tk_val t)"
    "ok" "faces U p' ts" "same_core p p'"
    using assms(1) by (rule accept_faces [where y = TkDataItemSize]) auto
  have "CHR ''.'' \<notin> set decimal_digits" by (simp add: decimal_digits_def)
  then have "\<forall>c \<in> set (size_text k). c \<noteq> CHR ''.''" using dec_nat_decimal [of k] by (auto simp: size_text_def)
  then have "length (takeWhile (\<lambda>c. c \<noteq> CHR ''.'') (size_text k)) = length (size_text k)"
    unfolding takeWhile_eq_all_conv [symmetric] by (rule arg_cong)
  moreover have "butlast (tl (size_text k)) = dec_nat k" by (simp add: size_text_def butlast_append)
  ultimately have "parseDataItemSize U p = ((t, int k, int k), p')"
    using a Atoi_dec [OF assms(2)] by (simp add: parseDataItemSize_def Let_def)
  then show thesis using that a by blast
qed

lemma close_item_reads:
  assumes "faces U p ((TkRightAngleBracket, w) # ts)" and "lo \<le> Size it" and "hi = - 1 \<or> Size it \<le> hi" and "0 \<le> Size it"
  obtains p' where "close_item U s lo hi (it, True) p = (Inr (it, True), p')" and "faces U p' ts" and "same_core p p'"
proof -
  have c: "checkDataItemSizeError (Size it) lo hi s p = p" using assms(2,3) by (auto simp: checkDataItemSizeError_def)
  obtain t ok p' where a: "sp_accept U TkRightAngleBracket p = (t, ok, p')" "ok" "faces U p' ts" "same_core p p'"
    using assms(1) by (rule accept_faces [where y = TkRightAngleBracket]) auto
  show thesis by (rule that [of p']) (use a c assms(4) in \<open>simp_all add: close_item_def\<close>)
qed

lemma type_read:
  assumes "faces U p ((TkDataItemType, typ) # ts)"
  obtains t p' where "sp_accept U TkDataItemType p = (t, True, p')" and "tk_val t = typ" and "faces U p' ts" and "same_core p p'"
  using assms by (rule accept_faces [where y = TkDataItemType]) auto

lemma item_body_sized:
  assumes r: "reads U (if typ = ''L'' then lst else leaf_parser U n typ (int k) (int k))
      (vts @ (TkRightAngleBracket, w) # ts) it ((TkRightAngleBracket, w) # ts)"
    and k: "Size it = int k" "k < 2 ^ 63"
  shows "reads U (item_body U n lst)
    ((TkDataItemType, typ) # (TkDataItemSize, size_text k) # vts @ (TkRightAngleBracket, w) # ts) it ts"
  unfolding reads_def
proof (intro allI impI)
  fix p
  assume "faces U p ((TkDataItemType, typ) # (TkDataItemSize, size_text k) # vts @ (TkRightAngleBracket, w) # ts)"
  then obtain t p1 where t: "sp_accept U TkDataItemType p = (t, True, p1)" "tk_val t = typ"
    "faces U p1 ((TkDataItemSize, size_text k) # vts @ (TkRightAngleBracket, w) # ts)" "same_core p p1" by (rule type_read)
  obtain z p2 where z: "sp_peek U p1 = (z, p2)" "(TkDataItemSize, size_text k) = (tk_typ z, tk_val z)"
    "faces U p2 ((TkDataItemSize, size_text k) # vts @ (TkRightAngleBracket, w) # ts)" "same_core p1 p2"
    using t(3) by (rule peek_faces) simp
  obtain s p3 where s: "parseDataItemSize U p2 = ((s, int k, int k), p3)"
    "faces U p3 (vts @ (TkRightAngleBracket, w) # ts)" "same_core p2 p3" using z(3) k(2) by (rule size_read)
  obtain p4 where i: "(if typ = ''L'' then lst else leaf_parser U n typ (int k) (int k)) p3 = (Inr (it, True), p4)"
    "faces U p4 ((TkRightAngleBracket, w) # ts)" "same_core p3 p4" using r s(2) by (rule readsD)
  obtain p5 where c: "close_item U s (int k) (int k) (it, True) p4 = (Inr (it, True), p5)" "faces U p5 ts" "same_core p4 p5"
    using i(2) by (rule close_item_reads [where lo = "int k" and hi = "int k" and it = it and s = s]) (use k in auto)
  have "same_core p p5" using t(4) z(4) s(3) i(3) c(3) same_core_trans by blast
  moreover have "(if typ = ''L'' then lst p3 else leaf_parser U n typ (int k) (int k) p3) = (Inr (it, True), p4)"
    using i(1) by (simp split: if_splits)
  then have "item_body U n lst p = (Inr (it, True), p5)" using t(1,2) z(1,2) s(1) c(1)
    by (cases "typ = ''L''") (simp_all add: item_body_def)
  ultimately show "\<exists>p'. item_body U n lst p = (Inr (it, True), p') \<and> faces U p' ts \<and> same_core p p'"
    using c(2) by blast
qed

lemma item_body_ascii:
  assumes r: "reads U (parseASCII U n 0 (- 1)) (ascii_tokens s @ (TkRightAngleBracket, w) # ts) it ((TkRightAngleBracket, w) # ts)"
    and s: "0 \<le> Size it"
  shows "reads U (item_body U n lst) ((TkDataItemType, ''A'') # ascii_tokens s @ (TkRightAngleBracket, w) # ts) it ts"
  unfolding reads_def
proof (intro allI impI)
  fix p
  let ?ts = "ascii_tokens s @ (TkRightAngleBracket, w) # ts"
  assume "faces U p ((TkDataItemType, ''A'') # ?ts)"
  then obtain t p1 where t: "sp_accept U TkDataItemType p = (t, True, p1)" "tk_val t = ''A''"
    "faces U p1 ?ts" "same_core p p1" by (rule type_read)
  obtain z p2 where z: "sp_peek U p1 = (z, p2)" "next_of ?ts = (tk_typ z, tk_val z)" "faces U p2 ?ts" "same_core p1 p2"
    using t(3) by (rule peek_faces)
  have "fst (next_of ?ts) \<noteq> TkError \<and> fst (next_of ?ts) \<noteq> TkDataItemSize"
    by (cases s) auto
  then have nz: "tk_typ z \<noteq> TkError" "tk_typ z \<noteq> TkDataItemSize" using z(2) by simp_all
  obtain p4 where i: "parseASCII U n 0 (- 1) p2 = (Inr (it, True), p4)" "faces U p4 ((TkRightAngleBracket, w) # ts)"
    "same_core p2 p4" using r z(3) by (rule readsD)
  obtain p5 where c: "close_item U zero_token 0 (- 1) (it, True) p4 = (Inr (it, True), p5)" "faces U p5 ts" "same_core p4 p5"
    using i(2) by (rule close_item_reads [where lo = 0 and hi = "- 1" and it = it and s = zero_token]) (use s in auto)
  have "same_core p p5" using t(4) z(4) i(3) c(3) same_core_trans by blast
  moreover have "item_body U n lst p = (Inr (it, True), p5)"
    using t z(1) nz i(1) c(1) by (simp add: item_body_def leaf_parser_def)
  ultimately show "\<exists>p'. item_body U n lst p = (Inr (it, True), p') \<and> faces U p' ts \<and> same_core p p'"
    using c(2) by blast
qed

lemma parseDataItem_reads:
  assumes "reads U (item_body U n (parseList U n [])) ts it ts'"
  shows "reads U (parseDataItem U (Suc n)) ((TkLeftAngleBracket, ''<'') # ts) it ts'"
  unfolding reads_def
proof (intro allI impI)
  fix p
  assume "faces U p ((TkLeftAngleBracket, ''<'') # ts)"
  then obtain t ok p1 where t: "sp_accept U TkLeftAngleBracket p = (t, ok, p1)" "ok" "faces U p1 ts" "same_core p p1"
    by (rule accept_faces [where y = TkLeftAngleBracket]) auto
  obtain p2 where b: "item_body U n (parseList U n []) p1 = (Inr (it, True), p2)" "faces U p2 ts'" "same_core p1 p2"
    using assms t(3) by (rule readsD)
  show "\<exists>p'. parseDataItem U (Suc n) p = (Inr (it, True), p') \<and> faces U p' ts' \<and> same_core p p'"
    using t b same_core_trans [OF t(4) b(3)] by (intro exI [of _ p2]) (simp add: recovered_def)
qed

lemma parse_sized:
  assumes "reads U (if typ = ''L'' then parseList U n [] else leaf_parser U n typ (int k) (int k))
      (vts @ (TkRightAngleBracket, ''>'') # ts) it ((TkRightAngleBracket, ''>'') # ts)"
    and "Size it = int k" and "int k \<le> MAX_BYTE_SIZE"
  shows "reads U (parseDataItem U (Suc n)) (sized_tokens typ k vts @ ts) it ts"
proof -
  have "k < 2 ^ 63" using assms(3) by (simp add: MAX_BYTE_SIZE_def)
  from parseDataItem_reads [OF item_body_sized [OF assms(1,2) this]] show ?thesis by (simp add: sized_tokens_def)
qed

section \<open>Items\<close>

lemma item_tokens_start:
  assumes "it \<noteq> EmptyNode"
  shows "next_of (item_tokens ff it @ ts) = (TkLeftAngleBracket, ''<'')" and "0 < length (item_tokens ff it)"
  using assms by (cases it; simp add: sized_tokens_def)+

lemma parseList_reads:
  assumes "\<And>x n ts. x \<in> set xs \<Longrightarrow> length (item_tokens ff x @ ts) \<le> n \<Longrightarrow>
      reads U (parseDataItem U n) (item_tokens ff x @ ts) x ts"
    and "\<forall>x \<in> set xs. x \<noteq> EmptyNode"
    and "length (concat (map (item_tokens ff) xs) @ (TkRightAngleBracket, w) # ts) < n"
    and "NewListNode (vals @ map VItem xs) = Inr it"
  shows "reads U (parseList U n vals) (concat (map (item_tokens ff) xs) @ (TkRightAngleBracket, w) # ts)
    it ((TkRightAngleBracket, w) # ts)"
  using assms
proof (induction xs arbitrary: n vals)
  case Nil
  then obtain k where n: "n = Suc k" by (cases n) auto
  show ?case unfolding reads_def
  proof (intro allI impI)
    fix p
    assume "faces U p (concat (map (item_tokens ff) []) @ (TkRightAngleBracket, w) # ts)"
    then obtain t p1 where "sp_peek U p = (t, p1)" "TkRightAngleBracket = tk_typ t"
      "faces U p1 ((TkRightAngleBracket, w) # ts)" "same_core p p1" by (rule peek_faces) auto
    then show "\<exists>p'. parseList U n vals p = (Inr (it, True), p') \<and> faces U p' ((TkRightAngleBracket, w) # ts) \<and> same_core p p'"
      using Nil.prems(4) by (intro exI [of _ p1]) (simp add: n made_def)
  qed
next
  case (Cons x xs)
  let ?r = "concat (map (item_tokens ff) xs) @ (TkRightAngleBracket, w) # ts"
  obtain k where n: "n = Suc k" using Cons.prems(3) by (cases n) auto
  have ne: "x \<noteq> EmptyNode" using Cons.prems(2) by simp
  have "reads U (parseDataItem U k) (item_tokens ff x @ ?r) x ?r"
    by (rule Cons.prems(1)) (use Cons.prems(3) n in auto)
  moreover have "reads U (parseList U k (vals @ [VItem x])) ?r it ((TkRightAngleBracket, w) # ts)"
  proof (rule Cons.IH [OF Cons.prems(1)])
    have "length (item_tokens ff x @ ?r) < Suc k" using Cons.prems(3) n by simp
    then show "length ?r < k" unfolding length_append using item_tokens_start(2) [OF ne, of ff] by linarith
  qed (use Cons.prems(2,4) in auto)
  ultimately show ?case unfolding reads_def
  proof (intro allI impI, goal_cases)
    case (1 p)
    then have "faces U p (item_tokens ff x @ ?r)" by simp
    then obtain t p1 where t: "sp_peek U p = (t, p1)" "(TkLeftAngleBracket, ''<'') = (tk_typ t, tk_val t)"
      "faces U p1 (item_tokens ff x @ ?r)" "same_core p p1"
      by (rule peek_faces) (auto simp: item_tokens_start(1) [OF ne])
    obtain p2 where x: "parseDataItem U k p1 = (Inr (x, True), p2)" "faces U p2 ?r" "same_core p1 p2"
      using 1(1) t(3) by blast
    obtain p3 where r: "parseList U k (vals @ [VItem x]) p2 = (Inr (it, True), p3)"
      "faces U p3 ((TkRightAngleBracket, w) # ts)" "same_core p2 p3" using 1(2) x(2) by blast
    show ?case using t(1,2) x(1) r(1,2) same_core_trans [OF same_core_trans [OF t(4) x(3)] r(3)]
      by (intro exI [of _ p3]) (simp add: n)
  qed
qed

lemma ascii_item_reads:
  assumes a: "rep_ok (ANode n)" "an_isValue n" "item_readable ff (ANode n)"
    and len: "length (item_tokens ff (ANode n) @ ts) \<le> Suc k"
  shows "reads U (parseDataItem U (Suc k)) (item_tokens ff (ANode n) @ ts) (ANode n) ts"
proof -
  have r: "list_all text_char (an_value n)" "ascii_string (an_value n)" "int (length (an_value n)) \<le> MAX_BYTE_SIZE"
    using a by simp_all
  have new: "NewASCIINode (an_value n) = Inr (ANode n)" using NewASCIINode_ok [OF r(2,3)] a(1,2) by simp
  show ?thesis
  proof (cases "an_value n = []")
    case True
    have "reads U (parseASCII U k 0 0) (ascii_tokens (an_value n) @ (TkRightAngleBracket, ''>'') # ts) (ANode n)
        ((TkRightAngleBracket, ''>'') # ts)"
      by (rule parseASCII_reads [OF r(1,2) new]) (use len True in \<open>simp add: sized_tokens_def\<close>)
    then have "reads U (parseDataItem U (Suc k)) (sized_tokens ''A'' 0 [] @ ts) (ANode n) ts"
      by (intro parse_sized) (use True a(2) in \<open>simp_all add: leaf_parser_def MAX_BYTE_SIZE_def\<close>)
    then show ?thesis using True by simp
  next
    case False
    have "reads U (parseASCII U k 0 (- 1)) (ascii_tokens (an_value n) @ (TkRightAngleBracket, ''>'') # ts) (ANode n)
        ((TkRightAngleBracket, ''>'') # ts)"
      by (rule parseASCII_reads [OF r(1,2) new]) (use len False in simp)
    from parseDataItem_reads [OF item_body_ascii [OF this]] show ?thesis using False a(2) by simp
  qed
qed

lemma leaf_parser_numbers:
  "b \<in> {1, 2, 4, 8} \<Longrightarrow> leaf_parser U n (''I'' @ dec (int b)) lo hi = sml_parseInt U n b"
  "b \<in> {1, 2, 4, 8} \<Longrightarrow> leaf_parser U n (''U'' @ dec (int b)) lo hi = sml_parseUint U n b"
  "b \<in> {4, 8} \<Longrightarrow> leaf_parser U n (''F'' @ dec (int b)) lo hi = sml_parseFloat U n b"
  by (auto simp: leaf_parser_def)

lemma sized_length: "length (sized_tokens typ m vts @ ts) \<le> Suc k \<Longrightarrow> length (vts @ (TkRightAngleBracket, w) # ts) < k"
  by (simp add: sized_tokens_def)

lemma byte_size_bound: "b \<in> {1, 2, 4, 8} \<Longrightarrow> b * int m \<le> M \<Longrightarrow> int m \<le> M"
  by auto

lemma number_item_reads:
  assumes "rep_ok it" and "Variables it = []" and "item_readable ff it"
    and len: "length (item_tokens ff it @ ts) \<le> Suc k"
    and "(\<exists>n. it = FNode n) \<or> (\<exists>n. it = INode n) \<or> (\<exists>n. it = UNode n)"
  shows "reads U (parseDataItem U (Suc k)) (item_tokens ff it @ ts) it ts"
  using assms(5)
proof (elim disjE exE)
  fix n
  assume it: "it = FNode n"
  have b4: "fn_byteSize n \<in> {4, 8}" using assms(1) it by auto
  then obtain b where b: "fn_byteSize n = int b" "b \<in> {4, 8}" by (auto intro: that [of 4] that [of 8])
  have m: "int (length (fn_values n)) \<le> MAX_BYTE_SIZE"
    by (rule byte_size_bound [of "fn_byteSize n"]) (use assms(1) it b4 in auto)
  have "reads U (sml_parseFloat U k b) (map (\<lambda>v. (TkNumber, ff (fn_byteSize n) v)) (fn_values n)
      @ (TkRightAngleBracket, ''>'') # ts) (FNode n) ((TkRightAngleBracket, ''>'') # ts)"
    using assms(1-4) no_variables(4) [OF assms(2) it] b(1) unfolding it item_tokens.simps
    by (intro float_reads sized_length) auto
  then show ?thesis unfolding it item_tokens.simps
    by (intro parse_sized) (use b m leaf_parser_numbers(3) [OF b(2)] in \<open>auto simp: \<close>)
next
  fix n
  assume it: "it = INode n"
  have b4: "in_byteSize n \<in> {1, 2, 4, 8}" using assms(1) it by auto
  then obtain b where b: "in_byteSize n = int b" "b \<in> {1, 2, 4, 8}" using byte_size_nat by blast
  have m: "int (length (in_values n)) \<le> MAX_BYTE_SIZE"
    by (rule byte_size_bound [OF b4]) (use assms(1) it in auto)
  have "reads U (sml_parseInt U k b) (map (\<lambda>v. (TkNumber, dec (sint v))) (in_values n)
      @ (TkRightAngleBracket, ''>'') # ts) (INode n) ((TkRightAngleBracket, ''>'') # ts)"
    using assms(1,4) no_variables(5) [OF assms(2) it] b(1) unfolding it item_tokens.simps
    by (intro int_reads sized_length) auto
  then show ?thesis unfolding it item_tokens.simps
    by (intro parse_sized) (use b m leaf_parser_numbers(1) [OF b(2)] in \<open>auto simp: \<close>)
next
  fix n
  assume it: "it = UNode n"
  have b4: "un_byteSize n \<in> {1, 2, 4, 8}" using assms(1) it by auto
  then obtain b where b: "un_byteSize n = int b" "b \<in> {1, 2, 4, 8}" using byte_size_nat by blast
  have m: "int (length (un_values n)) \<le> MAX_BYTE_SIZE"
    by (rule byte_size_bound [OF b4]) (use assms(1) it in auto)
  have "reads U (sml_parseUint U k b) (map (\<lambda>v. (TkNumber, dec (uint v))) (un_values n)
      @ (TkRightAngleBracket, ''>'') # ts) (UNode n) ((TkRightAngleBracket, ''>'') # ts)"
    using assms(1,4) no_variables(6) [OF assms(2) it] b(1) unfolding it item_tokens.simps
    by (intro uint_reads sized_length) auto
  then show ?thesis unfolding it item_tokens.simps
    by (intro parse_sized) (use b m leaf_parser_numbers(2) [OF b(2)] in \<open>auto simp: \<close>)
qed

lemma item_fuel:
  assumes "it \<noteq> EmptyNode" and "length (item_tokens ff it @ ts) \<le> n"
  obtains k where "n = Suc k"
  using assms(2) item_tokens_start(2) [OF assms(1), of ff] by (cases n) auto

lemma item_reads:
  assumes "rep_ok it" and "Variables it = []" and "it \<noteq> EmptyNode" and "item_readable ff it"
    and "length (item_tokens ff it @ ts) \<le> n"
  shows "reads U (parseDataItem U n) (item_tokens ff it @ ts) it ts"
  using assms
proof (induction it arbitrary: n ts)
  case (ANode a)
  obtain k where n: "n = Suc k" using ANode.prems(3,5) by (rule item_fuel)
  show ?case unfolding n
    by (rule ascii_item_reads) (use ANode.prems no_variables(1) [OF ANode.prems(2)] n in auto)
next
  case (BNode b)
  obtain k where n: "n = Suc k" using BNode.prems(3,5) by (rule item_fuel)
  have "reads U (parseBinary U k) (map (\<lambda>v. (TkNumber, ''0b'' @ FormatInt2 v)) (bn_values b)
      @ (TkRightAngleBracket, ''>'') # ts) (BNode b) ((TkRightAngleBracket, ''>'') # ts)"
    using BNode.prems(1,5) no_variables(2) [OF BNode.prems(2)] unfolding n item_tokens.simps
    by (intro binary_reads sized_length) auto
  then show ?case unfolding n item_tokens.simps
    by (intro parse_sized) (use BNode.prems(1) in \<open>auto simp: leaf_parser_def\<close>)
next
  case (TNode b)
  obtain k where n: "n = Suc k" using TNode.prems(3,5) by (rule item_fuel)
  have "reads U (parseBoolean U k) (map (\<lambda>v. (TkBool, if v then ''T'' else ''F'')) (tn_values b)
      @ (TkRightAngleBracket, ''>'') # ts) (TNode b) ((TkRightAngleBracket, ''>'') # ts)"
    using TNode.prems(1,5) no_variables(3) [OF TNode.prems(2)] unfolding n item_tokens.simps
    by (intro boolean_reads sized_length) auto
  then show ?case unfolding n item_tokens.simps
    by (intro parse_sized) (use TNode.prems(1) in \<open>auto simp: leaf_parser_def\<close>)
next
  case (FNode f)
  obtain k where n: "n = Suc k" using FNode.prems(3,5) by (rule item_fuel)
  show ?case unfolding n by (rule number_item_reads) (use FNode.prems n in auto)
next
  case (INode i)
  obtain k where n: "n = Suc k" using INode.prems(3,5) by (rule item_fuel)
  show ?case unfolding n by (rule number_item_reads) (use INode.prems n in auto)
next
  case (UNode u)
  obtain k where n: "n = Suc k" using UNode.prems(3,5) by (rule item_fuel)
  show ?case unfolding n by (rule number_item_reads) (use UNode.prems n in auto)
next
  case (LNode xs vs s)
  note p = LNode.prems and sub = list_without_variables [OF LNode.prems(1,2)]
  obtain k where n: "n = Suc k" using p(3,5) by (rule item_fuel)
  have sy: "s = ''list''" "int (length xs) \<le> MAX_BYTE_SIZE" "distinct (Variables (LNode xs vs s))" using p(1) by simp_all
  have new: "NewListNode ([] @ map VItem xs) = Inr (LNode xs vs s)"
    using NewListNode_ok [OF sy(2)] sy(1,3) sub(1) by simp
  have "reads U (parseList U k []) (concat (map (item_tokens ff) xs) @ (TkRightAngleBracket, ''>'') # ts) (LNode xs vs s)
      ((TkRightAngleBracket, ''>'') # ts)"
  proof (rule parseList_reads [OF _ _ _ new])
    show "length (concat (map (item_tokens ff) xs) @ (TkRightAngleBracket, ''>'') # ts) < k"
      using p(5) unfolding n item_tokens.simps by (rule sized_length)
  qed (use LNode.IH sub(2) p(4) in auto)
  then show ?case unfolding n item_tokens.simps by (intro parse_sized) (use sy in auto)
qed simp

section \<open>Messages\<close>

text \<open>A message as its text has it: without a session and with zero system bytes.\<close>

definition unsent :: "data_message \<Rightarrow> data_message" where
  "unsent m = m\<lparr>dm_sessionID := - 1, dm_systemBytes := [0, 0, 0, 0]\<rparr>"

lemma NewDataMessage_unsent:
  assumes "checkRep m = Inr ()"
  shows "NewDataMessage (dm_name m) (dm_stream m) (dm_function m) (dm_waitBit m) (dm_direction m) (dm_dataItem m)
    = Inr (unsent m)"
  using assms unfolding checkRep_Inr_iff NewDataMessage_def checked_Inr_iff by (simp add: unsent_def)

lemma accept_yes:
  assumes "faces U p ((y, v) # ts)"
  obtains t p' where "sp_accept U y p = (t, True, p')" and "tk_val t = v" and "faces U p' ts" and "same_core p p'"
  using assms by (rule accept_faces [where y = y]) auto

lemma accept_no:
  assumes "faces U p ts" and "fst (next_of ts) \<noteq> y"
  obtains t p' where "sp_accept U y p = (t, False, p')" and "faces U p' ts" and "same_core p p'"
  using assms(1) by (rule accept_faces [where y = y]) (use assms(2) in auto)

lemma stream_function_read:
  assumes "0 \<le> st" "st < 128" "0 \<le> fn" "fn < 256"
    and f: "faces U p ((TkStreamFunction, ''S'' @ dec st @ ''F'' @ dec fn) # ts)"
  obtains p' where "parseStreamFunctionCode U p = ((st, fn, True), p')" and "faces U p' ts" and "same_core p p'"
proof -
  let ?v = "''S'' @ dec_nat (nat st) @ ''F'' @ dec_nat (nat fn)"
  have d: "dec st = dec_nat (nat st)" "dec fn = dec_nat (nat fn)" using assms(1,3) by (simp_all add: dec_def)
  obtain t p1 where a: "sp_accept U TkStreamFunction p = (t, True, p1)" "tk_val t = ?v" "faces U p1 ts" "same_core p p1"
    using f unfolding d by (rule accept_yes)
  have "CHR ''F'' \<notin> set decimal_digits" by (simp add: decimal_digits_def)
  then have nf: "\<forall>c \<in> set (dec_nat (nat st)). c \<noteq> CHR ''F''" using dec_nat_decimal [of "nat st"] by auto
  have i: "index_of (\<lambda>c. c = CHR ''F'') ?v = Suc (length (dec_nat (nat st)))"
    using takeWhile_stop [OF nf, of "CHR ''F''" "dec_nat (nat fn)"] by (simp add: index_of_def)
  have s: "slice 1 (Suc (length (dec_nat (nat st)))) ?v = dec_nat (nat st)"
    "drop (Suc (length (dec_nat (nat st))) + 1) ?v = dec_nat (nat fn)" by (simp_all add: slice_def)
  have n: "Atoi (dec_nat (nat st)) = (st, None)" "Atoi (dec_nat (nat fn)) = (fn, None)"
    using assms(1-4) Atoi_dec [of "nat st"] Atoi_dec [of "nat fn"] by (simp_all add: nat_less_iff)
  have "parseStreamFunctionCode U p = ((st, fn, True), p1)"
    using a(1,2) assms(1-4) by (simp only: parseStreamFunctionCode_def prod.case Let_def i s n) simp
  then show thesis using that a(3,4) by blast
qed

lemma wait_bit_read:
  assumes "w \<in> {0, 1, 2}" and "w = 1 \<longrightarrow> fn mod 2 \<noteq> 0" and "fst (next_of ts) \<noteq> TkWaitBit"
    and f: "faces U p ((if w = 1 then [(TkWaitBit, ''W'')] else if w = 2 then [(TkWaitBit, ''[W]'')] else []) @ ts)"
  obtains p' where "parse_wait_bit U fn p = (w, p')" and "faces U p' ts" and "same_core p p'"
proof -
  consider (no) "w = 0" | (w) v where "w = (if v = ''W'' then 1 else 2)" "v \<in> {''W'', ''[W]''}" "faces U p ((TkWaitBit, v) # ts)"
    using assms(1) f by (elim insertE emptyE) (auto intro: that(2) [of "''W''"] that(2) [of "''[W]''"])
  then show thesis
  proof cases
    case no
    with f have "faces U p ts" by simp
    then obtain t p1 where "sp_accept U TkWaitBit p = (t, False, p1)" "faces U p1 ts" "same_core p p1"
      using assms(3) by (rule accept_no)
    with no show thesis by (intro that [of p1]) (simp_all add: parse_wait_bit_def)
  next
    case w
    from w(3) obtain t p1 where "sp_accept U TkWaitBit p = (t, True, p1)" "tk_val t = v" "faces U p1 ts" "same_core p p1"
      by (rule accept_yes)
    with w(1,2) assms(2) show thesis by (intro that [of p1]) (auto simp: parse_wait_bit_def)
  qed
qed

lemma direction_read:
  assumes "faces U p ((TkDirection, d) # ts)"
  obtains p' where "parse_direction U p = (d, p')" and "faces U p' ts" and "same_core p p'"
proof -
  obtain t p1 where "sp_accept U TkDirection p = (t, True, p1)" "tk_val t = d" "faces U p1 ts" "same_core p p1"
    using assms by (rule accept_yes)
  then show thesis by (intro that [of p1]) (simp_all add: parse_direction_def)
qed

lemma name_read:
  assumes "faces U p ((if v \<noteq> [] then [(TkMessageName, v)] else []) @ ts)" and "fst (next_of ts) \<noteq> TkMessageName"
  obtains p' where "parse_name U p = (v, p')" and "faces U p' ts" and "same_core p p'"
proof (cases "v = []")
  case True
  then have "faces U p ts" using assms(1) by simp
  then obtain t p1 where "sp_accept U TkMessageName p = (t, False, p1)" "faces U p1 ts" "same_core p p1"
    using assms(2) by (rule accept_no)
  with True show thesis by (intro that [of p1]) (simp_all add: parse_name_def)
next
  case False
  then have "faces U p ((TkMessageName, v) # ts)" using assms(1) by simp
  then obtain t p1 where "sp_accept U TkMessageName p = (t, True, p1)" "tk_val t = v" "faces U p1 ts" "same_core p p1"
    by (rule accept_yes)
  then show thesis by (intro that [of p1]) (simp_all add: parse_name_def)
qed

lemma message_text_reads:
  assumes it: "it \<noteq> EmptyNode \<longrightarrow> rep_ok it \<and> Variables it = [] \<and> item_readable ff it"
    and len: "length (item_tokens ff it @ (TkMessageEnd, v) # ts) \<le> n"
  shows "reads U (parse_message_text U n) (item_tokens ff it @ (TkMessageEnd, v) # ts) it ((TkMessageEnd, v) # ts)"
  unfolding reads_def
proof (intro allI impI)
  fix p
  let ?ts = "item_tokens ff it @ (TkMessageEnd, v) # ts"
  assume "faces U p ?ts"
  then obtain t p1 where t: "sp_peek U p = (t, p1)" "next_of ?ts = (tk_typ t, tk_val t)" "faces U p1 ?ts" "same_core p p1"
    by (rule peek_faces)
  show "\<exists>p'. parse_message_text U n p = (Inr (it, True), p') \<and> faces U p' ((TkMessageEnd, v) # ts) \<and> same_core p p'"
  proof (cases "it = EmptyNode")
    case True
    with t show ?thesis by (intro exI [of _ p1]) (simp add: parse_message_text_def)
  next
    case False
    obtain p2 where p2: "parseDataItem U n p1 = (Inr (it, True), p2)" "faces U p2 ((TkMessageEnd, v) # ts)" "same_core p1 p2"
      using item_reads [OF _ _ False _ len] it False t(3) by (auto elim: readsD)
    show ?thesis
      using t(1,2) item_tokens_start(1) [OF False, of ff "(TkMessageEnd, v) # ts"] p2 same_core_trans [OF t(4) p2(3)]
      by (intro exI [of _ p2]) (simp add: parse_message_text_def)
  qed
qed

lemma item_first:
  "fst (next_of (item_tokens ff it @ (TkMessageEnd, v) # ts)) \<notin> {TkWaitBit, TkMessageName}"
  using item_tokens_start(1) [of it ff "(TkMessageEnd, v) # ts"] by (cases "it = EmptyNode") auto

lemma parse_message_reads:
  assumes m: "message_readable ff m" and f: "faces U p (message_tokens ff m)"
    and n: "length (message_tokens ff m) \<le> n"
  obtains p' where "parse_message U n p = (Inr True, p')" and "faces U p' [(TkEOF, ''EOF'')]"
    and "sp_messages p' = sp_messages p @ [unsent m]" and "sp_errors p' = sp_errors p" and "sp_warnings p' = sp_warnings p"
proof -
  have rep: "checkRep m = Inr ()" and it: "dm_dataItem m \<noteq> EmptyNode \<longrightarrow>
      rep_ok (dm_dataItem m) \<and> Variables (dm_dataItem m) = [] \<and> item_readable ff (dm_dataItem m)"
    using m by (simp_all add: message_readable_def)
  note r = rep [unfolded checkRep_Inr_iff]
  define t4 where "t4 = item_tokens ff (dm_dataItem m) @ [(TkMessageEnd, ''.''), (TkEOF, ''EOF'')]"
  define t3 where "t3 = (if dm_name m \<noteq> [] then [(TkMessageName, dm_name m)] else []) @ t4"
  define t1 where "t1 = (if dm_waitBit m = 1 then [(TkWaitBit, ''W'')] else if dm_waitBit m = 2 then [(TkWaitBit, ''[W]'')] else [])
    @ (TkDirection, dm_direction m) # t3"
  define p0 where "p0 = p\<lparr>sp_variableNames := [], sp_ellipsisCount := 0\<rparr>"
  have toks: "message_tokens ff m = (TkStreamFunction, ''S'' @ dec (dm_stream m) @ ''F'' @ dec (dm_function m)) # t1"
    by (simp add: message_tokens_def header_tokens_def t1_def t3_def t4_def)
  have f0: "faces U p0 ((TkStreamFunction, ''S'' @ dec (dm_stream m) @ ''F'' @ dec (dm_function m)) # t1)"
    using f unfolding toks by (simp add: p0_def)
  obtain p1 where p1: "parseStreamFunctionCode U p0 = ((dm_stream m, dm_function m, True), p1)" "faces U p1 t1" "same_core p0 p1"
    by (rule stream_function_read [OF _ _ _ _ f0]) (use r in auto)
  obtain p2 where p2: "parse_wait_bit U (dm_function m) p1 = (dm_waitBit m, p2)"
    "faces U p2 ((TkDirection, dm_direction m) # t3)" "same_core p1 p2"
    by (rule wait_bit_read [OF _ _ _ p1(2) [unfolded t1_def]]) (use r in auto)
  obtain p3 where p3: "parse_direction U p2 = (dm_direction m, p3)" "faces U p3 t3" "same_core p2 p3"
    using p2(2) by (rule direction_read)
  obtain p4 where p4: "parse_name U p3 = (dm_name m, p4)" "faces U p4 t4" "same_core p3 p4"
    by (rule name_read [OF p3(2) [unfolded t3_def]]) (use item_first in \<open>auto simp: t4_def\<close>)
  have "length t4 \<le> n" using n unfolding toks by (simp add: t1_def t3_def)
  then have "reads U (parse_message_text U n) t4 (dm_dataItem m) [(TkMessageEnd, ''.''), (TkEOF, ''EOF'')]"
    unfolding t4_def by (rule message_text_reads [OF it])
  then obtain p5 where p5: "parse_message_text U n p4 = (Inr (dm_dataItem m, True), p5)"
    "faces U p5 [(TkMessageEnd, ''.''), (TkEOF, ''EOF'')]" "same_core p4 p5" using p4(2) by (rule readsD)
  obtain t p6 where p6: "sp_accept U TkMessageEnd p5 = (t, True, p6)" "faces U p6 [(TkEOF, ''EOF'')]" "same_core p5 p6"
    using p5(2) by (rule accept_yes)
  note core = same_core_trans [OF same_core_trans [OF same_core_trans [OF p1(3) p2(3)] same_core_trans [OF p3(3) p4(3)]]
      same_core_trans [OF p5(3) p6(3)]]
  show thesis
  proof (rule that [of "p6\<lparr>sp_messages := sp_messages p6 @ [unsent m]\<rparr>"])
    show "parse_message U n p = (Inr True, p6\<lparr>sp_messages := sp_messages p6 @ [unsent m]\<rparr>)"
      using p1(1) p2(1) p3(1) p4(1) p5(1) p6(1) NewDataMessage_unsent [OF rep] by (simp add: parse_message_def p0_def)
  qed (use p6(2) core in \<open>simp_all add: same_core_def p0_def\<close>)
qed

lemma parse_messages_eof:
  assumes "faces U p [(TkEOF, ''EOF'')]"
  obtains p' where "parse_messages U (Suc n) p = (Inr (), p')" and "same_core p p'"
proof -
  obtain t p1 where "sp_peek U p = (t, p1)" "TkEOF = tk_typ t" "same_core p p1" using assms by (rule peek_faces) auto
  then show thesis by (intro that [of p1]) simp_all
qed

lemma item_tokens_no_comment: "x \<in> set (item_tokens ff it) \<Longrightarrow> fst x \<noteq> TkComment"
proof (induction it)
  case (ANode n)
  then show ?case using ascii_tokens_values [of "an_value n"]
    by (auto simp: sized_tokens_def is_value_type_def split: if_splits)
qed (auto simp: sized_tokens_def)

lemma message_tokens_uncommented: "uncommented (message_tokens ff m) = message_tokens ff m"
proof -
  have "fst x \<noteq> TkComment" if "x \<in> set (message_tokens ff m)" for x
    using that item_tokens_no_comment [of x ff "dm_dataItem m"]
    by (auto simp: message_tokens_def header_tokens_def split: if_splits)
  then have "\<forall>x \<in> set (message_tokens ff m). case x of (t, v) \<Rightarrow> t \<noteq> TkComment" by fastforce
  then show ?thesis unfolding uncommented_def by (rule filter_True)
qed

theorem ParseSML_printed:
  assumes "message_readable ff m"
  shows "ParseSML U (DataMessage_String ff m) = Inr ([unsent m], [], [])"
proof -
  let ?s = "DataMessage_String ff m" and ?ts = "message_tokens ff m"
  have sc: "scan_all U LexMessageHeader ?s = ?ts" by (rule scan_message [OF assms])
  have f: "faces U (new_parser ?s) ?ts" using new_parser_faces [of U ?s] by (simp add: sc message_tokens_uncommented)
  have "length ?ts \<le> length ?s + 1" using scan_all_length [of U LexMessageHeader ?s] by (simp add: sc)
  then have len: "length ?ts \<le> Suc (length ?s)" by simp
  obtain t p0 where p0: "sp_peek U (new_parser ?s) = (t, p0)" "next_of ?ts = (tk_typ t, tk_val t)" "faces U p0 ?ts"
    "same_core (new_parser ?s) p0" using f by (rule peek_faces)
  obtain p1 where p1: "parse_message U (Suc (length ?s)) p0 = (Inr True, p1)" "faces U p1 [(TkEOF, ''EOF'')]"
    "sp_messages p1 = sp_messages p0 @ [unsent m]" "sp_errors p1 = sp_errors p0" "sp_warnings p1 = sp_warnings p0"
    using assms p0(3) len by (rule parse_message_reads)
  obtain p2 where p2: "parse_messages U (Suc (length ?s)) p1 = (Inr (), p2)" "same_core p1 p2"
    using p1(2) by (rule parse_messages_eof)
  have "tk_typ t \<noteq> TkEOF" using p0(2) by (auto simp: message_tokens_def header_tokens_def)
  then have "parse_messages U (parse_fuel ?s) (new_parser ?s) = (Inr (), p2)"
    using p0(1) p1(1) p2(1) by (simp add: parse_fuel_def numeral_2_eq_2)
  then show ?thesis using p0(4) p1(3-5) p2(2) by (simp add: ParseSML_def same_core_def new_parser_def)
qed

end
