(* ===== verification/Sml_Properties.thy ===== *)
theory Sml_Properties
  imports Sml_Roundtrip
begin

text \<open>
  The properties of the SML text format: the lexer is the reference scanner, the parser always answers,
  printing and parsing are inverse, and what the modelling showed about inputs the format mishandles.
\<close>

section \<open>The lexer\<close>

text \<open>The first \<open>n\<close> tokens that \<open>nextToken\<close> hands out.\<close>

fun tokens_from :: "unicode \<Rightarrow> nat \<Rightarrow> lexer \<Rightarrow> token list" where
  "tokens_from U 0 l = []"
| "tokens_from U (Suc n) l = (case nextToken U l of (t, l') \<Rightarrow> t # tokens_from U n l')"

lemma tokens_from_delivers:
  "delivers U l ts \<Longrightarrow> map pair_of (tokens_from U (length ts) l) = ts"
proof (induction ts arbitrary: l)
  case (Cons x ts)
  then obtain t l' where "nextToken U l = (t, l')" "x = (tk_typ t, tk_val t)" "delivers U l' ts"
    using delivers_nextToken [OF Cons.prems] by (cases x) auto
  then show ?case using Cons.IH [of l'] by (simp add: pair_of_def [of t])
qed simp

text \<open>Claim C6. The lexer of the SML format, a machine of state functions over positions, widths and a
  token channel, hands out exactly the tokens of the reference scanner: \<open>scan_all\<close> splits the input
  into the types and values of its tokens without any of that state.\<close>

theorem lexer_scans:
  "map pair_of (tokens_from U (length (scan_all U LexMessageHeader s)) (lex s)) = scan_all U LexMessageHeader s"
  by (rule tokens_from_delivers) (rule delivers_lex)

section \<open>The parser\<close>

text \<open>Claim C8. \<open>ParseSML\<close> answers on every input: the recursion ends, every panic of a node factory is
  recovered, and the only panic that escapes is the one of the message constructor about a white
  space in the name, which needs a byte outside of ASCII, a vertical tab or a form feed in the input.
  What it answers are messages that satisfy their representation invariants, and none of them when
  there is an error.\<close>

theorem ParseSML_answers:
  "case ParseSML U input of
     Inl e \<Rightarrow> e = name_panic \<and> \<not> plain_input input
   | Inr (msgs, errors, warnings) \<Rightarrow> list_all message_ok msgs \<and> (errors \<noteq> [] \<longrightarrow> msgs = [])"
  by (rule ParseSML_total)

definition no_unicode :: unicode where
  "no_unicode = \<lparr>uc_letter = \<lambda>_. False, uc_digit = \<lambda>_. False, uc_print = \<lambda>_. False\<rparr>"

definition two_messages :: string where
  "two_messages = ''S1F1 W H->E . S1F2 H<-E <L <A>.''"

lemma two_messages_errors:
  "case ParseSML no_unicode two_messages of Inl _ \<Rightarrow> False | Inr (msgs, errors, warnings) \<Rightarrow> errors \<noteq> []"
  by code_simp

lemma ParseSML_answers_witness:
  "\<exists>errors warnings. ParseSML no_unicode two_messages = Inr ([], errors, warnings) \<and> errors \<noteq> []"
  using ParseSML_answers [where U = no_unicode and input = two_messages] two_messages_errors
  by (auto split: sum.splits)

section \<open>Printing and parsing\<close>

text \<open>Claim C5. A message without variables whose text is plain reads back from its own text: \<open>ParseSML\<close> on what
  \<open>String()\<close> prints returns the message with its session id and system bytes unset, which the text does
  not have, no error and no warning. Plain means: the ASCII items are without double quotes and backslashes; the
  name is ASCII without white space and \<open>//\<close> and does not begin with \<open>.\<close> or \<open><\<close> nor like a stream and function
  code, a wait bit or a direction; and each float is printed as a number that parses to the same value.
  Outside these conditions the text need not read back, see \<open>backslash_text_is_lost\<close>,
  \<open>double_quote_breaks_text\<close> and \<open>name_with_W_is_split\<close> below.\<close>

theorem ParseSML_String:
  assumes "message_readable ff m"
  shows "ParseSML U (DataMessage_String ff m) = Inr ([unsent m], [], [])"
  by (rule ParseSML_printed [OF assms])

definition sample_message :: data_message where
  "sample_message = \<lparr>dm_name = ''Alarm'', dm_stream = 5, dm_function = 1, dm_waitBit = 1, dm_direction = ''H<-E'',
     dm_dataItem = LNode
       [BNode \<lparr>bn_values = [128], bn_variables = [], bn_symbol = ''binary''\<rparr>,
        LNode [] [] ''list'',
        FNode \<lparr>fn_byteSize = 8, fn_values = [0x3FF8000000000000], fn_variables = [], fn_symbol = ''f8''\<rparr>,
        INode \<lparr>in_byteSize = 2, in_values = [- 5, 7], in_variables = [], in_symbol = ''i2''\<rparr>,
        ascii_item (''too'' @ [newline] @ ''hot'')] [] ''list'',
     dm_sessionID = 7, dm_systemBytes = [0, 0, 0, 9]\<rparr>"

definition prints_half :: "int \<Rightarrow> 64 word \<Rightarrow> string" where
  "prints_half b v = ''1.5''"

lemma ParseSML_String_witness:
  "ParseSML no_unicode (DataMessage_String prints_half sample_message) = Inr ([unsent sample_message], [], [])
   \<and> unsent sample_message \<noteq> sample_message"
proof
  have "message_readable prints_half sample_message" by code_simp
  then show "ParseSML no_unicode (DataMessage_String prints_half sample_message) = Inr ([unsent sample_message], [], [])"
    by (rule ParseSML_String)
  show "unsent sample_message \<noteq> sample_message" by code_simp
qed

section \<open>Inputs the format mishandles\<close>

text \<open>A name that starts with a vertical tab makes \<open>ParseSML\<close> panic.\<close>

theorem name_panic_escapes:
  "ParseSML U (''S1F1 H->E '' @ [CHR 0x0B] @ '' .'') = Inl name_panic"
  by code_simp

text \<open>A quoted text that Go cannot unquote is dropped without an error: the message arrives with an
  empty item. The text that \<open>String()\<close> prints for a backslash is such a text.\<close>

definition path_message :: data_message where
  "path_message = sample_message\<lparr>dm_dataItem := ascii_item (''C:'' @ [backslash] @ ''dir'')\<rparr>"

theorem backslash_text_is_lost:
  "ParseSML U (DataMessage_String ff path_message)
     = Inr ([unsent (path_message\<lparr>dm_dataItem := ascii_item []\<rparr>)], [], [])"
  by code_simp

text \<open>A double quote in printed text ends the quoted string: what is printed does not parse.\<close>

theorem double_quote_breaks_text:
  "\<exists>errors. ParseSML no_unicode (DataMessage_String prints_half
      (sample_message\<lparr>dm_dataItem := ascii_item (''5'' @ [CHR 0x22])\<rparr>)) = Inr ([], errors, []) \<and> errors \<noteq> []"
proof -
  have "case ParseSML no_unicode (DataMessage_String prints_half
      (sample_message\<lparr>dm_dataItem := ascii_item (''5'' @ [CHR 0x22])\<rparr>)) of
      Inl _ \<Rightarrow> False | Inr (ms, es, ws) \<Rightarrow> ms = [] \<and> es \<noteq> [] \<and> ws = []" by code_simp
  then show ?thesis by (auto split: sum.splits)
qed

text \<open>A message name that begins with \<open>W\<close> is read as a wait bit and the rest of the name.\<close>

theorem name_with_W_is_split:
  "take 2 (drop 2 (scan_all U LexMessageHeader ''S1F1 H->E World .'')) = [(TkWaitBit, ''W''), (TkMessageName, ''orld'')]"
  by code_simp

text \<open>A comment whose last character ends in the byte A0 is cut inside that character: the byte left over
  becomes a message name, and the message that follows is lost.\<close>

theorem comment_cut_in_a_character:
  "take 2 (scan_all U LexMessageHeader (''// voil'' @ [CHR 0xC3, CHR 0xA0, newline] @ ''S1F1 .''))
     = [(TkComment, ''// voil'' @ [CHR 0xC3]), (TkMessageName, [CHR 0xA0])]"
  by code_simp

text \<open>A number with a leading zero is octal in an integer item and decimal in a float item.\<close>

theorem leading_zero_is_octal:
  "ParseInt ''010'' 8 = (8, None) \<and> fst (ParseFloat ''010'' 64) = f64_of_int 10"
  by code_simp

end
