(* ===== verification/Item_Fill.thy ===== *)
theory Item_Fill
  imports Hsms_Message
begin

text \<open>
  Filling the variables of lists and messages: \<open>FillVariables\<close> in \<open>list.go\<close> with the expansion of
  ellipses (\<open>splitValues\<close>, \<open>ellipsisAnalysis\<close>, \<open>fillEllipsis\<close> and its \<open>fillState\<close>) and in \<open>ast.go\<close>. The
  mutable \<open>fillState\<close> is passed and returned. The loop of \<open>fillEllipsis\<close> goes back to the first value for
  each repetition; the model bounds how often by the value of the ellipsis, which lemma
  \<open>fill_ellipsis_total\<close> shows to be enough unless an ellipsis is filled with a negative number.
\<close>

section \<open>The state of an expansion\<close>

record fill_state =
  fs_dimension :: int
  fs_indices :: "int list"
  fs_ellipsisCount :: int
  fs_multiple :: bool

definition newFillState :: "int \<Rightarrow> fill_state" where
  "newFillState remaining =
     \<lparr>fs_dimension = 0, fs_indices = [], fs_ellipsisCount = 0, fs_multiple = 1 < remaining\<rparr>"

definition growDimension :: "fill_state \<Rightarrow> fill_state go" where
  "growDimension s =
     go_bind (if fs_dimension s = int (length (fs_indices s)) then Inr (fs_indices s @ [0])
              else go_bind (go_at (fs_indices s) (fs_dimension s)) (\<lambda>_.
                Inr ((fs_indices s)[nat (fs_dimension s) := 0])))
       (\<lambda>is. Inr (s\<lparr>fs_indices := is, fs_dimension := fs_dimension s + 1\<rparr>))"

definition exitDimension :: "fill_state \<Rightarrow> fill_state" where
  "exitDimension s = s\<lparr>fs_dimension := fs_dimension s - 1\<rparr>"

definition getCurrentDimensionIndex :: "fill_state \<Rightarrow> int go" where
  "getCurrentDimensionIndex s = go_at (fs_indices s) (fs_dimension s - 1)"

definition growIndex :: "fill_state \<Rightarrow> fill_state go" where
  "growIndex s = go_bind (getCurrentDimensionIndex s) (\<lambda>i.
     Inr (s\<lparr>fs_indices := (fs_indices s)[nat (fs_dimension s - 1) := i + 1]\<rparr>))"

definition index_suffix :: "int list \<Rightarrow> string" where
  "index_suffix is = concat (map (\<lambda>i. ''['' @ dec i @ '']'') is)"

definition getNewVariableName :: "string \<Rightarrow> fill_state \<Rightarrow> string \<times> fill_state" where
  "getNewVariableName name s =
     (if isEllipsis name then
        (if fs_multiple s
         then (''...['' @ dec (fs_ellipsisCount s) @ '']'', s\<lparr>fs_ellipsisCount := fs_ellipsisCount s + 1\<rparr>)
         else (''...'', s))
      else (name @ index_suffix (take (nat (fs_dimension s)) (fs_indices s)), s))"

section \<open>Which ellipses are filled\<close>

definition go_int :: "goval \<Rightarrow> int go" where
  "go_int v = (case v of VInt w \<Rightarrow> Inr (sint w) | _ \<Rightarrow> Inl (Panic ''interface conversion''))"

text \<open>The position and fill-in value of a list's own ellipsis, when it is filled.\<close>

definition own_ellipsis :: "(string \<rightharpoonup> goval) \<Rightarrow> vars \<Rightarrow> (nat \<times> goval) option" where
  "own_ellipsis vals vars = (case find (\<lambda>(name, pos). isEllipsis name \<and> vals name \<noteq> None) vars of
      None \<Rightarrow> None
    | Some (name, pos) \<Rightarrow> Some (pos, the (vals name)))"

text \<open>Sums and products of \<open>int\<close> wrap around at 64 bits.\<close>

definition wrap_int :: "int \<Rightarrow> int" where
  "wrap_int k = signed_take_bit 63 k"

fun ellipsisAnalysis :: "(string \<rightharpoonup> goval) \<Rightarrow> item \<Rightarrow> (int \<times> int) go"
and analyse_items :: "(string \<rightharpoonup> goval) \<Rightarrow> int \<Rightarrow> item list \<Rightarrow> int \<times> int \<Rightarrow> (int \<times> int) go" where
  "ellipsisAnalysis vals (LNode vs vars s) =
     go_bind (case own_ellipsis vals vars of
         Some (pos, v) \<Rightarrow> go_bind (go_int v) (\<lambda>n. Inr (1, n)) | None \<Rightarrow> Inr (0, 0)) (\<lambda>(toFill, value).
       analyse_items vals value vs
         (toFill, if \<exists>(name, pos) \<in> set vars. isEllipsis name \<and> vals name = None then 1 else 0))"
| "ellipsisAnalysis vals it = Inr (0, 0)"
| "analyse_items vals value [] acc = Inr acc"
| "analyse_items vals value (v # vs) (toFill, remaining) =
     (case v of
        LNode _ _ _ \<Rightarrow> go_bind (ellipsisAnalysis vals v) (\<lambda>(ef, er).
          analyse_items vals value vs (wrap_int (toFill + (value + 1) * ef), wrap_int (remaining + (value + 1) * er)))
      | _ \<Rightarrow> analyse_items vals value vs (toFill, remaining))"

section \<open>Copying an item that is no list\<close>

text \<open>\<open>FillVariables\<close> of the leaves.\<close>

fun leaf_FillVariables :: "(string \<rightharpoonup> goval) \<Rightarrow> item \<Rightarrow> item go" where
  "leaf_FillVariables fill (ANode n) = ascii_FillVariables n fill"
| "leaf_FillVariables fill (BNode n) = binary_FillVariables n fill"
| "leaf_FillVariables fill (TNode n) = boolean_FillVariables n fill"
| "leaf_FillVariables fill (FNode n) = float_FillVariables n fill"
| "leaf_FillVariables fill (INode n) = int_FillVariables n fill"
| "leaf_FillVariables fill (UNode n) = uint_FillVariables n fill"
| "leaf_FillVariables fill it = Inr it"

fun rename_all :: "string list \<Rightarrow> fill_state \<Rightarrow> (string \<rightharpoonup> goval) \<Rightarrow> (string \<rightharpoonup> goval) \<times> fill_state" where
  "rename_all [] s fill = (fill, s)"
| "rename_all (v # vs) s fill = (case getNewVariableName v s of
     (name, s') \<Rightarrow> rename_all vs s' (fill(v \<mapsto> VString name)))"

definition copy_leaf :: "item \<Rightarrow> string \<Rightarrow> fill_state \<Rightarrow> (goval \<times> fill_state) go" where
  "copy_leaf it varName s = (case it of
      EmptyNode \<Rightarrow> (case getNewVariableName varName s of (name, s') \<Rightarrow> Inr (VString name, s'))
    | ANode n \<Rightarrow>
        if Variables it = [] then Inr (VItem it, s)
        else (case getNewVariableName (an_name n) s of (name, s') \<Rightarrow>
          go_bind (NewASCIINodeVariable name (an_min n) (an_max n)) (\<lambda>it'. Inr (VItem it', s')))
    | _ \<Rightarrow>
        if Variables it = [] then Inr (VItem it, s)
        else (case rename_all (Variables it) s Map.empty of (fill, s') \<Rightarrow>
          go_bind (leaf_FillVariables fill it) (\<lambda>it'. Inr (VItem it', s'))))"

section \<open>The expansion\<close>

text \<open>\<open>fill_items k i\<close> is the loop from position \<open>i\<close> with at most \<open>k\<close> more repetitions. At the ellipsis it
  repeats: the index grows and the loop goes on with value 0, or it leaves the dimension.\<close>

lemma size_nth: "i < length vs \<Longrightarrow> size (vs ! i) < size_list size vs"
proof (induction vs arbitrary: i)
  case (Cons v vs)
  then show ?case by (cases i) (auto intro: less_SucI trans_less_add2)
qed simp

lemma size_first: "i < length vs \<Longrightarrow> size (vs ! 0) < size_list size vs"
  by (rule size_nth) auto

function fill_ellipsis :: "(string \<rightharpoonup> goval) \<Rightarrow> item \<Rightarrow> fill_state \<Rightarrow> (item \<times> fill_state) go"
and fill_items :: "(string \<rightharpoonup> goval) \<Rightarrow> item list \<Rightarrow> vars \<Rightarrow> nat option \<Rightarrow> int \<Rightarrow> nat \<Rightarrow> nat \<Rightarrow>
  goval list \<Rightarrow> fill_state \<Rightarrow> (goval list \<times> fill_state) go"
and fill_value :: "(string \<rightharpoonup> goval) \<Rightarrow> item \<Rightarrow> string \<Rightarrow> fill_state \<Rightarrow> (goval \<times> fill_state) go" where
  "fill_ellipsis vals node s = (case node of
      LNode vs vars sy \<Rightarrow>
        go_bind (case own_ellipsis vals vars of
            None \<Rightarrow> Inr (None, 0, s)
          | Some (pos, v) \<Rightarrow> go_bind (go_int v) (\<lambda>n.
              go_bind (if 0 < n then growDimension s else Inr s) (\<lambda>s'. Inr (Some pos, n, s'))))
          (\<lambda>(position, value, s').
            go_bind (fill_items vals vs vars position value (nat value) 0 [] s') (\<lambda>(nodeValues, s'').
              go_bind (NewListNode nodeValues) (\<lambda>it. Inr (it, s''))))
    | _ \<Rightarrow> Inr (node, s))"
| "fill_items vals vs vars position value k i acc s =
     (if length vs \<le> i then Inr (acc, s)
      else if position = Some i then
        (if value = 0 then fill_items vals vs vars position value k (Suc i) acc s
         else go_bind (getCurrentDimensionIndex s) (\<lambda>idx.
           if idx < value then
             (if k = 0 then Inl NoFuel
              else go_bind (growIndex s) (\<lambda>s'.
                go_bind (fill_value vals (vs ! 0) (variablesSwapKeyValue vars 0) s') (\<lambda>(v, s'').
                  fill_items vals vs vars position value (k - 1) 1 (acc @ [v]) s'')))
           else fill_items vals vs vars position value k (Suc i) acc (exitDimension s)))
      else
        go_bind (fill_value vals (vs ! i) (variablesSwapKeyValue vars i) s) (\<lambda>(v, s').
          fill_items vals vs vars position value k (Suc i) (acc @ [v]) s'))"
| "fill_value vals v varName s = (case v of
      LNode _ _ _ \<Rightarrow> go_bind (fill_ellipsis vals v s) (\<lambda>(it, s'). Inr (VItem it, s'))
    | _ \<Rightarrow> copy_leaf v varName s)"
  by pat_completeness auto
termination
proof (relation "measures
    [\<lambda>x. case x of Inl (vals, node, s) \<Rightarrow> 2 * size node
       | Inr (Inl (vals, vs, vars, position, value, k, i, acc, s)) \<Rightarrow> 2 * size_list size vs + 1
       | Inr (Inr (vals, v, name, s)) \<Rightarrow> 2 * size v + 1,
     \<lambda>x. case x of Inr (Inl (vals, vs, vars, position, value, k, i, acc, s)) \<Rightarrow> k | _ \<Rightarrow> 0,
     \<lambda>x. case x of Inr (Inl (vals, vs, vars, position, value, k, i, acc, s)) \<Rightarrow> length vs - i | _ \<Rightarrow> 0]", goal_cases)
  case 1
  show ?case by simp
qed (auto dest: size_nth size_first simp: not_le)

declare fill_ellipsis.simps [simp del] fill_items.simps [simp del] fill_value.simps [simp del]

section \<open>Filling a list\<close>

text \<open>Values without an ellipsis fill the items of a list one by one, and its own variables.\<close>

definition fill_own :: "(string \<rightharpoonup> goval) \<Rightarrow> vars \<Rightarrow> goval list \<Rightarrow> goval list" where
  "fill_own vals vars xs = foldl (\<lambda>xs (name, pos). xs[pos := (case vals name of Some v \<Rightarrow> v | None \<Rightarrow> VString name)]) xs vars"

fun fill_others :: "(string \<rightharpoonup> goval) \<Rightarrow> item \<Rightarrow> item go" where
  "fill_others vals (LNode vs vars s) =
     go_bind (go_map (fill_others vals) vs) (\<lambda>xs. NewListNode (fill_own vals vars (map VItem xs)))"
| "fill_others vals it = leaf_FillVariables vals it"

definition ellipsis_values :: "(string \<rightharpoonup> goval) \<Rightarrow> (string \<rightharpoonup> goval)" where
  "ellipsis_values vals = (\<lambda>name. if isEllipsis name then vals name else None)"

definition other_values :: "(string \<rightharpoonup> goval) \<Rightarrow> (string \<rightharpoonup> goval)" where
  "other_values vals = (\<lambda>name. if isEllipsis name then None else vals name)"

text \<open>\<open>ItemNode.FillVariables\<close>: a list is expanded first when one of its ellipses is to be filled.\<close>

definition FillVariables :: "(string \<rightharpoonup> goval) \<Rightarrow> item \<Rightarrow> item go" where
  "FillVariables vals it = (case it of
      LNode _ _ _ \<Rightarrow>
        go_bind (ellipsisAnalysis (ellipsis_values vals) it) (\<lambda>(toFill, remaining).
        go_bind (if 0 < toFill
                 then go_bind (fill_ellipsis (ellipsis_values vals) it (newFillState remaining)) (\<lambda>(it', s). Inr it')
                 else Inr it) (\<lambda>filled.
          fill_others (other_values vals) filled))
    | _ \<Rightarrow> leaf_FillVariables vals it)"

definition DataMessage_FillVariables :: "(string \<rightharpoonup> goval) \<Rightarrow> data_message \<Rightarrow> data_message go" where
  "DataMessage_FillVariables vals m =
     go_bind (FillVariables vals (dm_dataItem m)) (\<lambda>it. checked (m\<lparr>dm_dataItem := it\<rparr>))"

section \<open>The expansion ends\<close>

text \<open>The dimensions in use are covered by indices; an expansion gives the dimensions back as they were.\<close>

definition dims_ok :: "fill_state \<Rightarrow> bool" where
  "dims_ok s \<longleftrightarrow> 0 \<le> fs_dimension s \<and> fs_dimension s \<le> int (length (fs_indices s))"

definition same_dims :: "int \<Rightarrow> fill_state \<Rightarrow> fill_state \<Rightarrow> bool" where
  "same_dims d s s' \<longleftrightarrow> length (fs_indices s) \<le> length (fs_indices s')
     \<and> take (nat d) (fs_indices s') = take (nat d) (fs_indices s)"

lemma same_dims_refl [simp]: "same_dims d s s"
  by (simp add: same_dims_def)

lemma same_dims_trans: "same_dims d s s' \<Longrightarrow> same_dims d s' s'' \<Longrightarrow> same_dims d s s''"
  by (simp add: same_dims_def)

lemma same_dims_less: "same_dims d s s' \<Longrightarrow> d' \<le> d \<Longrightarrow> same_dims d' s s'"
proof (unfold same_dims_def, elim conjE, intro conjI)
  assume "take (nat d) (fs_indices s') = take (nat d) (fs_indices s)" and "d' \<le> d"
  then have "take (nat d') (take (nat d) (fs_indices s')) = take (nat d') (take (nat d) (fs_indices s))" by simp
  then show "take (nat d') (fs_indices s') = take (nat d') (fs_indices s)" using \<open>d' \<le> d\<close> by (simp add: nat_mono min_absorb1)
qed

lemma getNewVariableName_dims:
  assumes "getNewVariableName name s = (name', s')"
  shows "fs_dimension s' = fs_dimension s" and "fs_indices s' = fs_indices s"
  using assms by (auto simp: getNewVariableName_def split: if_splits)

lemma rename_all_dims:
  "rename_all vs s fill = (fill', s') \<Longrightarrow> fs_dimension s' = fs_dimension s \<and> fs_indices s' = fs_indices s"
  by (induction vs s fill rule: rename_all.induct) (auto split: prod.splits dest: getNewVariableName_dims)

lemma copy_leaf_dims:
  "copy_leaf it name s = Inr (v, s') \<Longrightarrow> fs_dimension s' = fs_dimension s \<and> fs_indices s' = fs_indices s"
  by (cases it) (auto simp: copy_leaf_def go_bind_Inr_iff split: if_splits prod.splits
      dest: getNewVariableName_dims rename_all_dims)

lemma copy_same_dims: "copy_leaf it name s = Inr (v, s') \<Longrightarrow> same_dims d s s'"
  using copy_leaf_dims [of it name s v s'] by (simp add: same_dims_def)

lemma leaf_FillVariables_fuel_ok: "fuel_ok (leaf_FillVariables fill it)"
  by (cases it) (auto simp: ascii_FillVariables_def binary_FillVariables_def boolean_FillVariables_def
      float_FillVariables_def int_FillVariables_def uint_FillVariables_def fill_leaf_def
      intro: fuel_free split: option.split goval.split prod.split)

lemma copy_leaf_fuel_ok: "fuel_ok (copy_leaf it name s)"
  by (cases it) (auto simp: copy_leaf_def simp del: leaf_FillVariables.simps
      intro!: fuel_ok_bind leaf_FillVariables_fuel_ok NewASCIINodeVariable_fuel_ok split: prod.split)

text \<open>An ellipsis is never the first value (\<open>checkRep\<close>), and the counts are not negative.\<close>

fun expandable :: "item \<Rightarrow> bool" where
  "expandable (LNode vs vars s) \<longleftrightarrow> (\<forall>x \<in> set vs. expandable x)
     \<and> (\<forall>(name, pos) \<in> set vars. isEllipsis name \<longrightarrow> 0 < pos \<and> pos < length vs)"
| "expandable it \<longleftrightarrow> True"

definition counts_ok :: "(string \<rightharpoonup> goval) \<Rightarrow> bool" where
  "counts_ok vals \<longleftrightarrow> (\<forall>name w. isEllipsis name \<longrightarrow> vals name = Some (VInt w) \<longrightarrow> 0 \<le> sint w)"

lemma find_Some_in: "find P xs = Some x \<Longrightarrow> x \<in> set xs \<and> P x"
  by (induction xs) (auto split: if_splits)

lemma own_ellipsis_Some:
  assumes "own_ellipsis vals vars = Some (pos, v)"
  shows "\<exists>name. (name, pos) \<in> set vars \<and> isEllipsis name \<and> vals name = Some v"
proof -
  obtain name where f: "find (\<lambda>(name, pos). isEllipsis name \<and> vals name \<noteq> None) vars = Some (name, pos)"
    and v: "v = the (vals name)"
    using assms by (auto simp: own_ellipsis_def split: option.splits)
  show ?thesis using find_Some_in [OF f] v by (intro exI [of _ name]) auto
qed

definition expands :: "int \<Rightarrow> fill_state \<Rightarrow> ('a \<times> fill_state) go \<Rightarrow> bool" where
  "expands d s r \<longleftrightarrow> fuel_ok r \<and> (\<forall>x s'. r = Inr (x, s') \<longrightarrow> fs_dimension s' = d \<and> same_dims d s s')"

lemma expands_value: "fs_dimension s = d \<Longrightarrow> expands d s (Inr (x, s))"
  by (simp add: expands_def)

lemma expands_from:
  assumes "same_dims d s s'" and "e \<le> d" and "expands e s' r"
  shows "expands e s r"
  using assms(3) same_dims_trans [OF same_dims_less [OF assms(1,2)]] by (auto simp: expands_def)

lemma expands_bind:
  assumes "expands d s r"
    and "\<And>x s'. r = Inr (x, s') \<Longrightarrow> fs_dimension s' = d \<Longrightarrow> same_dims d s s' \<Longrightarrow> e \<le> d \<and> expands e s' (f (x, s'))"
  shows "expands e s (go_bind r f)"
proof (cases r)
  case (Inl x)
  then show ?thesis using assms(1) by (simp add: expands_def fuel_ok_def)
next
  case (Inr y)
  obtain x s' where y: "y = (x, s')" by (cases y)
  then have d: "fs_dimension s' = d" "same_dims d s s'" using assms(1) Inr by (auto simp: expands_def)
  from assms(2) [OF Inr [unfolded y] d] show ?thesis using Inr y by (auto intro: expands_from [OF d(2)])
qed

lemma current_index:
  assumes "dims_ok s" and "1 \<le> fs_dimension s"
  shows "getCurrentDimensionIndex s = Inr (fs_indices s ! nat (fs_dimension s - 1))"
  using assms by (simp add: getCurrentDimensionIndex_def go_at_def dims_ok_def)

lemma grown_index:
  assumes "dims_ok s" and "1 \<le> fs_dimension s" and "growIndex s = Inr s'"
  shows "fs_dimension s' = fs_dimension s" and "dims_ok s'" and "same_dims (fs_dimension s - 1) s s'"
    and "fs_indices s' ! nat (fs_dimension s - 1) = fs_indices s ! nat (fs_dimension s - 1) + 1"
  using assms by (auto simp: growIndex_def current_index dims_ok_def same_dims_def)

lemma same_dims_current:
  assumes "same_dims d s s'" and "dims_ok s" and "1 \<le> d" and "d = fs_dimension s"
  shows "fs_indices s' ! nat (d - 1) = fs_indices s ! nat (d - 1)"
proof -
  have n: "nat (d - 1) < nat d" using assms(3) by simp
  have "take (nat d) (fs_indices s') ! nat (d - 1) = take (nat d) (fs_indices s) ! nat (d - 1)"
    using assms(1) by (simp add: same_dims_def)
  then show ?thesis unfolding nth_take [OF n] .
qed

lemma same_dims_ok: "same_dims d s s' \<Longrightarrow> dims_ok s \<Longrightarrow> fs_dimension s' = fs_dimension s \<Longrightarrow> dims_ok s'"
  by (auto simp: same_dims_def dims_ok_def)

lemma growDimension_ok:
  assumes "dims_ok s"
  obtains s' where "growDimension s = Inr s'" and "fs_dimension s' = fs_dimension s + 1" and "dims_ok s'"
    and "same_dims (fs_dimension s) s s'" and "fs_indices s' ! nat (fs_dimension s) = 0"
proof (rule that)
  let ?is = "if fs_dimension s = int (length (fs_indices s)) then fs_indices s @ [0] else (fs_indices s)[nat (fs_dimension s) := 0]"
  let ?s = "s\<lparr>fs_indices := ?is, fs_dimension := fs_dimension s + 1\<rparr>"
  show "growDimension s = Inr ?s" using assms by (auto simp: growDimension_def go_at_def dims_ok_def)
  show "fs_dimension ?s = fs_dimension s + 1" by simp
  show "dims_ok ?s" using assms by (auto simp: dims_ok_def)
  show "same_dims (fs_dimension s) s ?s" using assms by (auto simp: same_dims_def dims_ok_def)
  show "fs_indices ?s ! nat (fs_dimension s) = 0" using assms by (auto simp: dims_ok_def nth_append nat_less_iff)
qed

text \<open>Whether the loop is still in front of an ellipsis it repeats for.\<close>

definition repeating :: "nat option \<Rightarrow> int \<Rightarrow> nat \<Rightarrow> bool" where
  "repeating position n i \<longleftrightarrow> 0 < n \<and> (\<exists>p. position = Some p \<and> i \<le> p)"

lemma repeating_simps:
  "repeating (Some p) n i \<longleftrightarrow> 0 < n \<and> i \<le> p" "\<not> repeating None n i" "\<not> repeating position 0 i"
  by (simp_all add: repeating_def)

lemma expands_fail: "e \<noteq> NoFuel \<Longrightarrow> expands d s (Inl e)"
  by (simp add: expands_def fuel_ok_def)

lemma new_list_expands: "fs_dimension s = d \<Longrightarrow> expands d s (go_bind (NewListNode xs) (\<lambda>it. Inr (it, s)))"
  using factories_fuel_ok(7) [of xs] by (cases "NewListNode xs") (auto simp: expands_def fuel_ok_def)

text \<open>What the loop does at the ellipsis, one repetition and the end of the repetitions.\<close>

lemma fill_items_again:
  assumes "i < length vs" and "n \<noteq> 0" and "dims_ok s" and "1 \<le> fs_dimension s"
    and idx: "fs_indices s ! nat (fs_dimension s - 1) + int k = n" and "0 < k"
  obtains s1 where "growIndex s = Inr s1"
    and "fill_items vals vs vars (Some i) n k i acc s =
      go_bind (fill_value vals (vs ! 0) (variablesSwapKeyValue vars 0) s1) (\<lambda>(v, s2).
        fill_items vals vs vars (Some i) n (k - 1) 1 (acc @ [v]) s2)"
proof -
  note c = current_index [OF assms(3,4)]
  obtain s1 where g: "growIndex s = Inr s1" by (simp add: growIndex_def c)
  show thesis by (rule that [OF g], subst fill_items.simps) (use assms c g in simp)
qed

lemma fill_items_leave:
  assumes "i < length vs" and "n \<noteq> 0" and "dims_ok s" and "1 \<le> fs_dimension s"
    and "fs_indices s ! nat (fs_dimension s - 1) = n"
  shows "fill_items vals vs vars (Some i) n k i acc s = fill_items vals vs vars (Some i) n k (Suc i) acc (exitDimension s)"
  using assms current_index [OF assms(3,4)] by (subst fill_items.simps) simp

lemma fill_items_next:
  assumes "i < length vs" and "position \<noteq> Some i"
  shows "fill_items vals vs vars position n k i acc s =
    go_bind (fill_value vals (vs ! i) (variablesSwapKeyValue vars i) s) (\<lambda>(v, s').
      fill_items vals vs vars position n k (Suc i) (acc @ [v]) s')"
  using assms by (subst fill_items.simps) simp

lemma exitDimension_dims [simp]:
  "fs_dimension (exitDimension s) = fs_dimension s - 1" "same_dims d s (exitDimension s)"
  "dims_ok s \<Longrightarrow> 1 \<le> fs_dimension s \<Longrightarrow> dims_ok (exitDimension s)"
  by (auto simp: exitDimension_def same_dims_def dims_ok_def)

lemma repeat_expands:
  assumes i: "i < length vs" "0 < n" "0 < k" and s: "dims_ok s" "1 \<le> fs_dimension s"
    "fs_indices s ! nat (fs_dimension s - 1) + int k = n"
    and v: "\<And>s1. growIndex s = Inr s1 \<Longrightarrow> dims_ok s1 \<Longrightarrow>
      expands (fs_dimension s1) s1 (fill_value vals (vs ! 0) (variablesSwapKeyValue vars 0) s1)"
    and r: "\<And>s1 x s2. growIndex s = Inr s1 \<Longrightarrow>
      fill_value vals (vs ! 0) (variablesSwapKeyValue vars 0) s1 = Inr (x, s2) \<Longrightarrow> dims_ok s2 \<Longrightarrow>
      1 \<le> fs_dimension s2 \<Longrightarrow> fs_indices s2 ! nat (fs_dimension s2 - 1) + int (k - 1) = n \<Longrightarrow>
      expands (fs_dimension s2 - 1) s2 (fill_items vals vs vars (Some i) n (k - 1) 1 (acc @ [x]) s2)"
  shows "expands (fs_dimension s - 1) s (fill_items vals vs vars (Some i) n k i acc s)"
proof -
  have n: "n \<noteq> 0" using i(2) by simp
  obtain s1 where g: "growIndex s = Inr s1" and e: "fill_items vals vs vars (Some i) n k i acc s =
      go_bind (fill_value vals (vs ! 0) (variablesSwapKeyValue vars 0) s1) (\<lambda>(v, s2).
        fill_items vals vs vars (Some i) n (k - 1) 1 (acc @ [v]) s2)"
    using i(1) n s i(3) by (rule fill_items_again)
  note grown = grown_index [OF s(1,2) g]
  have "expands (fs_dimension s - 1) s1 (fill_items vals vs vars (Some i) n k i acc s)"
    unfolding e
  proof (rule expands_bind [OF v [OF g grown(2)]], clarify)
    fix x s2
    assume fv: "fill_value vals (vs ! 0) (variablesSwapKeyValue vars 0) s1 = Inr (x, s2)"
      and s2: "fs_dimension s2 = fs_dimension s1" "same_dims (fs_dimension s1) s1 s2"
    have "fs_indices s2 ! nat (fs_dimension s1 - 1) = fs_indices s1 ! nat (fs_dimension s1 - 1)"
      by (rule same_dims_current [OF s2(2) grown(2)]) (use s(2) grown(1) in simp_all)
    then have "expands (fs_dimension s2 - 1) s2 (fill_items vals vs vars (Some i) n (k - 1) 1 (acc @ [x]) s2)"
      by (intro r [OF g fv same_dims_ok [OF s2(2) grown(2) s2(1)]]) (use s(2,3) grown s2(1) i(3) in auto)
    then show "fs_dimension s - 1 \<le> fs_dimension s1 \<and>
        expands (fs_dimension s - 1) s2 (fill_items vals vs vars (Some i) n (k - 1) 1 (acc @ [x]) s2)"
      using grown(1) s2(1) by simp
  qed
  then show ?thesis by (rule expands_from [OF grown(3) order_refl])
qed

lemma next_expands:
  assumes i: "i < length vs" "position \<noteq> Some i" and s: "dims_ok s"
    "repeating position n i \<Longrightarrow> 1 \<le> fs_dimension s \<and> fs_indices s ! nat (fs_dimension s - 1) + int k = n"
    and v: "expands (fs_dimension s) s (fill_value vals (vs ! i) (variablesSwapKeyValue vars i) s)"
    and r: "\<And>x s'. fill_value vals (vs ! i) (variablesSwapKeyValue vars i) s = Inr (x, s') \<Longrightarrow> dims_ok s' \<Longrightarrow>
      (repeating position n (Suc i) \<Longrightarrow> 1 \<le> fs_dimension s' \<and> fs_indices s' ! nat (fs_dimension s' - 1) + int k = n) \<Longrightarrow>
      expands (fs_dimension s' - (if repeating position n (Suc i) then 1 else 0)) s'
        (fill_items vals vs vars position n k (Suc i) (acc @ [x]) s')"
  shows "expands (fs_dimension s - (if repeating position n i then 1 else 0)) s
    (fill_items vals vs vars position n k i acc s)" (is "expands ?e s _")
proof -
  have rep: "repeating position n (Suc i) = repeating position n i"
    using i(2) by (auto simp: repeating_def)
  show ?thesis unfolding fill_items_next [OF i]
  proof (rule expands_bind [OF v], clarify)
    fix x s'
    assume fv: "fill_value vals (vs ! i) (variablesSwapKeyValue vars i) s = Inr (x, s')"
      and s': "fs_dimension s' = fs_dimension s" "same_dims (fs_dimension s) s s'"
    have "1 \<le> fs_dimension s' \<and> fs_indices s' ! nat (fs_dimension s' - 1) + int k = n" if "repeating position n i"
      using same_dims_current [OF s'(2) s(1)] s(2) [OF that] s'(1) by simp
    then show "?e \<le> fs_dimension s \<and> expands ?e s' (fill_items vals vs vars position n k (Suc i) (acc @ [x]) s')"
      using r [OF fv same_dims_ok [OF s'(2) s(1) s'(1)]] s'(1) rep by simp
  qed
qed

lemma expand_start:
  assumes "counts_ok vals" and "expandable (LNode vs vars sy)" and "dims_ok s"
    and f: "\<And>position n s'. dims_ok s' \<Longrightarrow> 0 \<le> n \<Longrightarrow> (\<forall>p. position = Some p \<longrightarrow> 0 < p \<and> p < length vs) \<Longrightarrow>
      (repeating position n 0 \<Longrightarrow> 1 \<le> fs_dimension s' \<and> fs_indices s' ! nat (fs_dimension s' - 1) + int (nat n) = n) \<Longrightarrow>
      (case own_ellipsis vals vars of
            None \<Rightarrow> Inr (None, 0, s)
          | Some (pos, v) \<Rightarrow> go_bind (go_int v) (\<lambda>n.
              go_bind (if 0 < n then growDimension s else Inr s) (\<lambda>s'. Inr (Some pos, n, s')))) = Inr (position, n, s') \<Longrightarrow>
      expands (fs_dimension s' - (if repeating position n 0 then 1 else 0)) s'
        (fill_items vals vs vars position n (nat n) 0 [] s')"
  shows "expands (fs_dimension s) s (fill_ellipsis vals (LNode vs vars sy) s)"
proof -
  let ?rest = "\<lambda>position n s'. go_bind (fill_items vals vs vars position n (nat n) 0 [] s') (\<lambda>(nodeValues, s'').
      go_bind (NewListNode nodeValues) (\<lambda>it. Inr (it, s'')))"
  have rest: "expands d s' (?rest position n s')"
    if "expands d s' (fill_items vals vs vars position n (nat n) 0 [] s')" for position n s' d
    by (rule expands_bind [OF that]) (simp add: new_list_expands)
  show ?thesis
  proof (cases "own_ellipsis vals vars")
    case None
    have "expands (fs_dimension s) s (?rest None 0 s)"
      using f [of s 0 None] assms(3) None by (intro rest) (simp add: repeating_simps)
    then show ?thesis by (subst fill_ellipsis.simps) (simp add: None)
  next
    case (Some pv)
    obtain pos v where pv: "pv = (pos, v)" by (cases pv)
    obtain name where nm: "(name, pos) \<in> set vars" "isEllipsis name" "vals name = Some v"
      using own_ellipsis_Some [OF Some [unfolded pv]] by blast
    have pos: "0 < pos" "pos < length vs" using assms(2) nm(1,2) by auto
    show ?thesis
    proof (cases "go_int v")
      case (Inl e)
      then have "fill_ellipsis vals (LNode vs vars sy) s = Inl e" by (subst fill_ellipsis.simps) (simp add: Some pv)
      moreover have "e \<noteq> NoFuel" using Inl by (auto simp: go_int_def split: goval.splits)
      ultimately show ?thesis by (simp add: expands_fail)
    next
      case (Inr n)
      then have n: "0 \<le> n" using nm(2,3) assms(1) by (auto simp: counts_ok_def go_int_def split: goval.splits)
      show ?thesis
      proof (cases "0 < n")
        case True
        obtain s1 where g: "growDimension s = Inr s1" "fs_dimension s1 = fs_dimension s + 1" "dims_ok s1"
          "same_dims (fs_dimension s) s s1" "fs_indices s1 ! nat (fs_dimension s) = 0"
          using assms(3) by (rule growDimension_ok)
        have "expands (fs_dimension s) s1 (?rest (Some pos) n s1)"
          using f [of s1 n "Some pos"] g pos n True assms(3) Some Inr
          by (intro rest) (simp add: repeating_simps pv dims_ok_def)
        then have "expands (fs_dimension s) s (?rest (Some pos) n s1)" by (rule expands_from [OF g(4) order_refl])
        then show ?thesis by (subst fill_ellipsis.simps) (simp add: Some pv Inr True g(1))
      next
        case False
        have "expands (fs_dimension s) s (?rest (Some pos) n s)"
          using f [of s n "Some pos"] pos n False assms(3) Some Inr by (intro rest) (simp add: repeating_def pv)
        then show ?thesis by (subst fill_ellipsis.simps) (simp add: Some pv Inr False)
      qed
    qed
  qed
qed

lemma fill_expands:
  "counts_ok vals \<Longrightarrow> expandable node \<Longrightarrow> dims_ok s \<Longrightarrow> expands (fs_dimension s) s (fill_ellipsis vals node s)"
  "counts_ok vals \<Longrightarrow> (\<forall>x \<in> set vs. expandable x) \<Longrightarrow> dims_ok s \<Longrightarrow> 0 \<le> n \<Longrightarrow>
     (\<forall>p. position = Some p \<longrightarrow> 0 < p \<and> p < length vs) \<Longrightarrow>
     (repeating position n i \<longrightarrow> 1 \<le> fs_dimension s \<and> fs_indices s ! nat (fs_dimension s - 1) + int k = n) \<Longrightarrow>
     expands (fs_dimension s - (if repeating position n i then 1 else 0)) s
       (fill_items vals vs vars position n k i acc s)"
  "counts_ok vals \<Longrightarrow> expandable v \<Longrightarrow> dims_ok s \<Longrightarrow> expands (fs_dimension s) s (fill_value vals v name s)"
proof (induction vals node s and vals vs vars position n k i acc s and vals v name s
    rule: fill_ellipsis_fill_items_fill_value.induct)
  case (1 vals node s)
  show ?case
  proof (cases "\<exists>vs vars sy. node = LNode vs vars sy")
    case True
    then obtain vs vars sy where node: "node = LNode vs vars sy" by blast
    show ?thesis unfolding node
      by (rule expand_start [OF 1(2) 1(3) [unfolded node] 1(4)], rule 1(1) [OF node _ refl refl 1(2)])
        (use 1(3) node in auto)
  next
    case False
    then have "fill_ellipsis vals node s = Inr (node, s)" by (subst fill_ellipsis.simps) (auto split: item.splits)
    then show ?thesis by (simp add: expands_value)
  qed
next
  case (2 vals vs vars position n k i acc s)
  note IH = 2(1-6) and p = 2(7-12)
  consider (past) "length vs \<le> i" | (off) "i < length vs" "position = Some i" "n = 0"
    | (at) "i < length vs" "position = Some i" "0 < n" | (other) "i < length vs" "position \<noteq> Some i"
    using p(4) by linarith
  then show ?case
  proof cases
    case past
    then have "\<not> repeating position n i" using p(5) by (auto simp: repeating_def)
    then show ?thesis using past by (subst fill_items.simps) (simp add: expands_value)
  next
    case off
    have "expands (fs_dimension s) s (fill_items vals vs vars position n k (Suc i) acc s)"
      using IH(1) off p by (simp add: repeating_simps)
    then show ?thesis using off by (subst fill_items.simps) (simp add: repeating_simps)
  next
    case at
    then have d: "1 \<le> fs_dimension s" "fs_indices s ! nat (fs_dimension s - 1) + int k = n" and i: "0 < i"
      using p(5,6) by (simp_all add: repeating_simps)
    note c = current_index [OF p(3) d(1)]
    have r: "repeating position n i" "repeating position n 1" "\<not> repeating position n (Suc i)"
      using at i by (simp_all add: repeating_simps)
    have ni: "\<not> length vs \<le> i" "n \<noteq> 0" and first: "expandable (vs ! 0)"
      using at p(2) by (simp_all, cases vs) simp_all
    show ?thesis
    proof (cases "k = 0")
      case True
      then have "expands (fs_dimension s - 1) (exitDimension s) (fill_items vals vs vars position n k (Suc i) acc (exitDimension s))"
        using IH(4) [OF ni(1) at(2) ni(2) c] d p r(3) by simp
      then have "expands (fs_dimension s - 1) s (fill_items vals vs vars position n k (Suc i) acc (exitDimension s))"
        by (rule expands_from [OF exitDimension_dims(2) order_refl])
      then show ?thesis using fill_items_leave [of i vs n s vals vars k acc] at d p(3) r(1) True by simp
    next
      case False
      then have lt: "fs_indices s ! nat (fs_dimension s - 1) < n" using d(2) by simp
      have "expands (fs_dimension s - 1) s (fill_items vals vs vars (Some i) n k i acc s)"
      proof (rule repeat_expands [OF at(1,3) _ p(3) d])
        show "expands (fs_dimension s1) s1 (fill_value vals (vs ! 0) (variablesSwapKeyValue vars 0) s1)"
          if "growIndex s = Inr s1" "dims_ok s1" for s1
          by (rule IH(2) [OF ni(1) at(2) ni(2) c lt False that(1) p(1) first that(2)])
        show "expands (fs_dimension s2 - 1) s2 (fill_items vals vs vars (Some i) n (k - 1) 1 (acc @ [x]) s2)"
          if "growIndex s = Inr s1" "fill_value vals (vs ! 0) (variablesSwapKeyValue vars 0) s1 = Inr (x, s2)" "dims_ok s2"
            "1 \<le> fs_dimension s2" "fs_indices s2 ! nat (fs_dimension s2 - 1) + int (k - 1) = n" for s1 x s2
          using IH(3) [OF ni(1) at(2) ni(2) c lt False that(1,2) refl p(1,2) that(3) p(4,5)] that(4,5) r(2) at(2) by simp
      qed (use False in simp)
      then show ?thesis using r(1) at(2) by simp
    qed
  next
    case other
    have ni: "\<not> length vs \<le> i" using other(1) by simp
    show ?thesis
    proof (rule next_expands [OF other p(3) mp [OF p(6)]])
      show "expands (fs_dimension s) s (fill_value vals (vs ! i) (variablesSwapKeyValue vars i) s)"
        using IH(5) [OF ni other(2) p(1) _ p(3)] p(2) nth_mem [OF other(1)] by blast
      show "expands (fs_dimension s' - (if repeating position n (Suc i) then 1 else 0)) s'
          (fill_items vals vs vars position n k (Suc i) (acc @ [x]) s')"
        if "fill_value vals (vs ! i) (variablesSwapKeyValue vars i) s = Inr (x, s')" "dims_ok s'"
          "repeating position n (Suc i) \<Longrightarrow> 1 \<le> fs_dimension s' \<and> fs_indices s' ! nat (fs_dimension s' - 1) + int k = n"
        for x s'
        by (rule IH(6) [OF ni other(2) that(1) refl p(1,2) that(2) p(4,5) impI [OF that(3)]])
    qed
  qed
next
  case (3 vals v name s)
  show ?case
  proof (cases "\<exists>xs vars sy. v = LNode xs vars sy")
    case True
    then obtain xs vars sy where v: "v = LNode xs vars sy" by blast
    have "fill_value vals v name s = go_bind (fill_ellipsis vals v s) (\<lambda>(it, s'). Inr (VItem it, s'))"
      unfolding v by (subst fill_value.simps) simp
    then show ?thesis using 3(1) [OF v 3(2-4)] by (auto intro!: expands_bind expands_value)
  next
    case False
    then have "fill_value vals v name s = copy_leaf v name s" by (subst fill_value.simps) (auto split: item.splits)
    moreover have "expands (fs_dimension s) s (copy_leaf v name s)"
      unfolding expands_def using copy_leaf_fuel_ok copy_leaf_dims by (blast intro: copy_same_dims)
    ultimately show ?thesis by simp
  qed
qed

text \<open>With counts that are not negative the bound on the repetitions is never reached.\<close>

lemma fill_ellipsis_total:
  assumes "counts_ok vals" and "expandable node"
  shows "fuel_ok (fill_ellipsis vals node (newFillState remaining))"
proof -
  have "dims_ok (newFillState remaining)" by (simp add: dims_ok_def newFillState_def)
  from fill_expands(1) [OF assms this] show ?thesis by (simp add: expands_def)
qed

lemma ellipsisAnalysis_fuel_ok:
  "fuel_ok (ellipsisAnalysis vals it)" "fuel_ok (analyse_items vals n vs acc)"
proof (induction vals it and vals n vs acc rule: ellipsisAnalysis_analyse_items.induct)
  case (1 vals vs vars s)
  have "fuel_ok (go_int v)" for v by (simp add: go_int_def split: goval.split)
  then have own: "fuel_ok (case own_ellipsis vals vars of
      Some (pos, v) \<Rightarrow> go_bind (go_int v) (\<lambda>n. Inr (1 :: int, n)) | None \<Rightarrow> Inr (0, 0))"
    by (auto intro!: fuel_ok_bind split: option.split)
  show ?case unfolding ellipsisAnalysis.simps
  proof (rule fuel_ok_bind [OF own])
    fix x :: "int \<times> int"
    assume "(case own_ellipsis vals vars of
      Some (pos, v) \<Rightarrow> go_bind (go_int v) (\<lambda>n. Inr (1 :: int, n)) | None \<Rightarrow> Inr (0, 0)) = Inr x"
    from 1 [OF this] show "fuel_ok (case x of (toFill, n) \<Rightarrow> analyse_items vals n vs
        (toFill, if \<exists>(name, pos) \<in> set vars. isEllipsis name \<and> vals name = None then 1 else 0))"
      by (cases x) simp
  qed
qed (auto simp del: ellipsisAnalysis.simps(1) intro!: fuel_ok_bind split: item.split)

lemma fill_others_fuel_ok: "fuel_ok (fill_others vals it)"
proof (induction it)
  case (LNode vs vars s)
  then show ?case by (auto intro!: fuel_ok_bind go_map_fuel_ok factories_fuel_ok)
qed (simp_all add: leaf_FillVariables_fuel_ok del: leaf_FillVariables.simps)

lemma FillVariables_fuel_ok:
  assumes "counts_ok vals" and "expandable it"
  shows "fuel_ok (FillVariables vals it)"
proof -
  have "counts_ok (ellipsis_values vals)" using assms(1) by (simp add: counts_ok_def ellipsis_values_def)
  from fill_ellipsis_total [OF this assms(2)] show ?thesis
    by (auto simp: FillVariables_def simp del: leaf_FillVariables.simps ellipsisAnalysis.simps split: item.split
        intro!: fuel_ok_bind fill_others_fuel_ok ellipsisAnalysis_fuel_ok(1) leaf_FillVariables_fuel_ok)
qed

end
