(* ===== verification/Item_Rename.thy ===== *)
theory Item_Rename
  imports Item_Fill Hsms_Roundtrip
begin

text \<open>
  The copy of a number, binary or boolean item that the expansion of an ellipsis makes
  (\<open>ListNode.fillEllipsis\<close> of \<open>list.go\<close>): every variable of the item is filled with its own name and the
  indices of the repetition behind it, through the \<open>FillVariables\<close> of the item and its factory. The result is
  the same item with the new names. The first section is about names with indices, the second about the
  loops \<open>collect\<close> and \<open>fill_positions\<close>, the third puts them together for the five node types.
\<close>

section \<open>Names with indices\<close>

lemma one_index_append: "one_index s = Some r \<Longrightarrow> one_index (s @ t) = Some (r @ t)"
proof -
  assume e: "one_index s = Some r"
  then obtain c u d where s: "s = c # u" and u: "dropWhile is_digit u = d # r" "takeWhile is_digit u \<noteq> []" "c = CHR ''[''" "d = CHR '']''"
    by (auto simp: one_index_def split: list.splits if_splits)
  then obtain x where x: "x \<in> set u" "\<not> is_digit x" by (metis dropWhile_eq_Nil_conv list.distinct(1))
  then have "dropWhile is_digit (u @ t) = d # r @ t" "takeWhile is_digit (u @ t) = takeWhile is_digit u"
    using u(1) by (simp_all add: dropWhile_append1 takeWhile_append1)
  then show ?thesis using u by (simp add: one_index_def s)
qed

lemma many_indices_append: "many_indices s \<Longrightarrow> many_indices t \<Longrightarrow> many_indices (s @ t)"
proof (induction s rule: many_indices.induct)
  case (1 s)
  show ?case
  proof (cases "s = []")
    case False
    with 1(2) obtain r where r: "one_index s = Some r" "many_indices r"
      by (subst (asm) many_indices.simps) (auto split: option.splits)
    from 1(1) [OF r 1(3)] one_index_append [OF r(1), of t] show ?thesis
      by (subst many_indices.simps) simp
  qed (use 1 in simp)
qed

lemma many_indices_number: "many_indices (''['' @ dec_nat k @ '']'')"
proof -
  have d: "\<forall>c \<in> set (dec_nat k). is_digit c" using dec_nat_digits [of _ k] by (fastforce simp: is_digit_def)
  have n: "\<not> is_digit (CHR '']'')" by code_simp
  have "takeWhile is_digit (dec_nat k @ '']'') = dec_nat k" "dropWhile is_digit (dec_nat k @ '']'') = '']''"
    using d n by (simp_all add: takeWhile_append2 dropWhile_append2)
  then have "one_index (''['' @ dec_nat k @ '']'') = Some []" by (simp add: one_index_def)
  then show ?thesis by (subst many_indices.simps) (simp add: many_indices.simps)
qed

lemma valid_name_indexed:
  assumes "isValidVarName name" and "many_indices t" and "t = [] \<or> hd t = CHR ''[''"
  shows "isValidVarName (name @ t)"
proof -
  let ?w = "\<lambda>d. is_letter d \<or> is_digit d"
  obtain c r where n: "name = c # r" "is_letter c" "many_indices (dropWhile ?w r)"
    using assms(1) by (auto simp: isValidVarName_def split: list.splits)
  have b: "\<not> ?w (CHR ''['')" by code_simp
  have "dropWhile ?w (r @ t) = dropWhile ?w r @ t"
  proof (cases t)
    case (Cons d u)
    then have "dropWhile ?w t = t" using assms(3) b by simp
    then show ?thesis using Cons b assms(3) by (cases "\<forall>x \<in> set r. ?w x") (auto simp: dropWhile_append1 dropWhile_append2)
  qed simp
  then show ?thesis using n many_indices_append [OF n(3) assms(2)] by (simp add: isValidVarName_def)
qed

lemma many_indices_suffix: "\<forall>i \<in> set is. 0 \<le> i \<Longrightarrow> many_indices (index_suffix is)"
proof (induction "is")
  case (Cons i "is")
  have "index_suffix (i # is) = (''['' @ dec_nat (nat i) @ '']'') @ index_suffix is"
    using Cons.prems by (simp add: index_suffix_def dec_def)
  then show ?case using many_indices_append [OF many_indices_number Cons.IH] Cons.prems by simp
qed (simp add: index_suffix_def many_indices.simps)

lemma suffix_starts: "index_suffix is = [] \<or> hd (index_suffix is) = CHR ''[''"
  by (cases "is") (simp_all add: index_suffix_def)

section \<open>Values with names in some positions\<close>

text \<open>The name of the variable at a position, and the names of a list of values in order.\<close>

definition label :: "vars \<Rightarrow> nat \<Rightarrow> string option" where
  "label vs i = map_of (map (\<lambda>(name, pos). (pos, name)) vs) i"

lemma label_Nil [simp]: "label [] i = None"
  by (simp add: label_def)

lemma label_Cons [simp]: "label ((name, pos) # vs) i = (if i = pos then Some name else label vs i)"
  by (simp add: label_def)

lemma label_in: "label vs i = Some name \<Longrightarrow> (name, i) \<in> set vs"
  by (induction vs) (auto split: if_splits)

lemma label_None: "i \<notin> set (map snd vs) \<Longrightarrow> label vs i = None"
  by (induction vs) auto

fun labelled :: "nat \<Rightarrow> string option list \<Rightarrow> vars" where
  "labelled i [] = []"
| "labelled i (None # ls) = labelled (Suc i) ls"
| "labelled i (Some name # ls) = (name, i) # labelled (Suc i) ls"

definition boxed :: "('a \<Rightarrow> goval) \<Rightarrow> 'a \<Rightarrow> string option \<Rightarrow> goval" where
  "boxed box x l = (case l of Some name \<Rightarrow> VString name | None \<Rightarrow> box x)"

lemma boxed_simps [simp]: "boxed box x None = box x" "boxed box x (Some name) = VString name"
  by (simp_all add: boxed_def)

text \<open>The loop of the factories takes such a list apart again.\<close>

lemma collect_labelled:
  assumes "length xs = length ls"
    and "\<forall>(x, l) \<in> set (zip xs ls). conv (boxed box x l) = (case l of None \<Rightarrow> Inr (Inl x) | Some name \<Rightarrow> Inr (Inr name))
      \<and> (l \<noteq> None \<longrightarrow> x = zero)"
    and "distinct (map fst (vs @ labelled i ls))"
  shows "collect conv zero i vs (map2 (boxed box) xs ls) = Inr (xs, vs @ labelled i ls)"
  using assms
proof (induction xs ls arbitrary: i vs rule: list_induct2)
  case (Cons x xs l ls)
  show ?case
  proof (cases l)
    case None
    then show ?thesis using Cons.IH [of vs "Suc i"] Cons.prems by simp
  next
    case (Some name)
    then have "map_of vs name = None" using Cons.prems(2) by (simp add: map_of_eq_None_iff)
    moreover have "x = zero" "conv (VString name) = Inr (Inr name)" using Cons.prems(1) Some by simp_all
    moreover have "collect conv zero (Suc i) (vs @ [(name, i)]) (map2 (boxed box) xs ls)
        = Inr (xs, (vs @ [(name, i)]) @ labelled (Suc i) ls)"
      using Cons.prems Some by (intro Cons.IH) simp_all
    ultimately show ?thesis using Some by simp
  qed
qed simp

text \<open>Variables in the order of their positions are the labels read from left to right.\<close>

definition relabel :: "string \<Rightarrow> vars \<Rightarrow> vars" where
  "relabel suffix vs = map (\<lambda>(name, pos). (name @ suffix, pos)) vs"

definition labels :: "string \<Rightarrow> vars \<Rightarrow> nat \<Rightarrow> nat \<Rightarrow> string option list" where
  "labels suffix vs i n = map (\<lambda>j. map_option (\<lambda>name. name @ suffix) (label vs j)) [i..<n]"

lemma labelled_labels:
  assumes "i \<le> n" and "sorted_wrt (<) (map snd vs)" and "\<forall>(name, pos) \<in> set vs. i \<le> pos \<and> pos < n"
  shows "labelled i (labels suffix vs i n) = relabel suffix vs"
  using assms
proof (induction "n - i" arbitrary: i vs)
  case 0
  then show ?case by (cases vs) (auto simp: labels_def relabel_def)
next
  case (Suc m)
  then have up: "[i..<n] = i # [Suc i..<n]" by (simp add: upt_conv_Cons)
  show ?case
  proof (cases "\<exists>name vs'. vs = (name, i) # vs'")
    case True
    then obtain name vs' where vs: "vs = (name, i) # vs'" by blast
    have "labels suffix vs (Suc i) n = labels suffix vs' (Suc i) n" by (auto simp: labels_def vs)
    moreover have "labelled (Suc i) (labels suffix vs' (Suc i) n) = relabel suffix vs'"
      using Suc.hyps(2) Suc.prems by (intro Suc.hyps(1)) (auto simp: vs Suc_le_eq)
    moreover have "labels suffix vs i n = Some (name @ suffix) # labels suffix vs (Suc i) n"
      by (simp add: labels_def vs up)
    ultimately show ?thesis by (simp add: relabel_def vs)
  next
    case False
    have "i < pos" if "(name, pos) \<in> set vs" for name pos
    proof (cases vs)
      case (Cons v vs')
      obtain a b where v: "v = (a, b)" by (cases v)
      have "i < b" using False Suc.prems(3) by (cases "b = i") (auto simp: Cons v)
      moreover have "b \<le> pos" using Suc.prems(2) that by (auto simp: Cons v intro: less_imp_le)
      ultimately show ?thesis by simp
    qed (use that in simp)
    then have out: "\<forall>(name, pos) \<in> set vs. Suc i \<le> pos \<and> pos < n"
      using Suc.prems(3) by (auto simp: Suc_le_eq)
    then have "label vs i = None" by (intro label_None) auto
    moreover have "labelled (Suc i) (labels suffix vs (Suc i) n) = relabel suffix vs"
      using Suc.hyps(2) Suc.prems out by (intro Suc.hyps(1)) auto
    moreover have "labels suffix vs i n = map_option (\<lambda>name. name @ suffix) (label vs i) # labels suffix vs (Suc i) n"
      by (simp add: labels_def up)
    ultimately show ?thesis by simp
  qed
qed

text \<open>\<open>FillVariables\<close> puts the new name into the position of each variable.\<close>

lemma fill_positions_named:
  assumes "\<forall>(name, pos) \<in> set vs. fill name = Some (VString (name @ suffix)) \<and> pos < length ys"
    and "distinct (map snd vs)"
  shows "fill_positions fill vs ys b = (map (\<lambda>i. boxed (\<lambda>i. ys ! i) i (map_option (\<lambda>name. name @ suffix) (label vs i)))
      [0..<length ys], b \<or> vs \<noteq> [])"
  using assms
proof (induction vs arbitrary: ys b)
  case Nil
  show ?case by (simp add: boxed_def map_nth)
next
  case (Cons v vs)
  obtain name pos where v: "v = (name, pos)" by (cases v)
  let ?ys = "ys[pos := VString (name @ suffix)]"
  have "label vs pos = None" using Cons.prems(2) by (intro label_None) (simp add: v)
  then have "boxed (\<lambda>i. ?ys ! i) i (map_option (\<lambda>name. name @ suffix) (label vs i))
      = boxed (\<lambda>i. ys ! i) i (map_option (\<lambda>name. name @ suffix) (label (v # vs) i))" if "i < length ys" for i
    using that by (auto simp: boxed_def v split: option.split)
  moreover have "fill_positions fill vs ?ys True = (map (\<lambda>i. boxed (\<lambda>i. ?ys ! i) i
      (map_option (\<lambda>name. name @ suffix) (label vs i))) [0..<length ?ys], True \<or> vs \<noteq> [])"
    using Cons.prems by (intro Cons.IH) (auto simp: v)
  ultimately show ?case using Cons.prems(1) by (simp add: v)
qed

section \<open>A leaf under new names\<close>

lemma vars_ok_relabel:
  assumes "vars_ok isValidVarName is_zero xs vs" and "many_indices suffix" and "suffix = [] \<or> hd suffix = CHR ''[''"
  shows "vars_ok isValidVarName is_zero xs (relabel suffix vs)"
proof -
  have "map fst (relabel suffix vs) = map (\<lambda>name. name @ suffix) (map fst vs)" "map snd (relabel suffix vs) = map snd vs"
    by (simp_all add: relabel_def comp_def split_beta)
  then have "distinct (map fst (relabel suffix vs))" "distinct (map snd (relabel suffix vs))"
    using assms(1) by (simp_all only: distinct_map [of _ "map fst vs"] vars_ok_def) (simp add: inj_on_def)
  then show ?thesis using assms valid_name_indexed
    by (auto simp: vars_ok_def list_all_iff relabel_def)
qed

lemma check_variables_ok: "vars_ok isValidVarName is_zero xs vs \<Longrightarrow> check_variables is_zero xs vs [] = Inr ()"
  by (simp add: check_variables_iff vars_ok_def)

lemma collect_filled:
  assumes vs: "vars_ok isValidVarName is_zero xs vs" "sorted (map snd vs)" "\<forall>(name, pos) \<in> set vs. xs ! pos = zero"
    and conv: "\<And>x. x \<in> set xs \<Longrightarrow> conv (box x) = Inr (Inl x)"
      "\<And>name. isValidVarName name \<Longrightarrow> conv (VString name) = Inr (Inr name)"
    and suffix: "many_indices suffix" "suffix = [] \<or> hd suffix = CHR ''[''"
    and fill: "\<forall>(name, pos) \<in> set vs. fill name = Some (VString (name @ suffix))"
  obtains ys where "fill_positions fill vs (map box xs) False = (ys, vs \<noteq> [])" and "length ys = length xs"
    and "collect conv zero 0 [] ys = Inr (xs, relabel suffix vs)"
proof
  define ls where "ls = labels suffix vs 0 (length xs)"
  let ?ys = "map2 (boxed box) xs ls"
  have len: "length xs = length ls" by (simp add: ls_def labels_def)
  have ok: "\<forall>(name, pos) \<in> set vs. pos < length xs \<and> isValidVarName name" "distinct (map snd vs)"
    using vs(1) by (auto simp: vars_ok_def list_all_iff)
  have ls: "ls ! i = map_option (\<lambda>name. name @ suffix) (label vs i)" if "i < length xs" for i
    using that by (simp add: ls_def labels_def)
  have "fill_positions fill vs (map box xs) False = (map (\<lambda>i. boxed (\<lambda>i. map box xs ! i) i
      (map_option (\<lambda>name. name @ suffix) (label vs i))) [0..<length (map box xs)], False \<or> vs \<noteq> [])"
    using fill ok by (intro fill_positions_named) auto
  moreover have "map (\<lambda>i. boxed (\<lambda>i. map box xs ! i) i (map_option (\<lambda>name. name @ suffix) (label vs i)))
      [0..<length (map box xs)] = ?ys"
    using len ls by (intro nth_equalityI) (auto simp: boxed_def split: option.split)
  ultimately show "fill_positions fill vs (map box xs) False = (?ys, vs \<noteq> [])" by simp
  show "length ?ys = length xs" using len by simp
  have named: "labelled 0 ls = relabel suffix vs"
    unfolding ls_def using vs(2) ok by (intro labelled_labels) (auto simp: strict_sorted_iff)
  have "distinct (map fst (relabel suffix vs))" using vars_ok_relabel [OF vs(1) suffix] by (simp add: vars_ok_def)
  moreover have "conv (boxed box x l) = (case l of None \<Rightarrow> Inr (Inl x) | Some name \<Rightarrow> Inr (Inr name)) \<and> (l \<noteq> None \<longrightarrow> x = zero)"
    if z: "(x, l) \<in> set (zip xs ls)" for x l
  proof -
    obtain i where i: "i < length xs" "x = xs ! i" "l = ls ! i" using z len by (auto simp: set_zip)
    show ?thesis
    proof (cases "label vs i")
      case (Some name)
      note in_vs = label_in [OF Some]
      then have "isValidVarName (name @ suffix)" using ok(1) by (auto intro: valid_name_indexed [OF _ suffix])
      then show ?thesis using i ls [OF i(1)] Some conv(2) vs(3) in_vs by auto
    qed (use i ls [OF i(1)] conv(1) in simp)
  qed
  ultimately show "collect conv zero 0 [] ?ys = Inr (xs, relabel suffix vs)"
    using collect_labelled [OF len, of conv box zero "[]" 0] named by auto
qed

text \<open>A leaf as its factory leaves it: the representation invariant, the variables in the order of their positions
  (the order of the association list stands for no order of the Go map), and the value 0 in a variable's
  position of a float item (the invariant also allows the negative zero).\<close>

definition leaf_variables :: "item \<Rightarrow> vars" where
  "leaf_variables it = (case it of
      BNode n \<Rightarrow> bn_variables n | TNode n \<Rightarrow> tn_variables n | FNode n \<Rightarrow> fn_variables n
    | INode n \<Rightarrow> in_variables n | UNode n \<Rightarrow> un_variables n | _ \<Rightarrow> [])"

definition as_made :: "item \<Rightarrow> bool" where
  "as_made it \<longleftrightarrow> rep_ok it \<and> sorted (map snd (leaf_variables it))
     \<and> (case it of FNode n \<Rightarrow> \<forall>(name, pos) \<in> set (fn_variables n). fn_values n ! pos = 0 | _ \<Rightarrow> True)"

definition renamed_leaf :: "string \<Rightarrow> item \<Rightarrow> item" where
  "renamed_leaf suffix it = (case it of
      BNode n \<Rightarrow> BNode (n\<lparr>bn_variables := relabel suffix (bn_variables n)\<rparr>)
    | TNode n \<Rightarrow> TNode (n\<lparr>tn_variables := relabel suffix (tn_variables n)\<rparr>)
    | FNode n \<Rightarrow> FNode (n\<lparr>fn_variables := relabel suffix (fn_variables n)\<rparr>)
    | INode n \<Rightarrow> INode (n\<lparr>in_variables := relabel suffix (in_variables n)\<rparr>)
    | UNode n \<Rightarrow> UNode (n\<lparr>un_variables := relabel suffix (un_variables n)\<rparr>)
    | _ \<Rightarrow> it)"

lemma relabel_Nil [simp]: "relabel suffix [] = []"
  by (simp add: relabel_def)

lemma renamed_leaf_plain: "leaf_variables it = [] \<Longrightarrow> renamed_leaf suffix it = it"
  by (cases it) (simp_all add: renamed_leaf_def leaf_variables_def)

lemma renaming_leaf:
  assumes "vs \<noteq> []" and "fill_positions fill vs xs False = (ys, vs \<noteq> [])" and "new ys = Inr it"
  shows "fill_leaf node vs xs new fill = Inr it"
  using assms by (simp add: fill_leaf_def)

text \<open>The conversions of the factories on names and on the values a node holds.\<close>

lemma letter_0: "isValidVarName name \<Longrightarrow> take 2 name \<noteq> ''0b''"
proof -
  have "\<not> is_letter (CHR ''0'')" by code_simp
  then show "isValidVarName name \<Longrightarrow> ?thesis" by (auto simp: isValidVarName_def split: list.splits)
qed

lemma names_convert:
  "isValidVarName name \<Longrightarrow> binary_value (VString name) = Inr (Inr name)"
  "boolean_value (VString name) = Inr (Inr name)" "float_value (VString name) = Inr (Inr name)"
  "int_value (VString name) = Inr (Inr name)" "uint_value (VString name) = Inr (Inr name)"
  using letter_0 by (simp_all add: binary_value_def boolean_value_def float_value_def int_value_def uint_value_def)

lemma values_convert:
  "0 \<le> v \<Longrightarrow> v < 256 \<Longrightarrow> binary_value (VInt (word_of_int v)) = Inr (Inl v)"
  "boolean_value (VBool b) = Inr (Inl b)" "float_value (VFloat64 w) = Inr (Inl w)"
  "int_value (VInt64 w) = Inr (Inl w)" "uint_value (VUint64 w) = Inr (Inl w)"
  by (simp_all add: binary_value_def boolean_value_def float_value_def int_value_def uint_value_def
      signed_of_int signed_take_bit_int_eq_self)

lemma made_leaf:
  assumes "as_made it"
  shows "it = BNode b \<Longrightarrow> vars_ok isValidVarName (\<lambda>v. v = 0) (bn_values b) (bn_variables b)"
    "it = TNode t \<Longrightarrow> vars_ok isValidVarName Not (tn_values t) (tn_variables t)"
    "it = FNode f \<Longrightarrow> vars_ok isValidVarName f64_is_zero (fn_values f) (fn_variables f)"
    "it = INode n \<Longrightarrow> vars_ok isValidVarName (\<lambda>v. v = 0) (in_values n) (in_variables n)"
    "it = UNode u \<Longrightarrow> vars_ok isValidVarName (\<lambda>v. v = 0) (un_values u) (un_variables u)"
  using assms by (simp_all add: as_made_def)

definition good_suffix :: "string \<Rightarrow> bool" where
  "good_suffix suffix \<longleftrightarrow> many_indices suffix \<and> (suffix = [] \<or> hd suffix = CHR ''['')"

definition renaming :: "string \<Rightarrow> vars \<Rightarrow> (string \<rightharpoonup> goval) \<Rightarrow> bool" where
  "renaming suffix vs fill \<longleftrightarrow> vs \<noteq> [] \<and> (\<forall>(name, pos) \<in> set vs. fill name = Some (VString (name @ suffix)))"

lemma binary_renamed:
  assumes made: "as_made (BNode n)" and suffix: "good_suffix suffix" and fill: "renaming suffix (bn_variables n) fill"
  shows "binary_FillVariables n fill = Inr (BNode (n\<lparr>bn_variables := relabel suffix (bn_variables n)\<rparr>))"
proof -
  note v = made_leaf(1) [OF made refl] and s = suffix [unfolded good_suffix_def]
  have n: "rep_ok (BNode n)" using made by (simp add: as_made_def)
  obtain ys where ys: "fill_positions fill (bn_variables n) (map (\<lambda>v. VInt (word_of_int v)) (bn_values n)) False = (ys, bn_variables n \<noteq> [])"
    "length ys = length (bn_values n)" "collect binary_value 0 0 [] ys = Inr (bn_values n, relabel suffix (bn_variables n))"
    by (rule collect_filled [OF v _ _ _ _ s [THEN conjunct1] s [THEN conjunct2], where fill = fill and conv = binary_value
          and zero = 0 and box = "\<lambda>v. VInt (word_of_int v)"])
       (use made fill n v in \<open>auto simp: as_made_def leaf_variables_def renaming_def names_convert values_convert
          vars_ok_def list_all_iff\<close>)
  then have "NewBinaryNode ys = Inr (BNode (n\<lparr>bn_variables := relabel suffix (bn_variables n)\<rparr>))"
    using n check_variables_ok [OF vars_ok_relabel [OF v s [THEN conjunct1] s [THEN conjunct2]]]
    by (auto simp: NewBinaryNode_def binary_checkRep_def size_limit_def check_all_def go_bind_Inr_iff)
  then show ?thesis unfolding binary_FillVariables_def
    using fill ys(1) by (intro renaming_leaf) (simp_all add: renaming_def)
qed

lemma boolean_renamed:
  assumes made: "as_made (TNode n)" and suffix: "good_suffix suffix" and fill: "renaming suffix (tn_variables n) fill"
  shows "boolean_FillVariables n fill = Inr (TNode (n\<lparr>tn_variables := relabel suffix (tn_variables n)\<rparr>))"
proof -
  note v = made_leaf(2) [OF made refl] and s = suffix [unfolded good_suffix_def]
  have n: "rep_ok (TNode n)" using made by (simp add: as_made_def)
  obtain ys where ys: "fill_positions fill (tn_variables n) (map VBool (tn_values n)) False = (ys, tn_variables n \<noteq> [])"
    "length ys = length (tn_values n)" "collect boolean_value False 0 [] ys = Inr (tn_values n, relabel suffix (tn_variables n))"
    by (rule collect_filled [OF v _ _ _ _ s [THEN conjunct1] s [THEN conjunct2], where fill = fill and conv = boolean_value
          and zero = False and box = "VBool"])
       (use made fill n v in \<open>auto simp: as_made_def leaf_variables_def renaming_def names_convert values_convert
          vars_ok_def list_all_iff\<close>)
  then have "NewBooleanNode ys = Inr (TNode (n\<lparr>tn_variables := relabel suffix (tn_variables n)\<rparr>))"
    using n check_variables_ok [OF vars_ok_relabel [OF v s [THEN conjunct1] s [THEN conjunct2]]]
    by (auto simp: NewBooleanNode_def boolean_checkRep_def size_limit_def go_bind_Inr_iff)
  then show ?thesis unfolding boolean_FillVariables_def
    using fill ys(1) by (intro renaming_leaf) (simp_all add: renaming_def)
qed

lemma float_renamed:
  assumes made: "as_made (FNode n)" and suffix: "good_suffix suffix" and fill: "renaming suffix (fn_variables n) fill"
  shows "float_FillVariables n fill = Inr (FNode (n\<lparr>fn_variables := relabel suffix (fn_variables n)\<rparr>))"
proof -
  note v = made_leaf(3) [OF made refl] and s = suffix [unfolded good_suffix_def]
  have n: "rep_ok (FNode n)" using made by (simp add: as_made_def)
  obtain ys where ys: "fill_positions fill (fn_variables n) (map VFloat64 (fn_values n)) False = (ys, fn_variables n \<noteq> [])"
    "length ys = length (fn_values n)" "collect float_value 0 0 [] ys = Inr (fn_values n, relabel suffix (fn_variables n))"
    by (rule collect_filled [OF v _ _ _ _ s [THEN conjunct1] s [THEN conjunct2], where fill = fill and conv = float_value
          and zero = 0 and box = "VFloat64"])
       (use made fill n v in \<open>auto simp: as_made_def leaf_variables_def renaming_def names_convert values_convert
          vars_ok_def list_all_iff\<close>)
  then have "NewFloatNode (fn_byteSize n) ys = Inr (FNode (n\<lparr>fn_variables := relabel suffix (fn_variables n)\<rparr>))"
    using n f64_finite_max64 check_variables_ok [OF vars_ok_relabel [OF v s [THEN conjunct1] s [THEN conjunct2]]]
    by (auto simp: NewFloatNode_def float_checkRep_def size_limit_def check_each_iff list_all_iff float_check_value_def go_bind_Inr_iff)
  then show ?thesis unfolding float_FillVariables_def
    using fill ys(1) by (intro renaming_leaf) (simp_all add: renaming_def)
qed

lemma int_renamed:
  assumes made: "as_made (INode n)" and suffix: "good_suffix suffix" and fill: "renaming suffix (in_variables n) fill"
  shows "int_FillVariables n fill = Inr (INode (n\<lparr>in_variables := relabel suffix (in_variables n)\<rparr>))"
proof -
  note v = made_leaf(4) [OF made refl] and s = suffix [unfolded good_suffix_def]
  have n: "rep_ok (INode n)" using made by (simp add: as_made_def)
  obtain ys where ys: "fill_positions fill (in_variables n) (map VInt64 (in_values n)) False = (ys, in_variables n \<noteq> [])"
    "length ys = length (in_values n)" "collect int_value 0 0 [] ys = Inr (in_values n, relabel suffix (in_variables n))"
    by (rule collect_filled [OF v _ _ _ _ s [THEN conjunct1] s [THEN conjunct2], where fill = fill and conv = int_value
          and zero = 0 and box = "VInt64"])
       (use made fill n v in \<open>auto simp: as_made_def leaf_variables_def renaming_def names_convert values_convert
          vars_ok_def list_all_iff\<close>)
  then have "NewIntNode (in_byteSize n) ys = Inr (INode (n\<lparr>in_variables := relabel suffix (in_variables n)\<rparr>))"
    using n check_variables_ok [OF vars_ok_relabel [OF v s [THEN conjunct1] s [THEN conjunct2]]]
    by (auto simp: NewIntNode_def int_checkRep_def size_limit_def check_all_def go_bind_Inr_iff)
  then show ?thesis unfolding int_FillVariables_def
    using fill ys(1) by (intro renaming_leaf) (simp_all add: renaming_def)
qed

lemma uint_renamed:
  assumes made: "as_made (UNode n)" and suffix: "good_suffix suffix" and fill: "renaming suffix (un_variables n) fill"
  shows "uint_FillVariables n fill = Inr (UNode (n\<lparr>un_variables := relabel suffix (un_variables n)\<rparr>))"
proof -
  note v = made_leaf(5) [OF made refl] and s = suffix [unfolded good_suffix_def]
  have n: "rep_ok (UNode n)" using made by (simp add: as_made_def)
  obtain ys where ys: "fill_positions fill (un_variables n) (map VUint64 (un_values n)) False = (ys, un_variables n \<noteq> [])"
    "length ys = length (un_values n)" "collect uint_value 0 0 [] ys = Inr (un_values n, relabel suffix (un_variables n))"
    by (rule collect_filled [OF v _ _ _ _ s [THEN conjunct1] s [THEN conjunct2], where fill = fill and conv = uint_value
          and zero = 0 and box = "VUint64"])
       (use made fill n v in \<open>auto simp: as_made_def leaf_variables_def renaming_def names_convert values_convert
          vars_ok_def list_all_iff\<close>)
  then have "NewUintNode (un_byteSize n) ys = Inr (UNode (n\<lparr>un_variables := relabel suffix (un_variables n)\<rparr>))"
    using n check_variables_ok [OF vars_ok_relabel [OF v s [THEN conjunct1] s [THEN conjunct2]]]
    by (auto simp: NewUintNode_def uint_checkRep_def size_limit_def check_all_def go_bind_Inr_iff)
  then show ?thesis unfolding uint_FillVariables_def
    using fill ys(1) by (intro renaming_leaf) (simp_all add: renaming_def)
qed

lemma leaf_renamed:
  assumes "as_made it" and "good_suffix suffix" and "renaming suffix (leaf_variables it) fill"
  shows "leaf_FillVariables fill it = Inr (renamed_leaf suffix it)"
  using assms
  by (cases it) (simp_all add: renamed_leaf_def leaf_variables_def renaming_def [of _ "[]"] binary_renamed
      boolean_renamed float_renamed int_renamed uint_renamed)

text \<open>What the factories make is such a leaf.\<close>

lemma collect_positions:
  "collect conv z i vs args = Inr (xs, vs') \<Longrightarrow> sorted (map snd vs) \<Longrightarrow> \<forall>p \<in> set (map snd vs). p < i \<Longrightarrow>
     sorted (map snd vs')"
proof (induction args arbitrary: i vs xs)
  case (Cons a args)
  from Cons.prems(1) show ?case
  proof (cases rule: collect_ConsE)
    case (val x ys)
    then show ?thesis using Cons.IH Cons.prems(2,3) by (meson less_SucI)
  next
    case (var name ys)
    then show ?thesis using Cons.IH [OF var(4)] Cons.prems(2,3) by (fastforce simp: sorted_append)
  qed
qed simp

lemma collect_zeros:
  "collect conv z i vs args = Inr (xs, vs') \<Longrightarrow>
     \<forall>(name, p) \<in> set vs'. (name, p) \<in> set vs \<or> i \<le> p \<and> p < i + length args \<and> xs ! (p - i) = z"
proof (induction args arbitrary: i vs xs)
  case (Cons a args)
  have later: "xs ! (p - i) = ys ! (p - Suc i)" if "xs = y # ys" "Suc i \<le> p" for y ys p
    using that by (simp add: nth_Cons')
  from Cons.prems show ?case
  proof (cases rule: collect_ConsE)
    case (val x ys)
    then show ?thesis using Cons.IH [OF val(3)] later [OF val(2)] by fastforce
  next
    case (var name ys)
    then show ?thesis using Cons.IH [OF var(4)] later [OF var(3)] by fastforce
  qed
qed auto

lemma collect_as_made:
  assumes "collect conv z 0 [] args = Inr (xs, vs)"
  shows "sorted (map snd vs)" and "\<forall>(name, pos) \<in> set vs. xs ! pos = z"
  using collect_positions [OF assms] collect_zeros [OF assms] by auto

lemma factories_as_made:
  "NewBinaryNode args = Inr it \<Longrightarrow> as_made it"
  "NewBooleanNode args = Inr it \<Longrightarrow> as_made it"
  "NewFloatNode b args = Inr it \<Longrightarrow> as_made it"
  "NewIntNode b args = Inr it \<Longrightarrow> as_made it"
  "NewUintNode b args = Inr it \<Longrightarrow> as_made it"
  subgoal by (frule NewBinaryNode_rep_ok) (auto simp: NewBinaryNode_def go_bind_Inr_iff Let_def as_made_def
        leaf_variables_def simp del: rep_ok.simps dest: collect_as_made)
  subgoal by (frule NewBooleanNode_rep_ok) (auto simp: NewBooleanNode_def go_bind_Inr_iff Let_def as_made_def
        leaf_variables_def simp del: rep_ok.simps dest: collect_as_made)
  subgoal by (frule NewFloatNode_rep_ok) (auto simp: NewFloatNode_def go_bind_Inr_iff Let_def as_made_def
        leaf_variables_def simp del: rep_ok.simps dest: collect_as_made)
  subgoal by (frule NewIntNode_rep_ok) (auto simp: NewIntNode_def go_bind_Inr_iff Let_def as_made_def
        leaf_variables_def simp del: rep_ok.simps dest: collect_as_made)
  subgoal by (frule NewUintNode_rep_ok) (auto simp: NewUintNode_def go_bind_Inr_iff Let_def as_made_def
        leaf_variables_def simp del: rep_ok.simps dest: collect_as_made)
  done

end
