(* ===== verification/Item_Unroll.thy ===== *)
theory Item_Unroll
  imports Item_Rename
begin

text \<open>
  What the expansion of an ellipsis gives on a list without inner lists: the values before the ellipsis once
  more for each count, the number of the repetition behind every variable's name, and the values behind it.
\<close>

section \<open>A flat list unrolled\<close>

text \<open>The items of such a list, as the factories make them: variables, ASCII items, and number, binary and
  boolean items, with variables among their values or without.\<close>

definition simple_item :: "item \<Rightarrow> string \<Rightarrow> bool" where
  "simple_item it name = (case it of
      EmptyNode \<Rightarrow> \<not> isEllipsis name
    | ANode n \<Rightarrow> rep_ok it
    | LNode _ _ _ \<Rightarrow> False
    | _ \<Rightarrow> Variables it = [] \<or> as_made it)"

definition renamed :: "item \<Rightarrow> string \<Rightarrow> string \<Rightarrow> goval" where
  "renamed it name suffix = (case it of
      EmptyNode \<Rightarrow> VString (name @ suffix)
    | ANode n \<Rightarrow> VItem (if an_isValue n then it
        else ANode \<lparr>an_value = [], an_name = an_name n @ suffix, an_min = an_min n, an_max = an_max n,
               an_isValue = False, an_symbol = []\<rparr>)
    | _ \<Rightarrow> VItem (renamed_leaf suffix it))"

definition renamed_row :: "item list \<Rightarrow> vars \<Rightarrow> string \<Rightarrow> nat list \<Rightarrow> goval list" where
  "renamed_row xs vars suffix is = map (\<lambda>i. renamed (xs ! i) (variablesSwapKeyValue vars i) suffix) is"

text \<open>The values before the ellipsis once more for each count, each time with the number of the
  repetition behind the names, then the values behind the ellipsis.\<close>

definition unrolled :: "item list \<Rightarrow> vars \<Rightarrow> nat \<Rightarrow> nat \<Rightarrow> goval list" where
  "unrolled xs vars p n =
     concat (map (\<lambda>k. renamed_row xs vars (''['' @ dec_nat k @ '']'') [0..<p]) [0..<Suc n])
       @ renamed_row xs vars [] [Suc p..<length xs]"

section \<open>One item and one row\<close>

text \<open>The suffix of a state, and that copying a simple item gives the item under its new name.\<close>

definition suffix_of :: "fill_state \<Rightarrow> string" where
  "suffix_of s = index_suffix (take (nat (fs_dimension s)) (fs_indices s))"

definition counting :: "fill_state \<Rightarrow> bool" where
  "counting s \<longleftrightarrow> (\<forall>i \<in> set (take (nat (fs_dimension s)) (fs_indices s)). 0 \<le> i)"

lemma new_name: "\<not> isEllipsis name \<Longrightarrow> getNewVariableName name s = (name @ suffix_of s, s)"
  by (simp add: getNewVariableName_def suffix_of_def)

lemma suffix_of_good: "counting s \<Longrightarrow> good_suffix (suffix_of s)"
  using many_indices_suffix suffix_starts by (simp add: good_suffix_def suffix_of_def counting_def)

lemma leaf_Variables:
  assumes "\<forall>n. it \<noteq> ANode n" and "\<forall>vs vars s. it \<noteq> LNode vs vars s"
  shows "set (Variables it) = fst ` set (leaf_variables it)" and "Variables it = [] \<longleftrightarrow> leaf_variables it = []"
  using assms by (cases it; simp add: leaf_variables_def getVariableNames_def; metis set_empty set_sort)+

lemma rename_all_fill:
  "\<forall>v \<in> set vs. \<not> isEllipsis v \<Longrightarrow>
     rename_all vs s fill = (\<lambda>v. if v \<in> set vs then Some (VString (v @ suffix_of s)) else fill v, s)"
  by (induction vs arbitrary: fill) (auto simp: new_name)

lemma as_made_names:
  assumes "as_made it" and "(name, pos) \<in> set (leaf_variables it)"
  shows "isValidVarName name"
  using assms by (cases it) (auto simp: as_made_def leaf_variables_def vars_ok_def list_all_iff)

lemma copy_made:
  assumes "as_made it" and "Variables it \<noteq> []" and "counting s"
    and it: "\<forall>n. it \<noteq> ANode n" "\<forall>vs vars s. it \<noteq> LNode vs vars s" "it \<noteq> EmptyNode"
  shows "copy_leaf it name s = Inr (VItem (renamed_leaf (suffix_of s) it), s)"
proof -
  let ?fill = "\<lambda>v. if v \<in> set (Variables it) then Some (VString (v @ suffix_of s)) else None"
  have "\<forall>v \<in> set (Variables it). \<not> isEllipsis v"
    using as_made_names [OF assms(1)] valid_not_ellipsis leaf_Variables(1) [OF it(1,2)] by auto
  then have r: "rename_all (Variables it) s Map.empty = (?fill, s)" by (simp add: rename_all_fill)
  have "renaming (suffix_of s) (leaf_variables it) ?fill"
    using assms(2) leaf_Variables [OF it(1,2)] by (force simp: renaming_def)
  then have "leaf_FillVariables ?fill it = Inr (renamed_leaf (suffix_of s) it)"
    by (rule leaf_renamed [OF assms(1) suffix_of_good [OF assms(3)]])
  moreover have "copy_leaf it name s = (case rename_all (Variables it) s Map.empty of (fill, s') \<Rightarrow>
      go_bind (leaf_FillVariables fill it) (\<lambda>it'. Inr (VItem it', s')))"
    using it assms(2) by (cases it) (simp_all add: copy_leaf_def)
  ultimately show ?thesis by (simp add: r)
qed

lemma copy_plain:
  assumes "Variables it = []" and "\<forall>n. it \<noteq> ANode n" and "\<forall>vs vars s. it \<noteq> LNode vs vars s" and "it \<noteq> EmptyNode"
  shows "copy_leaf it name s = Inr (VItem (renamed_leaf suffix it), s)"
  using assms leaf_Variables(2) [OF assms(2,3)] renamed_leaf_plain [of it suffix]
  by (cases it) (auto simp: copy_leaf_def simp del: Variables.simps)

lemma copy_ascii:
  assumes r: "rep_ok (ANode n)" and "counting s"
  shows "copy_leaf (ANode n) name s = Inr (renamed (ANode n) name (suffix_of s), s)"
proof (cases "an_isValue n")
  case False
  then have v: "isValidVarName (an_name n)" using r by simp
  have "isValidVarName (an_name n @ suffix_of s)"
    using valid_name_indexed [OF v] suffix_of_good [OF assms(2)] by (simp add: good_suffix_def)
  moreover have "- 1 \<le> an_max n" using r False by auto
  ultimately show ?thesis using r False new_name [OF valid_not_ellipsis [OF v]]
    by (auto simp: copy_leaf_def renamed_def NewASCIINodeVariable_def ascii_checkRep_def)
qed (simp add: copy_leaf_def renamed_def)

lemma copy_simple:
  assumes "simple_item it name" and "counting s"
  shows "copy_leaf it name s = Inr (renamed it name (suffix_of s), s)"
proof -
  consider (empty) "it = EmptyNode" | (ascii) n where "it = ANode n" | (list) xs vars sy where "it = LNode xs vars sy"
    | (leaf) "it \<noteq> EmptyNode" "\<forall>n. it \<noteq> ANode n" "\<forall>vs vars s. it \<noteq> LNode vs vars s" by blast
  then show ?thesis
  proof cases
    case leaf
    then have "Variables it = [] \<or> as_made it" and r: "renamed it name suffix = VItem (renamed_leaf suffix it)" for suffix
      using assms(1) by (cases it; simp add: simple_item_def renamed_def)+
    then show ?thesis using leaf copy_plain copy_made [OF _ _ assms(2)] unfolding r by blast
  next
    case ascii
    then show ?thesis using assms copy_ascii by (simp add: simple_item_def)
  qed (use assms new_name in \<open>simp_all add: copy_leaf_def simple_item_def renamed_def\<close>)
qed

lemma fill_simple:
  assumes "simple_item it name" and "counting s"
  shows "fill_value vals it name s = Inr (renamed it name (suffix_of s), s)"
proof -
  have "fill_value vals it name s = copy_leaf it name s"
    using assms(1) by (subst fill_value.simps) (simp add: simple_item_def split: item.splits)
  then show ?thesis by (simp add: copy_simple [OF assms])
qed

text \<open>The loop from one position to another, over simple items and without the ellipsis.\<close>

lemma fill_row:
  assumes "counting s"
  shows "i \<le> j \<Longrightarrow> j \<le> length xs \<Longrightarrow>
    (\<forall>q. i \<le> q \<and> q < j \<longrightarrow> position \<noteq> Some q \<and> simple_item (xs ! q) (variablesSwapKeyValue vars q)) \<Longrightarrow>
    fill_items vals xs vars position n k i acc s =
      fill_items vals xs vars position n k j (acc @ renamed_row xs vars (suffix_of s) [i..<j]) s"
proof (induction "j - i" arbitrary: i acc)
  case (Suc m)
  let ?v = "renamed (xs ! i) (variablesSwapKeyValue vars i) (suffix_of s)"
  have i: "i < length xs" "position \<noteq> Some i" "simple_item (xs ! i) (variablesSwapKeyValue vars i)"
    using Suc.hyps(2) Suc.prems by auto
  have "fill_items vals xs vars position n k i acc s = fill_items vals xs vars position n k (Suc i) (acc @ [?v]) s"
    by (simp add: fill_items_next [OF i(1,2)] fill_simple [OF i(3) assms])
  also have "\<dots> = fill_items vals xs vars position n k j (acc @ [?v] @ renamed_row xs vars (suffix_of s) [Suc i..<j]) s"
    using Suc.hyps Suc.prems by (subst Suc.hyps(1)) auto
  also have "[?v] @ renamed_row xs vars (suffix_of s) [Suc i..<j] = renamed_row xs vars (suffix_of s) [i..<j]"
    using Suc.hyps(2) by (simp add: renamed_row_def upt_rec [of i j])
  finally show ?case .
qed (simp add: renamed_row_def)

section \<open>The repetitions\<close>

definition in_repetition :: "fill_state \<Rightarrow> nat \<Rightarrow> bool" where
  "in_repetition s j \<longleftrightarrow> fs_dimension s = 1 \<and> fs_indices s = [int j]"

lemma in_repetition_state:
  assumes "in_repetition s j"
  shows "counting s" and "suffix_of s = ''['' @ dec_nat j @ '']''" and "getCurrentDimensionIndex s = Inr (int j)"
    and "growIndex s = Inr (s\<lparr>fs_indices := [int (Suc j)]\<rparr>)" and "in_repetition (s\<lparr>fs_indices := [int (Suc j)]\<rparr>) (Suc j)"
proof -
  have s: "fs_dimension s = 1" "fs_indices s = [int j]" using assms by (simp_all add: in_repetition_def)
  show "counting s" "suffix_of s = ''['' @ dec_nat j @ '']''" "in_repetition (s\<lparr>fs_indices := [int (Suc j)]\<rparr>) (Suc j)"
    by (simp_all add: s counting_def suffix_of_def index_suffix_def dec_def in_repetition_def)
  show i: "getCurrentDimensionIndex s = Inr (int j)" by (simp add: getCurrentDimensionIndex_def s go_at_def)
  show "growIndex s = Inr (s\<lparr>fs_indices := [int (Suc j)]\<rparr>)" by (simp add: growIndex_def i s)
qed

definition row :: "item list \<Rightarrow> vars \<Rightarrow> nat \<Rightarrow> nat \<Rightarrow> goval list" where
  "row xs vars p j = renamed_row xs vars (''['' @ dec_nat j @ '']'') [0..<p]"

lemma fill_again:
  assumes p: "0 < p" "p < length xs" and simple: "\<forall>q < p. simple_item (xs ! q) (variablesSwapKeyValue vars q)"
    and s: "in_repetition s j"
  shows "fill_items vals xs vars (Some p) (int (j + Suc k)) (Suc k) p acc s =
    fill_items vals xs vars (Some p) (int (j + Suc k)) k p (acc @ row xs vars p (Suc j)) (s\<lparr>fs_indices := [int (Suc j)]\<rparr>)"
proof -
  let ?s = "s\<lparr>fs_indices := [int (Suc j)]\<rparr>" and ?x = "renamed (xs ! 0) (variablesSwapKeyValue vars 0)"
  note st = in_repetition_state [OF s] and st' = in_repetition_state [OF in_repetition_state(5) [OF s]]
  have "fill_items vals xs vars (Some p) (int (j + Suc k)) (Suc k) p acc s =
      fill_items vals xs vars (Some p) (int (j + Suc k)) k 1 (acc @ [?x (suffix_of ?s)]) ?s"
    using p simple st st' by (subst fill_items.simps) (simp add: fill_simple del: One_nat_def)
  also have "\<dots> = fill_items vals xs vars (Some p) (int (j + Suc k)) k p
      ((acc @ [?x (suffix_of ?s)]) @ renamed_row xs vars (suffix_of ?s) [1..<p]) ?s"
    using p simple by (intro fill_row [OF st'(1)]) auto
  also have "(acc @ [?x (suffix_of ?s)]) @ renamed_row xs vars (suffix_of ?s) [1..<p] = acc @ row xs vars p (Suc j)"
    using p(1) by (simp add: row_def renamed_row_def upt_rec [of 0 p] st'(2) del: of_nat_Suc)
  finally show ?thesis .
qed

lemma fill_repetitions:
  assumes p: "0 < p" "p < length xs" and simple: "\<forall>q < p. simple_item (xs ! q) (variablesSwapKeyValue vars q)"
  shows "in_repetition s j \<Longrightarrow> 0 < j + k \<Longrightarrow>
    fill_items vals xs vars (Some p) (int (j + k)) k p acc s =
      fill_items vals xs vars (Some p) (int (j + k)) 0 (Suc p)
        (acc @ concat (map (row xs vars p) [Suc j..<Suc (j + k)])) (s\<lparr>fs_indices := [int (j + k)], fs_dimension := 0\<rparr>)"
proof (induction k arbitrary: j s acc)
  case 0
  note st = in_repetition_state [OF 0(1)]
  have "fs_dimension s = 1" "fs_indices s = [int j]" using 0(1) by (simp_all add: in_repetition_def)
  then have "exitDimension s = s\<lparr>fs_indices := [int j], fs_dimension := 0\<rparr>" by (simp add: exitDimension_def)
  then show ?case using p(2) 0(2) st(3) by (subst fill_items.simps) simp
next
  case (Suc k)
  have up: "[Suc j..<Suc (j + Suc k)] = Suc j # [Suc (Suc j)..<Suc (j + Suc k)]"
    by (subst upt_conv_Cons) simp_all
  have a: "j + Suc k = Suc j + k" by simp
  have "fill_items vals xs vars (Some p) (int (Suc j + k)) k p (acc @ row xs vars p (Suc j)) (s\<lparr>fs_indices := [int (Suc j)]\<rparr>)
      = fill_items vals xs vars (Some p) (int (Suc j + k)) 0 (Suc p)
          ((acc @ row xs vars p (Suc j)) @ concat (map (row xs vars p) [Suc (Suc j)..<Suc (Suc j + k)]))
          ((s\<lparr>fs_indices := [int (Suc j)]\<rparr>)\<lparr>fs_indices := [int (Suc j + k)], fs_dimension := 0\<rparr>)"
    by (rule Suc.IH [OF in_repetition_state(5) [OF Suc.prems(1)]]) simp
  then show ?case unfolding fill_again [OF p simple Suc.prems(1)] up by (simp add: a)
qed

lemma fill_flat:
  assumes p: "0 < p" "p < length xs"
    and simple: "\<forall>q < length xs. q \<noteq> p \<longrightarrow> simple_item (xs ! q) (variablesSwapKeyValue vars q)"
    and s: "in_repetition s 0" and n: "0 < n"
  shows "\<exists>s'. fill_items vals xs vars (Some p) (int n) n 0 [] s = Inr (unrolled xs vars p n, s')"
proof -
  have before: "\<forall>q < p. simple_item (xs ! q) (variablesSwapKeyValue vars q)" using p simple by auto
  let ?s = "s\<lparr>fs_indices := [int n], fs_dimension := 0\<rparr>"
  note st = in_repetition_state [OF s]
  have "fill_items vals xs vars (Some p) (int n) n 0 [] s = fill_items vals xs vars (Some p) (int n) n p (row xs vars p 0) s"
    using p before st by (subst fill_row [where j = p]) (auto simp: row_def)
  also have "\<dots> = fill_items vals xs vars (Some p) (int n) 0 (Suc p)
      (row xs vars p 0 @ concat (map (row xs vars p) [1..<Suc n])) ?s"
    using fill_repetitions [OF p before s, of n] n by simp
  also have "row xs vars p 0 @ concat (map (row xs vars p) [1..<Suc n]) = concat (map (row xs vars p) [0..<Suc n])"
    by (simp add: upt_conv_Cons del: upt_Suc)
  finally have "fill_items vals xs vars (Some p) (int n) n 0 [] s
      = fill_items vals xs vars (Some p) (int n) 0 (Suc p) (concat (map (row xs vars p) [0..<Suc n])) ?s" .
  also have "\<dots> = fill_items vals xs vars (Some p) (int n) 0 (length xs)
      (concat (map (row xs vars p) [0..<Suc n]) @ renamed_row xs vars (suffix_of ?s) [Suc p..<length xs]) ?s"
    using p simple by (intro fill_row) (auto simp: counting_def)
  also have "\<dots> = Inr (unrolled xs vars p n, ?s)"
    by (subst fill_items.simps) (simp add: unrolled_def row_def [abs_def] suffix_of_def index_suffix_def)
  finally show ?thesis by blast
qed

lemma analyse_flat: "(\<forall>x \<in> set xs. \<forall>vs vars s. x \<noteq> LNode vs vars s) \<Longrightarrow> analyse_items vals n xs acc = Inr acc"
proof (induction xs)
  case (Cons x xs)
  then show ?case by (cases acc; cases x) auto
qed simp

lemma fill_ellipsis_flat:
  assumes own: "own_ellipsis vals vars = Some (p, VInt w)" and w: "0 < sint w"
    and p: "0 < p" "p < length xs"
    and simple: "\<forall>q < length xs. q \<noteq> p \<longrightarrow> simple_item (xs ! q) (variablesSwapKeyValue vars q)"
  shows "\<exists>s'. fill_ellipsis vals (LNode xs vars sy) (newFillState r)
    = go_bind (NewListNode (unrolled xs vars p (nat (sint w)))) (\<lambda>it. Inr (it, s'))"
proof -
  let ?s = "(newFillState r)\<lparr>fs_indices := [0], fs_dimension := 1\<rparr>"
  have g: "growDimension (newFillState r) = Inr ?s" by (simp add: growDimension_def newFillState_def)
  have "in_repetition ?s 0" by (simp add: in_repetition_def)
  from fill_flat [OF p simple this, of "nat (sint w)" vals] w
  obtain s' where "fill_items vals xs vars (Some p) (sint w) (nat (sint w)) 0 [] ?s
      = Inr (unrolled xs vars p (nat (sint w)), s')" by auto
  then have "fill_ellipsis vals (LNode xs vars sy) (newFillState r)
      = go_bind (NewListNode (unrolled xs vars p (nat (sint w)))) (\<lambda>it. Inr (it, s'))"
    using w g by (subst fill_ellipsis.simps) (simp add: own go_int_def)
  then show ?thesis by blast
qed

section \<open>Lists the factory makes can be expanded\<close>

lemma list_check_expandable:
  "list_check_variables xs vars e visited = Inr () \<Longrightarrow>
     \<forall>(name, pos) \<in> set vars. isEllipsis name \<longrightarrow> 0 < pos \<and> pos < length xs"
proof (induction xs vars e visited rule: list_check_variables.induct)
  case (2 xs name pos rest e visited)
  then have "isEllipsis name \<Longrightarrow> 0 < pos" "pos < length xs"
    using valid_not_ellipsis [of name] by (auto simp: go_index_def split: if_splits)
  then show ?case using 2 by (auto simp: go_index_def split: if_splits)
qed simp

lemma values_collected:
  "collect list_value EmptyNode i vs args = Inr (xs, vs') \<Longrightarrow> x \<in> set xs \<Longrightarrow> x = EmptyNode \<or> VItem x \<in> set args"
proof (induction args arbitrary: i vs xs)
  case (Cons a args)
  show ?case using Cons.prems(1)
  proof (rule collect_ConsE)
    fix y ys
    assume y: "list_value a = Inr (Inl y)" "xs = y # ys" "collect list_value EmptyNode (Suc i) vs args = Inr (ys, vs')"
    then have "a = VItem y" by (simp add: list_value_def split: goval.splits)
    then show ?thesis using Cons.IH [OF y(3)] y(2) Cons.prems(2) by auto
  next
    fix name ys
    assume "xs = EmptyNode # ys" "collect list_value EmptyNode (Suc i) (vs @ [(name, i)]) args = Inr (ys, vs')"
    then show ?thesis using Cons.IH [of "Suc i" "vs @ [(name, i)]" ys] Cons.prems(2) by auto
  qed
qed simp

lemma NewListNode_expandable:
  assumes "NewListNode args = Inr it" and "\<forall>x. VItem x \<in> set args \<longrightarrow> expandable x"
  shows "expandable it"
proof -
  obtain xs vars where c: "collect list_value EmptyNode 0 [] args = Inr (xs, vars)" and it: "it = LNode xs vars ''list''"
    and r: "list_checkRep xs vars = Inr ()"
    using assms(1) by (auto simp: NewListNode_def go_bind_Inr_iff)
  have "list_check_variables xs vars False [] = Inr ()" using r by (auto simp: list_checkRep_def go_bind_Inr_iff)
  moreover have "\<forall>x \<in> set xs. expandable x" using values_collected [OF c] assms(2) expandable.simps(2) by metis
  ultimately show ?thesis using list_check_expandable unfolding it by auto
qed

section \<open>Properties\<close>

text \<open>Claim C29. Filling variables comes to an end, on lists of any depth and with any values but a negative
  number for an ellipsis: the loop that jumps back to the first value of a list is left after as many
  repetitions as the number says, so the bound of the model is never the answer. The condition on the
  list, that no ellipsis is its first value, is what \<open>NewListNode\<close> checks (lemma \<open>NewListNode_expandable\<close>).\<close>

theorem FillVariables_returns:
  assumes "counts_ok vals" and "expandable it"
  shows "FillVariables vals it \<noteq> Inl NoFuel"
  using FillVariables_fuel_ok [OF assms] by (auto simp: fuel_ok_def)

definition nested_list :: item where
  "nested_list = LNode
     [LNode [EmptyNode, EmptyNode] [(''x'', 0), (''...'', 1)] ''list'', EmptyNode] [(''...[1]'', 1)] ''list''"

lemma nested_list_filled:
  "case FillVariables [''...'' \<mapsto> VInt 1, ''...[1]'' \<mapsto> VInt 1] nested_list of
     Inl _ \<Rightarrow> False | Inr it \<Rightarrow> Variables it = [''x[0][0]'', ''x[0][1]'', ''x[1][0]'', ''x[1][1]'']"
  by code_simp

lemma FillVariables_returns_witness:
  "FillVariables [''...'' \<mapsto> VInt 1, ''...[1]'' \<mapsto> VInt 1] nested_list \<noteq> Inl NoFuel"
proof (rule FillVariables_returns)
  show "counts_ok [''...'' \<mapsto> VInt 1, ''...[1]'' \<mapsto> VInt 1]" by (simp add: counts_ok_def)
  show "expandable nested_list" by code_simp
qed

text \<open>Claim C13. A list without inner lists whose ellipsis is filled with n > 0 is unrolled: \<open>FillVariables\<close>
  makes the list in which the values before the ellipsis stand n + 1 times, the k-th time with \<open>[k]\<close> behind
  the name of each variable, followed by the values behind the ellipsis unchanged, and then fills the other
  variables of that list. The loop that jumps back to the first value of the list and counts in a mutable
  index has this meaning.\<close>

theorem FillVariables_unrolls:
  assumes own: "own_ellipsis (ellipsis_values vals) vars = Some (p, VInt w)" and w: "0 < sint w"
    and p: "0 < p" "p < length xs" "xs ! p = EmptyNode"
    and simple: "\<forall>q < length xs. q \<noteq> p \<longrightarrow> simple_item (xs ! q) (variablesSwapKeyValue vars q)"
  shows "FillVariables vals (LNode xs vars sy)
    = go_bind (NewListNode (unrolled xs vars p (nat (sint w)))) (fill_others (other_values vals))"
proof -
  have "xs ! q \<noteq> LNode vs us s" if "q < length xs" for q vs us s
    using simple that p(3) by (cases "q = p") (auto simp: simple_item_def)
  then have "\<forall>x \<in> set xs. \<forall>vs us s. x \<noteq> LNode vs us s" by (auto simp: in_set_conv_nth)
  then have a: "analyse_items (ellipsis_values vals) (sint w) xs acc = Inr acc" for acc by (rule analyse_flat)
  let ?remaining = "if \<exists>(name, pos) \<in> set vars. isEllipsis name \<and> ellipsis_values vals name = None then 1 else 0"
  obtain s' where e: "fill_ellipsis (ellipsis_values vals) (LNode xs vars sy) (newFillState ?remaining)
      = go_bind (NewListNode (unrolled xs vars p (nat (sint w)))) (\<lambda>it. Inr (it, s'))"
    using fill_ellipsis_flat [OF own w p(1,2) simple] by blast
  have "ellipsisAnalysis (ellipsis_values vals) (LNode xs vars sy) = Inr (1, ?remaining)"
    by (simp add: own go_int_def a)
  then show ?thesis unfolding FillVariables_def using e
    by (cases "NewListNode (unrolled xs vars p (nat (sint w)))") (simp_all del: ellipsisAnalysis.simps)
qed

text \<open>A measurement list as in the comment of \<open>ListNode\<close>: a number item with a variable between its values, a named
  value and an ellipsis, filled with two repetitions.\<close>

definition number_with :: "string \<Rightarrow> item" where
  "number_with name = UNode \<lparr>un_byteSize = 1, un_values = [7, 0], un_variables = [(name, 1)], un_symbol = ''u1''\<rparr>"

definition measurements :: item where
  "measurements = LNode [number_with ''var'', EmptyNode, EmptyNode] [(''value'', 1), (''...'', 2)] ''list''"

theorem FillVariables_unrolls_witness:
  "FillVariables [''...'' \<mapsto> VInt 2, ''var[1]'' \<mapsto> VInt 9] measurements
     = go_bind (NewListNode [VItem (number_with ''var[0]''), VString ''value[0]'',
           VItem (number_with ''var[1]''), VString ''value[1]'', VItem (number_with ''var[2]''), VString ''value[2]''])
         (fill_others [''var[1]'' \<mapsto> VInt 9])"
proof -
  let ?vals = "[''...'' \<mapsto> VInt 2, ''var[1]'' \<mapsto> VInt 9]" and ?xs = "[number_with ''var'', EmptyNode, EmptyNode]"
    and ?vars = "[(''value'', 1), (''...'', 2)]"
  have o: "other_values ?vals = [''var[1]'' \<mapsto> VInt 9]"
    by (auto simp: other_values_def isEllipsis_def fun_eq_iff)
  have "own_ellipsis (ellipsis_values ?vals) ?vars = Some (2, VInt 2)" by code_simp
  note FillVariables_unrolls [OF this, of ?xs "''list''"]
  moreover have "\<forall>q < length ?xs. q \<noteq> 2 \<longrightarrow> simple_item (?xs ! q) (variablesSwapKeyValue ?vars q)" by code_simp
  moreover have "unrolled ?xs ?vars 2 2 = [VItem (number_with ''var[0]''), VString ''value[0]'',
      VItem (number_with ''var[1]''), VString ''value[1]'', VItem (number_with ''var[2]''), VString ''value[2]'']" by code_simp
  ultimately show ?thesis unfolding o by (simp add: measurements_def)
qed

text \<open>A negative number is not refused: the loop reads an index that was never made.\<close>

theorem negative_ellipsis_panics:
  "FillVariables [''...'' \<mapsto> VInt (- 1)] measurements = Inl (Panic ''index out of range'')"
  by code_simp

end
