(* ===== verification/Go_Streams.thy ===== *)
theory Go_Streams
  imports Prelude
begin

text \<open>
  What the codecs use of Go's \<open>io\<close> and \<open>bufio\<close>: a reader over a network connection, buffered or not,
  \<open>io.ReadFull\<close> on it, and a writer, buffered or not. A connection hands out its bytes in the pieces in which
  they arrive. A codec's \<open>Receive\<close> is a program of reads (\<open>reading\<close>), so that the same \<open>Receive\<close> can be run on
  a connection, through a buffer, or on bytes in memory.

  The locale \<open>byte_source\<close> is the contract of a reader: what \<open>ReadFull\<close> returns depends on the bytes to come
  only, not on how they are cut. It is interpreted on the readers of the model, and from it follows that a
  program that reads with \<open>ReadFull\<close> alone gives the same result on every reader.
\<close>

section \<open>Readers\<close>

text \<open>The pieces the connection will deliver, and the buffer of a \<open>bufio.Reader\<close> in front of it with its
  size; size 0 stands for the connection itself.\<close>

record byte_reader =
  rd_chunks :: "byte list list"
  rd_buffer :: "byte list"
  rd_size :: nat

definition direct_reader :: "byte list list \<Rightarrow> byte_reader" where
  "direct_reader chunks = \<lparr>rd_chunks = chunks, rd_buffer = [], rd_size = 0\<rparr>"

text \<open>\<open>bufio.NewReaderSize\<close>, which makes no buffer of less than 16 bytes.\<close>

definition NewReaderSize :: "nat \<Rightarrow> byte list list \<Rightarrow> byte_reader" where
  "NewReaderSize sz chunks = \<lparr>rd_chunks = chunks, rd_buffer = [], rd_size = max sz 16\<rparr>"

definition pending :: "byte_reader \<Rightarrow> byte list" where
  "pending r = rd_buffer r @ concat (rd_chunks r)"

text \<open>One read of the connection of at most \<open>n\<close> bytes, and whether it is at its end.\<close>

definition conn_Read :: "nat \<Rightarrow> byte list list \<Rightarrow> byte list \<times> bool \<times> byte list list" where
  "conn_Read n chunks = (case chunks of
      [] \<Rightarrow> ([], True, [])
    | ch # rest \<Rightarrow> (take n ch, False, if length ch \<le> n then rest else drop n ch # rest))"

text \<open>\<open>Read\<close> of a \<open>bufio.Reader\<close>: what is buffered, or one read of the connection, directly when it is at
  least as large as the buffer.\<close>

definition Read :: "nat \<Rightarrow> byte_reader \<Rightarrow> byte list \<times> bool \<times> byte_reader" where
  "Read n r =
     (if rd_buffer r = [] \<and> rd_size r \<le> n then
        (case conn_Read n (rd_chunks r) of (bs, eof, chunks) \<Rightarrow> (bs, eof, r\<lparr>rd_chunks := chunks\<rparr>))
      else if rd_buffer r = [] then
        (case conn_Read (rd_size r) (rd_chunks r) of (bs, eof, chunks) \<Rightarrow>
          (take n bs, eof, r\<lparr>rd_chunks := chunks, rd_buffer := drop n bs\<rparr>))
      else (take n (rd_buffer r), False, r\<lparr>rd_buffer := drop n (rd_buffer r)\<rparr>))"

lemma three_parts: "\<not> m \<le> n \<Longrightarrow> xs = take n xs @ drop n (take m xs) @ drop m xs"
  by (metis append_assoc append_take_drop_id min.absorb1 nat_le_linear take_take)

lemma Read_cases:
  assumes "Read n r = (bs, eof, r')"
  shows "pending r = bs @ pending r'" and "length bs \<le> n" and "eof \<Longrightarrow> bs = [] \<and> pending r = []"
    and "0 < n \<Longrightarrow> \<not> eof \<Longrightarrow> bs = [] \<Longrightarrow> length (rd_chunks r') < length (rd_chunks r)"
  using assms by (auto simp: Read_def conn_Read_def pending_def split: if_splits list.splits intro: three_parts)

text \<open>\<open>io.ReadFull\<close> of \<open>n\<close> bytes: what was read, and whether it was all of them.\<close>

function io_ReadFull :: "nat \<Rightarrow> byte_reader \<Rightarrow> byte list \<times> bool \<times> byte_reader" where
  "io_ReadFull n r =
     (if n = 0 then ([], True, r)
      else case Read n r of (bs, eof, r') \<Rightarrow>
        if eof then (bs, False, r')
        else case io_ReadFull (n - length bs) r' of (rest, ok, r'') \<Rightarrow> (bs @ rest, ok, r''))"
  by pat_completeness auto
termination
proof (relation "measures [fst, \<lambda>(n, r). length (rd_chunks r)]", goal_cases)
  case (2 n r bs y eof r')
  then have "Read n r = (bs, eof, r')" by simp
  from Read_cases(4) [OF this] 2 show ?case by (cases "bs = []") auto
qed simp

declare io_ReadFull.simps [simp del]

section \<open>The contract of a reader\<close>

locale byte_source =
  fixes read_full :: "nat \<Rightarrow> 's \<Rightarrow> byte list \<times> bool \<times> 's"
    and bytes_of :: "'s \<Rightarrow> byte list"
  assumes read_bytes: "fst (read_full n s) = take n (bytes_of s)"
    and read_ok: "fst (snd (read_full n s)) = (n \<le> length (bytes_of s))"
    and read_rest: "bytes_of (snd (snd (read_full n s))) = drop n (bytes_of s)"
begin

lemma read_full_eq:
  obtains s' where "read_full n s = (take n (bytes_of s), n \<le> length (bytes_of s), s')"
    and "bytes_of s' = drop n (bytes_of s)"
  using read_bytes [of n s] read_ok [of n s] read_rest [of n s] by (cases "read_full n s") auto

end

lemma io_ReadFull_bytes:
  "fst (io_ReadFull n r) = take n (pending r) \<and> fst (snd (io_ReadFull n r)) = (n \<le> length (pending r))
     \<and> pending (snd (snd (io_ReadFull n r))) = drop n (pending r)"
proof (induction n r rule: io_ReadFull.induct)
  case (1 n r)
  show ?case
  proof (cases "n = 0")
    case False
    obtain bs eof r' where rd: "Read n r = (bs, eof, r')" by (cases "Read n r")
    note facts = Read_cases(1-3) [OF rd]
    show ?thesis
    proof (cases eof)
      case True
      then show ?thesis using False rd facts by (subst (1 2 3) io_ReadFull.simps) simp
    next
      case eof: False
      obtain rest ok r'' where rec: "io_ReadFull (n - length bs) r' = (rest, ok, r'')" by (cases "io_ReadFull (n - length bs) r'")
      have "io_ReadFull n r = (bs @ rest, ok, r'')" using False eof rd rec by (subst io_ReadFull.simps) simp
      then show ?thesis using 1 [OF False rd [symmetric] refl eof] rec facts by auto
    qed
  qed (simp add: io_ReadFull.simps)
qed

interpretation buffered: byte_source io_ReadFull pending
  by unfold_locales (simp_all add: io_ReadFull_bytes)

definition bytes_ReadFull :: "nat \<Rightarrow> byte list \<Rightarrow> byte list \<times> bool \<times> byte list" where
  "bytes_ReadFull n bs = (take n bs, n \<le> length bs, drop n bs)"

interpretation in_memory: byte_source bytes_ReadFull "\<lambda>bs. bs"
  by unfold_locales (simp_all add: bytes_ReadFull_def)

section \<open>Programs of reads\<close>

text \<open>What a codec's \<open>Receive\<close> does to its reader: it reads all of a number of bytes (\<open>io.ReadFull\<close>), or makes one
  read of at most a number of bytes, and goes on with what it got and whether that was all, or the end.\<close>

datatype 'r reading =
    Done 'r
  | Full nat "byte list \<Rightarrow> bool \<Rightarrow> 'r reading"
  | Once nat "byte list \<Rightarrow> bool \<Rightarrow> 'r reading"

primrec run :: "'r reading \<Rightarrow> byte_reader \<Rightarrow> 'r \<times> byte_reader" where
  "run (Done x) = (\<lambda>r. (x, r))"
| "run (Full n f) = (\<lambda>r. case io_ReadFull n r of (bs, ok, r') \<Rightarrow> run (f bs ok) r')"
| "run (Once n f) = (\<lambda>r. case Read n r of (bs, eof, r') \<Rightarrow> run (f bs eof) r')"

text \<open>The same on bytes in memory (\<open>bytes.Reader\<close>).\<close>

primrec run_bytes :: "'r reading \<Rightarrow> byte list \<Rightarrow> 'r \<times> byte list" where
  "run_bytes (Done x) = (\<lambda>s. (x, s))"
| "run_bytes (Full n f) = (\<lambda>s. case bytes_ReadFull n s of (bs, ok, s') \<Rightarrow> run_bytes (f bs ok) s')"
| "run_bytes (Once n f) = (\<lambda>s. run_bytes (f (take n s) (s = [])) (drop n s))"

primrec full_only :: "'r reading \<Rightarrow> bool" where
  "full_only (Done x) \<longleftrightarrow> True"
| "full_only (Full n f) \<longleftrightarrow> (\<forall>bs ok. full_only (f bs ok))"
| "full_only (Once n f) \<longleftrightarrow> False"

text \<open>A program that reads with \<open>ReadFull\<close> alone does not see how the bytes arrive or are buffered.\<close>

lemma run_full_only:
  "full_only p \<Longrightarrow> fst (run p r) = fst (run_bytes p (pending r))
     \<and> pending (snd (run p r)) = snd (run_bytes p (pending r))"
proof (induction p arbitrary: r)
  case (Full n f)
  obtain r' where "io_ReadFull n r = (take n (pending r), n \<le> length (pending r), r')" "pending r' = drop n (pending r)"
    by (rule buffered.read_full_eq)
  then show ?case using Full(1) [OF rangeI rangeI] Full(2) by (simp add: bytes_ReadFull_def)
qed simp_all

section \<open>Writers\<close>

text \<open>What the connection has taken and whether it is broken, and the buffer of a \<open>bufio.Writer\<close> in front of it
  with its size (0 for none) and its error, which stays.\<close>

record byte_writer =
  wr_out :: "byte list"
  wr_broken :: bool
  wr_buffer :: "byte list"
  wr_size :: nat
  wr_failed :: bool

definition write_error :: go_error where
  "write_error = Err ''write failed''"

definition conn_Write :: "byte list \<Rightarrow> byte_writer \<Rightarrow> bool \<times> byte_writer" where
  "conn_Write bs w = (if wr_broken w then (False, w) else (True, w\<lparr>wr_out := wr_out w @ bs\<rparr>))"

definition Flush :: "byte_writer \<Rightarrow> unit res \<times> byte_writer" where
  "Flush w =
     (if wr_failed w then (Inl write_error, w)
      else if wr_buffer w = [] then (Inr (), w)
      else case conn_Write (wr_buffer w) w of
          (True, w') \<Rightarrow> (Inr (), w'\<lparr>wr_buffer := []\<rparr>)
        | (False, w') \<Rightarrow> (Inl write_error, w'\<lparr>wr_failed := True\<rparr>))"

lemma Flush_empties: "Flush w = (r, w') \<Longrightarrow> \<not> wr_failed w' \<Longrightarrow> wr_buffer w' = []"
  by (auto simp: Flush_def conn_Write_def split: if_splits)

text \<open>\<open>Write\<close> of a \<open>bufio.Writer\<close>: it fills the buffer and flushes it as long as there is more than fits, and
  writes directly what does not fit in an empty buffer.\<close>

definition available :: "byte_writer \<Rightarrow> nat" where
  "available w = wr_size w - length (wr_buffer w)"

function buf_Write :: "byte list \<Rightarrow> byte_writer \<Rightarrow> unit res \<times> byte_writer" where
  "buf_Write bs w =
     (if wr_failed w then (Inl write_error, w)
      else if length bs \<le> available w then (Inr (), w\<lparr>wr_buffer := wr_buffer w @ bs\<rparr>)
      else if wr_buffer w = [] then
        (case conn_Write bs w of
            (True, w') \<Rightarrow> (Inr (), w')
          | (False, w') \<Rightarrow> (Inl write_error, w'\<lparr>wr_failed := True\<rparr>))
      else case Flush (w\<lparr>wr_buffer := wr_buffer w @ take (available w) bs\<rparr>) of
          (r, w') \<Rightarrow> buf_Write (drop (available w) bs) w')"
  by pat_completeness auto
termination
proof (relation "measures [\<lambda>(bs, w). length bs, \<lambda>(bs, w). if wr_failed w then 0 else length (wr_buffer w) + 1]", goal_cases)
  case (2 bs w r w')
  then show ?case using Flush_empties [of "w\<lparr>wr_buffer := wr_buffer w @ take (available w) bs\<rparr>" r w'] by auto
qed simp

declare buf_Write.simps [simp del]

text \<open>\<open>Write\<close> on a stream with or without a buffer.\<close>

definition Write :: "byte list \<Rightarrow> byte_writer \<Rightarrow> unit res \<times> byte_writer" where
  "Write bs w =
     (if wr_size w = 0 then
        (case conn_Write bs w of (True, w') \<Rightarrow> (Inr (), w') | (False, w') \<Rightarrow> (Inl write_error, w'))
      else buf_Write bs w)"

text \<open>On a connection that works nothing is lost or reordered: what the connection has taken and what is
  buffered, one after the other, grows by what is written, and a flush hands out the rest.\<close>

definition works :: "byte_writer \<Rightarrow> bool" where
  "works w \<longleftrightarrow> \<not> wr_broken w \<and> \<not> wr_failed w \<and> (wr_size w = 0 \<longrightarrow> wr_buffer w = [])"

definition written :: "byte_writer \<Rightarrow> byte list" where
  "written w = wr_out w @ wr_buffer w"

lemma Flush_works:
  "works w \<Longrightarrow> Flush w = (Inr (), w\<lparr>wr_out := written w, wr_buffer := []\<rparr>)"
  by (auto simp: Flush_def conn_Write_def works_def written_def)

lemma buf_Write_works:
  "works w \<Longrightarrow> 0 < wr_size w \<Longrightarrow> \<exists>w'. buf_Write bs w = (Inr (), w') \<and> works w' \<and> wr_size w' = wr_size w \<and> written w' = written w @ bs"
proof (induction bs w rule: buf_Write.induct)
  case (1 bs w)
  let ?w = "w\<lparr>wr_buffer := wr_buffer w @ take (available w) bs\<rparr>"
  consider (fits) "length bs \<le> available w" | (direct) "\<not> length bs \<le> available w" "wr_buffer w = []"
    | (flush) "\<not> length bs \<le> available w" "wr_buffer w \<noteq> []" by blast
  then show ?case
  proof cases
    case flush
    have f: "Flush ?w = (Inr (), ?w\<lparr>wr_out := written ?w, wr_buffer := []\<rparr>)"
      using 1(2,3) by (intro Flush_works) (simp add: works_def)
    have "\<not> wr_failed w" using 1(2) by (simp add: works_def)
    from 1(1) [OF this flush f [symmetric]] 1(2,3) flush show ?thesis
      by (subst buf_Write.simps) (auto simp: f works_def written_def)
  qed (use 1(2,3) in \<open>subst buf_Write.simps; auto simp: works_def written_def conn_Write_def\<close>)+
qed

lemma Write_works:
  assumes "works w"
  obtains w' where "Write bs w = (Inr (), w')" and "works w'" and "wr_size w' = wr_size w" and "written w' = written w @ bs"
proof (cases "wr_size w = 0")
  case True
  then have "Write bs w = (Inr (), w\<lparr>wr_out := wr_out w @ bs\<rparr>)"
    using assms by (simp add: Write_def conn_Write_def works_def)
  then show thesis by (rule that) (use assms True in \<open>simp_all add: works_def written_def\<close>)
next
  case False
  then show thesis using buf_Write_works [OF assms, of bs] that by (auto simp: Write_def)
qed

end
