(* ===== verification/Stream_Codecs.thy ===== *)
theory Stream_Codecs
  imports Go_Streams Secs_Codec
begin

text \<open>
  The codecs of \<open>codec/\<close> as the protocols they are, wrappers around each other: \<open>byte.go\<close>, \<open>secs2.go\<close> as a
  program of reads, \<open>fixlen.go\<close> and \<open>bufio.go\<close>. A codec (\<open>link.Codec\<close>) is what its \<open>Receive\<close> reads and what its
  \<open>Send\<close> writes: every \<open>Send\<close> of the package makes one write. The state \<open>'b\<close> is what the codec keeps between
  messages. The connection of the real program is read through \<open>bufio.go\<close>.
\<close>

section \<open>Codecs\<close>

record ('s, 'm, 'b) codec =
  cd_receive :: "'b \<Rightarrow> ('m res \<times> 'b) go reading"
  cd_send :: "'s \<Rightarrow> byte list res"

definition eof_error :: go_error where
  "eof_error = Err ''EOF''"

text \<open>\<open>Close\<close> of a codec: it closes what it reads from when that can be closed (\<open>Some open\<close>).\<close>

definition closer_Close :: "bool option \<Rightarrow> unit res \<times> bool option" where
  "closer_Close c = (case c of
      None \<Rightarrow> (Inr (), None)
    | Some open_conn \<Rightarrow> (if open_conn then Inr () else Inl (Err ''use of closed network connection''), Some False))"

subsection \<open>\<open>byte.go\<close>\<close>

text \<open>One read of at most 4092 bytes is a message. \<open>Send\<close> takes any Go value; \<open>None\<close> is one that is no byte slice.\<close>

definition byteCodec :: "(byte list option, byte list, unit) codec" where
  "byteCodec = \<lparr>
     cd_receive = \<lambda>_. Once 4092 (\<lambda>bs eof. Done (Inr (if eof then Inl eof_error else Inr bs, ()))),
     cd_send = \<lambda>msg. case msg of None \<Rightarrow> Inl (Err ''Send Byte Format Error'') | Some b \<Rightarrow> Inr b\<rparr>"

subsection \<open>\<open>secs2.go\<close>\<close>

definition secs_receive :: "byte list \<Rightarrow> (hsms_message res \<times> byte list) go reading" where
  "secs_receive bodyBuf = Full 4 (\<lambda>headBuf ok.
     if \<not> ok then Done (Inr (Inl (read_error headBuf), bodyBuf))
     else let msgLength = be_uint headBuf in
       if msgLength < 10 then Done (Inr (Inl (Err ''message format error''), bodyBuf))
       else let required = msgLength + 4; buf1 = copy_into (grow_bodyBuf bodyBuf required) 0 headBuf in
         Full msgLength (\<lambda>body ok. let buf2 = copy_into buf1 4 body in
           if \<not> ok then Done (Inr (Inl (read_error body), buf2))
           else Done (Inr (case Parse \<lparr>buf_len = take required buf2, buf_spare = drop required buf2\<rparr> of
               (Some msg, True) \<Rightarrow> Inr msg | _ \<Rightarrow> Inl (Err ''message parsing error''), buf2))))"

definition secsIICodec :: "(byte list option, hsms_message, byte list) codec" where
  "secsIICodec = \<lparr>cd_receive = secs_receive,
     cd_send = \<lambda>msg. case msg of None \<Rightarrow> Inl (Err ''message format error'') | Some b \<Rightarrow> Inr b\<rparr>"

subsection \<open>\<open>fixlen.go\<close>\<close>

datatype byte_order = BigEndian | LittleEndian

record fixlen =
  fx_n :: nat
  fx_order :: byte_order
  fx_maxRecv :: int
  fx_maxSend :: int

definition FixLen :: "nat \<Rightarrow> byte_order \<Rightarrow> int \<Rightarrow> int \<Rightarrow> fixlen go" where
  "FixLen n byteOrder maxRecv maxSend =
     (let proto = \<lambda>recv snd. Inr \<lparr>fx_n = n, fx_order = byteOrder, fx_maxRecv = recv, fx_maxSend = snd\<rparr> in
      if n = 1 then proto (min maxRecv 255) (min maxSend 255)
      else if n = 2 then proto (min maxRecv 65535) (min maxSend 65535)
      else if n = 4 then proto (min maxRecv 4294967295) (min maxSend 4294967295)
      else if n = 8 then proto maxRecv maxSend
      else Inl (Panic ''FixLenProtocol: unsupported head size''))"

text \<open>The length in the header, an \<open>int\<close> of 64 bits.\<close>

definition in_order :: "byte_order \<Rightarrow> byte list \<Rightarrow> byte list" where
  "in_order byteOrder bs = (case byteOrder of BigEndian \<Rightarrow> bs | LittleEndian \<Rightarrow> rev bs)"

definition headDecoder :: "fixlen \<Rightarrow> byte list \<Rightarrow> int" where
  "headDecoder p b = sint (word_of_nat (be_uint (in_order (fx_order p) b)) :: 64 word)"

definition headEncoder :: "fixlen \<Rightarrow> int \<Rightarrow> byte list" where
  "headEncoder p msg_size = in_order (fx_order p) (be_bytes (fx_n p) (word_of_int msg_size))"

text \<open>The state is that of the base codec and the capacity of \<open>bodyBuf\<close>. The base codec reads the body from
  memory and writes to memory; what it leaves unread is dropped.\<close>

definition fixlen_receive ::
  "fixlen \<Rightarrow> ('s, 'm, 'b) codec \<Rightarrow> 'b \<times> int \<Rightarrow> ('m res \<times> 'b \<times> int) go reading" where
  "fixlen_receive p base st = (case st of (b, capacity) \<Rightarrow>
     Full (fx_n p) (\<lambda>headBuf ok.
       if \<not> ok then Done (Inr (Inl (read_error headBuf), b, capacity))
       else let msg_size = headDecoder p headBuf in
         if fx_maxRecv p < msg_size then Done (Inr (Inl (Err ''Too Large Packet''), b, capacity))
         else if msg_size < 0 then Done (Inl (Panic ''slice bounds out of range''))
         else let capacity' = (if capacity < msg_size then msg_size + 128 else capacity) in
           Full (nat msg_size) (\<lambda>buff ok.
             if \<not> ok then Done (Inr (Inl (read_error buff), b, capacity'))
             else Done (go_bind (fst (run_bytes (cd_receive base b) buff)) (\<lambda>(r, b'). Inr (r, b', capacity'))))))"

definition fixlen_send :: "fixlen \<Rightarrow> ('s, 'm, 'b) codec \<Rightarrow> 's \<Rightarrow> byte list res" where
  "fixlen_send p base msg = (case cd_send base msg of
      Inl e \<Rightarrow> Inl e
    | Inr bs \<Rightarrow> Inr (headEncoder p (int (length bs)) @ bs))"

definition fixlenCodec :: "fixlen \<Rightarrow> ('s, 'm, 'b) codec \<Rightarrow> ('s, 'm, 'b \<times> int) codec" where
  "fixlenCodec p base = \<lparr>cd_receive = fixlen_receive p base, cd_send = fixlen_send p base\<rparr>"

subsection \<open>\<open>bufio.go\<close>\<close>

text \<open>The codec with its stream: reader, writer, closer and, on a connection that has them, the read and
  write deadlines.\<close>

record 'b bufio_codec =
  bc_base :: 'b
  bc_reader :: byte_reader
  bc_writer :: byte_writer
  bc_closer :: "bool option"
  bc_deadline :: "(int option \<times> int option) option"

definition bufio_NewCodec :: "int \<Rightarrow> int \<Rightarrow> 'b res \<Rightarrow> byte list list \<Rightarrow> bool option \<Rightarrow>
  (int option \<times> int option) option \<Rightarrow> 'b bufio_codec res" where
  "bufio_NewCodec readBuf writeBuf base chunks closer deadline = (case base of
      Inl e \<Rightarrow> Inl e
    | Inr b \<Rightarrow> Inr \<lparr>bc_base = b,
        bc_reader = (if 0 < readBuf then NewReaderSize (nat readBuf) chunks else direct_reader chunks),
        bc_writer = \<lparr>wr_out = [], wr_broken = False, wr_buffer = [],
          wr_size = (if 0 < writeBuf then nat writeBuf else 0), wr_failed = False\<rparr>,
        bc_closer = closer, bc_deadline = deadline\<rparr>)"

definition stream_Flush :: "byte_writer \<Rightarrow> unit res \<times> byte_writer" where
  "stream_Flush w = (if 0 < wr_size w then Flush w else (Inr (), w))"

definition bufio_Send :: "('s, 'm, 'b) codec \<Rightarrow> 's \<Rightarrow> 'b bufio_codec \<Rightarrow> unit res \<times> 'b bufio_codec" where
  "bufio_Send base msg c = (case cd_send base msg of
      Inl e \<Rightarrow> (Inl e, c)
    | Inr bs \<Rightarrow> (case Write bs (bc_writer c) of
          (Inl e, w) \<Rightarrow> (Inl e, c\<lparr>bc_writer := w\<rparr>)
        | (Inr _, w) \<Rightarrow> (case stream_Flush w of (r, w') \<Rightarrow> (r, c\<lparr>bc_writer := w'\<rparr>))))"

definition bufio_Receive :: "('s, 'm, 'b) codec \<Rightarrow> 'b bufio_codec \<Rightarrow> ('m res \<times> 'b bufio_codec) go" where
  "bufio_Receive base c = (case run (cd_receive base (bc_base c)) (bc_reader c) of
      (out, rd) \<Rightarrow> go_bind out (\<lambda>(r, b). Inr (r, c\<lparr>bc_base := b, bc_reader := rd\<rparr>)))"

text \<open>The base codec reads from the stream, which has no \<open>Close\<close> of its own.\<close>

definition bufio_Close :: "'b bufio_codec \<Rightarrow> unit res \<times> 'b bufio_codec" where
  "bufio_Close c = (case closer_Close None of (err1, _) \<Rightarrow> case closer_Close (bc_closer c) of (err2, closer) \<Rightarrow>
     (case err1 of Inl e \<Rightarrow> Inl e | Inr _ \<Rightarrow> err2, c\<lparr>bc_closer := closer\<rparr>))"

definition SetReadDeadline :: "int \<Rightarrow> 'b bufio_codec \<Rightarrow> 'b bufio_codec" where
  "SetReadDeadline t c = c\<lparr>bc_deadline := map_option (\<lambda>(r, w). (Some t, w)) (bc_deadline c)\<rparr>"

definition SetWriteDeadline :: "int \<Rightarrow> 'b bufio_codec \<Rightarrow> 'b bufio_codec" where
  "SetWriteDeadline t c = c\<lparr>bc_deadline := map_option (\<lambda>(r, w). (r, Some t)) (bc_deadline c)\<rparr>"

definition SetDeadline :: "int \<Rightarrow> 'b bufio_codec \<Rightarrow> 'b bufio_codec" where
  "SetDeadline t c = c\<lparr>bc_deadline := map_option (\<lambda>_. (Some t, Some t)) (bc_deadline c)\<rparr>"

end
