(* ===== verification/Stream_Properties.thy ===== *)
theory Stream_Properties
  imports Stream_Codecs
begin

text \<open>
  The properties of the codec wrappers. The buffered codec over a connection behaves as the codec on bytes of
  \<open>Secs_Codec\<close>, in which the properties of the codec are stated, whatever its buffer sizes and however the bytes
  arrive. The length-prefixed codec carries the messages of any codec that meets the contract
  \<open>message_codec\<close>; the contract is interpreted on \<open>byte.go\<close> and \<open>secs2.go\<close>.
\<close>

section \<open>The buffered codec\<close>

lemma full_only_secs: "full_only (secs_receive buf)"
  by (simp add: secs_receive_def Let_def)

text \<open>The state of the byte-level codec that a buffered codec stands for.\<close>

definition flat :: "byte list bufio_codec \<Rightarrow> codec_state" where
  "flat c = \<lparr>cs_input = pending (bc_reader c), cs_output = wr_out (bc_writer c), cs_bodyBuf = bc_base c\<rparr>"

definition idle :: "byte_writer \<Rightarrow> bool" where
  "idle w \<longleftrightarrow> works w \<and> wr_buffer w = []"

lemma Receive_secs:
  "Receive c = (case run_bytes (secs_receive (cs_bodyBuf c)) (cs_input c) of
     (out, rest) \<Rightarrow> (case out of Inl e \<Rightarrow> undefined | Inr (r, buf) \<Rightarrow> (r, c\<lparr>cs_input := rest, cs_bodyBuf := buf\<rparr>)))"
  by (auto simp: Receive_def secs_receive_def ReadFull_def bytes_ReadFull_def Let_def
      split: option.splits prod.splits bool.splits)

lemma secs_no_panic: "\<exists>r buf rest. run_bytes (secs_receive b) s = (Inr (r, buf), rest)"
  by (auto simp: secs_receive_def bytes_ReadFull_def Let_def)

lemma bufio_Receive_flat:
  "\<exists>r c'. bufio_Receive secsIICodec c = Inr (r, c') \<and> Receive (flat c) = (r, flat c') \<and> bc_writer c' = bc_writer c"
proof -
  obtain r buf rest where b: "run_bytes (secs_receive (bc_base c)) (pending (bc_reader c)) = (Inr (r, buf), rest)"
    using secs_no_panic by blast
  then have "fst (run (secs_receive (bc_base c)) (bc_reader c)) = Inr (r, buf)"
    "pending (snd (run (secs_receive (bc_base c)) (bc_reader c))) = rest"
    using run_full_only [OF full_only_secs] by simp_all
  then obtain rd where "run (secs_receive (bc_base c)) (bc_reader c) = (Inr (r, buf), rd)" "pending rd = rest"
    by (metis prod.collapse)
  then have "bufio_Receive secsIICodec c = Inr (r, c\<lparr>bc_base := buf, bc_reader := rd\<rparr>)"
    "Receive (flat c) = (r, flat (c\<lparr>bc_base := buf, bc_reader := rd\<rparr>))"
    using b by (simp_all add: bufio_Receive_def secsIICodec_def Receive_secs flat_def)
  then show ?thesis by auto
qed

lemma bufio_Send_flat:
  assumes "idle (bc_writer c)"
  shows "\<exists>r c'. bufio_Send secsIICodec msg c = (r, c') \<and> Send msg (flat c) = (r, flat c') \<and> idle (bc_writer c')"
proof (cases msg)
  case None
  then show ?thesis using assms by (simp add: bufio_Send_def secsIICodec_def Send_def)
next
  case (Some bs)
  have w: "works (bc_writer c)" "wr_buffer (bc_writer c) = []" using assms by (simp_all add: idle_def)
  obtain w' where w': "Write bs (bc_writer c) = (Inr (), w')" "works w'" "wr_size w' = wr_size (bc_writer c)"
    "written w' = written (bc_writer c) @ bs" using w(1) by (rule Write_works)
  obtain w'' where "stream_Flush w' = (Inr (), w'')" "works w''" "wr_buffer w'' = []" "wr_out w'' = written w'"
  proof (cases "wr_size w' = 0")
    case True
    then have "wr_buffer w' = []" using w'(2) by (simp add: works_def)
    then show thesis using that [of w'] True w'(2) by (simp add: stream_Flush_def written_def)
  next
    case False
    then show thesis using that Flush_works [OF w'(2)] w'(2) by (simp add: stream_Flush_def works_def)
  qed
  then show ?thesis using w w' Some
    by (simp add: bufio_Send_def secsIICodec_def Send_def flat_def idle_def written_def)
qed

text \<open>What a run of receives and sends returns, and what is on the wire in the end.\<close>

datatype link_op = Receiving | Sending "byte list option"
datatype link_result = Received "hsms_message res" | Sent "unit res"

fun bufio_trace :: "link_op list \<Rightarrow> byte list bufio_codec \<Rightarrow> (link_result list \<times> byte list) go" where
  "bufio_trace [] c = Inr ([], wr_out (bc_writer c))"
| "bufio_trace (Receiving # ops) c = go_bind (bufio_Receive secsIICodec c) (\<lambda>(r, c').
     go_bind (bufio_trace ops c') (\<lambda>(rs, wire). Inr (Received r # rs, wire)))"
| "bufio_trace (Sending msg # ops) c = (case bufio_Send secsIICodec msg c of (r, c') \<Rightarrow>
     go_bind (bufio_trace ops c') (\<lambda>(rs, wire). Inr (Sent r # rs, wire)))"

fun flat_trace :: "link_op list \<Rightarrow> codec_state \<Rightarrow> link_result list \<times> byte list" where
  "flat_trace [] c = ([], cs_output c)"
| "flat_trace (Receiving # ops) c = (case Receive c of (r, c') \<Rightarrow>
     case flat_trace ops c' of (rs, wire) \<Rightarrow> (Received r # rs, wire))"
| "flat_trace (Sending msg # ops) c = (case Send msg c of (r, c') \<Rightarrow>
     case flat_trace ops c' of (rs, wire) \<Rightarrow> (Sent r # rs, wire))"

lemma trace_flat: "idle (bc_writer c) \<Longrightarrow> bufio_trace ops c = Inr (flat_trace ops (flat c))"
proof (induction ops arbitrary: c)
  case (Cons a ops)
  show ?case
  proof (cases a)
    case Receiving
    obtain r c' where "bufio_Receive secsIICodec c = Inr (r, c')" "Receive (flat c) = (r, flat c')" "bc_writer c' = bc_writer c"
      using bufio_Receive_flat by blast
    then show ?thesis using Receiving Cons.IH [of c'] Cons.prems by (simp split: prod.split)
  next
    case (Sending msg)
    obtain r c' where "bufio_Send secsIICodec msg c = (r, c')" "Send msg (flat c) = (r, flat c')" "idle (bc_writer c')"
      using bufio_Send_flat [OF Cons.prems] by blast
    then show ?thesis using Sending Cons.IH [of c'] by (simp split: prod.split)
  qed
qed (simp add: flat_def)

text \<open>Claim C9. The codec of the connections, \<open>Bufio(SECSII())\<close>, does what the codec on plain bytes does: whatever
  the sizes of its two buffers and however the bytes arrive from the network, every sequence of receives
  and sends returns the same messages and errors and leaves the same bytes on the wire, so buffering
  neither loses, reorders nor holds back anything.\<close>

theorem Bufio_refines:
  assumes "bufio_NewCodec readBuf writeBuf (Inr []) chunks closer deadline = Inr c"
  shows "bufio_trace ops c = Inr (flat_trace ops (new_codec (concat chunks)))"
proof -
  have "flat c = new_codec (concat chunks)" "idle (bc_writer c)"
    using assms by (auto simp: bufio_NewCodec_def flat_def new_codec_def pending_def NewReaderSize_def direct_reader_def
        idle_def works_def)
  then show ?thesis using trace_flat by simp
qed

definition linktest_bytes :: "byte list" where
  "linktest_bytes = [0, 0, 0, 10, 0xFF, 0xFF, 0, 0, 0, 5, 0, 0, 0, 1]"

lemma Bufio_refines_witness:
  "\<exists>c. bufio_NewCodec 5120 5120 (Inr []) [take 3 linktest_bytes, drop 3 linktest_bytes] (Some True) None = Inr c
     \<and> bufio_trace [Receiving, Sending (Some linktest_bytes), Receiving] c
       = Inr ([Received (Inr (CtrlMsg [0xFF, 0xFF, 0, 0, 0, 5, 0, 0, 0, 1])), Sent (Inr ()), Received (Inl eof_error)],
           linktest_bytes)"
proof -
  obtain c :: "byte list bufio_codec" where c: "bufio_NewCodec 5120 5120 (Inr []) [take 3 linktest_bytes, drop 3 linktest_bytes] (Some True) None = Inr c"
    by (simp add: bufio_NewCodec_def)
  have f: "flat_trace [Receiving, Sending (Some linktest_bytes), Receiving]
      (new_codec (concat [take 3 linktest_bytes, drop 3 linktest_bytes]))
    = ([Received (Inr (CtrlMsg [0xFF, 0xFF, 0, 0, 0, 5, 0, 0, 0, 1])), Sent (Inr ()), Received (Inl eof_error)], linktest_bytes)"
    by code_simp
  show ?thesis using c unfolding f [symmetric] by (intro exI [of _ c] conjI Bufio_refines)
qed

section \<open>The length-prefixed codec\<close>

text \<open>The contract of a codec that carries single messages in memory: what it reads from exactly the bytes
  it writes for a message is determined by the message (\<open>view\<close>), be it the message or an error. \<open>put\<close> is the
  value that is handed to \<open>Send\<close>.\<close>

locale message_codec =
  fixes base :: "('s, 'm, 'b) codec"
    and put :: "'p \<Rightarrow> 's"
    and encode :: "'p \<Rightarrow> byte list"
    and sound :: "'p \<Rightarrow> bool"
    and view :: "'p \<Rightarrow> 'm res"
  assumes send_one: "cd_send base (put m) = Inr (encode m)"
    and receive_one: "sound m \<Longrightarrow> \<exists>b'. fst (run_bytes (cd_receive base b) (encode m)) = Inr (view m, b')"

text \<open>A codec on bytes that arrive: its state, and the bytes not read yet.\<close>

definition plain_Receive :: "('s, 'm, 'b) codec \<Rightarrow> 'b \<times> byte list \<Rightarrow> 'm res go \<times> 'b \<times> byte list" where
  "plain_Receive cd st = (case run_bytes (cd_receive cd (fst st)) (snd st) of
      (Inl e, rest) \<Rightarrow> (Inl e, fst st, rest)
    | (Inr (r, b), rest) \<Rightarrow> (Inr r, b, rest))"

text \<open>What \<open>FixLen\<close> makes of its arguments.\<close>

definition fixlen_ok :: "fixlen \<Rightarrow> bool" where
  "fixlen_ok p \<longleftrightarrow> fx_n p \<in> {1, 2, 4, 8} \<and> fx_maxRecv p < 256 ^ fx_n p \<and> fx_maxRecv p < 2 ^ 63"

lemma FixLen_ok: "FixLen n byteOrder maxRecv maxSend = Inr p \<Longrightarrow> maxRecv < 2 ^ 63 \<Longrightarrow> fixlen_ok p"
  by (auto simp: FixLen_def fixlen_ok_def Let_def split: if_splits)

lemma in_order_twice [simp]: "in_order byteOrder (in_order byteOrder bs) = bs"
  by (simp add: in_order_def split: byte_order.split)

lemma length_headEncoder [simp]: "length (headEncoder p k) = fx_n p"
  by (simp add: headEncoder_def in_order_def split: byte_order.split)

text \<open>The header holds the length up to the size of its bytes.\<close>

lemma head_read: "headDecoder p (headEncoder p (int k)) = sint (word_of_nat (k mod 256 ^ fx_n p) :: 64 word)"
  if "fx_n p \<le> 8"
proof -
  have p: "(256 :: nat) ^ fx_n p = 2 ^ (8 * fx_n p)" by (simp add: power_mult)
  have "(256 :: nat) ^ fx_n p dvd 2 ^ 64"
    unfolding p by (rule le_imp_power_dvd) (use that in simp)
  then have "k mod 2 ^ 64 mod 256 ^ fx_n p = k mod 256 ^ fx_n p" by (rule mod_mod_cancel)
  then show ?thesis by (simp add: headDecoder_def headEncoder_def be_uint_be_bytes unat_of_nat)
qed

lemma head_read_small: "headDecoder p (headEncoder p (int k)) = int k"
  if "fixlen_ok p" and "int k \<le> fx_maxRecv p"
proof -
  have k: "k < 256 ^ fx_n p" "int k < 2 ^ 63" and n: "fx_n p \<le> 8" using that by (auto simp: fixlen_ok_def)
  have "sint (word_of_nat k :: 64 word) = int k"
    using k(2) by (simp add: signed_of_nat signed_take_bit_int_eq_self)
  then show ?thesis using k(1) by (simp add: head_read [OF n])
qed

definition frame_of :: "fixlen \<Rightarrow> byte list \<Rightarrow> byte list" where
  "frame_of p bs = headEncoder p (int (length bs)) @ bs"

text \<open>A length prefix carries the messages of a \<open>message_codec\<close> on a stream.\<close>

locale fixed_base = message_codec +
  fixes p :: fixlen
begin

lemma fixlen_receive_one:
  assumes "sound m" and "fixlen_ok p" and "int (length (encode m)) \<le> fx_maxRecv p"
    and "snd st = frame_of p (encode m) @ rest"
  shows "fst (plain_Receive (fixlenCodec p base) st) = Inr (view m)
    \<and> snd (snd (plain_Receive (fixlenCodec p base) st)) = rest"
proof -
  obtain b capacity where b: "fst st = (b, capacity)" by (cases "fst st")
  obtain b' where r: "fst (run_bytes (cd_receive base b) (encode m)) = Inr (view m, b')"
    using receive_one [OF assms(1)] by blast
  show ?thesis
    using assms(4) r head_read_small [OF assms(2,3)] assms(3)
    by (simp add: plain_Receive_def fixlenCodec_def fixlen_receive_def b frame_of_def bytes_ReadFull_def Let_def not_less)
qed

end

sublocale fixed_base \<subseteq> framed: framing "\<lambda>m. frame_of p (encode m)" "plain_Receive (fixlenCodec p base)" snd
  "\<lambda>m. sound m \<and> fixlen_ok p \<and> int (length (encode m)) \<le> fx_maxRecv p" "\<lambda>m. Inr (view m)"
proof (unfold_locales, goal_cases)
  case (1 m st rest)
  then show ?case by (intro fixlen_receive_one) simp_all
qed

text \<open>The byte codec reads once, at most 4092 bytes, and an empty message is the end of its input.\<close>

definition byte_view :: "byte list \<Rightarrow> byte list res" where
  "byte_view bs = (if bs = [] then Inl eof_error else Inr (take 4092 bs))"

lemma byte_view_simps [simp]:
  "byte_view [] = Inl eof_error"
  "bs \<noteq> [] \<Longrightarrow> length bs \<le> 4092 \<Longrightarrow> byte_view bs = Inr bs"
  by (simp_all add: byte_view_def)

interpretation byte_messages: message_codec byteCodec Some "\<lambda>bs. bs" "\<lambda>_. True" byte_view
  by unfold_locales (auto simp: byteCodec_def byte_view_def)

interpretation secs_messages: message_codec secsIICodec "\<lambda>m. Some (wire_bytes m)" wire_bytes transmissible "\<lambda>m. Inr (arrives_as m)"
proof
  fix m :: hsms_message and b :: "byte list"
  show "cd_send secsIICodec (Some (wire_bytes m)) = Inr (wire_bytes m)" by (simp add: secsIICodec_def)
  assume m: "transmissible m"
  let ?c = "\<lparr>cs_input = wire_bytes m, cs_output = [], cs_bodyBuf = b\<rparr>"
  obtain r buf rest where out: "run_bytes (secs_receive b) (wire_bytes m) = (Inr (r, buf), rest)"
    using secs_no_panic by blast
  then have "fst (Receive ?c) = r" by (simp add: Receive_secs)
  then have "r = Inr (arrives_as m)" using Receive_transmissible [OF m, of ?c "[]"] by simp
  with out show "\<exists>b'. fst (run_bytes (cd_receive secsIICodec b) (wire_bytes m)) = Inr (Inr (arrives_as m), b')"
    by (simp add: secsIICodec_def)
qed

interpretation fixed_bytes: fixed_base byteCodec Some "\<lambda>bs. bs" "\<lambda>_. True" byte_view p for p
  by unfold_locales

interpretation fixed_secs: fixed_base secsIICodec "\<lambda>m. Some (wire_bytes m)" wire_bytes transmissible "\<lambda>m. Inr (arrives_as m)" p for p
  by unfold_locales

text \<open>Several messages sent and received.\<close>

fun sent_all :: "('s, 'm, 'b) codec \<Rightarrow> 's list \<Rightarrow> byte list res" where
  "sent_all cd [] = Inr []"
| "sent_all cd (m # ms) = (case cd_send cd m of
      Inl e \<Rightarrow> Inl e
    | Inr bs \<Rightarrow> (case sent_all cd ms of Inl e \<Rightarrow> Inl e | Inr wire \<Rightarrow> Inr (bs @ wire)))"

fun receive_times :: "('s, 'm, 'b) codec \<Rightarrow> nat \<Rightarrow> 'b \<times> byte list \<Rightarrow> 'm res go list \<times> 'b \<times> byte list" where
  "receive_times cd 0 st = ([], st)"
| "receive_times cd (Suc n) st = (case plain_Receive cd st of (r, st') \<Rightarrow>
     case receive_times cd n st' of (rs, st'') \<Rightarrow> (r # rs, st''))"

lemma received_framing: "receive_times (fixlenCodec p byteCodec) n st = fixed_bytes.framed.receive_all p n st"
  by (induction n arbitrary: st) (auto split: prod.split)

lemma sent_all_bytes: "sent_all (fixlenCodec p byteCodec) (map Some msgs) = Inr (concat (map (frame_of p) msgs))"
  by (induction msgs) (simp_all add: fixlenCodec_def fixlen_send_def byteCodec_def frame_of_def)

text \<open>Claim C28. A length prefix of 1, 2, 4 or 8 bytes in either byte order keeps the messages of a stream
  apart: every byte message within the receive limit, whatever its length, is received one by one and in
  order, and the receiver stands at the byte behind the last of them. What is received is the message
  itself when it has 1 to 4092 bytes; a longer one is cut to its first 4092 bytes, since the byte codec
  reads its body once, and an empty one is received as the error EOF.\<close>

theorem fixlen_stream:
  assumes "FixLen n byteOrder maxRecv maxSend = Inr p" and "maxRecv < 2 ^ 63"
    and "\<forall>m \<in> set msgs. int (length m) \<le> fx_maxRecv p"
    and "sent_all (fixlenCodec p byteCodec) (map Some msgs) = Inr wire"
  shows "fst (receive_times (fixlenCodec p byteCodec) (length msgs) (st, wire @ rest))
      = map (\<lambda>m. Inr (if m = [] then Inl eof_error else Inr (take 4092 m))) msgs
    \<and> snd (snd (receive_times (fixlenCodec p byteCodec) (length msgs) (st, wire @ rest))) = rest"
proof -
  have "wire = concat (map (frame_of p) msgs)" using assms(4) by (simp add: sent_all_bytes)
  then show ?thesis
    using fixed_bytes.framed.receive_all_stream [of msgs p "(st, wire @ rest)" rest] FixLen_ok [OF assms(1,2)] assms(3)
    by (simp add: received_framing byte_view_def)
qed

lemma fixlen_stream_witness:
  "case FixLen 2 LittleEndian 65535 65535 of Inl _ \<Rightarrow> False | Inr p \<Rightarrow>
     \<exists>long wire. length long = 5000 \<and> sent_all (fixlenCodec p byteCodec) (map Some [[7, 8], long, [], [9]]) = Inr wire
       \<and> fst (receive_times (fixlenCodec p byteCodec) 4 (((), 0), wire @ [5]))
         = [Inr (Inr [7, 8]), Inr (Inr (take 4092 long)), Inr (Inl eof_error), Inr (Inr [9])]"
proof -
  obtain p where p: "FixLen 2 LittleEndian 65535 65535 = Inr p" by (simp add: FixLen_def)
  then have q: "fx_maxRecv p = 65535" by (auto simp: FixLen_def)
  obtain long :: "byte list" where long: "length long = 5000" using Ex_list_of_length by blast
  then have "long \<noteq> []" by auto
  obtain wire where w: "sent_all (fixlenCodec p byteCodec) (map Some [[7, 8], long, [], [9]]) = Inr wire"
    by (simp only: sent_all_bytes)
  have four: "4 = Suc (Suc (Suc (Suc 0)))" by simp
  from fixlen_stream [OF p _ _ w, where st = "((), 0)" and rest = "[5]"] \<open>long \<noteq> []\<close>
  have "fst (receive_times (fixlenCodec p byteCodec) 4 (((), 0), wire @ [5]))
      = [Inr (Inr [7, 8]), Inr (Inr (take 4092 long)), Inr (Inl eof_error), Inr (Inr [9])]"
    unfolding four by (simp add: q long del: receive_times.simps)
  then show ?thesis using p w long by auto
qed

text \<open>\<open>Send\<close> does not look at the send limit. A body too long for its prefix is announced with its length modulo
  the range of the prefix, and the reader takes the rest of it for the next messages.\<close>

theorem fixlen_send_wraps:
  assumes "cd_send base msg = Inr body" and "fx_n p \<in> {1, 2, 4}"
  shows "\<exists>head. fixlen_send p base msg = Inr (head @ body) \<and> length head = fx_n p
    \<and> headDecoder p head = int (length body mod 256 ^ fx_n p)"
proof -
  have "length body mod 256 ^ fx_n p < 2 ^ 63"
    by (rule less_le_trans [OF mod_less_divisor]) (use assms(2) in auto)
  then have "sint (word_of_nat (length body mod 256 ^ fx_n p) :: 64 word) = int (length body mod 256 ^ fx_n p)"
    by (simp add: signed_of_nat signed_take_bit_int_eq_self)
  then show ?thesis using assms by (auto simp: fixlen_send_def head_read)
qed

text \<open>A length of eight bytes may be negative; the slice for the body then panics.\<close>

theorem fixlen_negative_length_panics:
  "case FixLen 8 BigEndian 1024 1024 of Inl _ \<Rightarrow> False | Inr p \<Rightarrow>
     fst (plain_Receive (fixlenCodec p byteCodec) (((), 0), [0xFF, 0xFF, 0xFF, 0xFF, 0xFF, 0xFF, 0xFF, 0xFE]))
       = Inl (Panic ''slice bounds out of range'')"
  by code_simp

text \<open>The byte codec does not keep messages apart: what one \<open>Receive\<close> returns is one read of the connection.\<close>

theorem byte_codec_splits:
  "fst (run (cd_receive byteCodec ()) (direct_reader [[1, 2], [3]])) = Inr (Inr [1, 2], ())"
  by code_simp

end
