(* ===== verification/Link_Server.thy ===== *)
theory Link_Server
  imports Link_Session "HOL-Library.Sublist" "HOL-Library.Multiset"
begin

text \<open>
  Accepting and dialling connections, \<open>api.go\<close> and \<open>server.go\<close>. What the listener delivers is a list of
  outcomes in the order of the calls of its \<open>Accept\<close>; \<open>None\<close> is a call that does not return. The protocol of a
  server makes a codec of a connection or fails, a parameter; the handler of a server runs the
  application, so the model records the sessions handed to it. \<open>Serve\<close> is cut where it starts a goroutine per
  connection: \<open>serve_accept\<close> is one round of its loop and \<open>serve_conn\<close> the goroutine.
\<close>

section \<open>Accepting\<close>

type_synonym conn = nat

datatype accept_outcome =
    Accepted conn
  | Failed bool string

text \<open>\<open>Failed temporary text\<close>: a network error that may be temporary. Times are milliseconds.\<close>

definition next_delay :: "int \<Rightarrow> int" where
  "next_delay tempDelay = min (if tempDelay = 0 then 5 else tempDelay * 2) 1000"

definition accept_answer :: "accept_outcome \<Rightarrow> conn res" where
  "accept_answer x = (case x of
      Accepted c \<Rightarrow> Inr c
    | Failed _ text \<Rightarrow> Inl (Err (if sublist ''use of closed network connection'' text then ''EOF'' else text)))"

fun accept_loop :: "int \<Rightarrow> accept_outcome list \<Rightarrow> (conn res \<times> int list \<times> accept_outcome list) option" where
  "accept_loop tempDelay [] = None"
| "accept_loop tempDelay (x # l) = (case x of
      Failed True _ \<Rightarrow> (let d = next_delay tempDelay in
        map_option (\<lambda>(r, slept, l'). (r, d # slept, l')) (accept_loop d l))
    | _ \<Rightarrow> Some (accept_answer x, [], l))"

definition Accept :: "accept_outcome list \<Rightarrow> (conn res \<times> int list \<times> accept_outcome list) option" where
  "Accept l = accept_loop 0 l"

definition is_temporary :: "accept_outcome \<Rightarrow> bool" where
  "is_temporary x = (case x of Failed True _ \<Rightarrow> True | _ \<Rightarrow> False)"

lemma accept_loop_temporary:
  "is_temporary x \<Longrightarrow> accept_loop d (x # l)
     = map_option (\<lambda>(r, slept, l'). (r, next_delay d # slept, l')) (accept_loop (next_delay d) l)"
  by (auto simp: is_temporary_def Let_def split: accept_outcome.splits bool.splits)

lemma accept_loop_answer: "\<not> is_temporary x \<Longrightarrow> accept_loop d (x # l) = Some (accept_answer x, [], l)"
  by (auto simp: is_temporary_def split: accept_outcome.splits bool.splits)

declare accept_loop.simps(2) [simp del]

lemma next_delay_power: "next_delay (min (5 * 2 ^ k) 1000) = min (5 * 2 ^ Suc k) 1000"
  by (auto simp: next_delay_def min_def)

lemma accept_loop_run:
  assumes "\<forall>e \<in> set errs. is_temporary e" and "\<not> is_temporary x"
  shows "accept_loop (min (5 * 2 ^ k) 1000) (errs @ x # l)
    = Some (accept_answer x, map (\<lambda>i. min (5 * 2 ^ i) 1000) [Suc k..<Suc k + length errs], l)"
  using assms
proof (induction errs arbitrary: k)
  case (Cons e errs)
  have "accept_loop (min (5 * 2 ^ k) 1000) ((e # errs) @ x # l)
      = map_option (\<lambda>(r, slept, l'). (r, min (5 * 2 ^ Suc k) 1000 # slept, l'))
          (accept_loop (min (5 * 2 ^ Suc k) 1000) (errs @ x # l))"
    using Cons.prems(1) unfolding next_delay_power [symmetric] by (simp add: accept_loop_temporary)
  also have "\<dots> = Some (accept_answer x,
      min (5 * 2 ^ Suc k) 1000 # map (\<lambda>i. min (5 * 2 ^ i) 1000) [Suc (Suc k)..<Suc (Suc k) + length errs], l)"
    using Cons.prems by (subst Cons.IH) simp_all
  finally show ?case by (simp add: upt_conv_Cons del: upt_Suc)
qed (simp add: accept_loop_answer)

text \<open>\<open>Accept\<close> waits out temporary errors with doubling delays from 5 milliseconds up to a second, and answers
  with the first other outcome; it never returns a temporary error and never gives up.\<close>

theorem Accept_backs_off:
  assumes "\<forall>e \<in> set errs. is_temporary e" and "\<not> is_temporary x"
  shows "Accept (errs @ x # l) = Some (accept_answer x, map (\<lambda>i. min (5 * 2 ^ i) 1000) [0..<length errs], l)"
proof (cases errs)
  case Nil
  then show ?thesis using assms(2) by (simp add: Accept_def accept_loop_answer)
next
  case (Cons e es)
  have "Accept (errs @ x # l) = map_option (\<lambda>(r, slept, l'). (r, 5 # slept, l')) (accept_loop (min (5 * 2 ^ 0) 1000) (es @ x # l))"
    using assms(1) Cons by (simp add: Accept_def accept_loop_temporary next_delay_def)
  also have "\<dots> = Some (accept_answer x, 5 # map (\<lambda>i. min (5 * 2 ^ i) 1000) [1..<1 + length es], l)"
    using assms Cons by (subst accept_loop_run) simp_all
  finally show ?thesis using Cons by (simp add: upt_conv_Cons del: upt_Suc)
qed

section \<open>Dialling\<close>

text \<open>\<open>Dial\<close> and \<open>DialTimeout\<close> differ in the call of \<open>net\<close>, whose result is given. The last component lists the
  connections that are left open without a session.\<close>

definition Dial :: "conn res \<Rightarrow> (conn \<Rightarrow> 'c res) \<Rightarrow> nat \<Rightarrow> nat \<Rightarrow> (('m, 'c) session res \<times> nat) \<times> conn list" where
  "Dial dialled NewCodec sendChanSize globalSessionId = (case dialled of
      Inl e \<Rightarrow> ((Inl e, globalSessionId), [])
    | Inr c \<Rightarrow> (case NewCodec c of
          Inl e \<Rightarrow> ((Inl e, globalSessionId), [c])
        | Inr codec \<Rightarrow> ((Inr (newSession (globalSessionId + 1) codec sendChanSize), globalSessionId + 1), [])))"

section \<open>A server\<close>

record ('m, 'c) server =
  sv_listener :: "accept_outcome list"
  sv_manager :: manager
  sv_sendChanSize :: nat
  sv_globalSessionId :: nat
  sv_opening :: "conn list"
  sv_closed_conns :: "conn list"
  sv_handled :: "(conn \<times> ('m, 'c) session) list"

definition NewServer :: "accept_outcome list \<Rightarrow> nat \<Rightarrow> nat \<Rightarrow> ('m, 'c) server" where
  "NewServer listener sendChanSize globalSessionId =
     \<lparr>sv_listener = listener, sv_manager = NewManager, sv_sendChanSize = sendChanSize,
      sv_globalSessionId = globalSessionId, sv_opening = [], sv_closed_conns = [], sv_handled = []\<rparr>"

text \<open>\<open>Listen\<close>, given the result of \<open>net.Listen\<close>.\<close>

definition Listen :: "accept_outcome list res \<Rightarrow> nat \<Rightarrow> nat \<Rightarrow> ('m, 'c) server res" where
  "Listen listener sendChanSize globalSessionId = (case listener of
      Inl e \<Rightarrow> Inl e
    | Inr l \<Rightarrow> Inr (NewServer l sendChanSize globalSessionId))"

text \<open>What a connection becomes: it is closed when there is no codec for it, else it is handled in a session
  of the manager.\<close>

definition open_conn :: "(conn \<Rightarrow> 'c res) \<Rightarrow> conn \<Rightarrow> ('m, 'c) server \<Rightarrow> unit res \<times> ('m, 'c) server" where
  "open_conn NewCodec c sv = (case NewCodec c of
      Inl e \<Rightarrow> (Inl e, sv\<lparr>sv_closed_conns := sv_closed_conns sv @ [c]\<rparr>)
    | Inr codec \<Rightarrow>
        (case Manager_NewSession codec (sv_sendChanSize sv) (sv_globalSessionId sv) (sv_manager sv) of
          (session, sid, m) \<Rightarrow> (Inr (), sv\<lparr>sv_manager := m, sv_globalSessionId := sid,
            sv_handled := sv_handled sv @ [(c, session)]\<rparr>)))"

text \<open>One round of \<open>Serve\<close>: \<open>Some\<close> answer ends the loop. \<open>serve_conn\<close> is the goroutine of one connection.\<close>

definition serve_accept :: "('m, 'c) server \<Rightarrow> (go_error option \<times> ('m, 'c) server) option" where
  "serve_accept sv = (case Accept (sv_listener sv) of
      None \<Rightarrow> None
    | Some (Inl e, _, l) \<Rightarrow> Some (Some e, sv\<lparr>sv_listener := l\<rparr>)
    | Some (Inr c, _, l) \<Rightarrow> Some (None, sv\<lparr>sv_listener := l, sv_opening := sv_opening sv @ [c]\<rparr>))"

definition serve_conn :: "(conn \<Rightarrow> 'c res) \<Rightarrow> conn \<Rightarrow> ('m, 'c) server \<Rightarrow> ('m, 'c) server" where
  "serve_conn NewCodec c sv = snd (open_conn NewCodec c (sv\<lparr>sv_opening := remove1 c (sv_opening sv)\<rparr>))"

definition SingleServe :: "(conn \<Rightarrow> 'c res) \<Rightarrow> ('m, 'c) server \<Rightarrow> (unit res \<times> ('m, 'c) server) option" where
  "SingleServe NewCodec sv = (case Accept (sv_listener sv) of
      None \<Rightarrow> None
    | Some (Inl e, _, l) \<Rightarrow> Some (Inl e, sv\<lparr>sv_listener := l\<rparr>)
    | Some (Inr c, _, l) \<Rightarrow> Some (open_conn NewCodec c (sv\<lparr>sv_listener := l\<rparr>)))"

definition Server_GetSession :: "('m, 'c) server \<Rightarrow> nat \<Rightarrow> nat option" where
  "Server_GetSession sv sid = GetSession (sv_manager sv) sid"

text \<open>\<open>Stop\<close>: the closed listener answers every further \<open>Accept\<close> with an error.\<close>

definition closed_listener :: "accept_outcome" where
  "closed_listener = Failed False ''accept tcp: use of closed network connection''"

definition Stop :: "('m, 'c) server \<Rightarrow> ('m, 'c) server" where
  "Stop sv = sv\<lparr>sv_listener := [closed_listener], sv_manager := Dispose (sv_manager sv)\<rparr>"

section \<open>Every connection is accounted for\<close>

inductive serves :: "(conn \<Rightarrow> 'c res) \<Rightarrow> ('m, 'c) server \<Rightarrow> ('m, 'c) server \<Rightarrow> bool" for NewCodec where
  accepting: "serve_accept sv = Some (r, sv') \<Longrightarrow> serves NewCodec sv sv'"
| goroutine: "c \<in> set (sv_opening sv) \<Longrightarrow> serves NewCodec sv (serve_conn NewCodec c sv)"
| single: "SingleServe NewCodec sv = Some (r, sv') \<Longrightarrow> serves NewCodec sv sv'"
| leaving: "serves NewCodec sv (sv\<lparr>sv_manager := delSession sid (sv_manager sv)\<rparr>)"
| stopping: "serves NewCodec sv (Stop sv)"

text \<open>The connections still to come, opening, closed or handled.\<close>

definition to_come :: "accept_outcome list \<Rightarrow> conn list" where
  "to_come l = List.map_filter (\<lambda>x. case x of Accepted c \<Rightarrow> Some c | _ \<Rightarrow> None) l"

definition accounted :: "('m, 'c) server \<Rightarrow> conn list" where
  "accounted sv = sv_opening sv @ sv_closed_conns sv @ map fst (sv_handled sv)"

abbreviation handled_ids :: "('m, 'c) server \<Rightarrow> nat list" where
  "handled_ids sv \<equiv> map (ss_id \<circ> snd) (sv_handled sv)"

text \<open>Session ids are new, and every session the manager knows was handed to the handler.\<close>

definition server_ok :: "('m, 'c) server \<Rightarrow> bool" where
  "server_ok sv \<longleftrightarrow> manager_ok (sv_manager sv) \<and> distinct (handled_ids sv)
     \<and> (\<forall>sid \<in> set (handled_ids sv). sid \<le> sv_globalSessionId sv)
     \<and> (\<forall>sid. GetSession (sv_manager sv) sid \<noteq> None \<longrightarrow> sid \<in> set (handled_ids sv))"

lemma GetSession_Dispose: "GetSession (Dispose m) sid = GetSession m sid" if "shards_ok m"
proof -
  have "sh_sessions (shard_of sid (Dispose m)) = sh_sessions (shard_of sid m)"
    using that by (simp add: Dispose_def dispose_shards_conv shards_ok_def)
  then show ?thesis by (simp add: GetSession_def)
qed

lemma GetSession_put_any:
  assumes "shards_ok m" and "GetSession (putSession sid m) j \<noteq> None"
  shows "j = sid \<or> GetSession m j \<noteq> None"
proof (cases "sh_disposed (shard_of sid m)")
  case True
  then have "GetSession (putSession sid m) j = GetSession m j" by (simp add: GetSession_def mg_shards_put_disposed)
  then show ?thesis using assms(2) by simp
next
  case False
  then show ?thesis using GetSession_put [OF assms(1) False, of j] assms(2) by (simp split: if_splits)
qed

lemma open_conn_ok:
  assumes "server_ok sv"
  shows "server_ok (snd (open_conn NewCodec c sv))"
proof (cases "NewCodec c")
  case (Inr codec)
  let ?sid = "sv_globalSessionId sv + 1" and ?m = "sv_manager sv"
  let ?sv = "sv\<lparr>sv_manager := putSession ?sid ?m, sv_globalSessionId := ?sid,
    sv_handled := sv_handled sv @ [(c, newSession ?sid codec (sv_sendChanSize sv))]\<rparr>"
  have m: "manager_ok ?m" "shards_ok ?m" using assms by (simp_all add: server_ok_def manager_ok_def)
  have new: "?sid \<notin> set (handled_ids sv)" using assms by (fastforce simp: server_ok_def)
  then have "GetSession ?m ?sid = None" using assms unfolding server_ok_def by blast
  then have "manager_ok (putSession ?sid ?m)" by (rule putSession_ok [OF m(1)])
  moreover have ids: "handled_ids ?sv = handled_ids sv @ [?sid]" by (simp add: newSession_def)
  moreover have "\<forall>j. GetSession (putSession ?sid ?m) j \<noteq> None \<longrightarrow> j \<in> set (handled_ids sv @ [?sid])"
    using GetSession_put_any [OF m(2)] assms unfolding server_ok_def by (metis UnCI list.set_intros(1) set_append)
  moreover have "\<forall>j \<in> set (handled_ids sv @ [?sid]). j \<le> ?sid" using assms by (fastforce simp: server_ok_def)
  moreover have "distinct (handled_ids sv @ [?sid])" using assms new by (simp add: server_ok_def)
  ultimately have "server_ok ?sv" unfolding server_ok_def ids by simp
  then show ?thesis by (simp add: open_conn_def Inr Manager_NewSession_def Let_def)
qed (use assms in \<open>simp add: open_conn_def server_ok_def\<close>)

lemma same_sessions_ok:
  assumes "server_ok sv" and "sv_manager sv' = sv_manager sv" and "sv_handled sv' = sv_handled sv"
    and "sv_globalSessionId sv' = sv_globalSessionId sv"
  shows "server_ok sv'"
  using assms by (simp add: server_ok_def)

lemma serves_ok: "serves NewCodec sv sv' \<Longrightarrow> server_ok sv \<Longrightarrow> server_ok sv'"
proof (induction rule: serves.induct)
  case (accepting sv r sv')
  then show ?case by (auto simp: serve_accept_def split: option.splits sum.splits prod.splits intro: same_sessions_ok)
next
  case (goroutine c sv)
  have "server_ok (sv\<lparr>sv_opening := remove1 c (sv_opening sv)\<rparr>)" by (rule same_sessions_ok [OF goroutine(2)]) simp_all
  then show ?case unfolding serve_conn_def by (rule open_conn_ok)
next
  case (single sv r sv')
  then obtain slept l x where a: "Accept (sv_listener sv) = Some (x, slept, l)"
    by (auto simp: SingleServe_def split: option.splits)
  have l: "server_ok (sv\<lparr>sv_listener := l\<rparr>)" by (rule same_sessions_ok [OF single(2)]) simp_all
  then show ?case using single(1) open_conn_ok [OF l] by (auto simp: SingleServe_def a split: sum.splits) (metis snd_conv)
next
  case (leaving sv sid)
  have "shards_ok (sv_manager sv)" using leaving by (simp add: server_ok_def manager_ok_def)
  then show ?case using leaving delSession_ok GetSession_del by (auto simp: server_ok_def split: if_splits)
next
  case (stopping sv)
  have "shards_ok (sv_manager sv)" using stopping by (simp add: server_ok_def manager_ok_def)
  then show ?case using stopping Dispose_ok GetSession_Dispose by (simp add: server_ok_def Stop_def)
qed

text \<open>No connection is made up, lost or taken twice: each one the listener delivered is in one place.\<close>

lemma to_come_simps [simp]:
  "to_come [] = []" "to_come (Accepted c # l) = c # to_come l" "to_come (Failed t e # l) = to_come l"
  by (simp_all add: to_come_def map_filter_simps)

lemma accept_loop_to_come:
  "accept_loop d l = Some (r, slept, l') \<Longrightarrow> to_come l = (case r of Inr c \<Rightarrow> c # to_come l' | Inl e \<Rightarrow> to_come l')"
proof (induction l arbitrary: d slept)
  case (Cons x l)
  show ?case
  proof (cases "is_temporary x")
    case True
    then have "to_come (x # l) = to_come l" by (auto simp: is_temporary_def split: accept_outcome.splits)
    then show ?thesis using Cons True by (auto simp: accept_loop_temporary)
  next
    case False
    then show ?thesis using Cons.prems
      by (auto simp: accept_loop_answer accept_answer_def is_temporary_def split: accept_outcome.splits)
  qed
qed simp

definition tally :: "('m, 'c) server \<Rightarrow> conn multiset" where
  "tally sv = mset (accounted sv) + mset (to_come (sv_listener sv))"

lemma open_conn_tally: "tally (snd (open_conn NewCodec c sv)) = add_mset c (tally sv)"
  by (simp add: open_conn_def tally_def accounted_def Manager_NewSession_def Let_def split: sum.split)

lemma tally_fields:
  "tally (sv\<lparr>sv_opening := cs\<rparr>) + mset (sv_opening sv) = tally sv + mset cs"
  "tally (sv\<lparr>sv_listener := l\<rparr>) + mset (to_come (sv_listener sv)) = tally sv + mset (to_come l)"
  "tally (sv\<lparr>sv_manager := m\<rparr>) = tally sv"
  by (simp_all add: tally_def accounted_def)

lemma serves_tally: "serves NewCodec sv sv' \<Longrightarrow> tally sv' \<subseteq># tally sv"
proof (induction rule: serves.induct)
  case (accepting sv r sv')
  then show ?case using accept_loop_to_come [of 0 "sv_listener sv"]
    by (auto simp: serve_accept_def Accept_def tally_def accounted_def split: option.splits sum.splits prod.splits)
next
  case (goroutine c sv)
  have "tally (sv\<lparr>sv_opening := remove1 c (sv_opening sv)\<rparr>) + {#c#} = tally sv"
    using goroutine by (simp add: tally_def accounted_def)
  then show ?case by (simp add: serve_conn_def open_conn_tally)
next
  case (single sv r sv')
  then obtain slept l x where a: "Accept (sv_listener sv) = Some (x, slept, l)"
    by (auto simp: SingleServe_def split: option.splits)
  then have t: "to_come (sv_listener sv) = (case x of Inr c \<Rightarrow> c # to_come l | Inl e \<Rightarrow> to_come l)"
    unfolding Accept_def by (rule accept_loop_to_come)
  show ?case
  proof (cases x)
    case (Inr c)
    then have "sv' = snd (open_conn NewCodec c (sv\<lparr>sv_listener := l\<rparr>))"
      using single by (auto simp: SingleServe_def a)
    then show ?thesis using t Inr by (simp add: open_conn_tally) (simp add: tally_def accounted_def)
  qed (use single t in \<open>auto simp: SingleServe_def a tally_def accounted_def\<close>)
qed (auto simp: tally_def accounted_def Stop_def closed_listener_def)

text \<open>Claim C27. A server takes care of each connection once: in every state it can reach, from accepting, the
  goroutines of the connections, sessions that leave and a stop, in any order, every connection it has is
  one the listener delivered, and is either about to be opened, or closed because no codec could be made
  for it, or handed to the handler in a session; session ids are never used twice, and the manager's
  counter is the number of its sessions, all of them handled.\<close>

theorem server_accounts:
  assumes "(serves NewCodec)\<^sup>*\<^sup>* (NewServer l sendChanSize gid) sv"
  shows "server_ok sv \<and> mset (accounted sv) \<subseteq># mset (to_come l)"
proof -
  have "server_ok sv \<and> tally sv \<subseteq># mset (to_come l)"
    using assms
  proof (induction rule: rtranclp_induct)
    case base
    have "GetSession NewManager sid = None" for sid by (simp add: GetSession_def NewManager_def)
    then show ?case by (simp add: server_ok_def NewServer_def NewManager_ok tally_def accounted_def)
  next
    case (step sv sv')
    then show ?case using serves_ok serves_tally subset_mset.order_trans by blast
  qed
  moreover have "mset (accounted sv) \<subseteq># tally sv" by (simp add: tally_def)
  ultimately show ?thesis using subset_mset.order_trans by blast
qed

lemma server_accounts_witness:
  "\<exists>sv :: (nat, nat) server. (serves (\<lambda>c. if c = 7 then Inl (Err ''no codec'') else Inr c))\<^sup>*\<^sup>* (NewServer [Accepted 7, Failed True ''busy'', Accepted 8] 0 0) sv
     \<and> sv_closed_conns sv = [7] \<and> map fst (sv_handled sv) = [8] \<and> server_ok sv"
proof -
  let ?N = "\<lambda>c :: nat. if c = 7 then Inl (Err ''no codec'') else Inr c"
  let ?sv0 = "NewServer [Accepted 7, Failed True ''busy'', Accepted 8] 0 0 :: (nat, nat) server"
  let ?sv1 = "?sv0\<lparr>sv_listener := [Failed True ''busy'', Accepted 8], sv_opening := [7]\<rparr>"
  let ?sv2 = "?sv0\<lparr>sv_listener := [], sv_opening := [7, 8]\<rparr>"
  let ?sv3 = "serve_conn ?N 8 ?sv2"
  let ?sv4 = "serve_conn ?N 7 ?sv3"
  have "serve_accept ?sv0 = Some (None, ?sv1)" "serve_accept ?sv1 = Some (None, ?sv2)"
    by (simp_all add: serve_accept_def NewServer_def Accept_def accept_loop.simps accept_answer_def Let_def)
  then have "serves ?N ?sv0 ?sv1" "serves ?N ?sv1 ?sv2" by (auto intro: accepting)
  moreover have "8 \<in> set (sv_opening ?sv2)" "7 \<in> set (sv_opening ?sv3)"
    by (simp_all add: serve_conn_def open_conn_def Manager_NewSession_def Let_def)
  then have "serves ?N ?sv2 ?sv3" "serves ?N ?sv3 ?sv4" by (auto intro: goroutine)
  ultimately have r: "(serves ?N)\<^sup>*\<^sup>* ?sv0 ?sv4"
    by (meson rtranclp.rtrancl_refl rtranclp.rtrancl_into_rtrancl)
  have "sv_closed_conns ?sv4 = [7]" "map fst (sv_handled ?sv4) = [8]"
    by (simp_all add: serve_conn_def open_conn_def Manager_NewSession_def Let_def NewServer_def)
  from this conjunct1 [OF server_accounts [OF r]] r show ?thesis by (intro exI [of _ ?sv4] conjI)
qed

end
