(* ===== verification/Hsms_Logging.thy ===== *)
theory Hsms_Logging
  imports Hsms_Protocol Item_Print
begin

text \<open>
  The message log of the protocol, \<open>hsms/protocol.go\<close>: its configuration, also from the options in
  \<open>gem/config.go\<close>, and the text that is written for a
  data message and for a control message. The time stamp is an argument; what the writers have been given is
  kept as a list, one entry for each write. Type names to exclude are ASCII.
\<close>

section \<open>The configuration\<close>

datatype logging_mode = LoggingModeUnset | LoggingModeSML | LoggingModeBinary | LoggingModeBoth

text \<open>A writer is a number, standard error is 0.\<close>

record logging_config =
  lc_enabled :: bool
  lc_mode :: logging_mode
  lc_control :: bool
  lc_excluded :: "string list"
  lc_writer :: "nat option"

record message_log =
  ml_cfg :: logging_config
  ml_written :: "(nat \<times> string) list"

definition ToLower :: "string \<Rightarrow> string" where
  "ToLower s = map lower_char s"

definition is_blank :: "char \<Rightarrow> bool" where
  "is_blank c \<longleftrightarrow> c \<in> {CHR '' '', CHR 0x09, newline, CHR 0x0B, CHR 0x0C, CHR 0x0D}"

definition TrimSpace :: "string \<Rightarrow> string" where
  "TrimSpace s = rev (dropWhile is_blank (rev (dropWhile is_blank s)))"

definition normalized_types :: "string list \<Rightarrow> string list" where
  "normalized_types keys = filter (\<lambda>k. k \<noteq> []) (map (\<lambda>k. ToLower (TrimSpace k)) keys)"

definition ConfigureLogging :: "logging_config \<Rightarrow> message_log \<Rightarrow> message_log" where
  "ConfigureLogging cfg l =
     (let cfg1 = (if lc_enabled cfg
        then cfg\<lparr>lc_mode := (if lc_mode cfg = LoggingModeUnset then LoggingModeSML else lc_mode cfg),
                 lc_writer := (if lc_writer cfg = None then Some 0 else lc_writer cfg)\<rparr>
        else cfg\<lparr>lc_writer := None\<rparr>)
      in l\<lparr>ml_cfg := cfg1\<lparr>lc_excluded := normalized_types (lc_excluded cfg)\<rparr>\<rparr>)"

section \<open>Blocks of lines and bytes\<close>

text \<open>\<open>strings.Split\<close> at newlines and \<open>strings.Join\<close> with newlines.\<close>

fun split_lines :: "string \<Rightarrow> string list" where
  "split_lines [] = [[]]"
| "split_lines (c # s) = (if c = newline then [] # split_lines s
     else case split_lines s of [] \<Rightarrow> [[c]] | l # ls \<Rightarrow> (c # l) # ls)"

fun join_lines :: "string list \<Rightarrow> string" where
  "join_lines [] = []"
| "join_lines [l] = l"
| "join_lines (l # ls) = l @ newline # join_lines ls"

definition indentLines :: "string \<Rightarrow> string \<Rightarrow> string" where
  "indentLines str prefix =
     (let str' = (if str \<noteq> [] \<and> last str = newline then butlast str else str) in
      if str' = [] then [] else join_lines (map (\<lambda>l. prefix @ l) (split_lines str')))"

definition hex_byte :: "byte \<Rightarrow> string" where
  "hex_byte b = ToUpper (hex_pad 2 (unat b))"

definition hex_bytes :: "byte list \<Rightarrow> string" where
  "hex_bytes bs = concat (map hex_byte bs)"

fun hex_from :: "nat \<Rightarrow> byte list \<Rightarrow> string" where
  "hex_from i [] = []"
| "hex_from i (b # bs) =
     (if 0 < i then if i mod 16 = 0 then [newline] else if i mod 2 = 0 then '' '' else [] else [])
       @ hex_byte b @ hex_from (Suc i) bs"

definition formatHexBytes :: "byte list \<Rightarrow> string" where
  "formatHexBytes bs = hex_from 0 bs"

section \<open>The options of a GEM handler\<close>

text \<open>\<open>LoggingOptions\<close> of \<open>gem/config.go\<close>. The writer that rotates a log file is a package of its own: the
  parameter \<open>rotating\<close> gives the writer for the file, its limits and the compression.\<close>

record logging_options =
  lo_enabled :: bool
  lo_mode :: logging_mode
  lo_control :: bool
  lo_excluded :: "string list"
  lo_writer :: "nat option"
  lo_file :: string
  lo_max_size :: int
  lo_max_backups :: int
  lo_max_age :: int
  lo_compress :: bool

definition LoggingOptions_applyDefaults :: "logging_options \<Rightarrow> logging_options" where
  "LoggingOptions_applyDefaults opts =
     (if \<not> lo_enabled opts then opts
      else if lo_mode opts = LoggingModeUnset then opts\<lparr>lo_mode := LoggingModeSML\<rparr> else opts)"

definition toConfig ::
  "(string \<Rightarrow> int \<Rightarrow> int \<Rightarrow> int \<Rightarrow> bool \<Rightarrow> nat) \<Rightarrow> nat option \<Rightarrow> logging_options \<Rightarrow> logging_config" where
  "toConfig rotating defaultWriter opts =
     (let writer = (if lo_file opts \<noteq> []
        then Some (rotating (lo_file opts) (lo_max_size opts) (lo_max_backups opts) (lo_max_age opts) (lo_compress opts))
        else if lo_writer opts = None then defaultWriter else lo_writer opts)
      in \<lparr>lc_enabled = lo_enabled opts, lc_mode = lo_mode opts, lc_control = lo_control opts,
          lc_excluded = normalized_types (lo_excluded opts),
          lc_writer = (if writer = None then defaultWriter else writer)\<rparr>)"

section \<open>Logging\<close>

definition logs_sml :: "logging_config \<Rightarrow> bool" where
  "logs_sml cfg \<longleftrightarrow> lc_mode cfg \<in> {LoggingModeUnset, LoggingModeSML, LoggingModeBoth}"

definition logs_binary :: "logging_config \<Rightarrow> bool" where
  "logs_binary cfg \<longleftrightarrow> lc_mode cfg \<in> {LoggingModeBinary, LoggingModeBoth}"

definition log_write :: "string \<Rightarrow> message_log \<Rightarrow> message_log" where
  "log_write str l = (case lc_writer (ml_cfg l) of
      None \<Rightarrow> l
    | Some w \<Rightarrow> l\<lparr>ml_written := ml_written l @ [(w, str)]\<rparr>)"

definition log_header :: "string \<Rightarrow> string \<Rightarrow> data_message \<Rightarrow> string go" where
  "log_header timestamp direction m = go_bind (WaitBit m) (\<lambda>wait.
     Inr (timestamp @ '' ['' @ direction @ ''][DATA] S'' @ pad2 (dm_stream m) @ ''F'' @ pad2 (dm_function m)
       @ '' session='' @ dec (dm_sessionID m) @ '' wait='' @ ToUpper wait @ '' system='' @ hex_bytes (dm_systemBytes m)))"

definition log_block :: "string \<Rightarrow> string \<Rightarrow> string" where
  "log_block label str = ''    '' @ label @ '':'' @ [newline]
     @ (let block = indentLines str ''      '' in if block = [] then [] else block @ [newline])"

definition logDataMessage ::
  "(int \<Rightarrow> 64 word \<Rightarrow> string) \<Rightarrow> string \<Rightarrow> string \<Rightarrow> data_message \<Rightarrow> message_log \<Rightarrow> message_log go" where
  "logDataMessage ff timestamp direction m l =
     (let cfg = ml_cfg l in
      if \<not> lc_enabled cfg \<or> lc_writer cfg = None then Inr l
      else if \<not> logs_sml cfg \<and> \<not> logs_binary cfg then Inr l
      else go_bind (log_header timestamp direction m) (\<lambda>header.
        go_bind (if logs_binary cfg then DataMessage_ToBytes m else Inr []) (\<lambda>raw.
          Inr (log_write (header @ [newline]
            @ (if logs_sml cfg then log_block ''SML'' (DataMessage_String ff m) else [])
            @ (if raw \<noteq> [] then log_block ''BIN'' (formatHexBytes raw) else [])
            @ [newline]) l))))"

definition control_text :: "logging_config \<Rightarrow> string \<Rightarrow> byte list \<Rightarrow> string" where
  "control_text cfg direction h =
     (let sml = (if logs_sml cfg then ''['' @ direction @ ''][CTRL] '' @ CtrlType h @ '' session=''
            @ dec (int (unat (CtrlSessionID h))) @ '' status='' @ dec (int (unat (CtrlStatus h)))
            @ '' system='' @ hex_bytes (MsgSystemBytes (CtrlMsg h)) else []);
          raw = CtrlToBytes h
      in sml @ (if logs_binary cfg \<and> raw \<noteq> []
        then (if sml \<noteq> [] then [newline] else []) @ ''['' @ direction @ ''][CTRL][BIN] '' @ hex_bytes raw else []))"

definition logControlMessage :: "string \<Rightarrow> hsms_message \<Rightarrow> message_log \<Rightarrow> message_log" where
  "logControlMessage direction message l =
     (let cfg = ml_cfg l in
      if \<not> lc_enabled cfg \<or> \<not> lc_control cfg \<or> lc_writer cfg = None then l
      else case message of
          DataMsg _ \<Rightarrow> l
        | CtrlMsg h \<Rightarrow>
            if ToLower (CtrlType h) \<in> set (lc_excluded cfg) \<or> control_text cfg direction h = [] then l
            else log_write (control_text cfg direction h @ [newline]) l)"

section \<open>What the log shows\<close>

text \<open>The bytes of a message can be read back from the block of hexadecimal digits.\<close>

fun read_hex :: "string \<Rightarrow> byte list" where
  "read_hex (c # d # s) = (if c \<in> {newline, CHR '' ''} then read_hex (d # s)
     else case (unhex c, unhex d) of
       (Some x, Some y) \<Rightarrow> word_of_nat (16 * x + y) # read_hex s
     | _ \<Rightarrow> [])"
| "read_hex s = []"

lemma upper_digit_reads: "d < 16 \<Longrightarrow> unhex (upper_char (hex_digit d)) = Some d \<and> upper_char (hex_digit d) \<notin> {newline, CHR '' ''}"
proof -
  have "\<forall>d \<in> set [0..<16]. unhex (upper_char (hex_digit d)) = Some d \<and> upper_char (hex_digit d) \<notin> {newline, CHR '' ''}"
    by code_simp
  then show "d < 16 \<Longrightarrow> ?thesis" by simp
qed

lemma hex_byte_digits: "hex_byte b = [upper_char (hex_digit (unat b div 16)), upper_char (hex_digit (unat b mod 16))]"
proof (cases "unat b < 16")
  case True
  have "hex_digit 0 = CHR ''0''" by code_simp
  then show ?thesis using True by (simp add: hex_byte_def ToUpper_def hex_pad.simps [of 2 "unat b"])
next
  case False
  have "unat b div 16 < 16" using unat_byte_less [of b] by linarith
  then show ?thesis using False
    by (simp add: hex_byte_def ToUpper_def hex_pad.simps [of 2 "unat b"] hex_pad.simps [of "Suc 0" "unat b div 16"])
qed

lemma read_hex_byte: "read_hex (hex_byte b @ s) = b # read_hex s"
proof -
  have "unat b div 16 < 16" "unat b mod 16 < 16" using unat_byte_less [of b] by linarith+
  note d = upper_digit_reads [OF this(1)] upper_digit_reads [OF this(2)]
  have "(word_of_nat (16 * (unat b div 16) + unat b mod 16) :: byte) = b" by simp
  then show ?thesis using d by (simp add: hex_byte_digits)
qed

lemma read_hex_skip: "c \<in> {newline, CHR '' ''} \<Longrightarrow> s \<noteq> [] \<Longrightarrow> read_hex (c # s) = read_hex s"
  by (cases s) auto

lemma read_hex_from: "read_hex (hex_from i bs) = bs"
proof (induction bs arbitrary: i)
  case (Cons b bs)
  have ne: "hex_byte b @ hex_from (Suc i) bs \<noteq> []" by (simp add: hex_byte_digits)
  show ?case using read_hex_skip [OF _ ne] Cons by (simp add: read_hex_byte)
qed simp

theorem log_bytes_read_back: "read_hex (formatHexBytes bs) = bs"
  by (simp add: formatHexBytes_def read_hex_from)

text \<open>Every line of an indented block is a line of the text behind the prefix.\<close>

lemma split_lines_not_Nil [simp]: "split_lines s \<noteq> []"
  by (cases s) (auto split: list.split)

lemma split_lines_append: "newline \<notin> set l \<Longrightarrow> split_lines (l @ newline # s) = l # split_lines s"
  by (induction l) (auto split: list.split)

lemma split_lines_line: "newline \<notin> set l \<Longrightarrow> split_lines l = [l]"
  by (induction l) auto

lemma split_join: "ls \<noteq> [] \<Longrightarrow> \<forall>l \<in> set ls. newline \<notin> set l \<Longrightarrow> split_lines (join_lines ls) = ls"
  by (induction ls rule: join_lines.induct) (simp_all add: split_lines_append split_lines_line)

lemma split_lines_free: "l \<in> set (split_lines s) \<Longrightarrow> newline \<notin> set l"
  by (induction s arbitrary: l) (auto split: if_splits list.splits)

theorem indentLines_lines:
  assumes "newline \<notin> set prefix" and "str \<noteq> []" and "last str \<noteq> newline"
  shows "split_lines (indentLines str prefix) = map (\<lambda>l. prefix @ l) (split_lines str)"
proof -
  have "\<forall>l \<in> set (map (\<lambda>l. prefix @ l) (split_lines str)). newline \<notin> set l"
    using assms(1) split_lines_free by auto
  then show ?thesis using assms by (simp add: indentLines_def split_join)
qed

text \<open>The types to exclude are compared without regard to case and surrounding blanks, and what is excluded
  or switched off is not written.\<close>

theorem excluded_types_not_logged:
  assumes "k \<in> set (lc_excluded cfg)" and "ToLower (TrimSpace k) = ToLower (CtrlType h)"
  shows "logControlMessage direction (CtrlMsg h) (ConfigureLogging cfg l) = ConfigureLogging cfg l"
proof -
  have "ToLower (CtrlType h) \<noteq> []" by (simp add: ToLower_def CtrlType_def)
  then have "ToLower (CtrlType h) \<in> set (normalized_types (lc_excluded cfg))"
    using assms by (force simp: normalized_types_def)
  then show ?thesis by (simp add: logControlMessage_def ConfigureLogging_def Let_def)
qed

theorem disabled_log_is_silent:
  assumes "\<not> lc_enabled cfg"
  shows "logDataMessage ff timestamp direction m (ConfigureLogging cfg l) = Inr (ConfigureLogging cfg l)"
    and "logControlMessage direction message (ConfigureLogging cfg l) = ConfigureLogging cfg l"
  using assms by (simp_all add: logDataMessage_def logControlMessage_def ConfigureLogging_def)

text \<open>Normalizing a second time changes nothing: \<open>toConfig\<close> and \<open>ConfigureLogging\<close> both do it.\<close>

lemma lower_char_idem [simp]: "lower_char (lower_char c) = lower_char c"
  by (simp add: lower_char_def Let_def)

lemma is_blank_code: "is_blank c \<longleftrightarrow> of_char c \<in> {32, 9, 10, 11, 12, 13 :: nat}"
proof -
  have "c = d \<longleftrightarrow> of_char c = (of_char d :: nat)" for d by simp
  then show ?thesis unfolding is_blank_def newline_def by (simp only: insert_iff empty_iff of_char_Char) simp
qed

lemma is_blank_lower [simp]: "is_blank (lower_char c) = is_blank c"
  by (auto simp: lower_char_def is_blank_code Let_def)

lemma TrimSpace_lower: "TrimSpace (ToLower s) = ToLower (TrimSpace s)"
  by (simp add: TrimSpace_def ToLower_def rev_map dropWhile_map comp_def)

lemma trim_end: "xs \<noteq> [] \<Longrightarrow> \<not> P (hd xs) \<Longrightarrow>
    rev (dropWhile P (rev xs)) \<noteq> [] \<and> hd (rev (dropWhile P (rev xs))) = hd xs"
  by (induction xs) (auto simp: dropWhile_append)

lemma TrimSpace_idem: "TrimSpace (TrimSpace s) = TrimSpace s"
proof (cases "dropWhile is_blank s")
  case Nil
  then show ?thesis unfolding TrimSpace_def by (simp only: rev.simps dropWhile.simps)
next
  case (Cons c cs)
  have "\<not> is_blank c" using hd_dropWhile [of is_blank s] Cons by simp
  then have "dropWhile is_blank (rev (dropWhile is_blank (rev (c # cs)))) = rev (dropWhile is_blank (rev (c # cs)))"
    using trim_end [of "c # cs" is_blank] by (cases "rev (dropWhile is_blank (rev (c # cs)))") auto
  then show ?thesis unfolding TrimSpace_def Cons by simp
qed

theorem normalized_types_idem: "normalized_types (normalized_types keys) = normalized_types keys"
proof -
  have "ToLower (TrimSpace (ToLower (TrimSpace k))) = ToLower (TrimSpace k)" for k
    by (simp add: TrimSpace_lower TrimSpace_idem) (simp add: ToLower_def)
  then show ?thesis by (induction keys) (simp_all add: normalized_types_def)
qed

text \<open>What a handler configures: the log goes where the options say, in the mode they say.\<close>

theorem configured_by_options:
  assumes "lo_enabled opts"
  shows "ml_cfg (ConfigureLogging (toConfig rotating defaultWriter (LoggingOptions_applyDefaults opts)) l)
       = \<lparr>lc_enabled = True, lc_mode = (if lo_mode opts = LoggingModeUnset then LoggingModeSML else lo_mode opts),
          lc_control = lo_control opts, lc_excluded = normalized_types (lo_excluded opts),
          lc_writer = (if lo_file opts \<noteq> []
              then Some (rotating (lo_file opts) (lo_max_size opts) (lo_max_backups opts) (lo_max_age opts) (lo_compress opts))
            else case lo_writer opts of Some w \<Rightarrow> Some w
            | None \<Rightarrow> (case defaultWriter of Some w \<Rightarrow> Some w | None \<Rightarrow> Some 0))\<rparr>"
  using assms by (cases "lo_writer opts"; cases defaultWriter)
    (simp_all add: ConfigureLogging_def toConfig_def LoggingOptions_applyDefaults_def normalized_types_idem)

end
