(* ===== verification/Two_Ends.thy ===== *)
theory Two_Ends
  imports Protocol_Properties
begin

text \<open>
  Two protocol objects at the ends of one connection. \<open>read_step\<close> is one turn of the receiver: the codec of
  \<open>codec/secs2.go\<close> takes a message off the stream and \<open>receive_step\<close> handles it. What one end writes is appended
  to what the codec of the other end will read (\<open>deliver\<close>). The first part is the handshake after connecting,
  the second a request with its answer, the third a request that nobody handles.
\<close>

section \<open>A turn of the receiver\<close>

definition deliver :: "byte list \<Rightarrow> codec_state \<Rightarrow> codec_state" where
  "deliver b c = c\<lparr>cs_input := cs_input c @ b\<rparr>"

definition read_step ::
  "fsm_event \<Rightarrow> codec_state \<Rightarrow> 'a hsms_protocol \<Rightarrow> (bool \<times> codec_state \<times> 'a hsms_protocol) go" where
  "read_step fsm c p = (case Receive c of (rsp, c') \<Rightarrow>
     go_bind (receive_step fsm rsp p) (\<lambda>(go_on, p'). Inr (go_on, c', p')))"

text \<open>\<open>carried it\<close>: the item can be sent, and its lengths fit in one byte, which is what the parser reads.\<close>

definition carried :: "item \<Rightarrow> bool" where
  "carried it \<longleftrightarrow> rep_ok it \<and> short_item it \<and> Variables it = [] \<and> length (ToBytes it) + 10 < 2 ^ 32"

lemma outgoing_transmissible:
  assumes "can_go w m" and "0 \<le> sid" and "sid < 65536" and "length sb = 4" and "carried (dm_dataItem m)"
  shows "transmissible (DataMsg (outgoing sid sb w m))"
  using outgoing_rep [OF assms(1-4)] assms(2,5)
  by (simp add: transmissible_def sendable_def carried_def) (simp add: outgoing_def)

lemma read_step_delivered:
  assumes "transmissible msg" and "cs_input c = []"
  shows "\<exists>c'. cs_input c' = [] \<and> read_step fsm (deliver (wire_bytes msg) c) p =
    go_bind (receive_step fsm (Inr (arrives_as msg)) p) (\<lambda>(go_on, p'). Inr (go_on, c', p'))"
proof -
  have "cs_input (deliver (wire_bytes msg) c) = wire_bytes msg @ []" using assms(2) by (simp add: deliver_def)
  note r = Receive_transmissible [OF assms(1) this]
  show ?thesis
    by (intro exI [of _ "snd (Receive (deliver (wire_bytes msg) c))"] conjI)
       (use r in \<open>simp_all add: read_step_def split_beta\<close>)
qed

section \<open>The handshake\<close>

definition session_open :: "'a hsms_protocol \<Rightarrow> nat \<Rightarrow> bool" where
  "session_open p i \<longleftrightarrow> \<not> ss_closed (hp_sessions p i) \<and> ss_sendChan (hp_sessions p i) = None
     \<and> \<not> tcp_broken (ss_codec (hp_sessions p i))"

text \<open>\<open>connected_to i p p0\<close>: the connection is established and the protocol waits to be selected.\<close>

definition connected_to :: "nat \<Rightarrow> 'a hsms_protocol \<Rightarrow> 'a hsms_protocol \<Rightarrow> bool" where
  "connected_to i p p0 \<longleftrightarrow> hp_state p0 = StateConnectedNotSelected \<and> hp_connected p0 \<and> link_up p0 i
     \<and> hp_enabled p0 = hp_enabled p \<and> hp_active p0 = hp_active p \<and> hp_sessionID p0 = hp_sessionID p
     \<and> written p0 i = written p i \<and> hp_systemCounter p0 = hp_systemCounter p"

lemma conn_event_connect:
  assumes "fsm_documented fsm" and "hp_state p = StateNotConnected"
  shows "conn_event fsm ''connect'' p =
    startT7Timer (p\<lparr>hp_selectThreads := hp_selectThreads p + 1, hp_state := StateConnectedNotSelected\<rparr>)"
proof -
  have "table_dst connection_table (hp_state p) ''connect'' = Some StateConnectedNotSelected"
    by (simp add: connection_dst assms(2))
  from conn_event_dst [OF assms(1) this] show ?thesis
    by (simp add: assms(2) leave_state_def enter_state_def onStateConnect_def onStateConnectedNotSelected_def)
qed

lemma connection_established:
  assumes "fsm_documented fsm" and "hp_state p = StateNotConnected" and "session_open p i"
  shows "hp_active p \<Longrightarrow> \<exists>p0. activeConnect fsm i p = (True, p0) \<and> connected_to i p p0"
    and "\<not> hp_active p \<Longrightarrow> hp_connection p = None \<or> hp_connection p = Some k \<and> ss_closed (hp_sessions p k) \<Longrightarrow>
      \<exists>p0. passive_accept fsm i p = (True, p0) \<and> connected_to i p p0"
proof -
  have est: "connected_to i p (OnConnectionEstablished fsm (SetSession (Some i) q))"
    if "hp_state q = StateNotConnected" "hp_sessions q = hp_sessions p" "hp_enabled q = hp_enabled p"
      "hp_active q = hp_active p" "hp_sessionID q = hp_sessionID p" "hp_systemCounter q = hp_systemCounter p" for q
    using that assms(3)
    by (auto simp: OnConnectionEstablished_def conn_event_connect [OF assms(1)] SetSession_def connected_to_def
        startT7Timer_def link_up_def session_open_def)
  show "\<exists>p0. activeConnect fsm i p = (True, p0) \<and> connected_to i p p0" if "hp_active p"
    using that est [of p] assms(2) by (simp add: activeConnect_def start_receiver_def SetSession_def)
  show "\<exists>p0. passive_accept fsm i p = (True, p0) \<and> connected_to i p p0"
    if "\<not> hp_active p" "hp_connection p = None \<or> hp_connection p = Some k \<and> ss_closed (hp_sessions p k)"
    using that est [of "p\<lparr>hp_server := Some [i]\<rparr>"] assms(2) by (auto simp: passive_accept_def start_receiver_def)
qed

text \<open>\<open>select_header\<close>: the request of the active end, \<open>status_header\<close>: the answer with status 0.\<close>

definition select_header :: "16 word \<Rightarrow> 32 word \<Rightarrow> byte list" where
  "select_header sid k = session_bytes sid @ [0, 0, 0, 1] @ encodeSystemID k"

definition status_header :: "16 word \<Rightarrow> 32 word \<Rightarrow> byte list" where
  "status_header sid k = session_bytes sid @ [0, 0, 0, 2] @ encodeSystemID k"

lemma session_word:
  "or (push_bit 8 (ucast (ucast (drop_bit 8 sid :: 16 word) :: byte))) (ucast (ucast sid :: byte)) = (sid :: 16 word)"
  by (rule bit_word_eqI) (auto simp: bit_simps)

lemma header_session: "CtrlSessionID (select_header sid k) = sid"
  using session_word [of sid] by (simp add: select_header_def session_bytes_def CtrlSessionID_def)

lemma header_facts:
  "CtrlType (select_header sid k) = ''select.req''" "CtrlType (status_header sid k) = ''select.rsp''"
  "systemID_of (CtrlMsg (select_header sid k)) = Inr k" "systemID_of (CtrlMsg (status_header sid k)) = Inr k"
  "CtrlStatus (status_header sid k) = 0"
  "NewHSMSMessageSelectRsp (CtrlMsg (select_header sid k)) 0 = Inr (CtrlMsg (status_header sid k))"
  "transmissible (CtrlMsg (select_header sid k))" "transmissible (CtrlMsg (status_header sid k))"
  by (simp_all add: select_header_def status_header_def session_bytes_def CtrlType_def CtrlStatus_def
      NewHSMSMessageSelectRsp_def transmissible_def slice_def numeral_eq_Suc)

lemma control_on_wire: "wire_bytes (CtrlMsg h) = CtrlToBytes h" "arrives_as (CtrlMsg h) = CtrlMsg h"
  by (simp_all add: wire_bytes_def arrives_as_def)

lemma link_up_selected: "link_up (p\<lparr>hp_state := s, hp_t7Timer := b\<rparr>) i \<longleftrightarrow> link_up p i"
  by (simp add: link_up_def)

lemma select_request_sent:
  assumes "connected_to i p p0" and "hp_active p" and "k = hp_systemCounter p + 1"
  shows "select_thread p0 = Inr (Some (k, Inr ()),
    wrote i (CtrlToBytes (select_header (word_of_int (hp_sessionID p)) k)) (createQueue k (p0\<lparr>hp_systemCounter := k\<rparr>)))"
proof -
  have "NewHSMSMessageSelectReq (word_of_int (hp_sessionID p)) (encodeSystemID k)
      = Inr (CtrlMsg (select_header (word_of_int (hp_sessionID p)) k))"
    by (simp add: NewHSMSMessageSelectReq_def with_system_def select_header_def)
  then show ?thesis
    using assms control_request_up [of p0 i]
    by (simp add: select_thread_def sendSelectReq_def connected_to_def)
qed

lemma select_request_answered:
  assumes "fsm_documented fsm" and "connected_to j q q0" and "hp_enabled q" and "sid = word_of_int (hp_sessionID q)"
  shows "receive_step fsm (Inr (CtrlMsg (select_header sid k))) q0 = Inr (True,
    (wrote j (CtrlToBytes (status_header sid k)) q0)\<lparr>hp_state := StateConnectedSelected, hp_t7Timer := False\<rparr>)"
proof -
  have "sendSelectRsp (CtrlMsg (select_header sid k)) 0 q0 = Inr (wrote j (CtrlToBytes (status_header sid k)) q0)"
    using assms(2) send_control_up [of q0 j] by (simp add: sendSelectRsp_def header_facts connected_to_def)
  then have "select_accepted fsm (CtrlMsg (select_header sid k)) q0 =
      Inr ((wrote j (CtrlToBytes (status_header sid k)) q0)\<lparr>hp_state := StateConnectedSelected, hp_t7Timer := False\<rparr>)"
    using assms(2) by (simp add: select_accepted_def ControlStatusAccepted_def connected_to_def conn_event_select [OF assms(1)])
  then show ?thesis
    using assms(2-4)
    by (simp add: receive_step_def handleHsmsRequests_def header_facts handle_select_req_def Let_def header_session connected_to_def)
qed

lemma select_answer_taken:
  assumes "fsm_documented fsm" and "hp_state p = StateConnectedNotSelected" and "hp_enabled p" and "fetchQueue p k = Some []"
  shows "\<exists>p2. receive_step fsm (Inr (CtrlMsg (status_header sid k))) p = Inr (True, p2)
    \<and> control_reply k p2 = (Inr (), removeQueue k p2) \<and> hp_state p2 = StateConnectedSelected \<and> \<not> hp_t7Timer p2
    \<and> hp_connected p2 = hp_connected p \<and> (link_up p2 i \<longleftrightarrow> link_up p i)"
proof -
  let ?p2 = "(set_queue k [CtrlMsg (status_header sid k)] p)\<lparr>hp_state := StateConnectedSelected, hp_t7Timer := False\<rparr>"
  have "queue_reply k (CtrlMsg (status_header sid k)) p = set_queue k [CtrlMsg (status_header sid k)] p"
    using assms(4) by (simp add: queue_reply_def Put_def)
  then have "receive_step fsm (Inr (CtrlMsg (status_header sid k))) p = Inr (True, ?p2)"
    using assms(2,3)
    by (simp add: receive_step_def handleHsmsRequests_def header_facts handle_select_rsp_def Let_def
        ControlStatusAccepted_def conn_event_select [OF assms(1)] set_queue_def)
  moreover have "control_reply k ?p2 = (Inr (), removeQueue k ?p2)"
    by (simp add: control_reply_def queue_get_def try_get_def set_queue_def fetchQueue_def header_facts ControlStatusAccepted_def)
  ultimately show ?thesis by (intro exI [of _ ?p2]) (simp add: link_up_selected set_queue_def)
qed

text \<open>Claim C3. Two enabled protocols with the same session id, one active and one passive, that get connected
  become selected: the active end sends its select request, the passive end accepts it and is SELECTED, the
  active end reads the answer and is SELECTED, and its request ends without an error. Both ends are connected,
  no T7 timer runs, one request and one answer were written and nothing is left over.\<close>

theorem link_comes_up:
  assumes fsm: "fsm_documented fsm"
    and host: "hp_active p" "hp_enabled p" "hp_state p = StateNotConnected" "session_open p i"
    and equipment: "\<not> hp_active q" "hp_enabled q" "hp_state q = StateNotConnected" "session_open q j"
      "hp_connection q = None \<or> hp_connection q = Some l \<and> ss_closed (hp_sessions q l)"
    and ids: "word_of_int (hp_sessionID p) = (word_of_int (hp_sessionID q) :: 16 word)"
    and streams: "cs_input c = []" "cs_input d = []"
  shows "\<exists>p0 q0 k p1 request c1 q1 answer d1 p2 p3.
      activeConnect fsm i p = (True, p0) \<and> passive_accept fsm j q = (True, q0)
    \<and> select_thread p0 = Inr (Some (k, Inr ()), p1) \<and> written p1 i = written p i @ [request]
    \<and> read_step fsm (deliver request c) q0 = Inr (True, c1, q1) \<and> written q1 j = written q j @ [answer]
    \<and> read_step fsm (deliver answer d) p1 = Inr (True, d1, p2)
    \<and> control_reply k p2 = (Inr (), p3) \<and> fetchQueue p3 k = None
    \<and> hp_state p3 = StateConnectedSelected \<and> hp_connected p3 \<and> \<not> hp_t7Timer p3 \<and> link_up p3 i
    \<and> hp_state q1 = StateConnectedSelected \<and> hp_connected q1 \<and> \<not> hp_t7Timer q1 \<and> link_up q1 j
    \<and> cs_input c1 = [] \<and> cs_input d1 = []"
proof -
  let ?sid = "word_of_int (hp_sessionID q) :: 16 word"
  let ?k = "hp_systemCounter p + 1"
  let ?req = "wire_bytes (CtrlMsg (select_header ?sid ?k))"
  let ?ans = "wire_bytes (CtrlMsg (status_header ?sid ?k))"
  obtain p0 where p0: "activeConnect fsm i p = (True, p0)" "connected_to i p p0"
    using connection_established(1) [OF fsm host(3,4,1)] by blast
  obtain q0 where q0: "passive_accept fsm j q = (True, q0)" "connected_to j q q0"
    using connection_established(2) [OF fsm equipment(3,4,1,5)] by blast
  define p1 where "p1 = wrote i ?req (createQueue ?k (p0\<lparr>hp_systemCounter := ?k\<rparr>))"
  let ?q1 = "(wrote j ?ans q0)\<lparr>hp_state := StateConnectedSelected, hp_t7Timer := False\<rparr>"
  have s: "select_thread p0 = Inr (Some (?k, Inr ()), p1)"
    using select_request_sent [OF p0(2) host(1) refl] ids by (simp add: p1_def control_on_wire)
  have p1: "hp_state p1 = StateConnectedNotSelected" "hp_enabled p1" "fetchQueue p1 ?k = Some []" "hp_connected p1" "link_up p1 i"
    "written p1 i = written p i @ [?req]"
    using p0(2) host(2) by (simp_all add: p1_def connected_to_def createQueue_def fetchQueue_def)
  obtain c1 where c1: "cs_input c1 = []" "read_step fsm (deliver ?req c) q0 = Inr (True, c1, ?q1)"
    using read_step_delivered [OF header_facts(7) [of ?sid ?k] streams(1), where fsm = fsm and p = q0]
      select_request_answered [OF fsm q0(2) equipment(2) refl, of ?k] by (auto simp: control_on_wire)
  obtain p2 where p2: "receive_step fsm (Inr (CtrlMsg (status_header ?sid ?k))) p1 = Inr (True, p2)"
    "control_reply ?k p2 = (Inr (), removeQueue ?k p2)" "hp_state p2 = StateConnectedSelected" "\<not> hp_t7Timer p2"
    "hp_connected p2" "link_up p2 i"
    using select_answer_taken [OF fsm p1(1-3)] p1(4,5) by metis
  obtain d1 where d1: "cs_input d1 = []" "read_step fsm (deliver ?ans d) p1 = Inr (True, d1, p2)"
    using read_step_delivered [OF header_facts(8) [of ?sid ?k] streams(2), where fsm = fsm and p = p1] p2(1)
    by (auto simp: control_on_wire)
  have p3: "hp_state (removeQueue ?k p2) = StateConnectedSelected" "hp_connected (removeQueue ?k p2)"
    "\<not> hp_t7Timer (removeQueue ?k p2)" "link_up (removeQueue ?k p2) i" "fetchQueue (removeQueue ?k p2) ?k = None"
    using p2(3-6) by (simp_all add: queues.get_del) (simp_all add: removeQueue_def)
  have q1: "hp_state ?q1 = StateConnectedSelected" "hp_connected ?q1" "\<not> hp_t7Timer ?q1" "link_up ?q1 j"
    "written ?q1 j = written q j @ [?ans]"
    using q0(2) by (simp_all add: connected_to_def link_up_selected)
  show ?thesis by (intro exI conjI) (rule p0(1) q0(1) s p1(6) c1 q1 d1 p2(2) p3)+
qed

theorem link_comes_up_witness:
  "\<exists>p0 q0 k p1 request c1 q1 answer d1 p2 p3.
      activeConnect table_fire 0 (Enable (NewHsmsProtocol True 1 41 ())) = (True, p0)
    \<and> passive_accept table_fire 0 (Enable (NewHsmsProtocol False 1 7 ())) = (True, q0)
    \<and> select_thread p0 = Inr (Some (k, Inr ()), p1) \<and> written p1 0 = [request]
    \<and> read_step table_fire (deliver request (new_codec [])) q0 = Inr (True, c1, q1) \<and> written q1 0 = [answer]
    \<and> read_step table_fire (deliver answer (new_codec [])) p1 = Inr (True, d1, p2)
    \<and> control_reply k p2 = (Inr (), p3)
    \<and> hp_state p3 = StateConnectedSelected \<and> hp_state q1 = StateConnectedSelected"
proof -
  let ?p = "Enable (NewHsmsProtocol True 1 41 ())"
  let ?q = "Enable (NewHsmsProtocol False 1 7 ())"
  have a: "hp_active ?p" "hp_enabled ?p" "hp_state ?p = StateNotConnected" "session_open ?p 0" "\<not> hp_active ?q"
    "hp_enabled ?q" "hp_state ?q = StateNotConnected" "session_open ?q 0" "hp_connection ?q = None"
    "hp_sessionID ?p = hp_sessionID ?q" "written ?p 0 = []" "written ?q 0 = []"
    by (simp_all add: Enable_def NewHsmsProtocol_def spawn_connectThread_def session_open_def newSession_def)
  show ?thesis
    using link_comes_up [OF table_fire_documented a(1-8), of 0 "new_codec []" "new_codec []"]
    unfolding a(11,12) by (simp add: a(9,10) new_codec_def) blast
qed


section \<open>The end that is asked\<close>

text \<open>The error callback is told of a message of stream 9 first; then the message has its handler like any other.\<close>

definition noted :: "data_message \<Rightarrow> 'a hsms_protocol \<Rightarrow> 'a hsms_protocol" where
  "noted m q = (if dm_stream m = 9 then triggerS9ErrorCallback m q else q)"

definition handler_for :: "data_message \<Rightarrow> 'a hsms_protocol \<Rightarrow> 'a handler option" where
  "handler_for m q = (case lookupHandler q (dm_stream m) (dm_function m) of
      Some h \<Rightarrow> Some h | None \<Rightarrow> hp_defaultHandler q)"

lemma noted_simps [simp]:
  "hp_state (noted m q) = hp_state q" "hp_sessionID (noted m q) = hp_sessionID q" "hp_app (noted m q) = hp_app q"
  "hp_enabled (noted m q) = hp_enabled q" "hp_sessions (noted m q) = hp_sessions q"
  "hp_handlers (noted m q) = hp_handlers q" "hp_defaultHandler (noted m q) = hp_defaultHandler q"
  "link_up (noted m q) j \<longleftrightarrow> link_up q j"
  by (simp_all add: noted_def triggerS9ErrorCallback_def link_up_def)

lemma handler_for_noted: "handler_for m (noted l q) = handler_for m q"
  by (simp add: handler_for_def lookupHandler_def split: option.split)

lemma handleDataMessage_handler:
  "handler_for m q = Some h \<Longrightarrow> handleDataMessage m q = invokeHandler h m (noted m q)"
  using handler_for_noted [of m m q]
  by (auto simp: handleDataMessage_def handler_for_def noted_def Let_def split: option.splits)

lemma request_handled:
  assumes "link_up q j" and "0 \<le> hp_sessionID q" and "hp_sessionID q < 65536"
    and "hp_state q = StateConnectedSelected" and "length (dm_systemBytes m) = 4"
    and "fetchQueue q (word_of_nat (be_uint (dm_systemBytes m))) = None"
    and "handler_for m q = Some h"
    and "h m (hp_app q) = (Inr (Inr (Some resp)), app)" and "can_go False resp"
  shows "receive_step fsm (Inr (DataMsg m)) q = Inr (hp_enabled q,
    wrote j (wire_bytes (DataMsg (outgoing (hp_sessionID q) (dm_systemBytes m) False resp))) ((noted m q)\<lparr>hp_app := app\<rparr>))"
proof -
  let ?out = "outgoing (hp_sessionID q) (dm_systemBytes m) False resp"
  have b: "DataMessage_ToBytes ?out = Inr (wire_bytes (DataMsg ?out))"
    using bytes_of_rep [OF outgoing_rep(1) [OF assms(9,2,3,5)]] .
  have up: "link_up ((noted m q)\<lparr>hp_app := app\<rparr>) j" using assms(1) by simp
  have "invokeHandler h m (noted m q) = Inr (wrote j (wire_bytes (DataMsg ?out)) ((noted m q)\<lparr>hp_app := app\<rparr>))"
    using assms(8) b
    by (simp add: invokeHandler_def Let_def prepare_outgoing [OF assms(9,2,3,5)] HsmsConnection_Send_up [OF up])
  then show ?thesis
    using assms(4-6) handleDataMessage_handler [OF assms(7)]
    by (simp add: receive_step_def receive_data_def systemID_of_def Let_def)
qed

text \<open>An end that waits for a reply under the same system bytes takes the request for that reply.\<close>

lemma request_taken:
  assumes "hp_state q = StateConnectedSelected" and "dm_systemBytes r = encodeSystemID k" and "fetchQueue q k = Some pending"
  obtains q1 where "receive_step fsm (Inr (DataMsg r)) q = Inr (hp_enabled q, q1)" and "hp_app q1 = hp_app q"
    and "written q1 j = written q j" and "fetchQueue q1 k = Some (Put (DataMsg r) pending)"
proof
  let ?q1 = "set_queue k (Put (DataMsg r) pending) q"
  show "receive_step fsm (Inr (DataMsg r)) q = Inr (hp_enabled q, ?q1)" by (rule receive_reply [OF assms])
  show "hp_app ?q1 = hp_app q" "written ?q1 j = written q j" "fetchQueue ?q1 k = Some (Put (DataMsg r) pending)"
    by (simp_all add: set_queue_def fetchQueue_def)
qed

section \<open>The end that asks\<close>

text \<open>The answer to the request in progress ends the call, whatever else the message is.\<close>

lemma answer_returned:
  assumes "hp_state p = StateConnectedSelected" and "k = hp_systemCounter p + 1"
    and "p1 = wrote i b (createQueue k (p\<lparr>hp_systemCounter := k\<rparr>))" and "dm_systemBytes r = encodeSystemID k"
  shows "\<exists>p2 p3. receive_step fsm (Inr (DataMsg r)) p1 = Inr (hp_enabled p, p2)
    \<and> SendAndWait_end k out p2 = Inr (Inr r, p3) \<and> fetchQueue p3 k = None
    \<and> written p3 i = written p i @ [b] \<and> hp_s9Calls p3 = hp_s9Calls p \<and> hp_app p3 = hp_app p"
proof -
  have f: "hp_state p1 = StateConnectedSelected" "fetchQueue p1 k = Some []" "hp_enabled p1 = hp_enabled p"
    using assms(1) unfolding assms(3) by (simp_all add: createQueue_def fetchQueue_def)
  let ?p2 = "set_queue k [DataMsg r] p1"
  have "receive_step fsm (Inr (DataMsg r)) p1 = Inr (hp_enabled p, ?p2)"
    using receive_reply [OF f(1) assms(4) f(2)] f(3) by (simp add: Put_def)
  moreover have "SendAndWait_end k out ?p2 = Inr (Inr r, removeQueue k ?p2)"
    by (rule SendAndWait_end_reply) (simp add: set_queue_def fetchQueue_def)
  moreover have "written (removeQueue k ?p2) i = written p i @ [b]"
    "hp_s9Calls (removeQueue k ?p2) = hp_s9Calls p" "hp_app (removeQueue k ?p2) = hp_app p"
    unfolding assms(3) by (simp_all add: removeQueue_def set_queue_def wrote_def createQueue_def)
  moreover have "fetchQueue (removeQueue k ?p2) k = None" by (simp add: queues.get_del)
  ultimately show ?thesis by (intro exI [of _ ?p2] exI [of _ "removeQueue k ?p2"] conjI)
qed

lemma answer_read:
  assumes p: "hp_state p = StateConnectedSelected" "k = hp_systemCounter p + 1"
      "p1 = wrote i b (createQueue k (p\<lparr>hp_systemCounter := k\<rparr>))"
    and out: "dm_systemBytes out = encodeSystemID k"
    and sid: "0 \<le> sid" "sid < 65536" and response: "can_go False resp" "carried (dm_dataItem resp)" and d: "cs_input d = []"
  shows "\<exists>d1 p2 reply p3. read_step fsm (deliver (wire_bytes (DataMsg (outgoing sid (encodeSystemID k) False resp))) d) p1
        = Inr (hp_enabled p, d1, p2)
      \<and> SendAndWait_end k out p2 = Inr (Inr reply, p3) \<and> written p3 i = written p1 i
      \<and> dm_stream reply = dm_stream resp \<and> dm_function reply = dm_function resp
      \<and> dm_dataItem reply = canon (dm_dataItem resp) \<and> dm_systemBytes reply = dm_systemBytes out
      \<and> cs_input d1 = [] \<and> fetchQueue p3 k = None"
proof -
  let ?ans = "outgoing sid (encodeSystemID k) False resp"
  let ?reply = "received ?ans (canon (dm_dataItem resp))"
  have arr: "arrives_as (DataMsg ?ans) = DataMsg ?reply" by (simp add: arrives_as_def) (simp add: outgoing_def)
  have f: "dm_stream ?reply = dm_stream resp" "dm_function ?reply = dm_function resp"
    "dm_dataItem ?reply = canon (dm_dataItem resp)" "dm_systemBytes ?reply = dm_systemBytes out"
    by (simp_all add: received_def outgoing_def out)
  then have sb: "dm_systemBytes ?reply = encodeSystemID k" using out by simp
  obtain p2 p3 where r: "receive_step fsm (Inr (DataMsg ?reply)) p1 = Inr (hp_enabled p, p2)"
    "SendAndWait_end k out p2 = Inr (Inr ?reply, p3)" "fetchQueue p3 k = None" "written p3 i = written p i @ [b]"
    using answer_returned [OF p sb] by blast
  with read_step_delivered [OF outgoing_transmissible [OF response(1) sid encodeSystemID_simps(1) [of k] response(2)] d,
      where fsm = fsm and p = p1]
  obtain d1 where d1: "cs_input d1 = []" "read_step fsm (deliver (wire_bytes (DataMsg ?ans)) d) p1 = Inr (hp_enabled p, d1, p2)"
    by (auto simp: arr)
  have "written p3 i = written p1 i" using r(4) by (simp add: p(3) createQueue_def)
  then show ?thesis by (intro exI conjI) (rule d1 r f | assumption)+
qed

section \<open>A request and its answer\<close>

text \<open>Claim C2. A request travels from one protocol to the other and its answer back. Both ends are selected, and
  no item of the request or of the response has more than 255 data bytes or elements, which is what the parser of
  the library reads back. (The reply is in the queue when \<open>SendAndWait\<close> looks at it; a \<open>Get\<close> that misses the
  wake-up of its queue times out instead, see \<open>Deque_Queue\<close>.) \<open>SendAndWait\<close> writes the request. When the other end has no call in progress under the
  system bytes of the request, its receiver reads the request from the bytes and runs the handler of its stream
  and function, or the default handler, once, on the message as it arrives; the response that the handler gives is
  written; the receiver of the asking end reads it, and \<open>SendAndWait\<close> returns it, with the stream, function and
  item of the response and the system bytes of the request, and nothing is left on the streams or in the
  queues. But when the other end has a call of its own in progress under the same system bytes, which both
  ends count from a start of their own, the request is taken for the reply to that call: no handler runs, nothing is
  answered, and the \<open>SendAndWait\<close> of the other end returns the request as its reply.\<close>

theorem request_and_answer:
  assumes host: "link_up p i" "hp_connected p" "hp_state p = StateConnectedSelected" "0 \<le> hp_sessionID p" "hp_sessionID p < 65536"
    and equipment: "link_up q j" "hp_state q = StateConnectedSelected" "0 \<le> hp_sessionID q" "hp_sessionID q < 65536"
    and request: "can_go True m" "carried (dm_dataItem m)"
    and handler: "handler_for m q = Some h"
      "h (received (outgoing (hp_sessionID p) (encodeSystemID (hp_systemCounter p + 1)) True m) (canon (dm_dataItem m))) (hp_app q)
        = (Inr (Inr (Some resp)), app)"
    and response: "can_go False resp" "carried (dm_dataItem resp)"
    and streams: "cs_input c = []" "cs_input d = []"
  shows "\<exists>k out request p1 c1 q1.
      SendAndWait_begin (Some m) p = Inr (Inr (k, out), p1) \<and> written p1 i = written p i @ [request]
    \<and> read_step fsm_q (deliver request c) q = Inr (hp_enabled q, c1, q1) \<and> cs_input c1 = []
    \<and> (fetchQueue q k = None \<longrightarrow> (\<exists>answer d1 p2 reply p3.
        hp_app q1 = app \<and> written q1 j = written q j @ [answer]
      \<and> read_step fsm_p (deliver answer d) p1 = Inr (hp_enabled p, d1, p2)
      \<and> SendAndWait_end k out p2 = Inr (Inr reply, p3) \<and> written p3 i = written p1 i
      \<and> dm_stream reply = dm_stream resp \<and> dm_function reply = dm_function resp
      \<and> dm_dataItem reply = canon (dm_dataItem resp) \<and> dm_systemBytes reply = dm_systemBytes out
      \<and> cs_input d1 = [] \<and> fetchQueue p3 k = None))
    \<and> (fetchQueue q k = Some [] \<longrightarrow> hp_app q1 = hp_app q \<and> written q1 j = written q j
      \<and> (\<forall>own. \<exists>got q2. SendAndWait_end k own q1 = Inr (Inr got, q2) \<and> dm_stream got = dm_stream m
          \<and> dm_function got = dm_function m \<and> dm_dataItem got = canon (dm_dataItem m)))
    \<and> (fetchQueue q k \<noteq> None \<longrightarrow> hp_app q1 = hp_app q \<and> written q1 j = written q j)"
proof -
  let ?k = "hp_systemCounter p + 1"
  let ?out = "outgoing (hp_sessionID p) (encodeSystemID ?k) True m"
  let ?got = "received ?out (canon (dm_dataItem m))"
  let ?request = "wire_bytes (DataMsg ?out)"
  define p1 where "p1 = wrote i ?request (createQueue ?k (p\<lparr>hp_systemCounter := ?k\<rparr>))"
  have arr: "arrives_as (DataMsg ?out) = DataMsg ?got" by (simp add: arrives_as_def) (simp add: outgoing_def)
  have got: "dm_stream ?got = dm_stream m" "dm_function ?got = dm_function m" "dm_systemBytes ?got = encodeSystemID ?k"
    "dm_dataItem ?got = canon (dm_dataItem m)"
    by (simp_all add: received_def outgoing_def)
  have b: "SendAndWait_begin (Some m) p = Inr (Inr (?k, ?out), p1)"
    unfolding p1_def by (rule SendAndWait_begin_up) (use host request in simp_all)
  have w: "written p1 i = written p i @ [?request]" by (simp add: p1_def createQueue_def)
  have read: "\<exists>c1. read_step fsm_q (deliver ?request c) q = Inr (hp_enabled q, c1, q1) \<and> cs_input c1 = []"
    if "receive_step fsm_q (Inr (DataMsg ?got)) q = Inr (hp_enabled q, q1)" for q1
    using read_step_delivered [OF outgoing_transmissible [OF request(1) host(4,5) encodeSystemID_simps(1) [of ?k] request(2)]
        streams(1), where fsm = fsm_q and p = q] that by (auto simp: arr)
  show ?thesis
  proof (cases "fetchQueue q ?k")
    case None
    have h: "receive_step fsm_q (Inr (DataMsg ?got)) q = Inr (hp_enabled q,
        wrote j (wire_bytes (DataMsg (outgoing (hp_sessionID q) (encodeSystemID ?k) False resp))) ((noted ?got q)\<lparr>hp_app := app\<rparr>))"
      using request_handled [OF equipment(1,3,4,2), of ?got h resp app fsm_q] None handler response(1) got
      by (simp add: handler_for_def)
    let ?ans = "wire_bytes (DataMsg (outgoing (hp_sessionID q) (encodeSystemID ?k) False resp))"
    have sb: "dm_systemBytes ?out = encodeSystemID ?k" by (simp add: outgoing_def)
    obtain d1 p2 reply p3 where r: "read_step fsm_p (deliver ?ans d) p1 = Inr (hp_enabled p, d1, p2)"
      "SendAndWait_end ?k ?out p2 = Inr (Inr reply, p3)" "written p3 i = written p1 i"
      "dm_stream reply = dm_stream resp" "dm_function reply = dm_function resp"
      "dm_dataItem reply = canon (dm_dataItem resp)" "dm_systemBytes reply = dm_systemBytes ?out"
      "cs_input d1 = []" "fetchQueue p3 ?k = None"
      using answer_read [OF host(3) refl p1_def sb equipment(3,4) response streams(2), where fsm = fsm_p] by blast
    let ?q1 = "wrote j ?ans ((noted ?got q)\<lparr>hp_app := app\<rparr>)"
    have a: "hp_app ?q1 = app" "written ?q1 j = written q j @ [?ans]" by simp_all
    from read [OF h] obtain c1 where c1: "read_step fsm_q (deliver ?request c) q = Inr (hp_enabled q, c1, ?q1)" "cs_input c1 = []"
      by blast
    show ?thesis by (intro exI conjI impI) (rule b w c1 a r | simp add: None)+
  next
    case (Some pending)
    obtain q1 where q1: "receive_step fsm_q (Inr (DataMsg ?got)) q = Inr (hp_enabled q, q1)" "hp_app q1 = hp_app q"
      "written q1 j = written q j" "fetchQueue q1 ?k = Some (Put (DataMsg ?got) pending)"
      by (rule request_taken [OF equipment(2) got(3) Some])
    from read [OF q1(1)] obtain c1 where c1: "read_step fsm_q (deliver ?request c) q = Inr (hp_enabled q, c1, q1)" "cs_input c1 = []"
      by blast
    have "\<exists>g q2. SendAndWait_end ?k own q1 = Inr (Inr g, q2) \<and> dm_stream g = dm_stream m
        \<and> dm_function g = dm_function m \<and> dm_dataItem g = canon (dm_dataItem m)" if "pending = []" for own
      using SendAndWait_end_reply [of q1 ?k ?got own] q1(4) that got by (simp add: Put_def)
    then show ?thesis using Some q1 by (intro exI conjI impI) (rule b w c1 | simp)+
  qed
qed

definition sample_answer :: data_message where
  "sample_answer = sample_reply\<lparr>dm_dataItem := binary_item [7]\<rparr>"

lemma sample_answer_ok: "can_go False sample_answer" "carried (dm_dataItem sample_answer)"
  "can_go True sample_request" "carried (dm_dataItem sample_request)"
  by (simp_all add: sample_answer_def sample_reply_def sample_request_def can_go_def checkRep_def runes_def carried_def
      ToBytes_binary_item MAX_BYTE_SIZE_def) (simp add: binary_item_def)

theorem request_and_answer_witness:
  "\<exists>k out request p1 answer c1 q1 d1 p2 reply p3.
      SendAndWait_begin (Some sample_request) (sample_protocol True StateConnectedSelected) = Inr (Inr (k, out), p1)
    \<and> written p1 0 = [request]
    \<and> read_step table_fire (deliver request (new_codec []))
        (RegisterHandler 1 1 (Some (\<lambda>m a. (Inr (Inr (Some sample_answer)), a))) (sample_protocol False StateConnectedSelected))
      = Inr (True, c1, q1)
    \<and> written q1 0 = [answer]
    \<and> read_step table_fire (deliver answer (new_codec [])) p1 = Inr (True, d1, p2)
    \<and> SendAndWait_end k out p2 = Inr (Inr reply, p3)
    \<and> dm_function reply = 2 \<and> dm_dataItem reply = binary_item [7]"
proof -
  let ?h = "\<lambda>m (a :: unit). (Inr (Inr (Some sample_answer)), a) :: (data_message option) res go \<times> unit"
  let ?q = "RegisterHandler 1 1 (Some ?h) (sample_protocol False StateConnectedSelected)"
  have q: "link_up ?q 0" "hp_state ?q = StateConnectedSelected" "hp_sessionID ?q = 1" "hp_enabled ?q"
    "fetchQueue ?q k = None" "written ?q 0 = []" "lookupHandler ?q 1 1 = Some ?h" for k
    by (simp_all add: RegisterHandler_def Let_def fetchQueue_def lookupHandler_def link_up_def newSession_def)
  have m: "dm_stream sample_request = 1" "dm_function sample_request = 1" "dm_function sample_answer = 2"
    "canon (dm_dataItem sample_answer) = binary_item [7]"
    by (simp_all add: sample_request_def sample_answer_def sample_reply_def binary_item_def)
  have h: "handler_for sample_request ?q = Some ?h" by (simp add: handler_for_def m q(7))
  show ?thesis
    using request_and_answer [of "sample_protocol True StateConnectedSelected" 0 ?q 0 sample_request ?h sample_answer "()"
        "new_codec []" "new_codec []" table_fire table_fire]
    by (simp add: q m h sample_answer_ok new_codec_def newSession_def) blast
qed

section \<open>A request that nobody handles\<close>

definition s9_sent :: "int \<Rightarrow> item \<Rightarrow> int \<Rightarrow> byte list \<Rightarrow> data_message" where
  "s9_sent f body sid sb = \<lparr>dm_name = [], dm_stream = 9, dm_function = f, dm_waitBit = 0, dm_direction = ''H<-E'',
     dm_dataItem = body, dm_sessionID = sid, dm_systemBytes = sb\<rparr>"

lemma s9_sent_ok:
  assumes "1 \<le> f" and "f < 256" and "f mod 2 = 1" and "0 \<le> sid" and "sid < 65536" and "length sb = 4" and "carried body"
  shows "transmissible (DataMsg (s9_sent f body sid sb))"
    and "wire_bytes (DataMsg (s9_sent f body sid sb)) = s9_frame (word_of_int f) (ToBytes body) sid sb"
proof -
  let ?m = "s9_sent f body sid sb"
  have rep: "checkRep ?m = Inr ()" using assms by (simp add: s9_sent_def checkRep_def runes_def carried_def)
  have s: "sendable ?m" using assms by (simp add: s9_sent_def sendable_def carried_def)
  show "transmissible (DataMsg ?m)" using rep s assms(7) by (simp add: transmissible_def carried_def) (simp add: s9_sent_def)
  have "DataMessage_ToBytes ?m = Inr (s9_frame (word_of_int f) (ToBytes body) sid sb)"
    using ToBytes_frame [OF rep s] by (simp add: s9_frame_def message_header_def header_byte2_def s9_sent_def)
  then show "wire_bytes (DataMsg ?m) = s9_frame (word_of_int f) (ToBytes body) sid sb"
    using bytes_of_rep [OF rep] by simp
qed

lemma carried_byte: "carried (binary_item [b])"
  by (simp add: carried_def ToBytes_binary_item MAX_BYTE_SIZE_def) (simp add: binary_item_def)

text \<open>Claim C34. When the other end has no handler for a request, its error message S9F5 (S9F3 when it does not know
  the stream) carries the system bytes of the request, so that \<open>SendAndWait\<close> returns it as if it were the reply,
  without an error, and the error callback of the asking end is not called.\<close>

theorem error_taken_for_reply:
  assumes host: "link_up p i" "hp_connected p" "hp_state p = StateConnectedSelected" "0 \<le> hp_sessionID p" "hp_sessionID p < 65536"
    and equipment: "link_up q j" "hp_state q = StateConnectedSelected" "0 \<le> hp_sessionID q" "hp_sessionID q < 65536"
      "fetchQueue q (hp_systemCounter p + 1) = None"
    and request: "can_go True m" "carried (dm_dataItem m)" "dm_stream m \<noteq> 9"
    and unhandled: "lookupHandler q (dm_stream m) (dm_function m) = None" "hp_defaultHandler q = None"
    and streams: "cs_input c = []" "cs_input d = []"
  shows "\<exists>k out request p1 answer c1 q1 d1 p2 reply p3.
      SendAndWait_begin (Some m) p = Inr (Inr (k, out), p1) \<and> written p1 i = written p i @ [request]
    \<and> read_step fsm_q (deliver request c) q = Inr (hp_enabled q, c1, q1) \<and> written q1 j = written q j @ [answer]
    \<and> read_step fsm_p (deliver answer d) p1 = Inr (hp_enabled p, d1, p2)
    \<and> SendAndWait_end k out p2 = Inr (Inr reply, p3)
    \<and> dm_stream reply = 9 \<and> dm_function reply = (if isKnownStream (dm_stream m) then 5 else 3)
    \<and> hp_s9Calls p3 = hp_s9Calls p"
proof -
  let ?k = "hp_systemCounter p + 1"
  let ?out = "outgoing (hp_sessionID p) (encodeSystemID ?k) True m"
  let ?got = "received ?out (canon (dm_dataItem m))"
  let ?f = "if isKnownStream (dm_stream m) then 5 else (3::int)"
  let ?b = "word_of_int (if isKnownStream (dm_stream m) then dm_function m else dm_stream m) :: byte"
  let ?ans = "s9_sent ?f (binary_item [?b]) (hp_sessionID q) (encodeSystemID ?k)"
  let ?reply = "received ?ans (binary_item [?b])"
  define p1 where "p1 = wrote i (wire_bytes (DataMsg ?out)) (createQueue ?k (p\<lparr>hp_systemCounter := ?k\<rparr>))"
  have arr: "arrives_as (DataMsg ?out) = DataMsg ?got" "arrives_as (DataMsg ?ans) = DataMsg ?reply"
    by (simp_all add: arrives_as_def) (simp_all add: outgoing_def s9_sent_def binary_item_def)
  have got: "dm_stream ?got = dm_stream m" "dm_function ?got = dm_function m" "dm_systemBytes ?got = encodeSystemID ?k"
    by (simp_all add: received_def outgoing_def)
  have f: "1 \<le> ?f" "?f < 256" "?f mod 2 = 1" by simp_all
  note ans = s9_sent_ok [OF f equipment(3,4) encodeSystemID_simps(1) [of ?k] carried_byte [of ?b]]
  have b: "SendAndWait_begin (Some m) p = Inr (Inr (?k, ?out), p1)"
    unfolding p1_def by (rule SendAndWait_begin_up) (use host request in simp_all)
  obtain q1 where q1: "receive_step fsm_q (Inr (DataMsg ?got)) q = Inr (hp_enabled q, q1)"
    "written q1 j = written q j @ [wire_bytes (DataMsg ?ans)]"
    using unhandled_written [OF equipment(1,3,4,2), of ?got fsm_q] equipment(5) unhandled request(3)
    unfolding got ans(2) by (auto simp: ToBytes_binary_item)
  with read_step_delivered [OF outgoing_transmissible [OF request(1) host(4,5) encodeSystemID_simps(1) [of ?k] request(2)] streams(1),
      where fsm = fsm_q and p = q]
  obtain c1 where c1: "read_step fsm_q (deliver (wire_bytes (DataMsg ?out)) c) q = Inr (hp_enabled q, c1, q1)"
    by (auto simp: arr)
  have sb: "dm_systemBytes ?reply = encodeSystemID ?k" by (simp add: received_def s9_sent_def)
  obtain p2 p3 where r: "receive_step fsm_p (Inr (DataMsg ?reply)) p1 = Inr (hp_enabled p, p2)"
    "SendAndWait_end ?k ?out p2 = Inr (Inr ?reply, p3)" "hp_s9Calls p3 = hp_s9Calls p"
    using answer_returned [OF host(3) refl p1_def sb] by blast
  with read_step_delivered [OF ans(1) streams(2), where fsm = fsm_p and p = p1]
  obtain d1 where d1: "read_step fsm_p (deliver (wire_bytes (DataMsg ?ans)) d) p1 = Inr (hp_enabled p, d1, p2)"
    by (auto simp: arr)
  have w: "written p1 i = written p i @ [wire_bytes (DataMsg ?out)]" by (simp add: p1_def createQueue_def)
  have e: "dm_stream ?reply = 9" "dm_function ?reply = ?f" by (simp_all add: received_def s9_sent_def)
  show ?thesis by (intro exI conjI) (rule b w c1 q1(2) d1 r e)+
qed

theorem error_taken_for_reply_witness:
  "\<exists>k out request p1 answer c1 q1 d1 p2 reply p3.
      SendAndWait_begin (Some sample_request) (sample_protocol True StateConnectedSelected) = Inr (Inr (k, out), p1)
    \<and> read_step table_fire (deliver request (new_codec [])) (sample_protocol False StateConnectedSelected) = Inr (True, c1, q1)
    \<and> written q1 0 = [answer]
    \<and> read_step table_fire (deliver answer (new_codec [])) p1 = Inr (True, d1, p2)
    \<and> SendAndWait_end k out p2 = Inr (Inr reply, p3)
    \<and> dm_stream reply = 9 \<and> dm_function reply = 5"
proof -
  have m: "dm_stream sample_request = 1" "isKnownStream 1"
    by (simp_all add: sample_request_def isKnownStream_def)
  have q: "fetchQueue (sample_protocol False StateConnectedSelected) k = None"
    "lookupHandler (sample_protocol False StateConnectedSelected) a b = None" for a b k
    by (simp_all add: fetchQueue_def lookupHandler_def)
  show ?thesis
    using error_taken_for_reply [of "sample_protocol True StateConnectedSelected" 0 "sample_protocol False StateConnectedSelected"
        0 sample_request "new_codec []" "new_codec []" table_fire table_fire]
    by (simp add: q m sample_answer_ok new_codec_def newSession_def) blast
qed

end
