(* ===== verification/T8_Deadline.thy ===== *)
theory T8_Deadline
  imports Stream_Properties Protocol_Properties
begin

text \<open>
  The receiver of \<open>hsms/protocol.go\<close> with its T8 deadline: one turn of its loop on the buffered codec
  (\<open>codec/bufio.go\<close>), with the times at which the bytes arrive. Before each \<open>Receive\<close> the read deadline of the
  connection is set to T8 from now, afterwards it is cleared. Times are in nanoseconds.
\<close>

section \<open>A turn of the receiver in time\<close>

definition second :: int where
  "second = 1000000000"

text \<open>The pieces that arrive, each with its time, in order. A read that is still waiting at the deadline fails
  (\<open>net.Conn\<close>), so the codec gets what comes until then, and an error behind it.\<close>

definition read_deadline :: "'b bufio_codec \<Rightarrow> int option" where
  "read_deadline c = (case bc_deadline c of None \<Rightarrow> None | Some (r, w) \<Rightarrow> r)"

definition in_time :: "int option \<Rightarrow> (int \<times> byte list) list \<Rightarrow> byte list list" where
  "in_time deadline arrivals = map snd (takeWhile (\<lambda>(t, bs). case deadline of None \<Rightarrow> True | Some d \<Rightarrow> t \<le> d) arrivals)"

definition arrive :: "(int \<times> byte list) list \<Rightarrow> 'b bufio_codec \<Rightarrow> 'b bufio_codec" where
  "arrive arrivals c = c\<lparr>bc_reader := (bc_reader c)\<lparr>rd_chunks := rd_chunks (bc_reader c) @ in_time (read_deadline c) arrivals\<rparr>\<rparr>"

definition arm_T8 :: "secs_timeout \<Rightarrow> int \<Rightarrow> 'b bufio_codec \<Rightarrow> 'b bufio_codec" where
  "arm_T8 timeouts now c =
     (if 0 < t8NetworkIntercharTimeout timeouts
      then SetReadDeadline (now + t8NetworkIntercharTimeout timeouts * second) c else c)"

definition clear_T8 :: "secs_timeout \<Rightarrow> 'b bufio_codec \<Rightarrow> 'b bufio_codec" where
  "clear_T8 timeouts c =
     (if 0 < t8NetworkIntercharTimeout timeouts then c\<lparr>bc_deadline := map_option (\<lambda>(r, w). (None, w)) (bc_deadline c)\<rparr> else c)"

definition timed_turn :: "fsm_event \<Rightarrow> int \<Rightarrow> (int \<times> byte list) list \<Rightarrow> byte list bufio_codec \<Rightarrow> 'a hsms_protocol \<Rightarrow>
  (bool \<times> byte list bufio_codec \<times> 'a hsms_protocol) go" where
  "timed_turn fsm now arrivals c p =
     go_bind (bufio_Receive secsIICodec (arrive arrivals (arm_T8 (hp_timeouts p) now c))) (\<lambda>(rsp, c1).
     go_bind (receive_step fsm rsp p) (\<lambda>(go_on, p'). Inr (go_on, clear_T8 (hp_timeouts p) c1, p')))"

text \<open>What the codec has to read in this turn.\<close>

definition readable :: "int option \<Rightarrow> (int \<times> byte list) list \<Rightarrow> 'b bufio_codec \<Rightarrow> byte list" where
  "readable deadline arrivals c = pending (bc_reader c) @ concat (in_time deadline arrivals)"

section \<open>An incomplete message\<close>

lemma Receive_incomplete:
  assumes "transmissible msg" and "wire_bytes msg = cs_input c @ late" and "late \<noteq> []"
  shows "\<exists>e. fst (Receive c) = Inl e"
proof -
  obtain h body where w: "wire_bytes msg = frame h body" "length h = 10" "length body + 10 < 2 ^ 32"
    using wire_frame [OF assms(1)] by blast
  let ?lb = "be_bytes 4 (ucast (word_of_nat (length body + 10) :: 32 word))"
  have f: "cs_input c @ late = ?lb @ h @ body" using assms(2) w(1) by (simp add: frame_def)
  have "length (cs_input c) + length late = length body + 14"
    using arg_cong [OF f, of length] w(2) by simp
  then have len: "length (cs_input c) < length body + 14" using assms(3) by (cases late) auto
  show ?thesis
  proof (cases "4 \<le> length (cs_input c)")
    case True
    then have t: "take 4 (cs_input c) = ?lb"
      using arg_cong [OF f, of "take 4"] by simp
    have n: "be_uint (take 4 (cs_input c)) = length body + 10"
      unfolding t by (rule be_uint_length_word [OF w(3)])
    have "\<not> length body + 10 \<le> length (cs_input c) - 4" using True len by linarith
    then show ?thesis using True n by (simp add: Receive_def ReadFull_def Let_def)
  qed (simp add: Receive_def ReadFull_def)
qed

lemma timed_Receive:
  "\<exists>c'. bufio_Receive secsIICodec (arrive arrivals c) =
    Inr (fst (Receive ((flat c)\<lparr>cs_input := readable (read_deadline c) arrivals c\<rparr>)), c')"
proof -
  have "flat (arrive arrivals c) = (flat c)\<lparr>cs_input := readable (read_deadline c) arrivals c\<rparr>"
    by (simp add: flat_def arrive_def readable_def pending_def)
  moreover obtain r c' where "bufio_Receive secsIICodec (arrive arrivals c) = Inr (r, c')"
    "Receive (flat (arrive arrivals c)) = (r, flat c')"
    using bufio_Receive_flat by blast
  ultimately show ?thesis by (metis fst_conv)
qed

section \<open>The property\<close>

text \<open>Claim C32. T8 bounds the whole wait for a message. When the receiver begins to wait, and T8 seconds later what has
  come is not a complete message, the connection is given up, even when the bytes come one soon after the
  other, and even when no byte of a message has come at all: an idle connection does not outlive T8. A message
  that is complete by then is handled as it is without times.\<close>

theorem T8_bounds_the_wait:
  assumes "fsm_documented fsm" and "bc_deadline c = Some dl" and "0 < t8NetworkIntercharTimeout (hp_timeouts p)"
    and "hp_state p \<in> {StateConnectedNotSelected, StateConnectedSelected}"
    and "transmissible msg"
    and "wire_bytes msg = readable (Some (now + t8NetworkIntercharTimeout (hp_timeouts p) * second)) arrivals c @ late"
  shows "if late = []
    then \<exists>c'. timed_turn fsm now arrivals c p =
      go_bind (receive_step fsm (Inr (arrives_as msg)) p) (\<lambda>(go_on, p'). Inr (go_on, c', p'))
    else \<exists>c' p'. timed_turn fsm now arrivals c p = Inr (False, c', p') \<and> hp_state p' = StateNotConnected \<and> \<not> hp_connected p'"
proof -
  let ?c = "arm_T8 (hp_timeouts p) now c"
  let ?bytes = "readable (read_deadline ?c) arrivals ?c"
  let ?flat = "(flat ?c)\<lparr>cs_input := ?bytes\<rparr>"
  obtain r w where dl: "dl = (r, w)" by (cases dl)
  have bytes: "?bytes = readable (Some (now + t8NetworkIntercharTimeout (hp_timeouts p) * second)) arrivals c"
    using assms(2,3) by (simp add: arm_T8_def SetReadDeadline_def read_deadline_def readable_def dl)
  obtain c1 where c1: "bufio_Receive secsIICodec (arrive arrivals ?c) = Inr (fst (Receive ?flat), c1)"
    using timed_Receive by blast
  have turn: "timed_turn fsm now arrivals c p = go_bind (receive_step fsm (fst (Receive ?flat)) p)
      (\<lambda>(go_on, p'). Inr (go_on, clear_T8 (hp_timeouts p) c1, p'))"
    by (simp add: timed_turn_def c1)
  show ?thesis
  proof (cases "late = []")
    case True
    then have "cs_input ?flat = wire_bytes msg @ []" using assms(6) by (simp add: bytes)
    from Receive_transmissible [OF assms(5) this] show ?thesis using True by (auto simp: turn)
  next
    case False
    have "wire_bytes msg = cs_input ?flat @ late" using assms(6) by (simp add: bytes)
    from Receive_incomplete [OF assms(5) this False] obtain e where e: "fst (Receive ?flat) = Inl e" by blast
    have st: "hp_state (stopLinktestTimer (p\<lparr>hp_connected := False\<rparr>)) = hp_state p" by (simp add: stopLinktestTimer_def)
    have ev: "conn_event fsm ''disconnect'' (stopLinktestTimer (p\<lparr>hp_connected := False\<rparr>)) =
        onStateDisconnect ((stopLinktestTimer (p\<lparr>hp_connected := False\<rparr>))\<lparr>hp_state := StateNotConnected\<rparr>)"
      by (rule conn_event_disconnect [OF assms(1)]) (use assms(4) st in auto)
    have "hp_state p \<noteq> StateNotConnected"
      using assms(4) by (auto simp: StateNotConnected_def StateConnectedNotSelected_def StateConnectedSelected_def)
    then have "hp_state (receive_failed fsm p) = StateNotConnected" "\<not> hp_connected (receive_failed fsm p)"
      using ev st by (simp_all add: receive_failed_def Let_def)
    then show ?thesis using False by (simp add: turn e receive_step_def)
  qed
qed

text \<open>A selected connection on which nothing comes, and a link test request that comes in two pieces, three
  seconds apart, under a T8 of five seconds that starts four seconds before the first one.\<close>

definition sample_timed :: "unit hsms_protocol" where
  "sample_timed = (sample_protocol True StateConnectedSelected)\<lparr>hp_timeouts := NewSecsTimeout\<lparr>t8NetworkIntercharTimeout := 5\<rparr>\<rparr>"

definition sample_conn :: "byte list bufio_codec" where
  "sample_conn = \<lparr>bc_base = [], bc_reader = NewReaderSize 5120 [], bc_writer = \<lparr>wr_out = [], wr_broken = False,
     wr_buffer = [], wr_size = 5120, wr_failed = False\<rparr>, bc_closer = Some True, bc_deadline = Some (None, None)\<rparr>"

theorem T8_bounds_the_wait_witness:
  "(\<exists>c' p'. timed_turn table_fire 0 [] sample_conn sample_timed = Inr (False, c', p') \<and> hp_state p' = StateNotConnected)
    \<and> (\<exists>c' p'. timed_turn table_fire 0 [(4 * second, [0, 0, 0, 10, 255, 255, 0, 0]), (7 * second, [0, 5, 0, 0, 0, 9])]
     sample_conn sample_timed = Inr (False, c', p') \<and> hp_state p' = StateNotConnected)"
proof -
  let ?h = "[255, 255, 0, 0, 0, 5, 0, 0, 0, 9] :: byte list"
  have t: "transmissible (CtrlMsg ?h)" by (simp add: transmissible_def)
  have w: "wire_bytes (CtrlMsg ?h) = [0, 0, 0, 10] @ ?h" by (simp add: wire_bytes_def CtrlToBytes_def)
  have s: "bc_deadline sample_conn = Some (None, None)" "t8NetworkIntercharTimeout (hp_timeouts sample_timed) = 5"
    "hp_state sample_timed = StateConnectedSelected"
    by (simp_all add: sample_conn_def sample_timed_def)
  have r: "readable (Some (0 + 5 * second)) [] sample_conn = []"
    "readable (Some (0 + 5 * second)) [(4 * second, [0, 0, 0, 10, 255, 255, 0, 0]), (7 * second, [0, 5, 0, 0, 0, 9])] sample_conn
      = [0, 0, 0, 10, 255, 255, 0, 0]"
    by (simp_all add: readable_def in_time_def sample_conn_def NewReaderSize_def pending_def second_def)
  note T8 = T8_bounds_the_wait [OF table_fire_documented s(1) _ _ t, of sample_timed 0]
  have a: "\<exists>c' p'. timed_turn table_fire 0 [] sample_conn sample_timed = Inr (False, c', p') \<and> hp_state p' = StateNotConnected"
    using T8 [of "[]" "wire_bytes (CtrlMsg ?h)"] r(1) w by (auto simp: s)
  have b: "\<exists>c' p'. timed_turn table_fire 0 [(4 * second, [0, 0, 0, 10, 255, 255, 0, 0]), (7 * second, [0, 5, 0, 0, 0, 9])]
     sample_conn sample_timed = Inr (False, c', p') \<and> hp_state p' = StateNotConnected"
    using T8 [of "[(4 * second, [0, 0, 0, 10, 255, 255, 0, 0]), (7 * second, [0, 5, 0, 0, 0, 9])]" "[0, 5, 0, 0, 0, 9]"] r(2) w
    by (auto simp: s)
  show ?thesis using a b by blast
qed

end
