(* ===== verification/Json_Codec.thy ===== *)
theory Json_Codec
  imports Prelude
begin

text \<open>
  The JSON codec, \<open>codec/json.go\<close>: the registry of message types and the choice of the type when a message is
  sent or received. What is on the wire is left to \<open>encoding/json\<close>: the parameter \<open>encode\<close> writes a head and a
  message, \<open>decode\<close> takes the next head and body off the stream, \<open>unmarshal\<close> reads a body into a new value of
  a type, or into an empty interface (\<open>None\<close>), and \<open>typeOf\<close> is \<open>reflect.TypeOf\<close>, \<open>None\<close> for nil.
\<close>

section \<open>Types and their names\<close>

text \<open>A Go type: a pointer, a type with a name in a package (types declared inside functions are left out), or a
  type literal, which has neither.\<close>

datatype go_type = PtrTo go_type | Defined string string | Literal nat

fun PkgPath :: "go_type \<Rightarrow> string" where
  "PkgPath (Defined pkg name) = pkg"
| "PkgPath _ = []"

fun Name :: "go_type \<Rightarrow> string" where
  "Name (Defined pkg name) = name"
| "Name _ = []"

fun elem_type :: "go_type \<Rightarrow> go_type" where
  "elem_type (PtrTo t) = t"
| "elem_type t = t"

section \<open>The registry\<close>

record json_protocol =
  jp_types :: "string \<Rightarrow> go_type option"
  jp_names :: "go_type \<Rightarrow> string option"

definition Json :: json_protocol where
  "Json = \<lparr>jp_types = \<lambda>_. None, jp_names = \<lambda>_. None\<rparr>"

definition nil_type :: "'a go" where
  "nil_type = Inl (Panic ''invalid memory address or nil pointer dereference'')"

definition RegisterName :: "string \<Rightarrow> go_type option \<Rightarrow> json_protocol \<Rightarrow> json_protocol go" where
  "RegisterName name t j = (case t of
      None \<Rightarrow> nil_type
    | Some t \<Rightarrow> let rt = elem_type t in
        Inr (j\<lparr>jp_types := (jp_types j)(name := Some rt), jp_names := (jp_names j)(rt := Some name)\<rparr>))"

definition type_name :: "go_type \<Rightarrow> string" where
  "type_name rt = PkgPath rt @ CHR ''/'' # Name rt"

definition Register :: "go_type option \<Rightarrow> json_protocol \<Rightarrow> json_protocol go" where
  "Register t j = (case t of
      None \<Rightarrow> nil_type
    | Some t \<Rightarrow> let rt = elem_type t; name = type_name rt in
        Inr (j\<lparr>jp_types := (jp_types j)(name := Some rt), jp_names := (jp_names j)(rt := Some name)\<rparr>))"

section \<open>Receiving and sending\<close>

record 'r json_in =
  ji_Head :: string
  ji_Body :: "'r option"

definition json_Receive ::
  "('s \<Rightarrow> 'r json_in res \<times> 's) \<Rightarrow> ('r \<Rightarrow> go_type option \<Rightarrow> 'v res) \<Rightarrow> json_protocol \<Rightarrow> 's \<Rightarrow> ('v res \<times> 's) go" where
  "json_Receive decode unmarshal p s = (case decode s of
      (Inl e, s') \<Rightarrow> Inr (Inl e, s')
    | (Inr jin, s') \<Rightarrow>
        let body = (if ji_Head jin \<noteq> [] then jp_types p (ji_Head jin) else None) in
        (case ji_Body jin of
           None \<Rightarrow> nil_type
         | Some raw \<Rightarrow> Inr (unmarshal raw body, s')))"

definition json_Send ::
  "(string \<Rightarrow> 'v \<Rightarrow> byte list res) \<Rightarrow> ('v \<Rightarrow> go_type option) \<Rightarrow> json_protocol \<Rightarrow> 'v \<Rightarrow> byte list res go" where
  "json_Send encode typeOf p msg = (case typeOf msg of
      None \<Rightarrow> nil_type
    | Some t \<Rightarrow> Inr (encode (case jp_names p (elem_type t) of Some name \<Rightarrow> name | None \<Rightarrow> []) msg))"

section \<open>The types that arrive\<close>

text \<open>A registry is consistent when the name of a type leads back to the type.\<close>

definition consistent :: "json_protocol \<Rightarrow> bool" where
  "consistent j \<longleftrightarrow> (\<forall>t n. jp_names j t = Some n \<longrightarrow> jp_types j n = Some t)"

text \<open>\<open>plain_type\<close>: a defined type whose name has no slash, as all have that are not instances of generic types.\<close>

fun plain_type :: "go_type \<Rightarrow> bool" where
  "plain_type (Defined pkg name) = (CHR ''/'' \<notin> set name)"
| "plain_type _ = False"

definition plain_names :: "json_protocol \<Rightarrow> bool" where
  "plain_names j \<longleftrightarrow> (\<forall>t n. jp_names j t = Some n \<longrightarrow> plain_type t \<and> n = type_name t)"

lemma last_mark: "x @ c # y = x' @ c # y' \<Longrightarrow> c \<notin> set y \<Longrightarrow> c \<notin> set y' \<Longrightarrow> x = x' \<and> y = y'"
proof (induction x arbitrary: x')
  case Nil
  then show ?case by (cases x') auto
next
  case (Cons a x)
  then show ?case by (cases x') auto
qed

lemma type_name_inj: "plain_type t \<Longrightarrow> plain_type u \<Longrightarrow> type_name t = type_name u \<Longrightarrow> t = u"
  by (cases t; cases u) (auto simp: type_name_def dest: last_mark)

lemma Register_consistent:
  assumes "plain_type (elem_type t)" and "consistent j" and "plain_names j"
  shows "\<exists>j'. Register (Some t) j = Inr j' \<and> consistent j' \<and> plain_names j' \<and> jp_names j' (elem_type t) = Some (type_name (elem_type t))"
proof -
  let ?rt = "elem_type t"
  let ?j = "j\<lparr>jp_types := (jp_types j)(type_name ?rt := Some ?rt), jp_names := (jp_names j)(?rt := Some (type_name ?rt))\<rparr>"
  have "u = ?rt" if "jp_names j u = Some (type_name ?rt)" for u
    using that assms(1,3) type_name_inj unfolding plain_names_def by blast
  then have "consistent ?j" using assms(2) unfolding consistent_def by auto
  moreover have "plain_names ?j" using assms(1,3) unfolding plain_names_def by auto
  ultimately show ?thesis by (simp add: Register_def Let_def)
qed

text \<open>Registering any types of this kind, in any order and however often, keeps the registry consistent.\<close>

fun register_all :: "go_type list \<Rightarrow> json_protocol \<Rightarrow> json_protocol go" where
  "register_all [] j = Inr j"
| "register_all (t # ts) j = go_bind (Register (Some t) j) (register_all ts)"

theorem registered_types_arrive:
  assumes "\<forall>t \<in> set ts. plain_type (elem_type t)"
  shows "\<exists>j. register_all ts Json = Inr j \<and> consistent j \<and> plain_names j"
proof -
  have "\<exists>j'. register_all ts j = Inr j' \<and> consistent j' \<and> plain_names j'" if "consistent j" "plain_names j" for j
    using assms that
  proof (induction ts arbitrary: j)
    case (Cons t ts)
    obtain j1 where "Register (Some t) j = Inr j1" "consistent j1" "plain_names j1"
      using Register_consistent [of t j] Cons.prems by auto
    then show ?case using Cons by simp
  qed simp
  then show ?thesis by (simp add: Json_def consistent_def plain_names_def)
qed

text \<open>A message of a type that both ends know under the same name is read as a value of that type: what the
  stream delivers is only assumed to be the head and the body that were encoded.\<close>

theorem json_message_arrives:
  assumes "consistent q" and "typeOf v = Some t" and "jp_names p (elem_type t) = Some n" and "n \<noteq> []"
    and "jp_names q (elem_type t) = Some n"
    and "encode n v = Inr bs" and "decode s = (Inr \<lparr>ji_Head = n, ji_Body = Some raw\<rparr>, s')"
  shows "json_Send encode typeOf p v = Inr (Inr bs)"
    and "json_Receive decode unmarshal q s = Inr (unmarshal raw (Some (elem_type t)), s')"
  using assms unfolding consistent_def by (simp_all add: json_Send_def json_Receive_def)

text \<open>Two type literals have the same name: the later one is read in place of the earlier one.\<close>

lemma literals_share_a_name:
  assumes "a \<noteq> b"
  shows "\<exists>j. register_all [Literal a, Literal b] Json = Inr j
    \<and> jp_names j (Literal a) = Some ''/'' \<and> jp_types j ''/'' = Some (Literal b)"
  using assms by (simp add: Json_def Register_def Let_def type_name_def)

text \<open>A message without a body, or with the body null, which is what a nil pointer is encoded as, ends the program
  that receives it.\<close>

theorem missing_body_panics:
  assumes "decode s = (Inr \<lparr>ji_Head = n, ji_Body = None\<rparr>, s')"
  shows "panics (json_Receive decode unmarshal p s)"
  using assms by (simp add: json_Receive_def nil_type_def panics_def)

theorem nil_message_panics: "typeOf v = None \<Longrightarrow> panics (json_Send encode typeOf p v)"
  by (simp add: json_Send_def nil_type_def panics_def)

end
