(* ===== verification/Spec2Isabelle.thy ===== *)
theory Spec2Isabelle
  imports Codec_Properties Protocol_Properties Gem_Properties Sml_Properties Item_Unroll Stream_Properties Link_Server
    Hsms_Logging Two_Ends T8_Deadline Json_Codec
begin

text \<open>
  A model of \<open>secs4go\<close>, a Go implementation of the semiconductor equipment protocols SECS-II (message
  contents), HSMS (transport over TCP) and GEM (equipment behaviour), with proofs about it. Paths below
  are relative to \<open>src/\<close>; \<open>ast\<close>, \<open>hsms-parser\<close> and \<open>sml\<close> stand for \<open>lib-secs2-hsms-go/pkg/ast\<close>,
  \<open>pkg/parser/hsms\<close> and \<open>pkg/parser/sml\<close>.

  The parts and how they work together. A data message holds a tree of items (\<open>ast\<close>). A stream of bytes is
  cut into messages by the codec (\<open>codec/secs2.go\<close>), which calls the byte parser (\<open>hsms-parser\<close>). The same
  messages have a text format, SML: \<open>String()\<close> of the nodes writes it, \<open>sml\<close> reads it. Sessions
  (\<open>session.go\<close>, \<open>manager.go\<close>, \<open>channel.go\<close>) wrap codecs. The HSMS protocol (\<open>hsms/\<close>) runs a connection state
  machine over a session, answers control messages, and gives each data message to the reply queue
  (\<open>utils/queue.go\<close>) of the call that waits for it, or to the handler registered for its stream and function,
  or answers it with a stream 9 error. The GEM handler (\<open>gem/\<close>) is such an application: it registers the
  handlers of streams 1, 2, 5, 6 and 7, keeps variables, constants, events, reports, alarms and programs,
  and runs the communication and control state machines of SEMI E30 on timers and goroutines.

  The theories.

  \<^item> \<^bold>\<open>Prelude\<close>, \<^bold>\<open>Go_Base\<close>: results of Go code (\<open>go\<close>: a value or a panic; \<open>res\<close>: a value or an error), loops that may
    fail, and what the source uses of Go: values of type \<open>interface\{\}\<close> (\<open>goval\<close>), integers at their width as
    words, slices with their capacity, runes, decimal numbers, floats as bit patterns.
  \<^item> \<^bold>\<open>Item_Node\<close>, \<^bold>\<open>Item_Factory\<close>, \<^bold>\<open>Item_Encode\<close>: \<open>ast/\<close>, the item nodes with their factories, representation
    checks, accessors, filling of the variables of leaves, and encoders. \<^bold>\<open>Item_Fill\<close>: \<open>FillVariables\<close> of lists
    and messages with the expansion of ellipses (\<open>ast/list.go\<close>), \<^bold>\<open>Item_Rename\<close>: the copies it makes of items
    with variables, \<^bold>\<open>Item_Unroll\<close>: what it gives on lists without inner lists. \<^bold>\<open>Item_Print\<close>: \<open>String()\<close> of nodes and messages.
  \<^item> \<^bold>\<open>Hsms_Message\<close>: \<open>ast/ast.go\<close>, \<open>ast/hsms.go\<close>. \<^bold>\<open>Hsms_Parser\<close>: \<open>hsms-parser\<close>. \<^bold>\<open>Hsms_Roundtrip\<close>: parsing what was encoded.
    \<^bold>\<open>Secs_Codec\<close>: \<open>codec/secs2.go\<close>. \<^bold>\<open>Codec_Properties\<close>: the properties of this layer.
  \<^item> \<^bold>\<open>Go_Streams\<close>: readers and writers of \<open>io\<close> and \<open>bufio\<close>, with the locale \<open>byte_source\<close> as the contract of a
    reader. \<^bold>\<open>Stream_Codecs\<close>: \<open>codec/bufio.go\<close>, \<open>codec/fixlen.go\<close>, \<open>codec/byte.go\<close> and the reads of
    \<open>codec/secs2.go\<close>. \<^bold>\<open>Stream_Properties\<close>: the buffered codec refines the codec on bytes; the locale
    \<open>message_codec\<close> is what a length prefix needs of the codec it wraps. \<^bold>\<open>Json_Codec\<close>: \<open>codec/json.go\<close>, with the text
    on the wire (\<open>encoding/json\<close>) as parameters.
  \<^item> \<^bold>\<open>Go_Text\<close>: what the text format uses of Go, \<open>strconv\<close> (quoting, unquoting, integers, floats) and letters and
    digits beyond ASCII (\<open>unicode\<close>, a parameter). \<^bold>\<open>Sml_Lexer\<close>: \<open>sml/lexer.go\<close>, the state functions with position,
    width, last state and token channel. \<^bold>\<open>Sml_Scan\<close>: a reference scanner without that state, and that each
    state function performs a step of it; \<^bold>\<open>Sml_Tokens\<close>: that \<open>nextToken\<close> delivers its tokens.
    \<^bold>\<open>Sml_Parser\<close>: \<open>sml/parser.go\<close>. \<^bold>\<open>Sml_Sound\<close>: the parser ends and yields valid messages. \<^bold>\<open>Sml_Relex\<close>,
    \<^bold>\<open>Sml_Headers\<close>: the tokens of a printed item and of a printed message; \<^bold>\<open>Sml_Roundtrip\<close>: what the parser
    makes of them. \<^bold>\<open>Sml_Properties\<close>: the properties of the text format.
  \<^item> \<^bold>\<open>Registry\<close>: the locales \<open>registry\<close>, \<open>fifo\<close> and \<open>ordered_registry\<close>, the contracts of keyed stores, of queues
    and of registries that keep the order of registration. They are interpreted for the reply queues,
    handlers, sessions, programs, variables, constants and events of the code.
  \<^item> \<^bold>\<open>Deque_Queue\<close>: \<open>utils/queue.go\<close>. \<^bold>\<open>Link_Session\<close>: \<open>session.go\<close>, \<open>manager.go\<close>, \<open>channel.go\<close>.
    \<^bold>\<open>Link_Server\<close>: \<open>server.go\<close>, \<open>api.go\<close>.
  \<^item> \<^bold>\<open>Conn_Fsm\<close>, \<^bold>\<open>Secs_Timeout\<close>, \<^bold>\<open>S9_Errors\<close>, \<^bold>\<open>Hsms_Protocol\<close>: \<open>hsms/\<close>, the connection states, settings and back-off,
    stream 9 messages, and the protocol with its goroutines cut at their waits. \<^bold>\<open>Protocol_Frames\<close> holds
    the locale \<open>protocol_view\<close> (what no operation changes), \<^bold>\<open>Protocol_Serving\<close> its extension by the life
    cycle, \<^bold>\<open>Protocol_Properties\<close> the step relation \<open>hsms_step\<close>, its invariant and the properties.
    \<^bold>\<open>Two_Ends\<close>: two protocols and their codecs at the ends of one connection: they get selected, and exchange a
    request and its answer. \<^bold>\<open>T8_Deadline\<close>: the receiver with the read deadline and the times at which bytes arrive.
    \<^bold>\<open>Hsms_Logging\<close>: the message log of \<open>hsms/protocol.go\<close> and its options in \<open>gem/config.go\<close>, beside the
    protocol, which it does not change.
  \<^item> \<^bold>\<open>Gem_Ids\<close>, \<^bold>\<open>Gem_Control\<close>, \<^bold>\<open>Gem_Variables\<close>, \<^bold>\<open>Event_Hooks\<close>, \<^bold>\<open>Gem_Events\<close>, \<^bold>\<open>Gem_Remote\<close>, \<^bold>\<open>Gem_Alarms\<close>, \<^bold>\<open>Gem_Programs\<close>,
    \<^bold>\<open>Gem_Clock\<close>: the components of \<open>gem/\<close> (and \<open>common/events.go\<close>), each with its data, operations, messages
    and lemmas. \<^bold>\<open>Gem_Handler\<close>: \<open>gem/handler.go\<close> with \<open>gem/communication_state.go\<close> and \<open>gem/config.go\<close>. \<^bold>\<open>Gem_Client\<close>: the
    calls of a host.
  \<^item> \<^bold>\<open>Gem_Invariants\<close>, \<^bold>\<open>Gem_Steps\<close>: the invariant of a handler, the step relation \<open>gem_step\<close> of a handler on its
    protocol, and that every reachable state satisfies the invariant. \<^bold>\<open>Gem_Refinement\<close>: each step is a
    transition of the E30 control state model or none. \<^bold>\<open>Gem_Services\<close>, \<^bold>\<open>Gem_Reports\<close>, \<^bold>\<open>Gem_Properties\<close>: the
    properties of identifiers, commands, requests, constants, reports, programs, and of the handler.

  How the state corresponds. A Go struct is a record with the fields that matter to behaviour, a Go interface
  a datatype of its implementations, a map a function to \<open>option\<close> or an association list. Mutexes are left
  out: what runs under one lock is one step. A goroutine that blocks is cut at the wait (\<open>X_begin\<close>, \<open>X_end\<close>), and
  goroutines that are started are counted or listed in the state, so their interleaving is the order of
  steps. A closing session's callbacks are run one by one,
  interleaved with everything else (\<open>link_step\<close>). The reply queue is modelled at the points where its mutex is
  free (\<open>deque_step\<close>); in the protocol a \<open>Get\<close> that lost its wake-up is the step \<open>wakeup_lost\<close>. Setting
  \<open>connected\<close> and the connect event are one step. Timers are flags or the seconds they were armed with; firing is a step. Arrival
  times appear in \<open>T8_Deadline\<close> only. The TCP connection is the list of byte strings written and a flag whether it is broken; the environment may change it at any time.

  What is assumed. The state machine package \<open>looplab/fsm\<close> is a parameter with its documented behaviour
  (\<open>fsm_documented\<close>), shown satisfiable by \<open>table_fire\<close>. A time is what a clock shows
  together with its offset from UTC. Callbacks and handlers of the application are
  functions; the step relation \<open>gem_step\<close> takes those that change the application's own state only
  (\<open>world_only\<close>) and do not call back into the handler. The text Go prints for a float is a parameter.

  Bounds and termination. Recursive parsing of bytes is total by the remaining input; loops over lists are
  structural. The SML parser runs on fuel, \<open>parse_fuel\<close>, the length of the input and two: each nested item
  and each message takes a token, and \<open>ParseSML_answers\<close> shows that it is never used up. The expansion of an
  ellipsis is bounded by the number it is filled with, which \<open>FillVariables_returns\<close> shows to be enough.
  Where Go could run without end (a connect thread without a limit) the result says so.

  What the properties show: that messages survive encoding and decoding on a stream (with items of at most 255
  bytes, the limit of the parser's length decoding); that the parser is
  total and yields valid messages only; that the SML lexer is its reference scanner, that its parser always
  answers and reads what is printed; what filling an ellipsis gives and that it ends; the invariants of protocol
  and handler over all reachable states; that two ends get selected and exchange a request and its answer, unless their system bytes
  collide; how T8 bounds a
  wait; the select handshake, reply correlation, dispatch and error answers of the protocol; that the handler refines the E30 control model and that an equipment comes on-line; the round trips of event reports,
  commands and programs, and what becomes of times and identifiers; and where the code departs from what it means to do, each with a
  concrete witness.

  Not modelled: the structured logger of the handler (\<open>gem/logger.go\<close>, \<open>common/logger.go\<close>) and what the SML
  parser prints for debugging; the unused \<open>secs/handler.go\<close>; examples and test programs. They keep no state
  that the library reads.
\<close>

end
